(* ===== verification/Prelude.thy ===== *)
theory Prelude
  imports Main "HOL-Library.Word"
begin

text \<open>
  The vocabulary every component shares: outcomes of fallible Rust code, Rust's iterator
  helpers on lists, insertion-ordered maps, and the collections of hints that the
  component theories fill.

  A Rust function of type \<open>Result<T, E>\<close> returns \<open>Ok\<close> or \<open>Err\<close>, and may also panic
  (\<open>expect\<close>, \<open>unwrap\<close>, an index out of range). \<open>('e, 'a) outcome\<close> has one
  constructor for each of the three.
\<close>

section \<open>Outcomes\<close>

datatype ('e, 'a) outcome = Ok 'a | Err 'e | Panic

fun obind :: "('e, 'a) outcome \<Rightarrow> ('a \<Rightarrow> ('e, 'b) outcome) \<Rightarrow> ('e, 'b) outcome" where
  "obind (Ok a) f = f a"
| "obind (Err e) f = Err e"
| "obind Panic f = Panic"

text \<open>\<open>Option::ok_or\<close>, \<open>Option::expect\<close> and \<open>Result::map_err\<close>.\<close>

definition ok_or :: "'a option \<Rightarrow> 'e \<Rightarrow> ('e, 'a) outcome" where
  "ok_or x e = (case x of None \<Rightarrow> Err e | Some a \<Rightarrow> Ok a)"

definition expect :: "'a option \<Rightarrow> ('e, 'a) outcome" where
  "expect x = (case x of None \<Rightarrow> Panic | Some a \<Rightarrow> Ok a)"

fun map_err :: "('e \<Rightarrow> 'f) \<Rightarrow> ('e, 'a) outcome \<Rightarrow> ('f, 'a) outcome" where
  "map_err f (Ok a) = Ok a"
| "map_err f (Err e) = Err (f e)"
| "map_err f Panic = Panic"

text \<open>A guard with early return: \<open>if c { bail!(e) }\<close>.\<close>

definition ensure :: "bool \<Rightarrow> 'e \<Rightarrow> ('e, unit) outcome" where
  "ensure c e = (if c then Ok () else Err e)"

fun is_ok :: "('e, 'a) outcome \<Rightarrow> bool" where
  "is_ok (Ok a) = True"
| "is_ok (Err e) = False"
| "is_ok Panic = False"

lemma obind_eq_Ok [simp]: "obind m f = Ok b \<longleftrightarrow> (\<exists>a. m = Ok a \<and> f a = Ok b)"
  by (cases m) auto

lemma obind_eq_Panic [simp]: "obind m f = Panic \<longleftrightarrow> m = Panic \<or> (\<exists>a. m = Ok a \<and> f a = Panic)"
  by (cases m) auto

lemma obind_assoc: "obind (obind m f) g = obind m (\<lambda>x. obind (f x) g)"
  by (cases m) auto

lemma ensure_eq_Ok [simp]: "ensure c e = Ok u \<longleftrightarrow> c"
  by (simp add: ensure_def)

lemma ensure_neq_Panic [simp]: "ensure c e \<noteq> Panic"
  by (simp add: ensure_def)

lemma ok_or_eq_Ok [simp]: "ok_or x e = Ok a \<longleftrightarrow> x = Some a"
  by (cases x) (auto simp: ok_or_def)

lemma ok_or_neq_Panic [simp]: "ok_or x e \<noteq> Panic"
  by (cases x) (auto simp: ok_or_def)

lemma expect_eq_Ok [simp]: "expect x = Ok a \<longleftrightarrow> x = Some a"
  by (cases x) (auto simp: expect_def)

lemma map_err_eq_Ok [simp]: "map_err f m = Ok a \<longleftrightarrow> m = Ok a"
  by (cases m) auto

lemma map_err_eq_Panic [simp]: "map_err f m = Panic \<longleftrightarrow> m = Panic"
  by (cases m) auto

lemma is_ok_iff: "is_ok m \<longleftrightarrow> (\<exists>a. m = Ok a)"
  by (cases m) auto

section \<open>Iterators\<close>

text \<open>\<open>Iterator::position\<close>: the index of the first element satisfying the predicate.\<close>

fun position :: "('a \<Rightarrow> bool) \<Rightarrow> 'a list \<Rightarrow> nat option" where
  "position P [] = None"
| "position P (x # xs) = (if P x then Some 0 else map_option Suc (position P xs))"

lemma position_None: "position P xs = None \<longleftrightarrow> (\<forall>x \<in> set xs. \<not> P x)"
  by (induction xs) auto

lemma position_Some: "position P xs = Some i \<Longrightarrow> i < length xs \<and> P (xs ! i)"
  by (induction xs arbitrary: i) (auto split: if_splits)

text \<open>A fallible \<open>for\<close> loop with an accumulator: the first error or panic ends it.\<close>

fun ofold :: "('x \<Rightarrow> 's \<Rightarrow> ('e, 's) outcome) \<Rightarrow> 'x list \<Rightarrow> 's \<Rightarrow> ('e, 's) outcome" where
  "ofold f [] s = Ok s"
| "ofold f (x # xs) s = obind (f x s) (ofold f xs)"

lemma ofold_cong [fundef_cong]:
  assumes "xs = ys" and "s = t" and "\<And>x a. x \<in> set ys \<Longrightarrow> f x a = g x a"
  shows "ofold f xs s = ofold g ys t"
  unfolding assms(1,2) using assms(3)
proof (induction ys arbitrary: t)
  case (Cons y ys)
  have "f y t = g y t" by (rule Cons.prems) simp
  moreover have "ofold f ys = ofold g ys"
    by (rule ext, rule Cons.IH) (use Cons.prems in simp)
  ultimately show ?case by simp
qed simp

lemma ofold_invariant:
  assumes "ofold f xs s = Ok t" and "I s"
    and "\<And>x a b. x \<in> set xs \<Longrightarrow> I a \<Longrightarrow> f x a = Ok b \<Longrightarrow> I b"
  shows "I t"
  using assms
proof (induction xs arbitrary: s)
  case (Cons x xs)
  then obtain u where u: "f x s = Ok u" "ofold f xs u = Ok t" by auto
  have "I u" using Cons.prems(3) [of x s u] Cons.prems(2) u(1) by simp
  then show ?case
    by (rule Cons.IH [OF u(2)]) (use Cons.prems(3) in \<open>auto intro: list.set_intros(2)\<close>)
qed simp

lemma ofold_outcome:
  assumes "\<And>x s. x \<in> set xs \<Longrightarrow> Q (f x s)" and "\<And>s. Q (Ok s)"
  shows "Q (ofold f xs s)"
  using assms(1)
proof (induction xs arbitrary: s)
  case (Cons x xs)
  show ?case
  proof (cases "f x s")
    case (Ok t)
    then show ?thesis using Cons by simp
  next
    case (Err e)
    then show ?thesis using Cons.prems [of x s] by simp
  next
    case Panic
    then show ?thesis using Cons.prems [of x s] by simp
  qed
qed (simp add: assms(2))

lemma ofold_append: "ofold f (xs @ ys) s = obind (ofold f xs s) (ofold f ys)"
proof (induction xs arbitrary: s)
  case (Cons x xs)
  then show ?case by (cases "f x s") auto
qed simp

text \<open>A fallible \<open>map(...).collect::<Result<_, _>>()\<close>.\<close>

fun omap :: "('x \<Rightarrow> ('e, 'y) outcome) \<Rightarrow> 'x list \<Rightarrow> ('e, 'y list) outcome" where
  "omap f [] = Ok []"
| "omap f (x # xs) = obind (f x) (\<lambda>y. obind (omap f xs) (\<lambda>ys. Ok (y # ys)))"

lemma omap_Ok: "omap f xs = Ok ys \<longleftrightarrow> list_all2 (\<lambda>x y. f x = Ok y) xs ys"
  by (induction xs arbitrary: ys) (auto simp: list_all2_Cons1)

lemma omap_member: "omap f xs = Ok ys \<Longrightarrow> x \<in> set xs \<Longrightarrow> \<exists>y \<in> set ys. f x = Ok y"
  by (induction xs arbitrary: ys) auto

lemma omap_no_panic: "(\<And>x. x \<in> set xs \<Longrightarrow> f x \<noteq> Panic) \<Longrightarrow> omap f xs \<noteq> Panic"
  by (induction xs) auto

section \<open>Lists used as bounded queues\<close>

text \<open>\<open>Vec::retain\<close> with the predicate "differs from \<open>x\<close>".\<close>

definition retain_ne :: "'a \<Rightarrow> 'a list \<Rightarrow> 'a list" where
  "retain_ne x xs = filter (\<lambda>y. y \<noteq> x) xs"

lemma set_retain_ne [simp]: "set (retain_ne x xs) = set xs - {x}"
  by (auto simp: retain_ne_def)

lemma distinct_retain_ne [simp]: "distinct xs \<Longrightarrow> distinct (retain_ne x xs)"
  by (simp add: retain_ne_def)

lemma length_retain_ne: "length (retain_ne x xs) \<le> length xs"
  by (simp add: retain_ne_def)

lemma retain_ne_notin [simp]: "x \<notin> set xs \<Longrightarrow> retain_ne x xs = xs"
  by (auto simp: retain_ne_def filter_id_conv)

section \<open>Hints\<close>

named_theorems inv_intros "operations that keep a component's invariant"
named_theorems step_simps "equations that unfold one operation of a component"

end
