(* ===== verification/Game_Interface.thy ===== *)
theory Game_Interface
  imports Prelude
begin

text \<open>
  The \<open>Game\<close> trait of \<open>rust-server/src/game.rs\<close>: the boundary between the runtime and a
  compiled game. A game is a record of the trait's methods, polymorphic in the associated
  types \<open>Config\<close>, \<open>State\<close>, \<open>Action\<close>, \<open>Observation\<close> and \<open>Completion\<close>. The contract the
  runtime relies on is a locale, which each compiled game interprets.
\<close>

section \<open>Roles and rejections\<close>

datatype player_role = RoleA | RoleB

fun role_str :: "player_role \<Rightarrow> string" where
  "role_str RoleA = ''A''"
| "role_str RoleB = ''B''"

instantiation player_role :: linorder
begin

definition less_eq_player_role :: "player_role \<Rightarrow> player_role \<Rightarrow> bool" where
  "less_eq_player_role a b \<longleftrightarrow> a = RoleA \<or> b = RoleB"

definition less_player_role :: "player_role \<Rightarrow> player_role \<Rightarrow> bool" where
  "less_player_role a b \<longleftrightarrow> a = RoleA \<and> b = RoleB"

instance
proof
  fix x y z :: player_role
  show "(x < y) = (x \<le> y \<and> \<not> y \<le> x)"
    by (cases x; cases y) (simp_all add: less_eq_player_role_def less_player_role_def)
  show "x \<le> x" by (cases x) (simp_all add: less_eq_player_role_def)
  show "x \<le> y \<Longrightarrow> y \<le> z \<Longrightarrow> x \<le> z"
    by (cases x; cases y; cases z) (simp_all add: less_eq_player_role_def)
  show "x \<le> y \<Longrightarrow> y \<le> x \<Longrightarrow> x = y"
    by (cases x; cases y) (simp_all add: less_eq_player_role_def)
  show "x \<le> y \<or> y \<le> x" by (cases x) (simp_all add: less_eq_player_role_def)
qed

end

lemma role_str_inj [simp]: "role_str a = role_str b \<longleftrightarrow> a = b"
  by (cases a; cases b) simp_all

record action_rejection =
  rej_code :: string

abbreviation rejection :: "string \<Rightarrow> action_rejection" where
  "rejection c \<equiv> \<lparr>rej_code = c\<rparr>"

section \<open>The trait\<close>

type_synonym seed = "64 word"
type_synonym secret_values = "string \<rightharpoonup> string"

record ('cfg, 'st, 'act, 'obs, 'compl) game =
  g_initial :: "'cfg \<Rightarrow> seed \<Rightarrow> secret_values \<Rightarrow> (string, 'st) outcome"
  g_apply :: "'st \<Rightarrow> 'act \<Rightarrow> player_role \<Rightarrow> (action_rejection, 'st) outcome"
  g_observation :: "'st \<Rightarrow> player_role \<Rightarrow> 'obs"
  g_available :: "'st \<Rightarrow> player_role \<Rightarrow> 'act list option"
  g_completion :: "'st \<Rightarrow> 'compl option"

text \<open>
  A play: the actions submitted by the two roles, in order. A rejected action leaves the
  state as it was, a panic stops the process (\<open>None\<close>).
\<close>

fun play :: "('cfg, 'st, 'act, 'obs, 'compl) game \<Rightarrow> 'st \<Rightarrow> ('act \<times> player_role) list \<Rightarrow> 'st option" where
  "play G s [] = Some s"
| "play G s ((a, r) # xs) =
     (case g_apply G s a r of
        Ok s' \<Rightarrow> play G s' xs
      | Err e \<Rightarrow> play G s xs
      | Panic \<Rightarrow> None)"

section \<open>The contract\<close>

text \<open>
  What the runtime may assume of a game: an invariant that holds initially and is kept by
  accepted actions, no panic under it, and one owning role per action (an action accepted
  from one role is refused from the other).
\<close>

locale game_rules =
  fixes G :: "('cfg, 'st, 'act, 'obs, 'compl) game"
    and inv :: "'st \<Rightarrow> bool"
  assumes apply_inv: "inv s \<Longrightarrow> g_apply G s a r = Ok s' \<Longrightarrow> inv s'"
    and apply_no_panic: "inv s \<Longrightarrow> g_apply G s a r \<noteq> Panic"
    and one_owner: "inv s \<Longrightarrow> g_apply G s a r = Ok s' \<Longrightarrow> g_apply G s a r' = Ok s'' \<Longrightarrow> r = r'"
begin

lemma play_total: "inv s \<Longrightarrow> \<exists>t. play G s xs = Some t \<and> inv t"
proof (induction xs arbitrary: s)
  case (Cons x xs)
  obtain a r where x: "x = (a, r)" by (cases x)
  show ?case
  proof (cases "g_apply G s a r")
    case (Ok s')
    then show ?thesis using Cons x apply_inv by simp
  next
    case (Err e)
    then show ?thesis using Cons x by simp
  next
    case Panic
    then show ?thesis using Cons.prems apply_no_panic by blast
  qed
qed simp

lemma play_inv: "inv s \<Longrightarrow> play G s xs = Some t \<Longrightarrow> inv t"
  using play_total [of s xs] by auto

end

text \<open>A game whose action catalogue is sound: whatever it lists is accepted.\<close>

locale catalogue_game = game_rules G inv
  for G :: "('cfg, 'st, 'act, 'obs, 'compl) game" and inv :: "'st \<Rightarrow> bool" +
  assumes available_accepted:
    "inv s \<Longrightarrow> g_available G s r = Some acts \<Longrightarrow> a \<in> set acts \<Longrightarrow> is_ok (g_apply G s a r)"
begin

lemma catalogues_disjoint:
  assumes "inv s" "g_available G s r = Some acts" "g_available G s r' = Some acts'" "r \<noteq> r'"
  shows "set acts \<inter> set acts' = {}"
proof (rule ccontr)
  assume "set acts \<inter> set acts' \<noteq> {}"
  then obtain a where a: "a \<in> set acts" "a \<in> set acts'" by blast
  obtain s' s'' where "g_apply G s a r = Ok s'" "g_apply G s a r' = Ok s''"
    using available_accepted [OF assms(1,2) a(1)] available_accepted [OF assms(1,3) a(2)]
    by (auto simp: is_ok_iff)
  then have "r = r'" using one_owner [OF assms(1)] by blast
  then show False using assms(4) by simp
qed

lemma play_available:
  assumes "inv s" "g_available G s r = Some acts" "a \<in> set acts"
  shows "\<exists>s'. g_apply G s a r = Ok s' \<and> play G s [(a, r)] = Some s' \<and> inv s'"
proof -
  obtain s' where "g_apply G s a r = Ok s'"
    using available_accepted [OF assms] by (auto simp: is_ok_iff)
  then show ?thesis using apply_inv [OF assms(1)] by auto
qed

end

end
