(* ===== verification/Great_Tree.thy ===== *)
theory Great_Tree
  imports Game_Interface
begin

text \<open>
  The Great Tree example game, \<open>games/great-tree/server/src/game/\<close>: the identifiers
  (\<open>ids.rs\<close>), the seeded pairing of limbs and roots (\<open>bijection.rs\<close>), the state
  (\<open>types.rs\<close>), the mechanics (\<open>mechanics.rs\<close>) and the \<open>Game\<close> implementation
  (\<open>adapter.rs\<close>). The random generator of the \<open>rand\<close> crate is a parameter.
\<close>

section \<open>Identifiers (ids.rs)\<close>

datatype limb_id = Spire | Hook | Fork | Cradle | Nub

definition limbs_all :: "limb_id list" where
  "limbs_all = [Spire, Hook, Fork, Cradle, Nub]"

definition limb_index :: "limb_id \<Rightarrow> nat" where
  "limb_index l = (case position (\<lambda>x. x = l) limbs_all of Some i \<Rightarrow> i | None \<Rightarrow> 0)"

datatype root_id = Hand | Knot | Tip | Swollen | Deep

definition roots_all :: "root_id list" where
  "roots_all = [Hand, Knot, Tip, Swollen, Deep]"

definition root_index :: "root_id \<Rightarrow> nat" where
  "root_index r = (case position (\<lambda>x. x = r) roots_all of Some i \<Rightarrow> i | None \<Rightarrow> 0)"

text \<open>The \<open>expect\<close> of both index functions never fails: the lists are exhaustive.\<close>

lemma limb_position_total: "position (\<lambda>x. x = l) limbs_all = Some (limb_index l)"
  by (cases l) (simp_all add: limb_index_def limbs_all_def)

lemma root_position_total: "position (\<lambda>x. x = r) roots_all = Some (root_index r)"
  by (cases r) (simp_all add: root_index_def roots_all_def)

lemma limb_index_simps [simp]:
  "limb_index Spire = 0" "limb_index Hook = 1" "limb_index Fork = 2"
  "limb_index Cradle = 3" "limb_index Nub = 4"
  by (simp_all add: limb_index_def limbs_all_def)

lemma root_index_simps [simp]:
  "root_index Hand = 0" "root_index Knot = 1" "root_index Tip = 2"
  "root_index Swollen = 3" "root_index Deep = 4"
  by (simp_all add: root_index_def roots_all_def)

lemma limb_index_less [simp]: "limb_index l < 5"
  by (cases l) simp_all

lemma limb_index_inj [simp]: "limb_index l = limb_index m \<longleftrightarrow> l = m"
  by (cases l; cases m) simp_all

lemma set_limbs_all [simp]: "l \<in> set limbs_all"
  by (cases l) (simp_all add: limbs_all_def)

lemma set_roots_all [simp]: "r \<in> set roots_all"
  by (cases r) (simp_all add: roots_all_def)

lemma limbs_all_nth [simp]: "limbs_all ! limb_index l = l"
  by (cases l) (simp_all add: limbs_all_def)

lemma length_limbs_all [simp]: "length limbs_all = 5"
  by (simp add: limbs_all_def)

lemma length_roots_all [simp]: "length roots_all = 5"
  by (simp add: roots_all_def)

lemma distinct_all [simp]: "distinct limbs_all" "distinct roots_all"
  by (simp_all add: limbs_all_def roots_all_def)

lemma index_of_limb: "i < 5 \<Longrightarrow> \<exists>l. limb_index l = i"
proof -
  assume "i < 5"
  then have "i \<in> {0, 1, 2, 3, 4}" by auto
  then show ?thesis using limb_index_simps by fastforce
qed

lemma UNIV_limb: "UNIV = set limbs_all"
  by auto

lemma UNIV_root: "UNIV = set roots_all"
  by auto

instance limb_id :: finite
  by standard (simp add: UNIV_limb)

instance root_id :: finite
  by standard (simp add: UNIV_root)

lemma card_limbs: "card (UNIV :: limb_id set) = 5"
  by (simp add: UNIV_limb distinct_card)

lemma card_roots: "card (UNIV :: root_id set) = 5"
  by (simp add: UNIV_root distinct_card)

section \<open>Types (types.rs)\<close>

datatype crown_seat = SeatA | SeatB

definition crown_seat_default :: crown_seat where
  "crown_seat_default = SeatA"

fun seat_role :: "crown_seat \<Rightarrow> player_role" where
  "seat_role SeatA = RoleA"
| "seat_role SeatB = RoleB"

record great_tree_config =
  cfg_crown_seat :: crown_seat

text \<open>The arrays of length five are lists; their length is part of the invariant.\<close>

record great_tree_state =
  crown :: crown_seat
  sun_holds :: "limb_id list"
  water_holds :: "root_id list"
  limb_water :: "bool list"
  bijection :: "root_id list"

datatype great_tree_action = SetSun limb_id bool | SetFlow root_id bool

record limb_view =
  lv_id :: limb_id
  lv_sun :: bool
  lv_water :: bool

record root_view =
  rv_id :: root_id
  rv_thawed :: bool
  rv_running :: bool

datatype great_tree_observation = CrownObs "limb_view list" | RootObs "root_view list"

record great_tree_completion =
  flowered_limbs :: "limb_id list"

section \<open>Mechanics (mechanics.rs)\<close>

text \<open>\<open>limb_for_root\<close> panics when no limb is paired with the root, so it and the
  functions that call it return outcomes.\<close>

definition limb_for_root :: "great_tree_state \<Rightarrow> root_id \<Rightarrow> ('e, limb_id) outcome" where
  "limb_for_root s r = expect (find (\<lambda>l. bijection s ! limb_index l = r) limbs_all)"

definition sun :: "great_tree_state \<Rightarrow> limb_id \<Rightarrow> bool" where
  "sun s l \<longleftrightarrow> List.member (sun_holds s) l"

definition water :: "great_tree_state \<Rightarrow> limb_id \<Rightarrow> bool" where
  "water s l \<longleftrightarrow> limb_water s ! limb_index l"

definition flowered :: "great_tree_state \<Rightarrow> limb_id \<Rightarrow> bool" where
  "flowered s l \<longleftrightarrow> sun s l \<and> water s l"

definition thawed :: "great_tree_state \<Rightarrow> root_id \<Rightarrow> ('e, bool) outcome" where
  "thawed s r = obind (limb_for_root s r) (\<lambda>l. Ok (sun s l))"

definition running :: "great_tree_state \<Rightarrow> root_id \<Rightarrow> bool" where
  "running s r \<longleftrightarrow> List.member (water_holds s) r"

definition force_close_paired_root :: "great_tree_state \<Rightarrow> limb_id \<Rightarrow> great_tree_state" where
  "force_close_paired_root s l =
     s\<lparr>water_holds := retain_ne (bijection s ! limb_index l) (water_holds s),
       limb_water := (limb_water s)[limb_index l := False]\<rparr>"

definition apply_set_sun :: "great_tree_state \<Rightarrow> limb_id \<Rightarrow> bool \<Rightarrow> great_tree_state" where
  "apply_set_sun s l lit =
     (if lit then
        (if List.member (sun_holds s) l then s
         else
           let s1 =
             (if length (sun_holds s) = 3
              then force_close_paired_root (s\<lparr>sun_holds := tl (sun_holds s)\<rparr>) (hd (sun_holds s))
              else s)
           in s1\<lparr>sun_holds := sun_holds s1 @ [l]\<rparr>)
      else
        (if \<not> List.member (sun_holds s) l then s
         else force_close_paired_root (s\<lparr>sun_holds := retain_ne l (sun_holds s)\<rparr>) l))"

datatype flow_rejection = RootFrozen

definition apply_set_flow ::
    "great_tree_state \<Rightarrow> root_id \<Rightarrow> bool \<Rightarrow> (flow_rejection, great_tree_state) outcome" where
  "apply_set_flow s r open =
     (if open then
        (if List.member (water_holds s) r then Ok s
         else obind (thawed s r) (\<lambda>th.
           if \<not> th then Err RootFrozen
           else obind
             (if length (water_holds s) = 3
              then let s1 = s\<lparr>water_holds := tl (water_holds s)\<rparr>
                   in obind (limb_for_root s1 (hd (water_holds s))) (\<lambda>el.
                        Ok (s1\<lparr>limb_water := (limb_water s1)[limb_index el := False]\<rparr>))
              else Ok s) (\<lambda>s2.
             let s3 = s2\<lparr>water_holds := water_holds s2 @ [r]\<rparr>
             in obind (limb_for_root s3 r) (\<lambda>l.
                  Ok (s3\<lparr>limb_water := (limb_water s3)[limb_index l := True]\<rparr>)))))
      else
        (if \<not> List.member (water_holds s) r then Ok s
         else
           let s1 = s\<lparr>water_holds := retain_ne r (water_holds s)\<rparr>
           in obind (limb_for_root s1 r) (\<lambda>l.
                Ok (s1\<lparr>limb_water := (limb_water s1)[limb_index l := False]\<rparr>))))"


section \<open>The invariant of the mechanics\<close>

text \<open>
  \<open>paired s l\<close> is the root of limb \<open>l\<close>. The invariant: the arrays have their length and the
  pairing is a bijection, no more than three limbs hold sun, nothing is held twice, a limb
  has water exactly when its root runs, and a limb with water has sun.
\<close>

definition paired :: "great_tree_state \<Rightarrow> limb_id \<Rightarrow> root_id" where
  "paired s l = bijection s ! limb_index l"

definition pairing_ok :: "root_id list \<Rightarrow> bool" where
  "pairing_ok b \<longleftrightarrow> length b = 5 \<and> distinct b"

definition gt_inv :: "great_tree_state \<Rightarrow> bool" where
  "gt_inv s \<longleftrightarrow> pairing_ok (bijection s) \<and> length (limb_water s) = 5 \<and>
     distinct (sun_holds s) \<and> length (sun_holds s) \<le> 3 \<and> distinct (water_holds s) \<and>
     (\<forall>l. water s l \<longleftrightarrow> paired s l \<in> set (water_holds s)) \<and>
     (\<forall>l. water s l \<longrightarrow> sun s l)"

lemma sun_iff [simp]: "sun s l \<longleftrightarrow> l \<in> set (sun_holds s)"
  by (simp add: sun_def)

lemma running_iff [simp]: "running s r \<longleftrightarrow> r \<in> set (water_holds s)"
  by (simp add: running_def)

lemma paired_inj: "pairing_ok (bijection s) \<Longrightarrow> paired s l = paired s m \<longleftrightarrow> l = m"
  by (simp add: paired_def pairing_ok_def nth_eq_iff_index_eq)

lemma paired_surj:
  assumes "pairing_ok (bijection s)"
  shows "\<exists>l. paired s l = r"
proof -
  have "inj (paired s)" using paired_inj [OF assms] by (simp add: inj_on_def)
  then have "card (range (paired s)) = card (UNIV :: root_id set)"
    by (simp add: card_image card_limbs card_roots)
  then have "range (paired s) = UNIV"
    by (intro card_subset_eq) auto
  then show ?thesis by (metis rangeE UNIV_I)
qed

lemma limb_for_root_paired:
  assumes "pairing_ok (bijection s)"
  shows "limb_for_root s (paired s l) = Ok l"
proof -
  have "find (\<lambda>m. bijection s ! limb_index m = paired s l) limbs_all = Some l"
    using paired_inj [OF assms] unfolding paired_def [symmetric]
    by (cases l) (auto simp: limbs_all_def)
  then show ?thesis by (simp add: limb_for_root_def)
qed

lemma limb_for_root_total:
  assumes "pairing_ok (bijection s)"
  obtains l where "r = paired s l" and "limb_for_root s r = Ok l"
proof -
  obtain l where "paired s l = r" using paired_surj [OF assms] by blast
  with limb_for_root_paired [OF assms, of l] that show thesis by blast
qed

lemma thawed_paired:
  "pairing_ok (bijection s) \<Longrightarrow> thawed s (paired s l) = Ok (sun s l)"
  by (simp add: thawed_def limb_for_root_paired)

lemma gt_invD:
  assumes "gt_inv s"
  shows "pairing_ok (bijection s)" "length (limb_water s) = 5" "distinct (sun_holds s)"
    "length (sun_holds s) \<le> 3" "distinct (water_holds s)"
    "\<And>l. water s l \<longleftrightarrow> paired s l \<in> set (water_holds s)"
    "\<And>l. water s l \<Longrightarrow> l \<in> set (sun_holds s)"
  using assms by (auto simp: gt_inv_def)

text \<open>The roots that run are the roots of sunlit limbs, so there are never more than three.\<close>

lemma running_roots_subset:
  assumes "gt_inv s"
  shows "set (water_holds s) \<subseteq> paired s ` set (sun_holds s)"
proof
  fix r assume r: "r \<in> set (water_holds s)"
  obtain l where l: "paired s l = r" using paired_surj [OF gt_invD(1) [OF assms]] by blast
  with r have "water s l" using gt_invD(6) [OF assms] by simp
  then have "l \<in> set (sun_holds s)" using gt_invD(7) [OF assms] by simp
  with l show "r \<in> paired s ` set (sun_holds s)" by blast
qed

lemma water_holds_le_sun:
  assumes "gt_inv s"
  shows "length (water_holds s) \<le> length (sun_holds s)"
proof -
  have "card (set (water_holds s)) \<le> card (set (sun_holds s))"
    using running_roots_subset [OF assms]
    by (meson card_image_le card_mono finite_imageI finite_set le_trans)
  then show ?thesis
    using gt_invD(3,5) [OF assms] by (simp add: distinct_card)
qed

text \<open>With three roots running, no further root is thawed.\<close>

lemma full_roots_nothing_thawed:
  assumes inv: "gt_inv s" and full: "length (water_holds s) = 3" and r: "r \<notin> set (water_holds s)"
  shows "thawed s r = Ok False"
proof -
  note b = gt_invD(1) [OF inv]
  obtain l where l: "r = paired s l" and "limb_for_root s r = Ok l"
    by (rule limb_for_root_total [OF b])
  have "card (set (water_holds s)) = 3" "card (set (sun_holds s)) = 3"
    using full gt_invD(3-5) [OF inv] water_holds_le_sun [OF inv] by (simp_all add: distinct_card)
  moreover have "inj_on (paired s) (set (sun_holds s))"
    using paired_inj [OF b] by (simp add: inj_on_def)
  ultimately have "set (water_holds s) = paired s ` set (sun_holds s)"
    using running_roots_subset [OF inv] by (intro card_subset_eq) (auto simp: card_image)
  then have "l \<notin> set (sun_holds s)" using r l by blast
  then show ?thesis using l by (simp add: thawed_paired [OF b])
qed

section \<open>Every operation keeps the invariant\<close>

lemma force_close_fields [simp]:
  "bijection (force_close_paired_root s l) = bijection s"
  "sun_holds (force_close_paired_root s l) = sun_holds s"
  "crown (force_close_paired_root s l) = crown s"
  "water_holds (force_close_paired_root s l) = retain_ne (paired s l) (water_holds s)"
  "length (limb_water (force_close_paired_root s l)) = length (limb_water s)"
  "paired (force_close_paired_root s l) = paired s"
  by (simp_all add: force_close_paired_root_def paired_def fun_eq_iff)

lemma water_force_close:
  "length (limb_water s) = 5 \<Longrightarrow>
    water (force_close_paired_root s l) m \<longleftrightarrow> water s m \<and> m \<noteq> l"
  by (auto simp: water_def force_close_paired_root_def nth_list_update)

text \<open>Taking sun from a limb and closing its root keeps everything in step.\<close>

lemma lose_sun_inv:
  assumes inv: "gt_inv s" and hs: "set hs = set (sun_holds s) - {l}" "distinct hs" "length hs \<le> 3"
  shows "gt_inv (force_close_paired_root (s\<lparr>sun_holds := hs\<rparr>) l)"
proof -
  let ?s = "s\<lparr>sun_holds := hs\<rparr>"
  have p: "paired ?s = paired s" and w: "water ?s = water s"
    by (simp_all add: paired_def water_def fun_eq_iff)
  show ?thesis
    unfolding gt_inv_def
    using gt_invD [OF inv] hs paired_inj [OF gt_invD(1) [OF inv]]
    by (auto simp: p w water_force_close)
qed

lemma gain_sun_inv:
  assumes "gt_inv s" and "l \<notin> set (sun_holds s)" and "length (sun_holds s) < 3"
  shows "gt_inv (s\<lparr>sun_holds := sun_holds s @ [l]\<rparr>)"
proof -
  have "paired (s\<lparr>sun_holds := sun_holds s @ [l]\<rparr>) = paired s"
    "water (s\<lparr>sun_holds := sun_holds s @ [l]\<rparr>) = water s"
    by (simp_all add: paired_def water_def fun_eq_iff)
  then show ?thesis
    unfolding gt_inv_def using gt_invD [OF assms(1)] assms(2,3) by auto
qed

lemma apply_set_sun_inv [inv_intros]:
  assumes inv: "gt_inv s"
  shows "gt_inv (apply_set_sun s l lit)"
proof (cases "lit = (l \<in> set (sun_holds s))")
  case True
  then show ?thesis using inv by (simp add: apply_set_sun_def)
next
  case neq: False
  show ?thesis
  proof (cases lit)
    case False
    then show ?thesis
      using neq lose_sun_inv [OF inv, of "retain_ne l (sun_holds s)" l] gt_invD(3,4) [OF inv]
        length_retain_ne [of l "sun_holds s"]
      by (simp add: apply_set_sun_def)
  next
    case True
    show ?thesis
    proof (cases "length (sun_holds s) = 3")
      case full: True
      then obtain h hs where hs: "sun_holds s = h # hs" by (cases "sun_holds s") auto
      have "gt_inv (force_close_paired_root (s\<lparr>sun_holds := hs\<rparr>) h)"
        using gt_invD(3,4) [OF inv] hs by (intro lose_sun_inv [OF inv]) auto
      from gain_sun_inv [OF this] show ?thesis
        using True neq hs full by (simp add: apply_set_sun_def Let_def)
    next
      case False
      then show ?thesis
        using gain_sun_inv [OF inv] True neq gt_invD(4) [OF inv] by (simp add: apply_set_sun_def Let_def)
    qed
  qed
qed


text \<open>The four ways \<open>SetFlow\<close> can go under the invariant; the eviction branch is not one.\<close>

definition open_root :: "great_tree_state \<Rightarrow> limb_id \<Rightarrow> great_tree_state" where
  "open_root s l = s\<lparr>water_holds := water_holds s @ [paired s l],
     limb_water := (limb_water s)[limb_index l := True]\<rparr>"

definition close_root :: "great_tree_state \<Rightarrow> limb_id \<Rightarrow> great_tree_state" where
  "close_root s l = s\<lparr>water_holds := retain_ne (paired s l) (water_holds s),
     limb_water := (limb_water s)[limb_index l := False]\<rparr>"

lemma limb_for_root_update [simp]:
  "limb_for_root (s\<lparr>water_holds := ws\<rparr>) r = limb_for_root s r"
  "limb_for_root (s\<lparr>limb_water := lw\<rparr>) r = limb_for_root s r"
  by (simp_all add: limb_for_root_def)

lemma apply_set_flow_eq:
  assumes inv: "gt_inv s"
  shows "apply_set_flow s (paired s l) open =
    (if open = (paired s l \<in> set (water_holds s)) then Ok s
     else if \<not> open then Ok (close_root s l)
     else if l \<in> set (sun_holds s) then Ok (open_root s l)
     else Err RootFrozen)"
proof -
  note b = gt_invD(1) [OF inv]
  have "length (water_holds s) \<noteq> 3"
    if "paired s l \<notin> set (water_holds s)" "l \<in> set (sun_holds s)"
  proof
    assume "length (water_holds s) = 3"
    then have "(thawed s (paired s l) :: (unit, bool) outcome) = Ok False"
      by (rule full_roots_nothing_thawed [OF inv _ that(1)])
    then show False using that(2) by (simp add: thawed_paired [OF b])
  qed
  then show ?thesis
    by (auto simp: apply_set_flow_def thawed_paired [OF b] limb_for_root_paired [OF b]
        open_root_def close_root_def Let_def)
qed

lemma open_root_inv:
  assumes inv: "gt_inv s" and "paired s l \<notin> set (water_holds s)" "l \<in> set (sun_holds s)"
  shows "gt_inv (open_root s l)"
proof -
  have p: "paired (open_root s l) = paired s"
    by (simp add: open_root_def paired_def fun_eq_iff)
  have w: "water (open_root s l) m \<longleftrightarrow> water s m \<or> m = l" for m
    using gt_invD(2) [OF inv] by (auto simp: water_def open_root_def nth_list_update)
  show ?thesis
    unfolding gt_inv_def p w
    using gt_invD [OF inv] assms(2,3) paired_inj [OF gt_invD(1) [OF inv]]
    by (auto simp: open_root_def)
qed

lemma close_root_inv:
  assumes inv: "gt_inv s"
  shows "gt_inv (close_root s l)"
proof -
  have p: "paired (close_root s l) = paired s"
    by (simp add: close_root_def paired_def fun_eq_iff)
  have w: "water (close_root s l) m \<longleftrightarrow> water s m \<and> m \<noteq> l" for m
    using gt_invD(2) [OF inv] by (auto simp: water_def close_root_def nth_list_update)
  show ?thesis
    unfolding gt_inv_def p w
    using gt_invD [OF inv] paired_inj [OF gt_invD(1) [OF inv]]
    by (auto simp: close_root_def)
qed

lemma apply_set_flow_total:
  assumes inv: "gt_inv s"
  shows "apply_set_flow s r open = Err RootFrozen \<or> (\<exists>s'. apply_set_flow s r open = Ok s' \<and> gt_inv s')"
proof -
  obtain l where "r = paired s l" using paired_surj [OF gt_invD(1) [OF inv]] by metis
  then show ?thesis
    using apply_set_flow_eq [OF inv, of l "open"] inv open_root_inv close_root_inv by simp
qed

lemma apply_set_flow_inv [inv_intros]:
  "gt_inv s \<Longrightarrow> apply_set_flow s r open = Ok s' \<Longrightarrow> gt_inv s'"
  using apply_set_flow_total [of s r "open"] by auto

section \<open>The seeded pairing (bijection.rs)\<close>

text \<open>
  \<open>StdRng\<close>, \<open>shuffle\<close> and \<open>gen_range\<close> belong to the \<open>rand\<close> crate. They are parameters;
  \<open>rand_ok\<close> states their documented behaviour: a shuffle permutes its slice and a range
  sample is below the bound.
\<close>

definition generate ::
    "(seed \<Rightarrow> 'rng) \<Rightarrow> (root_id list \<Rightarrow> 'rng \<Rightarrow> root_id list \<times> 'rng) \<Rightarrow> (nat \<Rightarrow> 'rng \<Rightarrow> nat)
      \<Rightarrow> seed \<Rightarrow> limb_id \<times> root_id list" where
  "generate seed_from shuffle gen_range sd =
     (let rng = seed_from sd;
          (roots, rng') = shuffle roots_all rng;
          starting_index = gen_range (length limbs_all) rng'
      in (limbs_all ! starting_index, roots))"

definition rand_ok ::
    "(root_id list \<Rightarrow> 'rng \<Rightarrow> root_id list \<times> 'rng) \<Rightarrow> (nat \<Rightarrow> 'rng \<Rightarrow> nat) \<Rightarrow> bool" where
  "rand_ok shuffle gen_range \<longleftrightarrow>
     (\<forall>xs g. set (fst (shuffle xs g)) = set xs \<and> length (fst (shuffle xs g)) = length xs) \<and>
     (\<forall>n g. 0 < n \<longrightarrow> gen_range n g < n)"

lemma generate_pairing_ok:
  assumes "rand_ok shuffle gen_range" "generate seed_from shuffle gen_range sd = (l, b)"
  shows "pairing_ok b"
proof -
  have b: "b = fst (shuffle roots_all (seed_from sd))"
    using assms(2) by (auto simp: generate_def Let_def split: prod.splits)
  then have "set b = set roots_all" "length b = 5"
    using assms(1) by (auto simp: rand_ok_def)
  then show ?thesis
    unfolding pairing_ok_def by (metis card_distinct card_roots UNIV_root)
qed

section \<open>The Game implementation (adapter.rs)\<close>

definition root_role :: "great_tree_state \<Rightarrow> player_role" where
  "root_role s = (case seat_role (crown s) of RoleA \<Rightarrow> RoleB | RoleB \<Rightarrow> RoleA)"

fun role_for_action :: "great_tree_state \<Rightarrow> great_tree_action \<Rightarrow> player_role" where
  "role_for_action s (SetSun l lit) = seat_role (crown s)"
| "role_for_action s (SetFlow r open) = root_role s"

definition gt_initial_state ::
    "(seed \<Rightarrow> 'rng) \<Rightarrow> (root_id list \<Rightarrow> 'rng \<Rightarrow> root_id list \<times> 'rng) \<Rightarrow> (nat \<Rightarrow> 'rng \<Rightarrow> nat)
      \<Rightarrow> great_tree_config \<Rightarrow> seed \<Rightarrow> secret_values \<Rightarrow> (string, great_tree_state) outcome" where
  "gt_initial_state seed_from shuffle gen_range cfg sd secrets =
     (let (starting_limb, b) = generate seed_from shuffle gen_range sd;
          starting_root = b ! limb_index starting_limb;
          lw = (replicate 5 False)[limb_index starting_limb := True]
      in Ok \<lparr>crown = cfg_crown_seat cfg, sun_holds = [starting_limb],
             water_holds = [starting_root], limb_water = lw, bijection = b\<rparr>)"

fun gt_apply_action ::
    "great_tree_state \<Rightarrow> great_tree_action \<Rightarrow> player_role \<Rightarrow> (action_rejection, great_tree_state) outcome" where
  "gt_apply_action s action actor =
     (if actor \<noteq> role_for_action s action then Err (rejection ''wrong_role'')
      else (case action of
          SetSun l lit \<Rightarrow> Ok (apply_set_sun s l lit)
        | SetFlow r open \<Rightarrow>
            map_err (\<lambda>e. case e of RootFrozen \<Rightarrow> rejection ''root_frozen'') (apply_set_flow s r open)))"

declare gt_apply_action.simps [simp del, step_simps]

text \<open>\<open>thawed\<close> may panic, so may the root's observation.\<close>

definition root_view_of :: "great_tree_state \<Rightarrow> root_id \<Rightarrow> (string, root_view) outcome" where
  "root_view_of s r = obind (thawed s r) (\<lambda>t. Ok \<lparr>rv_id = r, rv_thawed = t, rv_running = running s r\<rparr>)"

definition gt_observation ::
    "great_tree_state \<Rightarrow> player_role \<Rightarrow> (string, great_tree_observation) outcome" where
  "gt_observation s role =
     (if role = seat_role (crown s)
      then Ok (CrownObs (map (\<lambda>l. \<lparr>lv_id = l, lv_sun = List.member (sun_holds s) l,
                                    lv_water = limb_water s ! limb_index l\<rparr>) limbs_all))
      else obind (ofold (\<lambda>r acc. obind (root_view_of s r) (\<lambda>v. Ok (acc @ [v]))) roots_all [])
             (\<lambda>vs. Ok (RootObs vs)))"

definition gt_available_actions ::
    "great_tree_state \<Rightarrow> player_role \<Rightarrow> great_tree_action list option" where
  "gt_available_actions s role = None"

definition gt_completion :: "great_tree_state \<Rightarrow> great_tree_completion option" where
  "gt_completion s =
     (let fl = filter (flowered s) limbs_all
      in if 3 \<le> length fl then Some \<lparr>flowered_limbs = fl\<rparr> else None)"

definition great_tree ::
    "(seed \<Rightarrow> 'rng) \<Rightarrow> (root_id list \<Rightarrow> 'rng \<Rightarrow> root_id list \<times> 'rng) \<Rightarrow> (nat \<Rightarrow> 'rng \<Rightarrow> nat) \<Rightarrow>
      (great_tree_config, great_tree_state, great_tree_action,
       (string, great_tree_observation) outcome, great_tree_completion) game" where
  "great_tree seed_from shuffle gen_range =
     \<lparr>g_initial = gt_initial_state seed_from shuffle gen_range, g_apply = gt_apply_action,
      g_observation = gt_observation, g_available = gt_available_actions,
      g_completion = gt_completion\<rparr>"

lemma great_tree_sel [simp]:
  "g_initial (great_tree sf sh gr) = gt_initial_state sf sh gr"
  "g_apply (great_tree sf sh gr) = gt_apply_action"
  "g_observation (great_tree sf sh gr) = gt_observation"
  "g_available (great_tree sf sh gr) = gt_available_actions"
  "g_completion (great_tree sf sh gr) = gt_completion"
  by (simp_all add: great_tree_def)

lemma gt_apply_inv [inv_intros]:
  "gt_inv s \<Longrightarrow> gt_apply_action s a r = Ok s' \<Longrightarrow> gt_inv s'"
  by (cases a) (auto simp: gt_apply_action.simps intro: inv_intros split: if_splits)

lemma gt_apply_no_panic:
  assumes "gt_inv s"
  shows "gt_apply_action s a r \<noteq> Panic"
proof (cases a)
  case (SetFlow x op)
  then show ?thesis
    using apply_set_flow_total [OF assms, of x op] by (auto simp: gt_apply_action.simps)
qed (simp add: gt_apply_action.simps)

interpretation gt: catalogue_game "great_tree sf sh gr" gt_inv
proof unfold_locales
  fix s a r r' s' s''
  assume "g_apply (great_tree sf sh gr) s a r = Ok s'" "g_apply (great_tree sf sh gr) s a r' = Ok s''"
  then show "r = r'" by (simp add: gt_apply_action.simps split: if_splits)
qed (auto intro: gt_apply_inv simp: gt_apply_no_panic gt_available_actions_def)

lemma gt_initial_inv [inv_intros]:
  assumes "rand_ok shuffle gen_range" "gt_initial_state sf shuffle gen_range cfg sd sec = Ok s"
  shows "gt_inv s"
proof -
  obtain l b where g: "generate sf shuffle gen_range sd = (l, b)"
    by (cases "generate sf shuffle gen_range sd")
  note b = generate_pairing_ok [OF assms(1) g]
  have s: "s = \<lparr>crown = cfg_crown_seat cfg, sun_holds = [l], water_holds = [b ! limb_index l],
      limb_water = (replicate 5 False)[limb_index l := True], bijection = b\<rparr>"
    using assms(2) by (simp add: gt_initial_state_def g)
  have "water s m \<longleftrightarrow> m = l" for m
    by (auto simp: s water_def nth_list_update)
  moreover have "paired s m = paired s l \<longleftrightarrow> m = l" for m
    using paired_inj [of s m l] b by (simp add: s)
  ultimately show ?thesis
    using b by (auto simp: gt_inv_def s paired_def)
qed


section \<open>Properties\<close>

lemma ofold_append_views:
  assumes "\<And>r. r \<in> set rs \<Longrightarrow> \<exists>v. f r = Ok v"
  shows "\<exists>vs. ofold (\<lambda>r acc. obind (f r) (\<lambda>v. Ok (acc @ [v]))) rs acc = Ok vs"
  using assms
proof (induction rs arbitrary: acc)
  case (Cons r rs)
  then obtain v where "f r = Ok v" by force
  then show ?case using Cons.IH [of "acc @ [v]"] Cons.prems by simp
qed simp

lemma observation_total:
  assumes "gt_inv s"
  shows "\<exists>v. gt_observation s r = Ok v"
proof -
  have "\<exists>v. root_view_of s x = Ok v" for x
  proof -
    obtain l where "x = paired s l" using paired_surj [OF gt_invD(1) [OF assms]] by metis
    then show ?thesis by (simp add: root_view_of_def thawed_paired [OF gt_invD(1) [OF assms]])
  qed
  then show ?thesis
    using ofold_append_views [of roots_all "root_view_of s" "[]"] by (auto simp: gt_observation_def)
qed

text \<open>C39 (invariant). From the initial state of any seed, whatever the two players submit, the
  Great Tree never panics; no more than three limbs hold sun, no more roots run than limbs hold sun,
  a limb has water exactly when its root runs, a watered limb has sun, and both observations exist.\<close>

theorem great_tree_play_invariant:
  assumes "rand_ok shuffle gen_range"
    and "gt_initial_state seed_from shuffle gen_range cfg sd sec = Ok s"
  shows "\<exists>t. play (great_tree seed_from shuffle gen_range) s xs = Some t \<and> gt_inv t \<and>
     length (sun_holds t) \<le> 3 \<and> length (water_holds t) \<le> length (sun_holds t) \<and>
     (\<forall>l. water t l \<longrightarrow> flowered t l) \<and> (\<forall>r. \<exists>v. gt_observation t r = Ok v)"
proof -
  obtain t where "play (great_tree seed_from shuffle gen_range) s xs = Some t" and t: "gt_inv t"
    using gt.play_total [OF gt_initial_inv [OF assms]] by blast
  then show ?thesis
    using gt_invD(4,7) [OF t] water_holds_le_sun [OF t] observation_total [OF t]
    by (auto simp: flowered_def)
qed

text \<open>A generator for concrete instances: no shuffling and the first limb.\<close>

definition plain_shuffle :: "root_id list \<Rightarrow> unit \<Rightarrow> root_id list \<times> unit" where
  "plain_shuffle xs g = (xs, g)"

definition plain_range :: "nat \<Rightarrow> unit \<Rightarrow> nat" where
  "plain_range n g = 0"

lemma plain_rand_ok: "rand_ok plain_shuffle plain_range"
  by (simp add: rand_ok_def plain_shuffle_def plain_range_def)

definition plain_start :: great_tree_state where
  "plain_start = \<lparr>crown = SeatA, sun_holds = [Spire], water_holds = [Hand],
     limb_water = [True, False, False, False, False], bijection = [Hand, Knot, Tip, Swollen, Deep]\<rparr>"

lemma plain_start_initial:
  "gt_initial_state (\<lambda>_. ()) plain_shuffle plain_range \<lparr>cfg_crown_seat = SeatA\<rparr> 7 Map.empty = Ok plain_start"
  by code_simp

lemma plain_start_inv: "gt_inv plain_start"
  by (rule gt_initial_inv [OF plain_rand_ok plain_start_initial])

lemma great_tree_play_invariant_witness:
  "\<exists>t. play (great_tree (\<lambda>_. ()) plain_shuffle plain_range) plain_start
     [(SetSun Hook True, RoleA), (SetFlow Knot True, RoleB), (SetFlow Tip True, RoleB)] = Some t \<and>
     gt_inv t \<and> length (water_holds t) \<le> length (sun_holds t)"
  using great_tree_play_invariant [OF plain_rand_ok plain_start_initial] by blast

text \<open>Once three roots run, opening any other root is refused as frozen: the
  branch of \<open>SetFlow\<close> that evicts the oldest root is never taken.\<close>

theorem fourth_root_is_frozen:
  assumes "gt_inv s" and "length (water_holds s) = 3" and "r \<notin> set (water_holds s)"
  shows "gt_apply_action s (SetFlow r True) (root_role s) = Err (rejection ''root_frozen'')"
proof -
  have "(thawed s r :: (flow_rejection, bool) outcome) = Ok False"
    by (rule full_roots_nothing_thawed [OF assms])
  then show ?thesis
    using assms(3) by (simp add: gt_apply_action.simps apply_set_flow_def)
qed

definition full_tree :: great_tree_state where
  "full_tree = plain_start\<lparr>sun_holds := [Spire, Hook, Fork], water_holds := [Hand, Knot, Tip],
     limb_water := [True, True, True, False, False]\<rparr>"

lemma full_tree_inv: "gt_inv full_tree"
proof -
  have "play (great_tree (\<lambda>_. ()) plain_shuffle plain_range) plain_start
     [(SetSun Hook True, RoleA), (SetFlow Knot True, RoleB), (SetSun Fork True, RoleA),
      (SetFlow Tip True, RoleB)] = Some full_tree"
    by code_simp
  then show ?thesis by (rule gt.play_inv [OF plain_start_inv])
qed

lemma fourth_root_is_frozen_witness:
  "gt_apply_action full_tree (SetFlow Deep True) (root_role full_tree) = Err (rejection ''root_frozen'')"
  by (rule fourth_root_is_frozen [OF full_tree_inv]) (simp_all add: full_tree_def)

text \<open>Opening a root succeeds for the root player exactly when the root already
  runs or its warming limb has sun; it then runs, nothing that ran stops, and only its limb gets water.\<close>

theorem set_flow_open_spec:
  assumes "gt_inv s"
  shows "gt_apply_action s (SetFlow (paired s l) True) (root_role s) =
     (if paired s l \<in> set (water_holds s) then Ok s
      else if l \<in> set (sun_holds s) then Ok (open_root s l)
      else Err (rejection ''root_frozen''))"
  by (simp add: gt_apply_action.simps apply_set_flow_eq [OF assms])

lemma set_flow_open_spec_witness:
  "gt_apply_action plain_start (SetFlow (paired plain_start Hook) True) (root_role plain_start)
     = Err (rejection ''root_frozen'')"
  using set_flow_open_spec [OF plain_start_inv, of Hook]
  by (simp add: plain_start_def paired_def)

section \<open>Completion\<close>

lemma completion_iff_three_roots:
  assumes "gt_inv s"
  shows "gt_completion s \<noteq> None \<longleftrightarrow> length (water_holds s) = 3"
proof -
  note b = gt_invD(1) [OF assms]
  have fl: "set (filter (flowered s) limbs_all) = {l. paired s l \<in> set (water_holds s)}"
    using gt_invD(6,7) [OF assms] by (auto simp: flowered_def)
  have "paired s ` {l. paired s l \<in> set (water_holds s)} = set (water_holds s)"
    using paired_surj [OF b] by (auto simp: image_iff) metis
  moreover have "inj_on (paired s) A" for A
    using paired_inj [OF b] by (simp add: inj_on_def)
  ultimately have "card (set (filter (flowered s) limbs_all)) = card (set (water_holds s))"
    unfolding fl by (metis card_image)
  then have "length (filter (flowered s) limbs_all) = length (water_holds s)"
    using gt_invD(5) [OF assms] by (simp add: distinct_card del: set_filter)
  moreover have "length (water_holds s) \<le> 3"
    using water_holds_le_sun [OF assms] gt_invD(4) [OF assms] by simp
  ultimately show ?thesis by (auto simp: gt_completion_def Let_def)
qed

text \<open>Clearing all sun, then watering one limb after the other.\<close>

definition crown_play :: "great_tree_state \<Rightarrow> limb_id \<Rightarrow> (great_tree_action \<times> player_role) list" where
  "crown_play s l = [(SetSun l True, seat_role (crown s)), (SetFlow (paired s l) True, root_role s)]"

definition clearing_play :: "great_tree_state \<Rightarrow> (great_tree_action \<times> player_role) list" where
  "clearing_play s = map (\<lambda>l. (SetSun l False, seat_role (crown s))) (sun_holds s)"

lemma play_append:
  "play G s (xs @ ys) = (case play G s xs of None \<Rightarrow> None | Some t \<Rightarrow> play G t ys)"
proof (induction xs arbitrary: s)
  case (Cons x xs)
  then show ?case by (cases x; cases "g_apply G s (fst x) (snd x)") auto
qed simp

lemma apply_sun_frame [simp]:
  "crown (apply_set_sun s l b) = crown s" "paired (apply_set_sun s l b) = paired s"
proof -
  show "crown (apply_set_sun s l b) = crown s"
    by (simp add: apply_set_sun_def Let_def)
  have "bijection (apply_set_sun s l b) = bijection s"
    by (simp add: apply_set_sun_def Let_def)
  then show "paired (apply_set_sun s l b) = paired s"
    by (simp add: paired_def fun_eq_iff)
qed

lemma play_clearing:
  assumes "gt_inv s"
  shows "\<exists>t. play (great_tree sf sh gr) s (clearing_play s) = Some t \<and> gt_inv t \<and>
     sun_holds t = [] \<and> crown t = crown s \<and> paired t = paired s"
  using assms
proof (induction "sun_holds s" arbitrary: s)
  case Nil
  then show ?case by (simp add: clearing_play_def)
next
  case (Cons l ls)
  let ?s = "apply_set_sun s l False"
  have ls: "sun_holds ?s = ls"
    using Cons.hyps(2) gt_invD(3) [OF Cons.prems]
    by (auto simp: apply_set_sun_def retain_ne_def Cons.hyps(2) [symmetric] filter_id_conv)
  have c: "clearing_play s = (SetSun l False, seat_role (crown s)) # clearing_play ?s"
    by (simp only: clearing_play_def ls) (simp add: Cons.hyps(2) [symmetric])
  show ?case
    using Cons.hyps(1) [of ?s] apply_set_sun_inv [OF Cons.prems, of l False] ls
    by (simp add: c gt_apply_action.simps)
qed

lemma play_one_limb:
  assumes inv: "gt_inv s" and l: "l \<notin> set (sun_holds s)" "length (sun_holds s) < 3"
  shows "\<exists>t. play (great_tree sf sh gr) s (crown_play s l) = Some t \<and> gt_inv t \<and>
     sun_holds t = sun_holds s @ [l] \<and> water_holds t = water_holds s @ [paired s l] \<and>
     crown t = crown s \<and> paired t = paired s"
proof -
  let ?s = "s\<lparr>sun_holds := sun_holds s @ [l]\<rparr>"
  have s1: "apply_set_sun s l True = ?s"
    using l by (simp add: apply_set_sun_def)
  then have inv1: "gt_inv ?s" using apply_set_sun_inv [OF inv, of l True] by simp
  have p: "paired ?s = paired s" by (simp add: paired_def fun_eq_iff)
  have dry: "paired s l \<notin> set (water_holds s)"
    using gt_invD(6,7) [OF inv, of l] l(1) by blast
  have flow: "apply_set_flow ?s (paired s l) True = Ok (open_root ?s l)"
    using apply_set_flow_eq [OF inv1, of l True] dry by (simp add: p)
  have "root_role ?s = root_role s" by (simp add: root_role_def)
  moreover have "paired (open_root ?s l) = paired s"
    by (simp add: open_root_def paired_def fun_eq_iff)
  moreover have "gt_inv (open_root ?s l)"
    using open_root_inv [OF inv1, of l] dry by (simp add: p)
  ultimately show ?thesis
    using s1 flow by (simp add: crown_play_def gt_apply_action.simps open_root_def paired_def [symmetric] p)
qed

text \<open>The game can always still be won: from every state satisfying the invariant some
  play of at most nine actions ends in a completed state.\<close>

theorem great_tree_winnable:
  assumes "gt_inv s"
  shows "\<exists>xs t. length xs \<le> 9 \<and> play (great_tree seed_from shuffle gen_range) s xs = Some t \<and>
     gt_completion t \<noteq> None"
proof -
  let ?G = "great_tree seed_from shuffle gen_range"
  obtain t0 where t0: "play ?G s (clearing_play s) = Some t0" "gt_inv t0" "sun_holds t0 = []"
    using play_clearing [OF assms] by blast
  note grow = play_one_limb [where sf = seed_from and sh = shuffle and gr = gen_range]
  obtain t1 where t1: "play ?G t0 (crown_play t0 Spire) = Some t1" "gt_inv t1" "sun_holds t1 = [Spire]"
    "length (water_holds t1) = Suc (length (water_holds t0))"
    using grow [OF t0(2), of Spire] t0(3) by auto
  obtain t2 where t2: "play ?G t1 (crown_play t1 Hook) = Some t2" "gt_inv t2" "sun_holds t2 = [Spire, Hook]"
    "length (water_holds t2) = Suc (length (water_holds t1))"
    using grow [OF t1(2), of Hook] t1(3) by auto
  obtain t3 where t3: "play ?G t2 (crown_play t2 Fork) = Some t3" "gt_inv t3"
    "length (water_holds t3) = Suc (length (water_holds t2))"
    using grow [OF t2(2), of Fork] t2(3) by auto
  have "length (water_holds t3) \<le> 3"
    using water_holds_le_sun [OF t3(2)] gt_invD(4) [OF t3(2)] by simp
  then have "gt_completion t3 \<noteq> None"
    using t1(4) t2(4) t3(3) completion_iff_three_roots [OF t3(2)] by simp
  moreover have "play ?G s (clearing_play s @ crown_play t0 Spire @ crown_play t1 Hook @ crown_play t2 Fork) = Some t3"
    by (simp add: play_append t0(1) t1(1) t2(1) t3(1))
  moreover have "length (clearing_play s @ crown_play t0 Spire @ crown_play t1 Hook @ crown_play t2 Fork) \<le> 9"
    using gt_invD(4) [OF assms] by (simp add: clearing_play_def crown_play_def)
  ultimately show ?thesis by blast
qed

lemma great_tree_winnable_witness:
  "\<exists>xs t. length xs \<le> 9 \<and>
     play (great_tree (\<lambda>_. ()) plain_shuffle plain_range) plain_start xs = Some t \<and>
     gt_completion t \<noteq> None"
  by (rule great_tree_winnable [OF plain_start_inv])

text \<open>The Crown player cannot tell pairings apart: two states that agree on the seat,
  the sun and the water give Crown the same observation, whatever the pairing and the running roots.\<close>

theorem crown_observation_hides_pairing:
  "gt_observation (s\<lparr>bijection := b, water_holds := ws\<rparr>) (seat_role (crown s))
     = gt_observation s (seat_role (crown s))"
  by (simp add: gt_observation_def)

end
