(* ===== verification/Space_Level.thy ===== *)
theory Space_Level
  imports Prelude
begin

text \<open>
  The fixed map of the Space Game, \<open>space-game/server/src/game/level.rs\<close>: rooms, doors and
  devices on a grid. Coordinates are \<open>i64\<close> in the code; a player only ever stands on a
  walkable cell, whose coordinates lie between 1 and 12, so the model uses \<open>int\<close>.
\<close>

record position =
  px :: int
  py :: int

definition pos :: "int \<Rightarrow> int \<Rightarrow> position" where
  "pos x y = \<lparr>px = x, py = y\<rparr>"

lemma pos_sel [simp]: "px (pos x y) = x" "py (pos x y) = y"
  by (simp_all add: pos_def)

lemma pos_eq_iff [simp]: "pos x y = pos x' y' \<longleftrightarrow> x = x' \<and> y = y'"
  by (simp add: pos_def)

definition room_rectangles :: "(string \<times> int \<times> int \<times> int \<times> int) list" where
  "room_rectangles =
     [(''power'', 1, 4, 1, 3), (''junction'', 5, 7, 1, 3), (''oxygen'', 8, 12, 1, 3),
      (''diagnostics'', 1, 4, 5, 7), (''charger'', 5, 7, 5, 7), (''valve'', 8, 12, 5, 7),
      (''airlock'', 5, 7, 8, 9), (''signal'', 8, 12, 8, 9)]"

definition corridor_cells :: "(string \<times> int \<times> int) list" where
  "corridor_cells =
     [(''junction'', 6, 4), (''oxygen'', 10, 4), (''diagnostics'', 2, 4), (''charger'', 6, 4),
      (''valve'', 10, 4)]"

definition room_at_position :: "position \<Rightarrow> string option" where
  "room_at_position p =
     (case find (\<lambda>(room, left, right, top, bottom).
              px p \<ge> left \<and> px p \<le> right \<and> py p \<ge> top \<and> py p \<le> bottom) room_rectangles of
        Some (room, _) \<Rightarrow> Some room
      | None \<Rightarrow>
          (case find (\<lambda>(room, x, y). px p = x \<and> py p = y) corridor_cells of
             Some (room, _) \<Rightarrow> Some room
           | None \<Rightarrow> None))"

definition is_walkable :: "position \<Rightarrow> bool" where
  "is_walkable p \<longleftrightarrow> room_at_position p \<noteq> None"

definition doors :: "(position \<times> position \<times> string) list" where
  "doors =
     [(pos 4 2, pos 5 2, ''open''), (pos 7 2, pos 8 2, ''open''), (pos 6 3, pos 6 4, ''open''),
      (pos 6 4, pos 6 5, ''open''), (pos 10 3, pos 10 4, ''open''), (pos 10 4, pos 10 5, ''open''),
      (pos 7 6, pos 8 6, ''open''), (pos 6 7, pos 6 8, ''pressure''), (pos 10 7, pos 10 8, ''open''),
      (pos 7 8, pos 8 8, ''open''), (pos 2 3, pos 2 4, ''open''), (pos 2 4, pos 2 5, ''open'')]"

definition door_kind_for_step :: "position \<Rightarrow> position \<Rightarrow> string option" where
  "door_kind_for_step source target =
     map_option (\<lambda>(a, b, kind). kind)
       (find (\<lambda>(a, b, kind). source = a \<and> target = b \<or> source = b \<and> target = a) doors)"

record device =
  dev_id :: string

definition device_table :: "(string \<times> int \<times> int) list" where
  "device_table =
     [(''fuse-blue'', 1, 1), (''fuse-yellow'', 2, 1), (''fuse-red'', 3, 1),
      (''breaker-main'', 1, 3), (''breaker-aux'', 2, 3), (''bypass'', 5, 2), (''plate'', 7, 2),
      (''charger'', 5, 5), (''battery'', 6, 6), (''valve-a'', 8, 5), (''valve-c'', 9, 5),
      (''valve-floodgate'', 11, 5), (''relay'', 9, 8), (''beacon'', 6, 8)]"

definition devices_at_position :: "position \<Rightarrow> string \<Rightarrow> device list" where
  "devices_at_position p battery_location =
     map (\<lambda>(i, x, y). \<lparr>dev_id = i\<rparr>)
       (filter (\<lambda>(i, x, y). px p = x \<and> py p = y \<and>
                   (i \<noteq> ''battery'' \<or> battery_location = ''charger'')) device_table)
     @ (if battery_location = ''signal'' \<and> px p = 8 \<and> py p = 8
        then [\<lparr>dev_id = ''battery''\<rparr>] else [])"

section \<open>Facts about the map\<close>

text \<open>Every walkable cell lies in the 12 by 9 grid, so a step cannot overflow \<open>i64\<close>.\<close>

lemma room_at_position_bounds:
  "room_at_position p = Some room \<Longrightarrow> 1 \<le> px p \<and> px p \<le> 12 \<and> 1 \<le> py p \<and> py p \<le> 9"
  by (auto simp: room_at_position_def room_rectangles_def corridor_cells_def split: if_splits)

lemma is_walkable_bounds: "is_walkable p \<Longrightarrow> 1 \<le> px p \<and> px p \<le> 12 \<and> 1 \<le> py p \<and> py p \<le> 9"
  using room_at_position_bounds [of p] by (auto simp: is_walkable_def)

text \<open>The pressure hatch is the only door into the airlock besides the signal-array door.\<close>

lemma airlock_cells:
  "room_at_position p = Some ''airlock'' \<longleftrightarrow> 5 \<le> px p \<and> px p \<le> 7 \<and> 8 \<le> py p \<and> py p \<le> 9"
  by (auto simp: room_at_position_def room_rectangles_def corridor_cells_def)

lemma door_symmetric: "door_kind_for_step p q = door_kind_for_step q p"
  by (simp add: door_kind_for_step_def conj_commute disj_commute)

lemma device_ids:
  "d \<in> set (devices_at_position p loc) \<Longrightarrow> dev_id d \<in> fst ` set device_table"
  by (auto simp: devices_at_position_def device_table_def split: if_splits)

end
