(* ===== verification/Space_Engine.thy ===== *)
theory Space_Engine
  imports Space_Level
begin

text \<open>
  The rules of the Space Game, \<open>space-game/server/src/game/state_engine.rs\<close>. Rooms, relay
  modes, battery locations and the fields of an action are strings in the code and in the
  model; each \<open>match\<close> on a string keeps its default branch. Knowledge items keep the text
  that the code stores, because \<open>reveal\<close> compares it.
\<close>

section \<open>Actions and state\<close>

datatype space_action =
    MoveStep string string
  | ToggleFuse string string
  | ToggleBreaker string string
  | SetValve string string bool
  | HoldOverride string bool
  | ChargeBattery string
  | MoveBattery string
  | CycleRelay string
  | LaunchBeacon string

fun action_player :: "space_action \<Rightarrow> string" where
  "action_player (MoveStep p d) = p"
| "action_player (ToggleFuse p c) = p"
| "action_player (ToggleBreaker p b) = p"
| "action_player (SetValve p v ope) = p"
| "action_player (HoldOverride p h) = p"
| "action_player (ChargeBattery p) = p"
| "action_player (MoveBattery p) = p"
| "action_player (CycleRelay p) = p"
| "action_player (LaunchBeacon p) = p"

fun action_kind :: "space_action \<Rightarrow> string" where
  "action_kind (MoveStep p d) = ''moveStep''"
| "action_kind (ToggleFuse p c) = ''toggleFuse''"
| "action_kind (ToggleBreaker p b) = ''toggleBreaker''"
| "action_kind (SetValve p v ope) = ''setValve''"
| "action_kind (HoldOverride p h) = ''holdOverride''"
| "action_kind (ChargeBattery p) = ''chargeBattery''"
| "action_kind (MoveBattery p) = ''moveBattery''"
| "action_kind (CycleRelay p) = ''cycleRelay''"
| "action_kind (LaunchBeacon p) = ''launchBeacon''"

record player_state =
  ps_room :: string
  ps_position :: position
  ps_plate_held :: bool

record players =
  player_a :: player_state
  player_b :: player_state

record fuses =
  fuse_blue :: bool
  fuse_yellow :: bool
  fuse_red :: bool

record breakers =
  brk_main :: bool
  brk_aux :: bool

record valves =
  valve_a :: bool
  valve_c :: bool
  valve_floodgate :: bool

record battery =
  bat_location :: string
  bat_charged :: bool
  bat_spent :: bool

record knowledge =
  know_a :: "string list"
  know_b :: "string list"

record space_game_state =
  sg_players :: players
  sg_fuses :: fuses
  sg_breakers :: breakers
  sg_valves :: valves
  override_held :: bool
  sg_battery :: battery
  relay :: string
  pressure_drained :: bool
  oxygen_fan_tripped :: bool
  sg_knowledge :: knowledge
  visual_effects :: "string list"
  beacon_launched :: bool

record systems =
  pump_powered :: bool
  charger_fed :: bool
  cooling_restored :: bool
  oxygen_stable :: bool
  power_stable :: bool
  door_access :: bool
  signal_routed :: bool
  battery_ready :: bool
  ready_to_launch :: bool

definition sg_initial_state :: space_game_state where
  "sg_initial_state =
     \<lparr>sg_players =
        \<lparr>player_a = \<lparr>ps_room = ''power'', ps_position = pos 2 2, ps_plate_held = False\<rparr>,
         player_b = \<lparr>ps_room = ''valve'', ps_position = pos 9 6, ps_plate_held = False\<rparr>\<rparr>,
      sg_fuses = \<lparr>fuse_blue = False, fuse_yellow = False, fuse_red = False\<rparr>,
      sg_breakers = \<lparr>brk_main = False, brk_aux = False\<rparr>,
      sg_valves = \<lparr>valve_a = False, valve_c = False, valve_floodgate = False\<rparr>,
      override_held = False,
      sg_battery = \<lparr>bat_location = ''charger'', bat_charged = False, bat_spent = False\<rparr>,
      relay = ''bypass'',
      pressure_drained = False,
      oxygen_fan_tripped = False,
      sg_knowledge =
        \<lparr>know_a = [''Blue fuse wakes the bus feed.'',
                  ''Yellow fuse is marked PUMP, but the aux breaker warning is scratched.''],
         know_b = [''Valve A is drawn beside cabin pressure.'',
                  ''Valve C is drawn beside charger water and coolant, depending on floodgate state.'']\<rparr>,
      visual_effects = [],
      beacon_launched = False\<rparr>"

section \<open>Derived systems\<close>

definition derive_systems :: "space_game_state \<Rightarrow> systems" where
  "derive_systems s =
     (let pump = fuse_yellow (sg_fuses s) \<and> brk_main (sg_breakers s) \<and> \<not> oxygen_fan_tripped s;
          power = fuse_blue (sg_fuses s) \<and> brk_main (sg_breakers s) \<and> \<not> bat_spent (sg_battery s);
          charger = power \<and> pump \<and> valve_c (sg_valves s) \<and> \<not> valve_floodgate (sg_valves s);
          cooling = valve_floodgate (sg_valves s) \<and> \<not> valve_c (sg_valves s);
          oxygen = pump \<and> valve_a (sg_valves s) \<and> \<not> pressure_drained s \<and> \<not> oxygen_fan_tripped s;
          door_motor = power \<and> (bat_location (sg_battery s) = ''charger'' \<or> override_held s);
          door = door_motor \<and> oxygen \<and>
            (ps_plate_held (player_a (sg_players s)) \<or> ps_plate_held (player_b (sg_players s)));
          routed = relay s = ''array'' \<and> bat_location (sg_battery s) = ''signal'' \<and>
            bat_charged (sg_battery s) \<and> \<not> bat_spent (sg_battery s) \<and> cooling
      in \<lparr>pump_powered = pump, charger_fed = charger, cooling_restored = cooling,
          oxygen_stable = oxygen, power_stable = power, door_access = door,
          signal_routed = routed,
          battery_ready = bat_charged (sg_battery s) \<and> \<not> bat_spent (sg_battery s),
          ready_to_launch = power \<and> oxygen \<and> door \<and> routed\<rparr>)"

section \<open>Helpers\<close>

definition player_state_of :: "space_game_state \<Rightarrow> string \<Rightarrow> player_state" where
  "player_state_of s player =
     (if player = ''B'' then player_b (sg_players s) else player_a (sg_players s))"

definition player_state_update ::
    "space_game_state \<Rightarrow> string \<Rightarrow> player_state \<Rightarrow> space_game_state" where
  "player_state_update s player st =
     (if player = ''B'' then s\<lparr>sg_players := (sg_players s)\<lparr>player_b := st\<rparr>\<rparr>
      else s\<lparr>sg_players := (sg_players s)\<lparr>player_a := st\<rparr>\<rparr>)"

definition reveal :: "space_game_state \<Rightarrow> string \<Rightarrow> string \<Rightarrow> space_game_state" where
  "reveal s player txt =
     (if player = ''B''
      then (if List.member (know_b (sg_knowledge s)) txt then s
            else s\<lparr>sg_knowledge := (sg_knowledge s)\<lparr>know_b := know_b (sg_knowledge s) @ [txt]\<rparr>\<rparr>)
      else (if List.member (know_a (sg_knowledge s)) txt then s
            else s\<lparr>sg_knowledge := (sg_knowledge s)\<lparr>know_a := know_a (sg_knowledge s) @ [txt]\<rparr>\<rparr>))"

definition grid_step :: "position \<Rightarrow> string \<Rightarrow> position" where
  "grid_step p direction =
     (let (dx, dy) =
        (if direction = ''down'' then (0, 1)
         else if direction = ''left'' then (-1, 0)
         else if direction = ''right'' then (1, 0)
         else (0, -1))
      in pos (px p + dx) (py p + dy))"

definition next_relay :: "string \<Rightarrow> string" where
  "next_relay r =
     (if r = ''bypass'' then ''loop'' else if r = ''loop'' then ''array'' else ''bypass'')"

definition diagnostic_for :: "space_game_state \<Rightarrow> string \<Rightarrow> string" where
  "diagnostic_for s player =
     (let sys = derive_systems s in
      if \<not> power_stable sys then
        (if player = ''A'' then ''Bus feed dark: blue fuse and MAIN breaker must both be live.''
         else ''Node Lantern has no stable feed; ask for the blue bus and main line.'')
      else if oxygen_fan_tripped s then
        (if player = ''A'' then ''Fan relay tripped by AUX backfeed through yellow pump leg.''
         else ''Oxygen fault is electrical; valve positions are not the first problem.'')
      else if \<not> pump_powered sys then
        (if player = ''A'' then ''Pump leg idle: yellow fuse needs MAIN, but not AUX surge.''
         else ''Cabin pressure cannot refill until the pump leg is live.'')
      else if \<not> charger_fed sys \<and> bat_location (sg_battery s) = ''charger'' \<and>
              \<not> bat_charged (sg_battery s) then
        (if player = ''A'' then ''Charger starved: check yellow pump and valve C water return.''
         else ''Water return is missing; floodgate and valve C fight over the charger.'')
      else if \<not> oxygen_stable sys then
        (if player = ''A'' then ''Pressure is not holding; valve A must refill after any floodgate drain.''
         else ''Cabin pressure drained through the flood path; use valve A to refill.'')
      else if \<not> door_access sys then
        (if player = ''A'' then ''Door motor wants bypass during battery transfer and a latch plate signal.''
         else ''The hatch needs oxygen pressure, motor feed, and someone on the plate.'')
      else if \<not> signal_routed sys then
        (if player = ''A'' then ''Signal path missing: battery at array, relay ARRAY, and coolant restored.''
         else ''Relay map is not locked: coolant plus charged array battery required.'')
      else ''All launch prerequisites are green at this instant.'')"

text \<open>\<open>str::to_lowercase\<close> on the ASCII letters; the valve names are ASCII.\<close>

definition char_lower :: "char \<Rightarrow> char" where
  "char_lower c = (let n = of_char c :: nat in if 65 \<le> n \<and> n \<le> 90 then char_of (n + 32) else c)"

definition to_lowercase :: "string \<Rightarrow> string" where
  "to_lowercase = map char_lower"

section \<open>Available actions and validation\<close>

definition action_for_device :: "space_game_state \<Rightarrow> string \<Rightarrow> string \<Rightarrow> space_action list" where
  "action_for_device s player i =
     (if i = ''fuse-blue'' then [ToggleFuse player ''blue'']
      else if i = ''fuse-yellow'' then [ToggleFuse player ''yellow'']
      else if i = ''fuse-red'' then [ToggleFuse player ''red'']
      else if i = ''breaker-main'' then [ToggleBreaker player ''main'']
      else if i = ''breaker-aux'' then [ToggleBreaker player ''aux'']
      else if i = ''bypass'' then [HoldOverride player (\<not> override_held s)]
      else if i = ''valve-a'' then [SetValve player ''A'' (\<not> valve_a (sg_valves s))]
      else if i = ''valve-c'' then [SetValve player ''C'' (\<not> valve_c (sg_valves s))]
      else if i = ''valve-floodgate'' then [SetValve player ''floodgate'' (\<not> valve_floodgate (sg_valves s))]
      else if i = ''charger'' then [ChargeBattery player]
      else if i = ''battery'' then [MoveBattery player]
      else if i = ''relay'' then [CycleRelay player]
      else if i = ''beacon'' then [LaunchBeacon player]
      else [])"

definition sg_available_actions :: "space_game_state \<Rightarrow> string \<Rightarrow> space_action list" where
  "sg_available_actions s player =
     concat (map (\<lambda>d. action_for_device s player (dev_id d))
       (devices_at_position (ps_position (player_state_of s player)) (bat_location (sg_battery s))))"

datatype validation_error = WrongPlayer | NotAvailable

fun is_move :: "space_action \<Rightarrow> bool" where
  "is_move (MoveStep p d) = True"
| "is_move a = False"

definition validate_action ::
    "space_game_state \<Rightarrow> space_action \<Rightarrow> string \<Rightarrow> (validation_error, unit) outcome" where
  "validate_action s action player =
     (if action_player action \<noteq> player then Err WrongPlayer
      else if is_move action then Ok ()
      else if \<not> List.member (sg_available_actions s player) action then Err NotAvailable
      else Ok ())"

section \<open>Applying an action\<close>

definition apply_move_step ::
    "space_game_state \<Rightarrow> systems \<Rightarrow> string \<Rightarrow> string \<Rightarrow> space_game_state" where
  "apply_move_step s before player direction =
     (let current = ps_position (player_state_of s player);
          target = grid_step current direction
      in case room_at_position target of
           None \<Rightarrow> s
         | Some target_room \<Rightarrow>
             let current_room = ps_room (player_state_of s player) in
             if current_room \<noteq> target_room \<and> door_kind_for_step current target = None then s
             else if target_room = ''airlock'' \<and> current_room \<noteq> ''airlock'' \<and> \<not> door_access before
             then reveal s player
               ''The airlock hatch needs oxygen pressure, door power, and the floor plate.''
             else if is_walkable target then
               player_state_update s player
                 \<lparr>ps_room = target_room, ps_position = target,
                  ps_plate_held = (px target = 7 \<and> py target = 2)\<rparr>
             else s)"

definition toggle_fuse ::
    "space_game_state \<Rightarrow> string \<Rightarrow> string \<Rightarrow> space_game_state \<times> string list" where
  "toggle_fuse s player color =
     (let f = sg_fuses s;
          s1 = s\<lparr>sg_fuses :=
            (if color = ''yellow'' then f\<lparr>fuse_yellow := \<not> fuse_yellow f\<rparr>
             else if color = ''red'' then f\<lparr>fuse_red := \<not> fuse_red f\<rparr>
             else f\<lparr>fuse_blue := \<not> fuse_blue f\<rparr>)\<rparr>;
          effects = [''device:fuse-'' @ color, ''room:power''];
          s2 = (if color = ''yellow'' \<and> fuse_yellow (sg_fuses s1) \<and> brk_aux (sg_breakers s1)
                then reveal (reveal (s1\<lparr>oxygen_fan_tripped := True\<rparr>) ''A''
                       ''Yellow pump surge trips the oxygen fan when AUX is already live.'') ''B''
                       ''The fan trip is electrical, not a valve failure.''
                else s1);
          s3 = (if color = ''red'' \<and> fuse_red (sg_fuses s2)
                then reveal s2 player ''The red fuse only feeds the reserve lamps in this prototype.''
                else s2)
      in (s3, effects))"

definition toggle_breaker ::
    "space_game_state \<Rightarrow> string \<Rightarrow> space_game_state \<times> string list" where
  "toggle_breaker s breaker =
     (let b = sg_breakers s;
          s1 = s\<lparr>sg_breakers :=
            (if breaker = ''aux'' then b\<lparr>brk_aux := \<not> brk_aux b\<rparr> else b\<lparr>brk_main := \<not> brk_main b\<rparr>)\<rparr>;
          effects = [''device:breaker-'' @ breaker, ''room:power''];
          s2 = (if breaker = ''aux'' \<and> brk_aux (sg_breakers s1) \<and> fuse_yellow (sg_fuses s1)
                then reveal (reveal (s1\<lparr>oxygen_fan_tripped := True\<rparr>) ''A''
                       ''AUX and the yellow pump fuse together trip the fan relay.'') ''B''
                       ''If oxygen dies while valves look right, ask about the aux breaker.''
                else s1);
          s3 = (if breaker = ''main'' \<and> \<not> brk_main (sg_breakers s2) \<and>
                   bat_location (sg_battery s2) \<noteq> ''signal''
                then s2\<lparr>sg_battery := (sg_battery s2)\<lparr>bat_charged := False\<rparr>\<rparr>
                else s2)
      in (s3, effects))"

definition set_valve ::
    "space_game_state \<Rightarrow> systems \<Rightarrow> string \<Rightarrow> bool \<Rightarrow> space_game_state \<times> string list" where
  "set_valve s before valve open =
     (let v = sg_valves s;
          s1 = s\<lparr>sg_valves :=
            (if valve = ''C'' then v\<lparr>valve_c := open\<rparr>
             else if valve = ''floodgate'' then v\<lparr>valve_floodgate := open\<rparr>
             else v\<lparr>valve_a := open\<rparr>)\<rparr>;
          effects = [''device:valve-'' @ to_lowercase valve, ''room:valve'']
      in (if valve = ''floodgate'' \<and> open \<and> oxygen_stable before
          then reveal (s1\<lparr>pressure_drained := True\<rparr>) ''B''
            ''Opening the floodgate restores coolant but drains cabin pressure first.''
          else if valve = ''A'' \<and> open
          then s1\<lparr>pressure_drained := False, oxygen_fan_tripped := False\<rparr>
          else if valve = ''C'' \<and> \<not> open
          then reveal s1 ''A''
            ''Valve C closed starves the charger but helps cooling after floodgate opens.''
          else s1, effects))"

definition charge_battery :: "space_game_state \<Rightarrow> systems \<Rightarrow> string \<Rightarrow> space_game_state" where
  "charge_battery s before player =
     (if charger_fed before \<and> bat_location (sg_battery s) = ''charger''
      then reveal (reveal
             (s\<lparr>sg_battery := (sg_battery s)\<lparr>bat_charged := True, bat_spent := False\<rparr>\<rparr>) ''A''
             ''The charger needs blue bus, yellow pump, main breaker, and valve C water.'') ''B''
             ''Floodgate open steals the water return from the charger.''
      else reveal s player (diagnostic_for s player))"

definition move_battery :: "space_game_state \<Rightarrow> string \<Rightarrow> space_game_state" where
  "move_battery s player =
     (if bat_location (sg_battery s) = ''charger'' then
        (if bat_charged (sg_battery s) then
           let s1 = s\<lparr>sg_battery := (sg_battery s)\<lparr>bat_location := ''signal''\<rparr>\<rparr>
           in if \<not> override_held s1
              then reveal s1 ''B''
                ''Battery transfer removes the door motor supply unless the bypass is held.''
              else s1
         else reveal s player ''Charge the battery before moving it to the signal array.'')
      else s\<lparr>sg_battery := (sg_battery s)\<lparr>bat_location := ''charger'', bat_spent := False\<rparr>\<rparr>)"

definition set_relay ::
    "space_game_state \<Rightarrow> systems \<Rightarrow> string \<Rightarrow> space_game_state \<times> string list" where
  "set_relay s before mode =
     (let s1 = s\<lparr>relay := mode\<rparr>;
          effects = [''device:relay'', ''room:signal'']
      in (if relay s1 = ''array'' \<and> \<not> signal_routed before
          then reveal (reveal s1 ''A''
                 ''ARRAY mode should wait until charged battery and coolant are both ready.'') ''B''
                 ''A loop fault means relay mode was changed before the physical path was ready.''
          else s1, effects))"

definition launch_beacon :: "space_game_state \<Rightarrow> systems \<Rightarrow> string \<Rightarrow> space_game_state" where
  "launch_beacon s before player =
     (if ready_to_launch before then s\<lparr>beacon_launched := True\<rparr>
      else if bat_location (sg_battery s) = ''signal'' \<and> bat_charged (sg_battery s)
      then reveal (s\<lparr>sg_battery := (sg_battery s)\<lparr>bat_spent := True\<rparr>\<rparr>) player
        ''Early launch attempts consume the signal battery pulse.''
      else s)"

definition hold_override ::
    "space_game_state \<Rightarrow> string \<Rightarrow> bool \<Rightarrow> space_game_state \<times> string list" where
  "hold_override s player held =
     (let s1 = s\<lparr>override_held := held\<rparr>
      in (if override_held s1
          then reveal s1 player ''The bypass keeps the door motor powered during battery transfer.''
          else s1, [''device:bypass'', ''room:junction'']))"

definition finalize :: "space_game_state \<Rightarrow> systems \<Rightarrow> string list \<Rightarrow> space_game_state" where
  "finalize s before effects =
     (let after = derive_systems s;
          changes =
            [(power_stable before \<noteq> power_stable after, ''room:power''),
             (oxygen_stable before \<noteq> oxygen_stable after, ''room:oxygen''),
             (door_access before \<noteq> door_access after, ''room:airlock''),
             (signal_routed before \<noteq> signal_routed after, ''room:signal''),
             (cooling_restored before \<noteq> cooling_restored after, ''room:valve'')]
      in s\<lparr>visual_effects := effects @ map snd (filter fst changes)\<rparr>)"

fun perform :: "space_game_state \<Rightarrow> systems \<Rightarrow> space_action \<Rightarrow> space_game_state \<times> string list" where
  "perform s before (MoveStep player direction) = (apply_move_step s before player direction, [])"
| "perform s before (ToggleFuse player color) = toggle_fuse s player color"
| "perform s before (ToggleBreaker player breaker) = toggle_breaker s breaker"
| "perform s before (SetValve player valve open) = set_valve s before valve open"
| "perform s before (HoldOverride player held) = hold_override s player held"
| "perform s before (ChargeBattery player) = (charge_battery s before player, [])"
| "perform s before (MoveBattery player) = (move_battery s player, [])"
| "perform s before (CycleRelay player) = set_relay s before (next_relay (relay s))"
| "perform s before (LaunchBeacon player) = (launch_beacon s before player, [])"

definition sg_apply :: "space_game_state \<Rightarrow> space_action \<Rightarrow> space_game_state" where
  "sg_apply s action =
     (let before = derive_systems s;
          (next, effects) = perform s before action
      in finalize next before effects)"

end
