(* ===== verification/Space_Game.thy ===== *)
theory Space_Game
  imports Space_Engine Game_Interface
begin

text \<open>
  The \<open>Game\<close> implementation of the Space Game, \<open>space-game/server/src/game/adapter.rs\<close>,
  and the invariants of its rules. The session logger the adapter writes to is left out: it
  has no effect on the game.
\<close>

section \<open>The adapter\<close>

record space_observation =
  ob_players :: players
  ob_fuses :: fuses
  ob_breakers :: breakers
  ob_valves :: valves
  ob_override_held :: bool
  ob_battery :: battery
  ob_relay :: string
  ob_pressure_drained :: bool
  ob_oxygen_fan_tripped :: bool
  ob_visual_effects :: "string list"
  ob_beacon_launched :: bool
  ob_role :: string
  ob_systems :: systems
  ob_knowledge :: knowledge
  ob_private_knowledge :: "string list"
  ob_log :: "string list"

record space_completion =
  sc_beacon_launched :: bool
  sc_systems :: systems

definition sg_initial :: "unit \<Rightarrow> seed \<Rightarrow> secret_values \<Rightarrow> (string, space_game_state) outcome" where
  "sg_initial cfg sd secrets = Ok sg_initial_state"

definition sg_apply_action ::
    "space_game_state \<Rightarrow> space_action \<Rightarrow> player_role \<Rightarrow> (action_rejection, space_game_state) outcome" where
  "sg_apply_action s action actor =
     obind
       (map_err (\<lambda>_. rejection (if action_player action \<noteq> role_str actor then ''wrong_role''
                                 else ''action_unavailable''))
         (validate_action s action (role_str actor)))
       (\<lambda>_. Ok (sg_apply s action))"

definition sg_observation :: "space_game_state \<Rightarrow> player_role \<Rightarrow> space_observation" where
  "sg_observation s player =
     \<lparr>ob_players = sg_players s, ob_fuses = sg_fuses s, ob_breakers = sg_breakers s,
      ob_valves = sg_valves s, ob_override_held = override_held s, ob_battery = sg_battery s,
      ob_relay = relay s, ob_pressure_drained = pressure_drained s,
      ob_oxygen_fan_tripped = oxygen_fan_tripped s, ob_visual_effects = visual_effects s,
      ob_beacon_launched = beacon_launched s, ob_role = role_str player,
      ob_systems = derive_systems s,
      ob_knowledge =
        \<lparr>know_a = (if player = RoleA then know_a (sg_knowledge s) else []),
         know_b = (if player = RoleB then know_b (sg_knowledge s) else [])\<rparr>,
      ob_private_knowledge =
        (if player = RoleA then know_a (sg_knowledge s) else know_b (sg_knowledge s)),
      ob_log = []\<rparr>"

definition sg_available :: "space_game_state \<Rightarrow> player_role \<Rightarrow> space_action list option" where
  "sg_available s player = Some (sg_available_actions s (role_str player))"

definition sg_completion :: "space_game_state \<Rightarrow> space_completion option" where
  "sg_completion s =
     (if beacon_launched s
      then Some \<lparr>sc_beacon_launched = beacon_launched s, sc_systems = derive_systems s\<rparr>
      else None)"

definition space_game ::
    "(unit, space_game_state, space_action, space_observation, space_completion) game" where
  "space_game =
     \<lparr>g_initial = sg_initial, g_apply = sg_apply_action, g_observation = sg_observation,
      g_available = sg_available, g_completion = sg_completion\<rparr>"

lemma space_game_sel [simp]:
  "g_initial space_game = sg_initial" "g_apply space_game = sg_apply_action"
  "g_observation space_game = sg_observation" "g_available space_game = sg_available"
  "g_completion space_game = sg_completion"
  by (simp_all add: space_game_def)

section \<open>The invariant\<close>

text \<open>
  A player's room is the room of the player's cell and the plate is held exactly on its
  cell; the battery is in one of its two places, charged whenever it is at the signal array
  and spent only there; the relay is in one of its three modes; no knowledge item is held
  twice.
\<close>

definition player_ok :: "player_state \<Rightarrow> bool" where
  "player_ok p \<longleftrightarrow> room_at_position (ps_position p) = Some (ps_room p) \<and>
     (ps_plate_held p \<longleftrightarrow> ps_position p = pos 7 2)"

definition battery_ok :: "battery \<Rightarrow> bool" where
  "battery_ok b \<longleftrightarrow> (bat_location b = ''charger'' \<or> bat_location b = ''signal'' \<and> bat_charged b) \<and>
     (bat_spent b \<longrightarrow> bat_location b = ''signal'')"

definition sg_inv :: "space_game_state \<Rightarrow> bool" where
  "sg_inv s \<longleftrightarrow> player_ok (player_a (sg_players s)) \<and> player_ok (player_b (sg_players s)) \<and>
     battery_ok (sg_battery s) \<and> relay s \<in> {''bypass'', ''loop'', ''array''} \<and>
     distinct (know_a (sg_knowledge s)) \<and> distinct (know_b (sg_knowledge s))"

lemma reveal_fields [simp]:
  "sg_players (reveal s p t) = sg_players s" "sg_fuses (reveal s p t) = sg_fuses s"
  "sg_breakers (reveal s p t) = sg_breakers s" "sg_valves (reveal s p t) = sg_valves s"
  "override_held (reveal s p t) = override_held s" "sg_battery (reveal s p t) = sg_battery s"
  "relay (reveal s p t) = relay s" "pressure_drained (reveal s p t) = pressure_drained s"
  "oxygen_fan_tripped (reveal s p t) = oxygen_fan_tripped s"
  "beacon_launched (reveal s p t) = beacon_launched s"
  by (simp_all add: reveal_def)

lemma reveal_distinct:
  "distinct (know_a (sg_knowledge (reveal s p t))) = distinct (know_a (sg_knowledge s))"
  "distinct (know_b (sg_knowledge (reveal s p t))) = distinct (know_b (sg_knowledge s))"
  by (auto simp: reveal_def)

lemma reveal_inv [simp]: "sg_inv (reveal s p t) = sg_inv s"
  by (simp add: sg_inv_def reveal_distinct)

lemma reveal_monotone:
  "set (know_a (sg_knowledge s)) \<subseteq> set (know_a (sg_knowledge (reveal s p t)))"
  "set (know_b (sg_knowledge s)) \<subseteq> set (know_b (sg_knowledge (reveal s p t)))"
  by (auto simp: reveal_def)

lemma finalize_fields [simp]:
  "sg_players (finalize s b e) = sg_players s" "sg_battery (finalize s b e) = sg_battery s"
  "relay (finalize s b e) = relay s" "sg_knowledge (finalize s b e) = sg_knowledge s"
  "beacon_launched (finalize s b e) = beacon_launched s"
  "sg_fuses (finalize s b e) = sg_fuses s" "sg_breakers (finalize s b e) = sg_breakers s"
  "sg_valves (finalize s b e) = sg_valves s" "override_held (finalize s b e) = override_held s"
  "pressure_drained (finalize s b e) = pressure_drained s"
  "oxygen_fan_tripped (finalize s b e) = oxygen_fan_tripped s"
  by (simp_all add: finalize_def Let_def)

lemma finalize_inv [simp]: "sg_inv (finalize s b e) = sg_inv s"
  by (simp add: sg_inv_def)

lemma derive_finalize [simp]: "derive_systems (finalize s b e) = derive_systems s"
  by (simp add: derive_systems_def)

lemma pos_72_iff: "p = pos 7 2 \<longleftrightarrow> px p = 7 \<and> py p = 2"
  by (cases p) (auto simp: pos_def)

lemma apply_move_step_inv:
  "sg_inv s \<Longrightarrow> sg_inv (apply_move_step s before p d)"
  by (auto simp: apply_move_step_def Let_def player_state_update_def sg_inv_def player_ok_def
      pos_72_iff reveal_distinct split: option.splits)

lemma toggle_fuse_inv: "sg_inv s \<Longrightarrow> sg_inv (fst (toggle_fuse s p c))"
  by (simp add: toggle_fuse_def Let_def) (simp add: sg_inv_def reveal_distinct)

lemma toggle_breaker_inv: "sg_inv s \<Longrightarrow> sg_inv (fst (toggle_breaker s b))"
  by (simp add: toggle_breaker_def Let_def) (auto simp add: sg_inv_def battery_ok_def reveal_distinct)

lemma set_valve_inv: "sg_inv s \<Longrightarrow> sg_inv (fst (set_valve s before v ope))"
  by (simp add: set_valve_def Let_def) (simp add: sg_inv_def reveal_distinct)

lemma hold_override_inv: "sg_inv s \<Longrightarrow> sg_inv (fst (hold_override s p h))"
  by (simp add: hold_override_def Let_def) (simp add: sg_inv_def reveal_distinct)

lemma charge_battery_inv: "sg_inv s \<Longrightarrow> sg_inv (charge_battery s before p)"
  by (simp add: charge_battery_def) (auto simp add: sg_inv_def battery_ok_def reveal_distinct)

lemma move_battery_inv: "sg_inv s \<Longrightarrow> sg_inv (move_battery s p)"
  by (simp add: move_battery_def Let_def) (auto simp add: sg_inv_def battery_ok_def reveal_distinct)

lemma set_relay_inv: "sg_inv s \<Longrightarrow> sg_inv (fst (set_relay s before (next_relay r)))"
  by (simp add: set_relay_def Let_def next_relay_def) (auto simp add: sg_inv_def reveal_distinct)

lemma launch_beacon_inv: "sg_inv s \<Longrightarrow> sg_inv (launch_beacon s before p)"
  by (simp add: launch_beacon_def) (auto simp add: sg_inv_def battery_ok_def reveal_distinct)

lemmas perform_invs = apply_move_step_inv toggle_fuse_inv toggle_breaker_inv set_valve_inv
  hold_override_inv charge_battery_inv move_battery_inv set_relay_inv launch_beacon_inv

lemma perform_inv: "sg_inv s \<Longrightarrow> sg_inv (fst (perform s before a))"
  by (cases a) (simp_all add: perform_invs)

lemma sg_apply_inv [inv_intros]: "sg_inv s \<Longrightarrow> sg_inv (sg_apply s a)"
  using perform_inv [of s "derive_systems s" a]
  by (simp add: sg_apply_def Let_def split_beta)

lemma sg_initial_inv: "sg_inv sg_initial_state"
  by (simp add: sg_inv_def sg_initial_state_def player_ok_def battery_ok_def
      room_at_position_def room_rectangles_def)

section \<open>The game contract\<close>

lemma sg_apply_action_ok:
  "sg_apply_action s a r = Ok s' \<longleftrightarrow>
     action_player a = role_str r \<and> (is_move a \<or> a \<in> set (sg_available_actions s (role_str r))) \<and>
     s' = sg_apply s a"
  by (auto simp: sg_apply_action_def validate_action_def split: if_splits)

lemma action_for_device_player: "\<forall>a \<in> set (action_for_device s p i). action_player a = p"
  by (simp add: action_for_device_def)

lemma available_player:
  "a \<in> set (sg_available_actions s p) \<Longrightarrow> action_player a = p"
  using action_for_device_player by (auto simp: sg_available_actions_def)

interpretation sg: catalogue_game space_game sg_inv
proof unfold_locales
  fix s a r s' assume "sg_inv s" "g_apply space_game s a r = Ok s'"
  then show "sg_inv s'" by (auto simp: sg_apply_action_ok intro: inv_intros)
next
  fix s a r show "g_apply space_game s a r \<noteq> Panic"
    by (auto simp: sg_apply_action_def validate_action_def split: if_splits)
next
  fix s a r r' s' s''
  assume "g_apply space_game s a r = Ok s'" "g_apply space_game s a r' = Ok s''"
  then show "r = r'" by (auto simp: sg_apply_action_ok)
next
  fix s r acts a
  assume "g_available space_game s r = Some acts" "a \<in> set acts"
  then show "is_ok (g_apply space_game s a r)"
    by (auto simp: sg_available_def is_ok_iff sg_apply_action_ok dest: available_player)
qed


section \<open>Launch, airlock and frames\<close>

lemma perform_launch:
  "beacon_launched (fst (perform s before a)) \<longleftrightarrow>
     beacon_launched s \<or> ready_to_launch before \<and> (\<exists>p. a = LaunchBeacon p)"
proof (cases a)
  case (MoveStep p d)
  then show ?thesis
    by (simp add: apply_move_step_def Let_def player_state_update_def split: option.splits)
qed (simp_all add: toggle_fuse_def toggle_breaker_def set_valve_def hold_override_def
      charge_battery_def move_battery_def set_relay_def launch_beacon_def Let_def)

lemma perform_players:
  "\<not> is_move a \<Longrightarrow> sg_players (fst (perform s before a)) = sg_players s"
  by (cases a) (simp_all add: toggle_fuse_def toggle_breaker_def set_valve_def hold_override_def
      charge_battery_def move_battery_def set_relay_def launch_beacon_def Let_def)

lemma sg_apply_sel [simp]:
  "sg_players (sg_apply s a) = sg_players (fst (perform s (derive_systems s) a))"
  "beacon_launched (sg_apply s a) = beacon_launched (fst (perform s (derive_systems s) a))"
  "derive_systems (sg_apply s a) = derive_systems (fst (perform s (derive_systems s) a))"
  by (simp_all add: sg_apply_def Let_def split_beta)

lemma launch_keeps_systems:
  "ready_to_launch before \<Longrightarrow> derive_systems (launch_beacon s before p) = derive_systems s"
  by (simp add: launch_beacon_def derive_systems_def)

lemma move_airlock:
  assumes "r = ps_room (player_state_of (apply_move_step s before p d) q)"
    and "r = ''airlock''" and "ps_room (player_state_of s q) \<noteq> ''airlock''"
  shows "door_access before"
  using assms
  by (auto simp: apply_move_step_def Let_def player_state_update_def player_state_of_def
      split: option.splits if_splits)

section \<open>Properties\<close>

text \<open>The beacon is launched, and the game completed, only by a launch action in
  a state whose derived systems were all ready, and the completion shows them ready.\<close>

theorem launch_only_when_ready:
  assumes "sg_apply_action s a r = Ok s'" and "sg_completion s = None" and "sg_completion s' = Some c"
  shows "(\<exists>p. a = LaunchBeacon p) \<and> ready_to_launch (derive_systems s) \<and> ready_to_launch (sc_systems c)"
proof -
  have s': "s' = sg_apply s a" using assms(1) by (simp add: sg_apply_action_ok)
  have launch: "ready_to_launch (derive_systems s)" "\<exists>p. a = LaunchBeacon p"
    using assms(2,3) perform_launch [of s "derive_systems s" a]
    by (auto simp: sg_completion_def s' split: if_splits)
  moreover have "sc_systems c = derive_systems s"
    using assms(3) launch launch_keeps_systems [OF launch(1)]
    by (auto simp: sg_completion_def s' split: if_splits)
  ultimately show ?thesis by simp
qed

text \<open>Entering the airlock needs the hatch: an accepted action after which a player
  is in the airlock who was not before was taken while the door systems granted access.\<close>

theorem airlock_needs_door_access:
  assumes "sg_apply_action s a r = Ok s'"
    and "ps_room (player_state_of s q) \<noteq> ''airlock''" and "ps_room (player_state_of s' q) = ''airlock''"
  shows "door_access (derive_systems s)"
proof -
  have s': "s' = sg_apply s a" using assms(1) by (simp add: sg_apply_action_ok)
  let ?n = "fst (perform s (derive_systems s) a)"
  have n: "player_state_of s' q = player_state_of ?n q"
    by (simp add: s' player_state_of_def)
  have "is_move a"
  proof (rule ccontr)
    assume "\<not> is_move a"
    then have "player_state_of ?n q = player_state_of s q"
      by (simp add: perform_players player_state_of_def)
    then show False using assms(2,3) n by simp
  qed
  then obtain p d where "a = MoveStep p d" by (cases a) simp_all
  then show ?thesis
    using move_airlock [OF refl, of s "derive_systems s" p d q] assms(2,3) n by simp
qed

text \<open>A player's observation does not depend on the partner's private knowledge: two
  states that differ only in it look the same.\<close>

theorem observation_hides_partner_knowledge:
  "sg_observation (s\<lparr>sg_knowledge := (sg_knowledge s)\<lparr>know_b := kb\<rparr>\<rparr>) RoleA = sg_observation s RoleA
   \<and> sg_observation (s\<lparr>sg_knowledge := (sg_knowledge s)\<lparr>know_a := ka\<rparr>\<rparr>) RoleB = sg_observation s RoleB"
  by (simp add: sg_observation_def derive_systems_def)

text \<open>C40 (invariant). Every play of the Space Game from its initial state, whatever the two players
  submit, runs without a panic and ends in a state satisfying the invariant; there every action
  the game lists for a role is accepted from that role and no action is listed for both.\<close>

theorem space_play_invariant:
  "\<exists>t. play space_game sg_initial_state xs = Some t \<and> sg_inv t \<and>
     (\<forall>a \<in> set (sg_available_actions t (role_str r)). is_ok (sg_apply_action t a r)) \<and>
     set (sg_available_actions t ''A'') \<inter> set (sg_available_actions t ''B'') = {}"
proof -
  obtain t where t: "play space_game sg_initial_state xs = Some t" "sg_inv t"
    using sg.play_total [OF sg_initial_inv] by blast
  moreover have "set (sg_available_actions t ''A'') \<inter> set (sg_available_actions t ''B'') = {}"
    using sg.catalogues_disjoint [OF t(2), of RoleA _ RoleB] by (simp add: sg_available_def)
  moreover have "\<forall>a \<in> set (sg_available_actions t (role_str r)). is_ok (sg_apply_action t a r)"
    using sg.available_accepted [OF t(2)] by (simp add: sg_available_def)
  ultimately show ?thesis by blast
qed

section \<open>The game can be won\<close>

definition moves :: "string \<Rightarrow> player_role \<Rightarrow> string list \<Rightarrow> (space_action \<times> player_role) list" where
  "moves p r ds = map (\<lambda>d. (MoveStep p d, r)) ds"

definition winning_play :: "(space_action \<times> player_role) list" where
  "winning_play =
     moves ''A'' RoleA [''up''] @ [(ToggleFuse ''A'' ''yellow'', RoleA)] @
     moves ''A'' RoleA [''left''] @ [(ToggleFuse ''A'' ''blue'', RoleA)] @
     moves ''A'' RoleA [''down'', ''down''] @ [(ToggleBreaker ''A'' ''main'', RoleA)] @
     moves ''A'' RoleA [''up'', ''right'', ''right'', ''right'', ''right''] @ [(HoldOverride ''A'' True, RoleA)] @
     moves ''A'' RoleA [''right'', ''right''] @
     moves ''B'' RoleB [''up''] @ [(SetValve ''B'' ''C'' True, RoleB)] @
     moves ''B'' RoleB [''left'', ''down'', ''left'', ''left'', ''left'', ''up''] @ [(ChargeBattery ''B'', RoleB)] @
     moves ''B'' RoleB [''down'', ''right''] @ [(MoveBattery ''B'', RoleB)] @
     moves ''B'' RoleB [''right'', ''right'', ''right'', ''up''] @ [(SetValve ''B'' ''C'' False, RoleB)] @
     moves ''B'' RoleB [''right'', ''right''] @ [(SetValve ''B'' ''floodgate'' True, RoleB)] @
     moves ''B'' RoleB [''left'', ''left'', ''left''] @ [(SetValve ''B'' ''A'' True, RoleB)] @
     moves ''B'' RoleB [''down'', ''right'', ''right'', ''down'', ''down'', ''left''] @
     [(CycleRelay ''B'', RoleB), (CycleRelay ''B'', RoleB)] @
     moves ''B'' RoleB [''left'', ''left'', ''left''] @ [(LaunchBeacon ''B'', RoleB)]"

text \<open>The Space Game can be won: an explicit play of moves and actions from the
  initial state launches the beacon.\<close>

theorem space_game_winnable:
  "\<exists>t. play space_game sg_initial_state winning_play = Some t \<and> sg_completion t \<noteq> None"
proof -
  have "map_option beacon_launched (play space_game sg_initial_state winning_play) = Some True"
    by code_simp
  then show ?thesis by (auto simp: sg_completion_def)
qed

section \<open>Two moments of the winning play\<close>

definition state_after :: "nat \<Rightarrow> space_game_state" where
  "state_after n = the (play space_game sg_initial_state (take n winning_play))"

lemma at_launch:
  "is_ok (sg_apply_action (state_after 50) (LaunchBeacon ''B'') RoleB)"
  "sg_completion (state_after 50) = None"
  "beacon_launched (sg_apply (state_after 50) (LaunchBeacon ''B''))"
  by code_simp+

lemma at_airlock:
  "is_ok (sg_apply_action (state_after 48) (MoveStep ''B'' ''left'') RoleB)"
  "ps_room (player_state_of (state_after 48) ''B'') \<noteq> ''airlock''"
  "ps_room (player_state_of (sg_apply (state_after 48) (MoveStep ''B'' ''left'')) ''B'') = ''airlock''"
  by code_simp+

theorem launch_only_when_ready_witness:
  "\<exists>s' c. sg_apply_action (state_after 50) (LaunchBeacon ''B'') RoleB = Ok s' \<and>
     sg_completion s' = Some c \<and> ready_to_launch (derive_systems (state_after 50)) \<and>
     ready_to_launch (sc_systems c)"
proof -
  obtain s' where s': "sg_apply_action (state_after 50) (LaunchBeacon ''B'') RoleB = Ok s'"
    using at_launch(1) by (auto simp: is_ok_iff)
  moreover obtain c where c: "sg_completion s' = Some c"
    using at_launch(3) s' by (auto simp: sg_apply_action_ok sg_completion_def)
  ultimately show ?thesis
    using launch_only_when_ready [OF s' at_launch(2) c] by blast
qed

theorem airlock_needs_door_access_witness:
  "\<exists>s'. sg_apply_action (state_after 48) (MoveStep ''B'' ''left'') RoleB = Ok s' \<and>
     ps_room (player_state_of s' ''B'') = ''airlock'' \<and> door_access (derive_systems (state_after 48))"
proof -
  obtain s' where s': "sg_apply_action (state_after 48) (MoveStep ''B'' ''left'') RoleB = Ok s'"
    using at_airlock(1) by (auto simp: is_ok_iff)
  moreover have r: "ps_room (player_state_of s' ''B'') = ''airlock''"
    using at_airlock(3) s' by (auto simp: sg_apply_action_ok)
  ultimately show ?thesis
    using airlock_needs_door_access [OF s' at_airlock(2) r] by blast
qed

lemma launch_listed:
  "LaunchBeacon ''B'' \<in> set (sg_available_actions (state_after 50) (role_str RoleB))"
  "play space_game sg_initial_state (take 50 winning_play) = Some (state_after 50)"
  by (code_simp, code_simp)

theorem space_play_invariant_witness:
  "sg_inv (state_after 50) \<and> is_ok (sg_apply_action (state_after 50) (LaunchBeacon ''B'') RoleB)"
  using space_play_invariant [of "take 50 winning_play" RoleB] launch_listed by auto

end
