(* ===== verification/Cue_Choice.thy ===== *)
theory Cue_Choice
  imports Game_Interface
begin

text \<open>
  The cue-choice game of the reinforcement-learning experiment,
  \<open>experiments/cue-choice-rl/server/src/game.rs\<close>: a dealer (role B) and a learner (role A)
  play one two-action session.
\<close>

section \<open>Types\<close>

datatype choice = Oak | Pine | Birch | Elm

definition choice_all :: "choice list" where
  "choice_all = [Oak, Pine, Birch, Elm]"

datatype level = Dax | Wug | Kiki | Zorp

fun cue :: "level \<Rightarrow> string" where
  "cue Dax = ''dax''"
| "cue Wug = ''wug''"
| "cue Kiki = ''kiki''"
| "cue Zorp = ''zorp''"

fun correct_choice :: "level \<Rightarrow> choice" where
  "correct_choice Dax = Oak"
| "correct_choice Wug = Pine"
| "correct_choice Kiki = Birch"
| "correct_choice Zorp = Elm"

record cue_choice_config =
  cc_level :: level

datatype cue_choice_state =
    AwaitingDeal level string
  | Choosing level string
  | Complete level string choice bool

datatype cue_choice_action = Deal | Choose choice

datatype cue_choice_observation =
    Waiting
  | ReadyToDeal
  | Cue string string
  | DealerWaiting
  | Finished choice bool

record cue_choice_completion =
  comp_chosen :: choice
  comp_correct :: bool

section \<open>The nonce\<close>

text \<open>Rust's \<open>{:016x}\<close>: the sixteen hexadecimal digits of a \<open>u64\<close>, most significant first.\<close>

definition hex_digit :: "64 word \<Rightarrow> char" where
  "hex_digit d = ''0123456789abcdef'' ! unat d"

definition hex16 :: "64 word \<Rightarrow> string" where
  "hex16 w = map (\<lambda>i. hex_digit (take_bit 4 (drop_bit (4 * i) w))) (rev [0..<16])"

definition trial_nonce :: "seed \<Rightarrow> string" where
  "trial_nonce sd = ''trial-'' @ hex16 sd"

section \<open>The game\<close>

definition cc_initial_state ::
    "cue_choice_config \<Rightarrow> seed \<Rightarrow> secret_values \<Rightarrow> (string, cue_choice_state) outcome" where
  "cc_initial_state cfg sd secrets = Ok (AwaitingDeal (cc_level cfg) (trial_nonce sd))"

fun cc_apply_action ::
    "cue_choice_state \<Rightarrow> cue_choice_action \<Rightarrow> player_role \<Rightarrow> (action_rejection, cue_choice_state) outcome" where
  "cc_apply_action (AwaitingDeal l n) Deal RoleB = Ok (Choosing l n)"
| "cc_apply_action (Choosing l n) (Choose c) RoleA = Ok (Complete l n c (c = correct_choice l))"
| "cc_apply_action (Complete l n c k) a r = Err (rejection ''game_complete'')"
| "cc_apply_action s Deal RoleA = Err (rejection ''wrong_role'')"
| "cc_apply_action s (Choose c) RoleB = Err (rejection ''wrong_role'')"
| "cc_apply_action s a r = Err (rejection ''wrong_phase'')"

fun cc_observation :: "cue_choice_state \<Rightarrow> player_role \<Rightarrow> cue_choice_observation" where
  "cc_observation (AwaitingDeal l n) RoleA = Waiting"
| "cc_observation (AwaitingDeal l n) RoleB = ReadyToDeal"
| "cc_observation (Choosing l n) RoleA = Cue (cue l) n"
| "cc_observation (Choosing l n) RoleB = DealerWaiting"
| "cc_observation (Complete l n c k) r = Finished c k"

fun cc_available_actions :: "cue_choice_state \<Rightarrow> player_role \<Rightarrow> cue_choice_action list option" where
  "cc_available_actions (AwaitingDeal l n) RoleB = Some [Deal]"
| "cc_available_actions (Choosing l n) RoleA = Some (map Choose choice_all)"
| "cc_available_actions s r = Some []"

fun cc_completion :: "cue_choice_state \<Rightarrow> cue_choice_completion option" where
  "cc_completion (Complete l n c k) = Some \<lparr>comp_chosen = c, comp_correct = k\<rparr>"
| "cc_completion s = None"

definition cue_choice ::
    "(cue_choice_config, cue_choice_state, cue_choice_action, cue_choice_observation,
      cue_choice_completion) game" where
  "cue_choice =
     \<lparr>g_initial = cc_initial_state, g_apply = cc_apply_action, g_observation = cc_observation,
      g_available = cc_available_actions, g_completion = cc_completion\<rparr>"

lemma cue_choice_sel [simp]:
  "g_initial cue_choice = cc_initial_state" "g_apply cue_choice = cc_apply_action"
  "g_observation cue_choice = cc_observation" "g_available cue_choice = cc_available_actions"
  "g_completion cue_choice = cc_completion"
  by (simp_all add: cue_choice_def)

section \<open>The contract\<close>

text \<open>The recorded verdict of a complete session is the verdict of its level.\<close>

fun cc_inv :: "cue_choice_state \<Rightarrow> bool" where
  "cc_inv (Complete l n c k) \<longleftrightarrow> k = (c = correct_choice l)"
| "cc_inv s \<longleftrightarrow> True"

fun phase :: "cue_choice_state \<Rightarrow> nat" where
  "phase (AwaitingDeal l n) = 0"
| "phase (Choosing l n) = 1"
| "phase (Complete l n c k) = 2"

lemma cc_apply_Ok:
  "cc_apply_action s a r = Ok s' \<longleftrightarrow>
     (\<exists>l n. s = AwaitingDeal l n \<and> a = Deal \<and> r = RoleB \<and> s' = Choosing l n) \<or>
     (\<exists>l n c. s = Choosing l n \<and> a = Choose c \<and> r = RoleA \<and> s' = Complete l n c (c = correct_choice l))"
  by (cases s; cases a; cases r) auto

interpretation cc: catalogue_game cue_choice cc_inv
proof unfold_locales
  fix s a r r' s' s''
  assume "g_apply cue_choice s a r = Ok s'" "g_apply cue_choice s a r' = Ok s''"
  then show "r = r'" by (auto simp: cc_apply_Ok)
next
  fix s a r s' assume "cc_inv s" "g_apply cue_choice s a r = Ok s'"
  then show "cc_inv s'" by (auto simp: cc_apply_Ok)
next
  fix s a r show "g_apply cue_choice s a r \<noteq> Panic"
    by (cases s; cases a; cases r) auto
next
  fix s r acts a
  assume "g_available cue_choice s r = Some acts" "a \<in> set acts"
  then show "is_ok (g_apply cue_choice s a r)" by (cases s; cases r) auto
qed

lemma phase_step: "cc_apply_action s a r = Ok s' \<Longrightarrow> phase s' = Suc (phase s)"
  by (auto simp: cc_apply_Ok)

lemma phase_le: "phase s \<le> 2"
  by (cases s) simp_all

fun level_of :: "cue_choice_state \<Rightarrow> level" where
  "level_of (AwaitingDeal l n) = l"
| "level_of (Choosing l n) = l"
| "level_of (Complete l n c k) = l"

lemma level_step: "cc_apply_action s a r = Ok s' \<Longrightarrow> level_of s' = level_of s"
  by (auto simp: cc_apply_Ok)

lemma level_play: "play cue_choice s xs = Some t \<Longrightarrow> level_of t = level_of s"
proof (induction xs arbitrary: s)
  case (Cons x xs)
  obtain a r where "x = (a, r)" by (cases x)
  then show ?case
    using Cons level_step by (cases "cc_apply_action s a r") fastforce+
qed simp

text \<open>The number of accepted actions of a play.\<close>

fun accepted :: "cue_choice_state \<Rightarrow> (cue_choice_action \<times> player_role) list \<Rightarrow> nat" where
  "accepted s [] = 0"
| "accepted s ((a, r) # xs) =
     (case cc_apply_action s a r of Ok s' \<Rightarrow> Suc (accepted s' xs) | Err e \<Rightarrow> accepted s xs | Panic \<Rightarrow> 0)"

lemma accepted_phase:
  "play cue_choice s xs = Some t \<Longrightarrow> phase t = phase s + accepted s xs"
proof (induction xs arbitrary: s)
  case (Cons x xs)
  obtain a r where "x = (a, r)" by (cases x)
  then show ?case
    using Cons phase_step by (cases "cc_apply_action s a r") fastforce+
qed simp

section \<open>The nonce determines the seed\<close>

lemma hex_digit_inj:
  assumes "unat a < 16" "unat b < 16" "hex_digit a = hex_digit b"
  shows "a = b"
proof -
  have "distinct ''0123456789abcdef''" by simp
  then have "unat a = unat b"
    using assms by (simp add: hex_digit_def nth_eq_iff_index_eq)
  then show ?thesis by (simp only: word_unat_eq_iff)
qed

lemma unat_nibble: "unat (take_bit 4 (w :: 64 word)) < 16"
proof -
  have "unat (take_bit 4 w) = take_bit 4 (unat w)" by (rule unsigned_take_bit_eq)
  also have "\<dots> < 16" by (simp add: take_bit_eq_mod)
  finally show ?thesis .
qed

lemma hex16_nibbles:
  assumes "hex16 v = hex16 w" "i < 16"
  shows "take_bit 4 (drop_bit (4 * i) v) = take_bit 4 (drop_bit (4 * i) w)"
proof -
  have "hex_digit (take_bit 4 (drop_bit (4 * i) v)) = hex_digit (take_bit 4 (drop_bit (4 * i) w))"
    using assms by (simp only: hex16_def map_eq_conv) (simp)
  then show ?thesis by (rule hex_digit_inj [OF unat_nibble unat_nibble])
qed

lemma hex16_inj: "hex16 v = hex16 w \<longleftrightarrow> v = w"
proof
  assume eq: "hex16 v = hex16 w"
  show "v = w"
  proof (rule bit_word_eqI)
    fix n assume "n < LENGTH(64)"
    then have i: "n div 4 < 16" by simp
    have "bit (take_bit 4 (drop_bit (4 * (n div 4)) v)) (n mod 4) =
          bit (take_bit 4 (drop_bit (4 * (n div 4)) w)) (n mod 4)"
      by (simp only: hex16_nibbles [OF eq i])
    then show "bit v n = bit w n"
      by (simp add: bit_take_bit_iff bit_drop_bit_eq)
  qed
qed simp

section \<open>Properties\<close>

text \<open>A cue-choice session accepts at most two actions whatever is submitted; it is
  complete exactly when it accepted two, and the completion's verdict is that of the configured level.\<close>

theorem cue_choice_session:
  assumes "cc_initial_state cfg sd sec = Ok s"
  shows "\<exists>t. play cue_choice s xs = Some t \<and> accepted s xs \<le> 2 \<and>
     (cc_completion t \<noteq> None \<longleftrightarrow> accepted s xs = 2) \<and>
     (\<forall>c. cc_completion t = Some c \<longrightarrow>
       comp_correct c = (comp_chosen c = correct_choice (cc_level cfg)))"
proof -
  have s: "s = AwaitingDeal (cc_level cfg) (trial_nonce sd)"
    using assms by (simp add: cc_initial_state_def)
  obtain t where t: "play cue_choice s xs = Some t" "cc_inv t"
    using cc.play_total [of s xs] s by auto
  have p: "phase t = accepted s xs" using accepted_phase [OF t(1)] s by simp
  have "cc_completion t \<noteq> None \<longleftrightarrow> phase t = 2" by (cases t) simp_all
  then show ?thesis
    using t p phase_le [of t] level_play [OF t(1)] s by (cases t) auto
qed

lemma cue_choice_session_witness:
  "accepted (AwaitingDeal Dax (trial_nonce 7)) [(Deal, RoleB), (Choose Oak, RoleA), (Deal, RoleB)] \<le> 2"
  using cue_choice_session [of "\<lparr>cc_level = Dax\<rparr>" 7 Map.empty "AwaitingDeal Dax (trial_nonce 7)"]
  by (auto simp: cc_initial_state_def)

text \<open>The nonce shown to the learner determines the seed, and the seed determines
  nothing else: two sessions of one configuration start equal exactly when their seeds are.\<close>

theorem nonce_determines_seed:
  "cc_initial_state cfg sd sec = cc_initial_state cfg sd' sec' \<longleftrightarrow> sd = sd'"
  by (simp add: cc_initial_state_def trial_nonce_def hex16_inj)

text \<open>The dealer never learns the cue: while the session runs the dealer's observation is
  the same for all levels and nonces.\<close>

theorem dealer_sees_no_cue:
  "cc_observation (AwaitingDeal l n) RoleB = cc_observation (AwaitingDeal l' n') RoleB \<and>
   cc_observation (Choosing l n) RoleB = cc_observation (Choosing l' n') RoleB"
  by simp

end
