(* ===== verification/Json.thy ===== *)
theory Json
  imports Prelude Complex_Main "HOL-Library.List_Lexorder" "HOL-Library.Char_ord"
begin

text \<open>
  Structured values as \<open>serde_json::Value\<close> presents them to the code, the two machine types
  that matter for them, and the string operations of the standard library the components use.

  A string is a list of bytes (UTF-8), as \<open>str\<close> is. A JSON number is an integer between
  \<open>-2^63\<close> and \<open>2^64 - 1\<close> or a finite \<open>f64\<close>; a finite \<open>f64\<close> is its rational value, so the
  two zeros are one. An object is its list of entries in ascending key order, which is the
  order \<open>serde_json::Map\<close> keeps.
\<close>

section \<open>Values\<close>

datatype json =
    JNull
  | JBool bool
  | JInt int
  | JFloat rat
  | JStr string
  | JArr "json list"
  | JObj "(string \<times> json) list"

datatype f64 = Finite rat | Infinite bool | NotANumber

fun f64_is_finite :: "f64 \<Rightarrow> bool" where
  "f64_is_finite (Finite q) = True"
| "f64_is_finite x = False"

text \<open>The IEEE comparison: false when an operand is not a number.\<close>

fun f64_less :: "f64 \<Rightarrow> f64 \<Rightarrow> bool" where
  "f64_less (Finite a) (Finite b) \<longleftrightarrow> a < b"
| "f64_less (Finite a) (Infinite p) \<longleftrightarrow> p"
| "f64_less (Infinite p) (Finite b) \<longleftrightarrow> \<not> p"
| "f64_less (Infinite p) (Infinite q) \<longleftrightarrow> \<not> p \<and> q"
| "f64_less NotANumber b \<longleftrightarrow> False"
| "f64_less a NotANumber \<longleftrightarrow> False"

text \<open>\<open>i64 as f64\<close> and \<open>u64 as f64\<close>: the nearest value with 53 significant bits, ties to even.\<close>

fun bit_len :: "nat \<Rightarrow> nat" where
  "bit_len n = (if n = 0 then 0 else Suc (bit_len (n div 2)))"

declare bit_len.simps [simp del]

definition round_nat :: "nat \<Rightarrow> nat" where
  "round_nat m =
     (if m < 2 ^ 53 then m
      else
        let e = bit_len m - 53; q = m div 2 ^ e; r = m mod 2 ^ e; h = 2 ^ (e - 1)
        in (if r > h \<or> r = h \<and> odd q then q + 1 else q) * 2 ^ e)"

definition int_to_f64 :: "int \<Rightarrow> rat" where
  "int_to_f64 n = (if n < 0 then - of_nat (round_nat (nat (- n))) else of_nat (round_nat (nat n)))"

lemma round_nat_small: "m < 2 ^ 53 \<Longrightarrow> round_nat m = m"
  by (simp add: round_nat_def)

lemma int_to_f64_exact:
  assumes "\<bar>n\<bar> < 2 ^ 53"
  shows "int_to_f64 n = of_int n"
proof (cases "n < 0")
  case True
  have "nat (- n) < 2 ^ 53" using assms True by (simp add: nat_less_iff)
  then show ?thesis using True by (simp add: int_to_f64_def round_nat_small)
next
  case False
  have "nat n < 2 ^ 53" using assms False by (simp add: nat_less_iff)
  then show ?thesis using False by (simp add: int_to_f64_def round_nat_small)
qed

section \<open>Accessors\<close>

fun as_str :: "json \<Rightarrow> string option" where
  "as_str (JStr s) = Some s"
| "as_str v = None"

fun as_bool :: "json \<Rightarrow> bool option" where
  "as_bool (JBool b) = Some b"
| "as_bool v = None"

fun as_i64 :: "json \<Rightarrow> int option" where
  "as_i64 (JInt n) = (if n < 2 ^ 63 then Some n else None)"
| "as_i64 v = None"

fun as_f64 :: "json \<Rightarrow> rat option" where
  "as_f64 (JInt n) = Some (int_to_f64 n)"
| "as_f64 (JFloat q) = Some q"
| "as_f64 v = None"

fun as_object :: "json \<Rightarrow> (string \<times> json) list option" where
  "as_object (JObj kvs) = Some kvs"
| "as_object v = None"

fun as_array :: "json \<Rightarrow> json list option" where
  "as_array (JArr vs) = Some vs"
| "as_array v = None"

fun is_null :: "json \<Rightarrow> bool" where
  "is_null JNull = True"
| "is_null v = False"

lemma is_null_iff [simp]: "is_null v \<longleftrightarrow> v = JNull"
  by (cases v) simp_all

lemma as_str_Some [simp]: "as_str v = Some s \<longleftrightarrow> v = JStr s"
  by (cases v) simp_all

lemma as_bool_Some [simp]: "as_bool v = Some b \<longleftrightarrow> v = JBool b"
  by (cases v) simp_all

lemma as_i64_Some: "as_i64 v = Some n \<longleftrightarrow> v = JInt n \<and> n < 2 ^ 63"
  by (cases v) auto

lemma as_object_Some [simp]: "as_object v = Some kvs \<longleftrightarrow> v = JObj kvs"
  by (cases v) simp_all

section \<open>Ordered maps\<close>

text \<open>Insertion into the entries of a \<open>BTreeMap\<close>: ascending keys, an equal key is replaced.\<close>

fun entry_insert :: "string \<Rightarrow> 'v \<Rightarrow> (string \<times> 'v) list \<Rightarrow> (string \<times> 'v) list" where
  "entry_insert k v [] = [(k, v)]"
| "entry_insert k v ((k', v') # kvs) =
     (if k < k' then (k, v) # (k', v') # kvs
      else if k = k' then (k, v) # kvs
      else (k', v') # entry_insert k v kvs)"

definition sorted_entries :: "(string \<times> 'v) list \<Rightarrow> bool" where
  "sorted_entries kvs \<longleftrightarrow> sorted_wrt (<) (map fst kvs)"

lemma map_of_entry_insert: "map_of (entry_insert k v kvs) = (map_of kvs)(k \<mapsto> v)"
  by (induction kvs) (auto simp: fun_eq_iff)

lemma keys_entry_insert: "set (map fst (entry_insert k v kvs)) = insert k (set (map fst kvs))"
  using map_of_entry_insert [of k v kvs]
  by (metis dom_fun_upd dom_map_of_conv_image_fst option.distinct(1) set_map)

lemma sorted_entry_insert: "sorted_entries kvs \<Longrightarrow> sorted_entries (entry_insert k v kvs)"
proof (induction kvs)
  case (Cons kv kvs)
  obtain k' v' where kv: "kv = (k', v')" by (cases kv)
  have "\<forall>x \<in> set (map fst (entry_insert k v kvs)). k' < x" if "k' < k"
    using Cons.prems that kv unfolding keys_entry_insert by (auto simp: sorted_entries_def)
  then show ?case
    using Cons kv by (auto simp: sorted_entries_def dest: order.strict_trans)
qed (simp add: sorted_entries_def)

lemma sorted_entries_distinct: "sorted_entries kvs \<Longrightarrow> distinct (map fst kvs)"
  by (simp add: sorted_entries_def strict_sorted_iff)

lemma entries_by_lookup:
  "distinct (map fst kvs) \<Longrightarrow> map (\<lambda>k. (k, the (map_of kvs k))) (map fst kvs) = kvs"
proof -
  assume d: "distinct (map fst kvs)"
  have "map (\<lambda>x. (fst x, the (map_of kvs (fst x)))) kvs = map (\<lambda>x. x) kvs"
  proof (rule map_cong [OF refl])
    fix x assume "x \<in> set kvs"
    then show "(fst x, the (map_of kvs (fst x))) = x"
      using map_of_is_SomeI [OF d, of "fst x" "snd x"] by simp
  qed
  then show ?thesis by (simp add: comp_def)
qed

text \<open>Two ascending entry lists with the same lookups are equal.\<close>

lemma sorted_entries_eqI:
  assumes "sorted_entries xs" "sorted_entries ys" "map_of xs = map_of ys"
  shows "xs = ys"
proof -
  have "set (map fst xs) = set (map fst ys)"
    using assms(3) by (metis dom_map_of_conv_image_fst set_map)
  then have "map fst xs = map fst ys"
    using assms(1,2) by (simp add: sorted_entries_def strict_sorted_equal)
  then show ?thesis
    using assms entries_by_lookup sorted_entries_distinct by metis
qed

section \<open>Strings\<close>

text \<open>
  The number of bytes of a leading white-space character, by the Unicode property
  \<open>White_Space\<close> that \<open>str::trim\<close> uses; 0 when the string starts otherwise.
\<close>

fun ws_bytes :: "nat list \<Rightarrow> nat" where
  "ws_bytes [] = 0"
| "ws_bytes (a # bs) =
     (if a = 32 \<or> 9 \<le> a \<and> a \<le> 13 then 1
      else if a = 0xC2 then
        (case bs of b # _ \<Rightarrow> if b = 0x85 \<or> b = 0xA0 then 2 else 0 | [] \<Rightarrow> 0)
      else if a = 0xE1 then (if take 2 bs = [0x9A, 0x80] then 3 else 0)
      else if a = 0xE2 then
        (case bs of
           b # c # _ \<Rightarrow>
             if b = 0x80 \<and> (0x80 \<le> c \<and> c \<le> 0x8A \<or> c = 0xA8 \<or> c = 0xA9 \<or> c = 0xAF)
                \<or> b = 0x81 \<and> c = 0x9F then 3 else 0
         | _ \<Rightarrow> 0)
      else if a = 0xE3 then (if take 2 bs = [0x80, 0x80] then 3 else 0)
      else 0)"

function trim_start_bytes :: "nat list \<Rightarrow> nat list" where
  "trim_start_bytes bs =
     (if bs = [] \<or> ws_bytes bs = 0 then bs else trim_start_bytes (drop (ws_bytes bs) bs))"
  by pat_completeness auto
termination
  by (relation "measure length") auto

declare trim_start_bytes.simps [simp del]

text \<open>\<open>text.trim().is_empty()\<close>: nothing is left once leading white space is removed.\<close>

definition blank :: "string \<Rightarrow> bool" where
  "blank s \<longleftrightarrow> trim_start_bytes (map of_char s) = []"

lemma blank_Nil [simp]: "blank []"
  by (simp add: blank_def trim_start_bytes.simps)

definition is_ascii_alphanumeric :: "char \<Rightarrow> bool" where
  "is_ascii_alphanumeric c =
     (let n = of_char c :: nat in 48 \<le> n \<and> n \<le> 57 \<or> 65 \<le> n \<and> n \<le> 90 \<or> 97 \<le> n \<and> n \<le> 122)"

definition starts_with :: "string \<Rightarrow> string \<Rightarrow> bool" where
  "starts_with p s \<longleftrightarrow> take (length p) s = p"

definition strip_prefix :: "string \<Rightarrow> string \<Rightarrow> string option" where
  "strip_prefix p s = (if starts_with p s then Some (drop (length p) s) else None)"

text \<open>\<open>str::trim_start_matches\<close> removes every repetition of a (non-empty) prefix.\<close>

function trim_start_matches :: "string \<Rightarrow> string \<Rightarrow> string" where
  "trim_start_matches p s =
     (if p \<noteq> [] \<and> starts_with p s then trim_start_matches p (drop (length p) s) else s)"
  by pat_completeness auto
termination
proof (relation "measure (\<lambda>(p, s). length s)")
  fix p s :: string
  assume a: "p \<noteq> [] \<and> starts_with p s"
  then have "length s \<noteq> 0" by (auto simp: starts_with_def)
  with a show "((p, drop (length p) s), p, s) \<in> measure (\<lambda>(p, s). length s)" by simp
qed simp

declare trim_start_matches.simps [simp del]

lemma starts_with_append [simp]: "starts_with p (p @ s)"
  by (simp add: starts_with_def)

lemma starts_with_iff: "starts_with p s \<longleftrightarrow> (\<exists>t. s = p @ t)"
  by (auto simp: starts_with_def) (metis append_take_drop_id)

lemma strip_prefix_Some: "strip_prefix p s = Some t \<longleftrightarrow> s = p @ t"
  by (auto simp: strip_prefix_def starts_with_iff)

lemma trim_start_append: "p \<noteq> [] \<Longrightarrow> trim_start_matches p (p @ s) = trim_start_matches p s"
  by (subst trim_start_matches.simps) simp

lemma trim_start_none: "\<not> starts_with p s \<Longrightarrow> trim_start_matches p s = s"
  by (subst trim_start_matches.simps) simp

end
