(* ===== verification/Agent_Settings.thy ===== *)
theory Agent_Settings
  imports Json
begin

text \<open>
  The semantic schema of agent settings, \<open>rust-server/src/game.rs\<close>: definitions of typed
  configuration fields, their validation, the normalisation of stored settings and the
  resolution of secret references. \<open>http::Uri\<close> and \<open>serde_yaml\<close> are parsers of other
  crates: \<open>parse_uri\<close> (scheme and host of an accepted URI) and \<open>parse_yaml\<close> are arguments.
  An error carries the path the message of the code names; the prose of messages is left out.
\<close>

section \<open>Schema\<close>

datatype string_format = Plain | Uri | Yaml

record agent_config_choice =
  ch_value :: string
  ch_label :: string

datatype secret_purpose = Factory | AgentInstance

datatype agent_config_value =
    VJson
  | VString string_format
  | VBoolean
  | VInteger "int option" "int option"
  | VNumber "f64 option" "f64 option"
  | VChoice "agent_config_choice list"
  | VObject "agent_config_field list"
  | VSecretReference secret_purpose
and agent_config_field =
  Field (f_key: string) (f_label: string) (f_help: string) (f_value: agent_config_value)
    (f_required: bool) (f_default: json)

record agent_definition =
  def_id :: string
  def_name :: string
  def_description :: string
  def_fields :: "agent_config_field list"

datatype settings_error =
    EmptyDefinitionId
  | NotAnObject
  | InvalidKey string
  | DuplicateKey string
  | ImpossibleBounds string
  | InvalidBounds string
  | InvalidChoices string
  | InvalidDefault settings_error
  | UnknownSetting string
  | RequiredMissing string
  | WrongType string
  | MustNotBeEmpty string
  | MustBeUri string
  | MustBeHttpUri string
  | MustBeYaml string
  | MustBeYamlMapping string
  | OutsideBounds string
  | NotDeclaredChoice string
  | BadSecretReference string
  | LostPrefix
  | MissingSecret string

definition valid_key :: "string \<Rightarrow> bool" where
  "valid_key key \<longleftrightarrow> key \<noteq> [] \<and> length key \<le> 128 \<and>
     list_all (\<lambda>b. is_ascii_alphanumeric b \<or> b = CHR ''_'' \<or> b = CHR ''-'') key"

definition sub_path :: "string \<Rightarrow> string \<Rightarrow> string" where
  "sub_path path key = path @ ''.'' @ key"

section \<open>Normalisation\<close>

definition below_minimum :: "'a::linorder option \<Rightarrow> 'a \<Rightarrow> bool" where
  "below_minimum m n = (case m of None \<Rightarrow> False | Some v \<Rightarrow> n < v)"

definition above_maximum :: "'a::linorder option \<Rightarrow> 'a \<Rightarrow> bool" where
  "above_maximum m n = (case m of None \<Rightarrow> False | Some v \<Rightarrow> n > v)"

definition f64_below :: "f64 option \<Rightarrow> rat \<Rightarrow> bool" where
  "f64_below m q = (case m of None \<Rightarrow> False | Some v \<Rightarrow> f64_less (Finite q) v)"

definition f64_above :: "f64 option \<Rightarrow> rat \<Rightarrow> bool" where
  "f64_above m q = (case m of None \<Rightarrow> False | Some v \<Rightarrow> f64_less v (Finite q))"

type_synonym uri_parser = "string \<Rightarrow> (string option \<times> string option) option"
type_synonym yaml_parser = "string \<Rightarrow> json option"

definition normalize_string ::
    "uri_parser \<Rightarrow> yaml_parser \<Rightarrow> string_format \<Rightarrow> bool \<Rightarrow> json \<Rightarrow> string \<Rightarrow> (settings_error, json) outcome" where
  "normalize_string parse_uri parse_yaml format required value path =
     obind (ok_or (as_str value) (WrongType path)) (\<lambda>txt.
     if required \<and> blank txt then Err (MustNotBeEmpty path)
     else (case format of
         Uri \<Rightarrow>
           obind (ok_or (parse_uri txt) (MustBeUri path)) (\<lambda>(scheme, host).
             if scheme \<noteq> Some ''http'' \<and> scheme \<noteq> Some ''https'' \<or> host = None
             then Err (MustBeHttpUri path) else Ok value)
       | Yaml \<Rightarrow>
           if \<not> blank txt then
             obind (ok_or (parse_yaml txt) (MustBeYaml path)) (\<lambda>document.
               if as_object document = None then Err (MustBeYamlMapping path) else Ok value)
           else Ok value
       | Plain \<Rightarrow> Ok value))"

definition normalize_secret :: "json \<Rightarrow> string \<Rightarrow> (settings_error, json) outcome" where
  "normalize_secret value path =
     obind (ok_or (as_str value) (WrongType path)) (\<lambda>reference.
       if \<not> starts_with ''game.'' reference \<or> \<not> valid_key (trim_start_matches ''game.'' reference)
       then Err (BadSecretReference path) else Ok value)"

text \<open>The value a field takes: the stored one, else a declared default.\<close>

definition field_value :: "agent_config_field \<Rightarrow> (string \<times> json) list \<Rightarrow> json option" where
  "field_value f obj =
     (case map_of obj (f_key f) of
        Some v \<Rightarrow> Some v
      | None \<Rightarrow> if is_null (f_default f) then None else Some (f_default f))"

definition check_known_keys ::
    "agent_config_field list \<Rightarrow> (string \<times> json) list \<Rightarrow> string \<Rightarrow> (settings_error, unit) outcome" where
  "check_known_keys flds obj path =
     (case find (\<lambda>k. \<not> list_ex (\<lambda>f. f_key f = k) flds) (map fst obj) of
        Some k \<Rightarrow> Err (UnknownSetting (sub_path path k))
      | None \<Rightarrow> Ok ())"

lemma size_member_less [termination_simp]: "x \<in> set xs \<Longrightarrow> f x < size_list f xs"
  by (induction xs) auto

function (sequential) normalize_value ::
    "uri_parser \<Rightarrow> yaml_parser \<Rightarrow> agent_config_field \<Rightarrow> json \<Rightarrow> string \<Rightarrow> (settings_error, json) outcome"
  and normalize_object ::
    "uri_parser \<Rightarrow> yaml_parser \<Rightarrow> agent_config_field list \<Rightarrow> (string \<times> json) list \<Rightarrow> string
      \<Rightarrow> (settings_error, json) outcome" where
  "normalize_value pu py (Field key label help VJson required dflt) value path = Ok value"
| "normalize_value pu py (Field key label help (VString format) required dflt) value path =
     normalize_string pu py format required value path"
| "normalize_value pu py (Field key label help VBoolean required dflt) value path =
     obind (ok_or (as_bool value) (WrongType path)) (\<lambda>b. Ok (JBool b))"
| "normalize_value pu py (Field key label help (VInteger mi ma) required dflt) value path =
     obind (ok_or (as_i64 value) (WrongType path)) (\<lambda>n.
       if below_minimum mi n \<or> above_maximum ma n then Err (OutsideBounds path) else Ok (JInt n))"
| "normalize_value pu py (Field key label help (VNumber mi ma) required dflt) value path =
     obind (ok_or (as_f64 value) (WrongType path)) (\<lambda>q.
       if f64_below mi q \<or> f64_above ma q then Err (OutsideBounds path) else Ok (JFloat q))"
| "normalize_value pu py (Field key label help (VChoice choices) required dflt) value path =
     obind (ok_or (as_str value) (WrongType path)) (\<lambda>selected.
       if \<not> list_ex (\<lambda>c. ch_value c = selected) choices then Err (NotDeclaredChoice path)
       else Ok value)"
| "normalize_value pu py (Field key label help (VObject flds) required dflt) value path =
     obind (ok_or (as_object value) (WrongType path)) (\<lambda>obj. normalize_object pu py flds obj path)"
| "normalize_value pu py (Field key label help (VSecretReference purpose) required dflt) value path =
     normalize_secret value path"
| "normalize_object pu py flds obj path =
     obind (check_known_keys flds obj path) (\<lambda>_.
     obind (ofold (\<lambda>f acc.
         case field_value f obj of
           Some v \<Rightarrow>
             obind (normalize_value pu py f v (sub_path path (f_key f))) (\<lambda>n.
               Ok (entry_insert (f_key f) n acc))
         | None \<Rightarrow> if f_required f then Err (RequiredMissing (sub_path path (f_key f))) else Ok acc)
       flds [])
     (\<lambda>normalized. Ok (JObj normalized)))"
  by pat_completeness auto
termination
  by (relation "measure (\<lambda>x. case x of Inl (_, _, f, _, _) \<Rightarrow> size f
        | Inr (_, _, fs, _, _) \<Rightarrow> size_list size fs)")
     (auto simp: size_member_less)


definition normalize_settings ::
    "uri_parser \<Rightarrow> yaml_parser \<Rightarrow> agent_definition \<Rightarrow> json \<Rightarrow> (settings_error, json) outcome" where
  "normalize_settings pu py d settings =
     (if is_null settings \<and> def_fields d = [] then Ok (JObj [])
      else obind (ok_or (as_object settings) NotAnObject) (\<lambda>obj.
        normalize_object pu py (def_fields d) obj ''config''))"

section \<open>Validation of a definition\<close>

text \<open>The \<open>any\<close> over the choices inserts each value into a set as it goes.\<close>

fun some_choice_bad :: "string list \<Rightarrow> agent_config_choice list \<Rightarrow> bool" where
  "some_choice_bad seen [] = False"
| "some_choice_bad seen (c # cs) =
     (if ch_value c = [] \<or> blank (ch_label c) \<or> List.member seen (ch_value c) then True
      else some_choice_bad (ch_value c # seen) cs)"

fun check_value_type :: "agent_config_value \<Rightarrow> string \<Rightarrow> (settings_error, unit) outcome" where
  "check_value_type (VInteger (Some a) (Some b)) path =
     (if a > b then Err (ImpossibleBounds path) else Ok ())"
| "check_value_type (VNumber mi ma) path =
     (if (\<exists>v \<in> set_option mi. \<not> f64_is_finite v) \<or> (\<exists>v \<in> set_option ma. \<not> f64_is_finite v) \<or>
         (case (mi, ma) of (Some a, Some b) \<Rightarrow> f64_less b a | _ \<Rightarrow> False)
      then Err (InvalidBounds path) else Ok ())"
| "check_value_type (VChoice choices) path =
     (if choices = [] \<or> some_choice_bad [] choices then Err (InvalidChoices path) else Ok ())"
| "check_value_type v path = Ok ()"

fun nested_fields :: "agent_config_value \<Rightarrow> agent_config_field list option" where
  "nested_fields (VObject fs) = Some fs"
| "nested_fields v = None"

lemma nested_fields_size:
  "nested_fields (f_value f) = Some fs \<Longrightarrow> size_list size fs < size f"
  by (cases f; cases "f_value f") auto

function validate_fields ::
    "uri_parser \<Rightarrow> yaml_parser \<Rightarrow> agent_config_field list \<Rightarrow> string \<Rightarrow> (settings_error, unit) outcome" where
  "validate_fields pu py flds path =
     obind (ofold (\<lambda>f keys.
         let fpath = sub_path path (f_key f) in
         if \<not> valid_key (f_key f) then Err (InvalidKey fpath)
         else if List.member keys (f_key f) then Err (DuplicateKey fpath)
         else obind (check_value_type (f_value f) fpath) (\<lambda>_.
              obind (case nested_fields (f_value f) of
                  Some fs \<Rightarrow> validate_fields pu py fs fpath
                | None \<Rightarrow> Ok ()) (\<lambda>_.
              if is_null (f_default f) then Ok (f_key f # keys)
              else obind (map_err InvalidDefault (normalize_value pu py f (f_default f) fpath))
                (\<lambda>_. Ok (f_key f # keys)))))
       flds [])
     (\<lambda>_. Ok ())"
  by pat_completeness auto
termination
  by (relation "measure (\<lambda>(_, _, fs, _). size_list size fs)")
     (auto dest!: nested_fields_size size_member_less [of _ _ size])

definition validate_definition ::
    "uri_parser \<Rightarrow> yaml_parser \<Rightarrow> agent_definition \<Rightarrow> (settings_error, unit) outcome" where
  "validate_definition pu py d =
     (if blank (def_id d) then Err EmptyDefinitionId
      else validate_fields pu py (def_fields d) ''config'')"

section \<open>Secret resolution\<close>

text \<open>The two maps a resolution fills, one per purpose.\<close>

type_synonym secret_maps = "(string \<rightharpoonup> string) \<times> (string \<rightharpoonup> string)"

fun put_secret :: "secret_purpose \<Rightarrow> string \<Rightarrow> string \<Rightarrow> secret_maps \<Rightarrow> secret_maps" where
  "put_secret Factory path v (fa, ag) = (fa(path \<mapsto> v), ag)"
| "put_secret AgentInstance path v (fa, ag) = (fa, ag(path \<mapsto> v))"

function resolve_field_secrets ::
    "agent_config_field list \<Rightarrow> (string \<times> json) list \<Rightarrow> string \<Rightarrow> (string \<rightharpoonup> string) \<Rightarrow> secret_maps
      \<Rightarrow> (settings_error, secret_maps) outcome" where
  "resolve_field_secrets flds vals path secrets maps =
     ofold (\<lambda>f acc.
       case map_of vals (f_key f) of
         None \<Rightarrow> Ok acc
       | Some value \<Rightarrow>
           let fpath = sub_path path (f_key f) in
           (case nested_fields (f_value f) of
              Some fs \<Rightarrow>
                obind (ok_or (as_object value) (WrongType fpath)) (\<lambda>obj.
                  resolve_field_secrets fs obj fpath secrets acc)
            | None \<Rightarrow>
                (case f_value f of
                   VSecretReference purpose \<Rightarrow>
                     obind (ok_or (as_str value) (WrongType fpath)) (\<lambda>reference.
                     obind (ok_or (strip_prefix ''game.'' reference) LostPrefix) (\<lambda>key.
                     obind (ok_or (secrets key) (MissingSecret reference)) (\<lambda>secret.
                       Ok (put_secret purpose fpath secret acc))))
                 | _ \<Rightarrow> Ok acc)))
       flds maps"
  by pat_completeness auto
termination
  by (relation "measure (\<lambda>(fs, _, _, _, _). size_list size fs)")
     (auto dest!: nested_fields_size size_member_less [of _ _ size])

definition resolve_secrets ::
    "agent_definition \<Rightarrow> json \<Rightarrow> (string \<rightharpoonup> string) \<Rightarrow> (settings_error, secret_maps) outcome" where
  "resolve_secrets d settings secrets =
     obind (ok_or (as_object settings) NotAnObject) (\<lambda>obj.
       resolve_field_secrets (def_fields d) obj ''config'' secrets (Map.empty, Map.empty))"

declare normalize_value.simps [simp del] normalize_object.simps [simp del]
  validate_fields.simps [simp del] resolve_field_secrets.simps [simp del]


section \<open>Schemas with distinct keys\<close>

function distinct_fields :: "agent_config_field list \<Rightarrow> bool" where
  "distinct_fields flds \<longleftrightarrow> distinct (map f_key flds) \<and>
     list_all (\<lambda>f. case nested_fields (f_value f) of Some fs \<Rightarrow> distinct_fields fs | None \<Rightarrow> True) flds"
  by pat_completeness auto
termination
  by (relation "measure (size_list size)")
     (auto dest!: nested_fields_size size_member_less [of _ _ size])

declare distinct_fields.simps [simp del]

text \<open>A fold that pushes each key and refuses a key it has seen.\<close>

lemma ofold_fresh_keys:
  assumes "ofold g xs ks = Ok ks'"
    and "\<And>x ks ks'. x \<in> set xs \<Longrightarrow> g x ks = Ok ks' \<Longrightarrow> ks' = key x # ks \<and> key x \<notin> set ks \<and> P x"
  shows "distinct (map key xs) \<and> (\<forall>x \<in> set xs. key x \<notin> set ks \<and> P x)"
  using assms
proof (induction xs arbitrary: ks)
  case (Cons x xs)
  then obtain k1 where k1: "g x ks = Ok k1" "ofold g xs k1 = Ok ks'" by auto
  have x: "k1 = key x # ks" "key x \<notin> set ks" "P x"
    using Cons.prems(2) [of x ks k1] k1(1) by auto
  have "distinct (map key xs) \<and> (\<forall>y \<in> set xs. key y \<notin> set k1 \<and> P y)"
    by (rule Cons.IH [OF k1(2)]) (use Cons.prems(2) in \<open>auto intro: list.set_intros(2)\<close>)
  then show ?case using x by auto
qed simp

lemma validate_distinct_fields:
  "validate_fields pu py flds path = Ok () \<Longrightarrow> distinct_fields flds"
proof (induction pu py flds path rule: validate_fields.induct)
  case (1 pu py flds path)
  let ?P = "\<lambda>f. case nested_fields (f_value f) of
     Some fs \<Rightarrow> valid_key (f_key f) \<and> validate_fields pu py fs (sub_path path (f_key f)) = Ok ()
   | None \<Rightarrow> True"
  obtain ks where ks: "ofold (\<lambda>f keys.
         let fpath = sub_path path (f_key f) in
         if \<not> valid_key (f_key f) then Err (InvalidKey fpath)
         else if List.member keys (f_key f) then Err (DuplicateKey fpath)
         else obind (check_value_type (f_value f) fpath) (\<lambda>_.
              obind (case nested_fields (f_value f) of
                  Some fs \<Rightarrow> validate_fields pu py fs fpath
                | None \<Rightarrow> Ok ()) (\<lambda>_.
              if is_null (f_default f) then Ok (f_key f # keys)
              else obind (map_err InvalidDefault (normalize_value pu py f (f_default f) fpath))
                (\<lambda>_. Ok (f_key f # keys)))))
       flds [] = Ok ks"
    using "1.prems" by (subst (asm) validate_fields.simps) auto
  have P: "distinct (map f_key flds) \<and> (\<forall>f \<in> set flds. f_key f \<notin> set [] \<and> ?P f)"
    by (rule ofold_fresh_keys [OF ks])
      (auto simp: Let_def split: if_splits option.splits)
  have "distinct_fields fs" if "f \<in> set flds" "nested_fields (f_value f) = Some fs" for f fs
    by (rule "1.IH" [OF that(1) refl, of "[]"]) (use P that in auto)
  then show ?case
    using P by (subst distinct_fields.simps) (auto simp: list_all_iff split: option.splits)
qed

section \<open>Normalisation, field by field\<close>

definition norm_field ::
    "uri_parser \<Rightarrow> yaml_parser \<Rightarrow> agent_config_field \<Rightarrow> (string \<times> json) list \<Rightarrow> string
      \<Rightarrow> (settings_error, json option) outcome" where
  "norm_field pu py f obj path =
     (case field_value f obj of
        Some v \<Rightarrow> obind (normalize_value pu py f v (sub_path path (f_key f))) (\<lambda>n. Ok (Some n))
      | None \<Rightarrow> if f_required f then Err (RequiredMissing (sub_path path (f_key f))) else Ok None)"

definition insert_opt :: "string \<Rightarrow> json option \<Rightarrow> (string \<times> json) list \<Rightarrow> (string \<times> json) list" where
  "insert_opt k ov acc = (case ov of None \<Rightarrow> acc | Some n \<Rightarrow> entry_insert k n acc)"

abbreviation insert_all ::
    "(agent_config_field \<Rightarrow> (settings_error, json option) outcome) \<Rightarrow> agent_config_field list
      \<Rightarrow> (string \<times> json) list \<Rightarrow> (settings_error, (string \<times> json) list) outcome" where
  "insert_all h flds acc \<equiv> ofold (\<lambda>f acc. obind (h f) (\<lambda>v. Ok (insert_opt (f_key f) v acc))) flds acc"

lemma normalize_object_eq:
  "normalize_object pu py flds obj path =
     obind (check_known_keys flds obj path) (\<lambda>_.
     obind (insert_all (\<lambda>f. norm_field pu py f obj path) flds []) (\<lambda>out. Ok (JObj out)))"
proof -
  have "(case field_value f obj of
           Some v \<Rightarrow> obind (normalize_value pu py f v (sub_path path (f_key f))) (\<lambda>n.
               Ok (entry_insert (f_key f) n acc))
         | None \<Rightarrow> if f_required f then Err (RequiredMissing (sub_path path (f_key f))) else Ok acc)
     = obind (norm_field pu py f obj path) (\<lambda>v. Ok (insert_opt (f_key f) v acc))" for f acc
    by (simp add: norm_field_def insert_opt_def obind_assoc split: option.split)
  then show ?thesis by (simp add: normalize_object.simps)
qed

lemma insert_all_lookup:
  assumes "insert_all h flds acc = Ok out" "distinct (map f_key flds)" "sorted_entries acc"
  shows "sorted_entries out \<and> (\<forall>k. k \<notin> f_key ` set flds \<longrightarrow> map_of out k = map_of acc k) \<and>
    (\<forall>f \<in> set flds. \<exists>v. h f = Ok v \<and>
       map_of out (f_key f) = (case v of None \<Rightarrow> map_of acc (f_key f) | Some n \<Rightarrow> Some n))"
  using assms
proof (induction flds arbitrary: acc)
  case (Cons f flds)
  then obtain v where v: "h f = Ok v" and rest: "insert_all h flds (insert_opt (f_key f) v acc) = Ok out"
    by auto
  have "sorted_entries (insert_opt (f_key f) v acc)"
    using Cons.prems(3) by (simp add: insert_opt_def sorted_entry_insert split: option.split)
  with Cons.prems(2) have IH: "sorted_entries out"
    "\<forall>k. k \<notin> f_key ` set flds \<longrightarrow> map_of out k = map_of (insert_opt (f_key f) v acc) k"
    "\<forall>g \<in> set flds. \<exists>w. h g = Ok w \<and> map_of out (f_key g) =
       (case w of None \<Rightarrow> map_of (insert_opt (f_key f) v acc) (f_key g) | Some n \<Rightarrow> Some n)"
    using Cons.IH [OF rest] by auto
  have look: "map_of (insert_opt (f_key f) v acc) k =
      (if k = f_key f then (case v of None \<Rightarrow> map_of acc k | Some n \<Rightarrow> Some n) else map_of acc k)" for k
    by (simp add: insert_opt_def map_of_entry_insert split: option.split)
  have fresh: "f_key g \<noteq> f_key f" if "g \<in> set flds" for g
    using Cons.prems(2) that by (auto simp: image_iff)
  have "map_of out (f_key f) = (case v of None \<Rightarrow> map_of acc (f_key f) | Some n \<Rightarrow> Some n)"
    using IH(2) Cons.prems(2) look by simp
  moreover have "\<forall>g \<in> set flds. \<exists>w. h g = Ok w \<and>
      map_of out (f_key g) = (case w of None \<Rightarrow> map_of acc (f_key g) | Some n \<Rightarrow> Some n)"
  proof
    fix g assume g: "g \<in> set flds"
    then have "map_of (insert_opt (f_key f) v acc) (f_key g) = map_of acc (f_key g)"
      using look fresh by simp
    moreover obtain w where "h g = Ok w" "map_of out (f_key g) =
       (case w of None \<Rightarrow> map_of (insert_opt (f_key f) v acc) (f_key g) | Some n \<Rightarrow> Some n)"
      using IH(3) g by blast
    ultimately show "\<exists>w. h g = Ok w \<and>
      map_of out (f_key g) = (case w of None \<Rightarrow> map_of acc (f_key g) | Some n \<Rightarrow> Some n)"
      by (cases w) auto
  qed
  moreover have "\<forall>k. k \<notin> f_key ` set (f # flds) \<longrightarrow> map_of out k = map_of acc k"
    using IH(2) look by simp
  ultimately show ?case using IH(1) v by simp
qed simp

lemma insert_all_total:
  "\<forall>f \<in> set flds. \<exists>v. h f = Ok v \<Longrightarrow> \<exists>out. insert_all h flds acc = Ok out"
proof (induction flds arbitrary: acc)
  case (Cons f flds)
  then obtain v where "h f = Ok v" by auto
  then show ?case using Cons.IH [of "insert_opt (f_key f) v acc"] Cons.prems by simp
qed simp

lemma check_known_keys_Ok:
  "check_known_keys flds obj path = Ok u \<longleftrightarrow> (\<forall>k \<in> fst ` set obj. \<exists>f \<in> set flds. f_key f = k)"
  by (auto simp: check_known_keys_def find_None_iff list_ex_iff split: option.splits)
    (force simp: find_Some_iff in_set_conv_nth)

text \<open>Normalising again a normalised object, given that every field's value is a fixed point.\<close>

lemma normalize_object_again:
  assumes ok: "normalize_object pu py flds obj path = Ok v" and d: "distinct (map f_key flds)"
    and fix_values: "\<And>f x n. f \<in> set flds \<Longrightarrow> field_value f obj = Some x \<Longrightarrow>
      normalize_value pu py f x (sub_path path (f_key f)) = Ok n \<Longrightarrow>
      normalize_value pu py f n (sub_path path (f_key f)) = Ok n"
  shows "\<exists>out. v = JObj out \<and> sorted_entries out \<and> normalize_object pu py flds out path = Ok v"
proof -
  from ok obtain out where v: "v = JObj out"
    and out: "insert_all (\<lambda>f. norm_field pu py f obj path) flds [] = Ok out"
    by (auto simp: normalize_object_eq)
  note L = insert_all_lookup [OF out d, simplified sorted_entries_def, simplified]
  have s: "sorted_entries out" using insert_all_lookup [OF out d] by (simp add: sorted_entries_def)
  have again: "norm_field pu py f out path = norm_field pu py f obj path" if f: "f \<in> set flds" for f
  proof -
    obtain ov where ov: "norm_field pu py f obj path = Ok ov" "map_of out (f_key f) = ov"
      using L f by (auto split: option.splits)
    show ?thesis
    proof (cases "field_value f obj")
      case None
      then have "ov = None" "f_default f = JNull" "\<not> f_required f"
        using ov(1) by (auto simp: norm_field_def field_value_def split: if_splits option.splits)
      then show ?thesis using ov None by (simp add: norm_field_def field_value_def)
    next
      case (Some x)
      then obtain n where "normalize_value pu py f x (sub_path path (f_key f)) = Ok n" "ov = Some n"
        using ov(1) by (auto simp: norm_field_def)
      with fix_values [OF f Some] show ?thesis
        using ov by (simp add: norm_field_def field_value_def)
    qed
  qed
  have "set (map fst out) \<subseteq> f_key ` set flds"
    using L by (force simp: map_of_eq_None_iff image_iff)
  then have known: "check_known_keys flds out path = Ok ()"
    by (force simp: check_known_keys_Ok)
  have "insert_all (\<lambda>f. norm_field pu py f out path) flds [] =
        insert_all (\<lambda>f. norm_field pu py f obj path) flds []"
    by (rule ofold_cong) (simp_all add: again)
  then show ?thesis using v out known s by (simp add: normalize_object_eq)
qed


lemma normalize_string_same:
  "normalize_string pu py fm r v p = Ok n \<Longrightarrow> n = v"
  by (auto simp: normalize_string_def split: if_splits string_format.splits prod.splits)

lemma normalize_secret_same: "normalize_secret v p = Ok n \<Longrightarrow> n = v"
  by (auto simp: normalize_secret_def split: if_splits)

lemma normalize_again:
  "normalize_value pu py f v path = Ok n \<Longrightarrow>
     (\<forall>fs. nested_fields (f_value f) = Some fs \<longrightarrow> distinct_fields fs) \<Longrightarrow>
     normalize_value pu py f n path = Ok n"
  "normalize_object pu py flds obj path = Ok w \<Longrightarrow> distinct_fields flds \<Longrightarrow>
     \<exists>out. w = JObj out \<and> sorted_entries out \<and> normalize_object pu py flds out path = Ok w"
proof (induction pu py f v path and pu py flds obj path arbitrary: n and w
    rule: normalize_value_normalize_object.induct)
  case (2 pu py key label hlp format required dflt v path)
  then show ?case by (auto simp: normalize_value.simps dest: normalize_string_same)
next
  case (7 pu py key label hlp flds required dflt v path)
  from "7.prems" obtain obj where obj: "v = JObj obj" "normalize_object pu py flds obj path = Ok n"
    by (auto simp: normalize_value.simps)
  from "7.IH" [OF obj(2)] "7.prems"(2) obtain out where
    "n = JObj out" "normalize_object pu py flds out path = Ok n" by auto
  then show ?case by (simp add: normalize_value.simps)
next
  case (8 pu py key label hlp purpose required dflt v path)
  then show ?case by (auto simp: normalize_value.simps dest: normalize_secret_same)
next
  case (9 pu py flds obj path)
  have d: "distinct (map f_key flds)"
    and nested: "\<And>f fs. f \<in> set flds \<Longrightarrow> nested_fields (f_value f) = Some fs \<Longrightarrow> distinct_fields fs"
    using "9.prems"(2) by ((subst (asm) distinct_fields.simps, force simp: list_all_iff)+)
  show ?case
  proof (rule normalize_object_again [OF "9.prems"(1) d])
    fix f x n
    assume f: "f \<in> set flds" and x: "field_value f obj = Some x"
      "normalize_value pu py f x (sub_path path (f_key f)) = Ok n"
    from "9.IH" [OF f x] nested [OF f]
    show "normalize_value pu py f n (sub_path path (f_key f)) = Ok n" by blast
  qed
qed (auto simp: normalize_value.simps as_i64_Some split: if_splits)


section \<open>Resolution after normalisation\<close>

lemma normalized_lookup:
  assumes ok: "normalize_object pu py flds obj path = Ok (JObj out)" and d: "distinct (map f_key flds)"
    and f: "f \<in> set flds" "map_of out (f_key f) = Some n"
  shows "\<exists>x. normalize_value pu py f x (sub_path path (f_key f)) = Ok n"
proof -
  have "insert_all (\<lambda>f. norm_field pu py f obj path) flds [] = Ok out"
    using ok by (auto simp: normalize_object_eq)
  from insert_all_lookup [OF this d] f obtain v where
    v: "norm_field pu py f obj path = Ok v" "map_of out (f_key f) = v"
    by (auto simp: sorted_entries_def split: option.splits)
  then show ?thesis
    using f(2) by (auto simp: norm_field_def split: option.splits if_splits)
qed

lemma distinct_fieldsD:
  assumes "distinct_fields flds"
  shows "distinct (map f_key flds)"
    and "\<And>f fs. f \<in> set flds \<Longrightarrow> nested_fields (f_value f) = Some fs \<Longrightarrow> distinct_fields fs"
  using assms by ((subst (asm) distinct_fields.simps, force simp: list_all_iff)+)

lemma normalize_value_secret:
  "normalize_value pu py f x path = Ok n \<Longrightarrow> f_value f = VSecretReference purpose \<Longrightarrow>
     \<exists>key. n = JStr (''game.'' @ key) \<and> valid_key (trim_start_matches ''game.'' (''game.'' @ key))"
  by (cases f) (auto simp: normalize_value.simps normalize_secret_def starts_with_iff split: if_splits)

lemma normalize_value_nested:
  "normalize_value pu py f x path = Ok n \<Longrightarrow> nested_fields (f_value f) = Some fs \<Longrightarrow>
     \<exists>obj. normalize_object pu py fs obj path = Ok n"
  by (cases f; cases "f_value f") (auto simp: normalize_value.simps)

definition found_or_missing :: "(settings_error, secret_maps) outcome \<Rightarrow> bool" where
  "found_or_missing r \<longleftrightarrow> (\<exists>m. r = Ok m) \<or> (\<exists>k. r = Err (MissingSecret k))"

lemma normalize_object_shape: "normalize_object pu py flds obj path = Ok v \<Longrightarrow> \<exists>out. v = JObj out"
  by (auto simp: normalize_object_eq)

lemma resolve_after_normalize:
  "distinct_fields flds \<Longrightarrow> normalize_object pu py flds obj npath = Ok (JObj vals) \<Longrightarrow>
     found_or_missing (resolve_field_secrets flds vals path secrets maps)"
proof (induction flds vals path secrets maps arbitrary: obj npath rule: resolve_field_secrets.induct)
  case (1 flds vals path secrets maps)
  note look = normalized_lookup [OF "1.prems"(2) distinct_fieldsD(1) [OF "1.prems"(1)]]
  show ?case
    unfolding resolve_field_secrets.simps [of flds]
  proof (rule ofold_outcome, goal_cases)
    case (1 f acc)
    show ?case
    proof (cases "map_of vals (f_key f)")
      case None
      then show ?thesis by (simp add: found_or_missing_def)
    next
      case stored: (Some n)
      with look [OF 1] obtain x where x: "normalize_value pu py f x (sub_path npath (f_key f)) = Ok n"
        by blast
      show ?thesis
      proof (cases "nested_fields (f_value f)")
        case (Some fs)
        then obtain obj' where "normalize_object pu py fs obj' (sub_path npath (f_key f)) = Ok n"
          using normalize_value_nested [OF x] by blast
        moreover from this obtain out where "n = JObj out" using normalize_object_shape by blast
        ultimately show ?thesis
          using "1.IH" [OF 1 stored refl Some] distinct_fieldsD(2) [OF "1.prems"(1) 1 Some] stored Some
          by (simp add: ok_or_def)
      next
        case None
        show ?thesis
        proof (cases "\<exists>pp. f_value f = VSecretReference pp")
          case True
          then obtain pp where pp: "f_value f = VSecretReference pp" by blast
          then obtain key where n: "n = JStr (''game.'' @ key)"
            using normalize_value_secret [OF x] by blast
          then have "strip_prefix ''game.'' (''game.'' @ key) = Some key"
            by (simp add: strip_prefix_Some)
          then show ?thesis
            using stored None pp n by (cases "secrets key") (simp_all add: ok_or_def found_or_missing_def)
        next
          case False
          then show ?thesis
            using stored None
            by (cases "f_value f") (simp_all add: found_or_missing_def)
        qed
      qed
    qed
  qed (simp add: found_or_missing_def)
qed


section \<open>Where secrets go\<close>

function secret_paths :: "secret_purpose \<Rightarrow> agent_config_field list \<Rightarrow> string \<Rightarrow> string list" where
  "secret_paths purpose flds path =
     concat (map (\<lambda>f.
       (case nested_fields (f_value f) of
          Some fs \<Rightarrow> secret_paths purpose fs (sub_path path (f_key f))
        | None \<Rightarrow> if f_value f = VSecretReference purpose then [sub_path path (f_key f)] else [])) flds)"
  by pat_completeness auto
termination
  by (relation "measure (\<lambda>(_, fs, _). size_list size fs)")
     (auto dest!: nested_fields_size size_member_less [of _ _ size])

declare secret_paths.simps [simp del]

text \<open>Compared with the maps \<open>m0\<close>, the maps \<open>m\<close> add only entries at the given paths, with values
  of the given secrets.\<close>

definition adds_only ::
    "string set \<Rightarrow> string set \<Rightarrow> (string \<rightharpoonup> string) \<Rightarrow> secret_maps \<Rightarrow> secret_maps \<Rightarrow> bool" where
  "adds_only FP AP secrets m0 m \<longleftrightarrow>
     (\<forall>p v. fst m p = Some v \<longrightarrow> fst m0 p = Some v \<or> p \<in> FP \<and> v \<in> ran secrets) \<and>
     (\<forall>p v. snd m p = Some v \<longrightarrow> snd m0 p = Some v \<or> p \<in> AP \<and> v \<in> ran secrets)"

lemma adds_only_refl [simp]: "adds_only F A secrets m m"
  by (simp add: adds_only_def)

lemma adds_only_trans:
  "adds_only F A secrets m0 m1 \<Longrightarrow> adds_only F' A' secrets m1 m2 \<Longrightarrow> F' \<subseteq> F \<Longrightarrow> A' \<subseteq> A \<Longrightarrow>
     adds_only F A secrets m0 m2"
  unfolding adds_only_def by blast

lemma adds_only_put:
  "secrets key = Some s \<Longrightarrow>
     adds_only (if pp = Factory then {p} else {}) (if pp = AgentInstance then {p} else {}) secrets m
       (put_secret pp p s m)"
  by (cases pp; cases m) (auto simp: adds_only_def ran_def)

lemma secret_paths_member:
  assumes "f \<in> set flds"
  shows "nested_fields (f_value f) = Some fs \<Longrightarrow>
      set (secret_paths pp fs (sub_path path (f_key f))) \<subseteq> set (secret_paths pp flds path)"
    and "f_value f = VSecretReference pp \<Longrightarrow> sub_path path (f_key f) \<in> set (secret_paths pp flds path)"
  using assms by (auto simp: secret_paths.simps [of pp flds])

lemma resolve_adds_only:
  "resolve_field_secrets flds vals path secrets maps = Ok maps' \<Longrightarrow>
     adds_only (set (secret_paths Factory flds path)) (set (secret_paths AgentInstance flds path))
       secrets maps maps'"
proof (induction flds vals path secrets maps arbitrary: maps' rule: resolve_field_secrets.induct)
  case (1 flds vals path secrets maps)
  let ?A = "adds_only (set (secret_paths Factory flds path)) (set (secret_paths AgentInstance flds path)) secrets"
  show ?case
  proof (rule ofold_invariant [where I = "?A maps", OF "1.prems" [unfolded resolve_field_secrets.simps [of flds]]])
    fix f acc acc'
    assume f: "f \<in> set flds" and a: "?A maps acc" and step: "(case map_of vals (f_key f) of
         None \<Rightarrow> Ok acc
       | Some value \<Rightarrow>
           let fpath = sub_path path (f_key f) in
           (case nested_fields (f_value f) of
              Some fs \<Rightarrow>
                obind (ok_or (as_object value) (WrongType fpath)) (\<lambda>obj.
                  resolve_field_secrets fs obj fpath secrets acc)
            | None \<Rightarrow>
                (case f_value f of
                   VSecretReference purpose \<Rightarrow>
                     obind (ok_or (as_str value) (WrongType fpath)) (\<lambda>reference.
                     obind (ok_or (strip_prefix ''game.'' reference) LostPrefix) (\<lambda>key.
                     obind (ok_or (secrets key) (MissingSecret reference)) (\<lambda>secret.
                       Ok (put_secret purpose fpath secret acc))))
                 | _ \<Rightarrow> Ok acc))) = Ok acc'"
    show "?A maps acc'"
    proof (cases "acc' = acc")
      case False
      then obtain n where n: "map_of vals (f_key f) = Some n" using step by (cases "map_of vals (f_key f)") auto
      show ?thesis
      proof (cases "nested_fields (f_value f)")
        case (Some fs)
        with n step obtain obj where "resolve_field_secrets fs obj (sub_path path (f_key f)) secrets acc = Ok acc'"
          "as_object n = Some obj" by (auto simp: Let_def)
        from "1.IH" [OF f n refl Some this(1)] secret_paths_member(1) [OF f Some, of Factory path]
          secret_paths_member(1) [OF f Some, of AgentInstance path]
        show ?thesis by (rule adds_only_trans [OF a])
      next
        case None
        with n step False obtain pp key s where "f_value f = VSecretReference pp"
          "secrets key = Some s" "acc' = put_secret pp (sub_path path (f_key f)) s acc"
          by (auto simp: Let_def split: agent_config_value.splits)
        with adds_only_put [of secrets key s pp "sub_path path (f_key f)" acc]
          secret_paths_member(2) [OF f, of pp path]
        show ?thesis by (intro adds_only_trans [OF a]) (auto split: if_splits)
      qed
    qed (use a in simp)
  qed simp
qed

section \<open>A concrete definition\<close>

definition demo_definition :: agent_definition where
  "demo_definition = \<lparr>def_id = ''bot'', def_name = ''Bot'', def_description = [], def_fields =
     [Field ''key'' ''Key'' [] (VSecretReference AgentInstance) True JNull,
      Field ''heat'' ''Heat'' [] (VNumber (Some (Finite 0)) (Some (Finite 2))) False (JInt 1)]\<rparr>"

definition no_uri :: uri_parser where "no_uri s = None"
definition no_yaml :: yaml_parser where "no_yaml s = None"

abbreviation demo_settings :: json where
  "demo_settings \<equiv> JObj [(''key'', JStr ''game.k1'')]"

abbreviation demo_normal :: json where
  "demo_normal \<equiv> JObj [(''heat'', JFloat 1), (''key'', JStr ''game.k1'')]"

lemmas demo_simps = demo_definition_def valid_key_def is_ascii_alphanumeric_def sub_path_def
  starts_with_def ok_or_def check_known_keys_def field_value_def normalize_value.simps
  normalize_object.simps normalize_secret_def f64_below_def f64_above_def

lemma not_blank_bot: "\<not> blank ''bot''"
  by (simp add: blank_def trim_start_bytes.simps)

lemma demo_valid: "validate_definition no_uri no_yaml demo_definition = Ok ()"
  using not_blank_bot
  by (simp add: validate_definition_def validate_fields.simps demo_simps int_to_f64_exact)

lemma demo_normalizes: "normalize_settings no_uri no_yaml demo_definition demo_settings = Ok demo_normal"
  by (simp add: normalize_settings_def demo_simps int_to_f64_exact trim_start_matches.simps)

lemma demo_resolves:
  "resolve_secrets demo_definition demo_normal [''k1'' \<mapsto> ''s3cret'']
    = Ok (Map.empty, [''config.key'' \<mapsto> ''s3cret''])"
  by (simp add: resolve_secrets_def demo_definition_def resolve_field_secrets.simps sub_path_def
      strip_prefix_def starts_with_def ok_or_def)

section \<open>Properties\<close>

text \<open>Normalising settings is idempotent for every validated definition: settings
  that normalise to a value are a fixed point once normalised, defaults and number conversion included.\<close>

theorem normalize_settings_idempotent:
  assumes "validate_definition pu py d = Ok ()" and "normalize_settings pu py d settings = Ok v"
  shows "normalize_settings pu py d v = Ok v"
proof -
  have "distinct_fields (def_fields d)"
    using assms(1) validate_distinct_fields by (auto simp: validate_definition_def split: if_splits)
  then show ?thesis
    using assms(2) normalize_again(2) by (fastforce simp: normalize_settings_def normalize_object.simps
        check_known_keys_def split: if_splits)
qed

theorem normalize_settings_idempotent_witness:
  "normalize_settings no_uri no_yaml demo_definition demo_normal = Ok demo_normal"
  by (rule normalize_settings_idempotent [OF demo_valid demo_normalizes])

text \<open>After validation and normalisation, resolving secrets can fail in one way only: a
  referenced secret does not exist. The errors for a lost prefix or a wrong type cannot occur.\<close>

theorem resolve_fails_only_on_missing_secret:
  assumes "validate_definition pu py d = Ok ()" and "normalize_settings pu py d settings = Ok v"
  shows "(\<exists>m. resolve_secrets d v secrets = Ok m) \<or>
    (\<exists>reference. resolve_secrets d v secrets = Err (MissingSecret reference))"
proof -
  have d: "distinct_fields (def_fields d)"
    using assms(1) validate_distinct_fields by (auto simp: validate_definition_def split: if_splits)
  obtain out obj where "v = JObj out" "normalize_object pu py (def_fields d) obj ''config'' = Ok (JObj out)"
    using normalize_settings_idempotent [OF assms] assms(2) normalize_object_shape
    by (cases v) (auto simp: normalize_settings_def split: if_splits)
  then show ?thesis
    using resolve_after_normalize [OF d] by (simp add: resolve_secrets_def ok_or_def found_or_missing_def)
qed

theorem resolve_fails_only_on_missing_secret_witness:
  "(\<exists>m. resolve_secrets demo_definition demo_normal [''k1'' \<mapsto> ''s3cret''] = Ok m) \<or>
   (\<exists>reference. resolve_secrets demo_definition demo_normal [''k1'' \<mapsto> ''s3cret'']
      = Err (MissingSecret reference))"
  by (rule resolve_fails_only_on_missing_secret [OF demo_valid demo_normalizes])

text \<open>Secrets reach only their declared consumer: the factory receives values only at
  the paths of factory references, the agent instance only at the paths of instance references, and
  every delivered value is one of the stored secrets.\<close>

theorem secrets_reach_declared_consumer:
  assumes "resolve_secrets d settings secrets = Ok (factory, instnc)"
  shows "dom factory \<subseteq> set (secret_paths Factory (def_fields d) ''config'') \<and>
    dom instnc \<subseteq> set (secret_paths AgentInstance (def_fields d) ''config'') \<and>
    ran factory \<union> ran instnc \<subseteq> ran secrets"
proof -
  obtain obj where "resolve_field_secrets (def_fields d) obj ''config'' secrets (Map.empty, Map.empty)
      = Ok (factory, instnc)"
    using assms by (auto simp: resolve_secrets_def)
  from resolve_adds_only [OF this] show ?thesis
    by (auto simp: adds_only_def ran_def)
qed

theorem secrets_reach_declared_consumer_witness:
  "dom (Map.empty :: string \<rightharpoonup> string) \<subseteq> set (secret_paths Factory (def_fields demo_definition) ''config'') \<and>
   dom [''config.key'' \<mapsto> ''s3cret''] \<subseteq> set (secret_paths AgentInstance (def_fields demo_definition) ''config'') \<and>
   ran (Map.empty :: string \<rightharpoonup> string) \<union> ran [''config.key'' \<mapsto> ''s3cret''] \<subseteq> ran [''k1'' \<mapsto> ''s3cret'']"
  by (rule secrets_reach_declared_consumer [OF demo_resolves])

text \<open>A reference that repeats the prefix passes normalisation, because every leading
  \<open>game.\<close> is trimmed before the key is checked, but resolution strips only one: the key it looks
  up is not a valid key, so with valid secret keys the reference never resolves.\<close>

theorem repeated_prefix_accepted_never_resolved:
  assumes "valid_key key" and "\<not> starts_with ''game.'' key" and "\<forall>k \<in> dom secrets. valid_key k"
  shows "normalize_secret (JStr (''game.game.'' @ key)) path = Ok (JStr (''game.game.'' @ key)) \<and>
    resolve_field_secrets [Field k l h (VSecretReference purpose) r JNull]
      [(k, JStr (''game.game.'' @ key))] ''config'' secrets maps
      = Err (MissingSecret (''game.game.'' @ key))"
proof
  have "trim_start_matches ''game.'' (''game.'' @ ''game.'' @ key) = key"
    using assms(2) by (simp only: trim_start_append trim_start_none list.distinct not_False_eq_True)
  then have "trim_start_matches ''game.'' (''game.game.'' @ key) = key"
    by simp
  then show "normalize_secret (JStr (''game.game.'' @ key)) path = Ok (JStr (''game.game.'' @ key))"
    using assms(1) by (simp add: normalize_secret_def ok_or_def starts_with_def)
  have "\<not> valid_key (''game.'' @ key)"
    by (simp add: valid_key_def is_ascii_alphanumeric_def)
  then have "secrets (''game.'' @ key) = None" using assms(3) by blast
  then show "resolve_field_secrets [Field k l h (VSecretReference purpose) r JNull]
      [(k, JStr (''game.game.'' @ key))] ''config'' secrets maps
      = Err (MissingSecret (''game.game.'' @ key))"
    by (simp add: resolve_field_secrets.simps ok_or_def strip_prefix_def starts_with_def)
qed

theorem repeated_prefix_accepted_never_resolved_witness:
  "normalize_secret (JStr (''game.game.'' @ ''k1'')) [] = Ok (JStr (''game.game.'' @ ''k1'')) \<and>
    resolve_field_secrets [Field ''k'' [] [] (VSecretReference Factory) True JNull]
      [(''k'', JStr (''game.game.'' @ ''k1''))] ''config'' [''k1'' \<mapsto> ''s3cret''] (Map.empty, Map.empty)
      = Err (MissingSecret (''game.game.'' @ ''k1''))"
  by (rule repeated_prefix_accepted_never_resolved)
     (simp_all add: valid_key_def is_ascii_alphanumeric_def starts_with_def)

end
