(* ===== verification/Session_Types.thy ===== *)
theory Session_Types
  imports Json Game_Interface
begin

text \<open>
  Data shared by the durable store and the running sessions: terminal values of
  \<open>rust-server/src/protocol.rs\<close> and the configuration of \<open>rust-server/src/config.rs\<close>
  that the session code reads.

  Timestamps are \<open>int\<close>, in milliseconds since the Unix epoch: the code keeps them as RFC 3339
  strings it formats itself and parses back, and compares them as instants.
\<close>

section \<open>Terminal values\<close>

datatype participant_outcome_kind =
    Completed
  | LeftWaitingRoom
  | LeftGame
  | ConnectionLost
  | PartnerLeft
  | OutcomePartnerUnavailable
  | IdleLimitReached
  | OutcomeTechnicalFailure
  | LifetimeLimitReached

datatype session_end_cause =
    GameCompleted
  | ParticipantLeft string
  | PartnerUnavailable
  | ReconnectTimedOut string
  | IdleTimedOut
  | LifetimeTimedOut
  | TechnicalFailure

record recruitment_handoff =
  ho_provider :: string
  ho_code :: string
  ho_url :: string

record participant_result =
  res_outcome :: participant_outcome_kind
  res_reason :: string
  res_completion :: "json option"
  res_observation :: "json option"
  res_handoff :: "recruitment_handoff option"

text \<open>The results are keyed by role name; the code's hash map is an association list here.\<close>

record session_end =
  end_cause :: session_end_cause
  end_completion :: "json option"
  end_results :: "(string \<times> participant_result) list"

datatype session_lifecycle = Forming | Running | Ended session_end

fun lifecycle_str :: "session_lifecycle \<Rightarrow> string" where
  "lifecycle_str Forming = ''forming''"
| "lifecycle_str Running = ''running''"
| "lifecycle_str (Ended e) = ''ended''"

fun is_ended :: "session_lifecycle \<Rightarrow> bool" where
  "is_ended (Ended e) = True"
| "is_ended l = False"

lemma is_ended_iff: "is_ended l \<longleftrightarrow> (\<exists>e. l = Ended e)"
  by (cases l) simp_all

text \<open>The vocabulary of participant states the client receives.\<close>

datatype pause_reason = PartnerReconnecting int

datatype participant_state =
    Registered
  | Waiting string string int int json
  | Active string string json "json list option" json int
  | Paused string string pause_reason json "json list option" json int
  | PEnded string string participant_result "int option"

text \<open>The derived serialisation of a terminal value: snake-case tags, absent options as null.\<close>

fun outcome_str :: "participant_outcome_kind \<Rightarrow> string" where
  "outcome_str Completed = ''completed''"
| "outcome_str LeftWaitingRoom = ''left_waiting_room''"
| "outcome_str LeftGame = ''left_game''"
| "outcome_str ConnectionLost = ''connection_lost''"
| "outcome_str PartnerLeft = ''partner_left''"
| "outcome_str OutcomePartnerUnavailable = ''partner_unavailable''"
| "outcome_str IdleLimitReached = ''idle_limit_reached''"
| "outcome_str OutcomeTechnicalFailure = ''technical_failure''"
| "outcome_str LifetimeLimitReached = ''lifetime_limit_reached''"

fun cause_json :: "session_end_cause \<Rightarrow> json" where
  "cause_json GameCompleted = JObj [(''type'', JStr ''game_completed'')]"
| "cause_json (ParticipantLeft a) = JObj [(''actor'', JStr a), (''type'', JStr ''participant_left'')]"
| "cause_json PartnerUnavailable = JObj [(''type'', JStr ''partner_unavailable'')]"
| "cause_json (ReconnectTimedOut r) =
     JObj [(''disconnected_role'', JStr r), (''type'', JStr ''reconnect_timed_out'')]"
| "cause_json IdleTimedOut = JObj [(''type'', JStr ''idle_timed_out'')]"
| "cause_json LifetimeTimedOut = JObj [(''type'', JStr ''lifetime_timed_out'')]"
| "cause_json TechnicalFailure = JObj [(''type'', JStr ''technical_failure'')]"

definition opt_json :: "('x \<Rightarrow> json) \<Rightarrow> 'x option \<Rightarrow> json" where
  "opt_json f x = (case x of None \<Rightarrow> JNull | Some v \<Rightarrow> f v)"

definition result_json :: "participant_result \<Rightarrow> json" where
  "result_json r = JObj
     [(''completion'', opt_json id (res_completion r)),
      (''final_observation'', opt_json id (res_observation r)),
      (''handoff'', opt_json (\<lambda>h. JObj [(''code'', JStr (ho_code h)),
         (''provider'', JStr (ho_provider h)), (''url'', JStr (ho_url h))]) (res_handoff r)),
      (''outcome'', JStr (outcome_str (res_outcome r))), (''reason'', JStr (res_reason r))]"

definition session_end_json :: "session_end \<Rightarrow> json" where
  "session_end_json e = JObj
     [(''cause'', cause_json (end_cause e)), (''completion'', opt_json id (end_completion e)),
      (''participant_results'', JObj (fold (\<lambda>(r, v). entry_insert r (result_json v)) (end_results e) []))]"

section \<open>Configuration\<close>

record session_config =
  waiting_session_timeout :: int
  reconnect_grace :: int
  session_idle_timeout :: int
  session_max_lifetime :: int

record capacity_config =
  max_active_sessions :: nat
  max_waiting_sessions :: nat
  max_unattached_participants :: nat
  max_transcription_streams :: nat
  storage_reserve_megabytes :: nat

record completion_paths =
  path_completed :: string
  path_partner_left :: string
  path_game_did_not_start :: string
  path_ended_early :: string
  path_technical_failure :: string

record consent_item =
  ci_id :: string
  ci_title :: string
  ci_required :: bool

datatype agents_mode = HumanVsHuman | HumanVsAgent

record experiment_config =
  cfg_session :: session_config
  cfg_capacity :: capacity_config
  cfg_paths :: completion_paths
  cfg_direct_enabled :: bool
  cfg_consents :: "consent_item list"
  cfg_prolific_enabled :: bool
  cfg_prolific_study :: string
  cfg_mode :: agents_mode
  cfg_voice_enabled :: bool
  cfg_post_completion :: int
  cfg_transcription_enabled :: bool
  cfg_transcription_provider :: string

text \<open>\<open>speechmatics_readiness_required\<close>.\<close>

definition speechmatics_required :: "experiment_config \<Rightarrow> bool" where
  "speechmatics_required c \<longleftrightarrow>
     cfg_transcription_enabled c \<and> cfg_transcription_provider c = ''speechmatics''"

section \<open>The Prolific handoff\<close>

definition prolific_completion_url :: "string \<Rightarrow> string" where
  "prolific_completion_url code = ''https://app.prolific.com/submissions/complete?cc='' @ code"

fun completion_code :: "completion_paths \<Rightarrow> participant_outcome_kind \<Rightarrow> bool \<Rightarrow> string" where
  "completion_code p Completed started = path_completed p"
| "completion_code p PartnerLeft started = path_partner_left p"
| "completion_code p LeftWaitingRoom started = path_game_did_not_start p"
| "completion_code p OutcomePartnerUnavailable started = path_game_did_not_start p"
| "completion_code p ConnectionLost started =
     (if \<not> started then path_game_did_not_start p else path_ended_early p)"
| "completion_code p LeftGame started = path_ended_early p"
| "completion_code p IdleLimitReached started = path_ended_early p"
| "completion_code p OutcomeTechnicalFailure started = path_technical_failure p"
| "completion_code p LifetimeLimitReached started = path_technical_failure p"

definition prolific_handoff ::
    "experiment_config \<Rightarrow> participant_outcome_kind \<Rightarrow> bool \<Rightarrow> recruitment_handoff option" where
  "prolific_handoff c outcm started =
     (let code = completion_code (cfg_paths c) outcm started in
      if code = [] then None
      else Some \<lparr>ho_provider = ''prolific'', ho_code = code, ho_url = prolific_completion_url code\<rparr>)"

end
