(* ===== verification/Session_Memory.thy ===== *)
theory Session_Memory
  imports Session_Types "HOL-Library.AList"
begin

text \<open>
  The in-memory state of the running sessions, \<open>MemoryState\<close> and \<open>LiveSession\<close> of
  \<open>rust-server/src/storage.rs\<close>, and the functions of \<open>rust-server/src/app.rs\<close> that read one
  session or the memory without touching the store: pairing and capacity, readiness, the
  participant's view, and the terminal values of the ways a session can end.

  A hash map is an association list with distinct keys; its order, which the code does not rely
  on, is arbitrary. The session's game object is the game of the environment.
\<close>

section \<open>State\<close>

record participant_session =
  pa_id :: string
  pa_participant :: int
  pa_research :: string
  pa_source :: string
  pa_purpose :: string
  pa_status :: string
  pa_consents :: "(string \<times> bool) list"
  pa_created_at :: int
  pa_updated_at :: int

record session_participant =
  sp_id :: string
  sp_participant :: int
  sp_source :: string
  sp_role :: player_role
  sp_connected :: bool
  sp_ready :: bool
  sp_audio_ready :: bool
  sp_consents :: "(string \<times> bool) list"
  sp_joined_at :: int
  sp_updated_at :: int
  sp_disconnected_at :: "int option"
  sp_reconnect_deadline :: "int option"

record 's live_session =
  ls_id :: string
  ls_experiment :: string
  ls_session :: int
  ls_mode :: string
  ls_purpose :: string
  ls_state :: 's
  ls_log_open :: bool
  ls_lifecycle :: session_lifecycle
  ls_pause :: "pause_reason option"
  ls_participants :: "(string \<times> session_participant) list"
  ls_waiting_started_at :: int
  ls_waiting_deadline :: int
  ls_lifetime_deadline :: int
  ls_last_activity :: "int option"
  ls_idle_deadline :: "int option"
  ls_voice_ends_at :: "int option"
  ls_updated_at :: int

record 's memory =
  mem_participants :: "(string \<times> participant_session) list"
  mem_sessions :: "(string \<times> 's live_session) list"

text \<open>What is fixed for a running experiment: its configuration, the compiled game, and the
  derived JSON encodings of the game's types, which are arguments because they come from the
  serialisation framework.\<close>

record ('cfg, 's, 'a, 'obs, 'c) runtime =
  rt_config :: experiment_config
  rt_experiment :: string
  rt_revision :: int
  rt_version :: string
  rt_game :: "('cfg, 's, 'a, 'obs, 'c) game"
  rt_game_config :: 'cfg
  rt_secrets :: secret_values
  rt_create :: "(string, unit) outcome"
  rt_metadata :: "'s \<Rightarrow> 's \<Rightarrow> 'a \<Rightarrow> player_role \<Rightarrow> json"
  rt_state_json :: "'s \<Rightarrow> json option"
  rt_action_json :: "'a \<Rightarrow> json option"
  rt_observation_json :: "'obs \<Rightarrow> json option"
  rt_completion_json :: "'c \<Rightarrow> json option"

datatype app_error =
    NotFound
  | Forbidden
  | BadRequest
  | ConsentMissing "string list"
  | Unavailable string
  | Conflict
  | TooManyRequests
  | Internal
  | StoreFailed
  | SubmissionRejection string
  | GameRejection string

definition participants_of :: "'s live_session \<Rightarrow> session_participant list" where
  "participants_of s = map snd (ls_participants s)"

definition get_session :: "'s memory \<Rightarrow> string \<Rightarrow> 's live_session option" where
  "get_session m sid = map_of (mem_sessions m) sid"

definition sessions_of :: "'s memory \<Rightarrow> 's live_session list" where
  "sessions_of m = map snd (mem_sessions m)"

definition put_session :: "'s live_session \<Rightarrow> 's memory \<Rightarrow> 's memory" where
  "put_session s m = m\<lparr>mem_sessions := AList.update (ls_id s) s (mem_sessions m)\<rparr>"

definition remove_session :: "string \<Rightarrow> 's memory \<Rightarrow> 's memory" where
  "remove_session sid m = m\<lparr>mem_sessions := AList.delete sid (mem_sessions m)\<rparr>"

text \<open>\<open>sessions.get_mut(id)\<close> followed by an update, and \<open>participants.get_mut(id)\<close> inside.\<close>

definition modify_session :: "string \<Rightarrow> ('s live_session \<Rightarrow> 's live_session) \<Rightarrow> 's memory \<Rightarrow> 's memory" where
  "modify_session sid f m =
     (case get_session m sid of
        None \<Rightarrow> m
      | Some s \<Rightarrow> m\<lparr>mem_sessions := AList.update sid (f s) (mem_sessions m)\<rparr>)"

definition modify_participant ::
    "string \<Rightarrow> (session_participant \<Rightarrow> session_participant) \<Rightarrow> 's live_session \<Rightarrow> 's live_session" where
  "modify_participant pid f s =
     (case map_of (ls_participants s) pid of
        None \<Rightarrow> s
      | Some p \<Rightarrow> s\<lparr>ls_participants := AList.update pid (f p) (ls_participants s)\<rparr>)"

section \<open>Participants of the process\<close>

definition create_participant_with_id ::
    "string \<Rightarrow> int \<Rightarrow> string \<Rightarrow> string \<Rightarrow> string \<Rightarrow> int \<Rightarrow> 's memory \<Rightarrow> 's memory \<times> participant_session" where
  "create_participant_with_id pid participant research src purpose now m =
     (case map_of (mem_participants m) pid of
        Some existing \<Rightarrow> (m, existing)
      | None \<Rightarrow>
          let p = \<lparr>pa_id = pid, pa_participant = participant, pa_research = research,
                   pa_source = src, pa_purpose = purpose, pa_status = ''created'',
                   pa_consents = [], pa_created_at = now, pa_updated_at = now\<rparr>
          in (m\<lparr>mem_participants := AList.update pid p (mem_participants m)\<rparr>, p))"

definition require_consent ::
    "experiment_config \<Rightarrow> 's memory \<Rightarrow> string \<Rightarrow> (app_error, unit) outcome" where
  "require_consent c m pid =
     obind (ok_or (map_of (mem_participants m) pid) NotFound) (\<lambda>p.
       let missing = filter (\<lambda>i. ci_required i \<and> map_of (pa_consents p) (ci_id i) \<noteq> Some True)
                       (cfg_consents c)
       in if missing \<noteq> [] then Err (ConsentMissing (map ci_title missing)) else Ok ())"

section \<open>Pairing and capacity\<close>

definition next_role :: "'s live_session \<Rightarrow> player_role option" where
  "next_role s =
     (let roles = set (map sp_role (participants_of s)) in
      if RoleA \<notin> roles then Some RoleA else if RoleB \<notin> roles then Some RoleB else None)"

datatype session_admission = WaitingAdmission | ActiveAdmission

definition waiting_count :: "'s memory \<Rightarrow> nat" where
  "waiting_count m =
     length (filter (\<lambda>s. ls_lifecycle s = Forming \<and> length (ls_participants s) < 2) (sessions_of m))"

definition active_count :: "'s memory \<Rightarrow> nat" where
  "active_count m = length (filter (\<lambda>s. ls_lifecycle s = Running) (sessions_of m))"

definition reserved_streams :: "'s memory \<Rightarrow> nat" where
  "reserved_streams m =
     length (filter (\<lambda>p. sp_source p \<noteq> ''agent'')
       (concat (map participants_of (filter (\<lambda>s. \<not> is_ended (ls_lifecycle s)) (sessions_of m)))))"

definition ensure_session_capacity ::
    "experiment_config \<Rightarrow> 's memory \<Rightarrow> session_admission \<Rightarrow> nat \<Rightarrow> (app_error, unit) outcome" where
  "ensure_session_capacity c m admission streams =
     (if admission = WaitingAdmission \<and> waiting_count m \<ge> max_waiting_sessions (cfg_capacity c)
      then Err (Unavailable ''waiting'')
      else if admission = ActiveAdmission \<and> active_count m \<ge> max_active_sessions (cfg_capacity c)
      then Err (Unavailable ''active'')
      else if speechmatics_required c \<and>
        reserved_streams m + streams > max_transcription_streams (cfg_capacity c)
      then Err (Unavailable ''transcription'')
      else Ok ())"

definition open_human_session_for_pairing :: "'s memory \<Rightarrow> string \<Rightarrow> string \<Rightarrow> string option" where
  "open_human_session_for_pairing m mode purpose =
     map_option fst (find (\<lambda>(sid, s). ls_lifecycle s = Forming \<and> ls_mode s = mode \<and>
       ls_purpose s = purpose \<and> next_role s = Some RoleB \<and>
       list_all (\<lambda>p. sp_source p \<noteq> ''agent'') (participants_of s)) (mem_sessions m))"

definition joined_participant ::
    "experiment_config \<Rightarrow> participant_session \<Rightarrow> string \<Rightarrow> player_role \<Rightarrow> int \<Rightarrow> session_participant" where
  "joined_participant c p pid role now =
     \<lparr>sp_id = pid, sp_participant = pa_participant p, sp_source = pa_source p, sp_role = role,
      sp_connected = False, sp_ready = False, sp_audio_ready = \<not> speechmatics_required c,
      sp_consents = pa_consents p, sp_joined_at = now, sp_updated_at = now,
      sp_disconnected_at = None, sp_reconnect_deadline = None\<rparr>"

definition add_human_participant ::
    "experiment_config \<Rightarrow> string \<Rightarrow> string \<Rightarrow> int \<Rightarrow> 's memory \<Rightarrow> (app_error, 's memory \<times> player_role) outcome" where
  "add_human_participant c sid pid now m =
     obind (ok_or (map_of (mem_participants m) pid) NotFound) (\<lambda>p.
     obind (ok_or (get_session m sid) NotFound) (\<lambda>s.
       if ls_purpose s \<noteq> pa_purpose p then Err Conflict
       else (case map_of (ls_participants s) pid of
           Some existing \<Rightarrow> Ok (m, sp_role existing)
         | None \<Rightarrow>
             obind (ok_or (next_role s) Forbidden) (\<lambda>role.
               Ok (m\<lparr>mem_sessions := AList.update sid
                     (s\<lparr>ls_participants := AList.update pid (joined_participant c p pid role now)
                        (ls_participants s)\<rparr>) (mem_sessions m)\<rparr>, role)))))"

section \<open>Readiness\<close>

definition participant_ready_for_game :: "experiment_config \<Rightarrow> session_participant \<Rightarrow> bool" where
  "participant_ready_for_game c p \<longleftrightarrow>
     sp_connected p \<and> (sp_source p \<noteq> ''agent'' \<or> sp_ready p) \<and>
     (sp_source p = ''agent'' \<or> sp_source p = ''worker'' \<or> \<not> speechmatics_required c \<or> sp_audio_ready p)"

definition session_ready_for_game :: "experiment_config \<Rightarrow> 's live_session \<Rightarrow> bool" where
  "session_ready_for_game c s \<longleftrightarrow>
     set (map sp_role (filter (participant_ready_for_game c) (participants_of s))) = {RoleA, RoleB}"

definition session_is_active :: "'s live_session \<Rightarrow> bool" where
  "session_is_active s \<longleftrightarrow> ls_lifecycle s = Running \<and> ls_pause s = None"

fun session_accepts_audio :: "int \<Rightarrow> 's live_session \<Rightarrow> bool" where
  "session_accepts_audio now s =
     (if is_ended (ls_lifecycle s)
      then (case ls_voice_ends_at s of None \<Rightarrow> False | Some t \<Rightarrow> t > now)
      else ls_pause s = None)"

section \<open>What a participant sees\<close>

definition session_presence :: "'s live_session \<Rightarrow> json" where
  "session_presence s =
     JObj (fold (\<lambda>p. entry_insert (role_str (sp_role p))
         (JObj [(''audioReady'', JBool (sp_audio_ready p)), (''connected'', JBool (sp_connected p))]))
       (participants_of s) [])"

definition observation_json ::
    "('cfg, 's, 'a, 'obs, 'c) runtime \<Rightarrow> 's \<Rightarrow> player_role \<Rightarrow> (app_error, json) outcome" where
  "observation_json rt st role = ok_or (rt_observation_json rt (g_observation (rt_game rt) st role)) Internal"

record participant_view =
  vw_presence :: json
  vw_observation :: "json option"
  vw_actions :: "json list option"

definition participant_view_from_session ::
    "('cfg, 's, 'a, 'obs, 'c) runtime \<Rightarrow> 's live_session \<Rightarrow> player_role \<Rightarrow> (app_error, participant_view) outcome" where
  "participant_view_from_session rt s role =
     (if ls_lifecycle s = Forming
      then Ok \<lparr>vw_presence = session_presence s, vw_observation = None, vw_actions = None\<rparr>
      else
        obind (observation_json rt (ls_state s) role) (\<lambda>o'.
        obind (case g_available (rt_game rt) (ls_state s) role of
            None \<Rightarrow> Ok None
          | Some acts \<Rightarrow> obind (omap (\<lambda>a. ok_or (rt_action_json rt a) Internal) acts) (\<lambda>js. Ok (Some js)))
        (\<lambda>js. Ok \<lparr>vw_presence = session_presence s, vw_observation = Some o', vw_actions = js\<rparr>)))"

definition participant_state_response ::
    "('cfg, 's, 'a, 'obs, 'c) runtime \<Rightarrow> 's memory \<Rightarrow> string \<Rightarrow> player_role
      \<Rightarrow> (app_error, participant_state) outcome" where
  "participant_state_response rt m sid role =
     obind (ok_or (get_session m sid) NotFound) (\<lambda>s.
     obind (participant_view_from_session rt s role) (\<lambda>v.
       case ls_lifecycle s of
         Forming \<Rightarrow> Ok (Waiting sid (role_str role) (ls_waiting_started_at s) (ls_waiting_deadline s)
                        (vw_presence v))
       | Running \<Rightarrow>
           (case ls_pause s of
              Some reason \<Rightarrow>
                obind (ok_or (vw_observation v) Internal) (\<lambda>o'.
                obind (ok_or (ls_idle_deadline s) Internal) (\<lambda>idle.
                  Ok (Paused sid (role_str role) reason o' (vw_actions v) (vw_presence v) idle)))
            | None \<Rightarrow>
                obind (ok_or (vw_observation v) Internal) (\<lambda>o'.
                obind (ok_or (ls_idle_deadline s) Internal) (\<lambda>idle.
                  Ok (Active sid (role_str role) o' (vw_actions v) (vw_presence v) idle))))
       | Ended e \<Rightarrow>
           obind (ok_or (map_of (end_results e) (role_str role)) Internal) (\<lambda>r.
             Ok (PEnded sid (role_str role) r (ls_voice_ends_at s)))))"

section \<open>Terminal values\<close>

text \<open>The result of one human participant, with the handoff of a Prolific participant.\<close>

definition participant_result_for ::
    "('cfg, 's, 'a, 'obs, 'c) runtime \<Rightarrow> 's \<Rightarrow> string \<Rightarrow> json option \<Rightarrow> bool
      \<Rightarrow> (session_participant \<Rightarrow> participant_outcome_kind) \<Rightarrow> session_participant
      \<Rightarrow> (app_error, string \<times> participant_result) outcome" where
  "participant_result_for rt st reason completion started outcm p =
     obind (observation_json rt st (sp_role p)) (\<lambda>o'.
       Ok (role_str (sp_role p),
         \<lparr>res_outcome = outcm p, res_reason = reason, res_completion = completion,
          res_observation = Some o',
          res_handoff = (if sp_source p = ''prolific''
            then prolific_handoff (rt_config rt) (outcm p) started else None)\<rparr>))"

definition humans :: "'s live_session \<Rightarrow> session_participant list" where
  "humans s = filter (\<lambda>p. sp_source p \<noteq> ''agent'') (participants_of s)"

definition completed_session_end ::
    "('cfg, 's, 'a, 'obs, 'c) runtime \<Rightarrow> 's live_session \<Rightarrow> 's \<Rightarrow> json \<Rightarrow> (app_error, session_end) outcome" where
  "completed_session_end rt s final completion =
     obind (omap (participant_result_for rt final ''game_completed'' (Some completion) True
              (\<lambda>p. Completed)) (humans s))
       (\<lambda>rs. Ok \<lparr>end_cause = GameCompleted, end_completion = Some completion, end_results = rs\<rparr>)"

definition expiry_cause :: "'s live_session \<Rightarrow> string \<Rightarrow> session_end_cause" where
  "expiry_cause s reason =
     (if reason = ''waiting_timeout'' then PartnerUnavailable
      else if reason = ''idle_timeout'' then IdleTimedOut
      else if reason = ''maximum_lifetime'' then LifetimeTimedOut
      else if reason = ''reconnect_timeout'' then
        ReconnectTimedOut (case find (\<lambda>p. \<not> sp_connected p) (participants_of s) of
            Some p \<Rightarrow> role_str (sp_role p) | None \<Rightarrow> ''unknown'')
      else TechnicalFailure)"

fun expiry_outcome :: "session_end_cause \<Rightarrow> session_participant \<Rightarrow> participant_outcome_kind option" where
  "expiry_outcome PartnerUnavailable p = Some OutcomePartnerUnavailable"
| "expiry_outcome (ReconnectTimedOut r) p = Some (if sp_connected p then PartnerLeft else ConnectionLost)"
| "expiry_outcome IdleTimedOut p = Some IdleLimitReached"
| "expiry_outcome LifetimeTimedOut p = Some LifetimeLimitReached"
| "expiry_outcome TechnicalFailure p = Some OutcomeTechnicalFailure"
| "expiry_outcome GameCompleted p = None"
| "expiry_outcome (ParticipantLeft a) p = None"

definition expiry_end ::
    "('cfg, 's, 'a, 'obs, 'c) runtime \<Rightarrow> 's live_session \<Rightarrow> string \<Rightarrow> (app_error, session_end) outcome" where
  "expiry_end rt s reason =
     (let cause = expiry_cause s reason in
      obind (omap (\<lambda>p.
          obind (ok_or (expiry_outcome cause p) Internal) (\<lambda>k.
            participant_result_for rt (ls_state s) reason None (ls_lifecycle s = Running) (\<lambda>q. k) p))
        (humans s))
      (\<lambda>rs. Ok \<lparr>end_cause = cause, end_completion = None, end_results = rs\<rparr>))"

definition abandon_outcome ::
    "'s live_session \<Rightarrow> string \<Rightarrow> string \<Rightarrow> session_participant \<Rightarrow> participant_outcome_kind" where
  "abandon_outcome s pid reason p =
     (if sp_id p = pid then
        (if reason = ''reconnect_timeout'' then ConnectionLost
         else if ls_lifecycle s = Forming then LeftWaitingRoom else LeftGame)
      else PartnerLeft)"

definition abandon_end ::
    "('cfg, 's, 'a, 'obs, 'c) runtime \<Rightarrow> 's live_session \<Rightarrow> string \<Rightarrow> string \<Rightarrow> (app_error, session_end) outcome" where
  "abandon_end rt s pid reason =
     obind (ok_or (map_of (ls_participants s) pid) NotFound) (\<lambda>actor.
     obind (omap (participant_result_for rt (ls_state s) reason None (ls_lifecycle s = Running)
              (abandon_outcome s pid reason)) (humans s))
     (\<lambda>rs. Ok \<lparr>end_cause = (if reason = ''reconnect_timeout''
                   then ReconnectTimedOut (role_str (sp_role actor))
                   else ParticipantLeft (role_str (sp_role actor))),
              end_completion = None, end_results = rs\<rparr>))"

end
