(* ===== verification/Session_Store.thy ===== *)
theory Session_Store
  imports Session_Types
begin

text \<open>
  The session tables of the SQLite store, \<open>rust-server/src/storage.rs\<close>: \<open>sessions\<close>,
  \<open>session_participants\<close> and \<open>session_events\<close>, and the statements the code runs on them, each
  method one transaction. A table is the list of its rows in insertion order. A text column that
  holds a serialised value holds the value. Two things of the database are left out: I/O
  failures, which the runtime theories add as an argument of each handler, and the random
  readable dialogue identifier of a session.
\<close>

section \<open>Tables\<close>

record session_row =
  sr_experiment :: string
  sr_session :: int
  sr_public :: string
  sr_mode :: string
  sr_lifecycle :: string
  sr_initialized :: bool
  sr_purpose :: string
  sr_created_at :: int
  sr_waiting_started_at :: int
  sr_waiting_deadline :: int
  sr_lifetime_deadline :: int
  sr_started_at :: "int option"
  sr_last_activity :: "int option"
  sr_idle_deadline :: "int option"
  sr_ended_at :: "int option"
  sr_completion :: "json option"
  sr_end :: "session_end option"
  sr_config_revision :: int
  sr_game_version :: string

record participant_row =
  pr_experiment :: string
  pr_session :: int
  pr_participant :: int
  pr_participant_session :: string
  pr_role :: string
  pr_joined_at :: int
  pr_left_at :: "int option"
  pr_status :: string
  pr_disconnected_at :: "int option"
  pr_reconnect_deadline :: "int option"
  pr_terminal :: "participant_result option"

record event_row =
  er_experiment :: string
  er_session :: int
  er_index :: int
  er_type :: string
  er_actor :: "int option"
  er_actor_role :: "string option"
  er_payload :: json
  er_game_state :: "json option"
  er_time :: int

record db =
  db_sessions :: "session_row list"
  db_participants :: "participant_row list"
  db_events :: "event_row list"

datatype store_error =
    BadPurpose
  | UniqueViolation
  | SessionNotFound
  | MixedEvents
  | NotStarted
  | StorageFault

text \<open>The arguments of the insertions: \<open>SessionRecord\<close>, \<open>SessionEventRecord\<close> and
  \<open>SessionParticipantRecord\<close>.\<close>

record session_record =
  sn_experiment :: string
  sn_config_revision :: int
  sn_game_version :: string
  sn_public :: string
  sn_mode :: string
  sn_lifecycle :: string
  sn_purpose :: string
  sn_waiting_timeout :: int
  sn_max_lifetime :: int

record event_record =
  ev_experiment :: string
  ev_session :: int
  ev_type :: string
  ev_actor :: "int option"
  ev_actor_role :: "string option"
  ev_payload :: json
  ev_game_state :: "json option"

record participant_record =
  pn_experiment :: string
  pn_session :: int
  pn_participant :: int
  pn_participant_session :: string
  pn_role :: string
  pn_status :: string

record session_timing =
  tm_waiting_started_at :: int
  tm_waiting_deadline :: int
  tm_lifetime_deadline :: int

section \<open>Helpers\<close>

definition session_key :: "string \<Rightarrow> int \<Rightarrow> session_row \<Rightarrow> bool" where
  "session_key e i r \<longleftrightarrow> sr_experiment r = e \<and> sr_session r = i"

definition find_session :: "db \<Rightarrow> string \<Rightarrow> int \<Rightarrow> session_row option" where
  "find_session d e i = find (session_key e i) (db_sessions d)"

text \<open>\<open>update sessions set ... where\<close> a condition, with the number of rows it affected.\<close>

definition update_sessions :: "(session_row \<Rightarrow> bool) \<Rightarrow> (session_row \<Rightarrow> session_row) \<Rightarrow> db \<Rightarrow> db" where
  "update_sessions P f d = d\<lparr>db_sessions := map (\<lambda>r. if P r then f r else r) (db_sessions d)\<rparr>"

definition affected :: "(session_row \<Rightarrow> bool) \<Rightarrow> db \<Rightarrow> nat" where
  "affected P d = length (filter P (db_sessions d))"

text \<open>\<open>coalesce(max(column), 0)\<close>.\<close>

definition max_or_zero :: "int list \<Rightarrow> int" where
  "max_or_zero xs = (case xs of [] \<Rightarrow> 0 | y # ys \<Rightarrow> fold max ys y)"

definition events_of :: "db \<Rightarrow> string \<Rightarrow> int \<Rightarrow> event_row list" where
  "events_of d e i = filter (\<lambda>r. er_experiment r = e \<and> er_session r = i) (db_events d)"

definition last_event_index :: "db \<Rightarrow> string \<Rightarrow> int \<Rightarrow> int" where
  "last_event_index d e i = max_or_zero (map er_index (events_of d e i))"

text \<open>\<open>stored_game_time_ms\<close>: the position on the game clock, or the wall clock before the start.
  Timestamps stay far from the \<open>i64\<close> range, so the checked subtraction does not fail.\<close>

definition relative_game_time_ms :: "int \<Rightarrow> int \<Rightarrow> int" where
  "relative_game_time_ms started_at timestamp = timestamp - started_at"

definition stored_game_time_ms :: "db \<Rightarrow> string \<Rightarrow> int \<Rightarrow> int \<Rightarrow> (store_error, int) outcome" where
  "stored_game_time_ms d e i now =
     (case find_session d e i of
        None \<Rightarrow> Err SessionNotFound
      | Some r \<Rightarrow> Ok (case sr_started_at r of
          Some st \<Rightarrow> relative_game_time_ms st now | None \<Rightarrow> now))"

definition deadline_after_seconds :: "int \<Rightarrow> int \<Rightarrow> int" where
  "deadline_after_seconds timestamp seconds = timestamp + 1000 * seconds"

definition event_of_record :: "event_record \<Rightarrow> int \<Rightarrow> int \<Rightarrow> event_row" where
  "event_of_record ev idx time =
     \<lparr>er_experiment = ev_experiment ev, er_session = ev_session ev, er_index = idx,
      er_type = ev_type ev, er_actor = ev_actor ev, er_actor_role = ev_actor_role ev,
      er_payload = ev_payload ev, er_game_state = ev_game_state ev, er_time = time\<rparr>"

definition add_event :: "event_row \<Rightarrow> db \<Rightarrow> db" where
  "add_event r d = d\<lparr>db_events := db_events d @ [r]\<rparr>"

section \<open>Creating and initialising a session\<close>

definition create_session_row :: "db \<Rightarrow> session_record \<Rightarrow> int \<Rightarrow> (store_error, db \<times> int) outcome" where
  "create_session_row d s now =
     (if \<not> List.member [''testing'', ''research''] (sn_purpose s) then Err BadPurpose
      else
        let i = max_or_zero (map sr_session
                  (filter (\<lambda>r. sr_experiment r = sn_experiment s) (db_sessions d))) + 1 in
        if list_ex (\<lambda>r. sr_public r = sn_public s) (db_sessions d) then Err UniqueViolation
        else Ok (d\<lparr>db_sessions := db_sessions d @
          [\<lparr>sr_experiment = sn_experiment s, sr_session = i, sr_public = sn_public s,
            sr_mode = sn_mode s, sr_lifecycle = sn_lifecycle s, sr_initialized = False,
            sr_purpose = sn_purpose s, sr_created_at = now, sr_waiting_started_at = now,
            sr_waiting_deadline = deadline_after_seconds now (sn_waiting_timeout s),
            sr_lifetime_deadline = deadline_after_seconds now (sn_max_lifetime s),
            sr_started_at = (if sn_lifecycle s = ''running'' then Some now else None),
            sr_last_activity = None, sr_idle_deadline = None, sr_ended_at = None,
            sr_completion = None, sr_end = None, sr_config_revision = sn_config_revision s,
            sr_game_version = sn_game_version s\<rparr>]\<rparr>, i))"

definition session_timing :: "db \<Rightarrow> string \<Rightarrow> int \<Rightarrow> (store_error, session_timing) outcome" where
  "session_timing d e i =
     (case find_session d e i of
        None \<Rightarrow> Err SessionNotFound
      | Some r \<Rightarrow> Ok \<lparr>tm_waiting_started_at = sr_waiting_started_at r,
          tm_waiting_deadline = sr_waiting_deadline r, tm_lifetime_deadline = sr_lifetime_deadline r\<rparr>)"

definition complete_session_initialization :: "db \<Rightarrow> string \<Rightarrow> int \<Rightarrow> db \<times> bool" where
  "complete_session_initialization d e i =
     (let P = (\<lambda>r. session_key e i r \<and> sr_lifecycle r = ''forming'' \<and> \<not> sr_initialized r)
      in (update_sessions P (\<lambda>r. r\<lparr>sr_initialized := True\<rparr>) d, affected P d = 1))"

definition failed_end :: session_end where
  "failed_end = \<lparr>end_cause = TechnicalFailure, end_completion = None, end_results = []\<rparr>"

definition fail_session_initialization :: "db \<Rightarrow> string \<Rightarrow> int \<Rightarrow> string \<Rightarrow> int \<Rightarrow> (store_error, db) outcome" where
  "fail_session_initialization d e i reason now =
     (case find_session d e i of
        None \<Rightarrow> Err SessionNotFound
      | Some _ \<Rightarrow> Ok (update_sessions (\<lambda>r. session_key e i r \<and> sr_lifecycle r = ''forming'')
          (\<lambda>r. r\<lparr>sr_lifecycle := ''ended'', sr_initialized := True, sr_ended_at := Some now,
                 sr_end := Some failed_end\<rparr>)
          (add_event \<lparr>er_experiment = e, er_session = i, er_index = last_event_index d e i + 1,
             er_type = ''session_initialization_failed'', er_actor = None, er_actor_role = None,
             er_payload = JObj [(''reason_code'', JStr reason)], er_game_state = None,
             er_time = now\<rparr> d)))"

section \<open>Running a session\<close>

definition rebase :: "string \<Rightarrow> int \<Rightarrow> int \<Rightarrow> event_row \<Rightarrow> event_row" where
  "rebase e i started r =
     (if er_experiment r = e \<and> er_session r = i then r\<lparr>er_time := er_time r - started\<rparr> else r)"

definition start_session :: "db \<Rightarrow> string \<Rightarrow> int \<Rightarrow> int \<Rightarrow> int \<Rightarrow> db \<times> bool" where
  "start_session d e i started idle =
     (let P = (\<lambda>r. session_key e i r \<and> sr_lifecycle r = ''forming'' \<and> sr_initialized r);
          d1 = update_sessions P (\<lambda>r. r\<lparr>sr_lifecycle := ''running'', sr_started_at := Some started,
                 sr_last_activity := Some started, sr_idle_deadline := Some idle\<rparr>) d
      in if affected P d = 1 then
           (d1\<lparr>db_events := map (rebase e i started) (db_events d1)\<rparr>, True)
         else (d1, False))"

definition touch_session :: "db \<Rightarrow> string \<Rightarrow> int \<Rightarrow> int \<Rightarrow> int \<Rightarrow> db" where
  "touch_session d e i activity idle =
     update_sessions (\<lambda>r. session_key e i r \<and> sr_lifecycle r = ''running'')
       (\<lambda>r. r\<lparr>sr_last_activity := Some activity, sr_idle_deadline := Some idle\<rparr>) d"

definition session_game_time_ms :: "db \<Rightarrow> string \<Rightarrow> int \<Rightarrow> int \<Rightarrow> (store_error, int) outcome" where
  "session_game_time_ms d e i timestamp =
     obind (ok_or (case find_session d e i of None \<Rightarrow> None | Some r \<Rightarrow> sr_started_at r) NotStarted)
       (\<lambda>st. Ok (relative_game_time_ms st timestamp))"

definition append_session_event :: "db \<Rightarrow> event_record \<Rightarrow> int \<Rightarrow> (store_error, db \<times> int) outcome" where
  "append_session_event d ev now =
     obind (stored_game_time_ms d (ev_experiment ev) (ev_session ev) now) (\<lambda>t.
       let idx = last_event_index d (ev_experiment ev) (ev_session ev) + 1
       in Ok (add_event (event_of_record ev idx t) d, idx))"

section \<open>Participants\<close>

definition participant_key :: "string \<Rightarrow> int \<Rightarrow> int \<Rightarrow> participant_row \<Rightarrow> bool" where
  "participant_key e i p r \<longleftrightarrow> pr_experiment r = e \<and> pr_session r = i \<and> pr_participant r = p"

definition add_session_participant :: "db \<Rightarrow> participant_record \<Rightarrow> int \<Rightarrow> (store_error, db) outcome" where
  "add_session_participant d p now =
     (let K = participant_key (pn_experiment p) (pn_session p) (pn_participant p) in
      if list_ex (\<lambda>r. pr_participant_session r = pn_participant_session p \<and> \<not> K r) (db_participants d)
      then Err UniqueViolation
      else if list_ex K (db_participants d)
      then Ok (d\<lparr>db_participants := map (\<lambda>r. if K r
             then r\<lparr>pr_participant_session := pn_participant_session p, pr_role := pn_role p,
                    pr_status := pn_status p\<rparr> else r) (db_participants d)\<rparr>)
      else Ok (d\<lparr>db_participants := db_participants d @
             [\<lparr>pr_experiment = pn_experiment p, pr_session = pn_session p,
               pr_participant = pn_participant p, pr_participant_session = pn_participant_session p,
               pr_role = pn_role p, pr_joined_at = now, pr_left_at = None, pr_status = pn_status p,
               pr_disconnected_at = None, pr_reconnect_deadline = None, pr_terminal = None\<rparr>]\<rparr>))"

definition update_participant_connection ::
    "db \<Rightarrow> string \<Rightarrow> string \<Rightarrow> int option \<Rightarrow> int option \<Rightarrow> db" where
  "update_participant_connection d psid status left_at deadline =
     d\<lparr>db_participants := map (\<lambda>r. if pr_participant_session r = psid
        then r\<lparr>pr_status := status, pr_left_at := left_at,
               pr_disconnected_at := (if status = ''disconnected'' then left_at else None),
               pr_reconnect_deadline := deadline\<rparr>
        else r) (db_participants d)\<rparr>"

section \<open>Ending a session\<close>

definition persist_result :: "string \<Rightarrow> int \<Rightarrow> int \<Rightarrow> string \<times> participant_result \<Rightarrow> db \<Rightarrow> db" where
  "persist_result e i now rr d =
     d\<lparr>db_participants := map (\<lambda>r. if pr_experiment r = e \<and> pr_session r = i \<and> pr_role r = fst rr
        then r\<lparr>pr_terminal := Some (snd rr),
               pr_left_at := (case pr_left_at r of None \<Rightarrow> Some now | Some t \<Rightarrow> Some t)\<rparr>
        else r) (db_participants d)\<rparr>"

definition persist_terminal_value :: "db \<Rightarrow> string \<Rightarrow> int \<Rightarrow> session_end \<Rightarrow> int \<Rightarrow> db" where
  "persist_terminal_value d e i ending now =
     fold (persist_result e i now) (end_results ending)
       (update_sessions (\<lambda>r. session_key e i r \<and> sr_lifecycle r \<noteq> ''ended'')
         (\<lambda>r. r\<lparr>sr_lifecycle := ''ended'', sr_ended_at := Some now,
                sr_completion := end_completion ending, sr_end := Some ending\<rparr>) d)"

fun insert_events :: "event_record list \<Rightarrow> int \<Rightarrow> int \<Rightarrow> db \<Rightarrow> db" where
  "insert_events [] idx t d = d"
| "insert_events (ev # evs) idx t d =
     insert_events evs (idx + 1) t (add_event (event_of_record ev (idx + 1) t) d)"

definition commit_session_transition ::
    "db \<Rightarrow> event_record list \<Rightarrow> session_end option \<Rightarrow> int \<Rightarrow> (store_error, db \<times> bool) outcome" where
  "commit_session_transition d evs ending now =
     (case evs of
        [] \<Rightarrow> Ok (d, False)
      | first # _ \<Rightarrow>
          let e = ev_experiment first; i = ev_session first in
          if list_ex (\<lambda>ev. ev_experiment ev \<noteq> e \<or> ev_session ev \<noteq> i) evs then Err MixedEvents
          else
            obind (stored_game_time_ms d e i now) (\<lambda>t.
            obind (ok_or (map_option sr_lifecycle (find_session d e i)) SessionNotFound) (\<lambda>l.
              if l = ''ended'' then Ok (d, False)
              else
                let d1 = insert_events evs (last_event_index d e i) t d
                in Ok (case ending of None \<Rightarrow> d1 | Some en \<Rightarrow> persist_terminal_value d1 e i en now,
                       True))))"

definition end_session :: "db \<Rightarrow> event_record \<Rightarrow> session_end \<Rightarrow> int \<Rightarrow> (store_error, db \<times> bool) outcome" where
  "end_session d ev ending now =
     (let e = ev_experiment ev; i = ev_session ev in
      obind (stored_game_time_ms d e i now) (\<lambda>t.
      obind (ok_or (map_option sr_lifecycle (find_session d e i)) SessionNotFound) (\<lambda>l.
        if l = ''ended'' then Ok (d, False)
        else Ok (persist_terminal_value
                   (add_event (event_of_record ev (last_event_index d e i + 1) t) d) e i ending now,
                 True))))"

definition terminal_participant_state ::
    "db \<Rightarrow> string \<Rightarrow> string \<Rightarrow> (string \<times> string \<times> participant_result) option" where
  "terminal_participant_state d e psid =
     (case find (\<lambda>p. pr_experiment p = e \<and> pr_participant_session p = psid \<and>
                   (case find_session d e (pr_session p) of
                      Some r \<Rightarrow> sr_lifecycle r = ''ended'' | None \<Rightarrow> False) \<and>
                   pr_terminal p \<noteq> None) (db_participants d) of
        None \<Rightarrow> None
      | Some p \<Rightarrow>
          (case find_session d e (pr_session p) of
             None \<Rightarrow> None
           | Some r \<Rightarrow> map_option (\<lambda>t. (sr_public r, pr_role p, t)) (pr_terminal p)))"

section \<open>Lookup after an update\<close>

lemma find_map_keep:
  assumes "\<And>r. K (g r) = K r"
  shows "find K (map g xs) = map_option g (find K xs)"
  using assms by (induction xs) auto

lemma find_update_sessions:
  assumes "\<And>r. sr_experiment (f r) = sr_experiment r \<and> sr_session (f r) = sr_session r"
  shows "find_session (update_sessions P f d) e i = map_option (\<lambda>r. if P r then f r else r) (find_session d e i)"
  unfolding find_session_def update_sessions_def
  using assms by (simp add: find_map_keep session_key_def)

lemma find_session_other [simp]:
  "find_session (d\<lparr>db_events := x\<rparr>) e i = find_session d e i"
  "find_session (d\<lparr>db_participants := y\<rparr>) e i = find_session d e i"
  "find_session (add_event r d) e i = find_session d e i"
  by (simp_all add: find_session_def add_event_def)

lemma events_of_other [simp]:
  "events_of (update_sessions P f d) e i = events_of d e i"
  "events_of (d\<lparr>db_participants := y\<rparr>) e i = events_of d e i"
  "events_of (d\<lparr>db_sessions := z\<rparr>) e i = events_of d e i"
  by (simp_all add: events_of_def update_sessions_def)

lemma events_of_add [simp]:
  "events_of (add_event r d) e i =
     events_of d e i @ (if er_experiment r = e \<and> er_session r = i then [r] else [])"
  by (simp add: events_of_def add_event_def)

lemma rebase_sel [simp]:
  "er_experiment (rebase e i st r) = er_experiment r"
  "er_session (rebase e i st r) = er_session r"
  "er_index (rebase e i st r) = er_index r"
  "er_type (rebase e i st r) = er_type r"
  "er_payload (rebase e i st r) = er_payload r"
  "er_game_state (rebase e i st r) = er_game_state r"
  by (simp_all add: rebase_def)

lemma events_of_rebase [simp]:
  "events_of (d\<lparr>db_events := map (rebase e i st) (db_events d')\<rparr>) e' i' =
     map (rebase e i st) (events_of d' e' i')"
  by (simp add: events_of_def filter_map comp_def)

lemma event_of_record_sel [simp]:
  "er_experiment (event_of_record ev n t) = ev_experiment ev"
  "er_session (event_of_record ev n t) = ev_session ev"
  "er_index (event_of_record ev n t) = n"
  "er_time (event_of_record ev n t) = t"
  "er_type (event_of_record ev n t) = ev_type ev"
  "er_payload (event_of_record ev n t) = ev_payload ev"
  "er_game_state (event_of_record ev n t) = ev_game_state ev"
  by (simp_all add: event_of_record_def)

lemma persist_results_other [simp]:
  "find_session (fold (persist_result e i now) rs d) e' i' = find_session d e' i'"
  "events_of (fold (persist_result e i now) rs d) e' i' = events_of d e' i'"
  "db_sessions (fold (persist_result e i now) rs d) = db_sessions d"
  by (induction rs arbitrary: d) (simp_all add: persist_result_def find_session_def events_of_def)

lemma insert_events_other [simp]:
  "find_session (insert_events evs n t d) e i = find_session d e i"
  "db_sessions (insert_events evs n t d) = db_sessions d"
  by (induction evs arbitrary: n d) (simp_all add: find_session_def add_event_def)

lemma max_or_zero_snoc: "max_or_zero (xs @ [y]) = (if xs = [] then y else max y (max_or_zero xs))"
  by (cases xs) (simp_all add: max_or_zero_def)

lemma max_or_zero_upto: "max_or_zero (map int [1..<Suc n]) = int n"
proof (induction n)
  case (Suc n)
  have "map int [1..<Suc (Suc n)] = map int [1..<Suc n] @ [int (Suc n)]" by simp
  then show ?case unfolding \<open>map int [1..<Suc (Suc n)] = _\<close> max_or_zero_snoc Suc by auto
qed (simp add: max_or_zero_def)

section \<open>The store invariant\<close>

text \<open>Keys are unique, the columns of a session agree with its lifecycle, the events of every
  session are numbered from 1 without a gap, and events belong to existing sessions.\<close>

definition row_ok :: "session_row \<Rightarrow> bool" where
  "row_ok r \<longleftrightarrow> sr_session r > 0 \<and>
     (sr_lifecycle r = ''forming'' \<and> sr_started_at r = None \<and> sr_end r = None \<or>
      sr_lifecycle r = ''running'' \<and> sr_started_at r \<noteq> None \<and> sr_end r = None \<and> sr_initialized r \<or>
      sr_lifecycle r = ''ended'' \<and> sr_end r \<noteq> None)"

definition indexed :: "event_row list \<Rightarrow> bool" where
  "indexed evs \<longleftrightarrow> map er_index evs = map int [1..<Suc (length evs)]"

definition store_inv :: "db \<Rightarrow> bool" where
  "store_inv d \<longleftrightarrow>
     distinct (map (\<lambda>r. (sr_experiment r, sr_session r)) (db_sessions d)) \<and>
     (\<forall>r \<in> set (db_sessions d). row_ok r) \<and>
     (\<forall>e i. indexed (events_of d e i)) \<and>
     (\<forall>e i. find_session d e i = None \<longrightarrow> events_of d e i = [])"

lemma indexed_snoc: "indexed (evs @ [r]) \<longleftrightarrow> indexed evs \<and> er_index r = int (length evs) + 1"
  by (auto simp: indexed_def)

lemma last_event_index_eq: "indexed (events_of d e i) \<Longrightarrow> last_event_index d e i = int (length (events_of d e i))"
  using max_or_zero_upto by (simp add: last_event_index_def indexed_def del: upt_Suc)

lemma indexed_add:
  assumes "\<forall>e i. indexed (events_of d e i)"
    and "er_index r = last_event_index d (er_experiment r) (er_session r) + 1"
  shows "\<forall>e i. indexed (events_of (add_event r d) e i)"
  using assms by (auto simp: indexed_snoc last_event_index_eq)

lemma find_session_member: "find_session d e i = Some r \<Longrightarrow> r \<in> set (db_sessions d) \<and> sr_experiment r = e \<and> sr_session r = i"
  by (auto simp: find_session_def find_Some_iff session_key_def)

lemma found_row_ok: "store_inv d \<Longrightarrow> find_session d e i = Some r \<Longrightarrow> row_ok r"
  using find_session_member by (auto simp: store_inv_def)

lemma key_unique:
  assumes "store_inv d" "r \<in> set (db_sessions d)" "session_key e i r"
  shows "find_session d e i = Some r"
proof -
  have "distinct (map (\<lambda>r. (sr_experiment r, sr_session r)) rs) \<Longrightarrow> r \<in> set rs \<Longrightarrow>
      find (session_key e i) rs = Some r" for rs
  proof (induction rs)
    case (Cons x rs)
    then show ?case using assms(3) by (force simp: session_key_def)
  qed simp
  then show ?thesis using assms by (simp add: store_inv_def find_session_def)
qed

lemma affected_one:
  assumes "store_inv d"
  shows "affected (\<lambda>r. session_key e i r \<and> Q r) d = 1 \<longleftrightarrow> (\<exists>r. find_session d e i = Some r \<and> Q r)"
proof -
  have "distinct (map (\<lambda>r. (sr_experiment r, sr_session r)) rs) \<Longrightarrow>
      length (filter (\<lambda>r. session_key e i r \<and> Q r) rs) =
        (case find (session_key e i) rs of Some r \<Rightarrow> if Q r then 1 else 0 | None \<Rightarrow> 0)" for rs
  proof (induction rs)
    case (Cons x rs)
    show ?case
    proof (cases "session_key e i x")
      case True
      have "filter (\<lambda>r. session_key e i r \<and> Q r) rs = []"
        unfolding filter_empty_conv using Cons.prems True
        by (auto simp: session_key_def image_iff)
      then show ?thesis using True by simp
    qed (use Cons in simp)
  qed simp
  then show ?thesis
    using assms by (simp add: affected_def store_inv_def find_session_def split: option.splits)
qed

lemma update_sessions_inv:
  assumes "store_inv d"
    and "\<And>r. sr_experiment (f r) = sr_experiment r \<and> sr_session (f r) = sr_session r"
    and "\<And>r. row_ok r \<Longrightarrow> P r \<Longrightarrow> row_ok (f r)"
  shows "store_inv (update_sessions P f d)"
proof -
  have "map (\<lambda>r. (sr_experiment r, sr_session r)) (db_sessions (update_sessions P f d))
      = map (\<lambda>r. (sr_experiment r, sr_session r)) (db_sessions d)"
    using assms(2) by (simp add: update_sessions_def)
  moreover have "\<forall>r \<in> set (db_sessions (update_sessions P f d)). row_ok r"
    using assms by (auto simp: store_inv_def update_sessions_def)
  ultimately show ?thesis
    using assms(1,2) by (simp add: store_inv_def find_update_sessions)
qed

lemma store_inv_participants [simp]: "store_inv (d\<lparr>db_participants := y\<rparr>) = store_inv d"
  by (simp add: store_inv_def)

lemma persist_results_inv [simp]: "store_inv (fold (persist_result e i now) rs d) = store_inv d"
  by (simp add: store_inv_def)

lemma add_event_inv:
  "store_inv d \<Longrightarrow> er_index r = last_event_index d (er_experiment r) (er_session r) + 1 \<Longrightarrow>
     find_session d (er_experiment r) (er_session r) \<noteq> None \<Longrightarrow> store_inv (add_event r d)"
  using indexed_add [of d r] by (auto simp: store_inv_def) (auto simp: add_event_def)

lemma inv_last_index: "store_inv d \<Longrightarrow> last_event_index d e i = int (length (events_of d e i))"
  by (simp add: store_inv_def last_event_index_eq)

lemma insert_events_inv:
  assumes "store_inv d" "\<forall>ev \<in> set evs. ev_experiment ev = e \<and> ev_session ev = i"
    and "n = last_event_index d e i" and "find_session d e i \<noteq> None"
  shows "store_inv (insert_events evs n t d)"
  using assms
proof (induction evs arbitrary: n d)
  case (Cons ev evs)
  let ?d = "add_event (event_of_record ev (n + 1) t) d"
  have d: "store_inv ?d" using Cons.prems by (intro add_event_inv) simp_all
  have ev: "ev_experiment ev = e" "ev_session ev = i" using Cons.prems(2) by simp_all
  then have "last_event_index ?d e i = int (length (events_of d e i)) + 1"
    unfolding inv_last_index [OF d] by simp
  also have "\<dots> = n + 1"
    unfolding Cons.prems(3) inv_last_index [OF Cons.prems(1)] by (rule refl)
  finally have n: "n + 1 = last_event_index ?d e i" by (rule sym)
  show ?case unfolding insert_events.simps by (rule Cons.IH [OF d _ n]) (use Cons.prems(2,4) in simp_all)
qed simp

lemma persist_terminal_inv: "store_inv d \<Longrightarrow> store_inv (persist_terminal_value d e i en now)"
  by (auto simp: persist_terminal_value_def row_ok_def intro!: update_sessions_inv)

end
