(* ===== verification/Session_Ops.thy ===== *)
theory Session_Ops
  imports Session_Memory Session_Store
begin

text \<open>
  The handlers of \<open>rust-server/src/app.rs\<close> that change a running session, each as one atomic
  function on the memory and the store: connecting and leaving, readiness, the start, an action,
  the ways to end, and the periodic cleanup. \<open>now\<close> is the clock a handler reads, and \<open>io c\<close>
  says that the store call \<open>c\<close> fails this time with nothing written. Messages to browsers and
  agents, telemetry and logging are left out. The interleaving of the store write and the memory
  write of two handlers is the subject of \<open>Session_Concurrency\<close>.
\<close>

record 's world =
  w_memory :: "'s memory"
  w_db :: db

datatype store_call =
    CallAppend | CallStart | CallTouch | CallAddParticipant | CallConnection | CallCommit | CallEnd
  | CallCreate | CallTiming | CallComplete | CallFailInit | CallCapacity | CallConsent | CallTerminal
  | CallAdmit

type_synonym faults = "store_call \<Rightarrow> bool"

definition durable :: "faults \<Rightarrow> store_call \<Rightarrow> (store_error, 'r) outcome \<Rightarrow> (app_error, 'r) outcome" where
  "durable io c m = (if io c then Err StoreFailed else map_err (\<lambda>e. StoreFailed) m)"

lemma durable_Ok [simp]: "durable io c m = Ok x \<longleftrightarrow> \<not> io c \<and> m = Ok x"
  by (simp add: durable_def)

lemma durable_value [simp]: "\<not> io c \<Longrightarrow> durable io c (Ok x) = Ok x"
  by simp

abbreviation session_in :: "'s world \<Rightarrow> string \<Rightarrow> 's live_session option" where
  "session_in w sid \<equiv> get_session (w_memory w) sid"

definition in_memory :: "('s memory \<Rightarrow> 's memory) \<Rightarrow> 's world \<Rightarrow> 's world" where
  "in_memory f w = w\<lparr>w_memory := f (w_memory w)\<rparr>"

definition in_db :: "(db \<Rightarrow> db) \<Rightarrow> 's world \<Rightarrow> 's world" where
  "in_db f w = w\<lparr>w_db := f (w_db w)\<rparr>"

section \<open>Events\<close>

definition session_event_record ::
    "'s memory \<Rightarrow> string \<Rightarrow> string option \<Rightarrow> string \<Rightarrow> json \<Rightarrow> json option \<Rightarrow> (app_error, event_record) outcome" where
  "session_event_record m sid pid ty payload gs =
     obind (ok_or (get_session m sid) NotFound) (\<lambda>s.
       if ls_session s \<le> 0 then Err Internal
       else
         let actor = (case pid of None \<Rightarrow> None | Some p \<Rightarrow> map_of (ls_participants s) p)
         in Ok \<lparr>ev_experiment = ls_experiment s, ev_session = ls_session s, ev_type = ty,
                ev_actor = map_option sp_participant actor,
                ev_actor_role = map_option (\<lambda>p. role_str (sp_role p)) actor,
                ev_payload = payload, ev_game_state = gs\<rparr>)"

definition persist_session_event_required ::
    "faults \<Rightarrow> int \<Rightarrow> string \<Rightarrow> string option \<Rightarrow> string \<Rightarrow> json \<Rightarrow> 's world \<Rightarrow> (app_error, 's world) outcome" where
  "persist_session_event_required io now sid pid ty payload w =
     obind (session_event_record (w_memory w) sid pid ty payload None) (\<lambda>ev.
     obind (durable io CallAppend (append_session_event (w_db w) ev now)) (\<lambda>(d, idx).
       Ok (w\<lparr>w_db := d\<rparr>)))"

definition persist_session_event ::
    "faults \<Rightarrow> int \<Rightarrow> string \<Rightarrow> string option \<Rightarrow> string \<Rightarrow> json \<Rightarrow> 's world \<Rightarrow> 's world" where
  "persist_session_event io now sid pid ty payload w =
     (case persist_session_event_required io now sid pid ty payload w of Ok w' \<Rightarrow> w' | _ \<Rightarrow> w)"

definition touch_session_activity ::
    "experiment_config \<Rightarrow> faults \<Rightarrow> int \<Rightarrow> string \<Rightarrow> 's world \<Rightarrow> 's world" where
  "touch_session_activity c io now sid w =
     (case session_in w sid of
        None \<Rightarrow> w
      | Some s \<Rightarrow>
          let idle = now + 1000 * session_idle_timeout (cfg_session c);
              w1 = in_memory (modify_session sid (\<lambda>s. s\<lparr>ls_updated_at := now,
                     ls_last_activity := Some now, ls_idle_deadline := Some idle\<rparr>)) w
          in if io CallTouch then w1
             else in_db (\<lambda>d. touch_session d (ls_experiment s) (ls_session s) now idle) w1)"

definition shutdown_session_log :: "string \<Rightarrow> 's world \<Rightarrow> 's world" where
  "shutdown_session_log sid = in_memory (modify_session sid (\<lambda>s. s\<lparr>ls_log_open := False\<rparr>))"

section \<open>Starting\<close>

definition maybe_start_game :: "experiment_config \<Rightarrow> faults \<Rightarrow> int \<Rightarrow> string \<Rightarrow> 's world \<Rightarrow> 's world" where
  "maybe_start_game c io now sid w =
     (case session_in w sid of
        None \<Rightarrow> w
      | Some s \<Rightarrow>
          if ls_lifecycle s \<noteq> Forming \<or> \<not> session_ready_for_game c s then w
          else if io CallStart then w
          else
            let idle = now + 1000 * session_idle_timeout (cfg_session c);
                (d, started) = start_session (w_db w) (ls_experiment s) (ls_session s) now idle
            in if \<not> started then w\<lparr>w_db := d\<rparr>
               else in_memory (modify_session sid (\<lambda>s. s\<lparr>ls_lifecycle := Running, ls_pause := None,
                      ls_updated_at := now, ls_last_activity := Some now,
                      ls_idle_deadline := Some idle\<rparr>)) (w\<lparr>w_db := d\<rparr>))"

section \<open>An action\<close>

datatype transition_outcome = Continued | TransitionCompleted

text \<open>The guards of \<open>submit_action\<close> and the game's verdict, on the session as read from memory.\<close>

definition decide_action ::
    "('cfg, 's, 'a, 'obs, 'c) runtime \<Rightarrow> 's live_session \<Rightarrow> player_role \<Rightarrow> 'a \<Rightarrow> (app_error, 's) outcome" where
  "decide_action rt s role a =
     (if is_ended (ls_lifecycle s) then Err (SubmissionRejection ''session_complete'')
      else if ls_lifecycle s \<noteq> Running \<or> ls_pause s \<noteq> None
      then Err (SubmissionRejection ''participant_not_active'')
      else if \<not> session_ready_for_game (rt_config rt) s then
        Err (SubmissionRejection (if speechmatics_required (rt_config rt)
          then ''transcription_not_ready'' else ''players_not_ready''))
      else map_err (\<lambda>r. GameRejection (rej_code r)) (g_apply (rt_game rt) (ls_state s) a role))"

text \<open>The durable part of an accepted action: its events and, at completion, the terminal value.\<close>

definition action_records ::
    "('cfg, 's, 'a, 'obs, 'c) runtime \<Rightarrow> 's memory \<Rightarrow> 's live_session \<Rightarrow> string \<Rightarrow> player_role \<Rightarrow> 'a \<Rightarrow> 's
      \<Rightarrow> (app_error, event_record list \<times> session_end option) outcome" where
  "action_records rt m s pid role a after =
     obind (ok_or (rt_state_json rt after) Internal) (\<lambda>after_json.
     obind (case g_completion (rt_game rt) after of
         None \<Rightarrow> Ok None
       | Some c \<Rightarrow>
           obind (ok_or (rt_completion_json rt c) Internal) (\<lambda>cj.
           obind (completed_session_end rt s after cj) (\<lambda>en. Ok (Some (cj, en))))) (\<lambda>ending.
     obind (ok_or (rt_action_json rt a) Internal) (\<lambda>aj.
     obind (session_event_record m (ls_id s) (Some pid) ''game_action_accepted''
        (JObj [(''action'', aj), (''metadata'', rt_metadata rt (ls_state s) after a role)])
        (Some after_json)) (\<lambda>ev.
     case ending of
       None \<Rightarrow> Ok ([ev], None)
     | Some (cj, en) \<Rightarrow>
         obind (session_event_record m (ls_id s) (Some pid) ''session_completed'' cj None) (\<lambda>ev2.
           Ok ([ev, ev2], Some en))))))"

text \<open>The memory part, after the commit. \<open>keep_voice\<close>: the farewell period is granted.\<close>

definition apply_transition ::
    "experiment_config \<Rightarrow> int \<Rightarrow> bool \<Rightarrow> 's \<Rightarrow> session_end option \<Rightarrow> 's live_session \<Rightarrow> 's live_session" where
  "apply_transition c now keep_voice after ending s =
     (case ending of
        None \<Rightarrow> s\<lparr>ls_state := after\<rparr>
      | Some en \<Rightarrow> s\<lparr>ls_state := after, ls_updated_at := now,
          ls_voice_ends_at := (if keep_voice then Some (now + 1000 * cfg_post_completion c) else None),
          ls_lifecycle := Ended en\<rparr>)"

definition voice_kept :: "experiment_config \<Rightarrow> bool \<Rightarrow> bool" where
  "voice_kept c human_pair \<longleftrightarrow> cfg_voice_enabled c \<and> cfg_mode c = HumanVsHuman \<and> human_pair"

definition submit_action ::
    "('cfg, 's, 'a, 'obs, 'c) runtime \<Rightarrow> faults \<Rightarrow> int \<Rightarrow> bool \<Rightarrow> string \<Rightarrow> string \<Rightarrow> player_role \<Rightarrow> 'a
      \<Rightarrow> 's world \<Rightarrow> 's world \<times> (app_error, transition_outcome) outcome" where
  "submit_action rt io now human_pair sid pid role a w =
     (case obind (ok_or (session_in w sid) NotFound) (\<lambda>s.
           obind (decide_action rt s role a) (\<lambda>after.
           obind (action_records rt (w_memory w) s pid role a after) (\<lambda>(evs, ending).
           obind (durable io CallCommit (commit_session_transition (w_db w) evs ending now)) (\<lambda>(d, committed).
             Ok (after, ending, d))))) of
        Err e \<Rightarrow> (w, Err e)
      | Panic \<Rightarrow> (w, Panic)
      | Ok (after, ending, d) \<Rightarrow>
          let c = rt_config rt;
              w1 = in_memory (modify_session sid
                     (apply_transition c now (voice_kept c human_pair) after ending)) (w\<lparr>w_db := d\<rparr>)
          in (case ending of
                None \<Rightarrow> (touch_session_activity c io now sid w1, Ok Continued)
              | Some en \<Rightarrow>
                  (if cfg_mode c = HumanVsHuman then shutdown_session_log sid w1 else w1,
                   Ok TransitionCompleted)))"

section \<open>Ending\<close>

definition mark_ended :: "int \<Rightarrow> session_end \<Rightarrow> 's live_session \<Rightarrow> 's live_session" where
  "mark_ended now en s = s\<lparr>ls_lifecycle := Ended en, ls_pause := None, ls_updated_at := now\<rparr>"

definition expire_live_session ::
    "('cfg, 's, 'a, 'obs, 'c) runtime \<Rightarrow> faults \<Rightarrow> int \<Rightarrow> string \<Rightarrow> string
      \<Rightarrow> 's world \<Rightarrow> 's world \<times> (app_error, bool) outcome" where
  "expire_live_session rt io now sid reason w =
     (case obind (ok_or (session_in w sid) NotFound) (\<lambda>s.
           if is_ended (ls_lifecycle s) then Ok None
           else
             obind (expiry_end rt s reason) (\<lambda>en.
             let ev = \<lparr>ev_experiment = ls_experiment s, ev_session = ls_session s,
                       ev_type = ''session_ended'', ev_actor = None, ev_actor_role = None,
                       ev_payload = session_end_json en, ev_game_state = None\<rparr> in
             obind (durable io CallEnd (end_session (w_db w) ev en now)) (\<lambda>(d, done).
               Ok (if done then Some (en, d) else None)))) of
        Err e \<Rightarrow> (w, Err e)
      | Panic \<Rightarrow> (w, Panic)
      | Ok None \<Rightarrow> (w, Ok False)
      | Ok (Some (en, d)) \<Rightarrow>
          (in_memory (modify_session sid (mark_ended now en)) (w\<lparr>w_db := d\<rparr>), Ok True))"

definition abandon_session ::
    "('cfg, 's, 'a, 'obs, 'c) runtime \<Rightarrow> faults \<Rightarrow> int \<Rightarrow> string \<Rightarrow> string \<Rightarrow> string
      \<Rightarrow> 's world \<Rightarrow> 's world \<times> (app_error, bool) outcome" where
  "abandon_session rt io now sid pid reason w =
     (case obind (ok_or (session_in w sid) NotFound) (\<lambda>s.
           if is_ended (ls_lifecycle s) then Ok None
           else
             obind (abandon_end rt s pid reason) (\<lambda>en.
             obind (session_event_record (w_memory w) sid (Some pid) ''session_abandoned''
                (JObj [(''reason'', JStr reason)]) None) (\<lambda>ev.
             obind (durable io CallEnd (end_session (w_db w) ev en now)) (\<lambda>(d, done).
               Ok (if done then Some (en, d) else None))))) of
        Err e \<Rightarrow> (w, Err e)
      | Panic \<Rightarrow> (w, Panic)
      | Ok None \<Rightarrow> (w, Ok False)
      | Ok (Some (en, d)) \<Rightarrow>
          let w1 = in_memory (modify_session sid (mark_ended now en)) (w\<lparr>w_db := d\<rparr>)
          in (if cfg_mode (rt_config rt) = HumanVsAgent then w1 else shutdown_session_log sid w1,
              Ok True))"

section \<open>Connections\<close>

definition connect_in_session :: "int \<Rightarrow> string \<Rightarrow> 's live_session \<Rightarrow> 's live_session" where
  "connect_in_session now pid s =
     (let s1 = modify_participant pid (\<lambda>p. p\<lparr>sp_connected := True, sp_updated_at := now,
                 sp_disconnected_at := None, sp_reconnect_deadline := None\<rparr>) s
      in if list_all sp_connected (participants_of s1) then s1\<lparr>ls_pause := None\<rparr> else s1)"

text \<open>The beginning of \<open>websocket_loop\<close>.\<close>

definition connect_participant ::
    "experiment_config \<Rightarrow> faults \<Rightarrow> int \<Rightarrow> string \<Rightarrow> string \<Rightarrow> 's world \<Rightarrow> 's world" where
  "connect_participant c io now sid pid w =
     (let w1 = in_memory (modify_session sid (connect_in_session now pid)) w;
          w2 = (if io CallConnection then w1
                else in_db (\<lambda>d. update_participant_connection d pid ''connected'' None None) w1);
          w3 = persist_session_event io now sid (Some pid) ''participant_connected'' JNull w2
      in (case session_in w3 sid of
            Some s \<Rightarrow> if ls_lifecycle s \<noteq> Forming then w3 else maybe_start_game c io now sid w3
          | None \<Rightarrow> w3))"

text \<open>The end of \<open>websocket_loop\<close>, when the socket still owned the role.\<close>

definition disconnect_in_session :: "int \<Rightarrow> int \<Rightarrow> string \<Rightarrow> 's live_session \<Rightarrow> 's live_session" where
  "disconnect_in_session now deadline pid =
     modify_participant pid (\<lambda>p. p\<lparr>sp_connected := False, sp_updated_at := now,
       sp_disconnected_at := Some now, sp_reconnect_deadline := Some deadline\<rparr>)"

definition grace_seconds :: "experiment_config \<Rightarrow> int" where
  "grace_seconds c = max 0 (reconnect_grace (cfg_session c))"

definition disconnect_participant ::
    "('cfg, 's, 'a, 'obs, 'c) runtime \<Rightarrow> faults \<Rightarrow> int \<Rightarrow> string \<Rightarrow> string \<Rightarrow> 's world \<Rightarrow> 's world" where
  "disconnect_participant rt io now sid pid w =
     (let grace = grace_seconds (rt_config rt);
          deadline = now + 1000 * grace;
          w1 = in_memory (modify_session sid (disconnect_in_session now deadline pid)) w;
          w2 = (if io CallConnection then w1
                else in_db (\<lambda>d. update_participant_connection d pid ''disconnected'' (Some now) (Some deadline)) w1);
          w3 = persist_session_event io now sid (Some pid) ''participant_disconnected'' JNull w2
      in if grace = 0 then fst (abandon_session rt io now sid pid ''reconnect_timeout'' w3)
         else in_memory (modify_session sid (\<lambda>s. if ls_lifecycle s = Running
                then s\<lparr>ls_pause := Some (PartnerReconnecting deadline)\<rparr> else s)) w3)"

text \<open>The task a disconnection spawns, when its grace period is over.\<close>

definition reconnect_timer ::
    "('cfg, 's, 'a, 'obs, 'c) runtime \<Rightarrow> faults \<Rightarrow> int \<Rightarrow> string \<Rightarrow> string \<Rightarrow> 's world \<Rightarrow> 's world" where
  "reconnect_timer rt io now sid pid w =
     (case session_in w sid of
        None \<Rightarrow> w
      | Some s \<Rightarrow>
          (case map_of (ls_participants s) pid of
             Some p \<Rightarrow> if sp_connected p then w
               else fst (expire_live_session rt io now sid ''reconnect_timeout'' w)
           | None \<Rightarrow> w))"

definition declare_ready ::
    "experiment_config \<Rightarrow> faults \<Rightarrow> int \<Rightarrow> string \<Rightarrow> string \<Rightarrow> 's world \<Rightarrow> 's world" where
  "declare_ready c io now sid pid w =
     (case session_in w sid of
        None \<Rightarrow> w
      | Some s \<Rightarrow>
          (case map_of (ls_participants s) pid of
             None \<Rightarrow> w
           | Some p \<Rightarrow>
               if sp_ready p then w
               else
                 let w1 = in_memory (modify_session sid (modify_participant pid
                            (\<lambda>p. p\<lparr>sp_ready := True, sp_updated_at := now\<rparr>))) w
                 in (case persist_session_event_required io now sid (Some pid) ''ready'' JNull w1 of
                       Ok w2 \<Rightarrow> touch_session_activity c io now sid w2
                     | _ \<Rightarrow> in_memory (modify_session sid (modify_participant pid
                              (\<lambda>p. p\<lparr>sp_ready := False\<rparr>))) w1)))"

definition mark_participant_audio_ready :: "int \<Rightarrow> string \<Rightarrow> string \<Rightarrow> 's world \<Rightarrow> 's world" where
  "mark_participant_audio_ready now sid pid =
     in_memory (modify_session sid (modify_participant pid
       (\<lambda>p. p\<lparr>sp_audio_ready := True, sp_updated_at := now\<rparr>)))"

section \<open>Messages\<close>

definition commit_conversation_message ::
    "experiment_config \<Rightarrow> faults \<Rightarrow> int \<Rightarrow> string \<Rightarrow> string \<Rightarrow> json \<Rightarrow> nat \<Rightarrow> nat
      \<Rightarrow> 's world \<Rightarrow> 's world \<times> (app_error, player_role) outcome" where
  "commit_conversation_message c io now sid pid payload chars metadata_bytes w =
     (case obind (ok_or (session_in w sid) NotFound) (\<lambda>s.
           if \<not> session_is_active s then Err Forbidden
           else if chars > 4000 \<or> metadata_bytes > 8 * 1024 then Err BadRequest
           else
             obind (ok_or (map_of (ls_participants s) pid) Forbidden) (\<lambda>p.
             obind (persist_session_event_required io now sid (Some pid) ''conversation_message'' payload w)
               (\<lambda>w1. Ok (w1, sp_role p)))) of
        Err e \<Rightarrow> (w, Err e)
      | Panic \<Rightarrow> (w, Panic)
      | Ok (w1, role) \<Rightarrow> (touch_session_activity c io now sid w1, Ok role))"

section \<open>Periodic cleanup\<close>

definition passed :: "int \<Rightarrow> int option \<Rightarrow> bool" where
  "passed now t = (case t of None \<Rightarrow> False | Some d \<Rightarrow> d \<le> now)"

definition earliest :: "int list \<Rightarrow> int option" where
  "earliest xs = (case xs of [] \<Rightarrow> None | y # ys \<Rightarrow> Some (fold min ys y))"

definition reconnect_deadline :: "'s live_session \<Rightarrow> int option" where
  "reconnect_deadline s =
     earliest (List.map_filter sp_reconnect_deadline
       (filter (\<lambda>p. \<not> sp_connected p) (participants_of s)))"

definition cleanup_reason :: "int \<Rightarrow> 's live_session \<Rightarrow> string option" where
  "cleanup_reason now s =
     (if \<not> is_ended (ls_lifecycle s) \<and> ls_lifetime_deadline s \<le> now then Some ''maximum_lifetime''
      else if ls_lifecycle s = Forming \<and> ls_waiting_deadline s \<le> now then Some ''waiting_timeout''
      else if \<not> is_ended (ls_lifecycle s) \<and> passed now (reconnect_deadline s)
      then Some ''reconnect_timeout''
      else if ls_lifecycle s = Running \<and> passed now (ls_idle_deadline s) then Some ''idle_timeout''
      else if is_ended (ls_lifecycle s) \<and>
        (passed now (ls_voice_ends_at s) \<or>
         ls_voice_ends_at s = None \<and> \<not> list_ex sp_connected (participants_of s) \<and>
           passed now (reconnect_deadline s))
      then Some ''terminal_cleanup''
      else None)"

text \<open>One candidate of \<open>cleanup_transient_rooms\<close>: chosen at \<open>seen\<close>, re-checked and handled at \<open>now\<close>.\<close>

definition room_is_current :: "int \<Rightarrow> string \<Rightarrow> int \<Rightarrow> 's live_session \<Rightarrow> bool" where
  "room_is_current now reason observed s \<longleftrightarrow>
     ls_updated_at s = observed \<and>
     (if reason = ''reconnect_timeout''
      then list_ex (\<lambda>p. \<not> sp_connected p \<and> passed now (sp_reconnect_deadline p)) (participants_of s)
      else if reason = ''idle_timeout'' then passed now (ls_idle_deadline s)
      else True)"

definition cleanup_room ::
    "('cfg, 's, 'a, 'obs, 'c) runtime \<Rightarrow> faults \<Rightarrow> int \<Rightarrow> string \<Rightarrow> string \<Rightarrow> int \<Rightarrow> 's world \<Rightarrow> 's world" where
  "cleanup_room rt io now sid reason observed w =
     (case session_in w sid of
        None \<Rightarrow> w
      | Some s \<Rightarrow>
          if \<not> room_is_current now reason observed s then w
          else if reason \<noteq> ''terminal_cleanup'' \<and> ls_session s > 0 then
            (case expire_live_session rt io now sid reason w of
               (w1, Ok True) \<Rightarrow> in_memory (remove_session sid) w1
             | (w1, r) \<Rightarrow> w1)
          else in_memory (remove_session sid) w)"

end
