(* ===== verification/Lifecycle.thy ===== *)
theory Lifecycle
  imports Session_Memory
begin

text \<open>
  The availability lifecycle of an experiment, \<open>rust-server/src/app/lifecycle.rs\<close>, and the
  administrator's transition of it in \<open>rust-server/src/app.rs\<close>.
\<close>

datatype experiment_lifecycle = Inactive | Testing | LifeActive | LifeCompleted | Archived

fun parse_lifecycle :: "string \<Rightarrow> (app_error, experiment_lifecycle) outcome" where
  "parse_lifecycle s =
     (if s = ''inactive'' then Ok Inactive
      else if s = ''testing'' then Ok Testing
      else if s = ''active'' then Ok LifeActive
      else if s = ''completed'' then Ok LifeCompleted
      else if s = ''archived'' then Ok Archived
      else Err BadRequest)"

fun experiment_lifecycle_str :: "experiment_lifecycle \<Rightarrow> string" where
  "experiment_lifecycle_str Inactive = ''inactive''"
| "experiment_lifecycle_str Testing = ''testing''"
| "experiment_lifecycle_str LifeActive = ''active''"
| "experiment_lifecycle_str LifeCompleted = ''completed''"
| "experiment_lifecycle_str Archived = ''archived''"

fun allows_intake :: "experiment_lifecycle \<Rightarrow> bool" where
  "allows_intake Testing = True"
| "allows_intake LifeActive = True"
| "allows_intake l = False"

definition data_purpose :: "experiment_lifecycle \<Rightarrow> string" where
  "data_purpose l = (if l = Testing then ''testing'' else ''research'')"

fun can_transition_to :: "experiment_lifecycle \<Rightarrow> experiment_lifecycle \<Rightarrow> bool" where
  "can_transition_to l n \<longleftrightarrow>
     l = n \<or>
     (case l of
        Inactive \<Rightarrow> n = Testing \<or> n = LifeActive \<or> n = Archived
      | Testing \<Rightarrow> n = Inactive
      | LifeActive \<Rightarrow> n = Inactive \<or> n = LifeCompleted
      | LifeCompleted \<Rightarrow> n = Archived
      | Archived \<Rightarrow> n = Inactive)"

definition require_open_experiment :: "experiment_lifecycle \<Rightarrow> (app_error, experiment_lifecycle) outcome" where
  "require_open_experiment l = (if allows_intake l then Ok l else Err (Unavailable ''intake''))"

text \<open>
  \<open>admin_update_experiment_status\<close> on the current value and the durable column. The arguments stand
  for what the request and the configuration supply: whether the stored game version is this
  binary's, whether a participant URL can be formed, the outstanding readiness issues for the
  check that applies, and whether the database update fails.
\<close>

record status_check =
  chk_version_matches :: bool
  chk_url :: "(app_error, string) outcome"
  chk_local_issues :: "string list"
  chk_activation_issues :: "string list"
  chk_verify_prolific :: bool

definition update_experiment_status ::
    "status_check \<Rightarrow> bool \<Rightarrow> string \<Rightarrow> experiment_lifecycle \<times> string
      \<Rightarrow> (app_error, (experiment_lifecycle \<times> string) \<times> string option) outcome" where
  "update_experiment_status chk db_fails requested current =
     obind (parse_lifecycle requested) (\<lambda>l.
     if allows_intake l \<and> \<not> chk_version_matches chk then Err Conflict
     else
       obind (if allows_intake l then obind (chk_url chk) (\<lambda>u. Ok (Some u)) else Ok None) (\<lambda>url.
       if allows_intake l \<and>
         (if l = Testing \<and> \<not> chk_verify_prolific chk then chk_local_issues chk
          else chk_activation_issues chk) \<noteq> []
       then Err Conflict
       else if \<not> can_transition_to (fst current) l then Err Conflict
       else if db_fails then Err StoreFailed
       else Ok ((l, experiment_lifecycle_str l), url)))"

section \<open>Facts\<close>

lemma parse_lifecycle_str [simp]: "parse_lifecycle (experiment_lifecycle_str l) = Ok l"
  by (cases l) simp_all

lemma parse_lifecycle_Ok: "parse_lifecycle s = Ok l \<longleftrightarrow> s = experiment_lifecycle_str l"
  by (cases l) auto

text \<open>A sequence of accepted administrator updates.\<close>

fun updates :: "(status_check \<times> bool \<times> string) list \<Rightarrow> experiment_lifecycle \<times> string \<Rightarrow> experiment_lifecycle \<times> string" where
  "updates [] s = s"
| "updates ((chk, fails, req) # rs) s =
     (case update_experiment_status chk fails req s of
        Ok (s', url) \<Rightarrow> updates rs s'
      | _ \<Rightarrow> updates rs s)"

lemma update_status_ok:
  assumes "update_experiment_status chk fails req s = Ok (s', url)"
  shows "can_transition_to (fst s) (fst s') \<and> snd s' = experiment_lifecycle_str (fst s')
    \<and> req = experiment_lifecycle_str (fst s')
    \<and> (allows_intake (fst s') \<longrightarrow> chk_version_matches chk \<and> url \<noteq> None \<and>
        (fst s' = LifeActive \<or> chk_verify_prolific chk \<longrightarrow> chk_activation_issues chk = []))"
  using assms
  by (auto simp: update_experiment_status_def parse_lifecycle_Ok simp del: can_transition_to.simps
      parse_lifecycle.simps split: if_splits)

lemma updates_append: "updates (as @ bs) s = updates bs (updates as s)"
  by (induction as s rule: updates.induct) (auto split: outcome.splits)

lemma one_update: "can_transition_to (fst s) (fst (updates [r] s))"
proof -
  obtain chk fails req where r: "r = (chk, fails, req)" by (cases r) auto
  show ?thesis
    using update_status_ok [of chk fails req s]
    by (cases "update_experiment_status chk fails req s") (auto simp: r simp del: can_transition_to.simps,
        simp_all)
qed

lemma updates_stay_closed:
  assumes "fst s = LifeCompleted \<or> fst s = Archived"
    and "\<And>as bs. rs = as @ bs \<Longrightarrow> fst (updates as s) \<noteq> Inactive"
  shows "fst (updates rs s) = LifeCompleted \<or> fst (updates rs s) = Archived"
  using assms(2)
proof (induction rs rule: rev_induct)
  case (snoc r rs)
  then have "fst (updates rs s) = LifeCompleted \<or> fst (updates rs s) = Archived" by simp
  moreover have "can_transition_to (fst (updates rs s)) (fst (updates (rs @ [r]) s))"
    using one_update [of "updates rs s" r] by (simp only: updates_append)
  ultimately show ?case using snoc.prems [of "rs @ [r]" "[]"] by auto
qed (use assms(1) in simp)

section \<open>Properties\<close>

text \<open>Every accepted status update is an edge of the lifecycle graph, leaves the durable
  status equal to the current one, and opens intake only on a matching game version with a
  participant URL; activation for research further needs every readiness check to pass.\<close>

theorem status_update_guarded:
  assumes "update_experiment_status chk fails req (l, col) = Ok ((l', col'), url)"
  shows "can_transition_to l l' \<and> parse_lifecycle col' = Ok l' \<and>
    (allows_intake l' \<longrightarrow> chk_version_matches chk \<and> url \<noteq> None) \<and>
    (l' = LifeActive \<longrightarrow> chk_activation_issues chk = [])"
  using update_status_ok [OF assms] by (cases l') (auto simp del: can_transition_to.simps)

definition good_check :: status_check where
  "good_check = \<lparr>chk_version_matches = True, chk_url = Ok ''https://example.org/e/x'',
     chk_local_issues = [], chk_activation_issues = [], chk_verify_prolific = False\<rparr>"

theorem status_update_guarded_witness:
  "can_transition_to Inactive LifeActive \<and> parse_lifecycle ''active'' = Ok LifeActive"
proof -
  have "update_experiment_status good_check False ''active'' (Inactive, ''inactive'')
      = Ok ((LifeActive, ''active''), Some ''https://example.org/e/x'')"
    by code_simp
  from status_update_guarded [OF this] show ?thesis by blast
qed

text \<open>Completed research is not reopened by a shortcut: whatever updates are requested
  in whatever order, from a completed or archived experiment intake opens again only after the
  experiment was archived and then made inactive.\<close>

theorem completed_reopens_through_inactive:
  assumes "fst s = LifeCompleted \<or> fst s = Archived" and "allows_intake (fst (updates rs s))"
  shows "\<exists>as bs. rs = as @ bs \<and> fst (updates as s) = Inactive"
proof (rule ccontr)
  assume "\<not> ?thesis"
  then have "fst (updates rs s) = LifeCompleted \<or> fst (updates rs s) = Archived"
    by (intro updates_stay_closed [OF assms(1)]) blast
  then show False using assms(2) by auto
qed

theorem completed_reopens_through_inactive_witness:
  "\<exists>as bs. [(good_check, False, ''archived''), (good_check, False, ''inactive''), (good_check, False, ''active'')]
     = as @ bs \<and> fst (updates as (LifeCompleted, ''completed'')) = Inactive"
proof (rule completed_reopens_through_inactive)
  show "allows_intake (fst (updates [(good_check, False, ''archived''), (good_check, False, ''inactive''),
      (good_check, False, ''active'')] (LifeCompleted, ''completed'')))" by code_simp
qed simp

end
