(* ===== verification/Session_Intake.thy ===== *)
theory Session_Intake
  imports Session_Ops Lifecycle
begin

text \<open>
  How participants and sessions come to be, \<open>rust-server/src/app.rs\<close>: the creation rate limit,
  participant creation with Prolific admission (\<open>admit_prolific_submission\<close> of
  \<open>rust-server/src/storage.rs\<close>), consent, and the creation of, pairing into and joining of a
  session. Random identifiers and the answers of the Prolific client are arguments.
\<close>

section \<open>The creation rate limit\<close>

record creation_rate =
  cr_global :: "int list"
  cr_max_attempts :: nat
  cr_window_seconds :: int

definition record_attempt :: "int \<Rightarrow> creation_rate \<Rightarrow> creation_rate \<times> bool" where
  "record_attempt now r =
     (let kept = filter (\<lambda>t. t > now - cr_window_seconds r) (cr_global r) in
      if length kept \<ge> cr_max_attempts r then (r\<lparr>cr_global := kept\<rparr>, False)
      else (r\<lparr>cr_global := kept @ [now]\<rparr>, True))"

section \<open>Prolific admission\<close>

record prolific_request =
  pq_participant :: string
  pq_study :: string
  pq_session :: string
  pq_token :: "string option"

record prolific_row =
  pl_experiment :: string
  pl_participant :: int
  pl_research :: string
  pl_prolific_participant :: string
  pl_study :: string
  pl_prolific_session :: string
  pl_participant_session :: string
  pl_method :: string

text \<open>The participants and submissions the identity tables hold; ids are assigned in order.\<close>

record identities =
  id_next :: int
  id_submissions :: "prolific_row list"

definition admit_prolific_submission ::
    "identities \<Rightarrow> string \<Rightarrow> prolific_request \<Rightarrow> string \<Rightarrow> string \<Rightarrow> string
      \<Rightarrow> (app_error, identities \<times> int \<times> string \<times> string) outcome" where
  "admit_prolific_submission ids e q verification research psid =
     (case find (\<lambda>r. pl_experiment r = e \<and> pl_prolific_session r = pq_session q) (id_submissions ids) of
        Some r \<Rightarrow>
          if pl_prolific_participant r \<noteq> pq_participant q \<or> pl_study r \<noteq> pq_study q then Err StoreFailed
          else Ok (ids, pl_participant r, pl_research r, pl_participant_session r)
      | None \<Rightarrow>
          Ok (ids\<lparr>id_next := id_next ids + 1,
                 id_submissions := id_submissions ids @
                   [\<lparr>pl_experiment = e, pl_participant = id_next ids, pl_research = research,
                     pl_prolific_participant = pq_participant q, pl_study = pq_study q,
                     pl_prolific_session = pq_session q, pl_participant_session = psid,
                     pl_method = verification\<rparr>]\<rparr>, id_next ids, research, psid))"

definition is_synthetic_prolific_testing_launch :: "experiment_lifecycle \<Rightarrow> prolific_request \<Rightarrow> bool" where
  "is_synthetic_prolific_testing_launch l q \<longleftrightarrow>
     l = Testing \<and> pq_token q = None \<and>
     starts_with ''TEST'' (pq_participant q) \<and> starts_with ''TEST'' (pq_session q) \<and>
     list_all is_ascii_alphanumeric (pq_participant q) \<and> list_all is_ascii_alphanumeric (pq_session q)"

text \<open>The connected Prolific client: whether the verified study uses signed URLs, the claims a
  launch token verifies to, and whether the API knows an unsigned submission.\<close>

record prolific_client =
  cl_signed_urls :: "bool option"
  cl_verify_signed :: "string \<Rightarrow> (string \<times> string \<times> string) option"
  cl_verify_unsigned :: "string \<Rightarrow> string \<Rightarrow> string \<Rightarrow> bool"

definition is_ascii_string :: "string \<Rightarrow> bool" where
  "is_ascii_string s \<longleftrightarrow> list_all (\<lambda>c. (of_char c :: nat) < 128) s"

definition verify_prolific ::
    "experiment_config \<Rightarrow> experiment_lifecycle \<Rightarrow> prolific_client option \<Rightarrow> prolific_request
      \<Rightarrow> (app_error, string) outcome" where
  "verify_prolific c l client q =
     (if pq_study q \<noteq> cfg_prolific_study c then Err BadRequest
      else if list_ex (\<lambda>v. v = [] \<or> length v > 128 \<or> \<not> is_ascii_string v) [pq_participant q, pq_session q]
      then Err BadRequest
      else if is_synthetic_prolific_testing_launch l q then Ok ''synthetic_testing''
      else
        obind (ok_or client (Unavailable ''prolific'')) (\<lambda>cl.
        obind (ok_or (cl_signed_urls cl) (Unavailable ''prolific'')) (\<lambda>secure.
          if secure then
            obind (ok_or (pq_token q) BadRequest) (\<lambda>token.
            obind (ok_or (cl_verify_signed cl token) BadRequest) (\<lambda>(p, st, se).
              if p \<noteq> pq_participant q \<or> st \<noteq> pq_study q \<or> se \<noteq> pq_session q then Err BadRequest
              else Ok ''signed_url''))
          else if cl_verify_unsigned cl (pq_participant q) (pq_study q) (pq_session q)
          then Ok ''submission_api'' else Err (Unavailable ''prolific''))))"

section \<open>Creating a participant\<close>

record 's intake =
  it_world :: "'s world"
  it_identities :: identities
  it_rate :: creation_rate
  it_lifecycle :: experiment_lifecycle

definition unattached_count :: "'s memory \<Rightarrow> nat" where
  "unattached_count m =
     (let attached = concat (map (\<lambda>s. map fst (ls_participants s)) (sessions_of m))
      in length (filter (\<lambda>pid. pid \<notin> set attached) (map fst (mem_participants m))))"

text \<open>The steps of \<open>create_participant_inner\<close> after the rate limit: the memory and the identities
  change only on success.\<close>

definition admit_participant ::
    "experiment_config \<Rightarrow> string \<Rightarrow> faults \<Rightarrow> int \<Rightarrow> prolific_client option \<Rightarrow> prolific_request option
      \<Rightarrow> string \<Rightarrow> string \<Rightarrow> 's intake \<Rightarrow> (app_error, 's intake \<times> participant_session) outcome" where
  "admit_participant c e io now client q research psid st =
     (if \<not> cfg_direct_enabled c \<and> \<not> cfg_prolific_enabled c then Err NotFound
      else
        obind (if cfg_prolific_enabled c then
                 obind (ok_or q BadRequest) (\<lambda>q.
                 obind (verify_prolific c (it_lifecycle st) client q) (\<lambda>v. Ok (Some (q, v))))
               else Ok None) (\<lambda>prolific.
          let m = w_memory (it_world st); purpose = data_purpose (it_lifecycle st) in
          if unattached_count m \<ge> max_unattached_participants (cfg_capacity c)
          then Err (Unavailable ''intake'')
          else if io CallAdmit then Err StoreFailed
          else
            (case prolific of
               Some (q, v) \<Rightarrow>
                 obind (admit_prolific_submission (it_identities st) e q v research psid)
                   (\<lambda>(ids, participant, research', psid').
                   let (m', p) = create_participant_with_id psid' participant research' ''prolific'' purpose now m
                   in Ok (st\<lparr>it_world := (it_world st)\<lparr>w_memory := m'\<rparr>, it_identities := ids\<rparr>, p))
             | None \<Rightarrow>
                 let ids = it_identities st;
                     (m', p) = create_participant_with_id psid (id_next ids) research ''direct'' purpose now m
                 in Ok (st\<lparr>it_world := (it_world st)\<lparr>w_memory := m'\<rparr>,
                          it_identities := ids\<lparr>id_next := id_next ids + 1\<rparr>\<rparr>, p))))"

definition create_participant ::
    "experiment_config \<Rightarrow> string \<Rightarrow> faults \<Rightarrow> int \<Rightarrow> prolific_client option \<Rightarrow> prolific_request option
      \<Rightarrow> string \<Rightarrow> string \<Rightarrow> 's intake \<Rightarrow> 's intake \<times> (app_error, participant_session) outcome" where
  "create_participant c e io now client q research psid st =
     (case require_open_experiment (it_lifecycle st) of
        Ok l \<Rightarrow>
          (case record_attempt now (it_rate st) of
             (r, False) \<Rightarrow> (st\<lparr>it_rate := r\<rparr>, Err TooManyRequests)
           | (r, True) \<Rightarrow>
               (case admit_participant c e io now client q research psid (st\<lparr>it_rate := r\<rparr>) of
                  Ok (st', p) \<Rightarrow> (st', Ok p)
                | Err er \<Rightarrow> (st\<lparr>it_rate := r\<rparr>, Err er)
                | Panic \<Rightarrow> (st\<lparr>it_rate := r\<rparr>, Panic)))
      | Err er \<Rightarrow> (st, Err er)
      | Panic \<Rightarrow> (st, Panic))"

section \<open>Consent\<close>

definition extend_decisions :: "(string \<times> bool) list \<Rightarrow> (string \<times> bool) list \<Rightarrow> (string \<times> bool) list" where
  "extend_decisions new old = fold (\<lambda>(k, v). AList.update k v) new old"

text \<open>\<open>consent\<close>: the declarations to record and the memory afterwards. The loop over the
  declarations stops at the first that cannot be stored, before the memory changes.\<close>

definition changed_decisions :: "(string \<times> bool) list \<Rightarrow> (string \<times> bool) list \<Rightarrow> (string \<times> bool) list" where
  "changed_decisions decisions current = filter (\<lambda>(k, v). map_of current k \<noteq> Some v) decisions"

definition consent ::
    "experiment_config \<Rightarrow> faults \<Rightarrow> int \<Rightarrow> string \<Rightarrow> string option \<Rightarrow> (string \<times> bool) list
      \<Rightarrow> 's memory \<Rightarrow> (app_error, 's memory \<times> (string \<times> bool) list) outcome" where
  "consent c io now pid session decisions m =
     (if list_ex (\<lambda>(k, v). \<not> list_ex (\<lambda>i. ci_id i = k) (cfg_consents c)) decisions then Err BadRequest
      else
        obind (ok_or (map_of (mem_participants m) pid) NotFound) (\<lambda>p.
          let changed = changed_decisions decisions (pa_consents p) in
          if changed = [] then Ok (m, [])
          else if io CallConsent then Err StoreFailed
          else
            let p' = p\<lparr>pa_consents := extend_decisions changed (pa_consents p), pa_updated_at := now\<rparr>;
                upd = (\<lambda>s. if (\<exists>x \<in> set_option session. x \<noteq> ls_id s) then s
                  else modify_participant pid (\<lambda>q. q\<lparr>sp_consents := extend_decisions changed (sp_consents q),
                                                   sp_updated_at := now\<rparr>) s)
            in Ok (m\<lparr>mem_participants := AList.update pid p' (mem_participants m),
                     mem_sessions := map (\<lambda>(k, s). (k, upd s)) (mem_sessions m)\<rparr>, changed)))"

section \<open>Creating a session\<close>

definition fresh_session ::
    "('cfg, 's, 'a, 'obs, 'c) runtime \<Rightarrow> string \<Rightarrow> int \<Rightarrow> string \<Rightarrow> string \<Rightarrow> 's \<Rightarrow> session_participant
      \<Rightarrow> session_timing \<Rightarrow> 's live_session" where
  "fresh_session rt code i mode purpose gstate p tm =
     \<lparr>ls_id = code, ls_experiment = rt_experiment rt, ls_session = i, ls_mode = mode,
      ls_purpose = purpose, ls_state = gstate, ls_log_open = True, ls_lifecycle = Forming,
      ls_pause = None, ls_participants = [(sp_id p, p)],
      ls_waiting_started_at = tm_waiting_started_at tm, ls_waiting_deadline = tm_waiting_deadline tm,
      ls_lifetime_deadline = tm_lifetime_deadline tm, ls_last_activity = None,
      ls_idle_deadline = None, ls_voice_ends_at = None, ls_updated_at = tm_waiting_started_at tm\<rparr>"

definition fail_initialization ::
    "('cfg, 's, 'a, 'obs, 'c) runtime \<Rightarrow> faults \<Rightarrow> int \<Rightarrow> int \<Rightarrow> string \<Rightarrow> 's world \<Rightarrow> 's world" where
  "fail_initialization rt io now i reason w =
     (case durable io CallFailInit (fail_session_initialization (w_db w) (rt_experiment rt) i reason now) of
        Ok d \<Rightarrow> w\<lparr>w_db := d\<rparr> | _ \<Rightarrow> w)"

definition new_record ::
    "('cfg, 's, 'a, 'obs, 'c) runtime \<Rightarrow> string \<Rightarrow> string \<Rightarrow> string \<Rightarrow> session_record" where
  "new_record rt code mode purpose =
     \<lparr>sn_experiment = rt_experiment rt, sn_config_revision = rt_revision rt,
      sn_game_version = rt_version rt, sn_public = code, sn_mode = mode,
      sn_lifecycle = ''forming'', sn_purpose = purpose,
      sn_waiting_timeout = waiting_session_timeout (cfg_session (rt_config rt)),
      sn_max_lifetime = session_max_lifetime (cfg_session (rt_config rt))\<rparr>"

text \<open>\<open>create_live_session_locked\<close>, in two parts: from the construction of the game on, and the
  durable record before it. \<open>code\<close> is the session code the drawing loop stops at, one not in memory.\<close>

definition open_session ::
    "('cfg, 's, 'a, 'obs, 'c) runtime \<Rightarrow> faults \<Rightarrow> 's live_session \<Rightarrow> player_role
      \<Rightarrow> 's world \<Rightarrow> 's world \<times> (app_error, player_role) outcome" where
  "open_session rt io s role w =
     (let w1 = in_memory (put_session s) w in
      if io CallComplete then (in_memory (remove_session (ls_id s)) w1, Err StoreFailed)
      else
        (case complete_session_initialization (w_db w) (rt_experiment rt) (ls_session s) of
           (d, True) \<Rightarrow> (w1\<lparr>w_db := d\<rparr>, Ok role)
         | (d, False) \<Rightarrow> ((in_memory (remove_session (ls_id s)) w1)\<lparr>w_db := d\<rparr>, Err Conflict)))"

definition initialize_session ::
    "('cfg, 's, 'a, 'obs, 'c) runtime \<Rightarrow> faults \<Rightarrow> int \<Rightarrow> string \<Rightarrow> int \<Rightarrow> participant_session \<Rightarrow> string
      \<Rightarrow> string \<Rightarrow> player_role \<Rightarrow> seed \<Rightarrow> 's world \<Rightarrow> 's world \<times> (app_error, player_role) outcome" where
  "initialize_session rt io now code i p pid mode role sd w =
     (case rt_create rt of
        Err msg \<Rightarrow> (fail_initialization rt io now i ''game_construction_failed'' w, Err BadRequest)
      | Panic \<Rightarrow> (w, Panic)
      | Ok u \<Rightarrow>
     (case g_initial (rt_game rt) (rt_game_config rt) sd (rt_secrets rt) of
        Err msg \<Rightarrow> (fail_initialization rt io now i ''game_state_initialization_failed'' w, Err BadRequest)
      | Panic \<Rightarrow> (w, Panic)
      | Ok gstate \<Rightarrow>
     (case durable io CallTiming (session_timing (w_db w) (rt_experiment rt) i) of
        Err e \<Rightarrow> (w, Err e)
      | Panic \<Rightarrow> (w, Panic)
      | Ok tm \<Rightarrow>
          open_session rt io (fresh_session rt code i mode (pa_purpose p) gstate
            (joined_participant (rt_config rt) p pid role now) tm) role w)))"

definition creation_event :: "('cfg, 's, 'a, 'obs, 'c) runtime \<Rightarrow> int \<Rightarrow> string \<Rightarrow> seed \<Rightarrow> event_record" where
  "creation_event rt i code sd =
     \<lparr>ev_experiment = rt_experiment rt, ev_session = i, ev_type = ''session_created'',
      ev_actor = None, ev_actor_role = None,
      ev_payload = JObj [(''public_session_id'', JStr code), (''seed'', JInt (uint sd))],
      ev_game_state = None\<rparr>"

definition create_live_session ::
    "('cfg, 's, 'a, 'obs, 'c) runtime \<Rightarrow> faults \<Rightarrow> int \<Rightarrow> string \<Rightarrow> string \<Rightarrow> string \<Rightarrow> player_role \<Rightarrow> seed
      \<Rightarrow> 's world \<Rightarrow> 's world \<times> (app_error, player_role) outcome" where
  "create_live_session rt io now code pid mode role sd w =
     (case map_of (mem_participants (w_memory w)) pid of
        None \<Rightarrow> (w, Err NotFound)
      | Some p \<Rightarrow>
     (case durable io CallCreate (create_session_row (w_db w) (new_record rt code mode (pa_purpose p)) now) of
        Err e \<Rightarrow> (w, Err e)
      | Panic \<Rightarrow> (w, Panic)
      | Ok (d, i) \<Rightarrow>
     (case durable io CallAppend (append_session_event d (creation_event rt i code sd) now) of
        Err e \<Rightarrow> (fail_initialization rt io now i ''session_event_persistence_failed'' (w\<lparr>w_db := d\<rparr>), Err e)
      | Panic \<Rightarrow> (w\<lparr>w_db := d\<rparr>, Panic)
      | Ok (d2, idx) \<Rightarrow> initialize_session rt io now code i p pid mode role sd (w\<lparr>w_db := d2\<rparr>))))"

definition persist_session_participant ::
    "faults \<Rightarrow> int \<Rightarrow> string \<Rightarrow> string \<Rightarrow> 's world \<Rightarrow> (app_error, 's world) outcome" where
  "persist_session_participant io now sid pid w =
     obind (ok_or (session_in w sid) NotFound) (\<lambda>s.
     obind (ok_or (map_of (ls_participants s) pid) NotFound) (\<lambda>p.
     obind (durable io CallAddParticipant (add_session_participant (w_db w)
       \<lparr>pn_experiment = ls_experiment s, pn_session = ls_session s, pn_participant = sp_participant p,
        pn_participant_session = pid, pn_role = role_str (sp_role p),
        pn_status = (if sp_connected p then ''connected'' else ''joined'')\<rparr> now)) (\<lambda>d.
       Ok (w\<lparr>w_db := d\<rparr>))))"

definition membership :: "'s memory \<Rightarrow> string \<Rightarrow> (string \<times> player_role) option" where
  "membership m pid =
     (case List.find (\<lambda>s. map_of (ls_participants s) pid \<noteq> None) (sessions_of m) of
        None \<Rightarrow> None
      | Some s \<Rightarrow> map_option (\<lambda>p. (ls_id s, sp_role p)) (map_of (ls_participants s) pid))"

definition storage_reserved :: "experiment_config \<Rightarrow> nat option \<Rightarrow> bool" where
  "storage_reserved c available =
     (case available of
        None \<Rightarrow> True
      | Some b \<Rightarrow> \<not> b \<le> min (storage_reserve_megabytes (cfg_capacity c) * (1024 * 1024)) (2 ^ 64 - 1))"

text \<open>The admission decision of \<open>create_session\<close>: the session the participant is paired into or
  the one created for it.\<close>

definition pair_or_create ::
    "('cfg, 's, 'a, 'obs, 'c) runtime \<Rightarrow> faults \<Rightarrow> int \<Rightarrow> string \<Rightarrow> string \<Rightarrow> seed
      \<Rightarrow> 's world \<Rightarrow> 's world \<times> (app_error, string \<times> player_role \<times> bool) outcome" where
  "pair_or_create rt io now code pid sd w =
     (let c = rt_config rt; m = w_memory w;
          create = (\<lambda>_. case create_live_session rt io now code pid ''direct'' RoleA sd w of
              (w', Ok role) \<Rightarrow> (w', Ok (code, role, True))
            | (w', Err e) \<Rightarrow> (w', Err e)
            | (w', Panic) \<Rightarrow> (w', Panic)) in
      if cfg_mode c = HumanVsHuman then
        (case map_of (mem_participants m) pid of
           None \<Rightarrow> (w, Err NotFound)
         | Some p \<Rightarrow>
        (case open_human_session_for_pairing m ''direct'' (pa_purpose p) of
           Some sid \<Rightarrow>
             (case obind (ensure_session_capacity c m ActiveAdmission 1) (\<lambda>_.
                     add_human_participant c sid pid now m) of
                Ok (m', role) \<Rightarrow> (w\<lparr>w_memory := m'\<rparr>, Ok (sid, role, False))
              | Err e \<Rightarrow> (w, Err e)
              | Panic \<Rightarrow> (w, Panic))
         | None \<Rightarrow>
             (case ensure_session_capacity c m WaitingAdmission 1 of
                Ok u \<Rightarrow> create ()
              | Err e \<Rightarrow> (w, Err e)
              | Panic \<Rightarrow> (w, Panic))))
      else
        (case ensure_session_capacity c m ActiveAdmission 1 of
           Ok u \<Rightarrow> create ()
         | Err e \<Rightarrow> (w, Err e)
         | Panic \<Rightarrow> (w, Panic)))"

text \<open>\<open>create_session\<close>. \<open>prepared\<close> is the outcome of preparing a software agent from the
  configured settings, which the participant-versus-human mode does not do.\<close>

definition create_session ::
    "('cfg, 's, 'a, 'obs, 'c) runtime \<Rightarrow> faults \<Rightarrow> int \<Rightarrow> string \<Rightarrow> string \<Rightarrow> seed \<Rightarrow> nat option
      \<Rightarrow> (app_error, unit) outcome \<Rightarrow> experiment_lifecycle
      \<Rightarrow> 's world \<Rightarrow> 's world \<times> (app_error, participant_state) outcome" where
  "create_session rt io now code pid sd available prepared l w =
     (case membership (w_memory w) pid of
        Some (sid, role) \<Rightarrow> (w, participant_state_response rt (w_memory w) sid role)
      | None \<Rightarrow>
     if io CallTerminal then (w, Err StoreFailed)
     else
     (case terminal_participant_state (w_db w) (rt_experiment rt) pid of
        Some (sid, role, result) \<Rightarrow> (w, Ok (PEnded sid role result None))
      | None \<Rightarrow>
     (case obind (require_open_experiment l) (\<lambda>_.
           obind (require_consent (rt_config rt) (w_memory w) pid) (\<lambda>_.
             if \<not> storage_reserved (rt_config rt) available then Err (Unavailable ''storage'')
             else if cfg_mode (rt_config rt) = HumanVsAgent then prepared else Ok ())) of
        Err e \<Rightarrow> (w, Err e)
      | Panic \<Rightarrow> (w, Panic)
      | Ok u \<Rightarrow>
     (case pair_or_create rt io now code pid sd w of
        (w1, Err e) \<Rightarrow> (w1, Err e)
      | (w1, Panic) \<Rightarrow> (w1, Panic)
      | (w1, Ok (sid, role, created)) \<Rightarrow>
     (case persist_session_participant io now sid pid w1 of
        Err e \<Rightarrow> (w1, Err e)
      | Panic \<Rightarrow> (w1, Panic)
      | Ok w2 \<Rightarrow>
          let w3 = persist_session_event io now sid (Some pid) ''participant_joined''
                     (JObj [(''role'', JStr (role_str role))]) w2
          in (w3, participant_state_response rt (w_memory w3) sid role))))))"

text \<open>The attachment of a constructed software agent in \<open>try_construct_and_join_agent\<close>; \<open>aid\<close> is the
  participant session made for it.\<close>

definition agent_participant :: "participant_session \<Rightarrow> string \<Rightarrow> int \<Rightarrow> session_participant" where
  "agent_participant p aid now =
     \<lparr>sp_id = aid, sp_participant = pa_participant p, sp_source = ''agent'', sp_role = RoleB,
      sp_connected = True, sp_ready = False, sp_audio_ready = True, sp_consents = [],
      sp_joined_at = now, sp_updated_at = now, sp_disconnected_at = None, sp_reconnect_deadline = None\<rparr>"

definition join_agent ::
    "faults \<Rightarrow> int \<Rightarrow> string \<Rightarrow> string \<Rightarrow> json \<Rightarrow> 's world \<Rightarrow> 's world \<times> (app_error, unit) outcome" where
  "join_agent io now sid aid metadata w =
     (case map_of (mem_participants (w_memory w)) aid of
        None \<Rightarrow> (w, Err NotFound)
      | Some p \<Rightarrow>
     (case session_in w sid of
        None \<Rightarrow> (w, Err Conflict)
      | Some s \<Rightarrow>
          if ls_lifecycle s \<noteq> Forming then (w, Err Conflict)
          else
            let w1 = in_memory (modify_session sid (\<lambda>s. s\<lparr>ls_participants :=
                       AList.update aid (agent_participant p aid now) (ls_participants s)\<rparr>)) w
            in (case persist_session_participant io now sid aid w1 of
                  Ok w2 \<Rightarrow> (persist_session_event io now sid (Some aid) ''participant_joined''
                      (JObj [(''agent'', metadata), (''kind'', JStr ''agent''), (''role'', JStr ''B'')]) w2, Ok ())
                | Err e \<Rightarrow> (in_memory (modify_session sid (\<lambda>s. s\<lparr>ls_participants :=
                      AList.delete aid (ls_participants s)\<rparr>)) w1, Err e)
                | Panic \<Rightarrow> (w1, Panic))))"

text \<open>\<open>try_construct_and_join_agent\<close>: a participant session of the session's purpose is made for the
  agent, the agent is built (\<open>built\<close>), and it is attached.\<close>

definition try_construct_and_join_agent ::
    "faults \<Rightarrow> int \<Rightarrow> string \<Rightarrow> string \<Rightarrow> int \<Rightarrow> string \<Rightarrow> json \<Rightarrow> bool
      \<Rightarrow> 's world \<Rightarrow> 's world \<times> (app_error, unit) outcome" where
  "try_construct_and_join_agent io now sid aid participant research metadata built w =
     (case session_in w sid of
        None \<Rightarrow> (w, Err Conflict)
      | Some s \<Rightarrow>
          if ls_lifecycle s \<noteq> Forming then (w, Err Conflict)
          else if io CallAdmit then (w, Err StoreFailed)
          else
            let (m', p) = create_participant_with_id aid participant research ''agent'' (ls_purpose s)
                  now (w_memory w);
                w1 = w\<lparr>w_memory := m'\<rparr>
            in if \<not> built then (w1, Err (Unavailable ''agent''))
               else join_agent io now sid aid metadata w1)"

text \<open>The task \<open>create_session\<close> spawns: an agent that cannot join ends its session.\<close>

definition construct_and_join_agent ::
    "('cfg, 's, 'a, 'obs, 'c) runtime \<Rightarrow> faults \<Rightarrow> int \<Rightarrow> string \<Rightarrow> string \<Rightarrow> int \<Rightarrow> string \<Rightarrow> json \<Rightarrow> bool
      \<Rightarrow> 's world \<Rightarrow> 's world" where
  "construct_and_join_agent rt io now sid aid participant research metadata built w =
     (case try_construct_and_join_agent io now sid aid participant research metadata built w of
        (w1, Err e) \<Rightarrow>
          shutdown_session_log sid (fst (expire_live_session rt io now sid ''agent_construction_failed'' w1))
      | (w1, r) \<Rightarrow> w1)"

end
