(* ===== verification/Store_Contract.thy ===== *)
theory Store_Contract
  imports Session_Store "HOL-Library.Sublist"
begin

text \<open>
  What the runtime may rely on from the store, as a locale over any sequence of transactions: an
  invariant, a terminal value that is written once, and a log of events that only grows and keeps
  one clock. The transactions of the store interpret it.
\<close>

section \<open>The contract\<close>

locale durable_sessions =
  fixes step :: "int \<Rightarrow> 'd \<Rightarrow> 'd \<Rightarrow> bool"
    and inv :: "'d \<Rightarrow> bool"
    and terminal :: "'d \<Rightarrow> 'k \<Rightarrow> session_end option"
    and log :: "'d \<Rightarrow> 'k \<Rightarrow> 'e list"
    and stamp :: "'e \<Rightarrow> int"
  assumes step_inv: "step now d d' \<Longrightarrow> inv d \<Longrightarrow> inv d'"
    and terminal_kept: "step now d d' \<Longrightarrow> inv d \<Longrightarrow> terminal d k = Some en \<Longrightarrow> terminal d' k = Some en"
    and log_grows: "step now d d' \<Longrightarrow> inv d \<Longrightarrow>
      \<exists>new. log d' k = log d k @ new \<and> (\<forall>x \<in> set new. stamp x = now)"
begin

inductive steps :: "'d \<Rightarrow> 'd \<Rightarrow> bool" where
  steps_refl: "steps d d"
| steps_step: "steps d d' \<Longrightarrow> step now d' d'' \<Longrightarrow> steps d d''"

lemma steps_inv: "steps d d' \<Longrightarrow> inv d \<Longrightarrow> inv d'"
  by (induction rule: steps.induct) (auto intro: step_inv)

lemma terminal_once: "steps d d' \<Longrightarrow> inv d \<Longrightarrow> terminal d k = Some en \<Longrightarrow> terminal d' k = Some en"
  by (induction rule: steps.induct) (auto intro: terminal_kept steps_inv)

lemma log_prefix: "steps d d' \<Longrightarrow> inv d \<Longrightarrow> prefix (log d k) (log d' k)"
proof (induction rule: steps.induct)
  case (steps_step d d' now d'')
  then have "prefix (log d' k) (log d'' k)"
    using log_grows [OF steps_step.hyps(2), of k] steps_inv by (auto simp: prefix_def)
  then show ?case using steps_step by (blast intro: prefix_order.trans)
qed simp

end

section \<open>The transactions\<close>

inductive store_step :: "int \<Rightarrow> db \<Rightarrow> db \<Rightarrow> bool" where
  st_create: "create_session_row d s now = Ok (d', i) \<Longrightarrow> sn_lifecycle s = ''forming'' \<Longrightarrow>
    store_step now d d'"
| st_complete: "complete_session_initialization d e i = (d', b) \<Longrightarrow> store_step now d d'"
| st_fail: "fail_session_initialization d e i reason now = Ok d' \<Longrightarrow>
    find_session d e i = Some r \<Longrightarrow> sr_started_at r = None \<Longrightarrow> store_step now d d'"
| st_start: "start_session d e i started idle = (d', b) \<Longrightarrow> store_step now d d'"
| st_touch: "touch_session d e i activity idle = d' \<Longrightarrow> store_step now d d'"
| st_append: "append_session_event d ev now = Ok (d', idx) \<Longrightarrow> store_step now d d'"
| st_add: "add_session_participant d p now = Ok d' \<Longrightarrow> store_step now d d'"
| st_connection: "update_participant_connection d psid status left deadline = d' \<Longrightarrow>
    store_step now d d'"
| st_commit: "commit_session_transition d evs ending now = Ok (d', b) \<Longrightarrow> store_step now d d'"
| st_end: "end_session d ev en now = Ok (d', b) \<Longrightarrow> store_step now d d'"

definition terminal_of :: "db \<Rightarrow> string \<times> int \<Rightarrow> session_end option" where
  "terminal_of d k = (case find_session d (fst k) (snd k) of None \<Rightarrow> None | Some r \<Rightarrow> sr_end r)"

text \<open>An event as it was written: its number, kind, payload and state, and the wall-clock time
  that its game time and the start of the session stand for.\<close>

type_synonym log_entry = "int \<times> string \<times> json \<times> json option \<times> int"

definition entry_time :: "log_entry \<Rightarrow> int" where
  "entry_time x = snd (snd (snd (snd x)))"

definition clock_origin :: "db \<Rightarrow> string \<times> int \<Rightarrow> int" where
  "clock_origin d k =
     (case find_session d (fst k) (snd k) of
        None \<Rightarrow> 0
      | Some r \<Rightarrow> (case sr_started_at r of None \<Rightarrow> 0 | Some s \<Rightarrow> s))"

definition log_entry_of :: "int \<Rightarrow> event_row \<Rightarrow> log_entry" where
  "log_entry_of origin r = (er_index r, er_type r, er_payload r, er_game_state r, er_time r + origin)"

definition wall_log :: "db \<Rightarrow> string \<times> int \<Rightarrow> log_entry list" where
  "wall_log d k = map (log_entry_of (clock_origin d k)) (events_of d (fst k) (snd k))"

section \<open>The transactions keep the contract\<close>

lemma clock_origin_other [simp]:
  "clock_origin (add_event r d) k = clock_origin d k"
  "clock_origin (d\<lparr>db_participants := y\<rparr>) k = clock_origin d k"
  by (simp_all add: clock_origin_def)

lemma clock_origin_update:
  assumes "\<And>r. sr_experiment (f r) = sr_experiment r \<and> sr_session (f r) = sr_session r
      \<and> sr_started_at (f r) = sr_started_at r"
  shows "clock_origin (update_sessions P f d) k = clock_origin d k"
  using assms by (simp add: clock_origin_def find_update_sessions split: option.splits)

lemma terminal_other [simp]:
  "terminal_of (add_event r d) k = terminal_of d k"
  "terminal_of (d\<lparr>db_participants := y\<rparr>) k = terminal_of d k"
  "terminal_of (d\<lparr>db_events := x\<rparr>) k = terminal_of d k"
  by (simp_all add: terminal_of_def)

lemma terminal_update:
  assumes "\<And>r. sr_experiment (f r) = sr_experiment r \<and> sr_session (f r) = sr_session r"
    and "store_inv d" and "\<And>r. row_ok r \<Longrightarrow> P r \<Longrightarrow> sr_end r \<noteq> None \<Longrightarrow> sr_end (f r) = sr_end r"
    and "terminal_of d k = Some en"
  shows "terminal_of (update_sessions P f d) k = Some en"
  using assms found_row_ok [OF assms(2), of "fst k" "snd k"]
  by (auto simp: terminal_of_def find_update_sessions split: option.splits)

text \<open>The events a transition appends, read back as log entries.\<close>

fun inserted :: "event_record list \<Rightarrow> int \<Rightarrow> int \<Rightarrow> event_row list" where
  "inserted [] n t = []"
| "inserted (ev # evs) n t = event_of_record ev (n + 1) t # inserted evs (n + 1) t"

lemma inserted_time: "r \<in> set (inserted evs n t) \<Longrightarrow> er_time r = t"
  by (induction evs arbitrary: n) auto

lemma insert_events_log:
  assumes "\<forall>ev \<in> set evs. ev_experiment ev = e \<and> ev_session ev = i"
  shows "events_of (insert_events evs n t d) e' i' =
    events_of d e' i' @ (if e = e' \<and> i = i' then inserted evs n t else [])"
  using assms
proof (induction evs arbitrary: n d)
  case (Cons ev evs)
  have ev: "ev_experiment ev = e" "ev_session ev = i"
    and evs: "\<forall>ev \<in> set evs. ev_experiment ev = e \<and> ev_session ev = i"
    using Cons.prems by simp_all
  show ?case
    unfolding insert_events.simps inserted.simps Cons.IH [OF evs] events_of_add
      event_of_record_sel ev by simp
qed simp

lemma wall_log_append:
  assumes "clock_origin d' k = clock_origin d k"
    and "events_of d' (fst k) (snd k) = events_of d (fst k) (snd k) @ new"
    and "\<forall>r \<in> set new. er_time r + clock_origin d k = now"
  shows "\<exists>es. wall_log d' k = wall_log d k @ es \<and> (\<forall>x \<in> set es. entry_time x = now)"
  using assms by (auto simp: wall_log_def log_entry_of_def entry_time_def)

lemma wall_log_same:
  assumes "clock_origin d' k = clock_origin d k"
    and "events_of d' (fst k) (snd k) = events_of d (fst k) (snd k)"
  shows "\<exists>es. wall_log d' k = wall_log d k @ es \<and> (\<forall>x \<in> set es. entry_time x = now)"
  using assms by (simp add: wall_log_def)

lemma game_time_origin:
  "stored_game_time_ms d e i now = Ok t \<Longrightarrow> t + clock_origin d (e, i) = now"
  by (auto simp: stored_game_time_ms_def clock_origin_def relative_game_time_ms_def split: option.splits)

section \<open>One transaction at a time\<close>

lemma find_append_rows: "find P (xs @ ys) = (case find P xs of None \<Rightarrow> find P ys | Some x \<Rightarrow> Some x)"
  by (induction xs) simp_all

lemma create_session_row_inv:
  assumes "create_session_row d s now = Ok (d', i)" "sn_lifecycle s = ''forming''" "store_inv d"
  shows "store_inv d'"
    and "i \<notin> {sr_session r |r. r \<in> set (db_sessions d) \<and> sr_experiment r = sn_experiment s}"
    and "i > 0"
proof -
  let ?ids = "map sr_session (filter (\<lambda>r. sr_experiment r = sn_experiment s) (db_sessions d))"
  have "\<forall>x \<in> set xs. x \<le> max_or_zero xs" for xs
    by (induction xs rule: rev_induct) (auto simp: max_or_zero_snoc)
  then have below: "\<forall>x \<in> set ?ids. x < i"
    using assms(1) by (auto simp: create_session_row_def Let_def split: if_splits)
  show pos: "i > 0"
  proof (cases ?ids)
    case Nil
    then show ?thesis
      using assms(1) by (auto simp: create_session_row_def Let_def max_or_zero_def split: if_splits)
  next
    case (Cons x xs)
    then have "x \<in> set ?ids" by simp
    then have "0 < x" using assms(3) by (auto simp: store_inv_def row_ok_def)
    then show ?thesis using below \<open>x \<in> set ?ids\<close> by fastforce
  qed
  show fresh: "i \<notin> {sr_session r |r. r \<in> set (db_sessions d) \<and> sr_experiment r = sn_experiment s}"
    using below by auto
  obtain r where d': "d' = d\<lparr>db_sessions := db_sessions d @ [r]\<rparr>"
    and r: "sr_experiment r = sn_experiment s" "sr_session r = i" "row_ok r"
    using assms(1,2) pos by (auto simp: create_session_row_def Let_def row_ok_def split: if_splits)
  have "distinct (map (\<lambda>r. (sr_experiment r, sr_session r)) (db_sessions d @ [r]))"
    using assms(3) fresh r by (auto simp: store_inv_def)
  moreover have old: "find_session d' e i' = None \<Longrightarrow> find_session d e i' = None" for e i'
    by (auto simp: d' find_session_def find_append_rows split: option.splits)
  ultimately show "store_inv d'"
    using assms(3) r(3) by (auto simp: d' store_inv_def dest: old [unfolded d'])
qed

lemma stored_time_found: "stored_game_time_ms d e i now = Ok t \<Longrightarrow> \<exists>r. find_session d e i = Some r"
  by (auto simp: stored_game_time_ms_def split: option.splits)

text \<open>A successful transition: it left an ended session alone, or appended the events and, with a
  terminal value, ended the session.\<close>

lemma commit_cases:
  assumes "commit_session_transition d evs ending now = Ok (d', b)"
  obtains (refused) "d' = d" "\<not> b"
    | (committed) e i t r where "b" "evs \<noteq> []" "\<forall>ev \<in> set evs. ev_experiment ev = e \<and> ev_session ev = i"
      "stored_game_time_ms d e i now = Ok t" "find_session d e i = Some r" "sr_lifecycle r \<noteq> ''ended''"
      "d' = (let d1 = insert_events evs (last_event_index d e i) t d in
         case ending of None \<Rightarrow> d1 | Some en \<Rightarrow> persist_terminal_value d1 e i en now)"
  using assms
  by (auto simp: commit_session_transition_def Let_def list_ex_iff simp del: insert_events.simps
      split: list.splits if_splits)

lemma end_cases:
  assumes "end_session d ev en now = Ok (d', b)"
  obtains (refused) "d' = d" "\<not> b"
    | (ended) t r where "b" "stored_game_time_ms d (ev_experiment ev) (ev_session ev) now = Ok t"
      "find_session d (ev_experiment ev) (ev_session ev) = Some r" "sr_lifecycle r \<noteq> ''ended''"
      "d' = persist_terminal_value
         (add_event (event_of_record ev (last_event_index d (ev_experiment ev) (ev_session ev) + 1) t) d)
         (ev_experiment ev) (ev_session ev) en now"
  using assms by (auto simp: end_session_def Let_def split: if_splits)

lemma start_inv:
  assumes "start_session d e i started idle = (d', b)" "store_inv d"
  shows "store_inv d'"
proof -
  let ?P = "\<lambda>r. session_key e i r \<and> sr_lifecycle r = ''forming'' \<and> sr_initialized r"
  let ?f = "\<lambda>r. r\<lparr>sr_lifecycle := ''running'', sr_started_at := Some started,
                 sr_last_activity := Some started, sr_idle_deadline := Some idle\<rparr>"
  have u: "store_inv (update_sessions ?P ?f d)"
    by (rule update_sessions_inv [OF assms(2)]) (auto simp: row_ok_def)
  have "indexed (map (rebase e i started) evs) = indexed evs" for evs
    by (simp add: indexed_def comp_def del: upt_Suc)
  then have "store_inv (c\<lparr>db_events := map (rebase e i started) (db_events c)\<rparr>) = store_inv c" for c
    by (simp add: store_inv_def)
  with u show ?thesis using assms(1) by (auto simp: start_session_def Let_def split: if_splits)
qed

lemma store_step_inv: "store_step now d d' \<Longrightarrow> store_inv d \<Longrightarrow> store_inv d'"
proof (induction rule: store_step.cases)
  case (st_create d s now d' i)
  then show ?case using create_session_row_inv by blast
next
  case (st_complete d e i d' b now)
  then show ?case
    by (auto simp: complete_session_initialization_def Let_def row_ok_def intro!: update_sessions_inv)
next
  case (st_fail d e i reason now d' r)
  then show ?case
    by (auto simp: fail_session_initialization_def row_ok_def intro!: update_sessions_inv add_event_inv)
next
  case (st_start d e i started idle d' b now)
  then show ?case using start_inv by blast
next
  case (st_touch d e i activity idle d' now)
  then show ?case by (auto simp: touch_session_def row_ok_def intro!: update_sessions_inv)
next
  case (st_append d ev now d' idx)
  then show ?case
    by (auto simp: append_session_event_def Let_def dest: stored_time_found intro!: add_event_inv)
next
  case (st_add d p now d')
  then show ?case by (auto simp: add_session_participant_def Let_def split: if_splits)
next
  case (st_connection d psid status left deadline d' now)
  then show ?case by (auto simp: update_participant_connection_def)
next
  case (st_commit d evs ending now d' b)
  then show ?case
    by (elim commit_cases)
      (auto simp: Let_def split: option.splits intro: insert_events_inv [OF _ _ refl] persist_terminal_inv)
next
  case (st_end d ev en now d' b)
  then show ?case by (elim end_cases) (auto intro!: persist_terminal_inv add_event_inv)
qed

lemma terminal_persist:
  assumes "store_inv d" "terminal_of d k = Some en"
  shows "terminal_of (persist_terminal_value d e i en' now) k = Some en"
proof -
  have "terminal_of (fold (persist_result e i now) rs c) k = terminal_of c k" for rs c
    by (simp add: terminal_of_def)
  then show ?thesis
    unfolding persist_terminal_value_def
    by (simp only:) (rule terminal_update [OF _ assms(1) _ assms(2)], auto simp: row_ok_def)
qed

lemma terminal_insert_events [simp]: "terminal_of (insert_events evs n t d) k = terminal_of d k"
  by (simp add: terminal_of_def)

lemma store_step_terminal:
  assumes "store_step now d d'" "store_inv d" "terminal_of d k = Some en"
  shows "terminal_of d' k = Some en"
  using assms
proof (induction rule: store_step.cases)
  case (st_create d s now d' i)
  then show ?case
    by (auto simp: create_session_row_def Let_def terminal_of_def find_session_def find_append_rows
        split: option.splits if_splits)
next
  case (st_complete d e i d' b now)
  then show ?case
    by (auto simp: complete_session_initialization_def Let_def intro!: terminal_update)
next
  case (st_fail d e i reason now d' r)
  then show ?case
    by (auto simp: fail_session_initialization_def row_ok_def intro!: terminal_update add_event_inv)
next
  case (st_start d e i started idle d' b now)
  have "terminal_of (update_sessions P (\<lambda>r. r\<lparr>sr_lifecycle := ''running'', sr_started_at := Some started,
                 sr_last_activity := Some started, sr_idle_deadline := Some idle\<rparr>) d) k = Some en" for P
    by (rule terminal_update) (use st_start in simp_all)
  with st_start show ?case by (auto simp: start_session_def Let_def split: if_splits)
next
  case (st_touch d e i activity idle d' now)
  then show ?case by (auto simp: touch_session_def intro!: terminal_update)
next
  case (st_append d ev now d' idx)
  then show ?case by (auto simp: append_session_event_def Let_def)
next
  case (st_add d p now d')
  then show ?case by (auto simp: add_session_participant_def Let_def split: if_splits)
next
  case (st_connection d psid status left deadline d' now)
  then show ?case by (auto simp: update_participant_connection_def)
next
  case (st_commit d evs ending now d' b)
  then have "commit_session_transition d evs ending now = Ok (d', b)" by simp
  then have "terminal_of d' k = Some en"
  proof (cases rule: commit_cases)
    case (committed e i t r)
    have "find_session d e i \<noteq> None" unfolding committed(5) by simp
    moreover have "store_inv d" using st_commit by simp
    ultimately have "store_inv (insert_events evs (last_event_index d e i) t d)"
      using insert_events_inv [OF _ committed(3) refl] by blast
    then show ?thesis
      using committed(7) st_commit by (auto simp: Let_def intro: terminal_persist split: option.splits)
  qed (use st_commit in simp)
  then show ?case using st_commit by simp
next
  case (st_end d ev en' now d' b)
  then show ?case by (elim end_cases) (auto intro!: terminal_persist add_event_inv)
qed

lemma clock_origin_persist [simp]: "clock_origin (persist_terminal_value d e i en now) k = clock_origin d k"
proof -
  have "clock_origin (fold (persist_result e i now) rs c) k = clock_origin c k" for rs c
    by (simp add: clock_origin_def)
  then show ?thesis by (simp add: persist_terminal_value_def clock_origin_update)
qed

lemma events_persist [simp]: "events_of (persist_terminal_value d e i en now) e' i' = events_of d e' i'"
  by (simp add: persist_terminal_value_def)

lemma clock_origin_insert [simp]: "clock_origin (insert_events evs n t d) k = clock_origin d k"
  by (simp add: clock_origin_def)

text \<open>Starting a session moves the origin of its clock and every stored time by the same amount.\<close>

lemma start_keeps_wall_log:
  assumes "start_session d e i started idle = (d', b)" "store_inv d"
  shows "wall_log d' k = wall_log d k"
proof -
  let ?P = "\<lambda>r. session_key e i r \<and> sr_lifecycle r = ''forming'' \<and> sr_initialized r"
  let ?f = "\<lambda>r. r\<lparr>sr_lifecycle := ''running'', sr_started_at := Some started,
                 sr_last_activity := Some started, sr_idle_deadline := Some idle\<rparr>"
  let ?d1 = "update_sessions ?P ?f d"
  have find: "find_session ?d1 e' i' = map_option (\<lambda>r. if ?P r then ?f r else r) (find_session d e' i')" for e' i'
    by (rule find_update_sessions) simp
  have one: "affected ?P d = 1 \<longleftrightarrow> (\<exists>r. find_session d e i = Some r \<and> sr_lifecycle r = ''forming'' \<and> sr_initialized r)"
    using affected_one [OF assms(2)] by simp
  show ?thesis
  proof (cases "affected ?P d = 1")
    case True
    then obtain r where r: "find_session d e i = Some r" "sr_lifecycle r = ''forming''" "sr_initialized r"
      using one by blast
    have "sr_started_at r = None" using found_row_ok [OF assms(2) r(1)] r(2) by (simp add: row_ok_def)
    moreover have "session_key e i r" using find_session_member [OF r(1)] by (simp add: session_key_def)
    ultimately have origin: "clock_origin ?d1 k = (if k = (e, i) then started else clock_origin d k)"
      "clock_origin d (e, i) = 0"
      using r find [of "fst k" "snd k"] find_session_member
      by (auto simp: clock_origin_def session_key_def prod_eq_iff split: option.splits)
    have d': "d' = ?d1\<lparr>db_events := map (rebase e i started) (db_events ?d1)\<rparr>"
      using assms(1) True by (simp add: start_session_def Let_def)
    have "clock_origin d' k = clock_origin ?d1 k" by (simp add: d' clock_origin_def)
    moreover have "\<forall>x \<in> set (events_of d (fst k) (snd k)). er_experiment x = fst k \<and> er_session x = snd k"
      by (simp add: events_of_def)
    ultimately show ?thesis
      unfolding wall_log_def d' events_of_rebase events_of_other
      using origin by (auto simp: log_entry_of_def rebase_def prod_eq_iff)
  next
    case False
    then have "d' = ?d1" using assms(1) by (simp add: start_session_def Let_def)
    moreover have "find_session ?d1 (fst k) (snd k) = find_session d (fst k) (snd k)"
    proof (cases "find_session d (fst k) (snd k)")
      case (Some r)
      then have "\<not> ?P r" using False one find_session_member [OF Some] by (auto simp: session_key_def)
      then show ?thesis by (simp only: find Some option.map if_False)
    qed (simp only: find option.map)
    then have "clock_origin ?d1 k = clock_origin d k" by (simp add: clock_origin_def)
    ultimately show ?thesis by (simp add: wall_log_def)
  qed
qed

lemma store_step_log:
  assumes "store_step now d d'" "store_inv d"
  shows "\<exists>es. wall_log d' k = wall_log d k @ es \<and> (\<forall>x \<in> set es. entry_time x = now)"
  using assms
proof (induction rule: store_step.cases)
  case (st_create d s now d' i)
  then obtain r where d': "d' = d\<lparr>db_sessions := db_sessions d @ [r]\<rparr>" "sr_started_at r = None"
    by (auto simp: create_session_row_def Let_def split: if_splits)
  then have "clock_origin d' k = clock_origin d k"
    by (auto simp: clock_origin_def find_session_def find_append_rows split: option.splits)
  with d' st_create show ?case by (intro wall_log_same) simp_all
next
  case (st_complete d e i d' b now)
  then show ?case
    by (auto simp: complete_session_initialization_def Let_def clock_origin_update intro!: wall_log_same)
next
  case (st_fail d e i reason now d' r)
  define new where "new = \<lparr>er_experiment = e, er_session = i, er_index = last_event_index d e i + 1,
             er_type = ''session_initialization_failed'', er_actor = None, er_actor_role = None,
             er_payload = JObj [(''reason_code'', JStr reason)], er_game_state = None, er_time = now\<rparr>"
  have origin: "clock_origin d (e, i) = 0" using st_fail by (simp add: clock_origin_def)
  have "events_of d' (fst k) (snd k) = events_of d (fst k) (snd k) @ (if k = (e, i) then [new] else [])"
    using st_fail by (auto simp: fail_session_initialization_def new_def)
  moreover have "clock_origin d' k = clock_origin d k"
    using st_fail by (auto simp: fail_session_initialization_def clock_origin_update)
  ultimately have "\<exists>es. wall_log d' k = wall_log d k @ es \<and> (\<forall>x \<in> set es. entry_time x = now)"
    by (intro wall_log_append) (use origin in \<open>auto simp: new_def\<close>)
  then show ?case using st_fail by simp
next
  case (st_start d e i started idle d' b now)
  then show ?case using start_keeps_wall_log [of d e i started idle d' b k] by auto
next
  case (st_touch d e i activity idle d' now)
  then show ?case by (auto simp: touch_session_def clock_origin_update intro!: wall_log_same)
next
  case (st_append d ev now d' idx)
  then obtain t where "stored_game_time_ms d (ev_experiment ev) (ev_session ev) now = Ok t"
    "d' = add_event (event_of_record ev idx t) d"
    by (auto simp: append_session_event_def Let_def)
  moreover from this(1) have "t + clock_origin d (ev_experiment ev, ev_session ev) = now"
    by (rule game_time_origin)
  ultimately have "\<exists>es. wall_log d' k = wall_log d k @ es \<and> (\<forall>x \<in> set es. entry_time x = now)"
    by (intro wall_log_append) (auto simp: prod_eq_iff)
  then show ?case using st_append by simp
next
  case (st_add d p now d')
  then show ?case
    by (auto simp: add_session_participant_def Let_def intro!: wall_log_same split: if_splits)
next
  case (st_connection d psid status left deadline d' now)
  then show ?case by (auto simp: update_participant_connection_def intro!: wall_log_same)
next
  case (st_commit d evs ending now d' b)
  then have "commit_session_transition d evs ending now = Ok (d', b)" by simp
  then have "\<exists>es. wall_log d' k = wall_log d k @ es \<and> (\<forall>x \<in> set es. entry_time x = now)"
  proof (cases rule: commit_cases)
    case (committed e i t r)
    have "clock_origin d' k = clock_origin d k"
      using committed(7) by (simp add: Let_def split: option.splits)
    moreover have "events_of d' (fst k) (snd k) = events_of d (fst k) (snd k) @
        (if e = fst k \<and> i = snd k then inserted evs (last_event_index d e i) t else [])"
      using committed(7) insert_events_log [OF committed(3)] by (simp add: Let_def split: option.splits)
    ultimately show ?thesis
      by (rule wall_log_append)
        (use game_time_origin [OF committed(4)] in \<open>auto dest: inserted_time\<close>)
  qed (simp add: wall_log_def)
  then show ?case using st_commit by simp
next
  case (st_end d ev en now d' b)
  then have "end_session d ev en now = Ok (d', b)" by simp
  then have "\<exists>es. wall_log d' k = wall_log d k @ es \<and> (\<forall>x \<in> set es. entry_time x = now)"
  proof (cases rule: end_cases)
    case (ended t r)
    then show ?thesis
      using game_time_origin [OF ended(2)] by (intro wall_log_append) (auto simp: prod_eq_iff)
  qed (simp add: wall_log_def)
  then show ?case using st_end by simp
qed

interpretation st: durable_sessions store_step store_inv terminal_of wall_log entry_time
  by unfold_locales (use store_step_inv store_step_terminal store_step_log in blast)+

section \<open>A concrete run\<close>

definition empty_db :: db where
  "empty_db = \<lparr>db_sessions = [], db_participants = [], db_events = []\<rparr>"

lemma empty_db_inv: "store_inv empty_db"
  by (simp add: store_inv_def empty_db_def events_of_def indexed_def)

definition demo_record :: session_record where
  "demo_record = \<lparr>sn_experiment = ''e'', sn_config_revision = 1, sn_game_version = ''1'',
     sn_public = ''ABC'', sn_mode = ''direct'', sn_lifecycle = ''forming'', sn_purpose = ''research'',
     sn_waiting_timeout = 600, sn_max_lifetime = 7200\<rparr>"

definition demo_event :: "string \<Rightarrow> event_record" where
  "demo_event ty = \<lparr>ev_experiment = ''e'', ev_session = 1, ev_type = ty, ev_actor = None,
     ev_actor_role = None, ev_payload = JNull, ev_game_state = None\<rparr>"

fun db_of :: "('e, db \<times> 'b) outcome \<Rightarrow> db" where
  "db_of (Ok (d, b)) = d"
| "db_of x = empty_db"

text \<open>A session is created, announced, started one second later, acted in, and ended.\<close>

definition demo1 :: db where "demo1 = db_of (create_session_row empty_db demo_record 1000)"
definition demo2 :: db where "demo2 = db_of (append_session_event demo1 (demo_event ''session_created'') 1500)"
definition demo3 :: db where "demo3 = fst (complete_session_initialization demo2 ''e'' 1)"
definition demo4 :: db where "demo4 = fst (start_session demo3 ''e'' 1 2000 9000)"
definition demo5 :: db where
  "demo5 = db_of (commit_session_transition demo4 [demo_event ''game_action_accepted''] None 2600)"
definition demo6 :: db where "demo6 = db_of (end_session demo5 (demo_event ''session_ended'') failed_end 3000)"

lemma demo_steps:
  "store_step 1000 empty_db demo1" "store_step 1500 demo1 demo2" "store_step 1600 demo2 demo3"
  "store_step 2000 demo3 demo4" "store_step 2600 demo4 demo5" "store_step 3000 demo5 demo6"
proof -
  have 1: "create_session_row empty_db demo_record 1000 = Ok (demo1, 1)" by code_simp
  show "store_step 1000 empty_db demo1" by (rule st_create [OF 1]) (simp add: demo_record_def)
  have "append_session_event demo1 (demo_event ''session_created'') 1500 = Ok (demo2, 1)" by code_simp
  then show "store_step 1500 demo1 demo2" by (rule st_append)
  have "complete_session_initialization demo2 ''e'' 1 = (demo3, True)" by code_simp
  then show "store_step 1600 demo2 demo3" by (rule st_complete)
  have "start_session demo3 ''e'' 1 2000 9000 = (demo4, True)" by code_simp
  then show "store_step 2000 demo3 demo4" by (rule st_start)
  have "commit_session_transition demo4 [demo_event ''game_action_accepted''] None 2600 = Ok (demo5, True)"
    by code_simp
  then show "store_step 2600 demo4 demo5" by (rule st_commit)
  have "end_session demo5 (demo_event ''session_ended'') failed_end 3000 = Ok (demo6, True)" by code_simp
  then show "store_step 3000 demo5 demo6" by (rule st_end)
qed

lemma demo_reach: "st.steps empty_db demo5" "st.steps demo5 demo6" "store_inv demo5"
proof -
  show r: "st.steps empty_db demo5"
    by (intro st.steps_step [OF _ demo_steps(5)] st.steps_step [OF _ demo_steps(4)]
        st.steps_step [OF _ demo_steps(3)] st.steps_step [OF _ demo_steps(2)]
        st.steps_step [OF _ demo_steps(1)] st.steps_refl)
  show "st.steps demo5 demo6" by (rule st.steps_step [OF st.steps_refl demo_steps(6)])
  show "store_inv demo5" by (rule st.steps_inv [OF r empty_db_inv])
qed

section \<open>Properties\<close>

text \<open>From an empty database, whatever transactions run, session keys stay unique, each
  session's columns agree with its lifecycle, and its events are numbered 1, 2, 3 and so on without a
  gap, so the unique constraint on event numbers is never violated.\<close>

theorem event_numbers_contiguous:
  assumes "st.steps empty_db d"
  shows "distinct (map (\<lambda>r. (sr_experiment r, sr_session r)) (db_sessions d)) \<and>
    map er_index (events_of d e i) = map int [1..<Suc (length (events_of d e i))] \<and>
    (find_session d e i = Some r \<longrightarrow> row_ok r)"
  using st.steps_inv [OF assms empty_db_inv] found_row_ok [of d e i r]
  by (auto simp: store_inv_def indexed_def simp del: upt_Suc)

theorem event_numbers_contiguous_witness:
  "map er_index (events_of demo5 ''e'' 1) = map int [1..<Suc (length (events_of demo5 ''e'' 1))]"
  using event_numbers_contiguous [OF demo_reach(1), of "''e''" 1] by blast

text \<open>The terminal value of a session is written once: after any further transactions, a
  session that was ended has the same terminal value.\<close>

theorem terminal_value_written_once:
  assumes "st.steps empty_db d" and "st.steps d d'" and "terminal_of d k = Some en"
  shows "terminal_of d' k = Some en"
  using st.terminal_once [OF assms(2) st.steps_inv [OF assms(1) empty_db_inv] assms(3)] .

lemma demo6_reach: "st.steps empty_db demo6" "st.steps demo6 (db_of (end_session demo6 (demo_event ''x'') failed_end 4000))"
proof -
  show "st.steps empty_db demo6" by (rule st.steps_step [OF demo_reach(1) demo_steps(6)])
  have "end_session demo6 (demo_event ''x'') failed_end 4000
      = Ok (db_of (end_session demo6 (demo_event ''x'') failed_end 4000), False)"
    by code_simp
  then show "st.steps demo6 (db_of (end_session demo6 (demo_event ''x'') failed_end 4000))"
    by (rule st.steps_step [OF st.steps_refl st_end])
qed

theorem terminal_value_written_once_witness:
  "terminal_of (db_of (end_session demo6 (demo_event ''x'') failed_end 4000)) (''e'', 1) = Some failed_end"
proof (rule terminal_value_written_once [OF demo6_reach])
  show "terminal_of demo6 (''e'', 1) = Some failed_end" by code_simp
qed

text \<open>C4 (refinement). The stored event times implement one wall clock: read against the start of
  their session, the entries of a session's log only grow at the end, and each transaction stamps the
  entries it adds with its own time, the rebasing at the start included.\<close>

theorem event_log_keeps_one_clock:
  assumes "st.steps empty_db d" and "store_step now d d'"
  shows "\<exists>es. wall_log d' k = wall_log d k @ es \<and> (\<forall>x \<in> set es. entry_time x = now)"
  by (rule st.log_grows [OF assms(2) st.steps_inv [OF assms(1) empty_db_inv]])

theorem event_log_keeps_one_clock_witness:
  "\<exists>es. wall_log demo6 (''e'', 1) = wall_log demo5 (''e'', 1) @ es \<and> Ball (set es) (\<lambda>x. entry_time x = 3000)"
  by (rule event_log_keeps_one_clock [OF demo_reach(1) demo_steps(6)])

text \<open>A transition on a running or forming session appends exactly its events, in
  order, after the existing ones and, when it carries a terminal value, ends the session with it; on
  an ended session it changes nothing and reports that.\<close>

theorem commit_transition_spec:
  assumes "store_inv d" and "find_session d e i = Some r" and "evs \<noteq> []"
    and "\<forall>ev \<in> set evs. ev_experiment ev = e \<and> ev_session ev = i"
  shows "\<exists>d' b. commit_session_transition d evs ending now = Ok (d', b) \<and> (b \<longleftrightarrow> sr_lifecycle r \<noteq> ''ended'') \<and>
    (\<not> b \<longrightarrow> d' = d) \<and>
    (b \<longrightarrow> map er_payload (events_of d' e i) = map er_payload (events_of d e i) @ map ev_payload evs \<and>
       terminal_of d' (e, i) = ending)"
proof -
  obtain first rest where evs: "evs = first # rest" using assms(3) by (cases evs) auto
  then have f: "ev_experiment first = e" "ev_session first = i" using assms(4) by auto
  obtain t where t: "stored_game_time_ms d e i now = Ok t"
    using assms(2) by (auto simp: stored_game_time_ms_def)
  have nomix: "\<not> list_ex (\<lambda>ev. ev_experiment ev \<noteq> e \<or> ev_session ev \<noteq> i) evs"
    using assms(4) by (auto simp: list_ex_iff)
  let ?d1 = "insert_events evs (last_event_index d e i) t d"
  let ?d2 = "case ending of None \<Rightarrow> ?d1 | Some en \<Rightarrow> persist_terminal_value ?d1 e i en now"
  have run: "commit_session_transition d evs ending now =
      (if sr_lifecycle r = ''ended'' then Ok (d, False) else Ok (?d2, True))"
    using nomix t assms(2) unfolding commit_session_transition_def evs
    by (simp add: f Let_def ok_or_def del: insert_events.simps)
  have "map er_payload (inserted es n t) = map ev_payload es" for es n
    by (induction es arbitrary: n) simp_all
  then have log: "map er_payload (events_of ?d2 e i) = map er_payload (events_of d e i) @ map ev_payload evs"
    using insert_events_log [OF assms(4)] by (simp split: option.split)
  have key: "session_key e i r" using find_session_member [OF assms(2)] by (simp add: session_key_def)
  have "terminal_of ?d2 (e, i) = ending" if "sr_lifecycle r \<noteq> ''ended''"
  proof (cases ending)
    case None
    then show ?thesis
      using found_row_ok [OF assms(1,2)] that assms(2) by (auto simp: terminal_of_def row_ok_def)
  next
    case (Some en)
    then show ?thesis
      using that key assms(2)
      by (simp add: terminal_of_def persist_terminal_value_def find_update_sessions)
  qed
  then show ?thesis unfolding run using log by simp
qed

theorem commit_transition_spec_witness:
  "\<exists>d' b. commit_session_transition demo5 [demo_event ''game_action_accepted'', demo_event ''session_completed'']
      (Some failed_end) 2700 = Ok (d', b) \<and> b \<and> terminal_of d' (''e'', 1) = Some failed_end"
proof -
  obtain r where r: "find_session demo5 ''e'' 1 = Some r" "sr_lifecycle r = ''running''"
  proof -
    have "map_option sr_lifecycle (find_session demo5 ''e'' 1) = Some ''running''" by code_simp
    then show ?thesis using that by (auto simp: map_option_eq_Some)
  qed
  show ?thesis
    using commit_transition_spec [OF demo_reach(3) r(1),
        of "[demo_event ''game_action_accepted'', demo_event ''session_completed'']" "Some failed_end" 2700] r(2)
    by (auto simp: demo_event_def)
qed

end
