(* ===== verification/Session_Invariant.thy ===== *)
theory Session_Invariant
  imports Session_Intake Store_Contract
begin

text \<open>
  The invariant that ties the memory to the store, and its preservation by the handlers run one at
  a time: a session in memory has the lifecycle and the terminal value of its durable row, at most
  one participant per role, participants of one data purpose, and the state of the last accepted
  action in the event log.
\<close>

section \<open>The invariant\<close>

definition roster :: "'s live_session \<Rightarrow> (string \<times> string \<times> player_role \<times> string) list" where
  "roster s = map (\<lambda>(k, p). (k, sp_id p, sp_role p, sp_source p)) (ls_participants s)"

definition roster_ok :: "experiment_config \<Rightarrow> (string \<times> string \<times> player_role \<times> string) list \<Rightarrow> bool" where
  "roster_ok c xs \<longleftrightarrow>
     distinct (map fst xs) \<and> distinct (map (\<lambda>(k, i, r, src). r) xs) \<and>
     (\<forall>(k, i, r, src) \<in> set xs. i = k \<and> (cfg_mode c = HumanVsAgent \<and> src \<noteq> ''agent'' \<longrightarrow> r = RoleA))"

definition results_cover :: "session_end \<Rightarrow> (string \<times> string \<times> player_role \<times> string) list \<Rightarrow> bool" where
  "results_cover en xs \<longleftrightarrow>
     (\<forall>(k, i, r, src) \<in> set xs. src \<noteq> ''agent'' \<longrightarrow> map_of (end_results en) (role_str r) \<noteq> None)"

definition session_wf :: "('cfg, 's, 'a, 'obs, 'c) runtime \<Rightarrow> 's live_session \<Rightarrow> bool" where
  "session_wf rt s \<longleftrightarrow>
     ls_experiment s = rt_experiment rt \<and> ls_session s > 0 \<and>
     roster_ok (rt_config rt) (roster s) \<and>
     (ls_lifecycle s = Running \<longrightarrow> ls_idle_deadline s \<noteq> None) \<and>
     (ls_pause s \<noteq> None \<longrightarrow> ls_lifecycle s = Running) \<and>
     (\<forall>en. ls_lifecycle s = Ended en \<longrightarrow> results_cover en (roster s))"

definition agrees :: "db \<Rightarrow> 's live_session \<Rightarrow> bool" where
  "agrees d s \<longleftrightarrow>
     (\<exists>r. find_session d (ls_experiment s) (ls_session s) = Some r \<and> sr_public r = ls_id s \<and>
       sr_lifecycle r = lifecycle_str (ls_lifecycle s) \<and> sr_purpose r = ls_purpose s \<and>
       (\<forall>en. ls_lifecycle s = Ended en \<longrightarrow> sr_end r = Some en))"

definition last_snapshot :: "db \<Rightarrow> string \<Rightarrow> int \<Rightarrow> json option" where
  "last_snapshot d e i =
     (case rev (List.map_filter er_game_state (events_of d e i)) of [] \<Rightarrow> None | j # js \<Rightarrow> Some j)"

definition snapshot_ok :: "('cfg, 's, 'a, 'obs, 'c) runtime \<Rightarrow> db \<Rightarrow> 's live_session \<Rightarrow> bool" where
  "snapshot_ok rt d s \<longleftrightarrow>
     (\<forall>j. last_snapshot d (ls_experiment s) (ls_session s) = Some j \<longrightarrow> rt_state_json rt (ls_state s) = Some j)"

definition purposes_ok :: "(string \<times> participant_session) list \<Rightarrow> 's live_session \<Rightarrow> bool" where
  "purposes_ok mp s \<longleftrightarrow>
     (\<forall>pid \<in> set (map fst (ls_participants s)). \<exists>q. map_of mp pid = Some q \<and> pa_purpose q = ls_purpose s)"

definition session_inv ::
    "('cfg, 's, 'a, 'obs, 'c) runtime \<Rightarrow> ('s \<Rightarrow> bool) \<Rightarrow> (string \<times> participant_session) list \<Rightarrow> db
      \<Rightarrow> string \<Rightarrow> 's live_session \<Rightarrow> bool" where
  "session_inv rt ginv mp d sid s \<longleftrightarrow>
     ls_id s = sid \<and> session_wf rt s \<and> agrees d s \<and> snapshot_ok rt d s \<and> purposes_ok mp s \<and>
     ginv (ls_state s)"

definition world_inv :: "('cfg, 's, 'a, 'obs, 'c) runtime \<Rightarrow> ('s \<Rightarrow> bool) \<Rightarrow> 's world \<Rightarrow> bool" where
  "world_inv rt ginv w \<longleftrightarrow>
     store_inv (w_db w) \<and> distinct (map fst (mem_sessions (w_memory w))) \<and>
     (\<forall>sid s. session_in w sid = Some s \<longrightarrow>
        session_inv rt ginv (mem_participants (w_memory w)) (w_db w) sid s)"

section \<open>Lookup\<close>

lemma get_modify_session [simp]:
  "get_session (modify_session sid f m) sid' =
     (if sid' = sid then map_option f (get_session m sid) else get_session m sid')"
  by (auto simp: modify_session_def get_session_def update_conv split: option.splits)

lemma get_put_session [simp]:
  "get_session (put_session s m) sid' = (if sid' = ls_id s then Some s else get_session m sid')"
  by (simp add: put_session_def get_session_def update_conv)

lemma get_remove_session [simp]:
  "get_session (remove_session sid m) sid' = (if sid' = sid then None else get_session m sid')"
  by (simp add: remove_session_def get_session_def delete_conv)

lemma memory_participants_kept [simp]:
  "mem_participants (modify_session sid f m) = mem_participants m"
  "mem_participants (put_session s m) = mem_participants m"
  "mem_participants (remove_session sid m) = mem_participants m"
  by (simp_all add: modify_session_def put_session_def remove_session_def split: option.split)

lemma distinct_sessions_kept [simp]:
  "distinct (map fst (mem_sessions m)) \<Longrightarrow> distinct (map fst (mem_sessions (modify_session sid f m)))"
  "distinct (map fst (mem_sessions m)) \<Longrightarrow> distinct (map fst (mem_sessions (put_session s m)))"
  "distinct (map fst (mem_sessions m)) \<Longrightarrow> distinct (map fst (mem_sessions (remove_session sid m)))"
  by (simp_all add: modify_session_def put_session_def remove_session_def distinct_update distinct_delete
      split: option.split)

lemma in_memory_sel [simp]:
  "w_memory (in_memory f w) = f (w_memory w)" "w_db (in_memory f w) = w_db w"
  "w_memory (in_db g w) = w_memory w" "w_db (in_db g w) = g (w_db w)"
  by (simp_all add: in_memory_def in_db_def)

lemma world_invD:
  "world_inv rt ginv w \<Longrightarrow> session_in w sid = Some s \<Longrightarrow>
     session_inv rt ginv (mem_participants (w_memory w)) (w_db w) sid s"
  by (simp add: world_inv_def)

text \<open>Two sessions in memory have different durable sessions.\<close>

lemma durable_distinct:
  assumes "session_inv rt ginv mp d sid s" "session_inv rt ginv mp d sid' s'" "sid \<noteq> sid'"
  shows "ls_session s \<noteq> ls_session s'"
  using assms by (auto simp: session_inv_def session_wf_def agrees_def)

section \<open>Changes of the store that leave sessions alone\<close>

definition row_kept :: "session_row \<Rightarrow> session_row \<Rightarrow> bool" where
  "row_kept r r' \<longleftrightarrow> sr_public r' = sr_public r \<and> sr_lifecycle r' = sr_lifecycle r \<and>
     sr_purpose r' = sr_purpose r \<and> sr_end r' = sr_end r"

definition session_kept :: "string \<Rightarrow> int \<Rightarrow> db \<Rightarrow> db \<Rightarrow> bool" where
  "session_kept e i d d' \<longleftrightarrow>
     (\<forall>r. find_session d e i = Some r \<longrightarrow> (\<exists>r'. find_session d' e i = Some r' \<and> row_kept r r')) \<and>
     (find_session d e i \<noteq> None \<longrightarrow> last_snapshot d' e i = last_snapshot d e i)"

lemma session_kept_inv:
  assumes "session_kept (ls_experiment s) (ls_session s) d d'" "session_inv rt ginv mp d sid s"
  shows "session_inv rt ginv mp d' sid s"
proof -
  obtain r where r: "find_session d (ls_experiment s) (ls_session s) = Some r" "sr_public r = ls_id s"
    "sr_lifecycle r = lifecycle_str (ls_lifecycle s)" "sr_purpose r = ls_purpose s"
    "\<forall>en. ls_lifecycle s = Ended en \<longrightarrow> sr_end r = Some en"
    using assms(2) by (auto simp: session_inv_def agrees_def)
  obtain r' where "find_session d' (ls_experiment s) (ls_session s) = Some r'" "row_kept r r'"
    using assms(1) r(1) by (auto simp: session_kept_def)
  then have "agrees d' s" using r by (simp add: agrees_def row_kept_def)
  moreover have "snapshot_ok rt d' s"
    using assms r(1) by (simp add: session_inv_def snapshot_ok_def session_kept_def)
  ultimately show ?thesis using assms(2) by (simp add: session_inv_def)
qed

lemma session_kept_refl [simp]: "session_kept e i d d"
  by (simp add: session_kept_def row_kept_def)

lemma session_kept_trans: "session_kept e i d d' \<Longrightarrow> session_kept e i d' d'' \<Longrightarrow> session_kept e i d d''"
  unfolding session_kept_def row_kept_def by fastforce

lemma world_db_live:
  assumes "world_inv rt ginv w" "store_inv d'"
    and "\<And>sid s. session_in w sid = Some s \<Longrightarrow> session_kept (ls_experiment s) (ls_session s) (w_db w) d'"
  shows "world_inv rt ginv (w\<lparr>w_db := d'\<rparr>)"
  using assms session_kept_inv [OF assms(3) world_invD [OF assms(1)]] by (simp add: world_inv_def)

lemma world_db:
  assumes "world_inv rt ginv w" "store_inv d'" "\<And>i. session_kept (rt_experiment rt) i (w_db w) d'"
  shows "world_inv rt ginv (w\<lparr>w_db := d'\<rparr>)"
proof (rule world_db_live [OF assms(1,2)])
  fix sid s assume "session_in w sid = Some s"
  from world_invD [OF assms(1) this] show "session_kept (ls_experiment s) (ls_session s) (w_db w) d'"
    using assms(3) by (simp add: session_inv_def session_wf_def)
qed

lemma kept_update_sessions:
  assumes "\<And>r. sr_experiment (f r) = sr_experiment r \<and> sr_session (f r) = sr_session r"
    and "\<And>r. find_session d e i = Some r \<Longrightarrow> P r \<Longrightarrow> row_kept r (f r)"
  shows "session_kept e i d (update_sessions P f d)"
  using assms
  by (auto simp: session_kept_def find_update_sessions last_snapshot_def row_kept_def split: if_splits)

lemma kept_participants [simp]: "session_kept e i d (d\<lparr>db_participants := y\<rparr>)"
  by (simp add: session_kept_def row_kept_def last_snapshot_def)

lemma kept_add_event:
  "er_game_state r = None \<Longrightarrow> session_kept e i d (add_event r d)"
  by (simp add: session_kept_def row_kept_def last_snapshot_def map_filter_def)

lemma append_effect:
  assumes "append_session_event d ev now = Ok (d', idx)" "store_inv d" "ev_game_state ev = None"
  shows "store_inv d'" "session_kept e i d d'"
proof -
  show "store_inv d'" by (rule store_step_inv [OF st_append [OF assms(1)] assms(2)])
  show "session_kept e i d d'"
    using assms(1,3) by (auto simp: append_session_event_def Let_def intro!: kept_add_event)
qed

lemma add_participant_effect:
  assumes "add_session_participant d p now = Ok d'" "store_inv d"
  shows "store_inv d'" "session_kept e i d d'"
proof -
  show "store_inv d'" by (rule store_step_inv [OF st_add [OF assms(1)] assms(2)])
  show "session_kept e i d d'"
    using assms(1) by (auto simp: add_session_participant_def Let_def split: if_splits)
qed

lemma connection_effect:
  "store_inv d \<Longrightarrow> store_inv (update_participant_connection d pid st l dl)"
  "session_kept e i d (update_participant_connection d pid st l dl)"
  by (simp_all add: update_participant_connection_def)

lemma touch_effect:
  "store_inv d \<Longrightarrow> store_inv (touch_session d e' i' a idle)"
  "session_kept e i d (touch_session d e' i' a idle)"
proof -
  show "store_inv d \<Longrightarrow> store_inv (touch_session d e' i' a idle)"
    by (rule store_step_inv [OF st_touch]) simp_all
  show "session_kept e i d (touch_session d e' i' a idle)"
    unfolding touch_session_def by (rule kept_update_sessions) (simp_all add: row_kept_def)
qed

section \<open>Changes of the memory that leave a session's identity alone\<close>

definition harmless :: "('s live_session \<Rightarrow> 's live_session) \<Rightarrow> bool" where
  "harmless f \<longleftrightarrow>
     (\<forall>s. ls_id (f s) = ls_id s \<and> ls_experiment (f s) = ls_experiment s \<and> ls_session (f s) = ls_session s \<and>
        ls_purpose (f s) = ls_purpose s \<and> ls_state (f s) = ls_state s \<and>
        ls_lifecycle (f s) = ls_lifecycle s \<and> roster (f s) = roster s \<and>
        (ls_idle_deadline s \<noteq> None \<longrightarrow> ls_idle_deadline (f s) \<noteq> None) \<and>
        (ls_pause (f s) \<noteq> None \<longrightarrow> ls_pause s \<noteq> None \<or> ls_lifecycle s = Running))"

lemma roster_keys: "map fst (ls_participants s) = map fst (roster s)"
  by (simp add: roster_def split_beta comp_def)

lemma harmless_inv: "harmless f \<Longrightarrow> session_inv rt ginv mp d sid s \<Longrightarrow> session_inv rt ginv mp d sid (f s)"
proof -
  assume h: "harmless f" and i: "session_inv rt ginv mp d sid s"
  have eqs: "ls_id (f s) = ls_id s" "ls_experiment (f s) = ls_experiment s" "ls_session (f s) = ls_session s"
    "ls_purpose (f s) = ls_purpose s" "ls_state (f s) = ls_state s" "ls_lifecycle (f s) = ls_lifecycle s"
    "roster (f s) = roster s"
    and idle: "ls_idle_deadline s \<noteq> None \<Longrightarrow> ls_idle_deadline (f s) \<noteq> None"
    and pause: "ls_pause (f s) \<noteq> None \<Longrightarrow> ls_pause s \<noteq> None \<or> ls_lifecycle s = Running"
    using h unfolding harmless_def by blast+
  show ?thesis
    using i idle pause
    by (auto simp only: session_inv_def session_wf_def agrees_def snapshot_ok_def purposes_ok_def
        roster_keys eqs)
qed

lemma world_modify:
  assumes "world_inv rt ginv w"
    and "\<And>s. session_in w sid = Some s \<Longrightarrow>
      session_inv rt ginv (mem_participants (w_memory w)) (w_db w) sid (f s)"
  shows "world_inv rt ginv (in_memory (modify_session sid f) w)"
  using assms by (auto simp: world_inv_def)

lemma world_harmless:
  "world_inv rt ginv w \<Longrightarrow> harmless f \<Longrightarrow> world_inv rt ginv (in_memory (modify_session sid f) w)"
  by (rule world_modify) (auto dest: world_invD intro: harmless_inv)

lemma world_remove: "world_inv rt ginv w \<Longrightarrow> world_inv rt ginv (in_memory (remove_session sid) w)"
  by (simp add: world_inv_def)

text \<open>A change of one durable session together with its session in memory.\<close>

lemma world_transition:
  assumes w: "world_inv rt ginv w" and s: "session_in w sid = Some s"
    and "store_inv d'" and others: "\<And>i. i \<noteq> ls_session s \<Longrightarrow> session_kept (rt_experiment rt) i (w_db w) d'"
    and "session_inv rt ginv (mem_participants (w_memory w)) d' sid (f s)"
  shows "world_inv rt ginv (in_memory (modify_session sid f) (w\<lparr>w_db := d'\<rparr>))"
proof -
  have "session_inv rt ginv (mem_participants (w_memory w)) d' sid' s'"
    if "session_in w sid' = Some s'" "sid' \<noteq> sid" for sid' s'
  proof -
    have "ls_session s' \<noteq> ls_session s" "ls_experiment s' = rt_experiment rt"
      using durable_distinct [OF world_invD [OF w that(1)] world_invD [OF w s] that(2)]
        world_invD [OF w that(1)] by (auto simp: session_inv_def session_wf_def)
    then show ?thesis using session_kept_inv others world_invD [OF w that(1)] by metis
  qed
  moreover have "distinct (map fst (mem_sessions (w_memory w)))" using w by (simp add: world_inv_def)
  ultimately show ?thesis using assms(3,5) s by (auto simp: world_inv_def)
qed

lemma roster_modify_participant:
  assumes "\<And>p. sp_id (f p) = sp_id p \<and> sp_role (f p) = sp_role p \<and> sp_source (f p) = sp_source p"
  shows "roster (modify_participant pid f s) = roster s"
proof -
  have "map_of xs pid = Some p \<Longrightarrow> map (\<lambda>(k, p). (k, sp_id p, sp_role p, sp_source p)) (AList.update pid (f p) xs)
      = map (\<lambda>(k, p). (k, sp_id p, sp_role p, sp_source p)) xs" for p xs
    using assms by (induction xs) auto
  then show ?thesis by (simp add: modify_participant_def roster_def split: option.split)
qed

lemma roster_other [simp]:
  "roster (s\<lparr>ls_pause := x\<rparr>) = roster s"
  "roster (s\<lparr>ls_state := y\<rparr>) = roster s"
  "roster (s\<lparr>ls_lifecycle := z\<rparr>) = roster s"
  "roster (s\<lparr>ls_updated_at := t\<rparr>) = roster s"
  "roster (s\<lparr>ls_voice_ends_at := v\<rparr>) = roster s"
  by (simp_all add: roster_def)

lemma modify_participant_other [simp]:
  "ls_id (modify_participant pid f s) = ls_id s"
  "ls_experiment (modify_participant pid f s) = ls_experiment s"
  "ls_session (modify_participant pid f s) = ls_session s"
  "ls_purpose (modify_participant pid f s) = ls_purpose s"
  "ls_state (modify_participant pid f s) = ls_state s"
  "ls_lifecycle (modify_participant pid f s) = ls_lifecycle s"
  "ls_idle_deadline (modify_participant pid f s) = ls_idle_deadline s"
  "ls_pause (modify_participant pid f s) = ls_pause s"
  by (simp_all add: modify_participant_def split: option.split)

lemma harmless_participant:
  "(\<And>p. sp_id (f p) = sp_id p \<and> sp_role (f p) = sp_role p \<and> sp_source (f p) = sp_source p) \<Longrightarrow>
     harmless (modify_participant pid f)"
  by (simp add: harmless_def roster_modify_participant)

section \<open>Changes of the store that move one session\<close>

lemma last_snapshot_events:
  "events_of d' e i = events_of d e i \<Longrightarrow> last_snapshot d' e i = last_snapshot d e i"
  by (simp add: last_snapshot_def)

lemma last_snapshot_snoc:
  assumes "events_of d' e i = events_of d e i @ new"
  shows "last_snapshot d' e i = (case rev (List.map_filter er_game_state new) of [] \<Rightarrow> last_snapshot d e i
     | j # js \<Rightarrow> Some j)"
proof -
  have "List.map_filter er_game_state (xs @ new) = List.map_filter er_game_state xs @ List.map_filter er_game_state new" for xs
    by (simp add: map_filter_def)
  then show ?thesis using assms by (simp add: last_snapshot_def split: list.split)
qed

lemma find_persist_terminal:
  "find_session (persist_terminal_value d e i en now) e' i' =
     map_option (\<lambda>r. if session_key e i r \<and> sr_lifecycle r \<noteq> ''ended''
       then r\<lparr>sr_lifecycle := ''ended'', sr_ended_at := Some now, sr_completion := end_completion en,
              sr_end := Some en\<rparr> else r) (find_session d e' i')"
  by (simp add: persist_terminal_value_def find_update_sessions)

lemma key_of_found: "find_session d e i = Some r \<Longrightarrow> session_key e' i' r \<longleftrightarrow> e' = e \<and> i' = i"
  using find_session_member by (auto simp: session_key_def)

lemma persist_terminal_effect:
  assumes "find_session d e i = Some r" "sr_lifecycle r \<noteq> ''ended''"
  shows "\<exists>r'. find_session (persist_terminal_value d e i en now) e i = Some r' \<and>
      sr_lifecycle r' = ''ended'' \<and> sr_end r' = Some en \<and> sr_public r' = sr_public r \<and> sr_purpose r' = sr_purpose r"
    and "i' \<noteq> i \<Longrightarrow> session_kept e' i' d (persist_terminal_value d e i en now)"
  using assms key_of_found
  by (auto simp: find_persist_terminal session_kept_def row_kept_def intro: last_snapshot_events)

lemma start_effect:
  assumes "start_session d e i started idle = (d', b)" "store_inv d"
  shows "store_inv d'" and "last_snapshot d' e' i' = last_snapshot d e' i'"
    and "i' \<noteq> i \<or> \<not> b \<Longrightarrow> session_kept e' i' d d'"
    and "b \<Longrightarrow> \<exists>r r'. find_session d e i = Some r \<and> sr_lifecycle r = ''forming'' \<and>
      find_session d' e i = Some r' \<and> sr_lifecycle r' = ''running'' \<and> sr_public r' = sr_public r \<and>
      sr_purpose r' = sr_purpose r"
proof -
  let ?P = "\<lambda>r. session_key e i r \<and> sr_lifecycle r = ''forming'' \<and> sr_initialized r"
  let ?f = "\<lambda>r. r\<lparr>sr_lifecycle := ''running'', sr_started_at := Some started,
                 sr_last_activity := Some started, sr_idle_deadline := Some idle\<rparr>"
  have find: "find_session d' e' i' = map_option (\<lambda>r. if ?P r then ?f r else r) (find_session d e' i')" for e' i'
  proof -
    have "find_session d' e' i' = find_session (update_sessions ?P ?f d) e' i'"
      using assms(1) by (auto simp: start_session_def Let_def split: if_splits)
    then show ?thesis by (simp add: find_update_sessions)
  qed
  have one: "b \<longleftrightarrow> (\<exists>r. find_session d e i = Some r \<and> sr_lifecycle r = ''forming'' \<and> sr_initialized r)"
    using assms(1) affected_one [OF assms(2), of e i "\<lambda>r. sr_lifecycle r = ''forming'' \<and> sr_initialized r"]
    by (auto simp: start_session_def Let_def split: if_splits)
  show "store_inv d'" using start_inv assms by blast
  have "List.map_filter er_game_state (map (rebase e i started) xs) = List.map_filter er_game_state xs" for xs
    by (induction xs) (simp_all add: map_filter_def)
  then show snap: "last_snapshot d' e' i' = last_snapshot d e' i'" for e' i'
    using assms(1) by (auto simp: start_session_def Let_def last_snapshot_def split: if_splits)
  show "session_kept e' i' d d'" if "i' \<noteq> i \<or> \<not> b"
    using that one key_of_found
    by (fastforce simp: session_kept_def find row_kept_def snap)
  show "\<exists>r r'. find_session d e i = Some r \<and> sr_lifecycle r = ''forming'' \<and>
      find_session d' e i = Some r' \<and> sr_lifecycle r' = ''running'' \<and> sr_public r' = sr_public r \<and>
      sr_purpose r' = sr_purpose r" if b
    using that one key_of_found by (fastforce simp: find)
qed

lemma end_effect:
  assumes "end_session d ev en now = Ok (d', b)" "store_inv d" "ev_game_state ev = None"
  shows "store_inv d'" and "\<not> b \<Longrightarrow> d' = d"
    and "b \<Longrightarrow> i' \<noteq> ev_session ev \<Longrightarrow> session_kept e' i' d d'"
    and "b \<Longrightarrow> \<exists>r r'. find_session d (ev_experiment ev) (ev_session ev) = Some r \<and>
      sr_lifecycle r \<noteq> ''ended'' \<and> find_session d' (ev_experiment ev) (ev_session ev) = Some r' \<and>
      sr_lifecycle r' = ''ended'' \<and> sr_end r' = Some en \<and> sr_public r' = sr_public r \<and> sr_purpose r' = sr_purpose r \<and>
      last_snapshot d' (ev_experiment ev) (ev_session ev) = last_snapshot d (ev_experiment ev) (ev_session ev)"
proof -
  let ?e = "ev_experiment ev" and ?i = "ev_session ev"
  show "store_inv d'" by (rule store_step_inv [OF st_end [OF assms(1)] assms(2)])
  show "\<not> b \<Longrightarrow> d' = d" using assms(1) by (auto elim: end_cases)
  show kept: "session_kept e' i' d d'" if "b" "i' \<noteq> ?i"
    using assms(1)
  proof (cases rule: end_cases)
    case (ended t r)
    show ?thesis unfolding ended(5)
      by (rule session_kept_trans [OF kept_add_event persist_terminal_effect(2)])
        (use ended that assms(3) in simp_all)
  qed (use that in simp)
  show "\<exists>r r'. find_session d ?e ?i = Some r \<and> sr_lifecycle r \<noteq> ''ended'' \<and> find_session d' ?e ?i = Some r' \<and>
      sr_lifecycle r' = ''ended'' \<and> sr_end r' = Some en \<and> sr_public r' = sr_public r \<and> sr_purpose r' = sr_purpose r \<and>
      last_snapshot d' ?e ?i = last_snapshot d ?e ?i" if b
    using assms(1)
  proof (cases rule: end_cases)
    case (ended t r)
    have "last_snapshot d' ?e ?i = last_snapshot d ?e ?i"
      unfolding ended(5)
      by (rule last_snapshot_snoc [THEN trans], simp) (simp add: map_filter_def assms(3))
    moreover have "find_session (add_event (event_of_record ev (last_event_index d ?e ?i + 1) t) d) ?e ?i = Some r"
      using ended(3) by simp
    moreover obtain r' where "find_session d' ?e ?i = Some r'" "sr_lifecycle r' = ''ended''"
      "sr_end r' = Some en" "sr_public r' = sr_public r" "sr_purpose r' = sr_purpose r"
      using persist_terminal_effect(1) [OF calculation(2) ended(4)] unfolding ended(5) by blast
    ultimately show ?thesis using ended(3,4) by blast
  qed (use that in simp)
qed

lemma commit_effect:
  assumes "commit_session_transition d evs ending now = Ok (d', b)" "store_inv d"
    and "evs \<noteq> []" "\<forall>ev \<in> set evs. ev_experiment ev = e \<and> ev_session ev = i"
  shows "store_inv d'" and "\<not> b \<Longrightarrow> d' = d"
    and "\<not> b \<Longrightarrow> \<exists>r. find_session d e i = Some r \<and> sr_lifecycle r = ''ended''"
    and "i' \<noteq> i \<Longrightarrow> session_kept e' i' d d'"
    and "b \<Longrightarrow> \<exists>r r'. find_session d e i = Some r \<and> sr_lifecycle r \<noteq> ''ended'' \<and>
      find_session d' e i = Some r' \<and> sr_public r' = sr_public r \<and> sr_purpose r' = sr_purpose r \<and>
      (case ending of None \<Rightarrow> sr_lifecycle r' = sr_lifecycle r \<and> sr_end r' = sr_end r
       | Some en \<Rightarrow> sr_lifecycle r' = ''ended'' \<and> sr_end r' = Some en)"
    and "b \<Longrightarrow> last_snapshot d' e i = (case rev (List.map_filter ev_game_state evs) of
        [] \<Rightarrow> last_snapshot d e i | j # js \<Rightarrow> Some j)"
    and "b \<Longrightarrow> \<exists>t. events_of d' e i = events_of d e i @ inserted evs (last_event_index d e i) t"
proof -
  let ?ins = "\<lambda>t. insert_events evs (last_event_index d e i) t d"
  have committed: "\<exists>t r. find_session d e i = Some r \<and> sr_lifecycle r \<noteq> ''ended'' \<and>
      d' = (case ending of None \<Rightarrow> ?ins t | Some en \<Rightarrow> persist_terminal_value (?ins t) e i en now)" if b
    using assms(1)
  proof (cases rule: commit_cases)
    case (committed e2 i2 t r)
    obtain ev where "ev \<in> set evs" using committed(2) by (cases evs) auto
    then have "e2 = e" "i2 = i" using committed(3) assms(4) by auto
    then show ?thesis using committed by (auto simp: Let_def)
  qed (use that in simp)
  show "store_inv d'" by (rule store_step_inv [OF st_commit [OF assms(1)] assms(2)])
  show refused: "\<not> b \<Longrightarrow> d' = d" using assms(1) by (auto elim: commit_cases)
  show "\<exists>r. find_session d e i = Some r \<and> sr_lifecycle r = ''ended''" if "\<not> b"
    using assms(1,3,4) that
    by (auto simp: commit_session_transition_def Let_def split: list.splits if_splits)
  have ins: "session_kept e' i' d (?ins t)" if "i' \<noteq> i" for e' i' t
    using insert_events_log [OF assms(4)] that
    by (auto simp: session_kept_def row_kept_def intro!: last_snapshot_events)
  show "session_kept e' i' d d'" if "i' \<noteq> i"
  proof (cases b)
    case True
    then obtain t r where r: "find_session d e i = Some r" "sr_lifecycle r \<noteq> ''ended''"
      and d': "d' = (case ending of None \<Rightarrow> ?ins t | Some en \<Rightarrow> persist_terminal_value (?ins t) e i en now)"
      using committed by blast
    have "session_kept e' i' (?ins t) (persist_terminal_value (?ins t) e i en now)" for en
      using r that by (intro persist_terminal_effect(2)) simp_all
    from session_kept_trans [OF ins [OF that] this] ins [OF that] show ?thesis
      by (simp add: d' split: option.split)
  qed (simp add: refused)
  show "\<exists>r r'. find_session d e i = Some r \<and> sr_lifecycle r \<noteq> ''ended'' \<and>
      find_session d' e i = Some r' \<and> sr_public r' = sr_public r \<and> sr_purpose r' = sr_purpose r \<and>
      (case ending of None \<Rightarrow> sr_lifecycle r' = sr_lifecycle r \<and> sr_end r' = sr_end r
       | Some en \<Rightarrow> sr_lifecycle r' = ''ended'' \<and> sr_end r' = Some en)" if bb: b
  proof -
    obtain t r where r: "find_session d e i = Some r" "sr_lifecycle r \<noteq> ''ended''"
      and d': "d' = (case ending of None \<Rightarrow> ?ins t | Some en \<Rightarrow> persist_terminal_value (?ins t) e i en now)"
      using committed [OF bb] by blast
    have "find_session (?ins t) e i = Some r" using r(1) by simp
    from persist_terminal_effect(1) [OF this r(2)] r show ?thesis
      by (auto simp: d' split: option.split)
  qed
  have states: "List.map_filter er_game_state (inserted evs n t) = List.map_filter ev_game_state evs" for n t
    by (induction evs arbitrary: n) (simp_all add: map_filter_def)
  show log: "\<exists>t. events_of d' e i = events_of d e i @ inserted evs (last_event_index d e i) t" if bb: b
  proof -
    obtain t where d': "d' = (case ending of None \<Rightarrow> ?ins t | Some en \<Rightarrow> persist_terminal_value (?ins t) e i en now)"
      using committed [OF bb] by blast
    have "events_of d' e i = events_of d e i @ inserted evs (last_event_index d e i) t"
      using insert_events_log [OF assms(4)] by (simp add: d' split: option.split)
    then show ?thesis by blast
  qed
  show "last_snapshot d' e i = (case rev (List.map_filter ev_game_state evs) of
        [] \<Rightarrow> last_snapshot d e i | j # js \<Rightarrow> Some j)" if bb: b
  proof -
    obtain t where "events_of d' e i = events_of d e i @ inserted evs (last_event_index d e i) t"
      using log [OF bb] by blast
    from last_snapshot_snoc [OF this] show ?thesis by (simp only: states)
  qed
qed

end
