(* ===== verification/Session_Steps.thy ===== *)
theory Session_Steps
  imports Session_Invariant
begin

text \<open>Each handler, run alone, keeps the invariant of \<open>Session_Invariant\<close>, whatever store calls fail.\<close>

section \<open>Events and activity\<close>

lemma event_record_Ok:
  assumes "session_event_record m sid pid ty payload gs = Ok ev"
  obtains s where "get_session m sid = Some s" "ev_experiment ev = ls_experiment s"
    "ev_session ev = ls_session s" "ev_type ev = ty" "ev_payload ev = payload" "ev_game_state ev = gs"
  using assms by (auto simp: session_event_record_def Let_def split: if_splits)

lemma persist_required_inv [inv_intros]:
  assumes "world_inv rt ginv w" "persist_session_event_required io now sid pid ty payload w = Ok w'"
  shows "world_inv rt ginv w'" and "w_memory w' = w_memory w"
proof -
  obtain ev d idx where ev: "session_event_record (w_memory w) sid pid ty payload None = Ok ev"
    and d: "append_session_event (w_db w) ev now = Ok (d, idx)" and w': "w' = w\<lparr>w_db := d\<rparr>"
    using assms(2) by (auto simp: persist_session_event_required_def)
  have "ev_game_state ev = None" using ev by (auto elim: event_record_Ok)
  from append_effect [OF d _ this] show "world_inv rt ginv w'"
    unfolding w' using assms(1) by (intro world_db) (simp_all add: world_inv_def)
  show "w_memory w' = w_memory w" by (simp add: w')
qed

lemma persist_event_inv [inv_intros]:
  "world_inv rt ginv w \<Longrightarrow> world_inv rt ginv (persist_session_event io now sid pid ty payload w)"
  by (auto simp: persist_session_event_def intro: persist_required_inv split: outcome.split)

lemma persist_event_memory [simp]:
  "w_memory (persist_session_event io now sid pid ty payload w) = w_memory w"
  by (auto simp: persist_session_event_def persist_session_event_required_def split: outcome.split)

lemma world_db_fun:
  assumes "world_inv rt ginv w" "store_inv (w_db w) \<Longrightarrow> store_inv (g (w_db w))"
    and "\<And>i. session_kept (rt_experiment rt) i (w_db w) (g (w_db w))"
  shows "world_inv rt ginv (in_db g w)"
  using world_db [OF assms(1) _ assms(3)] assms(1,2) by (simp add: in_db_def world_inv_def)

lemma touch_inv [inv_intros]: "world_inv rt ginv w \<Longrightarrow> world_inv rt ginv (touch_session_activity c io now sid w)"
  by (auto simp: touch_session_activity_def Let_def harmless_def roster_def touch_effect split: option.split
      intro!: world_db_fun world_harmless)

lemma shutdown_log_inv [inv_intros]: "world_inv rt ginv w \<Longrightarrow> world_inv rt ginv (shutdown_session_log sid w)"
  unfolding shutdown_session_log_def by (rule world_harmless) (simp_all add: harmless_def roster_def)

section \<open>Starting\<close>

lemma maybe_start_inv [inv_intros]:
  assumes w: "world_inv rt ginv w"
  shows "world_inv rt ginv (maybe_start_game c io now sid w)"
proof (cases "session_in w sid")
  case (Some s)
  show ?thesis
  proof (cases "ls_lifecycle s \<noteq> Forming \<or> \<not> session_ready_for_game c s \<or> io CallStart")
    case False
    define idle where "idle = now + 1000 * session_idle_timeout (cfg_session c)"
    obtain d b where d: "start_session (w_db w) (ls_experiment s) (ls_session s) now idle = (d, b)"
      by (cases "start_session (w_db w) (ls_experiment s) (ls_session s) now idle")
    have si: "store_inv (w_db w)" and inv: "session_inv rt ginv (mem_participants (w_memory w)) (w_db w) sid s"
      using w Some by (auto simp: world_inv_def)
    have ex: "ls_experiment s = rt_experiment rt" using inv by (simp add: session_inv_def session_wf_def)
    note eff = start_effect [OF d si]
    let ?f = "\<lambda>s. s\<lparr>ls_lifecycle := Running, ls_pause := None, ls_updated_at := now,
                      ls_last_activity := Some now, ls_idle_deadline := Some idle\<rparr>"
    show ?thesis
    proof (cases b)
      case True
      from eff(4) [OF True] obtain r r' where r: "find_session (w_db w) (ls_experiment s) (ls_session s) = Some r"
        "find_session d (ls_experiment s) (ls_session s) = Some r'" "sr_lifecycle r' = ''running''"
        "sr_public r' = sr_public r" "sr_purpose r' = sr_purpose r" by blast
      have roster: "roster (?f s) = roster s" by (simp add: roster_def)
      have "session_inv rt ginv (mem_participants (w_memory w)) d sid (?f s)"
        using inv r eff(2) [of "ls_experiment s" "ls_session s"]
        unfolding session_inv_def session_wf_def agrees_def snapshot_ok_def purposes_ok_def roster
        by simp
      then have "world_inv rt ginv (in_memory (modify_session sid ?f) (w\<lparr>w_db := d\<rparr>))"
        using eff(1,3) ex by (intro world_transition [OF w Some]) auto
      then show ?thesis using Some False d True
        by (simp add: maybe_start_game_def idle_def Let_def)
    next
      case nb: False
      have "world_inv rt ginv (w\<lparr>w_db := d\<rparr>)"
        using eff(1,3) nb by (intro world_db [OF w]) auto
      then show ?thesis using Some False d nb by (simp add: maybe_start_game_def idle_def Let_def)
    qed
  qed (use w Some in \<open>auto simp: maybe_start_game_def\<close>)
qed (use w in \<open>simp add: maybe_start_game_def\<close>)

section \<open>Ending\<close>

lemma results_of_humans:
  assumes "omap g (humans s) = Ok rs"
    and "\<And>p x. g p = Ok x \<Longrightarrow> fst x = role_str (sp_role p)"
  shows "results_cover \<lparr>end_cause = ca, end_completion = co, end_results = rs\<rparr> (roster s)"
proof -
  have "map_of rs (role_str (sp_role p)) \<noteq> None" if p: "p \<in> set (humans s)" for p
  proof -
    obtain x where "x \<in> set rs" "g p = Ok x"
      using omap_member [OF assms(1) p] by blast
    then have "role_str (sp_role p) \<in> fst ` set rs" using assms(2) by (metis image_eqI)
    then show ?thesis unfolding map_of_eq_None_iff by blast
  qed
  moreover have "p \<in> set (humans s)" if "(k, p) \<in> set (ls_participants s)" "sp_source p \<noteq> ''agent''" for k p
    using that by (force simp: humans_def participants_of_def)
  ultimately show ?thesis
    unfolding results_cover_def roster_def by (auto simp del: not_None_eq)
qed

lemma expiry_end_cover: "expiry_end rt s reason = Ok en \<Longrightarrow> results_cover en (roster s)"
  by (auto simp: expiry_end_def Let_def intro!: results_of_humans simp: participant_result_for_def)

lemma abandon_end_cover: "abandon_end rt s pid reason = Ok en \<Longrightarrow> results_cover en (roster s)"
  by (auto simp: abandon_end_def intro!: results_of_humans simp: participant_result_for_def)

lemma completed_end_cover: "completed_session_end rt s st c = Ok en \<Longrightarrow> results_cover en (roster s)"
  by (auto simp: completed_session_end_def intro!: results_of_humans simp: participant_result_for_def)

text \<open>Ending a session in the store and in memory with the same terminal value.\<close>

lemma end_inv:
  assumes w: "world_inv rt ginv w" and s: "session_in w sid = Some s"
    and cover: "results_cover en (roster s)"
    and ev: "ev_experiment ev = ls_experiment s" "ev_session ev = ls_session s" "ev_game_state ev = None"
    and fin: "end_session (w_db w) ev en now = Ok (d, True)"
  shows "world_inv rt ginv (in_memory (modify_session sid (mark_ended now en)) (w\<lparr>w_db := d\<rparr>))"
proof (rule world_transition [OF w s])
  have si: "store_inv (w_db w)" using w by (simp add: world_inv_def)
  have inv: "session_inv rt ginv (mem_participants (w_memory w)) (w_db w) sid s"
    using w s by (rule world_invD)
  note eff = end_effect [OF fin si ev(3)]
  show "store_inv d" by (rule eff(1))
  show "session_kept (rt_experiment rt) i (w_db w) d" if "i \<noteq> ls_session s" for i
    using eff(3) that ev by simp
  from eff(4) obtain r r' where r: "find_session (w_db w) (ls_experiment s) (ls_session s) = Some r"
    "find_session d (ls_experiment s) (ls_session s) = Some r'" "sr_lifecycle r' = ''ended''"
    "sr_end r' = Some en" "sr_public r' = sr_public r" "sr_purpose r' = sr_purpose r"
    "last_snapshot d (ls_experiment s) (ls_session s) = last_snapshot (w_db w) (ls_experiment s) (ls_session s)"
    by (auto simp: ev)
  have roster: "roster (mark_ended now en s) = roster s" by (simp add: roster_def mark_ended_def)
  show "session_inv rt ginv (mem_participants (w_memory w)) d sid (mark_ended now en s)"
    using inv r cover
    unfolding session_inv_def session_wf_def agrees_def snapshot_ok_def purposes_ok_def roster
    by (simp add: mark_ended_def)
qed

lemma expire_inv [inv_intros]:
  assumes w: "world_inv rt ginv w"
  shows "world_inv rt ginv (fst (expire_live_session rt io now sid reason w))"
proof (cases "session_in w sid")
  case (Some s)
  show ?thesis
  proof (cases "is_ended (ls_lifecycle s)")
    case False
    show ?thesis
    proof (cases "expiry_end rt s reason")
      case (Ok en)
      define ev where "ev = \<lparr>ev_experiment = ls_experiment s, ev_session = ls_session s,
                       ev_type = ''session_ended'', ev_actor = None, ev_actor_role = None,
                       ev_payload = session_end_json en, ev_game_state = None\<rparr>"
      have "world_inv rt ginv (in_memory (modify_session sid (mark_ended now en)) (w\<lparr>w_db := d\<rparr>))"
        if "end_session (w_db w) ev en now = Ok (d, True)" for d
        by (rule end_inv [OF w Some expiry_end_cover [OF Ok] _ _ _ that]) (simp_all add: ev_def)
      then show ?thesis
        using Some False Ok w unfolding expire_live_session_def ev_def [symmetric]
        by (auto simp: ok_or_def ev_def Let_def durable_def split: outcome.split if_splits)
    qed (use w Some False in \<open>simp_all add: expire_live_session_def ok_or_def\<close>)
  qed (use w Some in \<open>simp add: expire_live_session_def ok_or_def\<close>)
qed (use w in \<open>simp add: expire_live_session_def ok_or_def\<close>)

lemma abandon_inv [inv_intros]:
  assumes w: "world_inv rt ginv w"
  shows "world_inv rt ginv (fst (abandon_session rt io now sid pid reason w))"
proof (cases "session_in w sid")
  case (Some s)
  show ?thesis
  proof (cases "is_ended (ls_lifecycle s)")
    case False
    show ?thesis
    proof (cases "abandon_end rt s pid reason")
      case (Ok en)
      show ?thesis
      proof (cases "session_event_record (w_memory w) sid (Some pid) ''session_abandoned''
                (JObj [(''reason'', JStr reason)]) None")
        case ev: (Ok ev)
        from ev Some have "ev_experiment ev = ls_experiment s" "ev_session ev = ls_session s"
          "ev_game_state ev = None"
          by (auto elim: event_record_Ok)
        then have "world_inv rt ginv (in_memory (modify_session sid (mark_ended now en)) (w\<lparr>w_db := d\<rparr>))"
          if "end_session (w_db w) ev en now = Ok (d, True)" for d
          using that by (intro end_inv [OF w Some abandon_end_cover [OF Ok]])
        then show ?thesis
          using Some False Ok ev w
          by (auto simp: abandon_session_def ok_or_def Let_def durable_def intro: shutdown_log_inv
              split: outcome.split if_splits)
      qed (use w Some False Ok in \<open>simp_all add: abandon_session_def ok_or_def\<close>)
    qed (use w Some False in \<open>simp_all add: abandon_session_def ok_or_def\<close>)
  qed (use w Some in \<open>simp add: abandon_session_def ok_or_def\<close>)
qed (use w in \<open>simp add: abandon_session_def ok_or_def\<close>)

section \<open>Actions\<close>

lemma decide_action_Ok:
  assumes "decide_action rt s role a = Ok after"
  shows "ls_lifecycle s = Running" "ls_pause s = None" "session_ready_for_game (rt_config rt) s"
    "g_apply (rt_game rt) (ls_state s) a role = Ok after"
  using assms by (auto simp: decide_action_def split: if_splits)

lemma action_records_Ok:
  assumes "action_records rt m s pid role a after = Ok (evs, ending)" and "get_session m (ls_id s) = Some s"
  shows "evs \<noteq> []" and "\<forall>ev \<in> set evs. ev_experiment ev = ls_experiment s \<and> ev_session ev = ls_session s"
    and "\<exists>j. rt_state_json rt after = Some j \<and> List.map_filter ev_game_state evs = [j]"
    and "ending = Some en \<Longrightarrow> results_cover en (roster s)"
    and "(ending = None) \<longleftrightarrow> (g_completion (rt_game rt) after = None)"
  using assms completed_end_cover
  by (auto simp: action_records_def map_filter_def elim!: event_record_Ok split: option.splits)

lemma submit_inv [inv_intros]:
  assumes w: "world_inv rt ginv w"
    and game: "\<And>s a r s'. ginv s \<Longrightarrow> g_apply (rt_game rt) s a r = Ok s' \<Longrightarrow> ginv s'"
  shows "world_inv rt ginv (fst (submit_action rt io now hp sid pid role a w))"
proof -
  let ?run = "obind (ok_or (session_in w sid) NotFound) (\<lambda>s.
           obind (decide_action rt s role a) (\<lambda>after.
           obind (action_records rt (w_memory w) s pid role a after) (\<lambda>(evs, ending).
           obind (durable io CallCommit (commit_session_transition (w_db w) evs ending now)) (\<lambda>(d, committed).
             Ok (after, ending, d)))))"
  show ?thesis
  proof (cases ?run)
    case (Ok x)
    obtain after ending d where x: "x = (after, ending, d)" by (cases x) auto
    then obtain s evs b where s: "session_in w sid = Some s" and after: "decide_action rt s role a = Ok after"
      and recs: "action_records rt (w_memory w) s pid role a after = Ok (evs, ending)"
      and commit: "commit_session_transition (w_db w) evs ending now = Ok (d, b)"
      using Ok by auto
    note guard = decide_action_Ok [OF after]
    have si: "store_inv (w_db w)" and inv: "session_inv rt ginv (mem_participants (w_memory w)) (w_db w) sid s"
      using w s by (auto simp: world_inv_def)
    then have ids: "ls_id s = sid" "ls_experiment s = rt_experiment rt"
      by (auto simp: session_inv_def session_wf_def)
    have mem: "get_session (w_memory w) (ls_id s) = Some s" using s ids by simp
    note rec = action_records_Ok [OF recs mem]
    obtain j where j: "rt_state_json rt after = Some j" "List.map_filter ev_game_state evs = [j]"
      using rec(3) by blast
    note eff = commit_effect [OF commit si rec(1,2)]
    have running: "\<exists>r. find_session (w_db w) (ls_experiment s) (ls_session s) = Some r \<and> sr_lifecycle r = ''running''"
      using inv guard(1) by (auto simp: session_inv_def agrees_def)
    have b
    proof (rule ccontr)
      assume "\<not> b"
      then show False using eff(3) running by auto
    qed
    let ?f = "apply_transition (rt_config rt) now (voice_kept (rt_config rt) hp) after ending"
    from eff(5) [OF \<open>b\<close>] obtain r r' where r: "find_session (w_db w) (ls_experiment s) (ls_session s) = Some r"
      "find_session d (ls_experiment s) (ls_session s) = Some r'" "sr_public r' = sr_public r" "sr_purpose r' = sr_purpose r"
      "case ending of None \<Rightarrow> sr_lifecycle r' = sr_lifecycle r \<and> sr_end r' = sr_end r
       | Some en \<Rightarrow> sr_lifecycle r' = ''ended'' \<and> sr_end r' = Some en" by blast
    have snap: "last_snapshot d (ls_experiment s) (ls_session s) = Some j" using eff(6) [OF \<open>b\<close>] j by simp
    have "ginv after" using game [OF _ guard(4)] inv by (simp add: session_inv_def)
    moreover have roster: "roster (?f s) = roster s"
      by (simp add: apply_transition_def roster_def split: option.split)
    ultimately have "session_inv rt ginv (mem_participants (w_memory w)) d sid (?f s)"
      using inv r snap j(1) guard(1,2) rec(4)
      unfolding session_inv_def session_wf_def agrees_def snapshot_ok_def purposes_ok_def roster roster_keys
      by (cases ending) (auto simp: apply_transition_def)
    then have "world_inv rt ginv (in_memory (modify_session sid ?f) (w\<lparr>w_db := d\<rparr>))"
      using eff(1,4) ids by (intro world_transition [OF w s]) auto
    then show ?thesis
      unfolding submit_action_def Ok x
      by (auto simp: Let_def intro: touch_inv shutdown_log_inv split: option.split)
  qed (use w in \<open>simp_all only: submit_action_def outcome.case fst_conv\<close>)
qed

section \<open>Connections, messages, cleanup\<close>

lemma connect_harmless: "harmless (connect_in_session now pid)"
  by (simp add: harmless_def connect_in_session_def Let_def roster_modify_participant)

lemma connect_inv [inv_intros]:
  assumes "world_inv rt ginv w"
  shows "world_inv rt ginv (connect_participant c io now sid pid w)"
proof -
  let ?w1 = "in_memory (modify_session sid (connect_in_session now pid)) w"
  let ?w2 = "if io CallConnection then ?w1
             else in_db (\<lambda>d. update_participant_connection d pid ''connected'' None None) ?w1"
  have "world_inv rt ginv ?w1" by (rule world_harmless [OF assms connect_harmless])
  then have "world_inv rt ginv ?w2" by (auto intro!: world_db_fun simp: connection_effect)
  then have "world_inv rt ginv (persist_session_event io now sid (Some pid) ''participant_connected'' JNull ?w2)"
    by (rule persist_event_inv)
  then show ?thesis
    unfolding connect_participant_def Let_def by (auto intro: maybe_start_inv split: option.split)
qed

lemma disconnect_inv [inv_intros]:
  assumes "world_inv rt ginv w"
  shows "world_inv rt ginv (disconnect_participant rt io now sid pid w)"
proof -
  let ?dl = "now + 1000 * grace_seconds (rt_config rt)"
  let ?w1 = "in_memory (modify_session sid (disconnect_in_session now ?dl pid)) w"
  let ?w2 = "if io CallConnection then ?w1
             else in_db (\<lambda>d. update_participant_connection d pid ''disconnected'' (Some now) (Some ?dl)) ?w1"
  have "world_inv rt ginv ?w1"
    unfolding disconnect_in_session_def by (rule world_harmless [OF assms harmless_participant]) simp
  then have "world_inv rt ginv ?w2" by (auto intro!: world_db_fun simp: connection_effect)
  then have w3: "world_inv rt ginv (persist_session_event io now sid (Some pid) ''participant_disconnected'' JNull ?w2)"
    by (rule persist_event_inv)
  have "harmless (\<lambda>s. if ls_lifecycle s = Running then s\<lparr>ls_pause := Some (PartnerReconnecting ?dl)\<rparr> else s)"
    by (simp add: harmless_def roster_def)
  from world_harmless [OF w3 this] abandon_inv [OF w3] show ?thesis
    unfolding disconnect_participant_def Let_def by simp
qed

lemma ready_inv [inv_intros]:
  assumes "world_inv rt ginv w"
  shows "world_inv rt ginv (declare_ready c io now sid pid w)"
proof -
  let ?set = "\<lambda>v. in_memory (modify_session sid (modify_participant pid (\<lambda>p. p\<lparr>sp_ready := True, sp_updated_at := now\<rparr>))) v"
  let ?unset = "\<lambda>v. in_memory (modify_session sid (modify_participant pid (\<lambda>p. p\<lparr>sp_ready := False\<rparr>))) v"
  have w1: "world_inv rt ginv (?set w)"
    by (rule world_harmless [OF assms harmless_participant]) simp
  have w2: "world_inv rt ginv (?unset (?set w))"
    by (rule world_harmless [OF w1 harmless_participant]) simp
  have "world_inv rt ginv (case persist_session_event_required io now sid (Some pid) ''ready'' JNull (?set w) of
      Ok w' \<Rightarrow> touch_session_activity c io now sid w' | _ \<Rightarrow> ?unset (?set w))"
  proof (cases "persist_session_event_required io now sid (Some pid) ''ready'' JNull (?set w)")
    case (Ok w')
    show ?thesis unfolding Ok outcome.case by (rule touch_inv [OF persist_required_inv(1) [OF w1 Ok]])
  qed (use w2 in simp_all)
  then show ?thesis
    using assms unfolding declare_ready_def Let_def
    by (cases "session_in w sid"; cases "map_of (ls_participants (the (session_in w sid))) pid") simp_all
qed

lemma audio_ready_inv [inv_intros]:
  "world_inv rt ginv w \<Longrightarrow> world_inv rt ginv (mark_participant_audio_ready now sid pid w)"
  unfolding mark_participant_audio_ready_def by (rule world_harmless [OF _ harmless_participant]) simp_all

lemma timer_inv [inv_intros]: "world_inv rt ginv w \<Longrightarrow> world_inv rt ginv (reconnect_timer rt io now sid pid w)"
  by (auto simp: reconnect_timer_def intro: expire_inv split: option.split)

lemma message_inv [inv_intros]:
  "world_inv rt ginv w \<Longrightarrow> world_inv rt ginv (fst (commit_conversation_message c io now sid pid pl n b w))"
  by (auto simp: commit_conversation_message_def intro: touch_inv persist_required_inv(1)
      split: outcome.split option.split if_splits)

lemma cleanup_inv [inv_intros]:
  assumes "world_inv rt ginv w"
  shows "world_inv rt ginv (cleanup_room rt io now sid reason observed w)"
proof -
  have "world_inv rt ginv (case expire_live_session rt io now sid reason w of
      (w1, Ok True) \<Rightarrow> in_memory (remove_session sid) w1 | (w1, r) \<Rightarrow> w1)"
    using expire_inv [OF assms, of io now sid reason]
    by (auto intro: world_remove split: prod.split outcome.split bool.split)
  then show ?thesis
    using assms by (auto simp: cleanup_room_def intro: world_remove split: option.split)
qed

section \<open>Creating and joining\<close>

text \<open>A new durable session leaves the others alone and has an empty log.\<close>

lemma create_row_effect:
  assumes "create_session_row d s now = Ok (d', i)" "sn_lifecycle s = ''forming''" "store_inv d"
  shows "store_inv d'" and "session_kept e j d d'" and "i > 0" and "find_session d (sn_experiment s) i = None"
    and "\<exists>r. find_session d' (sn_experiment s) i = Some r \<and> sr_lifecycle r = ''forming'' \<and>
      sr_public r = sn_public s \<and> sr_purpose r = sn_purpose s"
    and "last_snapshot d' (sn_experiment s) i = None"
proof -
  obtain r where d': "d' = d\<lparr>db_sessions := db_sessions d @ [r]\<rparr>"
    and r: "sr_experiment r = sn_experiment s" "sr_session r = i" "sr_lifecycle r = ''forming''"
      "sr_public r = sn_public s" "sr_purpose r = sn_purpose s"
    using assms(1,2) by (auto simp: create_session_row_def Let_def split: if_splits)
  show "store_inv d'" by (rule create_session_row_inv(1) [OF assms])
  show none: "find_session d (sn_experiment s) i = None"
    using create_session_row_inv(2) [OF assms] find_session_member by (fastforce simp: not_None_eq [symmetric])
  show "session_kept e j d d'"
    by (auto simp: session_kept_def d' find_session_def find_append_rows row_kept_def last_snapshot_def)
  have "find_session d' (sn_experiment s) i = Some r"
    using none r by (simp add: d' find_session_def find_append_rows session_key_def)
  then show "\<exists>r. find_session d' (sn_experiment s) i = Some r \<and> sr_lifecycle r = ''forming'' \<and>
      sr_public r = sn_public s \<and> sr_purpose r = sn_purpose s" using r by blast
  have "events_of d (sn_experiment s) i = []" using assms(3) none by (simp add: store_inv_def)
  then show "last_snapshot d' (sn_experiment s) i = None" by (simp add: d' last_snapshot_def map_filter_def)
  show "i > 0" by (rule create_session_row_inv(3) [OF assms])
qed

lemma roster_ok_snoc:
  assumes "roster_ok c xs" "k \<notin> set (map fst xs)" "r \<notin> set (map (\<lambda>(k, i, r, src). r) xs)"
    and "cfg_mode c = HumanVsAgent \<and> src \<noteq> ''agent'' \<longrightarrow> r = RoleA"
  shows "roster_ok c (xs @ [(k, k, r, src)])"
  using assms by (auto simp: roster_ok_def)

lemma update_fresh: "map_of xs k = None \<Longrightarrow> AList.update k v xs = xs @ [(k, v)]"
  by (induction xs) (auto split: if_splits)

lemma roster_roles: "map (\<lambda>(k, i, r, src). r) (roster s) = map sp_role (participants_of s)"
  by (simp add: roster_def participants_of_def split_beta comp_def)

text \<open>Adding a participant to a forming session.\<close>

lemma join_session_inv:
  assumes inv: "session_inv rt ginv mp d sid s" and forming: "ls_lifecycle s = Forming"
    and fresh: "map_of (ls_participants s) k = None" "sp_id p = k"
    and role: "sp_role p \<notin> set (map sp_role (participants_of s))"
    and mode: "cfg_mode (rt_config rt) = HumanVsAgent \<and> sp_source p \<noteq> ''agent'' \<longrightarrow> sp_role p = RoleA"
    and purpose: "map_of mp k = Some q" "pa_purpose q = ls_purpose s"
  shows "session_inv rt ginv mp d sid (s\<lparr>ls_participants := AList.update k p (ls_participants s)\<rparr>)"
proof -
  let ?s = "s\<lparr>ls_participants := AList.update k p (ls_participants s)\<rparr>"
  have roster: "roster ?s = roster s @ [(k, k, sp_role p, sp_source p)]"
    using fresh by (simp add: roster_def update_fresh)
  have "k \<notin> set (map fst (roster s))"
    using fresh(1) unfolding roster_keys [symmetric] by (simp add: map_of_eq_None_iff)
  then have "roster_ok (rt_config rt) (roster ?s)"
    unfolding roster using inv role mode
    by (intro roster_ok_snoc) (simp_all add: session_inv_def session_wf_def roster_roles)
  moreover have "purposes_ok mp ?s"
    using inv purpose fresh(1) by (auto simp: session_inv_def purposes_ok_def update_fresh)
  moreover have "agrees d s" "snapshot_ok rt d s"
    using inv by (simp_all add: session_inv_def)
  then have "agrees d ?s" "snapshot_ok rt d ?s"
    by (simp_all add: agrees_def snapshot_ok_def)
  ultimately show ?thesis
    using inv forming by (simp add: session_inv_def session_wf_def)
qed

lemma next_role_fresh: "next_role s = Some r \<Longrightarrow> r \<notin> set (map sp_role (participants_of s))"
  by (auto simp: next_role_def Let_def split: if_splits)

lemma add_human_inv:
  assumes w: "world_inv rt ginv w" and s: "session_in w sid = Some s" "ls_lifecycle s = Forming"
    and mode: "cfg_mode (rt_config rt) = HumanVsHuman"
    and add: "add_human_participant (rt_config rt) sid pid now (w_memory w) = Ok (m, role)"
  shows "world_inv rt ginv (w\<lparr>w_memory := m\<rparr>)"
proof -
  obtain p where p: "map_of (mem_participants (w_memory w)) pid = Some p" "ls_purpose s = pa_purpose p"
    using add s(1) by (auto simp: add_human_participant_def split: if_splits)
  show ?thesis
  proof (cases "map_of (ls_participants s) pid")
    case None
    define j where "j = joined_participant (rt_config rt) p pid role now"
    have nxt: "next_role s = Some role"
      and m: "m = (w_memory w)\<lparr>mem_sessions := AList.update sid
         (s\<lparr>ls_participants := AList.update pid j (ls_participants s)\<rparr>) (mem_sessions (w_memory w))\<rparr>"
      using add s(1) p None by (auto simp: add_human_participant_def j_def split: if_splits)
    then have m: "w\<lparr>w_memory := m\<rparr> = in_memory (modify_session sid (\<lambda>s. s\<lparr>ls_participants :=
        AList.update pid j (ls_participants s)\<rparr>)) w"
      using s(1) by (simp add: in_memory_def modify_session_def)
    show ?thesis
      unfolding m
    proof (rule world_modify [OF w])
      fix s' assume "session_in w sid = Some s'"
      then have "s' = s" using s by simp
      then show "session_inv rt ginv (mem_participants (w_memory w)) (w_db w) sid
          (s'\<lparr>ls_participants := AList.update pid j (ls_participants s')\<rparr>)"
        using join_session_inv [OF world_invD [OF w s(1)] s(2) None, of j p] next_role_fresh [OF nxt]
          mode p by (simp add: j_def joined_participant_def)
    qed
  next
    case (Some x)
    then have "m = w_memory w" using add s(1) p by (auto simp: add_human_participant_def split: if_splits)
    then show ?thesis using w by simp
  qed
qed

text \<open>More participants, or changed decisions of one, never disturb a session.\<close>

definition participants_extend ::
    "(string \<times> participant_session) list \<Rightarrow> (string \<times> participant_session) list \<Rightarrow> bool" where
  "participants_extend mp mp' \<longleftrightarrow>
     (\<forall>pid q. map_of mp pid = Some q \<longrightarrow> (\<exists>q'. map_of mp' pid = Some q' \<and> pa_purpose q' = pa_purpose q))"

lemma participants_extend_inv:
  assumes "world_inv rt ginv w" "participants_extend (mem_participants (w_memory w)) mp"
  shows "world_inv rt ginv (w\<lparr>w_memory := (w_memory w)\<lparr>mem_participants := mp\<rparr>\<rparr>)"
proof -
  have "purposes_ok (mem_participants (w_memory w)) s \<Longrightarrow> purposes_ok mp s" for s :: "'b live_session"
    using assms(2) by (fastforce simp: purposes_ok_def participants_extend_def)
  moreover have "get_session ((w_memory w)\<lparr>mem_participants := mp\<rparr>) sid = session_in w sid" for sid
    by (simp add: get_session_def)
  ultimately show ?thesis using assms(1) by (simp add: world_inv_def session_inv_def)
qed

lemma create_participant_extends:
  assumes "create_participant_with_id pid i r src pu now m = (m', p)"
  shows "participants_extend (mem_participants m) (mem_participants m')"
    and "m' = m\<lparr>mem_participants := mem_participants m'\<rparr>"
    and "map_of (mem_participants m') pid = Some p"
    and "map_of (mem_participants m) pid = None \<Longrightarrow> pa_purpose p = pu"
  using assms
  by (auto simp: create_participant_with_id_def Let_def participants_extend_def update_conv split: option.splits)

end
