(* ===== verification/Session_Runtime.thy ===== *)
theory Session_Runtime
  imports Session_Steps
begin

text \<open>
  The hosting runtime as a transition system: any sequence of the handlers, with any arguments and
  any failing store calls, from an empty memory over a consistent database. Its invariant is proved
  for every hosted game that keeps the contract of \<open>Game_Interface\<close>, and the properties follow.
\<close>

section \<open>Creating a session\<close>

definition unused_session :: "'s world \<Rightarrow> int \<Rightarrow> bool" where
  "unused_session w i \<longleftrightarrow> (\<forall>sid s. session_in w sid = Some s \<longrightarrow> ls_session s \<noteq> i)"

lemma unused_of_absent:
  assumes "world_inv rt ginv w" "find_session (w_db w) (rt_experiment rt) i = None"
  shows "unused_session w i"
  unfolding unused_session_def
proof (intro allI impI)
  fix sid s assume "session_in w sid = Some s"
  from world_invD [OF assms(1) this] show "ls_session s \<noteq> i"
    using assms(2) by (auto simp: session_inv_def session_wf_def agrees_def)
qed

lemma fail_initialization_inv:
  assumes w: "world_inv rt ginv w" and unused: "unused_session w i"
    and started: "find_session (w_db w) (rt_experiment rt) i = Some r" "sr_started_at r = None"
  shows "world_inv rt ginv (fail_initialization rt io now i reason w)"
proof -
  have "world_inv rt ginv (w\<lparr>w_db := d\<rparr>)"
    if d: "fail_session_initialization (w_db w) (rt_experiment rt) i reason now = Ok d" for d
  proof (rule world_db_live [OF w])
    have si: "store_inv (w_db w)" using w by (simp add: world_inv_def)
    show "store_inv d" by (rule store_step_inv [OF st_fail [OF d started] si])
    fix sid s assume s: "session_in w sid = Some s"
    have ne: "ls_session s \<noteq> i" using unused s by (auto simp: unused_session_def)
    show "session_kept (ls_experiment s) (ls_session s) (w_db w) d"
      using d ne key_of_found
      by (auto simp: fail_session_initialization_def session_kept_def row_kept_def find_update_sessions
          split: option.splits intro!: last_snapshot_events)
  qed
  then show ?thesis using w by (auto simp: fail_initialization_def durable_def split: outcome.split)
qed

lemma fresh_session_inv:
  assumes "find_session d (rt_experiment rt) i = Some r" "sr_lifecycle r = ''forming''"
    "sr_public r = code" "sr_purpose r = pa_purpose p" "i > 0" "last_snapshot d (rt_experiment rt) i = None"
    "map_of mp pid = Some p" "ginv st"
  shows "session_inv rt ginv mp d code (fresh_session rt code i mode (pa_purpose p) st
           (joined_participant (rt_config rt) p pid RoleA now) tm)"
  using assms
  by (simp add: session_inv_def session_wf_def agrees_def snapshot_ok_def purposes_ok_def fresh_session_def
      roster_def roster_ok_def joined_participant_def)

lemma world_put:
  assumes "world_inv rt ginv w" "session_inv rt ginv (mem_participants (w_memory w)) (w_db w) (ls_id s) s"
  shows "world_inv rt ginv (in_memory (put_session s) w)"
  using assms by (simp add: world_inv_def)

text \<open>A durable session that is forming, empty and not in memory.\<close>

definition fresh_row :: "db \<Rightarrow> string \<Rightarrow> int \<Rightarrow> string \<Rightarrow> string \<Rightarrow> bool" where
  "fresh_row d e i code purpose \<longleftrightarrow>
     i > 0 \<and> last_snapshot d e i = None \<and>
     (\<exists>r. find_session d e i = Some r \<and> sr_lifecycle r = ''forming'' \<and> sr_public r = code \<and>
        sr_purpose r = purpose \<and> sr_started_at r = None)"

lemma complete_effect:
  assumes "complete_session_initialization d e' i = (d', b)" "store_inv d"
  shows "store_inv d'" "session_kept e j d d'"
  using assms store_step_inv [OF st_complete [OF assms(1)] assms(2)]
  by (auto simp: complete_session_initialization_def Let_def row_kept_def intro!: kept_update_sessions)

lemma open_session_inv:
  assumes w: "world_inv rt ginv w"
    and s: "session_inv rt ginv (mem_participants (w_memory w)) (w_db w) (ls_id s) s"
  shows "world_inv rt ginv (fst (open_session rt io s role w))"
proof -
  let ?w1 = "in_memory (put_session s) w"
  let ?w2 = "in_memory (remove_session (ls_id s)) ?w1"
  have w1: "world_inv rt ginv ?w1" by (rule world_put [OF w s])
  have w2: "world_inv rt ginv ?w2" by (rule world_remove [OF w1])
  obtain d b where d: "complete_session_initialization (w_db w) (rt_experiment rt) (ls_session s) = (d, b)"
    by (cases "complete_session_initialization (w_db w) (rt_experiment rt) (ls_session s)")
  have si: "store_inv (w_db w)" using w by (simp add: world_inv_def)
  note eff = complete_effect [OF d si]
  have "world_inv rt ginv (?w1\<lparr>w_db := d\<rparr>)" by (rule world_db [OF w1]) (simp_all add: eff)
  moreover have "world_inv rt ginv (?w2\<lparr>w_db := d\<rparr>)" by (rule world_db [OF w2]) (simp_all add: eff)
  ultimately show ?thesis
    using w2 d by (cases b) (simp_all add: open_session_def Let_def)
qed

lemma initialize_session_inv:
  assumes w: "world_inv rt ginv w" and unused: "unused_session w i"
    and row: "fresh_row (w_db w) (rt_experiment rt) i code (pa_purpose p)"
    and p: "map_of (mem_participants (w_memory w)) pid = Some p"
    and game: "\<And>sd st. g_initial (rt_game rt) (rt_game_config rt) sd (rt_secrets rt) = Ok st \<Longrightarrow> ginv st"
  shows "world_inv rt ginv (fst (initialize_session rt io now code i p pid mode RoleA sd w))"
proof -
  obtain r where r: "find_session (w_db w) (rt_experiment rt) i = Some r" "sr_lifecycle r = ''forming''"
    "sr_public r = code" "sr_purpose r = pa_purpose p" "sr_started_at r = None"
    and i: "i > 0" "last_snapshot (w_db w) (rt_experiment rt) i = None"
    using row by (auto simp: fresh_row_def)
  have failed: "world_inv rt ginv (fail_initialization rt io now i reason w)" for reason
    by (rule fail_initialization_inv [OF w unused r(1,5)])
  have opened: "world_inv rt ginv (fst (open_session rt io (fresh_session rt code i mode (pa_purpose p) st
      (joined_participant (rt_config rt) p pid RoleA now) tm) RoleA w))" if "ginv st" for st tm
    using fresh_session_inv [where ginv = ginv and st = st, OF r(1-4) i p that]
    by (intro open_session_inv [OF w]) (simp add: fresh_session_def)
  show ?thesis
  proof (cases "rt_create rt")
    case (Ok u)
    show ?thesis
    proof (cases "g_initial (rt_game rt) (rt_game_config rt) sd (rt_secrets rt)")
      case init: (Ok st)
      have "world_inv rt ginv (fst (case x of Err e \<Rightarrow> (w, Err e) | Panic \<Rightarrow> (w, Panic)
          | Ok tm \<Rightarrow> open_session rt io (fresh_session rt code i mode (pa_purpose p) st
              (joined_participant (rt_config rt) p pid RoleA now) tm) RoleA w))" for x
        using w opened [OF game [OF init]] by (simp split: outcome.split)
      then show ?thesis unfolding initialize_session_def Ok init outcome.case .
    qed (use Ok failed w in \<open>simp_all add: initialize_session_def\<close>)
  qed (use failed w in \<open>simp_all add: initialize_session_def\<close>)
qed

lemma create_live_inv [inv_intros]:
  assumes w: "world_inv rt ginv w"
    and game: "\<And>sd st. g_initial (rt_game rt) (rt_game_config rt) sd (rt_secrets rt) = Ok st \<Longrightarrow> ginv st"
  shows "world_inv rt ginv (fst (create_live_session rt io now code pid mode RoleA sd w))"
proof (cases "map_of (mem_participants (w_memory w)) pid")
  case (Some p)
  let ?rec = "new_record rt code mode (pa_purpose p)"
  show ?thesis
  proof (cases "durable io CallCreate (create_session_row (w_db w) ?rec now)")
    case (Ok di)
    obtain d i where di: "di = (d, i)" by (cases di)
    have si: "store_inv (w_db w)" using w by (simp add: world_inv_def)
    have row: "create_session_row (w_db w) ?rec now = Ok (d, i)" using Ok di by simp
    have rec: "sn_lifecycle ?rec = ''forming''" "sn_experiment ?rec = rt_experiment rt"
      "sn_public ?rec = code" "sn_purpose ?rec = pa_purpose p" by (simp_all add: new_record_def)
    note eff = create_row_effect [OF row rec(1) si, unfolded rec]
    obtain r where r: "find_session d (rt_experiment rt) i = Some r" "sr_lifecycle r = ''forming''"
      "sr_public r = code" "sr_purpose r = pa_purpose p" using eff(5) by blast
    have started: "sr_started_at r = None" using found_row_ok [OF eff(1) r(1)] r(2) by (simp add: row_ok_def)
    have w1: "world_inv rt ginv (w\<lparr>w_db := d\<rparr>)" by (rule world_db [OF w eff(1,2)])
    have unused: "unused_session (w\<lparr>w_db := x\<rparr>) i" for x
      using unused_of_absent [OF w eff(4)] by (simp add: unused_session_def)
    have failed: "world_inv rt ginv (fail_initialization rt io now i reason (w\<lparr>w_db := d\<rparr>))" for reason
      by (rule fail_initialization_inv [OF w1 unused, of r]) (simp_all add: r(1) started)
    show ?thesis
    proof (cases "durable io CallAppend (append_session_event d (creation_event rt i code sd) now)")
      case app: (Ok di2)
      obtain d2 idx where di2: "di2 = (d2, idx)" by (cases di2)
      have app': "append_session_event d (creation_event rt i code sd) now = Ok (d2, idx)"
        "ev_game_state (creation_event rt i code sd) = None"
        using app di2 by (simp_all add: creation_event_def)
      note aeff = append_effect [OF app'(1) eff(1) app'(2)]
      have w2: "world_inv rt ginv (w\<lparr>w_db := d2\<rparr>)"
        using world_db [OF w1 aeff(1)] aeff(2) by simp
      have "find_session d2 (rt_experiment rt) i = find_session d (rt_experiment rt) i"
        using app'(1) by (auto simp: append_session_event_def Let_def)
      then have "fresh_row d2 (rt_experiment rt) i code (pa_purpose p)"
        using r started eff(3,6) aeff(2) [of "rt_experiment rt" i]
        by (auto simp: fresh_row_def session_kept_def)
      then have "world_inv rt ginv (fst (initialize_session rt io now code i p pid mode RoleA sd (w\<lparr>w_db := d2\<rparr>)))"
        by (intro initialize_session_inv [OF w2 unused _ _ game]) (simp_all add: Some)
      then show ?thesis unfolding create_live_session_def Some option.case Ok di prod.case outcome.case app di2 .
    qed (use Some Ok di failed w1 in \<open>simp_all add: create_live_session_def\<close>)
  qed (use w Some in \<open>simp_all add: create_live_session_def\<close>)
qed (use w in \<open>simp add: create_live_session_def\<close>)

section \<open>Joining\<close>

lemma persist_participant_inv [inv_intros]:
  assumes "world_inv rt ginv w" "persist_session_participant io now sid pid w = Ok w'"
  shows "world_inv rt ginv w'" and "w_memory w' = w_memory w"
proof -
  obtain p d where d: "add_session_participant (w_db w) p now = Ok d" and w': "w' = w\<lparr>w_db := d\<rparr>"
    using assms(2) by (auto simp: persist_session_participant_def)
  have "store_inv (w_db w)" using assms(1) by (simp add: world_inv_def)
  from add_participant_effect [OF d this] show "world_inv rt ginv w'"
    unfolding w' by (intro world_db [OF assms(1)])
  show "w_memory w' = w_memory w" by (simp add: w')
qed

lemma open_session_for_pairing:
  assumes "open_human_session_for_pairing m mode pu = Some sid" "distinct (map fst (mem_sessions m))"
  shows "\<exists>s. get_session m sid = Some s \<and> ls_lifecycle s = Forming \<and> ls_purpose s = pu \<and>
    next_role s = Some RoleB"
proof -
  obtain x where f: "find (\<lambda>(sid, s). ls_lifecycle s = Forming \<and> ls_mode s = mode \<and>
       ls_purpose s = pu \<and> next_role s = Some RoleB \<and>
       list_all (\<lambda>p. sp_source p \<noteq> ''agent'') (participants_of s)) (mem_sessions m) = Some x" "fst x = sid"
    using assms(1) by (auto simp: open_human_session_for_pairing_def)
  obtain s where x: "x = (sid, s)" using f(2) by (cases x) auto
  from f(1) have "x \<in> set (mem_sessions m)" "ls_lifecycle s = Forming" "ls_purpose s = pu" "next_role s = Some RoleB"
    by (auto simp: find_Some_iff x in_set_conv_nth)
  then show ?thesis using assms(2) by (auto simp: get_session_def x)
qed

lemma pair_or_create_inv [inv_intros]:
  assumes w: "world_inv rt ginv w"
    and game: "\<And>sd st. g_initial (rt_game rt) (rt_game_config rt) sd (rt_secrets rt) = Ok st \<Longrightarrow> ginv st"
  shows "world_inv rt ginv (fst (pair_or_create rt io now code pid sd w))"
proof -
  let ?create = "create_live_session rt io now code pid ''direct'' RoleA sd w"
  have create: "world_inv rt ginv (fst ?create)" by (rule create_live_inv [OF w game])
  have paired: "world_inv rt ginv (w\<lparr>w_memory := m\<rparr>)"
    if "cfg_mode (rt_config rt) = HumanVsHuman" "open_human_session_for_pairing (w_memory w) mode pu = Some sid"
      "add_human_participant (rt_config rt) sid pid now (w_memory w) = Ok (m, role)" for m role sid mode pu
  proof -
    have "distinct (map fst (mem_sessions (w_memory w)))" using w by (simp add: world_inv_def)
    from open_session_for_pairing [OF that(2) this] obtain s where
      "session_in w sid = Some s" "ls_lifecycle s = Forming" by blast
    from add_human_inv [OF w this that(1,3)] show ?thesis .
  qed
  show ?thesis
    using w create paired
    by (auto simp: pair_or_create_def Let_def split: option.split outcome.split prod.split)
qed

lemma joined_inv:
  assumes "world_inv rt ginv w1"
  shows "world_inv rt ginv (fst (case persist_session_participant io now sid pid w1 of
        Err e \<Rightarrow> (w1, Err e)
      | Panic \<Rightarrow> (w1, Panic)
      | Ok w2 \<Rightarrow>
          let w3 = persist_session_event io now sid (Some pid) ty payload w2
          in (w3, participant_state_response rt (w_memory w3) sid role)))"
  using assms persist_participant_inv(1) [OF assms, of io now sid pid]
  by (auto simp: Let_def intro: persist_event_inv split: outcome.split)

lemma create_session_inv [inv_intros]:
  assumes w: "world_inv rt ginv w"
    and game: "\<And>sd st. g_initial (rt_game rt) (rt_game_config rt) sd (rt_secrets rt) = Ok st \<Longrightarrow> ginv st"
  shows "world_inv rt ginv (fst (create_session rt io now code pid sd available prepared l w))"
proof -
  let ?pc = "pair_or_create rt io now code pid sd w"
  have pc: "world_inv rt ginv (fst ?pc)"
    by (rule pair_or_create_inv [OF w]) (rule game)
  show ?thesis
  proof (cases "membership (w_memory w) pid = None \<and> \<not> io CallTerminal \<and>
      terminal_participant_state (w_db w) (rt_experiment rt) pid = None")
    case True
    obtain w1 r where x: "?pc = (w1, r)" by (cases ?pc)
    then have w1: "world_inv rt ginv w1" using pc by simp
    show ?thesis
      unfolding create_session_def x using True w
      by (cases r) (simp_all add: w1 joined_inv [OF w1] split: outcome.split prod.split)
  qed (use w in \<open>auto simp: create_session_def split: option.split\<close>)
qed

text \<open>The agent's participant session is new, and its role is free when no agent is there yet.\<close>

definition agent_free :: "'s live_session \<Rightarrow> bool" where
  "agent_free s \<longleftrightarrow> list_all (\<lambda>p. sp_source p \<noteq> ''agent'') (participants_of s)"

lemma agent_role_free:
  assumes "session_wf rt s" "cfg_mode (rt_config rt) = HumanVsAgent" "agent_free s"
  shows "RoleB \<notin> set (map sp_role (participants_of s))"
proof
  assume "RoleB \<in> set (map sp_role (participants_of s))"
  then obtain k p where p: "(k, p) \<in> set (ls_participants s)" "sp_role p = RoleB"
    by (force simp: participants_of_def)
  then have "(k, sp_id p, RoleB, sp_source p) \<in> set (roster s)" "sp_source p \<noteq> ''agent''"
    using assms(3) by (force simp: roster_def agent_free_def list_all_iff participants_of_def)+
  then show False using assms(1,2) by (fastforce simp: session_wf_def roster_ok_def)
qed

lemma delete_snoc: "map_of xs k = None \<Longrightarrow> AList.delete k (xs @ [(k, v)]) = xs"
  by (induction xs) (auto split: if_splits)

lemma join_agent_inv:
  assumes w: "world_inv rt ginv w" and mode: "cfg_mode (rt_config rt) = HumanVsAgent"
    and p: "map_of (mem_participants (w_memory w)) aid = Some p"
    and s: "\<And>s. session_in w sid = Some s \<Longrightarrow>
      agent_free s \<and> map_of (ls_participants s) aid = None \<and> pa_purpose p = ls_purpose s"
  shows "world_inv rt ginv (fst (join_agent io now sid aid metadata w))"
proof (cases "session_in w sid")
  case (Some x)
  show ?thesis
  proof (cases "ls_lifecycle x = Forming")
    case True
    let ?add = "\<lambda>s. s\<lparr>ls_participants := AList.update aid (agent_participant p aid now) (ls_participants s)\<rparr>"
    let ?w1 = "in_memory (modify_session sid ?add) w"
    have inv: "session_inv rt ginv (mem_participants (w_memory w)) (w_db w) sid x"
      by (rule world_invD [OF w Some])
    then have role: "RoleB \<notin> set (map sp_role (participants_of x))"
      using agent_role_free mode s [OF Some] by (auto simp: session_inv_def)
    have "session_inv rt ginv (mem_participants (w_memory w)) (w_db w) sid (?add x)"
      by (rule join_session_inv [OF inv True _ _ _ _ p])
        (use s [OF Some] role in \<open>simp_all add: agent_participant_def\<close>)
    then have w1: "world_inv rt ginv ?w1" using Some by (intro world_modify [OF w]) simp
    let ?del = "\<lambda>s. s\<lparr>ls_participants := AList.delete aid (ls_participants s)\<rparr>"
    have "?del (?add x) = x"
      using s [OF Some] by (simp add: update_fresh delete_snoc)
    then have w2: "world_inv rt ginv (in_memory (modify_session sid ?del) ?w1)"
      using Some inv by (intro world_modify [OF w1]) auto
    show ?thesis
      using p Some True w1 w2
      by (auto simp: join_agent_def Let_def intro: persist_event_inv persist_participant_inv(1) [OF w1]
          split: outcome.split)
  qed (use w p Some in \<open>simp add: join_agent_def\<close>)
qed (use w p in \<open>simp add: join_agent_def\<close>)

lemma construct_and_join_inv [inv_intros]:
  assumes w: "world_inv rt ginv w" and mode: "cfg_mode (rt_config rt) = HumanVsAgent"
    and new: "map_of (mem_participants (w_memory w)) aid = None"
    and free: "\<And>s. session_in w sid = Some s \<Longrightarrow> agent_free s"
  shows "world_inv rt ginv (construct_and_join_agent rt io now sid aid participant research metadata built w)"
proof -
  let ?join = "try_construct_and_join_agent io now sid aid participant research metadata built w"
  have "world_inv rt ginv (fst ?join)"
  proof (cases "session_in w sid")
    case (Some s)
    obtain m p where m: "create_participant_with_id aid participant research ''agent'' (ls_purpose s) now (w_memory w) = (m, p)"
      by (cases "create_participant_with_id aid participant research ''agent'' (ls_purpose s) now (w_memory w)")
    note eff = create_participant_extends [OF m]
    have w1: "world_inv rt ginv (w\<lparr>w_memory := m\<rparr>)"
      using participants_extend_inv [OF w eff(1)] eff(2) by simp
    have same: "get_session m x = session_in w x" for x
      using eff(2) by (metis get_session_def memory.select_convs(2) memory.surjective memory.update_convs(1))
    have inv: "session_inv rt ginv (mem_participants (w_memory w)) (w_db w) sid s"
      by (rule world_invD [OF w Some])
    have "map_of (ls_participants s) aid = None"
    proof (rule ccontr)
      assume "\<not> ?thesis"
      then have "aid \<in> set (map fst (ls_participants s))" by (auto simp: map_of_eq_None_iff simp del: not_None_eq)
      then show False using inv new by (auto simp: session_inv_def purposes_ok_def)
    qed
    then have "world_inv rt ginv (fst (join_agent io now sid aid metadata (w\<lparr>w_memory := m\<rparr>)))"
      using Some free eff(3,4) new by (intro join_agent_inv [OF w1 mode]) (simp_all add: same)
    then show ?thesis using Some m w w1 by (simp add: try_construct_and_join_agent_def Let_def)
  qed (use w in \<open>simp add: try_construct_and_join_agent_def\<close>)
  then show ?thesis
    unfolding construct_and_join_agent_def
    by (cases ?join; cases "snd ?join") (auto intro: expire_inv shutdown_log_inv)
qed

lemma create_participant_inv:
  assumes w: "world_inv rt ginv (it_world st)"
  shows "world_inv rt ginv (it_world (fst (create_participant c e io now client q research psid st)))"
proof -
  have "world_inv rt ginv (it_world st')"
    if adm: "admit_participant c e io now client q research psid x = Ok (st', p)" "it_world x = it_world st" for x st' p
  proof -
    obtain a b d h where made: "it_world st' = (it_world st)\<lparr>w_memory := fst (create_participant_with_id a b d h
        (data_purpose (it_lifecycle x)) now (w_memory (it_world st)))\<rparr>"
      using adm by (auto simp: admit_participant_def Let_def split_beta split: if_splits option.splits)
    obtain m p where m: "create_participant_with_id a b d h (data_purpose (it_lifecycle x)) now
        (w_memory (it_world st)) = (m, p)" by fastforce
    from participants_extend_inv [OF w create_participant_extends(1) [OF m]]
    show ?thesis using create_participant_extends(2) [OF m] made m by simp
  qed
  then show ?thesis
    using w by (auto simp: create_participant_def split: outcome.split prod.split bool.split)
qed

lemma harmless_if: "harmless f \<Longrightarrow> harmless (\<lambda>s. if P s then s else f s)"
  by (simp add: harmless_def)

lemma map_of_map_snd: "map_of (map (\<lambda>(k, v). (k, f v)) xs) k = map_option f (map_of xs k)"
  by (induction xs) auto

lemma world_map:
  assumes w: "world_inv rt ginv (w\<lparr>w_memory := (w_memory w)\<lparr>mem_participants := mem_participants m\<rparr>\<rparr>)"
    and f: "harmless f" and "distinct (map fst (mem_sessions m))"
    and get: "\<And>sid. get_session m sid = map_option f (session_in w sid)"
  shows "world_inv rt ginv (w\<lparr>w_memory := m\<rparr>)"
proof -
  have "session_inv rt ginv (mem_participants m) (w_db w) sid (f s)" if "session_in w sid = Some s" for sid s
    using harmless_inv [OF f world_invD [OF w, of sid s]] that by (simp add: get_session_def)
  then show ?thesis using w assms(3) by (auto simp: world_inv_def get)
qed

lemma consent_inv:
  assumes w: "world_inv rt ginv w"
    and consent: "consent c io now pid session ds (w_memory w) = Ok (m, changed)"
  shows "world_inv rt ginv (w\<lparr>w_memory := m\<rparr>)"
proof (cases "changed = []")
  case True
  then have "m = w_memory w"
    using consent by (auto simp: consent_def Let_def split: if_splits)
  then show ?thesis using w by simp
next
  case False
  let ?upd = "\<lambda>s. if (\<exists>x \<in> set_option session. x \<noteq> ls_id s) then s
      else modify_participant pid (\<lambda>q. q\<lparr>sp_consents := extend_decisions changed (sp_consents q),
                                        sp_updated_at := now\<rparr>) s"
  obtain p where p: "map_of (mem_participants (w_memory w)) pid = Some p"
    and m: "m = (w_memory w)\<lparr>mem_participants := AList.update pid
        (p\<lparr>pa_consents := extend_decisions changed (pa_consents p), pa_updated_at := now\<rparr>)
        (mem_participants (w_memory w)),
      mem_sessions := map (\<lambda>(k, s). (k, ?upd s)) (mem_sessions (w_memory w))\<rparr>"
    using consent False by (auto simp: consent_def Let_def split: if_splits)
  have "participants_extend (mem_participants (w_memory w)) (mem_participants m)"
    using p by (auto simp: m participants_extend_def update_conv)
  from participants_extend_inv [OF w this]
  have w1: "world_inv rt ginv (w\<lparr>w_memory := (w_memory w)\<lparr>mem_participants := mem_participants m\<rparr>\<rparr>)" .
  have h: "harmless ?upd"
    by (rule harmless_if [OF harmless_participant]) simp
  have get: "get_session m sid = map_option ?upd (session_in w sid)" for sid
    by (simp add: m get_session_def map_of_map_snd)
  have "distinct (map fst (mem_sessions (w_memory w)))" using w by (simp add: world_inv_def)
  then have "distinct (map fst (mem_sessions m))" by (simp add: m split_beta comp_def)
  from world_map [OF w1 h this get] show ?thesis .
qed

end
