(* ===== verification/Session_Machine.thy ===== *)
theory Session_Machine
  imports Session_Runtime
begin

text \<open>
  The running server as a transition system: any sequence of requests, timers and cleanups, each
  handled as one step with any clock value and any failing store calls, from an empty memory over a
  consistent database. In the code a transition lock of the session keeps actions, readiness, the start and
  the joining of an agent apart; expiry, leaving, connections and messages do not take it and await
  store calls too. The machine does not have the executions in which such a handler runs between the phases
  of another one (\<open>Session_Concurrency\<close> has some). The invariant of \<open>Session_Invariant\<close> holds in every reachable state, for
  every hosted game that keeps the contract of \<open>Game_Interface\<close>.
\<close>

section \<open>Requests\<close>

datatype 'a request =
    NewParticipant "prolific_client option" "prolific_request option" string string
  | GiveConsent string "string option" "(string \<times> bool) list"
  | SetStatus status_check bool string
  | NewSession string string seed "nat option" "(app_error, unit) outcome"
  | AgentJoins string string int string json bool
  | Connects string string
  | Disconnects string string
  | TimerFires string string
  | DeclaresReady string string
  | AudioReady string string
  | Acts bool string string player_role 'a
  | Leaves string string string
  | Says string string json nat nat
  | CleansUp string string int

definition on_world :: "('s world \<Rightarrow> 's world) \<Rightarrow> 's intake \<Rightarrow> 's intake" where
  "on_world f st = st\<lparr>it_world := f (it_world st)\<rparr>"

definition give_consent ::
    "experiment_config \<Rightarrow> faults \<Rightarrow> int \<Rightarrow> string \<Rightarrow> string option \<Rightarrow> (string \<times> bool) list \<Rightarrow> 's world \<Rightarrow> 's world" where
  "give_consent c io now pid session ds w =
     (case consent c io now pid session ds (w_memory w) of Ok (m, changed) \<Rightarrow> w\<lparr>w_memory := m\<rparr> | _ \<Rightarrow> w)"

definition set_status :: "status_check \<Rightarrow> bool \<Rightarrow> string \<Rightarrow> 's intake \<Rightarrow> 's intake" where
  "set_status chk fails req st =
     (case update_experiment_status chk fails req (it_lifecycle st, experiment_lifecycle_str (it_lifecycle st)) of
        Ok ((l, col), url) \<Rightarrow> st\<lparr>it_lifecycle := l\<rparr> | _ \<Rightarrow> st)"

fun handle ::
    "('cfg, 's, 'a, 'obs, 'c) runtime \<Rightarrow> faults \<Rightarrow> int \<Rightarrow> 'a request \<Rightarrow> 's intake \<Rightarrow> 's intake" where
  "handle rt io now (NewParticipant client q research psid) st =
     fst (create_participant (rt_config rt) (rt_experiment rt) io now client q research psid st)"
| "handle rt io now (GiveConsent pid session ds) st =
     on_world (give_consent (rt_config rt) io now pid session ds) st"
| "handle rt io now (SetStatus chk fails req) st = set_status chk fails req st"
| "handle rt io now (NewSession code pid sd available prepared) st =
     on_world (\<lambda>w. fst (create_session rt io now code pid sd available prepared (it_lifecycle st) w)) st"
| "handle rt io now (AgentJoins sid aid participant research metadata built) st =
     on_world (construct_and_join_agent rt io now sid aid participant research metadata built) st"
| "handle rt io now (Connects sid pid) st = on_world (connect_participant (rt_config rt) io now sid pid) st"
| "handle rt io now (Disconnects sid pid) st = on_world (disconnect_participant rt io now sid pid) st"
| "handle rt io now (TimerFires sid pid) st = on_world (reconnect_timer rt io now sid pid) st"
| "handle rt io now (DeclaresReady sid pid) st = on_world (declare_ready (rt_config rt) io now sid pid) st"
| "handle rt io now (AudioReady sid pid) st = on_world (mark_participant_audio_ready now sid pid) st"
| "handle rt io now (Acts pair sid pid role a) st =
     on_world (\<lambda>w. fst (submit_action rt io now pair sid pid role a w)) st"
| "handle rt io now (Leaves sid pid reason) st =
     on_world (\<lambda>w. fst (abandon_session rt io now sid pid reason w)) st"
| "handle rt io now (Says sid pid payload chars bytes) st =
     on_world (\<lambda>w. fst (commit_conversation_message (rt_config rt) io now sid pid payload chars bytes w)) st"
| "handle rt io now (CleansUp sid reason observed) st =
     on_world (cleanup_room rt io now sid reason observed) st"

text \<open>The code never issues the other requests: a session code and an agent's identifier are drawn
  until new, and the joining task runs once for a session created for an agent.\<close>

fun permitted :: "experiment_config \<Rightarrow> 'a request \<Rightarrow> 's intake \<Rightarrow> bool" where
  "permitted c (NewSession code pid sd available prepared) st \<longleftrightarrow> session_in (it_world st) code = None"
| "permitted c (AgentJoins sid aid participant research metadata built) st \<longleftrightarrow>
     cfg_mode c = HumanVsAgent \<and> map_of (mem_participants (w_memory (it_world st))) aid = None \<and>
     (case session_in (it_world st) sid of None \<Rightarrow> True | Some s \<Rightarrow> agent_free s)"
| "permitted c r st \<longleftrightarrow> True"

definition started :: "db \<Rightarrow> identities \<Rightarrow> creation_rate \<Rightarrow> experiment_lifecycle \<Rightarrow> 's intake" where
  "started d ids r l =
     \<lparr>it_world = \<lparr>w_memory = \<lparr>mem_participants = [], mem_sessions = []\<rparr>, w_db = d\<rparr>,
      it_identities = ids, it_rate = r, it_lifecycle = l\<rparr>"

text \<open>The states a server can be in after it started with the database \<open>d\<close>.\<close>

inductive serves :: "('cfg, 's, 'a, 'obs, 'c) runtime \<Rightarrow> db \<Rightarrow> 's intake \<Rightarrow> bool" for rt d where
  serves_start: "serves rt d (started d ids r l)"
| serves_request: "serves rt d st \<Longrightarrow> permitted (rt_config rt) q st \<Longrightarrow> serves rt d (handle rt io now q st)"

inductive_cases serves_cases: "serves rt d st"

section \<open>The invariant\<close>

lemma started_inv: "store_inv d \<Longrightarrow> world_inv rt ginv (it_world (started d ids r l))"
  by (simp add: started_def world_inv_def get_session_def)

lemma handle_inv:
  assumes w: "world_inv rt ginv (it_world st)" and p: "permitted (rt_config rt) q st"
    and init: "\<And>sd st. g_initial (rt_game rt) (rt_game_config rt) sd (rt_secrets rt) = Ok st \<Longrightarrow> ginv st"
    and game: "\<And>s a r s'. ginv s \<Longrightarrow> g_apply (rt_game rt) s a r = Ok s' \<Longrightarrow> ginv s'"
  shows "world_inv rt ginv (it_world (handle rt io now q st))"
proof (cases q)
  case (GiveConsent pid session ds)
  then show ?thesis
    using w consent_inv [OF w]
    by (auto simp: on_world_def give_consent_def split: outcome.split)
next
  case (AgentJoins sid aid participant research metadata built)
  then show ?thesis
    using p by (auto simp: on_world_def intro!: construct_and_join_inv [OF w] split: option.splits)
next
  case (NewParticipant client r research psid)
  then show ?thesis by (simp add: create_participant_inv w)
next
  case (NewSession code pid sd available prepared)
  then show ?thesis using create_session_inv [OF w init] by (simp add: on_world_def)
next
  case (Acts pair sid pid role a)
  then show ?thesis using submit_inv [OF w game] by (simp add: on_world_def)
qed (use w in \<open>auto simp: on_world_def set_status_def
      intro: connect_inv disconnect_inv timer_inv ready_inv audio_ready_inv abandon_inv message_inv cleanup_inv
      split: outcome.split\<close>)

lemma serves_inv:
  assumes "serves rt d st" "store_inv d"
    and "\<And>sd st. g_initial (rt_game rt) (rt_game_config rt) sd (rt_secrets rt) = Ok st \<Longrightarrow> ginv st"
    and "\<And>s a r s'. ginv s \<Longrightarrow> g_apply (rt_game rt) s a r = Ok s' \<Longrightarrow> ginv s'"
  shows "world_inv rt ginv (it_world st)"
  using assms(1)
proof induction
  case (serves_start ids r l)
  show ?case by (rule started_inv [OF assms(2)])
next
  case (serves_request st q io now)
  show ?case by (rule handle_inv [OF serves_request.IH serves_request.hyps(2) assms(3,4)])
qed

text \<open>Every hosted game keeps its own invariant in every session.\<close>

context game_rules
begin

lemma hosted:
  assumes "serves rt d st" "store_inv d" "rt_game rt = G" "session_in (it_world st) sid = Some s"
    and "\<And>sd x. g_initial G (rt_game_config rt) sd (rt_secrets rt) = Ok x \<Longrightarrow> inv x"
  shows "inv (ls_state s)"
proof -
  have "world_inv rt inv (it_world st)"
    by (rule serves_inv [OF assms(1,2)]) (use assms(3,5) apply_inv in auto)
  then show ?thesis using world_invD [OF _ assms(4)] by (auto simp: session_inv_def)
qed

text \<open>An action handled in a session never stops the server.\<close>

lemma hosted_no_panic:
  assumes "serves rt d st" "store_inv d" "rt_game rt = G" "session_in (it_world st) sid = Some s"
    and "\<And>sd x. g_initial G (rt_game_config rt) sd (rt_secrets rt) = Ok x \<Longrightarrow> inv x"
  shows "decide_action rt s role a \<noteq> Panic"
  using apply_no_panic [OF hosted [OF assms]] assms(3) by (simp add: decide_action_def)

end

end
