(* ===== verification/Session_Durability.thy ===== *)
theory Session_Durability
  imports Session_Machine
begin

text \<open>
  Whatever the server does to the database is a sequence of the store's transactions, so the
  contract of \<open>Store_Contract\<close> holds along every run of the server: a terminal value is written
  once, and the log of a session only grows.
\<close>

section \<open>The transactions of each handler\<close>

abbreviation writes :: "'s world \<Rightarrow> 's world \<Rightarrow> bool" where
  "writes w w' \<equiv> st.steps (w_db w) (w_db w')"

lemma writes_same: "w_db w' = w_db w \<Longrightarrow> writes w w'"
  by (simp add: st.steps_refl)

lemma one_step: "store_step now d d' \<Longrightarrow> st.steps d d'"
  by (rule st.steps_step [OF st.steps_refl])

lemma steps_then: "st.steps d' d'' \<Longrightarrow> st.steps d d' \<Longrightarrow> st.steps d d''"
  by (induction rule: st.steps.induct) (auto intro: st.steps_step)

lemma writes_persist_required:
  assumes "persist_session_event_required io now sid pid ty payload w = Ok w'"
  shows "writes w w'"
  using assms by (clarsimp simp: persist_session_event_required_def) (erule one_step [OF st_append])

lemma writes_persist: "writes w (persist_session_event io now sid pid ty payload w)"
  using writes_persist_required
  by (auto simp: persist_session_event_def st.steps_refl split: outcome.split)

lemma writes_touch: "writes w (touch_session_activity c io now sid w)"
  by (auto simp: touch_session_activity_def Let_def st.steps_refl in_memory_def in_db_def
      intro: one_step st_touch split: option.split)

lemma shutdown_db [simp]: "w_db (shutdown_session_log sid w) = w_db w"
  by (simp add: shutdown_session_log_def in_memory_def)

lemma writes_start: "writes w (maybe_start_game c io now sid w)"
  by (auto simp: maybe_start_game_def Let_def st.steps_refl in_memory_def
      intro: one_step st_start split: option.split prod.split)

lemma writes_expire: "writes w (fst (expire_live_session rt io now sid reason w))"
  by (auto simp: expire_live_session_def st.steps_refl in_memory_def Let_def
      intro: one_step st_end split: outcome.split option.split if_splits)

lemma writes_abandon: "writes w (fst (abandon_session rt io now sid pid reason w))"
  by (auto simp: abandon_session_def st.steps_refl in_memory_def Let_def
      intro: one_step st_end split: outcome.split option.split if_splits)

lemma writes_touch_after:
  "st.steps d0 d \<Longrightarrow> st.steps d0 (w_db (touch_session_activity c io now sid (w\<lparr>w_db := d, w_memory := m\<rparr>)))"
  using steps_then [OF writes_touch [of "w\<lparr>w_db := d, w_memory := m\<rparr>"]] by simp

lemma writes_submit: "writes w (fst (submit_action rt io now pair sid pid role a w))"
  by (auto simp: submit_action_def st.steps_refl in_memory_def Let_def
      intro!: writes_touch_after intro: one_step st_commit split: outcome.split option.split if_splits)

lemma writes_connection:
  "writes w (if io CallConnection then in_memory f w
     else in_db (\<lambda>d. update_participant_connection d pid st l dl) (in_memory f w))"
  by (auto simp: in_memory_def in_db_def st.steps_refl intro: one_step st_connection)

lemma writes_connect: "writes w (connect_participant c io now sid pid w)"
proof -
  let ?w2 = "if io CallConnection then in_memory (modify_session sid (connect_in_session now pid)) w
     else in_db (\<lambda>d. update_participant_connection d pid ''connected'' None None)
       (in_memory (modify_session sid (connect_in_session now pid)) w)"
  have "writes w (persist_session_event io now sid (Some pid) ''participant_connected'' JNull ?w2)"
    by (rule steps_then [OF writes_persist writes_connection])
  then show ?thesis
    using steps_then [OF writes_start] unfolding connect_participant_def Let_def
    by (auto split: option.split)
qed

lemma writes_disconnect: "writes w (disconnect_participant rt io now sid pid w)"
proof -
  let ?dl = "now + 1000 * grace_seconds (rt_config rt)"
  let ?w1 = "in_memory (modify_session sid (disconnect_in_session now ?dl pid)) w"
  let ?w2 = "if io CallConnection then ?w1
     else in_db (\<lambda>d. update_participant_connection d pid ''disconnected'' (Some now) (Some ?dl)) ?w1"
  have "writes w (persist_session_event io now sid (Some pid) ''participant_disconnected'' JNull ?w2)"
    by (rule steps_then [OF writes_persist writes_connection])
  then show ?thesis
    using steps_then [OF writes_abandon] unfolding disconnect_participant_def Let_def
    by (auto simp: in_memory_def)
qed

lemma writes_ready: "writes w (declare_ready c io now sid pid w)"
proof -
  let ?set = "in_memory (modify_session sid (modify_participant pid (\<lambda>p. p\<lparr>sp_ready := True, sp_updated_at := now\<rparr>))) w"
  have "writes w (touch_session_activity c io now sid w')"
    if p: "persist_session_event_required io now sid (Some pid) ''ready'' JNull ?set = Ok w'" for w'
    using steps_then [OF writes_touch writes_persist_required [OF p]] by (simp add: in_memory_def)
  then show ?thesis
    unfolding declare_ready_def Let_def
    by (auto simp: st.steps_refl in_memory_def split: option.split outcome.split)
qed

lemma writes_message: "writes w (fst (commit_conversation_message c io now sid pid pl n b w))"
  by (auto simp: commit_conversation_message_def st.steps_refl
      intro: steps_then [OF writes_touch writes_persist_required] split: outcome.split option.split if_splits)

lemma writes_timer: "writes w (reconnect_timer rt io now sid pid w)"
  using writes_expire by (auto simp: reconnect_timer_def st.steps_refl split: option.split)

lemma writes_cleanup: "writes w (cleanup_room rt io now sid reason observed w)"
  using writes_expire [of w rt io now sid reason]
  by (auto simp: cleanup_room_def st.steps_refl in_memory_def
      split: option.split prod.split outcome.split bool.split)

section \<open>Creation and joining\<close>

lemma writes_fail_init:
  assumes "find_session (w_db w) (rt_experiment rt) i = Some r" "sr_started_at r = None"
  shows "writes w (fail_initialization rt io now i reason w)"
  using assms by (auto simp: fail_initialization_def st.steps_refl intro: one_step st_fail split: outcome.split)

lemma writes_open: "writes w (fst (open_session rt io s role w))"
  by (auto simp: open_session_def Let_def in_memory_def st.steps_refl
      intro: one_step st_complete split: prod.split bool.split)

lemma writes_initialize:
  assumes "find_session (w_db w) (rt_experiment rt) i = Some r" "sr_started_at r = None"
  shows "writes w (fst (initialize_session rt io now code i p pid mode role sd w))"
  using writes_fail_init [OF assms] writes_open [of w]
  by (auto simp: initialize_session_def st.steps_refl split: outcome.split)

lemma writes_create:
  assumes si: "store_inv (w_db w)"
  shows "writes w (fst (create_live_session rt io now code pid mode role sd w))"
proof (cases "map_of (mem_participants (w_memory w)) pid")
  case (Some p)
  let ?rec = "new_record rt code mode (pa_purpose p)"
  show ?thesis
  proof (cases "durable io CallCreate (create_session_row (w_db w) ?rec now)")
    case (Ok di)
    obtain d i where di: "di = (d, i)" by (cases di)
    then have row: "create_session_row (w_db w) ?rec now = Ok (d, i)" using Ok by simp
    have rec: "sn_lifecycle ?rec = ''forming''" "sn_experiment ?rec = rt_experiment rt"
      by (simp_all add: new_record_def)
    note eff = create_row_effect [OF row rec(1) si, unfolded rec]
    obtain r where r: "find_session d (rt_experiment rt) i = Some r" "sr_lifecycle r = ''forming''"
      using eff(5) by blast
    have started: "sr_started_at r = None" using found_row_ok [OF eff(1) r(1)] r(2) by (simp add: row_ok_def)
    have w1: "writes w (w\<lparr>w_db := d\<rparr>)" using one_step [OF st_create [OF row rec(1)]] by simp
    show ?thesis
    proof (cases "durable io CallAppend (append_session_event d (creation_event rt i code sd) now)")
      case app: (Ok di2)
      obtain d2 idx where di2: "di2 = (d2, idx)" by (cases di2)
      then have app': "append_session_event d (creation_event rt i code sd) now = Ok (d2, idx)"
        using app by simp
      have "find_session d2 (rt_experiment rt) i = Some r"
        using app' r(1) by (auto simp: append_session_event_def Let_def)
      then have "writes (w\<lparr>w_db := d2\<rparr>) (fst (initialize_session rt io now code i p pid mode role sd (w\<lparr>w_db := d2\<rparr>)))"
        by (intro writes_initialize [where r = r]) (simp_all add: started)
      then have "writes w (fst (initialize_session rt io now code i p pid mode role sd (w\<lparr>w_db := d2\<rparr>)))"
        by (rule steps_then) (use st.steps_step [OF one_step [OF st_create [OF row rec(1)]] st_append [OF app']] in simp)
      then show ?thesis unfolding create_live_session_def Some option.case Ok di prod.case outcome.case app di2 .
    next
      case (Err e)
      have "writes (w\<lparr>w_db := d\<rparr>) (fail_initialization rt io now i ''session_event_persistence_failed'' (w\<lparr>w_db := d\<rparr>))"
        by (rule writes_fail_init [where r = r]) (simp_all add: r(1) started)
      from steps_then [OF this w1] show ?thesis
        unfolding create_live_session_def Some option.case Ok di prod.case outcome.case Err fst_conv .
    next
      case Panic
      show ?thesis
        unfolding create_live_session_def Some option.case Ok di prod.case outcome.case Panic fst_conv by (rule w1)
    qed
  qed (use Some in \<open>simp_all add: create_live_session_def st.steps_refl\<close>)
qed (simp add: create_live_session_def st.steps_refl)

lemma writes_persist_participant:
  "persist_session_participant io now sid pid w = Ok w' \<Longrightarrow> writes w w'"
  by (clarsimp simp: persist_session_participant_def) (erule one_step [OF st_add])

lemma writes_pair_or_create:
  assumes "store_inv (w_db w)"
  shows "writes w (fst (pair_or_create rt io now code pid sd w))"
  using writes_create [OF assms, of rt io now code pid "''direct''" RoleA sd]
  by (auto simp: pair_or_create_def Let_def st.steps_refl split: option.split outcome.split prod.split)

lemma writes_create_session:
  assumes "store_inv (w_db w)"
  shows "writes w (fst (create_session rt io now code pid sd available prepared l w))"
proof -
  obtain w1 r where x: "pair_or_create rt io now code pid sd w = (w1, r)"
    by (cases "pair_or_create rt io now code pid sd w")
  have w1: "writes w w1" using writes_pair_or_create [OF assms, of rt io now code pid sd] x by simp
  have w2: "writes w (persist_session_event io now sid (Some pid) ty pl w2)"
    if p: "persist_session_participant io now sid pid w1 = Ok w2" for w2 sid ty pl
    by (rule steps_then [OF steps_then [OF writes_persist writes_persist_participant [OF p]] w1])
  show ?thesis
    unfolding create_session_def x
    by (auto simp: Let_def st.steps_refl w1 w2 split: option.split outcome.split prod.split)
qed

lemma writes_join: "writes w (fst (join_agent io now sid aid metadata w))"
proof -
  have "writes w (persist_session_event io now sid (Some aid) ty pl w2)"
    if p: "persist_session_participant io now sid aid (in_memory f w) = Ok w2" for w2 ty pl f
    using steps_then [OF writes_persist writes_persist_participant [OF p]] by (simp add: in_memory_def)
  then show ?thesis
    by (auto simp: join_agent_def Let_def st.steps_refl in_memory_def split: option.split outcome.split)
qed

lemma writes_try_join:
  "writes w (fst (try_construct_and_join_agent io now sid aid participant research metadata built w))"
proof -
  have "st.steps (w_db w) (w_db (fst (join_agent io now sid aid metadata (w\<lparr>w_memory := m\<rparr>))))" for m
    using writes_join [of "w\<lparr>w_memory := m\<rparr>"] by simp
  then show ?thesis
    by (auto simp: try_construct_and_join_agent_def Let_def st.steps_refl split: option.split prod.split)
qed

lemma writes_agent_task:
  "writes w (construct_and_join_agent rt io now sid aid participant research metadata built w)"
proof (cases "try_construct_and_join_agent io now sid aid participant research metadata built w")
  case (Pair w1 r)
  then have "writes w w1" using writes_try_join [of w io now sid aid participant research metadata built] by simp
  then show ?thesis
    using steps_then [OF writes_expire] by (cases r) (simp_all add: construct_and_join_agent_def Pair)
qed

lemma create_participant_db:
  "w_db (it_world (fst (create_participant c e io now client q research psid st))) = w_db (it_world st)"
proof -
  have "w_db (it_world a) = w_db (it_world x)"
    if "admit_participant c e io now client q research psid x = Ok (a, p)" for x a p
    using that by (auto simp: admit_participant_def Let_def split_beta split: if_splits option.splits)
  then show ?thesis
    by (fastforce simp: create_participant_def split: outcome.split prod.split bool.split)
qed

section \<open>Runs\<close>

lemma writes_handle:
  assumes "store_inv (w_db (it_world st))"
  shows "writes (it_world st) (it_world (handle rt io now q st))"
  by (cases q)
    (simp_all add: on_world_def set_status_def give_consent_def st.steps_refl create_participant_db assms
      writes_create_session writes_agent_task writes_connect writes_disconnect writes_timer writes_ready
      writes_submit writes_abandon writes_message writes_cleanup mark_participant_audio_ready_def
      in_memory_def split: outcome.split prod.split)

lemma serves_steps:
  assumes "serves rt d st" "store_inv d"
  shows "st.steps d (w_db (it_world st))"
  using assms(1)
proof induction
  case (serves_start ids r l)
  show ?case by (simp add: started_def st.steps_refl)
next
  case (serves_request st q io now)
  have "store_inv (w_db (it_world st))" by (rule st.steps_inv [OF serves_request.IH assms(2)])
  from steps_then [OF writes_handle [OF this] serves_request.IH] show ?case .
qed

text \<open>A run that goes on from a reachable state.\<close>

inductive serves_on :: "('cfg, 's, 'a, 'obs, 'c) runtime \<Rightarrow> 's intake \<Rightarrow> 's intake \<Rightarrow> bool" for rt where
  on_refl: "serves_on rt st st"
| on_request: "serves_on rt st st' \<Longrightarrow> permitted (rt_config rt) q st' \<Longrightarrow>
    serves_on rt st (handle rt io now q st')"

lemma serves_on_serves: "serves_on rt st st' \<Longrightarrow> serves rt d st \<Longrightarrow> serves rt d st'"
  by (induction rule: serves_on.induct) (auto intro: serves_request)

lemma serves_on_trans: "serves_on rt b c \<Longrightarrow> serves_on rt a b \<Longrightarrow> serves_on rt a c"
  by (induction rule: serves_on.induct) (auto intro: on_request)

lemma serves_on_steps:
  assumes "serves_on rt st st'" "store_inv (w_db (it_world st))"
  shows "writes (it_world st) (it_world st')"
  using assms
proof induction
  case (on_request st st' q io now)
  have "writes (it_world st) (it_world st')" by (rule on_request.IH [OF on_request.prems])
  moreover from st.steps_inv [OF this on_request.prems] have "store_inv (w_db (it_world st'))" .
  ultimately show ?case using steps_then writes_handle by blast
qed (simp add: st.steps_refl)

end
