(* ===== verification/Session_Demo.thy ===== *)
theory Session_Demo
  imports Session_Durability Cue_Choice
begin

text \<open>
  A concrete server, for the concrete instances of the session properties: the cue-choice game in
  an experiment with two human participants, and a run of it from registration to the end.
\<close>

definition demo_session_config :: session_config where
  "demo_session_config = \<lparr>waiting_session_timeout = 600, reconnect_grace = 30,
     session_idle_timeout = 300, session_max_lifetime = 7200\<rparr>"

definition demo_config :: experiment_config where
  "demo_config = \<lparr>cfg_session = demo_session_config,
     cfg_capacity = \<lparr>max_active_sessions = 1, max_waiting_sessions = 2, max_unattached_participants = 9,
       max_transcription_streams = 8, storage_reserve_megabytes = 0\<rparr>,
     cfg_paths = \<lparr>path_completed = ''OK'', path_partner_left = ''PL'', path_game_did_not_start = ''NS'',
       path_ended_early = ''EE'', path_technical_failure = ''TF''\<rparr>,
     cfg_direct_enabled = True,
     cfg_consents = [\<lparr>ci_id = ''study'', ci_title = ''Study'', ci_required = True\<rparr>],
     cfg_prolific_enabled = False, cfg_prolific_study = [], cfg_mode = HumanVsHuman,
     cfg_voice_enabled = False, cfg_post_completion = 0, cfg_transcription_enabled = False,
     cfg_transcription_provider = []\<rparr>"

fun cue_state_json :: "cue_choice_state \<Rightarrow> json" where
  "cue_state_json (AwaitingDeal l n) = JObj [(''cue'', JStr (cue l)), (''phase'', JStr ''awaiting_deal'')]"
| "cue_state_json (Choosing l n) = JObj [(''cue'', JStr (cue l)), (''phase'', JStr ''choosing'')]"
| "cue_state_json (Complete l n c k) = JObj [(''correct'', JBool k), (''phase'', JStr ''complete'')]"

definition demo_rt ::
    "(cue_choice_config, cue_choice_state, cue_choice_action, cue_choice_observation, cue_choice_completion) runtime" where
  "demo_rt = \<lparr>rt_config = demo_config, rt_experiment = ''e'', rt_revision = 1, rt_version = ''1'',
     rt_game = cue_choice, rt_game_config = \<lparr>cc_level = Dax\<rparr>, rt_secrets = (\<lambda>k. None),
     rt_create = Ok (), rt_metadata = (\<lambda>before after a r. JNull),
     rt_state_json = (\<lambda>s. Some (cue_state_json s)), rt_action_json = (\<lambda>a. Some JNull),
     rt_observation_json = (\<lambda>o'. Some JNull), rt_completion_json = (\<lambda>c. Some (JBool (comp_correct c)))\<rparr>"

definition no_faults :: faults where
  "no_faults c = False"

definition demo_start :: "'s intake" where
  "demo_start = started empty_db \<lparr>id_next = 1, id_submissions = []\<rparr>
     \<lparr>cr_global = [], cr_max_attempts = 20, cr_window_seconds = 60\<rparr> LifeActive"

text \<open>A list of requests, one a second, all permitted.\<close>

fun run_requests ::
    "('cfg, 's, 'a, 'obs, 'c) runtime \<Rightarrow> int \<Rightarrow> 'a request list \<Rightarrow> 's intake \<Rightarrow> 's intake option" where
  "run_requests rt now [] st = Some st"
| "run_requests rt now (q # qs) st =
     (if permitted (rt_config rt) q st then run_requests rt (now + 1000) qs (handle rt no_faults now q st) else None)"

lemma run_requests_from:
  "run_requests rt now qs st = Some st' \<Longrightarrow> serves_on rt a st \<Longrightarrow> serves_on rt a st'"
proof (induction qs arbitrary: now st)
  case (Cons q qs)
  have p: "permitted (rt_config rt) q st" and run: "run_requests rt (now + 1000) qs (handle rt no_faults now q st) = Some st'"
    using Cons.prems(1) by (simp_all split: if_splits)
  show ?case by (rule Cons.IH [OF run on_request [OF Cons.prems(2) p]])
qed simp

lemma run_requests_on: "run_requests rt now qs st = Some st' \<Longrightarrow> serves_on rt st st'"
  by (rule run_requests_from [OF _ on_refl])

lemma run_requests_serves:
  "run_requests rt now qs demo_start = Some st \<Longrightarrow> serves rt empty_db st"
  using serves_on_serves [OF run_requests_on] unfolding demo_start_def by (blast intro: serves_start)

definition join_requests :: "string \<Rightarrow> string \<Rightarrow> 'a request list" where
  "join_requests pid code =
     [NewParticipant None None (''R'' @ pid) pid, GiveConsent pid None [(''study'', True)],
      NewSession code pid 7 None (Ok ())]"

text \<open>Two participants are paired, connect, and play the first action.\<close>

definition pairing_requests :: "'a request list" where
  "pairing_requests = join_requests ''p'' ''S1'' @ join_requests ''q'' ''S2''"

definition playing_requests :: "cue_choice_action request list" where
  "playing_requests = pairing_requests @ [Connects ''S1'' ''p'', Connects ''S1'' ''q'', Acts True ''S1'' ''q'' RoleB Deal]"

definition paired_state :: "cue_choice_state intake" where
  "paired_state = the (run_requests demo_rt 1000 pairing_requests demo_start)"

definition playing_state :: "cue_choice_state intake" where
  "playing_state = the (run_requests demo_rt 1000 playing_requests demo_start)"

lemma paired_run: "run_requests demo_rt 1000 pairing_requests demo_start = Some paired_state"
proof -
  have "run_requests demo_rt 1000 pairing_requests demo_start \<noteq> None" by code_simp
  then show ?thesis by (auto simp: paired_state_def)
qed

lemma playing_run: "run_requests demo_rt 1000 playing_requests demo_start = Some playing_state"
proof -
  have "run_requests demo_rt 1000 playing_requests demo_start \<noteq> None" by code_simp
  then show ?thesis by (auto simp: playing_state_def)
qed

lemma paired_serves: "serves demo_rt empty_db paired_state"
  by (rule run_requests_serves [OF paired_run])

lemma playing_serves: "serves demo_rt empty_db playing_state"
  by (rule run_requests_serves [OF playing_run])

text \<open>The last action completes the game; afterwards one participant disconnects.\<close>

definition done_state :: "cue_choice_state intake" where
  "done_state = the (run_requests demo_rt 20000 [Acts True ''S1'' ''p'' RoleA (Choose Oak)] playing_state)"

definition later_state :: "cue_choice_state intake" where
  "later_state = the (run_requests demo_rt 30000 [Disconnects ''S1'' ''p'', Leaves ''S1'' ''q'' ''left''] done_state)"

definition done_end :: session_end where
  "done_end = \<lparr>end_cause = GameCompleted, end_completion = Some (JBool True),
     end_results = map (\<lambda>r. (r, \<lparr>res_outcome = Completed, res_reason = ''game_completed'',
       res_completion = Some (JBool True), res_observation = Some JNull, res_handoff = None\<rparr>)) [''A'', ''B'']\<rparr>"

lemma done_run: "run_requests demo_rt 20000 [Acts True ''S1'' ''p'' RoleA (Choose Oak)] playing_state = Some done_state"
proof -
  have "run_requests demo_rt 20000 [Acts True ''S1'' ''p'' RoleA (Choose Oak)] playing_state \<noteq> None" by code_simp
  then show ?thesis by (auto simp: done_state_def)
qed

lemma done_serves: "serves demo_rt empty_db done_state"
  by (rule serves_on_serves [OF run_requests_on [OF done_run] playing_serves])

lemma later_on: "serves_on demo_rt done_state later_state"
proof -
  have "run_requests demo_rt 30000 [Disconnects ''S1'' ''p'', Leaves ''S1'' ''q'' ''left''] done_state \<noteq> None"
    by code_simp
  then have "run_requests demo_rt 30000 [Disconnects ''S1'' ''p'', Leaves ''S1'' ''q'' ''left''] done_state = Some later_state"
    by (auto simp: later_state_def)
  then show ?thesis by (rule run_requests_on)
qed

end
