(* ===== verification/Session_Properties.thy ===== *)
theory Session_Properties
  imports Session_Demo Great_Tree Space_Game
begin

text \<open>
  The properties of a server whose handlers run one after another: what holds in every state it can
  reach from a consistent database, whatever requests arrive and whatever store calls fail. In the
  code expiry, leaving, connections and messages take no lock of the session, so they can run between the
  phases of another handler; none of the properties here is claimed for such an interleaving, and
  \<open>Session_Concurrency\<close> shows what it can break.
\<close>

section \<open>Memory and store\<close>

lemma serves_world:
  "serves rt d st \<Longrightarrow> store_inv d \<Longrightarrow> world_inv rt (\<lambda>s. True) (it_world st)"
  by (rule serves_inv) simp_all

lemma serves_session:
  assumes "serves rt d st" "store_inv d" "session_in (it_world st) sid = Some s"
  shows "session_inv rt (\<lambda>s. True) (mem_participants (w_memory (it_world st))) (w_db (it_world st)) sid s"
  by (rule world_invD [OF serves_world [OF assms(1,2)] assms(3)])


text \<open>The session of the concrete run.\<close>

lemma playing_session:
  obtains s where "session_in (it_world playing_state) ''S1'' = Some s" "ls_session s = 1"
    "ls_lifecycle s = Running" "map fst (ls_participants s) = [''p'', ''q'']"
    "ls_state s = Choosing Dax (trial_nonce 7)" "session_ready_for_game demo_config s" "ls_pause s = None"
proof -
  have "map_option (\<lambda>s. (ls_session s, ls_lifecycle s = Running, map fst (ls_participants s),
      (ls_state s = Choosing Dax (trial_nonce 7) \<and> session_ready_for_game demo_config s) \<and> ls_pause s = None))
      (session_in (it_world playing_state) ''S1'') = Some (1, True, [''p'', ''q''], True)"
    by code_simp
  then show ?thesis using that by (auto simp: map_option_eq_Some)
qed


text \<open>C6 (invariant). A session never holds two participants of one role, nor more than two
  participants, and all of them are registered for its own data purpose, so testing and research
  participants are never paired.\<close>

theorem one_participant_per_role:
  assumes "serves rt d st" and "store_inv d" and "session_in (it_world st) sid = Some s"
  shows "distinct (map sp_role (participants_of s)) \<and> length (participants_of s) \<le> 2 \<and>
    (\<forall>pid p. map_of (ls_participants s) pid = Some p \<longrightarrow>
       (\<exists>q. map_of (mem_participants (w_memory (it_world st))) pid = Some q \<and> pa_purpose q = ls_purpose s))"
proof -
  note inv = serves_session [OF assms]
  have d: "distinct (map sp_role (participants_of s))"
    using inv by (simp add: session_inv_def session_wf_def roster_ok_def roster_roles)
  have "UNIV = {RoleA, RoleB}" using player_role.exhaust by blast
  then have "card (set (map sp_role (participants_of s))) \<le> card {RoleA, RoleB}"
    by (metis card_mono finite.emptyI finite.insertI subset_UNIV)
  then have "length (participants_of s) \<le> 2" using distinct_card [OF d] by simp
  then show ?thesis
    using inv d by (force simp: session_inv_def purposes_ok_def dest: map_of_SomeD)
qed

theorem one_participant_per_role_witness:
  "\<exists>s. session_in (it_world playing_state) ''S1'' = Some s \<and> length (participants_of s) \<le> 2"
proof -
  obtain s where s: "session_in (it_world playing_state) ''S1'' = Some s" by (rule playing_session)
  from one_participant_per_role [OF playing_serves empty_db_inv this] s show ?thesis by blast
qed

text \<open>C5 (error). While handlers run one after another, a human member of a session can always be told its
  state: when the encodings of observations and actions do not fail, the state response of a member is never an error, and it is
  the state of the session's lifecycle; the internal errors of the code (a missing observation, idle
  deadline or result) are unreachable. A participant who is paired into a room between the reading and the
  writing of its expiry does reach one (\<open>pairing_into_expiring_room\<close>).\<close>

theorem state_response_total:
  assumes "serves rt d st" and "store_inv d" and "session_in (it_world st) sid = Some s"
    and "map_of (ls_participants s) pid = Some p" and "sp_source p \<noteq> ''agent''"
    and "\<And>o'. rt_observation_json rt o' \<noteq> None" and "\<And>a. rt_action_json rt a \<noteq> None"
  shows "\<exists>v. participant_state_response rt (w_memory (it_world st)) sid (sp_role p) = Ok v \<and>
    (case ls_lifecycle s of
       Forming \<Rightarrow> (\<exists>a b c. v = Session_Types.Waiting sid (role_str (sp_role p)) a b c)
     | Running \<Rightarrow> (\<exists>o' js pr i. v = (case ls_pause s of
           None \<Rightarrow> Active sid (role_str (sp_role p)) o' js pr i
         | Some reason \<Rightarrow> Paused sid (role_str (sp_role p)) reason o' js pr i))
     | Ended en \<Rightarrow> (\<exists>r. map_of (end_results en) (role_str (sp_role p)) = Some r \<and>
         v = PEnded sid (role_str (sp_role p)) r (ls_voice_ends_at s)))"
proof -
  note inv = serves_session [OF assms(1-3)]
  have obs: "\<exists>j. observation_json rt x (sp_role p) = Ok j" for x
    using assms(6) by (auto simp: observation_json_def)
  have acts: "\<exists>js. omap (\<lambda>a. ok_or (rt_action_json rt a) Internal) xs = Ok js" for xs
    using assms(7) by (induction xs) auto
  have view: "\<exists>v. participant_view_from_session rt s (sp_role p) = Ok v \<and>
      (ls_lifecycle s \<noteq> Forming \<longrightarrow> vw_observation v \<noteq> None)"
  proof (cases "ls_lifecycle s = Forming")
    case False
    obtain j where j: "observation_json rt (ls_state s) (sp_role p) = Ok j" using obs by blast
    have "\<exists>js. (case g_available (rt_game rt) (ls_state s) (sp_role p) of
            None \<Rightarrow> Ok None
          | Some acts \<Rightarrow> obind (omap (\<lambda>a. ok_or (rt_action_json rt a) Internal) acts) (\<lambda>js. Ok (Some js))) = Ok js"
      using acts by (cases "g_available (rt_game rt) (ls_state s) (sp_role p)") auto
    then obtain js where "(case g_available (rt_game rt) (ls_state s) (sp_role p) of
            None \<Rightarrow> Ok None
          | Some acts \<Rightarrow> obind (omap (\<lambda>a. ok_or (rt_action_json rt a) Internal) acts) (\<lambda>js. Ok (Some js))) = Ok js"
      by blast
    then show ?thesis using j False by (simp add: participant_view_from_session_def)
  qed (simp add: participant_view_from_session_def)
  have "map_of (end_results en) (role_str (sp_role p)) \<noteq> None" if "ls_lifecycle s = Ended en" for en
  proof -
    have "(pid, sp_id p, sp_role p, sp_source p) \<in> set (roster s)"
      using map_of_SomeD [OF assms(4)] by (force simp: roster_def)
    then show ?thesis
      using inv assms(5) that by (fastforce simp: session_inv_def session_wf_def results_cover_def)
  qed
  moreover have "ls_lifecycle s = Running \<longrightarrow> ls_idle_deadline s \<noteq> None"
    using inv by (simp add: session_inv_def session_wf_def)
  ultimately show ?thesis
    using view assms(3)
    by (cases "ls_lifecycle s"; cases "ls_pause s") (auto simp: participant_state_response_def ok_or_def)
qed

theorem state_response_total_witness:
  "\<exists>v. participant_state_response demo_rt (w_memory (it_world playing_state)) ''S1'' RoleA = Ok v"
proof -
  obtain s where s: "session_in (it_world playing_state) ''S1'' = Some s" by (rule playing_session)
  have "map_option (\<lambda>s. map_option (\<lambda>p. (sp_source p, sp_role p)) (map_of (ls_participants s) ''p''))
      (session_in (it_world playing_state) ''S1'') = Some (Some (''direct'', RoleA))"
    by code_simp
  then obtain p where p: "map_of (ls_participants s) ''p'' = Some p" "sp_source p = ''direct''" "sp_role p = RoleA"
    using s by (auto simp: map_option_eq_Some)
  have "sp_source p \<noteq> ''agent''" by (simp add: p)
  from state_response_total [OF playing_serves empty_db_inv s p(1) this] p(3) show ?thesis
    by (auto simp: demo_rt_def)
qed

section \<open>The terminal value\<close>



text \<open>The event log of every session is append-only along every run of the server: entries
  are never removed, reordered or changed, and the wall-clock times they stand for are kept when the
  game clock is rebased at the start.\<close>

theorem event_log_append_only:
  assumes "serves rt d st" and "store_inv d" and "serves_on rt st st'"
  shows "prefix (wall_log (w_db (it_world st)) k) (wall_log (w_db (it_world st')) k)"
proof -
  have si: "store_inv (w_db (it_world st))"
    using serves_world [OF assms(1,2)] by (simp add: world_inv_def)
  show ?thesis by (rule st.log_prefix [OF serves_on_steps [OF assms(3) si] si])
qed

theorem event_log_append_only_witness:
  "prefix (wall_log (w_db (it_world done_state)) (''e'', 1)) (wall_log (w_db (it_world later_state)) (''e'', 1))"
  by (rule event_log_append_only [OF done_serves empty_db_inv later_on])

section \<open>Actions\<close>

lemma last_snapshot_touch [simp]: "last_snapshot (touch_session d e i a idle) e' i' = last_snapshot d e' i'"
  by (simp add: touch_session_def last_snapshot_def)





text \<open>Every Great Tree session the server hosts is in a state the game's rules allow,
  whatever the players, timers and storage failures did, and handling an action in it never stops the
  server.\<close>

theorem hosted_great_tree:
  assumes "serves rt d st" and "store_inv d" and "rt_game rt = great_tree sf sh gr"
    and "rand_ok sh gr" and "session_in (it_world st) sid = Some s"
  shows "gt_inv (ls_state s) \<and> decide_action rt s role a \<noteq> Panic"
  using game_rules.hosted [OF gt.game_rules_axioms assms(1-3,5)] gt_initial_inv [OF assms(4)]
    game_rules.hosted_no_panic [OF gt.game_rules_axioms assms(1-3,5)]
  by simp

definition tree_rt ::
    "(great_tree_config, great_tree_state, great_tree_action, (string, great_tree_observation) outcome,
      great_tree_completion) runtime" where
  "tree_rt = \<lparr>rt_config = demo_config, rt_experiment = ''e'', rt_revision = 1, rt_version = ''1'',
     rt_game = great_tree (\<lambda>_. ()) plain_shuffle plain_range, rt_game_config = \<lparr>cfg_crown_seat = SeatA\<rparr>, rt_secrets = (\<lambda>k. None),
     rt_create = Ok (), rt_metadata = (\<lambda>before after a r. JNull),
     rt_state_json = (\<lambda>s. Some JNull), rt_action_json = (\<lambda>a. Some JNull),
     rt_observation_json = (\<lambda>o'. Some JNull), rt_completion_json = (\<lambda>c. Some JNull)\<rparr>"

theorem hosted_great_tree_witness:
  "\<exists>st s. serves tree_rt empty_db st \<and> session_in (it_world st) ''S1'' = Some s \<and> gt_inv (ls_state s)"
proof -
  have "map_option (\<lambda>st. map_option ls_id (session_in (it_world st) ''S1'')) (run_requests tree_rt 1000 pairing_requests demo_start)
      = Some (Some ''S1'')"
    by code_simp
  then obtain st s where st: "run_requests tree_rt 1000 pairing_requests demo_start = Some st"
    and s: "session_in (it_world st) ''S1'' = Some s"
    by (auto simp: map_option_eq_Some)
  note srv = run_requests_serves [OF st]
  have "rt_game tree_rt = great_tree (\<lambda>_. ()) plain_shuffle plain_range" by (simp add: tree_rt_def)
  from hosted_great_tree [OF srv empty_db_inv this plain_rand_ok s] srv s show ?thesis by blast
qed

section \<open>Terminal results\<close>

lemma omap_keyed:
  assumes "omap g xs = Ok rs" "\<And>x y. g x = Ok y \<Longrightarrow> fst y = k x" "x \<in> set xs" "distinct (map k xs)"
  shows "\<exists>v. map_of rs (k x) = Some v \<and> g x = Ok (k x, v)"
  using assms(1,3,4)
proof (induction xs arbitrary: rs)
  case (Cons a xs)
  then obtain y ys where rs: "rs = y # ys" "g a = Ok y" "omap g xs = Ok ys" by auto
  show ?case
  proof (cases "x = a")
    case True
    then show ?thesis using rs assms(2) [OF rs(2)] by (cases y) auto
  next
    case False
    then have "x \<in> set xs" using Cons.prems(2) by simp
    moreover from imageI [OF this, of k] have "k x \<noteq> k a" using Cons.prems(3) by auto
    ultimately have "x \<in> set xs" "k x \<noteq> k a" by simp_all
    then show ?thesis using Cons.IH [OF rs(3)] Cons.prems(3) rs(1) assms(2) [OF rs(2)] by (cases y) auto
  qed
qed simp

text \<open>When a session expires, every human participant gets a result of its own, with the
  outcome the cause prescribes for it, never "completed", and a Prolific participant gets the
  completion code of that outcome.\<close>

theorem expiry_result_of_each:
  assumes "serves rt d st" and "store_inv d" and "session_in (it_world st) sid = Some s"
    and "expiry_end rt s reason = Ok en"
    and "map_of (ls_participants s) pid = Some p" and "sp_source p \<noteq> ''agent''"
  shows "\<exists>r. map_of (end_results en) (role_str (sp_role p)) = Some r \<and>
    expiry_outcome (end_cause en) p = Some (res_outcome r) \<and> res_outcome r \<noteq> Completed \<and>
    res_reason r = reason \<and> res_completion r = None \<and>
    res_handoff r = (if sp_source p = ''prolific''
      then prolific_handoff (rt_config rt) (res_outcome r) (ls_lifecycle s = Running) else None)"
proof -
  have "distinct (map sp_role (participants_of s))"
    using serves_session [OF assms(1-3)] by (simp add: session_inv_def session_wf_def roster_ok_def roster_roles)
  then have "distinct (map sp_role (humans s))" by (simp add: humans_def distinct_map_filter)
  then have d: "distinct (map (\<lambda>p. role_str (sp_role p)) (humans s))"
    by (simp add: distinct_map inj_on_def)
  have p: "p \<in> set (humans s)"
    using map_of_SomeD [OF assms(5)] assms(6) by (force simp: humans_def participants_of_def)
  obtain rs where rs: "omap (\<lambda>p. obind (ok_or (expiry_outcome (expiry_cause s reason) p) Internal) (\<lambda>k.
      participant_result_for rt (ls_state s) reason None (ls_lifecycle s = Running) (\<lambda>q. k) p)) (humans s) = Ok rs"
    and en: "end_results en = rs" "end_cause en = expiry_cause s reason"
    using assms(4) by (auto simp: expiry_end_def Let_def)
  let ?g = "\<lambda>p. obind (ok_or (expiry_outcome (expiry_cause s reason) p) Internal) (\<lambda>k.
      participant_result_for rt (ls_state s) reason None (ls_lifecycle s = Running) (\<lambda>q. k) p)"
  have "fst y = role_str (sp_role x)" if "?g x = Ok y" for x y
    using that by (auto simp: participant_result_for_def)
  from omap_keyed [OF rs this p d] obtain v where v: "map_of rs (role_str (sp_role p)) = Some v"
    "obind (ok_or (expiry_outcome (expiry_cause s reason) p) Internal) (\<lambda>k.
      participant_result_for rt (ls_state s) reason None (ls_lifecycle s = Running) (\<lambda>q. k) p)
     = Ok (role_str (sp_role p), v)" by blast
  have "expiry_outcome c p \<noteq> Some Completed" for c by (cases c) auto
  then show ?thesis using v by (auto simp: en participant_result_for_def)
qed

theorem expiry_result_of_each_witness:
  "\<exists>s en r. session_in (it_world playing_state) ''S1'' = Some s \<and>
     expiry_end demo_rt s ''idle_timeout'' = Ok en \<and> map_of (end_results en) ''A'' = Some r \<and>
     res_outcome r = IdleLimitReached"
proof -
  have "map_option (\<lambda>s. (map_option (\<lambda>p. (sp_source p, sp_role p)) (map_of (ls_participants s) ''p''),
      is_ok (expiry_end demo_rt s ''idle_timeout''))) (session_in (it_world playing_state) ''S1'')
      = Some (Some (''direct'', RoleA), True)"
    by code_simp
  then obtain s p en where s: "session_in (it_world playing_state) ''S1'' = Some s"
    "map_of (ls_participants s) ''p'' = Some p" "sp_source p = ''direct''" "sp_role p = RoleA"
    "expiry_end demo_rt s ''idle_timeout'' = Ok en"
    by (auto simp: map_option_eq_Some is_ok_iff)
  have "sp_source p \<noteq> ''agent''" by (simp add: s(3))
  from expiry_result_of_each [OF playing_serves empty_db_inv s(1,5,2) this] s(4) obtain r where
    r: "map_of (end_results en) ''A'' = Some r" "expiry_outcome (end_cause en) p = Some (res_outcome r)" by auto
  have "end_cause en = IdleTimedOut" using s(5) by (auto simp: expiry_end_def expiry_cause_def Let_def)
  then show ?thesis using s(1,5) r by auto
qed

end
