(* ===== verification/Intake_Properties.thy ===== *)
theory Intake_Properties
  imports Session_Demo
begin

text \<open>
  Who is let in: the sliding window of the creation rate limit, the idempotence of Prolific
  admission, the waiting-room limit, and what the active-session limit does not prevent.
\<close>

section \<open>The creation rate\<close>

text \<open>The accepted ones of a sequence of attempts.\<close>

fun accepted_attempts :: "int list \<Rightarrow> creation_rate \<Rightarrow> int list" where
  "accepted_attempts [] r = []"
| "accepted_attempts (t # ts) r =
     (case record_attempt t r of (r', ok) \<Rightarrow> (if ok then [t] else []) @ accepted_attempts ts r')"

abbreviation in_window :: "int \<Rightarrow> int \<Rightarrow> int list \<Rightarrow> int list" where
  "in_window t w xs \<equiv> filter (\<lambda>x. t < x \<and> x \<le> t + w) xs"

lemma accepted_subset: "set (accepted_attempts ts r) \<subseteq> set ts"
  by (induction ts arbitrary: r) (auto split: prod.splits)

lemma in_window_later:
  assumes "t + w < u" "sorted (u # ts)"
  shows "in_window t w (accepted_attempts ts r) = []"
  using assms accepted_subset [of ts r] by (fastforce simp: filter_empty_conv)

lemma accepted_in_window:
  assumes "sorted ts" "length (in_window t (cr_window_seconds r) (cr_global r)) \<le> cr_max_attempts r"
  shows "length (in_window t (cr_window_seconds r) (cr_global r @ accepted_attempts ts r)) \<le> cr_max_attempts r"
  using assms
proof (induction ts arbitrary: r)
  case (Cons u ts)
  define w where "w = cr_window_seconds r"
  define kept where "kept = filter (\<lambda>x. x > u - w) (cr_global r)"
  have r: "record_attempt u r = (if length kept \<ge> cr_max_attempts r then (r\<lparr>cr_global := kept\<rparr>, False)
      else (r\<lparr>cr_global := kept @ [u]\<rparr>, True))"
    by (simp add: record_attempt_def kept_def w_def)
  show ?case
  proof (cases "t + w < u")
    case True
    have "in_window t w (accepted_attempts (u # ts) r) = []"
      using in_window_later [OF True Cons.prems(1)] True by (simp split: prod.split)
    then show ?thesis using Cons.prems(2) by (simp add: w_def)
  next
    case False
    then have same: "in_window t w kept = in_window t w (cr_global r)"
      unfolding kept_def by (auto intro!: filter_cong)
    have s: "sorted ts" using Cons.prems(1) by simp
    show ?thesis
    proof (cases "length kept \<ge> cr_max_attempts r")
      case True
      then show ?thesis
        using Cons.IH [OF s, of "r\<lparr>cr_global := kept\<rparr>"] Cons.prems(2) same by (simp add: r w_def)
    next
      case False
      have "length (in_window t w (kept @ [u])) \<le> length kept + 1"
        by (rule order_trans [OF length_filter_le]) simp
      then have "length (in_window t w (kept @ [u])) \<le> cr_max_attempts r" using False by simp
      then show ?thesis
        using Cons.IH [OF s, of "r\<lparr>cr_global := kept @ [u]\<rparr>"] False same by (simp add: r w_def)
    qed
  qed
qed simp

text \<open>The creation limit holds in every window, not only in aligned ones: of attempts in
  the order of the clock, at most the configured number is accepted in any interval of the window's
  length.\<close>

theorem creation_rate_bounded:
  assumes "sorted ts" and "cr_global r = []"
  shows "length (in_window t (cr_window_seconds r) (accepted_attempts ts r)) \<le> cr_max_attempts r"
  using accepted_in_window [OF assms(1), of t r] assms(2) by simp

theorem creation_rate_bounded_witness:
  "length (in_window 5 10 (accepted_attempts [1, 6, 7, 8, 14, 17]
     \<lparr>cr_global = [], cr_max_attempts = 2, cr_window_seconds = 10\<rparr>)) \<le> 2"
  using creation_rate_bounded [of "[1, 6, 7, 8, 14, 17]"
     "\<lparr>cr_global = [], cr_max_attempts = 2, cr_window_seconds = 10\<rparr>" 5] by simp

section \<open>Prolific admission\<close>

text \<open>Any sequence of admission requests, each with the identifiers drawn for it.\<close>

fun admissions ::
    "string \<Rightarrow> (prolific_request \<times> string \<times> string \<times> string) list \<Rightarrow> identities \<Rightarrow> identities" where
  "admissions e [] ids = ids"
| "admissions e ((q, v, research, psid) # qs) ids =
     (case admit_prolific_submission ids e q v research psid of
        Ok (ids', r) \<Rightarrow> admissions e qs ids' | _ \<Rightarrow> admissions e qs ids)"

lemma find_snoc: "find P xs = Some x \<Longrightarrow> find P (xs @ ys) = Some x"
  by (induction xs) (auto split: if_splits)

lemma admission_keeps:
  "admit_prolific_submission ids e q v research psid = Ok (ids', r) \<Longrightarrow>
     find P (id_submissions ids) = Some x \<Longrightarrow> find P (id_submissions ids') = Some x"
  by (auto simp: admit_prolific_submission_def find_snoc split: option.splits if_splits)

lemma admissions_keep:
  "find P (id_submissions ids) = Some x \<Longrightarrow> find P (id_submissions (admissions e qs ids)) = Some x"
proof (induction qs arbitrary: ids)
  case (Cons q qs)
  obtain a b c d where q: "q = (a, b, c, d)" by (cases q) auto
  show ?case
    using Cons admission_keeps [of ids e a b c d _ _ P x]
    by (cases "admit_prolific_submission ids e a b c d") (auto simp: q split: prod.split)
qed simp

text \<open>C27 (safety). A Prolific submission is one participant: admitting it again, after any other
  admissions and with whatever new identifiers were drawn, gives the same participant, research
  identifier and participant session and stores nothing, while the same submission with another
  participant or study is refused.\<close>

theorem prolific_admission_idempotent:
  assumes "admit_prolific_submission ids e q v research psid = Ok (ids', pid, rid, sid)"
  shows "admit_prolific_submission (admissions e qs ids') e q v2 research2 psid2
      = Ok (admissions e qs ids', pid, rid, sid) \<and>
    (pq_session q' = pq_session q \<and>
       (pq_participant q' \<noteq> pq_participant q \<or> pq_study q' \<noteq> pq_study q) \<longrightarrow>
     admit_prolific_submission (admissions e qs ids') e q' v2 research2 psid2 = Err StoreFailed)"
proof -
  let ?P = "\<lambda>r. pl_experiment r = e \<and> pl_prolific_session r = pq_session q"
  have "\<exists>x. find ?P (id_submissions ids') = Some x \<and> pl_prolific_participant x = pq_participant q \<and>
      pl_study x = pq_study q \<and> pl_participant x = pid \<and> pl_research x = rid \<and> pl_participant_session x = sid"
  proof (cases "find ?P (id_submissions ids)")
    case None
    then have "find ?P (id_submissions ids @ [y]) = find ?P [y]" for y
      by (induction "id_submissions ids") (simp_all add: find_append_rows)
    then show ?thesis using assms None by (auto simp: admit_prolific_submission_def)
  next
    case (Some x)
    then show ?thesis using assms by (auto simp: admit_prolific_submission_def split: if_splits)
  qed
  then obtain x where x: "find ?P (id_submissions ids') = Some x" "pl_prolific_participant x = pq_participant q"
    "pl_study x = pq_study q" "pl_participant x = pid" "pl_research x = rid" "pl_participant_session x = sid"
    by blast
  from admissions_keep [OF x(1)] show ?thesis
    using x(2-6) by (auto simp: admit_prolific_submission_def)
qed

definition some_request :: "string \<Rightarrow> prolific_request" where
  "some_request s = \<lparr>pq_participant = ''P'', pq_study = ''ST'', pq_session = s, pq_token = None\<rparr>"

theorem prolific_admission_idempotent_witness:
  "\<exists>ids'. admit_prolific_submission \<lparr>id_next = 1, id_submissions = []\<rparr> ''e'' (some_request ''a'') ''v'' ''R1'' ''S1''
      = Ok (ids', 1, ''R1'', ''S1'') \<and>
     admit_prolific_submission (admissions ''e'' [(some_request ''b'', ''v'', ''R2'', ''S2'')] ids') ''e''
       (some_request ''a'') ''v'' ''R3'' ''S3''
      = Ok (admissions ''e'' [(some_request ''b'', ''v'', ''R2'', ''S2'')] ids', 1, ''R1'', ''S1'')"
proof -
  have "\<exists>ids'. admit_prolific_submission \<lparr>id_next = 1, id_submissions = []\<rparr> ''e'' (some_request ''a'') ''v'' ''R1'' ''S1''
      = Ok (ids', 1, ''R1'', ''S1'')"
    by (simp add: admit_prolific_submission_def)
  then show ?thesis using prolific_admission_idempotent by blast
qed

section \<open>The limit on active sessions\<close>

text \<open>The limit on active sessions can be exceeded: with a limit of one, two
  pairs are admitted and both of their sessions run. A session that is fully paired but has not
  started is counted neither as waiting nor as active.\<close>

theorem active_limit_exceeded:
  "\<exists>st. serves demo_rt empty_db st \<and>
     active_count (w_memory (it_world st)) > max_active_sessions (cfg_capacity (rt_config demo_rt))"
proof -
  let ?qs = "join_requests ''p'' ''S1'' @ join_requests ''q'' ''S2'' @ join_requests ''u'' ''S3'' @ join_requests ''v'' ''S4''
    @ [Connects ''S1'' ''p'', Connects ''S1'' ''q'', Connects ''S3'' ''u'', Connects ''S3'' ''v'']"
  have "map_option (\<lambda>st. active_count (w_memory (it_world st))) (run_requests demo_rt 1000 ?qs demo_start) = Some 2"
    by code_simp
  then obtain st where st: "run_requests demo_rt 1000 ?qs demo_start = Some st"
    "active_count (w_memory (it_world st)) = 2" by (auto simp: map_option_eq_Some)
  have "max_active_sessions (cfg_capacity (rt_config demo_rt)) = 1" by (simp add: demo_rt_def demo_config_def)
  then show ?thesis using run_requests_serves [OF st(1)] st(2) by auto
qed

end
