(* ===== verification/Session_Concurrency.thy ===== *)
theory Session_Concurrency
  imports Session_Demo
begin

text \<open>
  The handlers that change the life of one session, cut where the code awaits: the memory is read
  under a read guard, the store is written, the memory is written under a write guard.
  \<open>submit_action\<close> and \<open>maybe_start_game\<close> hold the session's transition lock from their first read to
  their last write; \<open>expire_live_session\<close> takes no lock, so its phases interleave with theirs.
\<close>

section \<open>Phases\<close>

definition act_read ::
    "('cfg, 's, 'a, 'obs, 'c) runtime \<Rightarrow> string \<Rightarrow> string \<Rightarrow> player_role \<Rightarrow> 'a \<Rightarrow> 's world
      \<Rightarrow> (app_error, 's \<times> event_record list \<times> session_end option) outcome" where
  "act_read rt sid pid role a w =
     obind (ok_or (session_in w sid) NotFound) (\<lambda>s.
     obind (decide_action rt s role a) (\<lambda>after.
     obind (action_records rt (w_memory w) s pid role a after) (\<lambda>(evs, ending). Ok (after, evs, ending))))"

text \<open>The commit's flag, false for a session that already ended, is not looked at.\<close>

definition act_commit ::
    "faults \<Rightarrow> int \<Rightarrow> event_record list \<Rightarrow> session_end option \<Rightarrow> 's world \<Rightarrow> (app_error, 's world) outcome" where
  "act_commit io now evs ending w =
     obind (durable io CallCommit (commit_session_transition (w_db w) evs ending now))
       (\<lambda>(d, committed). Ok (w\<lparr>w_db := d\<rparr>))"

definition act_publish ::
    "('cfg, 's, 'a, 'obs, 'c) runtime \<Rightarrow> faults \<Rightarrow> int \<Rightarrow> bool \<Rightarrow> string \<Rightarrow> 's \<Rightarrow> session_end option
      \<Rightarrow> 's world \<Rightarrow> 's world \<times> (app_error, transition_outcome) outcome" where
  "act_publish rt io now pair sid after ending w =
     (if session_in w sid = None then (w, Err NotFound)
      else
        let c = rt_config rt;
            w1 = in_memory (modify_session sid (apply_transition c now (voice_kept c pair) after ending)) w
        in (case ending of
              None \<Rightarrow> (touch_session_activity c io now sid w1, Ok Continued)
            | Some en \<Rightarrow>
                (if cfg_mode c = HumanVsHuman then shutdown_session_log sid w1 else w1, Ok TransitionCompleted)))"

definition expire_read ::
    "('cfg, 's, 'a, 'obs, 'c) runtime \<Rightarrow> string \<Rightarrow> string \<Rightarrow> 's world
      \<Rightarrow> (app_error, (event_record \<times> session_end) option) outcome" where
  "expire_read rt sid reason w =
     obind (ok_or (session_in w sid) NotFound) (\<lambda>s.
       if is_ended (ls_lifecycle s) then Ok None
       else obind (expiry_end rt s reason) (\<lambda>en.
         Ok (Some (\<lparr>ev_experiment = ls_experiment s, ev_session = ls_session s,
                    ev_type = ''session_ended'', ev_actor = None, ev_actor_role = None,
                    ev_payload = session_end_json en, ev_game_state = None\<rparr>, en))))"

definition expire_store ::
    "faults \<Rightarrow> int \<Rightarrow> event_record \<Rightarrow> session_end \<Rightarrow> 's world \<Rightarrow> (app_error, 's world \<times> bool) outcome" where
  "expire_store io now ev en w =
     obind (durable io CallEnd (end_session (w_db w) ev en now)) (\<lambda>(d, ended). Ok (w\<lparr>w_db := d\<rparr>, ended))"

definition expire_publish :: "int \<Rightarrow> string \<Rightarrow> session_end \<Rightarrow> 's world \<Rightarrow> 's world" where
  "expire_publish now sid en = in_memory (modify_session sid (mark_ended now en))"

definition start_read ::
    "experiment_config \<Rightarrow> string \<Rightarrow> 's world \<Rightarrow> (string \<times> int) option" where
  "start_read c sid w =
     (case session_in w sid of
        None \<Rightarrow> None
      | Some s \<Rightarrow>
          if ls_lifecycle s = Forming \<and> session_ready_for_game c s
          then Some (ls_experiment s, ls_session s) else None)"

definition start_store ::
    "experiment_config \<Rightarrow> faults \<Rightarrow> int \<Rightarrow> string \<times> int \<Rightarrow> 's world \<Rightarrow> 's world \<times> bool" where
  "start_store c io now k w =
     (if io CallStart then (w, False)
      else
        let (d, ok) = start_session (w_db w) (fst k) (snd k) now (now + 1000 * session_idle_timeout (cfg_session c))
        in (w\<lparr>w_db := d\<rparr>, ok))"

definition start_publish :: "experiment_config \<Rightarrow> int \<Rightarrow> string \<Rightarrow> 's world \<Rightarrow> 's world" where
  "start_publish c now sid =
     in_memory (modify_session sid (\<lambda>s. s\<lparr>ls_lifecycle := Running, ls_pause := None, ls_updated_at := now,
       ls_last_activity := Some now, ls_idle_deadline := Some (now + 1000 * session_idle_timeout (cfg_session c))\<rparr>))"

section \<open>Interleaving\<close>

datatype 's act_pc =
    ActIdle
  | ActRead 's "event_record list" "session_end option"
  | ActCommitted 's "session_end option"
  | ActDone "(app_error, transition_outcome) outcome"

datatype expire_pc =
    ExpireIdle
  | ExpireRead event_record session_end
  | ExpireStored session_end
  | ExpireDone "(app_error, bool) outcome"

datatype start_pc = StartIdle | StartRead "string \<times> int" | StartStored | StartDone

record ('s, 'a) race =
  rc_world :: "'s world"
  rc_session :: string
  rc_actor :: "string \<times> player_role \<times> 'a"
  rc_reason :: string
  rc_act :: "'s act_pc"
  rc_expire :: expire_pc
  rc_start :: start_pc

datatype task = ActTask | ExpireTask | StartTask

definition locked_by_act :: "('s, 'a) race \<Rightarrow> bool" where
  "locked_by_act x = (case rc_act x of ActRead _ _ _ \<Rightarrow> True | ActCommitted _ _ \<Rightarrow> True | _ \<Rightarrow> False)"

definition locked_by_start :: "('s, 'a) race \<Rightarrow> bool" where
  "locked_by_start x = (case rc_start x of StartRead _ \<Rightarrow> True | StartStored \<Rightarrow> True | _ \<Rightarrow> False)"

text \<open>One phase of a task; a task waiting for the transition lock does not move.\<close>

definition act_phase ::
    "('cfg, 's, 'a, 'obs, 'c) runtime \<Rightarrow> faults \<Rightarrow> int \<Rightarrow> ('s, 'a) race \<Rightarrow> ('s, 'a) race" where
  "act_phase rt io now x =
     (let w = rc_world x; (pid, role, a) = rc_actor x in
      case rc_act x of
        ActIdle \<Rightarrow>
          if locked_by_start x then x
          else (case act_read rt (rc_session x) pid role a w of
              Ok (after, evs, ending) \<Rightarrow> x\<lparr>rc_act := ActRead after evs ending\<rparr>
            | Err e \<Rightarrow> x\<lparr>rc_act := ActDone (Err e)\<rparr>
            | Panic \<Rightarrow> x\<lparr>rc_act := ActDone Panic\<rparr>)
      | ActRead after evs ending \<Rightarrow>
          (case act_commit io now evs ending w of
             Ok w' \<Rightarrow> x\<lparr>rc_world := w', rc_act := ActCommitted after ending\<rparr>
           | Err e \<Rightarrow> x\<lparr>rc_act := ActDone (Err e)\<rparr>
           | Panic \<Rightarrow> x\<lparr>rc_act := ActDone Panic\<rparr>)
      | ActCommitted after ending \<Rightarrow>
          (case act_publish rt io now True (rc_session x) after ending w of
             (w', r) \<Rightarrow> x\<lparr>rc_world := w', rc_act := ActDone r\<rparr>)
      | ActDone r \<Rightarrow> x)"

definition expire_phase ::
    "('cfg, 's, 'a, 'obs, 'c) runtime \<Rightarrow> faults \<Rightarrow> int \<Rightarrow> ('s, 'a) race \<Rightarrow> ('s, 'a) race" where
  "expire_phase rt io now x =
     (let w = rc_world x in
      case rc_expire x of
        ExpireIdle \<Rightarrow>
          (case expire_read rt (rc_session x) (rc_reason x) w of
             Ok (Some (ev, en)) \<Rightarrow> x\<lparr>rc_expire := ExpireRead ev en\<rparr>
           | Ok None \<Rightarrow> x\<lparr>rc_expire := ExpireDone (Ok False)\<rparr>
           | Err e \<Rightarrow> x\<lparr>rc_expire := ExpireDone (Err e)\<rparr>
           | Panic \<Rightarrow> x\<lparr>rc_expire := ExpireDone Panic\<rparr>)
      | ExpireRead ev en \<Rightarrow>
          (case expire_store io now ev en w of
             Ok (w', True) \<Rightarrow> x\<lparr>rc_world := w', rc_expire := ExpireStored en\<rparr>
           | Ok (w', False) \<Rightarrow> x\<lparr>rc_world := w', rc_expire := ExpireDone (Ok False)\<rparr>
           | Err e \<Rightarrow> x\<lparr>rc_expire := ExpireDone (Err e)\<rparr>
           | Panic \<Rightarrow> x\<lparr>rc_expire := ExpireDone Panic\<rparr>)
      | ExpireStored en \<Rightarrow>
          x\<lparr>rc_world := expire_publish now (rc_session x) en w, rc_expire := ExpireDone (Ok True)\<rparr>
      | ExpireDone r \<Rightarrow> x)"

definition start_phase ::
    "('cfg, 's, 'a, 'obs, 'c) runtime \<Rightarrow> faults \<Rightarrow> int \<Rightarrow> ('s, 'a) race \<Rightarrow> ('s, 'a) race" where
  "start_phase rt io now x =
     (let w = rc_world x; c = rt_config rt in
      case rc_start x of
        StartIdle \<Rightarrow>
          if locked_by_act x then x
          else (case start_read c (rc_session x) w of
              Some k \<Rightarrow> x\<lparr>rc_start := StartRead k\<rparr> | None \<Rightarrow> x\<lparr>rc_start := StartDone\<rparr>)
      | StartRead k \<Rightarrow>
          (case start_store c io now k w of
             (w', True) \<Rightarrow> x\<lparr>rc_world := w', rc_start := StartStored\<rparr>
           | (w', False) \<Rightarrow> x\<lparr>rc_world := w', rc_start := StartDone\<rparr>)
      | StartStored \<Rightarrow> x\<lparr>rc_world := start_publish c now (rc_session x) w, rc_start := StartDone\<rparr>
      | StartDone \<Rightarrow> x)"

fun phase :: "('cfg, 's, 'a, 'obs, 'c) runtime \<Rightarrow> faults \<Rightarrow> int \<Rightarrow> task \<Rightarrow> ('s, 'a) race \<Rightarrow> ('s, 'a) race" where
  "phase rt io now ActTask x = act_phase rt io now x"
| "phase rt io now ExpireTask x = expire_phase rt io now x"
| "phase rt io now StartTask x = start_phase rt io now x"

definition schedule ::
    "('cfg, 's, 'a, 'obs, 'c) runtime \<Rightarrow> faults \<Rightarrow> int \<Rightarrow> task list \<Rightarrow> ('s, 'a) race \<Rightarrow> ('s, 'a) race" where
  "schedule rt io now ts x = fold (phase rt io now) ts x"

definition race_start :: "'s world \<Rightarrow> string \<Rightarrow> string \<times> player_role \<times> 'a \<Rightarrow> string \<Rightarrow> ('s, 'a) race" where
  "race_start w sid actor reason =
     \<lparr>rc_world = w, rc_session = sid, rc_actor = actor, rc_reason = reason,
      rc_act = ActIdle, rc_expire = ExpireIdle, rc_start = StartIdle\<rparr>"

section \<open>Undisturbed handlers\<close>

lemma submit_reads:
  "submit_action rt io now pair sid pid role a w =
     (case obind (act_read rt sid pid role a w) (\<lambda>(after, evs, ending).
           obind (durable io CallCommit (commit_session_transition (w_db w) evs ending now)) (\<lambda>(d, committed).
             Ok (after, ending, d))) of
        Err e \<Rightarrow> (w, Err e)
      | Panic \<Rightarrow> (w, Panic)
      | Ok (after, ending, d) \<Rightarrow> act_publish rt io now pair sid after ending (w\<lparr>w_db := d\<rparr>))"
proof (cases "session_in w sid")
  case None
  then show ?thesis by (simp add: submit_action_def act_read_def ok_or_def)
next
  case (Some s)
  show ?thesis
  proof (cases "decide_action rt s role a")
    case after: (Ok after)
    show ?thesis
    proof (cases "action_records rt (w_memory w) s pid role a after")
      case (Ok x)
      then show ?thesis using Some after
        by (cases "durable io CallCommit (commit_session_transition (w_db w) (fst x) (snd x) now)")
          (simp_all add: submit_action_def act_read_def act_publish_def ok_or_def Let_def split_beta del: durable_Ok)
    qed (use Some after in \<open>simp_all add: submit_action_def act_read_def ok_or_def\<close>)
  qed (use Some in \<open>simp_all add: submit_action_def act_read_def ok_or_def\<close>)
qed

lemma act_alone:
  "schedule rt io now [ActTask, ActTask, ActTask] (race_start w sid (pid, role, a) reason)
   = (race_start w sid (pid, role, a) reason)
      \<lparr>rc_world := fst (submit_action rt io now True sid pid role a w),
       rc_act := ActDone (snd (submit_action rt io now True sid pid role a w))\<rparr>"
proof (cases "act_read rt sid pid role a w")
  case (Ok x)
  obtain after evs ending where x: "x = (after, evs, ending)" by (cases x) auto
  show ?thesis
    by (cases "durable io CallCommit (commit_session_transition (w_db w) evs ending now)")
      (auto simp: submit_reads Ok x act_commit_def schedule_def act_phase_def race_start_def locked_by_start_def
        Let_def split: prod.split simp del: durable_Ok)
qed (simp_all add: submit_reads schedule_def act_phase_def race_start_def locked_by_start_def Let_def)

lemma expire_reads:
  "expire_live_session rt io now sid reason w =
     (case obind (expire_read rt sid reason w) (\<lambda>x. case x of
           None \<Rightarrow> Ok None
         | Some (ev, en) \<Rightarrow> obind (durable io CallEnd (end_session (w_db w) ev en now)) (\<lambda>(d, ended).
             Ok (if ended then Some (en, d) else None))) of
        Err e \<Rightarrow> (w, Err e)
      | Panic \<Rightarrow> (w, Panic)
      | Ok None \<Rightarrow> (w, Ok False)
      | Ok (Some (en, d)) \<Rightarrow> (expire_publish now sid en (w\<lparr>w_db := d\<rparr>), Ok True))"
proof (cases "session_in w sid")
  case (Some s)
  then show ?thesis
    by (cases "expiry_end rt s reason"; cases "is_ended (ls_lifecycle s)")
      (simp_all only: expire_live_session_def expire_read_def expire_publish_def ok_or_def Let_def option.case
        obind.simps if_True if_False prod.case simp_thms outcome.case)
qed (simp add: expire_live_session_def expire_read_def ok_or_def)

lemma refused_end_unchanged: "end_session d ev en now = Ok (d', False) \<Longrightarrow> d' = d"
  by (auto elim: end_cases)

lemma expire_alone:
  "schedule rt io now [ExpireTask, ExpireTask, ExpireTask] (race_start w sid actor reason)
   = (race_start w sid actor reason)
      \<lparr>rc_world := fst (expire_live_session rt io now sid reason w),
       rc_expire := ExpireDone (snd (expire_live_session rt io now sid reason w))\<rparr>"
proof (cases "expire_read rt sid reason w")
  case (Ok x)
  show ?thesis
  proof (cases x)
    case None
    then show ?thesis
      by (simp add: expire_reads Ok schedule_def expire_phase_def race_start_def Let_def)
  next
    case (Some y)
    obtain ev en where y: "y = (ev, en)" by (cases y)
    show ?thesis
    proof (cases "durable io CallEnd (end_session (w_db w) ev en now)")
      case z: (Ok z)
      obtain d b where zz: "z = (d, b)" by (cases z)
      have "d = w_db w" if "\<not> b" using z zz that refused_end_unchanged by auto
      then show ?thesis
        using Ok Some y z zz
        by (cases b) (simp_all add: expire_reads expire_store_def schedule_def expire_phase_def race_start_def Let_def)
    qed (simp_all add: expire_reads Ok Some y expire_store_def schedule_def expire_phase_def race_start_def Let_def)
  qed
qed (simp_all add: expire_reads schedule_def expire_phase_def race_start_def Let_def)

lemma start_alone:
  "schedule rt io now [StartTask, StartTask, StartTask] (race_start w sid actor reason)
   = (race_start w sid actor reason)
      \<lparr>rc_world := maybe_start_game (rt_config rt) io now sid w, rc_start := StartDone\<rparr>"
  by (auto simp: schedule_def start_phase_def race_start_def maybe_start_game_def start_read_def
      start_store_def start_publish_def locked_by_act_def Let_def split: option.split prod.split bool.split)

text \<open>The phases are the handlers: run without interference, the three phases of
  an action, of an expiry and of a start have the effect and the outcome of the handler as one
  step.\<close>

theorem phases_compose_to_handlers:
  "schedule rt io now [ActTask, ActTask, ActTask] (race_start w sid (pid, role, a) reason)
     = (race_start w sid (pid, role, a) reason)
        \<lparr>rc_world := fst (submit_action rt io now True sid pid role a w),
         rc_act := ActDone (snd (submit_action rt io now True sid pid role a w))\<rparr> \<and>
   schedule rt io now [ExpireTask, ExpireTask, ExpireTask] (race_start w sid actor reason)
     = (race_start w sid actor reason)
        \<lparr>rc_world := fst (expire_live_session rt io now sid reason w),
         rc_expire := ExpireDone (snd (expire_live_session rt io now sid reason w))\<rparr> \<and>
   schedule rt io now [StartTask, StartTask, StartTask] (race_start w sid actor reason)
     = (race_start w sid actor reason)
        \<lparr>rc_world := maybe_start_game (rt_config rt) io now sid w, rc_start := StartDone\<rparr>"
  by (intro conjI act_alone expire_alone start_alone)

section \<open>An action that races an expiry\<close>

text \<open>C8 (safety). An action can be reported as accepted although the store refused it: an
  idle expiry that ends the stored session between the action's checks and its commit makes the
  commit answer "already ended", the action ignores that, reports the game as completed, and nothing
  of it is stored; memory and store then hold different results.\<close>

theorem accepted_action_lost:
  "\<exists>x s. x = schedule demo_rt no_faults 400000
       [ActTask, ExpireTask, ExpireTask, ActTask, ExpireTask, ActTask]
       (race_start (it_world playing_state) ''S1'' (''p'', RoleA, Choose Oak) ''idle_timeout'') \<and>
     rc_act x = ActDone (Ok TransitionCompleted) \<and> rc_expire x = ExpireDone (Ok True) \<and>
     session_in (rc_world x) ''S1'' = Some s \<and> ls_lifecycle s = Ended done_end \<and>
     map_option end_cause (terminal_of (w_db (rc_world x)) (''e'', 1)) = Some IdleTimedOut \<and>
     last_snapshot (w_db (rc_world x)) ''e'' 1 \<noteq> rt_state_json demo_rt (ls_state s)"
proof -
  let ?x = "schedule demo_rt no_faults 400000
       [ActTask, ExpireTask, ExpireTask, ActTask, ExpireTask, ActTask]
       (race_start (it_world playing_state) ''S1'' (''p'', RoleA, Choose Oak) ''idle_timeout'')"
  have "rc_act ?x = ActDone (Ok TransitionCompleted) \<and> rc_expire ?x = ExpireDone (Ok True)" by code_simp
  moreover have "map_option (\<lambda>s. (ls_lifecycle s = Ended done_end,
      last_snapshot (w_db (rc_world ?x)) ''e'' 1 = rt_state_json demo_rt (ls_state s))) (session_in (rc_world ?x) ''S1'')
      = Some (True, False)"
    by code_simp
  moreover have "map_option end_cause (terminal_of (w_db (rc_world ?x)) (''e'', 1)) = Some IdleTimedOut" by code_simp
  ultimately show ?thesis by (auto simp: map_option_eq_Some)
qed

section \<open>A start that races an expiry\<close>

lemma expire_refused:
  assumes "session_in w sid = Some s" "find_session (w_db w) (ls_experiment s) (ls_session s) = Some r"
    "sr_lifecycle r = ''ended''"
  shows "fst (expire_live_session rt io now sid reason w) = w" "snd (expire_live_session rt io now sid reason w) \<noteq> Ok True"
proof -
  have "end_session (w_db w) ev en now \<noteq> Ok (d, True)"
    if "ev_experiment ev = ls_experiment s" "ev_session ev = ls_session s" for d ev en
    using assms(2,3) that by (auto elim!: end_cases)
  then show "fst (expire_live_session rt io now sid reason w) = w" "snd (expire_live_session rt io now sid reason w) \<noteq> Ok True"
    using assms(1) by (auto simp: expire_live_session_def Let_def split: outcome.split option.split if_splits)
qed

definition ready_state :: "cue_choice_state intake" where
  "ready_state = the (run_requests demo_rt 1000 (pairing_requests @ [Connects ''S1'' ''p'']) demo_start)"

text \<open>Both participants are connected when the waiting time is over: the second connection, without
  its start.\<close>

definition both_connected :: "cue_choice_state world" where
  "both_connected = in_memory (modify_session ''S1'' (connect_in_session 590000 ''q'')) (it_world ready_state)"

definition zombie :: "(cue_choice_state, cue_choice_action) race" where
  "zombie = schedule demo_rt no_faults 600000
       [ExpireTask, StartTask, StartTask, ExpireTask, ExpireTask, StartTask]
       (race_start both_connected ''S1'' (''q'', RoleB, Deal) ''waiting_timeout'')"

text \<open>C7 (safety). A start that races the waiting-room expiry can leave a session that runs in
  memory and has ended in the store. It cannot be expired: a cleanup for any reason except
  terminal_cleanup, whatever the store does and whenever it comes, leaves the server as it is, so neither
  its idle time nor its maximum lifetime ends the session, and an action played in it is reported as
  accepted without being stored. (The room goes once its game is completed in memory: terminal_cleanup,
  which the server chooses for sessions that have ended in memory, removes it then.)\<close>

theorem zombie_session:
  "\<exists>s. session_in (rc_world zombie) ''S1'' = Some s \<and> ls_lifecycle s = Running \<and>
     map_option end_cause (terminal_of (w_db (rc_world zombie)) (''e'', 1)) = Some PartnerUnavailable \<and>
     snd (submit_action demo_rt no_faults 700000 True ''S1'' ''q'' RoleB Deal (rc_world zombie)) = Ok Continued \<and>
     events_of (w_db (fst (submit_action demo_rt no_faults 700000 True ''S1'' ''q'' RoleB Deal (rc_world zombie)))) ''e'' 1
       = events_of (w_db (rc_world zombie)) ''e'' 1 \<and>
     (\<forall>io now reason observed. reason = ''terminal_cleanup'' \<or>
        cleanup_room demo_rt io now ''S1'' reason observed (rc_world zombie) = rc_world zombie)"
proof -
  have mem: "map_option (\<lambda>s. (ls_lifecycle s = Running, ls_session s, ls_experiment s)) (session_in (rc_world zombie) ''S1'')
      = Some (True, 1, ''e'')"
    by code_simp
  then obtain s where s: "session_in (rc_world zombie) ''S1'' = Some s" "ls_lifecycle s = Running"
    "ls_session s = 1" "ls_experiment s = ''e''"
    by (auto simp: map_option_eq_Some)
  have "map_option (\<lambda>r. sr_lifecycle r = ''ended'') (find_session (w_db (rc_world zombie)) ''e'' 1) = Some True"
    by code_simp
  then obtain r where r: "find_session (w_db (rc_world zombie)) (ls_experiment s) (ls_session s) = Some r"
    "sr_lifecycle r = ''ended''"
    using s by (auto simp: map_option_eq_Some)
  have clean: "cleanup_room demo_rt io now ''S1'' reason observed (rc_world zombie) = rc_world zombie"
    if "reason \<noteq> ''terminal_cleanup''" for io now reason observed
    using expire_refused [OF s(1) r, of demo_rt io now reason] s(1,3) that
    by (auto simp: cleanup_room_def split: prod.split outcome.split bool.split)
  have "map_option end_cause (terminal_of (w_db (rc_world zombie)) (''e'', 1)) = Some PartnerUnavailable" by code_simp
  moreover have "snd (submit_action demo_rt no_faults 700000 True ''S1'' ''q'' RoleB Deal (rc_world zombie)) = Ok Continued"
    by code_simp
  moreover have "events_of (w_db (fst (submit_action demo_rt no_faults 700000 True ''S1'' ''q'' RoleB Deal (rc_world zombie)))) ''e'' 1
       = events_of (w_db (rc_world zombie)) ''e'' 1"
    by code_simp
  ultimately show ?thesis using s(1,2) clean by blast
qed

section \<open>A pairing that races an expiry\<close>

text \<open>A participant who is paired into a waiting room between the expiry's reading, which collects the
  results of those present, and its publishing is a member of an ended session without a result: the
  state response is then an internal error. \<open>it_world\<close> is the room with one participant, and the second one
  is registered and asks for a session.\<close>

definition waiting_room :: "cue_choice_state intake" where
  "waiting_room = the (run_requests demo_rt 1000
     (join_requests ''p'' ''S1'' @ [NewParticipant None None ''Rq'' ''q'', GiveConsent ''q'' None [(''study'', True)]]) demo_start)"

definition paired_while_expiring :: "cue_choice_state world option" where
  "paired_while_expiring =
     (case expire_read demo_rt ''S1'' ''waiting_timeout'' (it_world waiting_room) of
        Ok (Some (ev, en)) \<Rightarrow>
          (case expire_store no_faults 600000 ev en
               (it_world (handle demo_rt no_faults 600000 (NewSession ''S2'' ''q'' 7 None (Ok ())) waiting_room)) of
             Ok (w, True) \<Rightarrow> Some (expire_publish 600000 ''S1'' en w)
           | _ \<Rightarrow> None)
      | _ \<Rightarrow> None)"

lemma pairing_into_expiring_room:
  "\<exists>w s p. paired_while_expiring = Some w \<and> session_in w ''S1'' = Some s \<and> map_of (ls_participants s) ''q'' = Some p \<and>
     sp_source p \<noteq> ''agent'' \<and> participant_state_response demo_rt (w_memory w) ''S1'' (sp_role p) = Err Internal"
proof -
  have "(case paired_while_expiring of None \<Rightarrow> False | Some w \<Rightarrow>
     (case session_in w ''S1'' of None \<Rightarrow> False | Some s \<Rightarrow>
     (case map_of (ls_participants s) ''q'' of None \<Rightarrow> False | Some p \<Rightarrow>
        sp_source p \<noteq> ''agent'' \<and> participant_state_response demo_rt (w_memory w) ''S1'' (sp_role p) = Err Internal)))"
    by code_simp
  then show ?thesis by (auto split: option.splits)
qed

section \<open>A reconnect timer of an earlier disconnection\<close>

definition ended_cause :: "session_lifecycle \<Rightarrow> session_end_cause option" where
  "ended_cause l = (case l of Ended en \<Rightarrow> Some (end_cause en) | _ \<Rightarrow> None)"

fun run_at ::
    "('cfg, 's, 'a, 'obs, 'c) runtime \<Rightarrow> (int \<times> 'a request) list \<Rightarrow> 's intake \<Rightarrow> 's intake" where
  "run_at rt [] st = st"
| "run_at rt ((now, q) # qs) st = run_at rt qs (handle rt no_faults now q st)"

text \<open>C10 (safety). The grace period of a disconnection can be cut short: with a grace of 30
  seconds a participant disconnects at second 20, reconnects at 30 and disconnects again at 45; the
  timer of the first disconnection fires at 50, looks only at whether the participant is connected,
  and ends the session as a reconnect timeout although the announced deadline is second 75.\<close>

theorem stale_reconnect_timer:
  "\<exists>s p s'. session_in (it_world (run_at demo_rt [(20000, Disconnects ''S1'' ''p''), (30000, Connects ''S1'' ''p''),
         (45000, Disconnects ''S1'' ''p'')] playing_state)) ''S1'' = Some s \<and>
     map_of (ls_participants s) ''p'' = Some p \<and> sp_reconnect_deadline p = Some 75000 \<and>
     ls_pause s = Some (PartnerReconnecting 75000) \<and>
     session_in (it_world (run_at demo_rt [(20000, Disconnects ''S1'' ''p''), (30000, Connects ''S1'' ''p''),
         (45000, Disconnects ''S1'' ''p''), (50000, TimerFires ''S1'' ''p'')] playing_state)) ''S1'' = Some s' \<and>
     ended_cause (ls_lifecycle s') = Some (ReconnectTimedOut ''A'')"
proof -
  let ?a = "it_world (run_at demo_rt [(20000, Disconnects ''S1'' ''p''), (30000, Connects ''S1'' ''p''),
         (45000, Disconnects ''S1'' ''p'')] playing_state)"
  let ?b = "it_world (run_at demo_rt [(20000, Disconnects ''S1'' ''p''), (30000, Connects ''S1'' ''p''),
         (45000, Disconnects ''S1'' ''p''), (50000, TimerFires ''S1'' ''p'')] playing_state)"
  have "map_option (\<lambda>s. (map_option sp_reconnect_deadline (map_of (ls_participants s) ''p''), ls_pause s))
      (session_in ?a ''S1'') = Some (Some (Some 75000), Some (PartnerReconnecting 75000))"
    by code_simp
  moreover have "map_option (\<lambda>s. ended_cause (ls_lifecycle s)) (session_in ?b ''S1'')
      = Some (Some (ReconnectTimedOut ''A''))"
    by code_simp
  ultimately show ?thesis by (auto simp: map_option_eq_Some simp del: run_at.simps)
qed

section \<open>A session lost between its row and its room\<close>

text \<open>When reading the timing of a freshly created session fails, the request
  fails and no room is opened, but unlike every other failure of the creation the durable session is
  not closed: it stays forming, with no session in memory that could ever end it.\<close>

theorem timing_failure_leaks_session:
  "\<exists>w r. w = fst (create_live_session demo_rt (\<lambda>c. c = CallTiming) 5000 ''S9'' ''p'' ''direct'' RoleA 7 (it_world paired_state)) \<and>
     snd (create_live_session demo_rt (\<lambda>c. c = CallTiming) 5000 ''S9'' ''p'' ''direct'' RoleA 7 (it_world paired_state)) = Err StoreFailed \<and>
     find_session (w_db w) ''e'' 2 = Some r \<and> sr_lifecycle r = ''forming'' \<and> sr_public r = ''S9'' \<and>
     list_all (\<lambda>s. ls_session s \<noteq> 2) (sessions_of (w_memory w))"
proof -
  let ?x = "create_live_session demo_rt (\<lambda>c. c = CallTiming) 5000 ''S9'' ''p'' ''direct'' RoleA 7 (it_world paired_state)"
  have "snd ?x = Err StoreFailed \<and> list_all (\<lambda>s. ls_session s \<noteq> 2) (sessions_of (w_memory (fst ?x)))" by code_simp
  moreover have "map_option (\<lambda>r. (sr_lifecycle r = ''forming'', sr_public r)) (find_session (w_db (fst ?x)) ''e'' 2)
      = Some (True, ''S9'')"
    by code_simp
  ultimately show ?thesis by (auto simp: map_option_eq_Some)
qed

end
