(* ===== verification/Voice_Relay.thy ===== *)
theory Voice_Relay
  imports Json "HOL-Library.AList"
begin

text \<open>
  Live voice: the frame format and the relay of \<open>rust-server/src/audio.rs\<close>.

  A byte is \<open>8 word\<close>. The relay's hash maps are association lists. A channel of
  \<open>tokio::sync::mpsc\<close> is its buffered messages and whether its receiver still exists; it is named
  by the connection generation it was created with, since \<open>connect\<close> draws both together.

  A relayed message is two steps of the code: the target is looked up under the read lock, and the message
  is offered to its queue after the lock is released. Between them other calls of the relay can run, so
  a history has the two as operations of their own.
\<close>

section \<open>Frames\<close>

type_synonym byte = "8 word"

record audio_frame =
  af_sequence :: "32 word"
  af_timestamp :: "64 word"
  af_pcm :: "byte list"

datatype frame_error = WrongLength | UnsupportedVersion byte

definition frame_bytes :: nat where
  "frame_bytes = 960"

definition header_bytes :: nat where
  "header_bytes = 13"

definition protocol_version :: byte where
  "protocol_version = 1"

text \<open>\<open>to_be_bytes\<close> and \<open>from_be_bytes\<close> on the values of unsigned integers.\<close>

fun be_bytes :: "nat \<Rightarrow> nat \<Rightarrow> byte list" where
  "be_bytes 0 m = []"
| "be_bytes (Suc n) m = be_bytes n (m div 256) @ [of_nat (m mod 256)]"

definition be_value :: "byte list \<Rightarrow> nat" where
  "be_value bs = fold (\<lambda>b n. n * 256 + unat b) bs 0"

definition decode_frame :: "byte list \<Rightarrow> (frame_error, audio_frame) outcome" where
  "decode_frame bytes =
     (if length bytes \<noteq> header_bytes + frame_bytes then Err WrongLength
      else if bytes ! 0 \<noteq> protocol_version then Err (UnsupportedVersion (bytes ! 0))
      else Ok \<lparr>af_sequence = of_nat (be_value (take 4 (drop 1 bytes))),
               af_timestamp = of_nat (be_value (take 8 (drop 5 bytes))),
               af_pcm = drop header_bytes bytes\<rparr>)"

definition encode_frame :: "audio_frame \<Rightarrow> byte list" where
  "encode_frame f = [protocol_version] @ be_bytes 4 (unat (af_sequence f)) @
     be_bytes 8 (unat (af_timestamp f)) @ af_pcm f"

lemma length_be_bytes [simp]: "length (be_bytes n m) = n"
  by (induction n m rule: be_bytes.induct) simp_all

lemma be_value_snoc: "be_value (bs @ [b]) = be_value bs * 256 + unat b"
  by (simp add: be_value_def)

lemma byte_bound: "unat (b :: byte) < 256"
  using unsigned_less [of b] by simp

lemma be_value_bound: "be_value bs < 256 ^ length bs"
proof (induction bs rule: rev_induct)
  case (snoc b bs)
  then have "Suc (be_value bs) * 256 \<le> 256 ^ length bs * 256" by simp
  then show ?case using byte_bound [of b] by (simp add: be_value_snoc)
qed (simp add: be_value_def)

lemma be_value_bytes: "be_value (be_bytes n m) = m mod 256 ^ n"
proof (induction n m rule: be_bytes.induct)
  case (2 n m)
  have "unat (of_nat (m mod 256) :: byte) = m mod 256" by (simp add: unat_of_nat)
  then show ?case
    using 2 by (simp add: be_value_snoc mod_mult2_eq)
qed (simp add: be_value_def)

lemma be_bytes_value: "be_bytes (length bs) (be_value bs) = bs"
proof (induction bs rule: rev_induct)
  case (snoc b bs)
  have "be_value (bs @ [b]) div 256 = be_value bs" "be_value (bs @ [b]) mod 256 = unat b"
    using byte_bound [of b] by (simp_all add: be_value_snoc)
  then show ?case using snoc by simp
qed simp

lemma u32_bound: "unat (w :: 32 word) < 4294967296"
  using unsigned_less [of w] by simp

lemma u64_bound: "unat (w :: 64 word) < 18446744073709551616"
  using unsigned_less [of w] by simp

lemma be_u32: "of_nat (be_value (be_bytes 4 (unat w))) = (w :: 32 word)"
  using u32_bound [of w] by (simp add: be_value_bytes)

lemma be_u64: "of_nat (be_value (be_bytes 8 (unat w))) = (w :: 64 word)"
  using u64_bound [of w] by (simp add: be_value_bytes)

lemma u32_be: "length bs = 4 \<Longrightarrow> be_bytes 4 (unat (of_nat (be_value bs) :: 32 word)) = bs"
  using be_value_bound [of bs] be_bytes_value [of bs] by (simp add: unat_of_nat)

lemma u64_be: "length bs = 8 \<Longrightarrow> be_bytes 8 (unat (of_nat (be_value bs) :: 64 word)) = bs"
  using be_value_bound [of bs] be_bytes_value [of bs] by (simp add: unat_of_nat)

lemma split_message: "bs = take 1 bs @ take 4 (drop 1 bs) @ take 8 (drop 5 bs) @ drop 13 bs"
proof -
  have "drop 5 bs = take 8 (drop 5 bs) @ drop 13 bs"
    using append_take_drop_id [of 8 "drop 5 bs"] by simp
  moreover have "drop 1 bs = take 4 (drop 1 bs) @ drop 5 bs"
    using append_take_drop_id [of 4 "drop 1 bs"] by simp
  ultimately show ?thesis
    using append_take_drop_id [of 1 bs] by simp
qed

lemma decode_encode:
  "decode_frame (encode_frame f) = (if length (af_pcm f) = 960 then Ok f else Err WrongLength)"
  by (simp add: decode_frame_def encode_frame_def header_bytes_def frame_bytes_def protocol_version_def
      be_u32 be_u64 del: be_bytes.simps)

text \<open>Frames and their messages correspond one to one: a frame with 960 bytes of
  sound is read back from its encoding; a message that is accepted is the encoding of the frame it
  gave, which holds 960 bytes; and exactly the messages of 973 bytes with the version byte in front
  are accepted.\<close>

theorem frame_wire_format:
  "decode_frame (encode_frame f) = (if length (af_pcm f) = 960 then Ok f else Err WrongLength) \<and>
   (decode_frame bs = Ok g) = (bs = encode_frame g \<and> length (af_pcm g) = 960) \<and>
   is_ok (decode_frame bs) = (length bs = 973 \<and> hd bs = 1)"
proof (intro conjI)
  show "decode_frame (encode_frame f) = (if length (af_pcm f) = 960 then Ok f else Err WrongLength)"
    by (rule decode_encode)
  show "is_ok (decode_frame bs) = (length bs = 973 \<and> hd bs = 1)"
    by (cases bs) (auto simp: decode_frame_def header_bytes_def frame_bytes_def protocol_version_def)
  show "(decode_frame bs = Ok g) = (bs = encode_frame g \<and> length (af_pcm g) = 960)"
  proof
    assume ok: "decode_frame bs = Ok g"
    then have len: "length bs = 973" and v: "bs ! 0 = 1"
      by (auto simp: decode_frame_def header_bytes_def frame_bytes_def protocol_version_def split: if_splits)
    note split_message [of bs]
    moreover have "take 1 bs = [1]" using len v by (cases bs) auto
    ultimately show "bs = encode_frame g \<and> length (af_pcm g) = 960"
      using ok len v
      by (auto simp: decode_frame_def encode_frame_def header_bytes_def frame_bytes_def protocol_version_def
          u32_be u64_be simp del: be_bytes.simps)
  qed (simp add: decode_encode)
qed

section \<open>The relay\<close>

text \<open>A control message is the printed form of its JSON value.\<close>

datatype outbound = Binary "byte list" | ControlText json

record channel =
  ch_buffer :: "outbound list"
  ch_open :: bool

text \<open>\<open>re_pending\<close>: the messages whose target is looked up and which are not offered yet.\<close>

record relay =
  re_sessions :: "(string \<times> (string \<times> string) list) list"
  re_channels :: "(string \<times> channel) list"
  re_pending :: "(string \<times> outbound) list"

definition empty_relay :: relay where
  "empty_relay = \<lparr>re_sessions = [], re_channels = [], re_pending = []\<rparr>"

definition outbound_capacity :: nat where
  "outbound_capacity = 64"

definition audio_peer :: "relay \<Rightarrow> string \<Rightarrow> string \<Rightarrow> string option" where
  "audio_peer r sid role =
     (case map_of (re_sessions r) sid of None \<Rightarrow> None | Some peers \<Rightarrow> map_of peers role)"

definition audio_connect :: "string \<Rightarrow> string \<Rightarrow> string \<Rightarrow> relay \<Rightarrow> relay" where
  "audio_connect sid role gen r =
     (let peers = (case map_of (re_sessions r) sid of None \<Rightarrow> [] | Some ps \<Rightarrow> ps)
      in r\<lparr>re_sessions := AList.update sid (AList.update role gen peers) (re_sessions r),
           re_channels := AList.update gen \<lparr>ch_buffer = [], ch_open = True\<rparr> (re_channels r)\<rparr>)"

definition audio_disconnect :: "string \<Rightarrow> string \<Rightarrow> string \<Rightarrow> relay \<Rightarrow> relay" where
  "audio_disconnect sid role gen r =
     (case map_of (re_sessions r) sid of
        None \<Rightarrow> r
      | Some peers \<Rightarrow>
          let left = (if map_of peers role = Some gen then AList.delete role peers else peers)
          in r\<lparr>re_sessions := (if left = [] then AList.delete sid (re_sessions r)
                              else AList.update sid left (re_sessions r))\<rparr>)"

definition is_current :: "relay \<Rightarrow> string \<Rightarrow> string \<Rightarrow> string \<Rightarrow> bool" where
  "is_current r sid role gen \<longleftrightarrow> audio_peer r sid role = Some gen"

definition has_human_pair :: "relay \<Rightarrow> string \<Rightarrow> bool" where
  "has_human_pair r sid \<longleftrightarrow> audio_peer r sid ''A'' \<noteq> None \<and> audio_peer r sid ''B'' \<noteq> None"

text \<open>\<open>try_send\<close>: a full buffer or a receiver that is gone loses the message.\<close>

definition offer :: "outbound \<Rightarrow> channel \<Rightarrow> channel" where
  "offer m c = (if ch_open c \<and> length (ch_buffer c) < outbound_capacity
                then c\<lparr>ch_buffer := ch_buffer c @ [m]\<rparr> else c)"

definition send_to :: "string \<Rightarrow> outbound \<Rightarrow> relay \<Rightarrow> relay" where
  "send_to gen m r = r\<lparr>re_channels := AList.map_entry gen (offer m) (re_channels r)\<rparr>"

definition partner_role :: "string \<Rightarrow> string option" where
  "partner_role role = (if role = ''A'' then Some ''B'' else if role = ''B'' then Some ''A'' else None)"

text \<open>The first step of each way to send, and the second one, for the \<open>n\<close>-th message that is pending.\<close>

definition look_up :: "outbound \<Rightarrow> string list \<Rightarrow> relay \<Rightarrow> relay" where
  "look_up m gens r = r\<lparr>re_pending := re_pending r @ map (\<lambda>g. (g, m)) gens\<rparr>"

definition role_target :: "relay \<Rightarrow> string \<Rightarrow> string \<Rightarrow> string list" where
  "role_target r sid role = (case audio_peer r sid role of None \<Rightarrow> [] | Some gen \<Rightarrow> [gen])"

definition partner_lookup :: "string \<Rightarrow> string \<Rightarrow> byte list \<Rightarrow> relay \<Rightarrow> relay" where
  "partner_lookup sid role bytes r =
     look_up (Binary bytes) (case partner_role role of None \<Rightarrow> [] | Some q \<Rightarrow> role_target r sid q) r"

definition control_lookup :: "string \<Rightarrow> string \<Rightarrow> json \<Rightarrow> relay \<Rightarrow> relay" where
  "control_lookup sid role message r = look_up (ControlText message) (role_target r sid role) r"

definition agent_lookup :: "string \<Rightarrow> byte list \<Rightarrow> relay \<Rightarrow> relay" where
  "agent_lookup sid bytes r =
     look_up (Binary bytes) (case map_of (re_sessions r) sid of None \<Rightarrow> [] | Some peers \<Rightarrow> map snd peers) r"

definition deliver_pending :: "nat \<Rightarrow> relay \<Rightarrow> relay" where
  "deliver_pending n r =
     (if n < length (re_pending r)
      then send_to (fst (re_pending r ! n)) (snd (re_pending r ! n))
             (r\<lparr>re_pending := take n (re_pending r) @ drop (Suc n) (re_pending r)\<rparr>)
      else r)"

text \<open>A call that runs alone delivers what it looked up.\<close>

definition deliver_new :: "relay \<Rightarrow> relay \<Rightarrow> relay" where
  "deliver_new before r =
     (deliver_pending (length (re_pending before)) ^^ (length (re_pending r) - length (re_pending before))) r"

definition relay_partner :: "string \<Rightarrow> string \<Rightarrow> byte list \<Rightarrow> relay \<Rightarrow> relay" where
  "relay_partner sid role bytes r = deliver_new r (partner_lookup sid role bytes r)"

definition send_control :: "string \<Rightarrow> string \<Rightarrow> json \<Rightarrow> relay \<Rightarrow> relay" where
  "send_control sid role message r = deliver_new r (control_lookup sid role message r)"

definition publish_agent :: "string \<Rightarrow> byte list \<Rightarrow> relay \<Rightarrow> relay" where
  "publish_agent sid bytes r = deliver_new r (agent_lookup sid bytes r)"

text \<open>The task that writes a channel to its browser: it takes the oldest message; when it ends, its
  receiver is dropped with what is left.\<close>

definition take_outbound :: "string \<Rightarrow> relay \<Rightarrow> outbound option \<times> relay" where
  "take_outbound gen r =
     (case map_of (re_channels r) gen of
        None \<Rightarrow> (None, r)
      | Some c \<Rightarrow>
          (case ch_buffer c of [] \<Rightarrow> (None, r)
           | m # ms \<Rightarrow> (Some m, r\<lparr>re_channels := AList.update gen (c\<lparr>ch_buffer := ms\<rparr>) (re_channels r)\<rparr>)))"

definition drop_receiver :: "string \<Rightarrow> relay \<Rightarrow> relay" where
  "drop_receiver gen r =
     r\<lparr>re_channels := AList.map_entry gen (\<lambda>c. \<lparr>ch_buffer = [], ch_open = False\<rparr>) (re_channels r)\<rparr>"

section \<open>Histories\<close>

datatype relay_op =
    Connect string string string
  | Disconnect string string string
  | PartnerLookup string string "byte list"
  | ControlLookup string string json
  | AgentLookup string "byte list"
  | Deliver nat
  | TakeOutbound string
  | DropReceiver string

fun relay_step :: "relay_op \<Rightarrow> relay \<Rightarrow> relay" where
  "relay_step (Connect sid role gen) = audio_connect sid role gen"
| "relay_step (Disconnect sid role gen) = audio_disconnect sid role gen"
| "relay_step (PartnerLookup sid role bytes) = partner_lookup sid role bytes"
| "relay_step (ControlLookup sid role m) = control_lookup sid role m"
| "relay_step (AgentLookup sid bytes) = agent_lookup sid bytes"
| "relay_step (Deliver n) = deliver_pending n"
| "relay_step (TakeOutbound gen) = (\<lambda>r. snd (take_outbound gen r))"
| "relay_step (DropReceiver gen) = drop_receiver gen"

text \<open>What the relay promises: each role of a session belongs to the connection that took it last,
  until that connection itself leaves.\<close>

fun own :: "relay_op \<Rightarrow> (string \<times> string \<Rightarrow> string option) \<Rightarrow> string \<times> string \<Rightarrow> string option" where
  "own (Connect sid role gen) m = m((sid, role) \<mapsto> gen)"
| "own (Disconnect sid role gen) m = (if m (sid, role) = Some gen then m((sid, role) := None) else m)"
| "own op m = m"

definition owners :: "relay \<Rightarrow> string \<times> string \<Rightarrow> string option" where
  "owners r = (\<lambda>(sid, role). audio_peer r sid role)"

definition buffer :: "relay \<Rightarrow> string \<Rightarrow> outbound list" where
  "buffer r gen = (case map_of (re_channels r) gen of None \<Rightarrow> [] | Some c \<Rightarrow> ch_buffer c)"

definition listening :: "relay \<Rightarrow> string \<Rightarrow> bool" where
  "listening r gen = (case map_of (re_channels r) gen of None \<Rightarrow> False | Some c \<Rightarrow> ch_open c)"

fun connections :: "relay_op list \<Rightarrow> string list" where
  "connections [] = []"
| "connections (Connect sid role gen # ops) = gen # connections ops"
| "connections (op # ops) = connections ops"

definition relay_after :: "relay_op list \<Rightarrow> relay" where
  "relay_after ops = fold relay_step ops empty_relay"

definition owners_after :: "relay_op list \<Rightarrow> string \<times> string \<Rightarrow> string option" where
  "owners_after ops = fold own ops (\<lambda>x. None)"

lemma send_to_sessions [simp]: "re_sessions (send_to gen m r) = re_sessions r"
  by (simp add: send_to_def)

lemma phase_sessions [simp]:
  "re_sessions (partner_lookup sid role bytes r) = re_sessions r" "re_sessions (control_lookup sid role m r) = re_sessions r"
  "re_sessions (agent_lookup sid bytes r) = re_sessions r" "re_sessions (deliver_pending n r) = re_sessions r"
  by (simp_all add: partner_lookup_def control_lookup_def agent_lookup_def look_up_def deliver_pending_def)

lemma owners_by_sessions: "re_sessions r = re_sessions r' \<Longrightarrow> owners r = owners r'"
  by (simp add: owners_def audio_peer_def fun_eq_iff)

lemma owners_connect: "owners (audio_connect sid role gen r) = (owners r)((sid, role) \<mapsto> gen)"
  by (auto simp: owners_def audio_peer_def audio_connect_def Let_def fun_eq_iff AList.update_conv' split: option.splits)

lemma owners_disconnect:
  "owners (audio_disconnect sid role gen r)
     = (if owners r (sid, role) = Some gen then (owners r)((sid, role) := None) else owners r)"
proof (cases "map_of (re_sessions r) sid")
  case (Some peers)
  have "AList.delete role peers = [] \<Longrightarrow> map_of peers x = None" if "x \<noteq> role" for x
    using AList.map_of_delete [OF that, of peers] by simp
  then show ?thesis
    using Some
    by (auto simp: owners_def audio_peer_def audio_disconnect_def Let_def fun_eq_iff AList.update_conv'
        AList.delete_conv' split: option.splits if_splits)
qed (auto simp: owners_def audio_peer_def audio_disconnect_def fun_eq_iff)

lemma owners_step: "owners (relay_step op r) = own op (owners r)"
proof (cases op)
  case (TakeOutbound gen)
  then show ?thesis
    by (auto simp: take_outbound_def intro!: owners_by_sessions split: option.split list.split)
qed (auto simp: owners_connect owners_disconnect drop_receiver_def intro: owners_by_sessions)

lemma owners_history: "owners (relay_after ops) = owners_after ops"
proof -
  have "owners (fold relay_step ops r) = fold own ops (owners r)" for r
    by (induction ops arbitrary: r) (simp_all add: owners_step)
  moreover have "owners empty_relay = (\<lambda>x. None)"
    by (simp add: owners_def audio_peer_def empty_relay_def fun_eq_iff)
  ultimately show ?thesis by (simp add: relay_after_def owners_after_def)
qed

lemma sessions_keep_peers:
  assumes "\<forall>sid. map_of (re_sessions r) sid \<noteq> Some []"
  shows "map_of (re_sessions (relay_step op r)) sid \<noteq> Some []"
proof (cases op)
  case (Connect s role gen)
  then show ?thesis
    using assms by (auto simp: audio_connect_def Let_def AList.update_conv' split: option.splits)
next
  case (Disconnect s role gen)
  then show ?thesis
    using assms by (auto simp: audio_disconnect_def Let_def AList.update_conv' AList.delete_conv'
        split: option.splits)
next
  case (TakeOutbound gen)
  then show ?thesis using assms by (auto simp: take_outbound_def split: option.split list.split)
qed (use assms in \<open>simp_all add: drop_receiver_def\<close>)

text \<open>Whatever happens on the relay, a role of a session belongs to the connection
  that took it last, until that very connection leaves: an earlier connection of the same role that
  leaves late changes nothing. A session without peers is not kept.\<close>

theorem roles_belong_to_latest_connection:
  "is_current (relay_after ops) sid role gen = (owners_after ops (sid, role) = Some gen) \<and>
   has_human_pair (relay_after ops) sid
     = (owners_after ops (sid, ''A'') \<noteq> None \<and> owners_after ops (sid, ''B'') \<noteq> None) \<and>
   (map_of (re_sessions (relay_after ops)) sid = None) = (\<forall>q. owners_after ops (sid, q) = None)"
proof -
  have peer: "audio_peer (relay_after ops) sid q = owners_after ops (sid, q)" for q
    using fun_cong [OF owners_history, of ops "(sid, q)"] by (simp add: owners_def)
  have "\<forall>sid. map_of (re_sessions (fold relay_step ops r)) sid \<noteq> Some []"
    if "\<forall>sid. map_of (re_sessions r) sid \<noteq> Some []" for r
    using that by (induction ops arbitrary: r) (simp_all add: sessions_keep_peers)
  then have kept: "map_of (re_sessions (relay_after ops)) sid \<noteq> Some []"
    by (simp add: relay_after_def empty_relay_def)
  have "(map_of (re_sessions (relay_after ops)) sid = None) = (\<forall>q. owners_after ops (sid, q) = None)"
  proof (cases "map_of (re_sessions (relay_after ops)) sid")
    case (Some ps)
    then obtain q g qs where "ps = (q, g) # qs" using kept by (cases ps) auto
    then show ?thesis using Some by (auto simp: peer [symmetric] audio_peer_def)
  qed (simp add: peer [symmetric] audio_peer_def)
  then show ?thesis by (simp add: is_current_def has_human_pair_def peer)
qed

section \<open>Who hears a frame\<close>

lemma buffer_send_to: "buffer (send_to gen m r) g =
    buffer r g @ (if g = gen \<and> listening r g \<and> length (buffer r g) < 64 then [m] else [])"
  by (auto simp: buffer_def send_to_def listening_def offer_def outbound_capacity_def AList.map_of_map_entry
      split: option.splits)

lemma listening_send_to [simp]: "listening (send_to gen m r) g = listening r g"
  by (auto simp: send_to_def listening_def offer_def AList.map_of_map_entry split: option.splits)

lemma owners_distinct:
  assumes "distinct (connections ops)"
  shows "\<And>x g. owners_after ops x = Some g \<Longrightarrow> g \<in> set (connections ops)"
    and "\<And>x y g. owners_after ops x = Some g \<Longrightarrow> owners_after ops y = Some g \<Longrightarrow> x = y"
proof -
  have app: "connections (xs @ ys) = connections xs @ connections ys" for xs ys
    by (induction xs rule: connections.induct) simp_all
  have "(\<forall>x g. owners_after ops x = Some g \<longrightarrow> g \<in> set (connections ops)) \<and>
      (\<forall>x y g. owners_after ops x = Some g \<longrightarrow> owners_after ops y = Some g \<longrightarrow> x = y)"
    using assms
  proof (induction ops rule: rev_induct)
    case (snoc op ops)
    then have IH: "\<And>x g. owners_after ops x = Some g \<Longrightarrow> g \<in> set (connections ops)"
      "\<And>x y g. owners_after ops x = Some g \<Longrightarrow> owners_after ops y = Some g \<Longrightarrow> x = y"
      by (auto simp: app)
    have now: "owners_after (ops @ [op]) = own op (owners_after ops)" for op
      by (simp add: owners_after_def)
    show ?case
    proof (cases op)
      case (Connect sid role gen)
      then show ?thesis using snoc.prems IH unfolding now by (fastforce simp: app split: if_splits)
    next
      case (Disconnect sid role gen)
      then show ?thesis using IH unfolding now by (auto simp: app split: if_splits)
    qed (use IH in \<open>auto simp: app now\<close>)
  qed (simp add: owners_after_def)
  then show "\<And>x g. owners_after ops x = Some g \<Longrightarrow> g \<in> set (connections ops)"
    "\<And>x y g. owners_after ops x = Some g \<Longrightarrow> owners_after ops y = Some g \<Longrightarrow> x = y" by blast+
qed

text \<open>What the operations do to the queues and to the pending messages.\<close>

lemma phase_buffers [simp]:
  "buffer (partner_lookup sid role bytes r) g = buffer r g" "buffer (control_lookup sid role m r) g = buffer r g"
  "buffer (agent_lookup sid bytes r) g = buffer r g" "buffer (audio_disconnect sid role gen r) g = buffer r g"
  by (simp_all add: partner_lookup_def control_lookup_def agent_lookup_def look_up_def buffer_def audio_disconnect_def Let_def
      split: option.split)

lemma deliver_buffer:
  "buffer (deliver_pending n r) g = buffer r g @
     (if n < length (re_pending r) \<and> g = fst (re_pending r ! n) \<and> listening r g \<and> length (buffer r g) < 64
      then [snd (re_pending r ! n)] else [])"
proof -
  have "buffer (r\<lparr>re_pending := ps\<rparr>) g = buffer r g" "listening (r\<lparr>re_pending := ps\<rparr>) g = listening r g" for ps
    by (simp_all add: buffer_def listening_def)
  then show ?thesis by (auto simp: deliver_pending_def buffer_send_to)
qed

definition waiting :: "relay \<Rightarrow> string \<Rightarrow> outbound set" where
  "waiting r g = {m. (g, m) \<in> set (re_pending r)} \<union> set (buffer r g)"

text \<open>The messages an operation adds for a connection.\<close>

fun addressed :: "relay_op \<Rightarrow> relay \<Rightarrow> string \<Rightarrow> outbound set" where
  "addressed (PartnerLookup sid role bytes) r g =
     (if \<exists>q. partner_role role = Some q \<and> audio_peer r sid q = Some g then {Binary bytes} else {})"
| "addressed (ControlLookup sid role m) r g = (if audio_peer r sid role = Some g then {ControlText m} else {})"
| "addressed (AgentLookup sid bytes) r g = (if \<exists>q. audio_peer r sid q = Some g then {Binary bytes} else {})"
| "addressed op r g = {}"

definition peers_distinct :: "relay \<Rightarrow> bool" where
  "peers_distinct r \<longleftrightarrow> (\<forall>sid peers. map_of (re_sessions r) sid = Some peers \<longrightarrow> distinct (map fst peers))"

lemma peers_distinct_step: "peers_distinct r \<Longrightarrow> peers_distinct (relay_step op r)"
proof (cases op)
  case (Connect sid role gen)
  assume "peers_distinct r"
  then show ?thesis
    by (auto simp: Connect peers_distinct_def audio_connect_def Let_def AList.update_conv' AList.distinct_update
        split: option.splits)
next
  case (Disconnect sid role gen)
  assume "peers_distinct r"
  then show ?thesis
    by (auto simp: Disconnect peers_distinct_def audio_disconnect_def Let_def AList.update_conv' AList.delete_conv'
        AList.distinct_delete split: option.splits if_splits)
next
  case (TakeOutbound gen)
  assume "peers_distinct r"
  then show ?thesis
    by (auto simp: TakeOutbound peers_distinct_def take_outbound_def split: option.split list.split)
qed (auto simp: peers_distinct_def drop_receiver_def)

lemma waiting_step:
  assumes "peers_distinct r" "m \<in> waiting (relay_step op r) g"
  shows "m \<in> waiting r g \<or> m \<in> addressed op r g"
proof (cases op)
  case (Connect sid role gen)
  then show ?thesis
    using assms(2) by (auto simp: waiting_def audio_connect_def Let_def buffer_def AList.update_conv' split: if_splits)
next
  case (Disconnect sid role gen)
  have "re_pending (audio_disconnect sid role gen r) = re_pending r"
    by (simp add: audio_disconnect_def Let_def split: option.split)
  then show ?thesis using assms(2) by (simp add: Disconnect waiting_def)
next
  case (PartnerLookup sid role bytes)
  then show ?thesis
    using assms(2)
    by (cases "partner_role role"; cases "audio_peer r sid (the (partner_role role))")
      (simp_all add: waiting_def, auto simp: partner_lookup_def look_up_def role_target_def split: if_splits)
next
  case (ControlLookup sid role j)
  then show ?thesis
    using assms(2) by (auto simp: waiting_def) (auto simp: control_lookup_def look_up_def role_target_def split: option.splits)
next
  case (AgentLookup sid bytes)
  have "\<exists>q. audio_peer r sid q = Some g" if "map_of (re_sessions r) sid = Some peers" "g \<in> snd ` set peers" for peers
    using that assms(1) by (auto simp: audio_peer_def peers_distinct_def)
  then show ?thesis
    using assms(2) AgentLookup
    by (cases "map_of (re_sessions r) sid") (simp_all add: waiting_def, auto simp: agent_lookup_def look_up_def image_iff)
next
  case (Deliver n)
  have "re_pending (deliver_pending n r) = (if n < length (re_pending r) then take n (re_pending r) @ drop (Suc n) (re_pending r)
      else re_pending r)"
    by (simp add: deliver_pending_def send_to_def)
  then have "set (re_pending (deliver_pending n r)) \<subseteq> set (re_pending r)"
    using set_take_subset [of n "re_pending r"] set_drop_subset [of "Suc n" "re_pending r"] by auto
  moreover have "(g, m) \<in> set (re_pending r)" if "n < length (re_pending r)" "g = fst (re_pending r ! n)" "m = snd (re_pending r ! n)"
    using that nth_mem [OF that(1)] by simp
  ultimately show ?thesis
    using assms(2) by (auto simp: Deliver waiting_def deliver_buffer split: if_splits)
next
  case (TakeOutbound gen)
  then show ?thesis
    using assms(2) by (auto simp: waiting_def take_outbound_def buffer_def AList.update_conv' split: option.splits list.splits if_splits)
next
  case (DropReceiver gen)
  then show ?thesis
    using assms(2) by (auto simp: waiting_def drop_receiver_def buffer_def AList.map_of_map_entry split: option.splits if_splits)
qed

lemma relay_after_snoc: "relay_after (ops @ [op]) = relay_step op (relay_after ops)"
  by (simp add: relay_after_def)

lemma peers_distinct_after: "peers_distinct (relay_after ops)"
proof (induction ops rule: rev_induct)
  case (snoc op ops)
  then show ?case by (simp add: relay_after_snoc peers_distinct_step)
qed (simp add: peers_distinct_def relay_after_def empty_relay_def)

lemma waiting_origin:
  "m \<in> waiting (relay_after ops) g \<Longrightarrow>
     \<exists>before op since. ops = before @ op # since \<and> m \<in> addressed op (relay_after before) g"
proof (induction ops rule: rev_induct)
  case Nil
  then show ?case by (simp add: waiting_def buffer_def relay_after_def empty_relay_def)
next
  case (snoc op ops)
  then have "m \<in> waiting (relay_after ops) g \<or> m \<in> addressed op (relay_after ops) g"
    using waiting_step [OF peers_distinct_after] by (simp add: relay_after_snoc)
  then show ?case
  proof
    assume "m \<in> waiting (relay_after ops) g"
    then obtain before op' since where "ops = before @ op' # since" "m \<in> addressed op' (relay_after before) g"
      using snoc.IH by blast
    then show ?thesis
      by (intro exI [of _ before] exI [of _ op'] exI [of _ "since @ [op]"]) simp
  next
    assume "m \<in> addressed op (relay_after ops) g"
    then show ?thesis by (intro exI [of _ ops] exI [of _ op] exI [of _ "[]"]) simp
  qed
qed

text \<open>C38 (safety). Voice reaches the partner only, in every history of the relay in which each connection has its
  own generation, the two steps of a relayed message interleaved with everything else. A sound frame that
  waits for a connection, current, replaced or departed, was relayed by the other role of the session when
  that connection held the partner's role, and no other role of any session, or it was published by the
  agent of its session; relaying touches no queue until the frame is offered, and then only the queue of that
  connection, to whose end it is appended unless 64 messages wait there or its socket is gone.\<close>

theorem voice_reaches_only_partner:
  assumes "distinct (connections ops)"
  shows "(\<forall>g bytes. Binary bytes \<in> waiting (relay_after ops) g \<longrightarrow>
      (\<exists>before op since sid q. ops = before @ op # since \<and> owners_after before (sid, q) = Some g \<and>
        (\<forall>x. owners_after before x = Some g \<longrightarrow> x = (sid, q)) \<and>
        ((\<exists>role. op = PartnerLookup sid role bytes \<and> partner_role role = Some q) \<or> op = AgentLookup sid bytes))) \<and>
    (\<forall>sid role bytes g. buffer (partner_lookup sid role bytes (relay_after ops)) g = buffer (relay_after ops) g \<and>
      re_pending (partner_lookup sid role bytes (relay_after ops)) = re_pending (relay_after ops) @
        (case partner_role role of None \<Rightarrow> [] | Some q \<Rightarrow>
          (case owners_after ops (sid, q) of None \<Rightarrow> [] | Some h \<Rightarrow> [(h, Binary bytes)]))) \<and>
    (\<forall>n g. buffer (deliver_pending n (relay_after ops)) g = buffer (relay_after ops) g @
      (if n < length (re_pending (relay_after ops)) \<and> g = fst (re_pending (relay_after ops) ! n) \<and>
          listening (relay_after ops) g \<and> length (buffer (relay_after ops) g) < 64
       then [snd (re_pending (relay_after ops) ! n)] else []))"
proof (intro conjI allI impI)
  have peer: "audio_peer (relay_after ops) s p = owners_after ops (s, p)" for ops s p
    using fun_cong [OF owners_history, of ops "(s, p)"] by (simp add: owners_def)
  fix sid role bytes g
  show "buffer (partner_lookup sid role bytes (relay_after ops)) g = buffer (relay_after ops) g" by simp
  show "re_pending (partner_lookup sid role bytes (relay_after ops)) = re_pending (relay_after ops) @
        (case partner_role role of None \<Rightarrow> [] | Some q \<Rightarrow>
          (case owners_after ops (sid, q) of None \<Rightarrow> [] | Some h \<Rightarrow> [(h, Binary bytes)]))"
    by (simp add: partner_lookup_def look_up_def role_target_def peer split: option.split)
  fix bytes' g'
  assume "Binary bytes' \<in> waiting (relay_after ops) g'"
  then obtain before op since where ops: "ops = before @ op # since"
    and op: "Binary bytes' \<in> addressed op (relay_after before) g'"
    using waiting_origin by blast
  have "connections (xs @ ys) = connections xs @ connections ys" for xs ys
    by (induction xs rule: connections.induct) simp_all
  then have "distinct (connections before)" using assms ops by simp
  note only = owners_distinct(2) [OF this]
  have "\<exists>sid q. owners_after before (sid, q) = Some g' \<and>
      ((\<exists>role. op = PartnerLookup sid role bytes' \<and> partner_role role = Some q) \<or> op = AgentLookup sid bytes')"
    using op by (cases op) (auto simp: peer split: if_splits)
  then show "\<exists>before op since sid q. ops = before @ op # since \<and> owners_after before (sid, q) = Some g' \<and>
        (\<forall>x. owners_after before x = Some g' \<longrightarrow> x = (sid, q)) \<and>
        ((\<exists>role. op = PartnerLookup sid role bytes' \<and> partner_role role = Some q) \<or> op = AgentLookup sid bytes')"
    using ops only by blast
qed (rule deliver_buffer)

text \<open>A connection that is replaced between the two steps still gets the frame, its successor does not.\<close>

theorem voice_reaches_only_partner_witness:
  "let ops = [Connect ''s'' ''A'' ''g1'', Connect ''s'' ''B'' ''g2'', PartnerLookup ''s'' ''A'' [7], Connect ''s'' ''B'' ''g3''];
       r = deliver_pending 0 (relay_after ops)
   in buffer r ''g1'' = [] \<and> buffer r ''g2'' = [Binary [7]] \<and> buffer r ''g3'' = []"
proof -
  let ?ops = "[Connect ''s'' ''A'' ''g1'', Connect ''s'' ''B'' ''g2'', PartnerLookup ''s'' ''A'' [7], Connect ''s'' ''B'' ''g3'']"
  have b: "buffer (relay_after ?ops) ''g1'' = []" "buffer (relay_after ?ops) ''g2'' = []" "buffer (relay_after ?ops) ''g3'' = []"
    "listening (relay_after ?ops) ''g2''" "re_pending (relay_after ?ops) = [(''g2'', Binary [7])]" by code_simp+
  have "distinct (connections ?ops)" by simp
  from voice_reaches_only_partner [OF this] have "buffer (deliver_pending 0 (relay_after ?ops)) g = buffer (relay_after ?ops) g @
      (if 0 < length (re_pending (relay_after ?ops)) \<and> g = fst (re_pending (relay_after ?ops) ! 0) \<and>
          listening (relay_after ?ops) g \<and> length (buffer (relay_after ?ops) g) < 64
       then [snd (re_pending (relay_after ?ops) ! 0)] else [])" for g
    by blast
  then show ?thesis using b unfolding Let_def by simp
qed

end
