(* ===== verification/Transcript_Clock.thy ===== *)
theory Transcript_Clock
  imports Json
begin

text \<open>
  The correspondence between a speech provider's sample clock and a connection's capture clock,
  \<open>rust-server/src/transcription/clock.rs\<close>, with the transcript values of
  \<open>rust-server/src/transcription.rs\<close>.

  Every frame holds 20 ms of audio. The provider counts the samples it was given; frames that
  were muted or dropped leave gaps in capture time that the provider does not see. The clock maps
  the provider's boundaries back. Its times are \<open>int\<close>; where the code checks a 64-bit
  operation the check is written out, and the one unchecked 64-bit addition is a panic here (an
  optimised build wraps instead), which is shown never to happen.
\<close>

section \<open>Transcripts\<close>

record transcript_token =
  tk_kind :: string
  tk_text :: string
  tk_start :: int
  tk_end :: int
  tk_confidence :: "rat option"

record utterance =
  ut_start :: int
  ut_end :: int
  ut_text :: string
  ut_result_ids :: "string list"
  ut_tokens :: "transcript_token list"

section \<open>The clock\<close>

definition frame_ms :: int where
  "frame_ms = 20"

record clock_frame =
  cf_audio_start :: int
  cf_capture_start :: int

record transcription_clock =
  tc_frames :: "clock_frame list"
  tc_first_capture :: "int option"
  tc_audio_end :: int

definition new_clock :: transcription_clock where
  "new_clock = \<lparr>tc_frames = [], tc_first_capture = None, tc_audio_end = 0\<rparr>"

datatype clock_error =
    CaptureBackwards
  | CaptureOutOfRange
  | AudioOverflow
  | OutsideSupplied
  | PrecedesRetained
  | BoundaryOverflow
  | ReversedInterval

definition checked_i64 :: "int \<Rightarrow> int option" where
  "checked_i64 n = (if - (2 ^ 63) \<le> n \<and> n < 2 ^ 63 then Some n else None)"

text \<open>\<open>record\<close>: an error leaves what was already written, as the method does.\<close>

definition clock_record ::
    "int \<Rightarrow> transcription_clock \<Rightarrow> transcription_clock \<times> (clock_error, unit) outcome" where
  "clock_record ts c =
     (let origin = (case tc_first_capture c of None \<Rightarrow> ts | Some first \<Rightarrow> first);
          c1 = c\<lparr>tc_first_capture := Some origin\<rparr>
      in if ts < origin then (c1, Err CaptureBackwards)
         else if ts - origin \<ge> 2 ^ 63 then (c1, Err CaptureOutOfRange)
         else case (if tc_frames c = [] then Some (ts - origin)
                    else map_option (max (ts - origin))
                           (checked_i64 (cf_capture_start (last (tc_frames c)) + frame_ms))) of
             None \<Rightarrow> (c1, Panic)
           | Some capture \<Rightarrow>
               let c2 = c1\<lparr>tc_frames := tc_frames c @
                          [\<lparr>cf_audio_start = tc_audio_end c, cf_capture_start = capture\<rparr>]\<rparr>
               in case checked_i64 (tc_audio_end c + frame_ms) of
                    None \<Rightarrow> (c2, Err AudioOverflow)
                  | Some n \<Rightarrow> (c2\<lparr>tc_audio_end := n\<rparr>, Ok ()))"

definition boundary :: "transcription_clock \<Rightarrow> int \<Rightarrow> bool \<Rightarrow> (clock_error, int) outcome" where
  "boundary c t at_end =
     (if t < 0 \<or> t > tc_audio_end c then Err OutsideSupplied
      else obind (ok_or (find (\<lambda>f. cf_audio_start f < t \<or>
                      (\<not> at_end \<and> cf_audio_start f = t) \<or>
                      (t = 0 \<and> cf_audio_start f = 0)) (rev (tc_frames c))) PrecedesRetained)
        (\<lambda>f. ok_or (checked_i64 (cf_capture_start f + (t - cf_audio_start f))) BoundaryOverflow))"

definition map_token ::
    "transcription_clock \<Rightarrow> transcript_token \<Rightarrow> (clock_error, transcript_token) outcome" where
  "map_token c tok =
     (let point = (tk_start tok = tk_end tok)
      in obind (boundary c (tk_start tok) point) (\<lambda>s.
         obind (if point then Ok s else boundary c (tk_end tok) True) (\<lambda>e.
         Ok (tok\<lparr>tk_start := s, tk_end := e\<rparr>))))"

definition map_utterance ::
    "transcription_clock \<Rightarrow> utterance \<Rightarrow> (clock_error, utterance) outcome" where
  "map_utterance c u =
     obind (boundary c (ut_start u) False) (\<lambda>s.
     obind (boundary c (ut_end u) True) (\<lambda>e.
     obind (omap (map_token c) (ut_tokens u)) (\<lambda>toks.
       if e < s then Err ReversedInterval
       else Ok (u\<lparr>ut_start := s, ut_end := e, ut_tokens := toks\<rparr>))))"

text \<open>\<open>discard_before\<close>: the loop on the queue of frames.\<close>

fun discard_frames :: "int \<Rightarrow> clock_frame list \<Rightarrow> clock_frame list" where
  "discard_frames s (f # g # fs) =
     (if cf_audio_start g < s then discard_frames s (g # fs) else f # g # fs)"
| "discard_frames s fs = fs"

definition discard_before :: "int \<Rightarrow> transcription_clock \<Rightarrow> transcription_clock" where
  "discard_before s c = c\<lparr>tc_frames := discard_frames s (tc_frames c)\<rparr>"

section \<open>What the clock holds\<close>

text \<open>The reference: the capture time of every frame that was recorded.\<close>

fun later_captures :: "int \<Rightarrow> int \<Rightarrow> int list \<Rightarrow> int list" where
  "later_captures first prev [] = []"
| "later_captures first prev (t # ts) =
     (let c = max (t - first) (prev + 20) in c # later_captures first c ts)"

fun captures :: "int list \<Rightarrow> int list" where
  "captures [] = []"
| "captures (t # ts) = 0 # later_captures t 0 ts"

text \<open>The capture time of an instant of the supplied audio. An onset belongs to the frame that
  starts there, an end to the frame that ends there.\<close>

definition sample_frame :: "nat \<Rightarrow> int \<Rightarrow> bool \<Rightarrow> nat" where
  "sample_frame n t at_end = (if at_end then (nat t - 1) div 20 else min (nat t div 20) (n - 1))"

definition capture_time :: "int list \<Rightarrow> int \<Rightarrow> bool \<Rightarrow> int" where
  "capture_time cs t at_end =
     (let i = sample_frame (length cs) t at_end in cs ! i + (t - 20 * int i))"

datatype clock_op = Record int | Discard int

fun run_clock :: "clock_op list \<Rightarrow> transcription_clock \<Rightarrow> (clock_error, transcription_clock) outcome" where
  "run_clock [] c = Ok c"
| "run_clock (Record t # ops) c =
     (case clock_record t c of (c', r) \<Rightarrow> obind r (\<lambda>u. run_clock ops c'))"
| "run_clock (Discard s # ops) c = run_clock ops (discard_before s c)"

fun recorded :: "clock_op list \<Rightarrow> int list" where
  "recorded [] = []"
| "recorded (Record t # ops) = t # recorded ops"
| "recorded (Discard s # ops) = recorded ops"

fun discarded :: "clock_op list \<Rightarrow> int" where
  "discarded [] = 0"
| "discarded (Record t # ops) = discarded ops"
| "discarded (Discard s # ops) = max s (discarded ops)"

lemma later_captures_append:
  "later_captures f p (ts @ [t]) =
     (let cs = later_captures f p ts in cs @ [max (t - f) (last (p # cs) + 20)])"
  by (induction ts arbitrary: p) (auto simp: Let_def)

lemma captures_append:
  "ts \<noteq> [] \<Longrightarrow> captures (ts @ [t]) = captures ts @ [max (t - hd ts) (last (captures ts) + 20)]"
  by (cases ts) (auto simp: later_captures_append Let_def)

lemma length_later_captures [simp]: "length (later_captures f p ts) = length ts"
  by (induction ts arbitrary: p) (auto simp: Let_def)

lemma length_captures [simp]: "length (captures ts) = length ts"
  by (cases ts) simp_all

lemma captures_Nil [simp]: "captures ts = [] \<longleftrightarrow> ts = []"
  by (cases ts) simp_all

definition spaced :: "int list \<Rightarrow> bool" where
  "spaced cs \<longleftrightarrow> sorted_wrt (\<lambda>a b. a + 20 \<le> b) cs"

lemma spaced_later: "spaced (p # later_captures f p ts)"
  unfolding spaced_def
proof (induction ts arbitrary: p)
  case (Cons t ts)
  let ?c = "max (t - f) (p + 20)"
  from Cons [of ?c] show ?case by (fastforce simp: Let_def)
qed simp

lemma spaced_captures: "spaced (captures ts)"
  by (cases ts) (auto simp: spaced_later, simp add: spaced_def)

lemma spaced_nth: "spaced cs \<Longrightarrow> i < j \<Longrightarrow> j < length cs \<Longrightarrow> cs ! i + 20 * int (j - i) \<le> cs ! j"
proof (induction j)
  case (Suc j)
  then have step: "cs ! j + 20 \<le> cs ! Suc j"
    using sorted_wrt_nth_less [of "\<lambda>a b. a + 20 \<le> b" cs j "Suc j"] by (simp add: spaced_def)
  show ?case
  proof (cases "i = j")
    case False
    then have "cs ! i + 20 * int (j - i) \<le> cs ! j" using Suc by simp
    then show ?thesis using step Suc.prems(2) False by (simp add: of_nat_diff algebra_simps)
  qed (use step in simp)
qed simp

section \<open>The clock against the reference\<close>

definition all_frames :: "int list \<Rightarrow> clock_frame list" where
  "all_frames ts = map (\<lambda>i. \<lparr>cf_audio_start = 20 * int i, cf_capture_start = captures ts ! i\<rparr>) [0..<length ts]"

lemma length_all_frames [simp]: "length (all_frames ts) = length ts"
  by (simp add: all_frames_def)

lemma all_frames_nth [simp]:
  "i < length ts \<Longrightarrow> all_frames ts ! i = \<lparr>cf_audio_start = 20 * int i, cf_capture_start = captures ts ! i\<rparr>"
  by (simp add: all_frames_def)

lemma all_frames_snoc:
  "all_frames (ts @ [t]) = all_frames ts @
     [\<lparr>cf_audio_start = 20 * int (length ts),
       cf_capture_start = (if ts = [] then 0 else max (t - hd ts) (last (captures ts) + 20))\<rparr>]"
  by (rule nth_equalityI) (auto simp: captures_append nth_append all_frames_def simp del: upt_Suc)

text \<open>After \<open>ts\<close> were recorded and \<open>k\<close> frames released.\<close>

definition clock_after :: "int list \<Rightarrow> nat \<Rightarrow> transcription_clock \<Rightarrow> bool" where
  "clock_after ts k c \<longleftrightarrow>
     tc_frames c = drop k (all_frames ts) \<and> (k = 0 \<or> k < length ts) \<and>
     tc_first_capture c = (if ts = [] then None else Some (hd ts)) \<and>
     tc_audio_end c = 20 * int (length ts)"

lemma clock_after_new: "clock_after [] 0 new_clock"
  by (simp add: clock_after_def new_clock_def all_frames_def)

lemma last_all_frames:
  "k < length ts \<Longrightarrow> cf_capture_start (last (drop k (all_frames ts))) = last (captures ts)"
  by (cases ts rule: rev_cases) (auto simp: all_frames_snoc captures_append)

lemma clock_record_after:
  assumes "clock_after ts k c" "clock_record t c = (c', Ok u)"
  shows "clock_after (ts @ [t]) k c'"
proof -
  have empty: "tc_frames c = [] \<longleftrightarrow> ts = []" using assms(1) by (auto simp: clock_after_def)
  have "ts \<noteq> [] \<Longrightarrow> cf_capture_start (last (tc_frames c)) = last (captures ts)"
    using assms(1) by (auto simp: clock_after_def intro: last_all_frames)
  then show ?thesis
    using assms empty
    by (auto simp: clock_record_def clock_after_def Let_def all_frames_snoc frame_ms_def checked_i64_def
        split: if_splits option.splits)
qed

lemma discard_frames_drop:
  "\<exists>j. discard_frames s fs = drop j fs \<and> (j = 0 \<or> j < length fs \<and> cf_audio_start (fs ! j) < s)"
proof (induction s fs rule: discard_frames.induct)
  case (1 s f g fs)
  show ?case
  proof (cases "cf_audio_start g < s")
    case True
    with 1 obtain j where "discard_frames s (g # fs) = drop j (g # fs)"
      "j = 0 \<or> j < length (g # fs) \<and> cf_audio_start ((g # fs) ! j) < s" by blast
    then show ?thesis using True by (intro exI [of _ "Suc j"]) auto
  qed (simp add: exI [of _ 0])
qed (auto intro: exI [of _ 0])

lemma discard_before_after:
  assumes "clock_after ts k c"
  obtains k' where "clock_after ts k' (discard_before s c)" "k' = k \<or> 20 * int k' < s"
proof -
  obtain j where j: "discard_frames s (tc_frames c) = drop j (tc_frames c)"
    "j = 0 \<or> j < length (tc_frames c) \<and> cf_audio_start (tc_frames c ! j) < s"
    using discard_frames_drop by blast
  then have "clock_after ts (k + j) (discard_before s c)" "k + j = k \<or> 20 * int (k + j) < s"
    using assms by (auto simp: clock_after_def discard_before_def add.commute)
  then show ?thesis by (rule that)
qed

lemma run_clock_after:
  assumes "run_clock ops c = Ok c'" "clock_after ts k c" "k = 0 \<or> 20 * int k < d"
  shows "\<exists>k'. clock_after (ts @ recorded ops) k' c' \<and> (k' = 0 \<or> 20 * int k' < max d (discarded ops))"
  using assms
proof (induction ops c arbitrary: ts k d rule: run_clock.induct)
  case (2 t ops c)
  then obtain c1 where c1: "clock_record t c = (c1, Ok ())" "run_clock ops c1 = Ok c'"
    by (auto split: prod.splits)
  with 2 clock_record_after [OF 2(3) c1(1)] show ?case by (fastforce)
next
  case (3 s ops c)
  obtain k' where k': "clock_after ts k' (discard_before s c)" "k' = k \<or> 20 * int k' < s"
    using discard_before_after [OF 3(3)] .
  then have "k' = 0 \<or> 20 * int k' < max d s" using 3(4) by auto
  from 3(1) [OF _ k'(1) this] 3(2) show ?case by (simp add: max.assoc)
qed auto

lemma find_rev_last:
  assumes "i < length xs" "P (xs ! i)" "\<And>j. i < j \<Longrightarrow> j < length xs \<Longrightarrow> \<not> P (xs ! j)"
  shows "find P (rev xs) = Some (xs ! i)"
  using assms
proof (induction xs rule: rev_induct)
  case (snoc x xs)
  show ?case
  proof (cases "i = length xs")
    case False
    then have "i < length xs" using snoc.prems(1) by simp
    moreover have "\<not> P x" using snoc.prems(3) [of "length xs"] \<open>i < length xs\<close> by simp
    moreover have "\<not> P (xs ! j)" if "i < j" "j < length xs" for j
      using snoc.prems(3) [of j] that by (simp add: nth_append)
    ultimately show ?thesis using snoc.IH snoc.prems(2) by (simp add: nth_append)
  qed (use snoc.prems in simp)
qed simp

text \<open>A frame that qualifies for the boundary \<open>t\<close>, by its index.\<close>

definition qualifies :: "int \<Rightarrow> bool \<Rightarrow> nat \<Rightarrow> bool" where
  "qualifies t e i \<longleftrightarrow> 20 * int i < t \<or> (\<not> e \<and> 20 * int i = t) \<or> (t = 0 \<and> i = 0)"

lemma frame_index:
  fixes m n i :: nat
  assumes "n \<noteq> 0" "m \<le> 20 * n"
    and "i = (if e then (m - 1) div 20 else if m div 20 \<le> n - 1 then m div 20 else n - 1)"
  shows "i < n"
    and "(e \<and> m = 0 \<and> i = 0) \<or> (e \<and> 20 * i < m \<and> m \<le> 20 * i + 20) \<or>
      (\<not> e \<and> 20 * i \<le> m \<and> (m < 20 * i + 20 \<or> i = n - 1))"
proof -
  have "i < n \<and> ((e \<and> m = 0 \<and> i = 0) \<or> (e \<and> 20 * i < m \<and> m \<le> 20 * i + 20) \<or>
      (\<not> e \<and> 20 * i \<le> m \<and> (m < 20 * i + 20 \<or> i = n - 1)))"
  proof (cases e)
    case True
    have "m - 1 = 20 * i + (m - 1) mod 20" "(m - 1) mod 20 < 20" using assms(3) True by simp_all
    then show ?thesis using assms(1,2) True by linarith
  next
    case False
    have "m = 20 * (m div 20) + m mod 20" "m mod 20 < 20" by simp_all
    then show ?thesis using assms False by (auto split: if_splits)
  qed
  then show "i < n" and "(e \<and> m = 0 \<and> i = 0) \<or> (e \<and> 20 * i < m \<and> m \<le> 20 * i + 20) \<or>
      (\<not> e \<and> 20 * i \<le> m \<and> (m < 20 * i + 20 \<or> i = n - 1))"
    by blast+
qed

lemma qualifies_nat: "qualifies (int m) e i \<longleftrightarrow> 20 * i < m \<or> (\<not> e \<and> 20 * i = m) \<or> (m = 0 \<and> i = 0)"
proof -
  have "20 * int i < int m \<longleftrightarrow> 20 * i < m" "20 * int i = int m \<longleftrightarrow> 20 * i = m" by linarith+
  then show ?thesis by (simp add: qualifies_def)
qed

lemma sample_frame_chosen:
  assumes "0 \<le> t" "t \<le> 20 * int n" "n \<noteq> 0"
  shows "sample_frame n t e < n" "qualifies t e (sample_frame n t e)"
    "sample_frame n t e < j \<Longrightarrow> j < n \<Longrightarrow> \<not> qualifies t e j"
    "k < n \<Longrightarrow> 20 * int k < t \<Longrightarrow> k \<le> sample_frame n t e"
proof -
  obtain m where m: "t = int m" "m \<le> 20 * n" using assms(1,2) by (cases t) auto
  obtain i where i: "i = sample_frame n t e" by simp
  then have f: "i = (if e then (m - 1) div 20 else if m div 20 \<le> n - 1 then m div 20 else n - 1)"
    by (simp add: sample_frame_def m(1) min_def)
  note range = frame_index [OF assms(3) m(2) f]
  have "i < n" "qualifies t e i" "i < j \<Longrightarrow> j < n \<Longrightarrow> \<not> qualifies t e j"
    using range unfolding m(1) qualifies_nat by linarith+
  moreover have "k \<le> i" if "k < n" "20 * int k < t"
    using range that unfolding m(1) by linarith
  ultimately show "sample_frame n t e < n" "qualifies t e (sample_frame n t e)"
    "sample_frame n t e < j \<Longrightarrow> j < n \<Longrightarrow> \<not> qualifies t e j"
    "k < n \<Longrightarrow> 20 * int k < t \<Longrightarrow> k \<le> sample_frame n t e"
    unfolding i by blast+
qed

lemma boundary_after:
  assumes "clock_after ts k c" "k = 0 \<or> 20 * int k < t" "0 \<le> t" "t \<le> 20 * int (length ts)" "ts \<noteq> []"
  shows "boundary c t e = ok_or (checked_i64 (capture_time (captures ts) t e)) BoundaryOverflow"
proof -
  let ?i = "sample_frame (length ts) t e"
  let ?P = "\<lambda>f. cf_audio_start f < t \<or> (\<not> e \<and> cf_audio_start f = t) \<or> (t = 0 \<and> cf_audio_start f = 0)"
  have n: "length ts \<noteq> 0" using assms(5) by simp
  note i = sample_frame_chosen [OF assms(3,4) n]
  have k: "k \<le> ?i" using assms(1,2) i(4) n by (auto simp: clock_after_def)
  have "find ?P (rev (drop k (all_frames ts))) = Some (drop k (all_frames ts) ! (?i - k))"
  proof (rule find_rev_last)
    show "?i - k < length (drop k (all_frames ts))" using i(1) [of e] k by simp
    show "?P (drop k (all_frames ts) ! (?i - k))" using i(1,2) [of e] k by (simp add: qualifies_def)
    show "\<not> ?P (drop k (all_frames ts) ! j)" if "?i - k < j" "j < length (drop k (all_frames ts))" for j
      using i(3) [of e "k + j"] that k by (auto simp: qualifies_def)
  qed
  moreover have "drop k (all_frames ts) ! (?i - k) = all_frames ts ! ?i" using k i(1) [of e] by simp
  ultimately show ?thesis
    using assms(1,3,4) i(1) [of e] by (simp add: boundary_def clock_after_def capture_time_def ok_or_def Let_def)
qed

section \<open>Mapping\<close>

lemma discarded_nonneg: "0 \<le> discarded ops"
  by (induction ops rule: discarded.induct) auto

text \<open>C37 (equivalence). A boundary of the supplied audio maps to the capture time of the sample it
  names: whatever frames were recorded, with any jitter and gaps, and however often earlier frames
  were released, the search in the retained queue finds what the complete list of captures gives.
  Times before the last release are excluded.\<close>

theorem boundary_correct:
  assumes "run_clock ops new_clock = Ok c" "recorded ops \<noteq> []"
    and "discarded ops \<le> t" "t \<le> 20 * int (length (recorded ops))"
  shows "boundary c t e
       = ok_or (checked_i64 (capture_time (captures (recorded ops)) t e)) BoundaryOverflow"
proof -
  obtain k where k: "clock_after (recorded ops) k c" "k = 0 \<or> 20 * int k < max 0 (discarded ops)"
    using run_clock_after [OF assms(1) clock_after_new, of 0] by auto
  then show ?thesis
    using boundary_after [OF k(1)] assms(2-4) discarded_nonneg [of ops] by auto
qed

theorem boundary_correct_witness:
  "\<exists>c. run_clock [Record 900, Record 2920, Record 2930, Discard 20] new_clock = Ok c \<and>
     boundary c 20 True = Ok 20 \<and> boundary c 20 False = Ok 2020 \<and> boundary c 60 True = Ok 2060"
proof -
  let ?ops = "[Record 900, Record 2920, Record 2930, Discard 20]"
  obtain c where c: "run_clock ?ops new_clock = Ok c"
    by (simp add: clock_record_def new_clock_def frame_ms_def checked_i64_def)
  have "boundary c t e = ok_or (checked_i64 (capture_time (captures (recorded ?ops)) t e)) BoundaryOverflow"
    if "20 \<le> t" "t \<le> 60" for t e
    using boundary_correct [OF c, of t e] that by simp
  then show ?thesis
    using c by (simp add: capture_time_def sample_frame_def checked_i64_def ok_or_def)
qed

lemma capture_time_gap:
  assumes "spaced cs" "sample_frame (length cs) t e \<le> sample_frame (length cs) t' e'"
    and "sample_frame (length cs) t' e' < length cs"
  shows "capture_time cs t e + (t' - t) \<le> capture_time cs t' e'"
proof -
  let ?i = "sample_frame (length cs) t e" and ?j = "sample_frame (length cs) t' e'"
  have "cs ! ?i + 20 * int (?j - ?i) \<le> cs ! ?j"
    using spaced_nth [OF assms(1), of ?i ?j] assms(2,3) by (cases "?i = ?j") auto
  then show ?thesis using assms(2) by (simp add: capture_time_def Let_def of_nat_diff)
qed

text \<open>Onsets are mapped in order, ends are mapped in order, and an onset never after a later end.\<close>

lemma sample_frame_order:
  assumes "0 \<le> t" "t \<le> t'" "e \<longrightarrow> e'" "\<not> e \<and> e' \<longrightarrow> t < t'"
  shows "sample_frame n t e \<le> sample_frame n t' e'"
proof -
  have le: "nat t \<le> nat t'" using assms by simp
  consider "e" "e'" | "\<not> e" "e'" | "\<not> e" "\<not> e'" using assms(3) by blast
  then show ?thesis
  proof cases
    case 1
    then show ?thesis using le by (simp add: sample_frame_def div_le_mono diff_le_mono)
  next
    case 2
    then have "nat t \<le> nat t' - 1" using assms by linarith
    then have "nat t div 20 \<le> (nat t' - 1) div 20" by (rule div_le_mono)
    then show ?thesis using 2 by (simp add: sample_frame_def min.coboundedI1)
  next
    case 3
    have "nat t div 20 \<le> nat t' div 20" using le by (rule div_le_mono)
    then show ?thesis using 3 by (simp add: sample_frame_def min.coboundedI1)
  qed
qed

lemma capture_time_order:
  assumes "0 \<le> t" "t \<le> t'" "e \<longrightarrow> e'" "\<not> e \<and> e' \<longrightarrow> t < t'" "t' \<le> 20 * int (length ts)" "ts \<noteq> []"
  shows "capture_time (captures ts) t e + (t' - t) \<le> capture_time (captures ts) t' e'"
proof (rule capture_time_gap [OF spaced_captures])
  show "sample_frame (length (captures ts)) t e \<le> sample_frame (length (captures ts)) t' e'"
    using assms(1-4) by (rule sample_frame_order)
  show "sample_frame (length (captures ts)) t' e' < length (captures ts)"
    using sample_frame_chosen(1) [of t' "length ts" e'] assms by simp
qed

lemma capture_time_range:
  assumes "0 \<le> t" "t \<le> 20 * int (length ts)" "ts \<noteq> []"
  shows "t \<le> capture_time (captures ts) t e" "capture_time (captures ts) t e \<le> last (captures ts) + 20"
proof -
  let ?n = "length ts" and ?i = "sample_frame (length ts) t e"
  have n: "?n \<noteq> 0" using assms(3) by simp
  note i = sample_frame_chosen [OF assms(1,2) n]
  have first: "captures ts ! 0 = 0" using assms(3) by (cases ts) auto
  have "captures ts ! 0 + 20 * int ?i \<le> captures ts ! ?i"
    using spaced_nth [OF spaced_captures, of 0 ?i ts] i(1) [of e] by (cases "?i = 0") auto
  then show "t \<le> capture_time (captures ts) t e" by (simp add: capture_time_def Let_def first)
  have "captures ts ! ?i + 20 * int (?n - 1 - ?i) \<le> captures ts ! (?n - 1)"
    using spaced_nth [OF spaced_captures, of ?i "?n - 1" ts] i(1) [of e] by (cases "?i = ?n - 1") auto
  moreover have "captures ts ! (?n - 1) = last (captures ts)" using assms(3) by (simp add: last_conv_nth)
  moreover have "t \<le> 20 * int ?n" by fact
  ultimately show "capture_time (captures ts) t e \<le> last (captures ts) + 20"
    using i(1) [of e] by (simp add: capture_time_def Let_def of_nat_diff)
qed

text \<open>The facts about one clock that mapping an utterance uses.\<close>

definition clock_maps :: "transcription_clock \<Rightarrow> int list \<Rightarrow> int \<Rightarrow> bool" where
  "clock_maps c ts from_ms \<longleftrightarrow>
     (\<forall>t e. from_ms \<le> t \<longrightarrow> t \<le> 20 * int (length ts) \<longrightarrow>
        boundary c t e = Ok (capture_time (captures ts) t e))"

lemma run_clock_maps:
  assumes "run_clock ops new_clock = Ok c" "recorded ops \<noteq> []" "last (captures (recorded ops)) < 2 ^ 63 - 20"
  shows "clock_maps c (recorded ops) (discarded ops)"
  unfolding clock_maps_def
proof (intro allI impI)
  fix t e
  assume t: "discarded ops \<le> t" "t \<le> 20 * int (length (recorded ops))"
  then have "0 \<le> t" using discarded_nonneg [of ops] by linarith
  from capture_time_range [OF this t(2) assms(2), of e] this
  have "checked_i64 (capture_time (captures (recorded ops)) t e) = Some (capture_time (captures (recorded ops)) t e)"
    using assms(3) by (simp add: checked_i64_def)
  then show "boundary c t e = Ok (capture_time (captures (recorded ops)) t e)"
    using boundary_correct [OF assms(1,2) t, of e] by (simp add: ok_or_def)
qed

text \<open>What mapping must do to an interval: it stays forward and is never shortened; a point stays
  a point.\<close>

definition token_mapped :: "transcript_token \<Rightarrow> transcript_token \<Rightarrow> bool" where
  "token_mapped a b \<longleftrightarrow> tk_kind b = tk_kind a \<and> tk_text b = tk_text a \<and> tk_confidence b = tk_confidence a \<and>
     tk_end a - tk_start a \<le> tk_end b - tk_start b \<and> (tk_start b = tk_end b \<longleftrightarrow> tk_start a = tk_end a)"

lemma map_token_maps:
  assumes "clock_maps c ts d" "0 \<le> d" "ts \<noteq> []"
    and "d \<le> tk_start a" "tk_start a \<le> tk_end a" "tk_end a \<le> 20 * int (length ts)"
  shows "\<exists>b. map_token c a = Ok b \<and> token_mapped a b \<and>
     tk_end b = capture_time (captures ts) (tk_end a) True \<and>
     tk_start b = capture_time (captures ts) (tk_start a) (tk_start a = tk_end a)"
proof (cases "tk_start a = tk_end a")
  case True
  then show ?thesis
    using assms by (simp add: map_token_def clock_maps_def token_mapped_def)
next
  case False
  have "capture_time (captures ts) (tk_start a) False + (tk_end a - tk_start a)
      \<le> capture_time (captures ts) (tk_end a) True"
    using assms False by (intro capture_time_order) auto
  then show ?thesis
    using assms False by (simp add: map_token_def clock_maps_def token_mapped_def)
qed

text \<open>Every utterance of positive length whose tokens lie inside it and which was
  not released is mapped: it is not shortened, its text and result identifiers stay, every token
  keeps its words and its place in the order, is not shortened, stays a point exactly if it was
  one, and a spoken word stays inside the utterance.\<close>

theorem utterance_is_mapped:
  assumes "run_clock ops new_clock = Ok c" "last (captures (recorded ops)) < 2 ^ 63 - 20"
    and "discarded ops \<le> ut_start u" "ut_start u < ut_end u" "ut_end u \<le> 20 * int (length (recorded ops))"
    and "list_all (\<lambda>a. ut_start u \<le> tk_start a \<and> tk_start a \<le> tk_end a \<and> tk_end a \<le> ut_end u) (ut_tokens u)"
  shows "\<exists>v. map_utterance c u = Ok v \<and> ut_text v = ut_text u \<and> ut_result_ids v = ut_result_ids u \<and>
     ut_end u - ut_start u \<le> ut_end v - ut_start v \<and>
     list_all2 token_mapped (ut_tokens u) (ut_tokens v) \<and>
     list_all (\<lambda>b. tk_start b = tk_end b \<or> ut_start v \<le> tk_start b \<and> tk_end b \<le> ut_end v) (ut_tokens v)"
proof -
  let ?ts = "recorded ops" and ?d = "discarded ops"
  let ?cs = "captures ?ts"
  have ts: "?ts \<noteq> []" and d: "0 \<le> ?d" using assms(3-5) discarded_nonneg [of ops] by auto
  note maps = run_clock_maps [OF assms(1) ts assms(2)]
  let ?s = "capture_time ?cs (ut_start u) False" and ?e = "capture_time ?cs (ut_end u) True"
  have se: "boundary c (ut_start u) False = Ok ?s" "boundary c (ut_end u) True = Ok ?e"
    using maps assms(3-5) by (auto simp: clock_maps_def)
  have long: "?s + (ut_end u - ut_start u) \<le> ?e"
    using assms(3-5) d ts by (intro capture_time_order) auto
  have tok: "\<exists>b. map_token c a = Ok b \<and> token_mapped a b \<and>
      (tk_start b = tk_end b \<or> ?s \<le> tk_start b \<and> tk_end b \<le> ?e)" if a: "a \<in> set (ut_tokens u)" for a
  proof -
    have in_u: "ut_start u \<le> tk_start a" "tk_start a \<le> tk_end a" "tk_end a \<le> ut_end u"
      using assms(6) a by (auto simp: list_all_iff)
    then obtain b where b: "map_token c a = Ok b" "token_mapped a b"
      "tk_end b = capture_time ?cs (tk_end a) True" "tk_start b = capture_time ?cs (tk_start a) (tk_start a = tk_end a)"
      using map_token_maps [OF maps d ts, of a] assms(3-5) by auto
    have "?s + (tk_start a - ut_start u) \<le> tk_start b" if "tk_start a \<noteq> tk_end a"
      unfolding b(4) using that in_u assms(3-5) d ts by (intro capture_time_order) auto
    moreover have "tk_end b + (ut_end u - tk_end a) \<le> ?e"
      unfolding b(3) using in_u assms(3-5) d ts by (intro capture_time_order) auto
    ultimately show ?thesis using b(1,2) in_u by (auto simp: token_mapped_def)
  qed
  have "\<exists>bs. omap (map_token c) as = Ok bs \<and> list_all2 token_mapped as bs \<and>
      list_all (\<lambda>b. tk_start b = tk_end b \<or> ?s \<le> tk_start b \<and> tk_end b \<le> ?e) bs"
    if "set as \<subseteq> set (ut_tokens u)" for as
    using that
  proof (induction as)
    case (Cons a as)
    then show ?case using tok [of a] by fastforce
  qed simp
  from this [of "ut_tokens u"] show ?thesis
    using se long assms(4) by (auto simp: map_utterance_def)
qed

text \<open>An utterance of no length at the start of a frame that follows a gap is never
  mapped: its onset is taken after the gap and its end before it, so the clock reports a reversed
  interval and the utterance is dropped, although a token at the same instant is mapped as a
  point.\<close>

theorem point_utterance_at_gap_dropped:
  assumes "run_clock ops new_clock = Ok c" "last (captures (recorded ops)) < 2 ^ 63 - 20"
    and "0 < i" "i < length (recorded ops)" "discarded ops \<le> 20 * int i"
    and "captures (recorded ops) ! (i - 1) + 20 < captures (recorded ops) ! i"
    and "ut_start u = 20 * int i" "ut_end u = 20 * int i"
    and "list_all (\<lambda>a. tk_start a = 20 * int i \<and> tk_end a = 20 * int i) (ut_tokens u)"
  shows "map_utterance c u = Err ReversedInterval \<and> is_ok (omap (map_token c) (ut_tokens u))"
proof -
  let ?cs = "captures (recorded ops)"
  have ts: "recorded ops \<noteq> []" using assms(4) by auto
  note maps = run_clock_maps [OF assms(1) ts assms(2), unfolded clock_maps_def, rule_format, of "20 * int i"]
  have n: "20 * int i \<le> 20 * int (length (recorded ops))" using assms(4) by simp
  have "sample_frame (length ?cs) (20 * int i) False = i" "sample_frame (length ?cs) (20 * int i) True = i - 1"
    using assms(3,4) by (auto simp: sample_frame_def nat_mult_distrib)
  then have late: "capture_time ?cs (20 * int i) False = ?cs ! i"
    and early: "capture_time ?cs (20 * int i) True = ?cs ! (i - 1) + 20"
    using assms(3) by (auto simp: capture_time_def of_nat_diff)
  have "is_ok (omap (map_token c) as)"
    if "list_all (\<lambda>a. tk_start a = 20 * int i \<and> tk_end a = 20 * int i) as" for as
    using that maps [OF assms(5) n] by (induction as) (auto simp: is_ok_iff map_token_def)
  then have toks: "is_ok (omap (map_token c) (ut_tokens u))" using assms(9) .
  then show ?thesis
    using assms(6-8) maps [OF assms(5) n] late early by (auto simp: map_utterance_def is_ok_iff)
qed

definition full_stop :: transcript_token where
  "full_stop = \<lparr>tk_kind = ''punctuation'', tk_text = ''.'', tk_start = 20, tk_end = 20, tk_confidence = None\<rparr>"

definition one_word :: utterance where
  "one_word = \<lparr>ut_start = 0, ut_end = 40, ut_text = ''a b.'', ut_result_ids = [],
     ut_tokens = [\<lparr>tk_kind = ''word'', tk_text = ''a'', tk_start = 0, tk_end = 20, tk_confidence = None\<rparr>,
       full_stop, \<lparr>tk_kind = ''word'', tk_text = ''b'', tk_start = 20, tk_end = 40, tk_confidence = None\<rparr>]\<rparr>"

lemma gap_clock: "\<exists>c. run_clock [Record 1000, Record 3020] new_clock = Ok c"
  by (simp add: clock_record_def new_clock_def frame_ms_def checked_i64_def)

theorem utterance_is_mapped_witness:
  "\<exists>c v. run_clock [Record 1000, Record 3020] new_clock = Ok c \<and> map_utterance c one_word = Ok v \<and>
     40 \<le> ut_end v - ut_start v"
proof -
  obtain c where c: "run_clock [Record 1000, Record 3020] new_clock = Ok c" using gap_clock by blast
  show ?thesis
    using utterance_is_mapped [OF c, of one_word] c by (auto simp: one_word_def full_stop_def)
qed

theorem point_utterance_at_gap_dropped_witness:
  "\<exists>c. run_clock [Record 1000, Record 3020] new_clock = Ok c \<and>
     map_utterance c \<lparr>ut_start = 20, ut_end = 20, ut_text = ''.'', ut_result_ids = [], ut_tokens = [full_stop]\<rparr>
       = Err ReversedInterval"
proof -
  obtain c where c: "run_clock [Record 1000, Record 3020] new_clock = Ok c" using gap_clock by blast
  show ?thesis
    using point_utterance_at_gap_dropped [OF c, of 1
        "\<lparr>ut_start = 20, ut_end = 20, ut_text = ''.'', ut_result_ids = [], ut_tokens = [full_stop]\<rparr>"] c
    by (simp add: full_stop_def)
qed

section \<open>Recording never fails on timestamps that stay in range\<close>

lemma last_capture_bound:
  assumes "\<forall>t \<in> set ts. t \<le> hd ts + w" "0 \<le> w" "ts \<noteq> []"
  shows "0 \<le> last (captures ts)" "last (captures ts) \<le> w + 20 * int (length ts)"
proof -
  have "0 \<le> last (captures ts) \<and> last (captures ts) \<le> w + 20 * int (length ts)"
    using assms
  proof (induction ts rule: rev_induct)
    case (snoc t ts)
    then show ?case
      by (cases "ts = []") (auto simp: captures_append hd_append)
  qed simp
  then show "0 \<le> last (captures ts)" "last (captures ts) \<le> w + 20 * int (length ts)" by auto
qed

lemma clock_record_succeeds:
  assumes "clock_after ts k c" "\<forall>x \<in> set (ts @ [t]). hd (ts @ [t]) \<le> x \<and> x \<le> hd (ts @ [t]) + w"
    and "0 \<le> w" "w + 20 * int (length ts) + 20 < 2 ^ 63"
  shows "snd (clock_record t c) = Ok ()"
proof (cases "ts = []")
  case True
  then show ?thesis
    using assms by (simp add: clock_record_def clock_after_def all_frames_def frame_ms_def checked_i64_def Let_def)
next
  case False
  have "hd (ts @ [t]) = hd ts" using False by simp
  then have ts: "\<forall>x \<in> set ts. x \<le> hd ts + w" and t: "hd ts \<le> t" "t \<le> hd ts + w" using assms(2) by auto
  have "cf_capture_start (last (tc_frames c)) = last (captures ts)" "tc_frames c \<noteq> []"
    using assms(1) False by (auto simp: clock_after_def intro: last_all_frames)
  then show ?thesis
    using assms False t last_capture_bound [OF ts assms(3) False]
    by (simp add: clock_record_def clock_after_def frame_ms_def checked_i64_def Let_def)
qed

end
