(* ===== verification/Voice_Socket.thy ===== *)
theory Voice_Socket
  imports Voice_Relay Transcript_Clock Session_Demo
begin

text \<open>
  One participant's audio socket: what \<open>audio_websocket_loop\<close> of \<open>rust-server/src/app.rs\<close> does
  with a binary message, from its timing checks to the relay and the transcription queue.

  The relay, the sessions and the provider's queue are shared with other tasks, so a message is
  handled against whatever they hold at that moment; only the socket's own variables are carried
  from message to message. Liveness marks and telemetry counters are left out.
\<close>

section \<open>The loop's variables\<close>

record media_socket =
  md_first :: "64 word option"
  md_last_sequence :: "32 word option"
  md_last_timestamp :: "64 word option"
  md_dropped :: nat
  md_last_touch :: int
  md_clock :: transcription_clock
  md_stream_started :: "int option"

text \<open>What the loop reads while it handles one message: the wall clock, the milliseconds since the
  media started, a monotonic clock and whether the provider's queue had room.\<close>

record media_env =
  me_now :: int
  me_elapsed :: nat
  me_instant :: int
  me_queue_free :: bool

definition new_socket :: "int \<Rightarrow> media_socket" where
  "new_socket instant = \<lparr>md_first = None, md_last_sequence = None, md_last_timestamp = None,
     md_dropped = 0, md_last_touch = instant, md_clock = new_clock, md_stream_started = None\<rparr>"

definition u64_max :: nat where
  "u64_max = 2 ^ 64 - 1"

definition timing_valid :: "media_socket \<Rightarrow> 64 word \<Rightarrow> audio_frame \<Rightarrow> nat \<Rightarrow> bool" where
  "timing_valid st origin f elapsed \<longleftrightarrow>
     (case md_last_sequence st of None \<Rightarrow> True | Some n \<Rightarrow> af_sequence f > n) \<and>
     (case md_last_timestamp st of None \<Rightarrow> True | Some t \<Rightarrow> af_timestamp f \<ge> t) \<and>
     unat (af_timestamp f) - unat origin \<le> min (min (elapsed * 2) u64_max + 5000) u64_max"

definition falling_behind :: json where
  "falling_behind = JObj [(''message'', JStr ''ASR is falling behind''), (''ready'', JBool False),
     (''type'', JStr ''transcriptionStatus'')]"

text \<open>The outcome of one message: the loop's new variables, the shared state, whether the loop goes
  on, the frame the partner was offered and whether the provider took it.\<close>

record 's media_result =
  mr_socket :: media_socket
  mr_relay :: relay
  mr_world :: "'s world"
  mr_continue :: bool
  mr_relayed :: "audio_frame option"
  mr_queued :: bool

definition media_message ::
    "experiment_config \<Rightarrow> (store_call \<Rightarrow> bool) \<Rightarrow> string \<Rightarrow> string \<Rightarrow> string \<Rightarrow> bool \<Rightarrow>
     media_env \<Rightarrow> byte list \<Rightarrow> relay \<Rightarrow> 's world \<Rightarrow> media_socket \<Rightarrow> 's media_result" where
  "media_message c io sid role gen transcribing env bytes r w st =
     (case decode_frame bytes of
        Ok f \<Rightarrow>
          let origin = (case md_first st of None \<Rightarrow> af_timestamp f | Some t \<Rightarrow> t);
              st1 = st\<lparr>md_first := Some origin\<rparr>
          in if \<not> timing_valid st1 origin f (me_elapsed env)
             then \<lparr>mr_socket = st1\<lparr>md_dropped := md_dropped st1 + 1\<rparr>, mr_relay = r, mr_world = w,
                   mr_continue = True, mr_relayed = None, mr_queued = False\<rparr>
             else
               let st2 = st1\<lparr>md_last_sequence := Some (af_sequence f),
                             md_last_timestamp := Some (af_timestamp f)\<rparr>;
                   idle = me_instant env - md_last_touch st2 \<ge> 30000;
                   w1 = (if idle then touch_session_activity c io (me_now env) sid w else w);
                   st3 = (if idle then st2\<lparr>md_last_touch := me_instant env\<rparr> else st2)
               in if \<not> is_current r sid role gen
                  then \<lparr>mr_socket = st3, mr_relay = r, mr_world = w1, mr_continue = False,
                        mr_relayed = None, mr_queued = False\<rparr>
                  else if \<not> (case session_in w1 sid of None \<Rightarrow> False
                               | Some s \<Rightarrow> session_accepts_audio (me_now env) s)
                  then \<lparr>mr_socket = st3, mr_relay = r, mr_world = w1, mr_continue = True,
                        mr_relayed = None, mr_queued = False\<rparr>
                  else
                    let r1 = relay_partner sid role bytes r
                    in if transcribing \<and>
                          (case session_in w1 sid of None \<Rightarrow> False | Some s \<Rightarrow> session_is_active s)
                       then if me_queue_free env
                            then \<lparr>mr_socket = st3\<lparr>
                                    md_stream_started :=
                                      (case md_stream_started st3 of None \<Rightarrow> Some (me_now env) | Some t \<Rightarrow> Some t),
                                    md_clock := fst (clock_record (uint (af_timestamp f)) (md_clock st3))\<rparr>,
                                  mr_relay = r1, mr_world = w1, mr_continue = True,
                                  mr_relayed = Some f, mr_queued = True\<rparr>
                            else \<lparr>mr_socket = st3, mr_relay = send_control sid role falling_behind r1,
                                  mr_world = w1, mr_continue = True, mr_relayed = Some f, mr_queued = False\<rparr>
                       else \<lparr>mr_socket = st3, mr_relay = r1, mr_world = w1, mr_continue = True,
                             mr_relayed = Some f, mr_queued = False\<rparr>
      | _ \<Rightarrow> \<lparr>mr_socket = st\<lparr>md_dropped := md_dropped st + 1\<rparr>, mr_relay = r, mr_world = w,
               mr_continue = True, mr_relayed = None, mr_queued = False\<rparr>)"

text \<open>A stretch of the socket's life: messages, each against the shared state of its moment, and
  utterances the transcript task mapped, after which it releases frames of the shared clock.\<close>

datatype 's media_event =
    MediaMessage media_env "byte list" relay "'s world"
  | UtteranceMapped int

fun media_run ::
    "experiment_config \<Rightarrow> (store_call \<Rightarrow> bool) \<Rightarrow> string \<Rightarrow> string \<Rightarrow> string \<Rightarrow> bool \<Rightarrow>
     's media_event list \<Rightarrow> media_socket \<Rightarrow> media_socket \<times> audio_frame list \<times> clock_op list" where
  "media_run c io sid role gen tr [] st = (st, [], [])"
| "media_run c io sid role gen tr (UtteranceMapped s # evs) st =
     (case media_run c io sid role gen tr evs (st\<lparr>md_clock := discard_before s (md_clock st)\<rparr>) of
        (st', fs, ops) \<Rightarrow> (st', fs, Discard s # ops))"
| "media_run c io sid role gen tr (MediaMessage env bytes r w # evs) st =
     (let res = media_message c io sid role gen tr env bytes r w st
      in if \<not> mr_continue res then (mr_socket res, [], [])
         else case media_run c io sid role gen tr evs (mr_socket res) of
           (st', fs, ops) \<Rightarrow>
             (st', (case mr_relayed res of None \<Rightarrow> fs | Some f \<Rightarrow> f # fs),
              (case mr_relayed res of
                 Some f \<Rightarrow> (if mr_queued res then Record (uint (af_timestamp f)) # ops else ops)
               | None \<Rightarrow> ops)))"

section \<open>Accepted frames\<close>

definition origin_of :: "media_socket \<Rightarrow> audio_frame \<Rightarrow> 64 word" where
  "origin_of st f = (case md_first st of None \<Rightarrow> af_timestamp f | Some t \<Rightarrow> t)"

lemma media_message_cases:
  obtains (Dropped) n where
    "media_message c io sid role gen tr env bytes r w st
      = \<lparr>mr_socket = st\<lparr>md_dropped := n\<rparr>, mr_relay = r, mr_world = w, mr_continue = True,
         mr_relayed = None, mr_queued = False\<rparr>"
  | (Untimely) f n where "decode_frame bytes = Ok f"
    "\<not> timing_valid (st\<lparr>md_first := Some (origin_of st f)\<rparr>) (origin_of st f) f (me_elapsed env)"
    "media_message c io sid role gen tr env bytes r w st
      = \<lparr>mr_socket = st\<lparr>md_first := Some (origin_of st f), md_dropped := n\<rparr>, mr_relay = r, mr_world = w,
         mr_continue = True, mr_relayed = None, mr_queued = False\<rparr>"
  | (Timely) f touch started res where "decode_frame bytes = Ok f"
    "timing_valid (st\<lparr>md_first := Some (origin_of st f)\<rparr>) (origin_of st f) f (me_elapsed env)"
    "media_message c io sid role gen tr env bytes r w st = res"
    "mr_relayed res = None \<or> mr_relayed res = Some f" "mr_queued res \<Longrightarrow> mr_relayed res = Some f"
    "mr_socket res = st\<lparr>md_first := Some (origin_of st f), md_last_sequence := Some (af_sequence f),
       md_last_timestamp := Some (af_timestamp f), md_last_touch := touch, md_stream_started := started,
       md_clock := (if mr_queued res then fst (clock_record (uint (af_timestamp f)) (md_clock st)) else md_clock st)\<rparr>"
proof (cases "decode_frame bytes")
  case (Ok f)
  show ?thesis
  proof (cases "timing_valid (st\<lparr>md_first := Some (origin_of st f)\<rparr>) (origin_of st f) f (me_elapsed env)")
    case False
    then show ?thesis
      by (intro Untimely [OF Ok, of "md_dropped st + 1"])
        (simp_all add: media_message_def Ok origin_of_def [symmetric] Let_def)
  next
    case True
    show ?thesis
      by (rule Timely [OF Ok True refl,
            of "md_stream_started (mr_socket (media_message c io sid role gen tr env bytes r w st))"
               "md_last_touch (mr_socket (media_message c io sid role gen tr env bytes r w st))"])
        (use True in \<open>auto simp: media_message_def Ok origin_of_def [symmetric] Let_def split: if_splits\<close>)
  qed
next
  case (Err e)
  show ?thesis by (rule Dropped [of "md_dropped st + 1"]) (simp add: media_message_def Err)
next
  case Panic
  show ?thesis by (rule Dropped [of "md_dropped st + 1"]) (simp add: media_message_def Panic)
qed

section \<open>What the socket's variables record\<close>

definition media_bound :: nat where
  "media_bound = 2 ^ 60"

text \<open>\<open>ts\<close> are the capture times the provider's queue took, \<open>k\<close> of their frames are released, and
  no message came later than \<open>media_bound\<close> milliseconds (36 million years) after the start.\<close>

definition media_ok :: "int list \<Rightarrow> nat \<Rightarrow> media_socket \<Rightarrow> bool" where
  "media_ok ts k st \<longleftrightarrow> clock_after ts k (md_clock st) \<and> sorted ts \<and>
     (case (md_first st, md_last_sequence st, md_last_timestamp st) of
        (None, None, None) \<Rightarrow> ts = []
      | (Some o', Some n, Some t) \<Rightarrow> o' \<le> t \<and> (\<forall>x \<in> set ts. uint o' \<le> x \<and> x \<le> uint t) \<and>
          uint t \<le> uint o' + 2 * int media_bound + 5000
      | _ \<Rightarrow> False)"

lemma media_ok_new: "media_ok [] 0 (new_socket i)"
  by (simp add: media_ok_def new_socket_def clock_after_new)

lemma timely_frame:
  assumes "media_ok ts k st" "timing_valid (st\<lparr>md_first := Some (origin_of st f)\<rparr>) (origin_of st f) f elapsed"
    and "elapsed \<le> media_bound"
  shows "origin_of st f \<le> af_timestamp f"
    and "\<forall>x \<in> set ts. uint (origin_of st f) \<le> x \<and> x \<le> uint (af_timestamp f)"
    and "uint (af_timestamp f) \<le> uint (origin_of st f) + 2 * int media_bound + 5000"
    and "case md_last_sequence st of None \<Rightarrow> True | Some n \<Rightarrow> n < af_sequence f"
    and "case md_last_timestamp st of None \<Rightarrow> True | Some t \<Rightarrow> t \<le> af_timestamp f"
proof -
  have first: "origin_of st f \<le> af_timestamp f \<and>
      (\<forall>x \<in> set ts. uint (origin_of st f) \<le> x \<and> x \<le> uint (af_timestamp f))"
    using assms(1,2)
    by (auto simp: media_ok_def timing_valid_def origin_of_def word_le_def split: option.splits)
  then show "origin_of st f \<le> af_timestamp f"
    and "\<forall>x \<in> set ts. uint (origin_of st f) \<le> x \<and> x \<le> uint (af_timestamp f)" by auto
  have "unat (af_timestamp f) - unat (origin_of st f) \<le> 2 * media_bound + 5000"
    using assms(2,3) by (auto simp: timing_valid_def)
  moreover have "unat (origin_of st f) \<le> unat (af_timestamp f)"
    using first by (simp add: word_le_nat_alt)
  ultimately have "unat (af_timestamp f) \<le> unat (origin_of st f) + 2 * media_bound + 5000" by linarith
  then have "int (unat (af_timestamp f)) \<le> int (unat (origin_of st f)) + 2 * int media_bound + 5000" by linarith
  then show "uint (af_timestamp f) \<le> uint (origin_of st f) + 2 * int media_bound + 5000" by simp
  show "case md_last_sequence st of None \<Rightarrow> True | Some n \<Rightarrow> n < af_sequence f"
    and "case md_last_timestamp st of None \<Rightarrow> True | Some t \<Rightarrow> t \<le> af_timestamp f"
    using assms(2) by (auto simp: timing_valid_def split: option.splits)
qed

definition later :: "media_socket \<Rightarrow> audio_frame \<Rightarrow> bool" where
  "later st f \<longleftrightarrow>
     (case md_last_sequence st of None \<Rightarrow> True | Some n \<Rightarrow> n < af_sequence f) \<and>
     (case md_last_timestamp st of None \<Rightarrow> True | Some t \<Rightarrow> t \<le> af_timestamp f)"

lemma media_ok_accept:
  assumes "media_ok ts k st" "timing_valid (st\<lparr>md_first := Some (origin_of st f)\<rparr>) (origin_of st f) f elapsed"
    and "elapsed \<le> media_bound" "length ts \<le> 2 ^ 58" "uint (af_timestamp f) = t"
  shows "snd (clock_record t (md_clock st)) = Ok ()"
    and "clock_after (ts @ [t]) k (fst (clock_record t (md_clock st)))" and "sorted (ts @ [t])"
proof -
  note timely = timely_frame [OF assms(1-3)]
  have clock: "clock_after ts k (md_clock st)" and "sorted ts" using assms(1) by (auto simp: media_ok_def)
  then show sorted: "sorted (ts @ [t])" using timely(2) assms(5) by (auto simp: sorted_append)
  have "uint (origin_of st f) \<le> hd (ts @ [t])" "\<forall>x \<in> set (ts @ [t]). hd (ts @ [t]) \<le> x \<and> x \<le> t"
    using sorted timely(1,2) assms(5) by (cases ts; auto simp: word_le_def)+
  moreover have "t \<le> uint (origin_of st f) + 2 * int media_bound + 5000"
    using timely(3) assms(5) by simp
  ultimately have "\<forall>x \<in> set (ts @ [t]). hd (ts @ [t]) \<le> x \<and> x \<le> hd (ts @ [t]) + (2 * int media_bound + 5000)"
    by fastforce
  from clock_record_succeeds [OF clock this] assms(4)
  show ok: "snd (clock_record t (md_clock st)) = Ok ()" by (simp add: media_bound_def)
  show "clock_after (ts @ [t]) k (fst (clock_record t (md_clock st)))"
    by (rule clock_record_after [OF clock]) (use ok in \<open>simp add: prod_eq_iff\<close>)
qed

lemma media_step:
  assumes "media_ok ts k st" "me_elapsed env \<le> media_bound" "length ts \<le> 2 ^ 58"
    and res_def: "res = media_message c io sid role gen tr env bytes r w st"
  obtains (Queued) f where "mr_relayed res = Some f" "mr_queued res" "later st f"
      "clock_record (uint (af_timestamp f)) (md_clock st) = (md_clock (mr_socket res), Ok ())"
      "media_ok (ts @ [uint (af_timestamp f)]) k (mr_socket res)"
      "\<And>g. later (mr_socket res) g \<longleftrightarrow> af_sequence f < af_sequence g \<and> af_timestamp f \<le> af_timestamp g"
  | (Relayed) f where "mr_relayed res = Some f" "\<not> mr_queued res" "later st f"
      "md_clock (mr_socket res) = md_clock st" "media_ok ts k (mr_socket res)"
      "\<And>g. later (mr_socket res) g \<longleftrightarrow> af_sequence f < af_sequence g \<and> af_timestamp f \<le> af_timestamp g"
  | (Kept) "mr_relayed res = None" "md_clock (mr_socket res) = md_clock st" "media_ok ts k (mr_socket res)"
      "\<And>g. later (mr_socket res) g \<Longrightarrow> later st g"
proof (rule media_message_cases [of c io sid role gen tr env bytes r w st])
  fix n
  assume "media_message c io sid role gen tr env bytes r w st = \<lparr>mr_socket = st\<lparr>md_dropped := n\<rparr>, mr_relay = r,
     mr_world = w, mr_continue = True, mr_relayed = None, mr_queued = False\<rparr>"
  then show thesis using assms(1) by (intro Kept) (simp_all add: res_def media_ok_def later_def)
next
  fix f n
  assume late: "\<not> timing_valid (st\<lparr>md_first := Some (origin_of st f)\<rparr>) (origin_of st f) f (me_elapsed env)"
    and res: "media_message c io sid role gen tr env bytes r w st =
      \<lparr>mr_socket = st\<lparr>md_first := Some (origin_of st f), md_dropped := n\<rparr>, mr_relay = r,
       mr_world = w, mr_continue = True, mr_relayed = None, mr_queued = False\<rparr>"
  have "md_first st = Some (origin_of st f)"
    using assms(1) late by (auto simp: media_ok_def timing_valid_def origin_of_def split: option.splits)
  then show thesis using assms(1) res by (intro Kept) (simp_all add: res_def media_ok_def later_def)
next
  fix f touch started res'
  assume valid: "timing_valid (st\<lparr>md_first := Some (origin_of st f)\<rparr>) (origin_of st f) f (me_elapsed env)"
    and res: "media_message c io sid role gen tr env bytes r w st = res'"
    and relayed: "mr_relayed res' = None \<or> mr_relayed res' = Some f" "mr_queued res' \<Longrightarrow> mr_relayed res' = Some f"
    and socket: "mr_socket res' = st\<lparr>md_first := Some (origin_of st f), md_last_sequence := Some (af_sequence f),
       md_last_timestamp := Some (af_timestamp f), md_last_touch := touch, md_stream_started := started,
       md_clock := (if mr_queued res' then fst (clock_record (uint (af_timestamp f)) (md_clock st)) else md_clock st)\<rparr>"
  note timely = timely_frame [OF assms(1) valid assms(2)]
  note accept = media_ok_accept [OF assms(1) valid assms(2,3) refl]
  have later: "later st f" using timely(4,5) by (simp add: later_def)
  have nxt: "later (mr_socket res') g \<longleftrightarrow> af_sequence f < af_sequence g \<and> af_timestamp f \<le> af_timestamp g" for g
    by (simp add: later_def socket)
  have ok: "\<not> mr_queued res' \<Longrightarrow> media_ok ts k (mr_socket res')"
    using assms(1) timely(1-3) by (simp add: media_ok_def socket)
  consider "mr_queued res'" | "\<not> mr_queued res'" "mr_relayed res' = Some f" | "\<not> mr_queued res'" "mr_relayed res' = None"
    using relayed(1) by (cases "mr_queued res'") auto
  then show thesis
  proof cases
    case 1
    have "media_ok (ts @ [uint (af_timestamp f)]) k (mr_socket res')"
      using 1 accept timely(1-3) by (auto simp: media_ok_def socket word_le_def)
    then show thesis
      using 1 relayed(2) later nxt accept(1) socket
      by (intro Queued [of f]) (simp_all add: res_def res prod_eq_iff)
  next
    case 2
    then show thesis using later nxt ok socket by (intro Relayed [of f]) (simp_all add: res_def res)
  next
    case 3
    have "later st g" if "later (mr_socket res') g" for g
      using that later nxt [of g]
      by (auto simp: later_def intro: order.strict_trans order_trans split: option.splits)
    then show thesis using 3 ok socket by (intro Kept) (simp_all add: res_def res)
  qed
qed

section \<open>A whole connection\<close>

fun in_time :: "'s media_event list \<Rightarrow> bool" where
  "in_time [] \<longleftrightarrow> True"
| "in_time (MediaMessage env bytes r w # evs) \<longleftrightarrow> me_elapsed env \<le> media_bound \<and> in_time evs"
| "in_time (UtteranceMapped s # evs) \<longleftrightarrow> in_time evs"

definition frames_in_order :: "audio_frame list \<Rightarrow> bool" where
  "frames_in_order = sorted_wrt (\<lambda>f g. af_sequence f < af_sequence g \<and> af_timestamp f \<le> af_timestamp g)"

lemma media_run_ok:
  assumes "media_run c io sid role gen tr evs st = (st', fs, ops)" "media_ok ts k st" "in_time evs"
    and "length ts + length evs \<le> 2 ^ 58"
  shows "run_clock ops (md_clock st) = Ok (md_clock st')"
    and "\<exists>k'. media_ok (ts @ recorded ops) k' st'"
    and "length (recorded ops) \<le> length evs"
    and "frames_in_order fs" and "list_all (later st) fs"
proof -
  have "run_clock ops (md_clock st) = Ok (md_clock st') \<and> (\<exists>k'. media_ok (ts @ recorded ops) k' st') \<and>
      length (recorded ops) \<le> length evs \<and> frames_in_order fs \<and> list_all (later st) fs"
    using assms
  proof (induction evs arbitrary: st st' fs ops ts k)
    case Nil
    then show ?case by (auto simp: frames_in_order_def)
  next
    case (Cons ev evs)
    show ?case
    proof (cases ev)
      case (UtteranceMapped s)
      obtain k' where "clock_after ts k' (discard_before s (md_clock st))"
        using discard_before_after [of ts k "md_clock st" s] Cons.prems(2) by (auto simp: media_ok_def)
      then have ok: "media_ok ts k' (st\<lparr>md_clock := discard_before s (md_clock st)\<rparr>)"
        using Cons.prems(2) by (simp add: media_ok_def)
      obtain ops' where ops: "ops = Discard s # ops'"
        "media_run c io sid role gen tr evs (st\<lparr>md_clock := discard_before s (md_clock st)\<rparr>) = (st', fs, ops')"
        using Cons.prems(1) UtteranceMapped by (auto split: prod.splits)
      from Cons.IH [OF ops(2) ok] Cons.prems(3,4) UtteranceMapped show ?thesis
        by (auto simp: ops(1) later_def)
    next
      case (MediaMessage env bytes r w)
      obtain res where res: "res = media_message c io sid role gen tr env bytes r w st" by simp
      have time: "me_elapsed env \<le> media_bound" "in_time evs" and len: "length ts \<le> 2 ^ 58"
        using Cons.prems(3,4) MediaMessage by auto
      have stop: "st' = mr_socket res" "fs = []" "ops = []" if "\<not> mr_continue res"
        using that Cons.prems(1) by (simp_all add: MediaMessage res)
      have goes: "\<exists>fs' ops'. media_run c io sid role gen tr evs (mr_socket res) = (st', fs', ops') \<and>
          fs = (case mr_relayed res of None \<Rightarrow> fs' | Some f \<Rightarrow> f # fs') \<and>
          ops = (case mr_relayed res of Some f \<Rightarrow> (if mr_queued res then Record (uint (af_timestamp f)) # ops' else ops')
                 | None \<Rightarrow> ops')" if "mr_continue res"
        using that Cons.prems(1) by (auto simp: MediaMessage res [symmetric] Let_def split: prod.splits)
      have cont: "mr_continue res" if "mr_relayed res \<noteq> None"
        using that unfolding res by (auto simp: media_message_def Let_def split: outcome.splits if_splits)
      show ?thesis
        using Cons.prems(2) time(1) len res
      proof (cases rule: media_step)
        case (Queued f)
        then obtain fs' ops' where run: "media_run c io sid role gen tr evs (mr_socket res) = (st', fs', ops')"
          "fs = f # fs'" "ops = Record (uint (af_timestamp f)) # ops'" using goes cont by auto
        have "length (ts @ [uint (af_timestamp f)]) + length evs \<le> 2 ^ 58" using Cons.prems(4) by simp
        from Cons.IH [OF run(1) Queued(5) time(2) this] Queued show ?thesis
          by (auto simp: run(2,3) MediaMessage frames_in_order_def list_all_iff later_def
              intro: order.strict_trans order_trans split: option.splits)
      next
        case (Relayed f)
        then obtain fs' ops' where run: "media_run c io sid role gen tr evs (mr_socket res) = (st', fs', ops')"
          "fs = f # fs'" "ops = ops'" using goes cont by auto
        from Cons.IH [OF run(1) Relayed(5) time(2)] Relayed Cons.prems(4) show ?thesis
          by (auto simp: run(2,3) MediaMessage frames_in_order_def list_all_iff later_def
              intro: order.strict_trans order_trans split: option.splits)
      next
        case Kept
        show ?thesis
        proof (cases "mr_continue res")
          case True
          then obtain fs' ops' where run: "media_run c io sid role gen tr evs (mr_socket res) = (st', fs', ops')"
            "fs = fs'" "ops = ops'" using goes Kept by auto
          from Cons.IH [OF run(1) Kept(3) time(2)] Kept Cons.prems(4) show ?thesis
            by (auto simp: run(2,3) MediaMessage list_all_iff)
        next
          case False
          then show ?thesis using stop Kept by (auto simp: frames_in_order_def)
        qed
      qed
    qed
  qed
  then show "run_clock ops (md_clock st) = Ok (md_clock st')"
    and "\<exists>k'. media_ok (ts @ recorded ops) k' st'"
    and "length (recorded ops) \<le> length evs"
    and "frames_in_order fs" and "list_all (later st) fs" by auto
qed

lemma media_captures_bound:
  assumes "media_ok ts k st" "length ts \<le> 2 ^ 58" "ts \<noteq> []"
  shows "last (captures ts) < 2 ^ 63 - 20"
proof -
  obtain a b :: "64 word" where ab: "\<forall>x \<in> set ts. uint a \<le> x \<and> x \<le> uint b"
    "uint b \<le> uint a + 2 * int media_bound + 5000"
    using assms(1,3) by (auto simp: media_ok_def split: option.splits)
  have "\<forall>x \<in> set ts. x \<le> hd ts + (2 * int media_bound + 5000)"
  proof
    fix x
    assume "x \<in> set ts"
    then have "x \<le> uint b" "uint a \<le> hd ts" using ab(1) assms(3) by auto
    then show "x \<le> hd ts + (2 * int media_bound + 5000)" using ab(2) by linarith
  qed
  from last_capture_bound(2) [OF this] assms(2,3) show ?thesis by (simp add: media_bound_def)
qed

text \<open>On one connection, whatever the browser sends and whatever the relay, the sessions
  and the provider's queue hold at each message: the frames the partner is offered have strictly
  increasing sequence numbers and never go back in time; and recording the frames the provider took
  never fails, overflows or panics, also while earlier frames are released, so that the clock is the
  one that maps boundaries correctly and its capture times stay far from the 64-bit limit.\<close>

theorem media_clock_never_fails:
  assumes "media_run c io sid role gen tr evs (new_socket i) = (st, fs, ops)"
    and "in_time evs" "length evs \<le> 2 ^ 58"
  shows "frames_in_order fs \<and> run_clock ops new_clock = Ok (md_clock st) \<and>
    last (0 # captures (recorded ops)) < 2 ^ 63 - 20"
proof -
  have len: "length ([] :: int list) + length evs \<le> 2 ^ 58" using assms(3) by simp
  note run = media_run_ok [OF assms(1) media_ok_new assms(2) len]
  obtain k where "media_ok (recorded ops) k st" using run(2) by auto
  moreover have "length (recorded ops) \<le> 2 ^ 58" using run(3) assms(3) by linarith
  ultimately have "last (0 # captures (recorded ops)) < 2 ^ 63 - 20"
    using media_captures_bound by (cases "recorded ops = []") auto
  then show ?thesis using run(1,4) by (simp add: new_socket_def)
qed

definition quiet_frame :: "32 word \<Rightarrow> 64 word \<Rightarrow> audio_frame" where
  "quiet_frame n t = \<lparr>af_sequence = n, af_timestamp = t, af_pcm = replicate 960 0\<rparr>"

lemma quiet_frame_fields [simp]:
  "af_sequence (quiet_frame n t) = n" "af_timestamp (quiet_frame n t) = t"
  "decode_frame (encode_frame (quiet_frame n t)) = Ok (quiet_frame n t)"
  by (simp_all add: decode_encode quiet_frame_def)

definition spoken :: "nat \<Rightarrow> 32 word \<Rightarrow> 64 word \<Rightarrow> cue_choice_state media_event" where
  "spoken elapsed n t = MediaMessage \<lparr>me_now = 13000 + int elapsed, me_elapsed = elapsed,
       me_instant = int elapsed, me_queue_free = True\<rparr> (encode_frame (quiet_frame n t))
     (relay_after [Connect ''S1'' ''A'' ''g1'', Connect ''S1'' ''B'' ''g2'']) (it_world playing_state)"

definition spoken_events :: "cue_choice_state media_event list" where
  "spoken_events = [spoken 0 1 900, spoken 2000 3 2920, spoken 2010 2 2930, UtteranceMapped 20, spoken 2020 4 2930]"

lemma spoken_frames:
  "\<exists>st fs. media_run demo_config no_faults ''S1'' ''A'' ''g1'' True spoken_events (new_socket 0)
     = (st, fs, [Record 900, Record 2920, Discard 20, Record 2930]) \<and> map af_sequence fs = [1, 3, 4]"
proof -
  obtain s where s: "session_in (it_world playing_state) ''S1'' = Some s" "session_is_active s"
    "\<And>t. session_accepts_audio t s"
  proof -
    have "map_option (\<lambda>s. (ls_lifecycle s = Running, ls_pause s = None)) (session_in (it_world playing_state) ''S1'')
        = Some (True, True)" by code_simp
    then show thesis using that by (auto simp: session_is_active_def)
  qed
  have cur: "is_current (relay_after [Connect ''S1'' ''A'' ''g1'', Connect ''S1'' ''B'' ''g2'']) ''S1'' ''A'' ''g1''"
    by code_simp
  show ?thesis
    by (simp add: spoken_events_def spoken_def media_message_def cur s new_socket_def Let_def
        timing_valid_def u64_max_def del: session_accepts_audio.simps)
qed

theorem media_clock_never_fails_witness:
  "\<exists>st fs. media_run demo_config no_faults ''S1'' ''A'' ''g1'' True spoken_events (new_socket 0)
     = (st, fs, [Record 900, Record 2920, Discard 20, Record 2930]) \<and> map af_sequence fs = [1, 3, 4] \<and>
     run_clock [Record 900, Record 2920, Discard 20, Record 2930] new_clock = Ok (md_clock st)"
proof -
  obtain st fs where run: "media_run demo_config no_faults ''S1'' ''A'' ''g1'' True spoken_events (new_socket 0)
     = (st, fs, [Record 900, Record 2920, Discard 20, Record 2930])" "map af_sequence fs = [1, 3, 4]"
    using spoken_frames by (elim exE conjE)
  have "in_time spoken_events" "length spoken_events \<le> 2 ^ 58"
    by (simp_all add: spoken_events_def spoken_def media_bound_def)
  note sound = media_clock_never_fails [OF run(1) this]
  show ?thesis
    by (intro exI conjI, rule run(1), rule run(2), rule sound [THEN conjunct2, THEN conjunct1])
qed

end
