(* ===== verification/Sign_In.thy ===== *)
theory Sign_In
  imports Session_Demo "HOL-Library.AList"
begin

text \<open>
  The two trust planes of \<open>rust-server/src/auth.rs\<close>: credentials of participants, one-use tickets
  for socket upgrades, and the sessions of administrators with their table in
  \<open>rust-server/src/storage.rs\<close>; and the guards of \<open>rust-server/src/app.rs\<close> that use them.

  Only digests of secrets are kept. The digest of a token (HMAC-SHA-256 with the process's key, or
  SHA-256) is the argument \<open>dg\<close>; drawn tokens and the clock, in seconds, are arguments. The
  maps are association lists from digests.
\<close>

section \<open>Participant credentials\<close>

record participant_credential =
  pc_participant :: string
  pc_generation :: nat
  pc_expires :: int
  pc_revoked :: bool

record participant_principal =
  pp_participant :: string
  pp_generation :: nat

type_synonym 'd credentials = "('d \<times> participant_credential) list"

definition participant_lifetime :: int where
  "participant_lifetime = 24 * 60 * 60"

definition issue_credential ::
    "(string \<Rightarrow> 'd) \<Rightarrow> int \<Rightarrow> string \<Rightarrow> string \<Rightarrow> 'd credentials \<Rightarrow> 'd credentials" where
  "issue_credential dg now token pid recs =
     AList.update (dg token) \<lparr>pc_participant = pid, pc_generation = 1,
       pc_expires = now + participant_lifetime, pc_revoked = False\<rparr> recs"

definition credential_active :: "int \<Rightarrow> participant_credential \<Rightarrow> bool" where
  "credential_active now r \<longleftrightarrow> \<not> pc_revoked r \<and> pc_expires r > now"

definition authenticate_participant ::
    "(string \<Rightarrow> 'd) \<Rightarrow> int \<Rightarrow> string \<Rightarrow> 'd credentials \<Rightarrow> participant_principal option" where
  "authenticate_participant dg now credential recs =
     (case map_of recs (dg credential) of
        None \<Rightarrow> None
      | Some r \<Rightarrow>
          if credential_active now r
          then Some \<lparr>pp_participant = pc_participant r, pp_generation = pc_generation r\<rparr> else None)"

definition generation_is_active :: "int \<Rightarrow> string \<Rightarrow> nat \<Rightarrow> 'd credentials \<Rightarrow> bool" where
  "generation_is_active now pid gen recs \<longleftrightarrow>
     list_ex (\<lambda>(d, r). credential_active now r \<and> pc_participant r = pid \<and> pc_generation r = gen) recs"

definition cleanup_credentials :: "int \<Rightarrow> 'd credentials \<Rightarrow> string set \<times> 'd credentials" where
  "cleanup_credentials now recs =
     (let expired = set (map (\<lambda>(d, r). pc_participant r)
                          (filter (\<lambda>(d, r). pc_revoked r \<or> pc_expires r \<le> now) recs));
          kept = filter (\<lambda>(d, r). credential_active now r) recs
      in (expired - set (map (\<lambda>(d, r). pc_participant r) kept), kept))"

definition revoke_participant_session :: "string \<Rightarrow> 'd credentials \<Rightarrow> 'd credentials" where
  "revoke_participant_session pid recs = filter (\<lambda>(d, r). pc_participant r \<noteq> pid) recs"

section \<open>Upgrade tickets\<close>

datatype upgrade_purpose = GameUpgrade | AudioUpgrade

record ticket_claims =
  uc_session :: string
  uc_participant :: string
  uc_role :: string
  uc_generation :: nat
  uc_purpose :: upgrade_purpose
  uc_expires :: int

type_synonym 'd tickets = "('d \<times> ticket_claims) list"

definition ticket_lifetime :: int where
  "ticket_lifetime = 60"

text \<open>The clock is read twice: for the expiry, and for dropping expired tickets.\<close>

definition issue_ticket ::
    "(string \<Rightarrow> 'd) \<Rightarrow> int \<Rightarrow> int \<Rightarrow> string \<Rightarrow> ticket_claims \<Rightarrow> 'd tickets \<Rightarrow> 'd tickets" where
  "issue_ticket dg now now' ticket claims ts =
     (let c = claims\<lparr>uc_expires := now + ticket_lifetime\<rparr>;
          alive = filter (\<lambda>(d, x). uc_expires x > now') ts;
          others = filter (\<lambda>(d, x). uc_session x \<noteq> uc_session c \<or> uc_participant x \<noteq> uc_participant c \<or>
                                     uc_purpose x \<noteq> uc_purpose c) alive
      in AList.update (dg ticket) c others)"

definition consume_ticket ::
    "(string \<Rightarrow> 'd) \<Rightarrow> int \<Rightarrow> string \<Rightarrow> upgrade_purpose \<Rightarrow> string \<Rightarrow> 'd tickets \<Rightarrow>
     ticket_claims option \<times> 'd tickets" where
  "consume_ticket dg now ticket purpose sid ts =
     (case map_of ts (dg ticket) of
        None \<Rightarrow> (None, ts)
      | Some c \<Rightarrow>
          (if uc_expires c > now \<and> uc_purpose c = purpose \<and> uc_session c = sid then Some c else None,
           AList.delete (dg ticket) ts))"

definition cleanup_tickets :: "int \<Rightarrow> 'd tickets \<Rightarrow> 'd tickets" where
  "cleanup_tickets now ts = filter (\<lambda>(d, x). uc_expires x > now) ts"

text \<open>A socket upgrade of either purpose: the ticket is consumed, its credential must be active and
  the participant must still have the claimed role. The origin check comes first.\<close>

datatype upgrade_error = BadOrigin | TicketRequired | InvalidTicket | CredentialRevoked | NoSuchSession
  | NotInSession | RoleChanged

definition participant_role :: "'s memory \<Rightarrow> string \<Rightarrow> string \<Rightarrow> (upgrade_error, player_role) outcome" where
  "participant_role m sid pid =
     obind (ok_or (get_session m sid) NoSuchSession) (\<lambda>s.
     obind (ok_or (map_of (ls_participants s) pid) NotInSession) (\<lambda>p. Ok (sp_role p)))"

definition accept_upgrade ::
    "(string \<Rightarrow> 'd) \<Rightarrow> int \<Rightarrow> bool \<Rightarrow> string option \<Rightarrow> upgrade_purpose \<Rightarrow> string \<Rightarrow>
     's memory \<Rightarrow> 'd credentials \<Rightarrow> 'd tickets \<Rightarrow> 'd tickets \<times> (upgrade_error, string \<times> player_role) outcome" where
  "accept_upgrade dg now origin_ok token purpose sid m recs ts =
     (if \<not> origin_ok then (ts, Err BadOrigin)
      else case token of
        None \<Rightarrow> (ts, Err TicketRequired)
      | Some ticket \<Rightarrow>
          (case consume_ticket dg now ticket purpose sid ts of
             (found, ts') \<Rightarrow>
               (ts', obind (ok_or found InvalidTicket) (\<lambda>c.
                     obind (ensure (generation_is_active now (uc_participant c) (uc_generation c) recs)
                              CredentialRevoked) (\<lambda>u.
                     obind (participant_role m sid (uc_participant c)) (\<lambda>role.
                     obind (ensure (role_str role = uc_role c) RoleChanged) (\<lambda>v.
                       Ok (uc_participant c, role))))))))"

section \<open>Administrator sessions\<close>

datatype admin_role = Operator | Administrator

fun parse_admin_role :: "string \<Rightarrow> admin_role option" where
  "parse_admin_role s =
     (if s = ''operator'' then Some Operator
      else if s = ''administrator'' then Some Administrator else None)"

fun admin_role_str :: "admin_role \<Rightarrow> string" where
  "admin_role_str Operator = ''operator''"
| "admin_role_str Administrator = ''administrator''"

definition may_mutate_experiments :: "admin_role \<Rightarrow> bool" where
  "may_mutate_experiments r \<longleftrightarrow> r = Administrator"

record stored_admin_session =
  as_digest :: string
  as_role :: string
  as_csrf :: string
  as_created :: int
  as_last_seen :: int

record admin_session =
  an_role :: admin_role
  an_csrf :: string
  an_created :: int
  an_last_seen :: int

record admin_credential =
  ac_username :: string
  ac_password_hash :: string
  ac_role :: admin_role

definition admin_idle :: int where "admin_idle = 7 * 24 * 60 * 60"
definition admin_absolute :: int where "admin_absolute = 30 * 24 * 60 * 60"
definition admin_touch :: int where "admin_touch = 5 * 60"

text \<open>The table: the digest is its key, so saving a session whose digest is there fails.\<close>

definition save_admin_session :: "stored_admin_session \<Rightarrow> stored_admin_session list \<Rightarrow> stored_admin_session list option" where
  "save_admin_session s rows =
     (if list_ex (\<lambda>r. as_digest r = as_digest s) rows then None else Some (rows @ [s]))"

definition find_admin_session :: "string \<Rightarrow> stored_admin_session list \<Rightarrow> stored_admin_session option" where
  "find_admin_session d rows = find (\<lambda>r. as_digest r = d) rows"

definition touch_admin_session :: "string \<Rightarrow> int \<Rightarrow> stored_admin_session list \<Rightarrow> stored_admin_session list" where
  "touch_admin_session d now rows =
     map (\<lambda>r. if as_digest r = d then r\<lparr>as_last_seen := now\<rparr> else r) rows"

definition delete_admin_session :: "string \<Rightarrow> stored_admin_session list \<Rightarrow> stored_admin_session list" where
  "delete_admin_session d rows = filter (\<lambda>r. as_digest r \<noteq> d) rows"

definition delete_expired_admin_sessions :: "int \<Rightarrow> int \<Rightarrow> stored_admin_session list \<Rightarrow> stored_admin_session list" where
  "delete_expired_admin_sessions idle absolute rows =
     filter (\<lambda>r. \<not> (as_last_seen r \<le> idle \<or> as_created r \<le> absolute)) rows"

datatype admin_call = ReadSession | SaveSession | TouchSession | DeleteSession

datatype admin_error = AdminStoreFailed | BadPasswordHash | BadRole

datatype login_result = Authenticated string admin_session | InvalidLogin | BusyLogin

text \<open>\<open>login\<close>. \<open>verify\<close> is Argon2's verification of a password against a stored hash, \<open>None\<close> for a
  hash it cannot parse; \<open>slot\<close> tells whether one of the two verification slots is free; \<open>ct\<close> is
  the digest under which user names are compared.\<close>

definition admin_login ::
    "(string \<Rightarrow> 'd) \<Rightarrow> (string \<Rightarrow> string) \<Rightarrow> (string \<Rightarrow> string \<Rightarrow> bool option) \<Rightarrow> (admin_call \<Rightarrow> bool) \<Rightarrow> bool \<Rightarrow> int \<Rightarrow>
     admin_credential option \<Rightarrow> string \<Rightarrow> string \<Rightarrow> string \<Rightarrow> string \<Rightarrow> stored_admin_session list \<Rightarrow>
     stored_admin_session list \<times> (admin_error, login_result) outcome" where
  "admin_login ct dg verify io slot now cred username password token csrf rows =
     (if \<not> slot then (rows, Ok BusyLogin)
      else case cred of
        None \<Rightarrow> (rows, Ok InvalidLogin)
      | Some c \<Rightarrow>
          (case verify (ac_password_hash c) password of
             None \<Rightarrow> (rows, Err BadPasswordHash)
           | Some password_ok \<Rightarrow>
               if \<not> (ct username = ct (ac_username c) \<and> password_ok) then (rows, Ok InvalidLogin)
               else (case (if io SaveSession then None
                           else save_admin_session \<lparr>as_digest = dg token, as_role = admin_role_str (ac_role c),
                                  as_csrf = csrf, as_created = now, as_last_seen = now\<rparr> rows) of
                       None \<Rightarrow> (rows, Err AdminStoreFailed)
                     | Some rows' \<Rightarrow> (rows', Ok (Authenticated token
                         \<lparr>an_role = ac_role c, an_csrf = csrf, an_created = now, an_last_seen = now\<rparr>)))))"

definition admin_authenticate ::
    "(string \<Rightarrow> string) \<Rightarrow> (admin_call \<Rightarrow> bool) \<Rightarrow> int \<Rightarrow> string \<Rightarrow> stored_admin_session list \<Rightarrow>
     stored_admin_session list \<times> (admin_error, admin_session option) outcome" where
  "admin_authenticate dg io now token rows =
     (if io ReadSession then (rows, Err AdminStoreFailed)
      else case find_admin_session (dg token) rows of
        None \<Rightarrow> (rows, Ok None)
      | Some r \<Rightarrow>
          if as_last_seen r \<le> now - admin_idle \<or> as_created r \<le> now - admin_absolute
          then (if io DeleteSession then (rows, Err AdminStoreFailed)
                else (delete_admin_session (dg token) rows, Ok None))
          else let touch = as_last_seen r \<le> now - admin_touch
               in if touch \<and> io TouchSession then (rows, Err AdminStoreFailed)
                  else (if touch then touch_admin_session (dg token) now rows else rows,
                        obind (ok_or (parse_admin_role (as_role r)) BadRole) (\<lambda>role.
                          Ok (Some \<lparr>an_role = role, an_csrf = as_csrf r, an_created = as_created r,
                                    an_last_seen = now\<rparr>))))"

definition admin_logout ::
    "(string \<Rightarrow> string) \<Rightarrow> (admin_call \<Rightarrow> bool) \<Rightarrow> string \<Rightarrow> stored_admin_session list \<Rightarrow>
     stored_admin_session list \<times> (admin_error, unit) outcome" where
  "admin_logout dg io token rows =
     (if io DeleteSession then (rows, Err AdminStoreFailed)
      else (delete_admin_session (dg token) rows, Ok ()))"

definition admin_cleanup :: "int \<Rightarrow> stored_admin_session list \<Rightarrow> stored_admin_session list" where
  "admin_cleanup now = delete_expired_admin_sessions (now - admin_idle) (now - admin_absolute)"

text \<open>\<open>require_admin_auth\<close>: a request is its method, path, session cookie, the outcome of the origin
  check and the header with the CSRF token.\<close>

record admin_request =
  rq_get :: bool
  rq_path :: string
  rq_cookie :: "string option"
  rq_origin_ok :: bool
  rq_csrf :: "string option"

datatype admin_verdict = Allow admin_session | RedirectToLogin | Unauthorized | NotConfigured
  | OriginRefused | BadCsrf | AdministratorRequired | ServerError

definition require_admin_auth ::
    "(string \<Rightarrow> string) \<Rightarrow> (admin_call \<Rightarrow> bool) \<Rightarrow> int \<Rightarrow> bool \<Rightarrow> admin_request \<Rightarrow>
     stored_admin_session list \<Rightarrow> stored_admin_session list \<times> admin_verdict" where
  "require_admin_auth dg io now configured q rows =
     (let page = rq_get q \<and> starts_with ''/admin/'' (rq_path q)
      in case rq_cookie q of
           None \<Rightarrow> (rows, if page then RedirectToLogin else Unauthorized)
         | Some token \<Rightarrow>
             if \<not> configured then (rows, if page then RedirectToLogin else NotConfigured)
             else (case admin_authenticate dg io now token rows of
                 (rows', Ok None) \<Rightarrow> (rows', if page then RedirectToLogin else Unauthorized)
               | (rows', Ok (Some s)) \<Rightarrow>
                   (rows', if rq_get q then Allow s
                           else if \<not> rq_origin_ok q then OriginRefused
                           else if rq_csrf q \<noteq> Some (an_csrf s) then BadCsrf
                           else if rq_path q \<noteq> ''/api/admin/logout'' \<and> \<not> may_mutate_experiments (an_role s)
                           then AdministratorRequired else Allow s)
               | (rows', _) \<Rightarrow> (rows', ServerError)))"

section \<open>Tickets are used once\<close>

datatype ticket_op =
    TicketIssued int int string ticket_claims
  | TicketConsumed int string upgrade_purpose string
  | TicketsCleaned int

fun ticket_step :: "(string \<Rightarrow> 'd) \<Rightarrow> ticket_op \<Rightarrow> 'd tickets \<Rightarrow> 'd tickets" where
  "ticket_step dg (TicketIssued now now' ticket c) = issue_ticket dg now now' ticket c"
| "ticket_step dg (TicketConsumed now ticket purpose sid) =
     (\<lambda>ts. snd (consume_ticket dg now ticket purpose sid ts))"
| "ticket_step dg (TicketsCleaned now) = cleanup_tickets now"

definition tickets_after :: "(string \<Rightarrow> 'd) \<Rightarrow> ticket_op list \<Rightarrow> 'd tickets" where
  "tickets_after dg ops = fold (ticket_step dg) ops []"

fun consumes :: "(string \<Rightarrow> 'd) \<Rightarrow> 'd \<Rightarrow> ticket_op \<Rightarrow> bool" where
  "consumes dg d (TicketConsumed now ticket purpose sid) \<longleftrightarrow> dg ticket = d"
| "consumes dg d op \<longleftrightarrow> False"

text \<open>A later ticket of the same participant for the same purpose and session replaces it.\<close>

fun replaces :: "ticket_claims \<Rightarrow> ticket_op \<Rightarrow> bool" where
  "replaces c (TicketIssued now now' ticket c') \<longleftrightarrow>
     uc_session c' = uc_session c \<and> uc_participant c' = uc_participant c \<and> uc_purpose c' = uc_purpose c"
| "replaces c op \<longleftrightarrow> False"

definition outstanding :: "(string \<Rightarrow> 'd) \<Rightarrow> ticket_op list \<Rightarrow> 'd \<Rightarrow> ticket_claims \<Rightarrow> bool" where
  "outstanding dg ops d c \<longleftrightarrow>
     (\<exists>before now now' ticket c0 since. ops = before @ TicketIssued now now' ticket c0 # since \<and>
        dg ticket = d \<and> c = c0\<lparr>uc_expires := now + 60\<rparr> \<and>
        \<not> list_ex (consumes dg d) since \<and> \<not> list_ex (replaces c) since)"

lemma outstanding_snoc:
  assumes "outstanding dg ops d c" "\<not> consumes dg d op" "\<not> replaces c op"
  shows "outstanding dg (ops @ [op]) d c"
proof -
  obtain before now now' ticket c0 since where "ops = before @ TicketIssued now now' ticket c0 # since"
    "dg ticket = d" "c = c0\<lparr>uc_expires := now + 60\<rparr>"
    "\<not> list_ex (consumes dg d) since" "\<not> list_ex (replaces c) since"
    using assms(1) by (auto simp: outstanding_def)
  then show ?thesis
    using assms(2,3) unfolding outstanding_def
    by (intro exI [of _ before] exI [of _ now] exI [of _ now'] exI [of _ ticket] exI [of _ c0]
        exI [of _ "since @ [op]"]) simp
qed

lemma update_members:
  "distinct (map fst ts) \<Longrightarrow> set (AList.update k v ts) \<subseteq> insert (k, v) {(d, x). (d, x) \<in> set ts \<and> d \<noteq> k}"
  by (induction ts) (auto simp: image_iff split: if_splits)

lemma distinct_filter: "distinct (map fst ts) \<Longrightarrow> distinct (map fst (filter P ts))"
  by (simp add: distinct_map inj_on_def)

lemma tickets_inv:
  "distinct (map fst (tickets_after dg ops)) \<and> (\<forall>(d, c) \<in> set (tickets_after dg ops). outstanding dg ops d c)"
proof (induction ops rule: rev_induct)
  case Nil
  then show ?case by (simp add: tickets_after_def)
next
  case (snoc op ops)
  let ?ts = "tickets_after dg ops"
  have now: "tickets_after dg (ops @ [x]) = ticket_step dg x ?ts" for x by (simp add: tickets_after_def)
  have dist: "distinct (map fst ?ts)" and IH: "\<And>d c. (d, c) \<in> set ?ts \<Longrightarrow> outstanding dg ops d c"
    using snoc by auto
  show ?case
  proof (cases op)
    case (TicketIssued t t' ticket c)
    let ?c = "c\<lparr>uc_expires := t + 60\<rparr>"
    let ?others = "filter (\<lambda>(d, x). uc_session x \<noteq> uc_session ?c \<or> uc_participant x \<noteq> uc_participant ?c \<or>
        uc_purpose x \<noteq> uc_purpose ?c) (filter (\<lambda>(d, x). uc_expires x > t') ?ts)"
    have after: "tickets_after dg (ops @ [op]) = AList.update (dg ticket) ?c ?others"
      by (simp add: now TicketIssued issue_ticket_def Let_def ticket_lifetime_def)
    have others: "distinct (map fst ?others)" using dist by (intro distinct_filter)
    have "outstanding dg (ops @ [op]) (dg ticket) ?c"
      unfolding outstanding_def TicketIssued
      by (intro exI [of _ ops] exI [of _ t] exI [of _ t'] exI [of _ ticket] exI [of _ c] exI [of _ "[]"]) simp
    moreover have "outstanding dg (ops @ [op]) d x" if "(d, x) \<in> set ?others" for d x
      using that by (intro outstanding_snoc IH) (auto simp: TicketIssued)
    ultimately show ?thesis
      using update_members [OF others, of "dg ticket" ?c] others
      by (auto simp: after AList.distinct_update)
  next
    case (TicketConsumed t ticket purpose sid)
    show ?thesis
    proof (cases "map_of ?ts (dg ticket)")
      case None
      then have "(d, c) \<in> set ?ts \<Longrightarrow> outstanding dg (ops @ [op]) d c" for d c
        by (intro outstanding_snoc IH) (auto simp: TicketConsumed map_of_eq_None_iff image_iff)
      then show ?thesis using dist None by (auto simp: now TicketConsumed consume_ticket_def)
    next
      case (Some c)
      have "(d, x) \<in> set ?ts \<Longrightarrow> d \<noteq> dg ticket \<Longrightarrow> outstanding dg (ops @ [op]) d x" for d x
        by (intro outstanding_snoc IH) (auto simp: TicketConsumed)
      then show ?thesis
        using dist Some
        by (auto simp: now TicketConsumed consume_ticket_def AList.delete_eq intro: distinct_filter)
    qed
  next
    case (TicketsCleaned t)
    have "(d, c) \<in> set ?ts \<Longrightarrow> outstanding dg (ops @ [op]) d c" for d c
      by (intro outstanding_snoc IH) (auto simp: TicketsCleaned)
    then show ?thesis using dist by (auto simp: now TicketsCleaned cleanup_tickets_def intro: distinct_filter)
  qed
qed

text \<open>C28 (safety). A socket is only opened with a ticket that was issued less than a minute ago for
  this session, purpose, participant and role, that nobody presented since, not even for the wrong
  purpose or session, and that was not replaced; and only while a credential of that participant
  and generation is active and the participant still has that role in the session. The attempt uses
  the ticket up: a second one with it is refused.\<close>

theorem upgrade_needs_fresh_ticket:
  assumes "accept_upgrade dg now origin_ok token purpose sid m recs (tickets_after dg ops) = (ts', Ok (pid, role))"
  shows "\<exists>ticket c. token = Some ticket \<and> outstanding dg ops (dg ticket) c \<and> now < uc_expires c \<and>
     uc_purpose c = purpose \<and> uc_session c = sid \<and> uc_participant c = pid \<and> uc_role c = role_str role \<and>
     generation_is_active now pid (uc_generation c) recs \<and>
     (\<exists>s p. get_session m sid = Some s \<and> map_of (ls_participants s) pid = Some p \<and> sp_role p = role) \<and>
     snd (accept_upgrade dg now' True (Some ticket) purpose' sid' m' recs' ts') = Err InvalidTicket"
proof -
  let ?ts = "tickets_after dg ops"
  obtain ticket c where token: "token = Some ticket" and found: "map_of ?ts (dg ticket) = Some c"
    and live: "now < uc_expires c" "uc_purpose c = purpose" "uc_session c = sid"
    and ts': "ts' = AList.delete (dg ticket) ?ts"
    and rest: "generation_is_active now (uc_participant c) (uc_generation c) recs"
      "participant_role m sid (uc_participant c) = Ok role" "role_str role = uc_role c" "pid = uc_participant c"
    using assms
    by (auto simp: accept_upgrade_def consume_ticket_def split: if_splits option.splits prod.splits)
  have "outstanding dg ops (dg ticket) c"
    using tickets_inv [of dg ops] map_of_SomeD [OF found] by auto
  moreover have "map_of ts' (dg ticket) = None" by (simp add: ts' AList.delete_conv')
  then have "snd (accept_upgrade dg now' True (Some ticket) purpose' sid' m' recs' ts') = Err InvalidTicket"
    by (simp add: accept_upgrade_def consume_ticket_def ok_or_def)
  ultimately show ?thesis
    using token live rest by (auto simp: participant_role_def)
qed

definition demo_claims :: ticket_claims where
  "demo_claims = \<lparr>uc_session = ''S1'', uc_participant = ''p'', uc_role = ''A'', uc_generation = 1,
     uc_purpose = GameUpgrade, uc_expires = 0\<rparr>"

theorem upgrade_needs_fresh_ticket_witness:
  "\<exists>ts'. accept_upgrade id 120 True (Some ''wst'') GameUpgrade ''S1'' (w_memory (it_world paired_state))
       (issue_credential id 50 ''par'' ''p'' []) (tickets_after id [TicketIssued 100 100 ''wst'' demo_claims])
     = (ts', Ok (''p'', RoleA)) \<and>
     snd (accept_upgrade id 121 True (Some ''wst'') GameUpgrade ''S1'' (w_memory (it_world paired_state))
       (issue_credential id 50 ''par'' ''p'' []) ts') = Err InvalidTicket"
proof -
  let ?m = "w_memory (it_world paired_state)" and ?recs = "issue_credential id 50 ''par'' ''p'' []"
    and ?ts = "tickets_after id [TicketIssued 100 100 ''wst'' demo_claims]"
  have "snd (accept_upgrade id 120 True (Some ''wst'') GameUpgrade ''S1'' ?m ?recs ?ts) = Ok (''p'', RoleA)"
    by code_simp
  then have ok: "accept_upgrade id 120 True (Some ''wst'') GameUpgrade ''S1'' ?m ?recs ?ts
      = (fst (accept_upgrade id 120 True (Some ''wst'') GameUpgrade ''S1'' ?m ?recs ?ts), Ok (''p'', RoleA))"
    by (simp add: prod_eq_iff)
  from upgrade_needs_fresh_ticket [OF this, of 121 GameUpgrade "''S1''" ?m ?recs] ok show ?thesis by auto
qed

section \<open>Credentials of participants\<close>

datatype credential_op =
    CredentialIssued int string string
  | CredentialsCleaned int
  | ParticipantRevoked string

fun credential_step :: "(string \<Rightarrow> 'd) \<Rightarrow> credential_op \<Rightarrow> 'd credentials \<Rightarrow> 'd credentials" where
  "credential_step dg (CredentialIssued now token pid) = issue_credential dg now token pid"
| "credential_step dg (CredentialsCleaned now) = (\<lambda>recs. snd (cleanup_credentials now recs))"
| "credential_step dg (ParticipantRevoked pid) = revoke_participant_session pid"

definition credentials_after :: "(string \<Rightarrow> 'd) \<Rightarrow> credential_op list \<Rightarrow> 'd credentials" where
  "credentials_after dg ops = fold (credential_step dg) ops []"

fun issued_digests :: "(string \<Rightarrow> 'd) \<Rightarrow> credential_op list \<Rightarrow> 'd list" where
  "issued_digests dg [] = []"
| "issued_digests dg (CredentialIssued now token pid # ops) = dg token # issued_digests dg ops"
| "issued_digests dg (op # ops) = issued_digests dg ops"

fun removes :: "participant_credential \<Rightarrow> credential_op \<Rightarrow> bool" where
  "removes r (CredentialIssued now token pid) \<longleftrightarrow> False"
| "removes r (CredentialsCleaned now) \<longleftrightarrow> pc_expires r \<le> now"
| "removes r (ParticipantRevoked pid) \<longleftrightarrow> pc_participant r = pid"

fun issues :: "(string \<Rightarrow> 'd) \<Rightarrow> 'd \<Rightarrow> participant_credential \<Rightarrow> credential_op \<Rightarrow> bool" where
  "issues dg d r (CredentialIssued now token pid) \<longleftrightarrow> dg token = d \<and>
     r = \<lparr>pc_participant = pid, pc_generation = 1, pc_expires = now + 86400, pc_revoked = False\<rparr>"
| "issues dg d r op \<longleftrightarrow> False"

definition credited :: "(string \<Rightarrow> 'd) \<Rightarrow> credential_op list \<Rightarrow> 'd \<Rightarrow> participant_credential \<Rightarrow> bool" where
  "credited dg ops d r \<longleftrightarrow>
     (\<exists>before op since. ops = before @ op # since \<and> issues dg d r op \<and> \<not> list_ex (removes r) since)"

lemma credited_snoc:
  "credited dg (ops @ [op]) d r \<longleftrightarrow> issues dg d r op \<or> credited dg ops d r \<and> \<not> removes r op"
proof
  assume "credited dg (ops @ [op]) d r"
  then obtain before x since where x: "ops @ [op] = before @ x # since" "issues dg d r x"
    "\<not> list_ex (removes r) since" by (auto simp: credited_def)
  show "issues dg d r op \<or> credited dg ops d r \<and> \<not> removes r op"
  proof (cases since rule: rev_cases)
    case Nil
    then show ?thesis using x by simp
  next
    case (snoc since' y)
    then have "ops = before @ x # since'" "y = op" "\<not> list_ex (removes r) since'" "\<not> removes r y"
      using x by auto
    then show ?thesis using x(2) unfolding credited_def by blast
  qed
next
  assume "issues dg d r op \<or> credited dg ops d r \<and> \<not> removes r op"
  then show "credited dg (ops @ [op]) d r"
  proof
    assume "issues dg d r op"
    then show ?thesis unfolding credited_def by (intro exI [of _ ops] exI [of _ op] exI [of _ "[]"]) simp
  next
    assume "credited dg ops d r \<and> \<not> removes r op"
    then obtain before x since where "ops = before @ x # since" "issues dg d r x"
      "\<not> list_ex (removes r) (since @ [op])" by (auto simp: credited_def)
    then show ?thesis
      unfolding credited_def by (intro exI [of _ before] exI [of _ x] exI [of _ "since @ [op]"]) simp
  qed
qed

lemma issued_digests_append: "issued_digests dg (xs @ ys) = issued_digests dg xs @ issued_digests dg ys"
  by (induction dg xs rule: issued_digests.induct) simp_all

lemma update_new_key: "k \<notin> fst ` set ts \<Longrightarrow> AList.update k v ts = ts @ [(k, v)]"
  by (induction ts) auto

lemma credentials_are_credited:
  assumes "distinct (issued_digests dg ops)"
  shows "distinct (map fst (credentials_after dg ops)) \<and>
    set (map fst (credentials_after dg ops)) \<subseteq> set (issued_digests dg ops) \<and>
    (\<forall>d r. (d, r) \<in> set (credentials_after dg ops) \<longleftrightarrow> credited dg ops d r) \<and>
    (\<forall>(d, r) \<in> set (credentials_after dg ops). \<not> pc_revoked r \<and> pc_generation r = 1)"
  using assms
proof (induction ops rule: rev_induct)
  case Nil
  then show ?case by (simp add: credentials_after_def credited_def)
next
  case (snoc op ops)
  let ?rs = "credentials_after dg ops"
  have now: "credentials_after dg (ops @ [x]) = credential_step dg x ?rs" for x
    by (simp add: credentials_after_def)
  have IH: "distinct (map fst ?rs)" "fst ` set ?rs \<subseteq> set (issued_digests dg ops)"
    "\<And>d r. (d, r) \<in> set ?rs \<longleftrightarrow> credited dg ops d r"
    "\<And>d r. (d, r) \<in> set ?rs \<Longrightarrow> \<not> pc_revoked r \<and> pc_generation r = 1"
    using snoc by (auto simp: issued_digests_append)
  show ?case
  proof (cases op)
    case (CredentialIssued t token pid)
    have "dg token \<notin> fst ` set ?rs"
      using snoc.prems IH(2) by (auto simp: CredentialIssued issued_digests_append)
    then have "credentials_after dg (ops @ [op]) = ?rs @ [(dg token, \<lparr>pc_participant = pid, pc_generation = 1,
        pc_expires = t + 86400, pc_revoked = False\<rparr>)]"
      by (simp add: now CredentialIssued issue_credential_def update_new_key participant_lifetime_def)
    then show ?thesis
      using IH \<open>dg token \<notin> fst ` set ?rs\<close>
      by (auto simp: credited_snoc CredentialIssued issued_digests_append)
  next
    case (CredentialsCleaned t)
    then show ?thesis
      using IH by (fastforce simp: now cleanup_credentials_def credential_active_def credited_snoc issued_digests_append
          intro: distinct_filter)
  next
    case (ParticipantRevoked pid)
    then show ?thesis
      using IH by (fastforce simp: now revoke_participant_session_def credited_snoc issued_digests_append
          intro: distinct_filter)
  qed
qed

text \<open>A bearer credential is accepted exactly if it was issued to that participant
  less than a day ago and, since then, the participant was not revoked and no clean-up saw it
  expired; issuing to others, cleaning up and revoking others never take it away. The digests of
  issued credentials are assumed distinct.\<close>

theorem credential_accepted_iff_issued:
  assumes "distinct (issued_digests dg ops)"
  shows "(authenticate_participant dg now credential (credentials_after dg ops) = Some pr) =
    (\<exists>r. credited dg ops (dg credential) r \<and> now < pc_expires r \<and>
       pr = \<lparr>pp_participant = pc_participant r, pp_generation = 1\<rparr>)"
proof -
  note facts = credentials_are_credited [OF assms]
  have lookup: "map_of (credentials_after dg ops) (dg credential) = Some r \<longleftrightarrow> credited dg ops (dg credential) r" for r
    using facts by (auto dest: map_of_SomeD intro: map_of_is_SomeI)
  have shape: "\<not> pc_revoked r \<and> pc_generation r = 1" if "credited dg ops (dg credential) r" for r
    using facts that by blast
  show ?thesis
    using shape by (auto simp: authenticate_participant_def credential_active_def lookup [symmetric] split: option.splits)
qed

theorem credential_accepted_iff_issued_witness:
  "authenticate_participant id 5000 ''par_1'' (credentials_after id
     [CredentialIssued 100 ''par_1'' ''p'', CredentialIssued 200 ''par_2'' ''q'', ParticipantRevoked ''q'', CredentialsCleaned 400])
   = Some \<lparr>pp_participant = ''p'', pp_generation = 1\<rparr>"
proof -
  let ?ops = "[CredentialIssued 100 ''par_1'' ''p'', CredentialIssued 200 ''par_2'' ''q'', ParticipantRevoked ''q'',
    CredentialsCleaned 400]"
  have "credited id ?ops ''par_1'' \<lparr>pc_participant = ''p'', pc_generation = 1, pc_expires = 86500, pc_revoked = False\<rparr>"
    unfolding credited_def
    by (intro exI [of _ "[]"] exI [of _ "hd ?ops"] exI [of _ "tl ?ops"]) simp
  then show ?thesis
    using credential_accepted_iff_issued [of id ?ops 5000 "''par_1''" "\<lparr>pp_participant = ''p'', pp_generation = 1\<rparr>"]
    by fastforce
qed

section \<open>Administrator requests\<close>

text \<open>The history of the session table: sign-ins (with the password check's function, the store's
  faults, whether a slot was free, the time, the configured credential, user name, password and the
  drawn tokens), authenticated requests, sign-outs and clean-ups.\<close>

datatype admin_op =
    SignIn "string \<Rightarrow> string \<Rightarrow> bool option" "admin_call \<Rightarrow> bool" bool int "admin_credential option" string string string string
  | AdminRequest "admin_call \<Rightarrow> bool" int string
  | SignOut "admin_call \<Rightarrow> bool" string
  | SessionsCleaned int

fun admin_step :: "(string \<Rightarrow> 'd) \<Rightarrow> (string \<Rightarrow> string) \<Rightarrow> admin_op \<Rightarrow> stored_admin_session list \<Rightarrow> stored_admin_session list" where
  "admin_step ct dg (SignIn verify io slot now cred user password token csrf) =
     (\<lambda>rows. fst (admin_login ct dg verify io slot now cred user password token csrf rows))"
| "admin_step ct dg (AdminRequest io now token) = (\<lambda>rows. fst (admin_authenticate dg io now token rows))"
| "admin_step ct dg (SignOut io token) = (\<lambda>rows. fst (admin_logout dg io token rows))"
| "admin_step ct dg (SessionsCleaned now) = admin_cleanup now"

definition admin_sessions_after ::
    "(string \<Rightarrow> 'd) \<Rightarrow> (string \<Rightarrow> string) \<Rightarrow> admin_op list \<Rightarrow> stored_admin_session list" where
  "admin_sessions_after ct dg ops = fold (admin_step ct dg) ops []"

text \<open>The row a successful sign-in leaves.\<close>

fun signs_in :: "(string \<Rightarrow> 'd) \<Rightarrow> (string \<Rightarrow> string) \<Rightarrow> stored_admin_session \<Rightarrow> admin_op \<Rightarrow> bool" where
  "signs_in ct dg r (SignIn verify io slot now cred user password token csrf) \<longleftrightarrow>
     (\<exists>c. cred = Some c \<and> slot \<and> ct user = ct (ac_username c) \<and> verify (ac_password_hash c) password = Some True \<and>
        as_digest r = dg token \<and> as_role r = admin_role_str (ac_role c) \<and> as_csrf r = csrf \<and> as_created r = now)"
| "signs_in ct dg r op \<longleftrightarrow> False"

fun signs_out :: "(string \<Rightarrow> string) \<Rightarrow> string \<Rightarrow> admin_op \<Rightarrow> bool" where
  "signs_out dg d (SignOut io token) \<longleftrightarrow> \<not> io DeleteSession \<and> dg token = d"
| "signs_out dg d op \<longleftrightarrow> False"

text \<open>\<open>r\<close> is the row of a session that a sign-in of the history opened and that was not signed out since; it was
  last seen when it was opened, or when a later request of the history presented its token.\<close>

fun presents :: "(string \<Rightarrow> string) \<Rightarrow> string \<Rightarrow> int \<Rightarrow> admin_op \<Rightarrow> bool" where
  "presents dg d t (AdminRequest io now token) \<longleftrightarrow> dg token = d \<and> now = t"
| "presents dg d t op \<longleftrightarrow> False"

definition signed_in :: "(string \<Rightarrow> 'd) \<Rightarrow> (string \<Rightarrow> string) \<Rightarrow> admin_op list \<Rightarrow> stored_admin_session \<Rightarrow> bool" where
  "signed_in ct dg ops r \<longleftrightarrow>
     (\<exists>before op since. ops = before @ op # since \<and> signs_in ct dg r op \<and> \<not> list_ex (signs_out dg (as_digest r)) since \<and>
        (as_last_seen r = as_created r \<or> list_ex (presents dg (as_digest r) (as_last_seen r)) since))"

lemma signed_in_snoc:
  "signed_in ct dg ops r \<Longrightarrow> \<not> signs_out dg (as_digest r) op \<Longrightarrow> signed_in ct dg (ops @ [op]) r"
  unfolding signed_in_def by (elim exE conjE, rule_tac x = before in exI, rule_tac x = opa in exI,
      rule_tac x = "since @ [op]" in exI) auto

lemma signed_in_touch:
  assumes "signed_in ct dg ops r" "dg token = as_digest r"
  shows "signed_in ct dg (ops @ [AdminRequest io t token]) (r\<lparr>as_last_seen := t\<rparr>)"
proof -
  have same: "signs_in ct dg (r\<lparr>as_last_seen := t\<rparr>) op = signs_in ct dg r op" for op by (cases op) simp_all
  obtain before op since where "ops = before @ op # since" "signs_in ct dg r op" "\<not> list_ex (signs_out dg (as_digest r)) since"
    using assms(1) by (auto simp: signed_in_def)
  then show ?thesis
    unfolding signed_in_def
    by (intro exI [of _ before] exI [of _ op] exI [of _ "since @ [AdminRequest io t token]"])
      (simp add: same assms(2))
qed

lemma admin_rows_signed_in: "r \<in> set (admin_sessions_after ct dg ops) \<Longrightarrow> signed_in ct dg ops r"
proof (induction ops arbitrary: r rule: rev_induct)
  case Nil
  then show ?case by (simp add: admin_sessions_after_def)
next
  case (snoc op ops)
  let ?rows = "admin_sessions_after ct dg ops"
  have r: "r \<in> set (admin_step ct dg op ?rows)" using snoc.prems by (simp add: admin_sessions_after_def)
  show ?case
  proof (cases op)
    case (SignIn verify io slot now cred user password token csrf)
    then have "r \<in> set ?rows \<or> signs_in ct dg r op \<and> as_last_seen r = as_created r"
      using r by (auto simp: admin_login_def save_admin_session_def split: if_splits option.splits)
    then show ?thesis
    proof
      assume "signs_in ct dg r op \<and> as_last_seen r = as_created r"
      then show ?thesis unfolding signed_in_def by (intro exI [of _ ops] exI [of _ op] exI [of _ "[]"]) simp
    qed (use snoc.IH in \<open>auto simp: SignIn intro: signed_in_snoc\<close>)
  next
    case (AdminRequest io now token)
    then obtain r0 where "r0 \<in> set ?rows" "r = r0 \<or> dg token = as_digest r0 \<and> r = r0\<lparr>as_last_seen := now\<rparr>"
      using r by (auto simp: admin_authenticate_def touch_admin_session_def delete_admin_session_def Let_def
          split: if_splits option.splits)
    then show ?thesis
      using snoc.IH [of r0] signed_in_touch [of ct dg ops r0 token io now] signed_in_snoc [of ct dg ops r0 op]
      by (auto simp: AdminRequest)
  next
    case (SignOut io token)
    then have "r \<in> set ?rows" "\<not> signs_out dg (as_digest r) op"
      using r by (auto simp: admin_logout_def delete_admin_session_def split: if_splits)
    then show ?thesis using snoc.IH by (intro signed_in_snoc)
  next
    case (SessionsCleaned now)
    then have "r \<in> set ?rows" using r by (auto simp: admin_cleanup_def delete_expired_admin_sessions_def)
    then show ?thesis using snoc.IH by (auto simp: SessionsCleaned intro: signed_in_snoc)
  qed
qed

text \<open>C29 (safety). An administrator request is only let through with the cookie of a session that a
  correct user name and password opened less than thirty days ago, that was not signed out since, and that
  was seen less than seven days ago, by its sign-in or by a request that presented its cookie; and a request that changes anything only from the right origin, with that
  session's CSRF token and, sign-out apart, with the administrator role.\<close>

theorem admin_request_is_authorized:
  assumes "require_admin_auth dg io now configured q (admin_sessions_after ct dg ops) = (rows, Allow s)"
  shows "\<exists>token r. rq_cookie q = Some token \<and> as_digest r = dg token \<and> signed_in ct dg ops r \<and>
     now < as_created r + 2592000 \<and> now < as_last_seen r + 604800 \<and>
     an_csrf s = as_csrf r \<and> admin_role_str (an_role s) = as_role r \<and>
     (rq_get q \<or> rq_origin_ok q \<and> rq_csrf q = Some (as_csrf r) \<and>
        (rq_path q = ''/api/admin/logout'' \<or> as_role r = ''administrator''))"
proof -
  obtain token r where q: "rq_cookie q = Some token"
    and r: "find_admin_session (dg token) (admin_sessions_after ct dg ops) = Some r"
    and fresh: "\<not> as_last_seen r \<le> now - admin_idle" "\<not> as_created r \<le> now - admin_absolute"
    and s: "parse_admin_role (as_role r) = Some (an_role s)" "an_csrf s = as_csrf r"
    and guard: "rq_get q \<or> rq_origin_ok q \<and> rq_csrf q = Some (an_csrf s) \<and>
      (rq_path q = ''/api/admin/logout'' \<or> may_mutate_experiments (an_role s))"
    using assms
    by (auto simp: require_admin_auth_def admin_authenticate_def Let_def
        split: option.splits if_splits prod.splits outcome.splits)
  have role: "admin_role_str (an_role s) = as_role r" using s(1) by (auto split: if_splits)
  have "r \<in> set (admin_sessions_after ct dg ops)" "as_digest r = dg token"
    using r unfolding find_admin_session_def by (auto simp: find_Some_iff in_set_conv_nth)
  then show ?thesis
    using q fresh s(2) guard role admin_rows_signed_in [of r ct dg ops]
    by (intro exI [of _ token] exI [of _ r])
      (auto simp: admin_idle_def admin_absolute_def may_mutate_experiments_def)
qed

definition demo_sign_in :: admin_op where
  "demo_sign_in = SignIn (\<lambda>h p. Some (h = p)) (\<lambda>c. False) True 1000
     (Some \<lparr>ac_username = ''root'', ac_password_hash = ''secret'', ac_role = Administrator\<rparr>) ''root'' ''secret'' ''adm_1'' ''csrf_1''"

theorem admin_request_is_authorized_witness:
  "signed_in id id [demo_sign_in] \<lparr>as_digest = ''adm_1'', as_role = ''administrator'', as_csrf = ''csrf_1'',
     as_created = 1000, as_last_seen = 1000\<rparr>"
proof -
  let ?q = "\<lparr>rq_get = False, rq_path = ''/api/admin/x'', rq_cookie = Some ''adm_1'', rq_origin_ok = True,
    rq_csrf = Some ''csrf_1''\<rparr>"
  let ?r = "\<lparr>as_digest = ''adm_1'', as_role = ''administrator'', as_csrf = ''csrf_1'', as_created = 1000, as_last_seen = 1000\<rparr>"
  have rows: "admin_sessions_after id id [demo_sign_in] = [?r]"
    by (simp add: admin_sessions_after_def demo_sign_in_def admin_login_def save_admin_session_def)
  then have "require_admin_auth id (\<lambda>c. False) 1100 True ?q (admin_sessions_after id id [demo_sign_in])
      = ([?r], Allow \<lparr>an_role = Administrator, an_csrf = ''csrf_1'', an_created = 1000, an_last_seen = 1100\<rparr>)"
    by (simp add: require_admin_auth_def admin_authenticate_def find_admin_session_def admin_idle_def
        admin_absolute_def admin_touch_def may_mutate_experiments_def ok_or_def)
  from admin_request_is_authorized [OF this] obtain r where "signed_in id id [demo_sign_in] r" "as_digest r = ''adm_1''"
    by auto
  then obtain op where "op \<in> set [demo_sign_in]" "signs_in id id r op" "as_last_seen r = as_created r"
    unfolding signed_in_def by (auto simp: Cons_eq_append_conv)
  then have "as_role r = ''administrator''" "as_csrf r = ''csrf_1''" "as_created r = 1000" "as_last_seen r = 1000"
    by (auto simp: demo_sign_in_def)
  then have "?r = r" using \<open>as_digest r = ''adm_1''\<close> by simp
  then show ?thesis using \<open>signed_in id id [demo_sign_in] r\<close> by simp
qed

end
