(* ===== verification/Session_Log.thy ===== *)
theory Session_Log
  imports Store_Contract "HOL-Library.Multiset"
begin

text \<open>
  The log a game and its agents write to one session, \<open>rust-server/src/session_log.rs\<close>: a byte
  allowance shared by every handle, a bounded queue, and a worker that writes the queue to the store.

  Handles live on different threads, and \<open>SessionLogger::log\<close> is three atomic steps: it reserves
  bytes, offers the entry to the queue, and gives the bytes back when the queue refuses. The steps
  of any number of calls interleave with each other, with the worker and with the shutdown, which asks
  the worker to close and drain the queue and aborts it after five seconds, with what is still queued.
\<close>

section \<open>The sink\<close>

definition max_entry_bytes :: nat where "max_entry_bytes = 64 * 1024"
definition max_log_bytes :: nat where "max_log_bytes = 8 * 1024 * 1024"
definition log_queue_capacity :: nat where "log_queue_capacity = 256"

datatype log_error = EntryTooLarge | SessionLimitExceeded | QueueFull | LogClosed

datatype log_source = GameSource | AgentSource int player_role

type_synonym log_entry = "log_source \<times> string"

text \<open>\<open>lg_queue\<close> is \<open>None\<close> for a headless session, whose sink discards what it accepts.\<close>

record log_sink =
  lg_queue :: "log_entry list option"
  lg_open :: bool
  lg_accepted :: nat

definition headless_sink :: log_sink where
  "headless_sink = \<lparr>lg_queue = None, lg_open = True, lg_accepted = 0\<rparr>"

definition live_sink :: log_sink where
  "live_sink = \<lparr>lg_queue = Some [], lg_open = True, lg_accepted = 0\<rparr>"

section \<open>One call\<close>

text \<open>Where a call stands: its bytes are reserved, its bytes are to be given back, or it returned.\<close>

datatype log_call =
    LogReserved log_entry
  | LogRefunding log_entry log_error
  | LogReturned log_entry "(log_error, unit) outcome"

definition log_reserve :: "log_entry \<Rightarrow> log_sink \<Rightarrow> log_sink \<times> log_call" where
  "log_reserve x k =
     (if length (snd x) > max_entry_bytes then (k, LogReturned x (Err EntryTooLarge))
      else if lg_accepted k + length (snd x) > max_log_bytes then (k, LogReturned x (Err SessionLimitExceeded))
      else (k\<lparr>lg_accepted := lg_accepted k + length (snd x)\<rparr>, LogReserved x))"

definition log_offer :: "log_entry \<Rightarrow> log_sink \<Rightarrow> log_sink \<times> log_call" where
  "log_offer x k =
     (case lg_queue k of
        None \<Rightarrow> (k, LogReturned x (Ok ()))
      | Some q \<Rightarrow>
          if \<not> lg_open k then (k, LogRefunding x LogClosed)
          else if length q \<ge> log_queue_capacity then (k, LogRefunding x QueueFull)
          else (k\<lparr>lg_queue := Some (q @ [x])\<rparr>, LogReturned x (Ok ())))"

definition log_refund :: "log_entry \<Rightarrow> log_error \<Rightarrow> log_sink \<Rightarrow> log_sink \<times> log_call" where
  "log_refund x e k = (k\<lparr>lg_accepted := lg_accepted k - length (snd x)\<rparr>, LogReturned x (Err e))"

fun log_advance :: "log_call \<Rightarrow> log_sink \<Rightarrow> log_sink \<times> log_call" where
  "log_advance (LogReserved x) k = log_offer x k"
| "log_advance (LogRefunding x e) k = log_refund x e k"
| "log_advance (LogReturned x r) k = (k, LogReturned x r)"

text \<open>A call that runs alone.\<close>

definition session_log :: "log_entry \<Rightarrow> log_sink \<Rightarrow> log_sink \<times> log_call" where
  "session_log x k =
     (case log_reserve x k of (k1, c1) \<Rightarrow> (case log_advance c1 k1 of (k2, c2) \<Rightarrow> log_advance c2 k2))"

section \<open>The worker\<close>

definition log_record :: "string \<Rightarrow> int \<Rightarrow> log_entry \<Rightarrow> event_record" where
  "log_record e i x =
     (case fst x of
        GameSource \<Rightarrow> \<lparr>ev_experiment = e, ev_session = i, ev_type = ''log'', ev_actor = None, ev_actor_role = None,
          ev_payload = JObj [(''source'', JStr ''game''), (''text'', JStr (snd x))], ev_game_state = None\<rparr>
      | AgentSource p role \<Rightarrow> \<lparr>ev_experiment = e, ev_session = i, ev_type = ''log'', ev_actor = Some p,
          ev_actor_role = Some (role_str role),
          ev_payload = JObj [(''source'', JStr ''agent''), (''text'', JStr (snd x))], ev_game_state = None\<rparr>)"

text \<open>The worker takes the oldest entry and stores it; an entry the store refuses is lost.\<close>

definition log_persist :: "string \<Rightarrow> int \<Rightarrow> bool \<Rightarrow> int \<Rightarrow> log_entry \<Rightarrow> db \<Rightarrow> db" where
  "log_persist e i store_fails now x d =
     (if store_fails then d
      else case append_session_event d (log_record e i x) now of Ok (d', n) \<Rightarrow> d' | _ \<Rightarrow> d)"

text \<open>After the shutdown the worker drains the queue and ends, unless it is aborted before.\<close>

fun log_drain :: "string \<Rightarrow> int \<Rightarrow> (bool \<times> int) list \<Rightarrow> log_entry list \<Rightarrow> db \<Rightarrow> db" where
  "log_drain e i ((fails, now) # ts) (x # q) d = log_drain e i ts q (log_persist e i fails now x d)"
| "log_drain e i ts q d = d"

section \<open>All calls of one session\<close>

text \<open>\<open>sy_stopping\<close>: \<open>shutdown\<close> was called; \<open>sy_dropped\<close> is history: the entries that an abort of the worker took
  with it. The time of five seconds is left out: the abort may come whenever the shutdown waits.\<close>

record log_system =
  sy_sink :: log_sink
  sy_calls :: "log_call list"
  sy_taken :: "log_entry list"
  sy_dropped :: "log_entry list"
  sy_stopping :: bool
  sy_db :: db

definition log_abort :: "log_system \<Rightarrow> log_system" where
  "log_abort s =
     (case lg_queue (sy_sink s) of
        None \<Rightarrow> s
      | Some q \<Rightarrow> s\<lparr>sy_sink := (sy_sink s)\<lparr>lg_queue := Some [], lg_open := False\<rparr>, sy_dropped := sy_dropped s @ q\<rparr>)"

inductive log_step :: "string \<Rightarrow> int \<Rightarrow> log_system \<Rightarrow> log_system \<Rightarrow> bool" for e i where
  lg_begin: "log_reserve x (sy_sink s) = (k, c) \<Longrightarrow>
    log_step e i s (s\<lparr>sy_sink := k, sy_calls := sy_calls s @ [c]\<rparr>)"
| lg_advance: "n < length (sy_calls s) \<Longrightarrow> log_advance (sy_calls s ! n) (sy_sink s) = (k, c) \<Longrightarrow>
    log_step e i s (s\<lparr>sy_sink := k, sy_calls := (sy_calls s)[n := c]\<rparr>)"
| lg_take: "lg_queue (sy_sink s) = Some (x # q) \<Longrightarrow>
    log_step e i s (s\<lparr>sy_sink := (sy_sink s)\<lparr>lg_queue := Some q\<rparr>, sy_taken := sy_taken s @ [x],
      sy_db := log_persist e i fails now x (sy_db s)\<rparr>)"
| lg_shutdown: "log_step e i s (s\<lparr>sy_stopping := True\<rparr>)"
| lg_close: "sy_stopping s \<Longrightarrow> log_step e i s (s\<lparr>sy_sink := (sy_sink s)\<lparr>lg_open := False\<rparr>\<rparr>)"
| lg_abort: "sy_stopping s \<Longrightarrow> log_step e i s (log_abort s)"
| lg_elsewhere: "store_step now (sy_db s) d \<Longrightarrow> log_step e i s (s\<lparr>sy_db := d\<rparr>)"

inductive log_reaches :: "string \<Rightarrow> int \<Rightarrow> db \<Rightarrow> log_system \<Rightarrow> bool" for e i d where
  lg_start: "log_reaches e i d \<lparr>sy_sink = live_sink, sy_calls = [], sy_taken = [], sy_dropped = [],
    sy_stopping = False, sy_db = d\<rparr>"
| lg_next: "log_reaches e i d s \<Longrightarrow> log_step e i s s' \<Longrightarrow> log_reaches e i d s'"

text \<open>The bytes a call holds, and the entries it put into the queue.\<close>

fun held :: "log_call \<Rightarrow> nat" where
  "held (LogReserved x) = length (snd x)"
| "held (LogRefunding x e) = length (snd x)"
| "held (LogReturned x r) = 0"

fun entered :: "log_call \<Rightarrow> log_entry multiset" where
  "entered (LogReturned x (Ok u)) = {#x#}"
| "entered c = {#}"

fun small :: "log_call \<Rightarrow> bool" where
  "small (LogReserved x) \<longleftrightarrow> length (snd x) \<le> max_entry_bytes"
| "small (LogRefunding x e) \<longleftrightarrow> length (snd x) \<le> max_entry_bytes"
| "small (LogReturned x r) \<longleftrightarrow> (is_ok r \<longrightarrow> length (snd x) \<le> max_entry_bytes)"

definition entry_bytes :: "log_entry list \<Rightarrow> nat" where
  "entry_bytes xs = sum_list (map (\<lambda>x. length (snd x)) xs)"

definition log_inv :: "log_system \<Rightarrow> bool" where
  "log_inv s \<longleftrightarrow> (\<exists>q. lg_queue (sy_sink s) = Some q \<and> length q \<le> log_queue_capacity \<and>
     lg_accepted (sy_sink s) = entry_bytes (sy_taken s @ q @ sy_dropped s) + sum_list (map held (sy_calls s)) \<and>
     lg_accepted (sy_sink s) \<le> max_log_bytes \<and>
     mset (sy_taken s @ q @ sy_dropped s) = sum_list (map entered (sy_calls s)) \<and>
     (sy_dropped s \<noteq> [] \<longrightarrow> sy_stopping s \<and> \<not> lg_open (sy_sink s) \<and> q = []) \<and>
     list_all small (sy_calls s))"

lemma entry_bytes_simps [simp]:
  "entry_bytes [] = 0" "entry_bytes (x # xs) = length (snd x) + entry_bytes xs"
  "entry_bytes (xs @ ys) = entry_bytes xs + entry_bytes ys"
  by (simp_all add: entry_bytes_def)

lemma sum_list_map_update:
  fixes f :: "'x \<Rightarrow> 'm :: comm_monoid_add"
  shows "n < length xs \<Longrightarrow> sum_list (map f (xs[n := y])) + f (xs ! n) = sum_list (map f xs) + f y"
proof (induction xs arbitrary: n)
  case (Cons x xs)
  then show ?case by (cases n) (auto simp: ac_simps)
qed simp

lemma log_begin_inv:
  assumes "log_inv s" "log_reserve x (sy_sink s) = (k, c)"
  shows "log_inv (s\<lparr>sy_sink := k, sy_calls := sy_calls s @ [c]\<rparr>)"
  using assms by (auto simp: log_inv_def log_reserve_def split: if_splits)

lemma log_advance_inv:
  assumes inv: "log_inv s" and n: "n < length (sy_calls s)"
    and adv: "log_advance (sy_calls s ! n) (sy_sink s) = (k, c)"
  shows "log_inv (s\<lparr>sy_sink := k, sy_calls := (sy_calls s)[n := c]\<rparr>)"
proof -
  obtain q where q: "lg_queue (sy_sink s) = Some q" "length q \<le> log_queue_capacity"
    "lg_accepted (sy_sink s) = entry_bytes (sy_taken s @ q @ sy_dropped s) + sum_list (map held (sy_calls s))"
    "lg_accepted (sy_sink s) \<le> max_log_bytes" "mset (sy_taken s @ q @ sy_dropped s) = sum_list (map entered (sy_calls s))"
    "sy_dropped s \<noteq> [] \<longrightarrow> sy_stopping s \<and> \<not> lg_open (sy_sink s) \<and> q = []" "list_all small (sy_calls s)"
    using inv by (auto simp: log_inv_def)
  note held = sum_list_map_update [OF n, of held c]
  note entered = sum_list_map_update [OF n, of entered c]
  have small: "small (sy_calls s ! n)" using q(7) n by (auto simp: list_all_length)
  have smalls: "list_all small ((sy_calls s)[n := c])" if "small c"
    using q(7) that set_update_subset_insert [of "sy_calls s" n c] by (auto simp: list_all_iff)
  show ?thesis
  proof (cases "sy_calls s ! n")
    case (LogReserved x)
    then show ?thesis
      using adv q held entered small smalls
      by (auto simp: log_inv_def log_offer_def split: if_splits)
  next
    case (LogRefunding x e)
    then show ?thesis
      using adv q held entered smalls by (auto simp: log_inv_def log_refund_def)
  next
    case (LogReturned x r)
    then show ?thesis using adv inv n by (auto simp: log_inv_def list_update_id)
  qed
qed

lemma log_step_inv: "log_step e i s s' \<Longrightarrow> log_inv s \<Longrightarrow> log_inv s'"
proof (induction rule: log_step.induct)
  case (lg_begin x s k c)
  then show ?case by (simp add: log_begin_inv)
next
  case (lg_advance n s k c)
  then show ?case by (simp add: log_advance_inv)
qed (auto simp: log_inv_def log_abort_def)

text \<open>C36 (invariant). Under every interleaving of the calls of all handles, the worker, the shutdown with
  its abort, and the rest of the server: the entries whose call returned success are exactly those that the
  worker took, that are still queued, or that the abort dropped, each once. Entries are dropped only
  after the shutdown was asked for, and then the queue is closed and stays empty. Every entry has at most
  64 KiB, the queue at most 256 entries; and the accepted bytes are the bytes of these entries and of
  the calls under way and never exceed 8 MiB.\<close>

theorem log_accounts_for_every_entry:
  assumes "log_reaches e i d s"
  shows "\<exists>q. lg_queue (sy_sink s) = Some q \<and> length q \<le> 256 \<and>
     mset (sy_taken s @ q @ sy_dropped s) = sum_list (map entered (sy_calls s)) \<and>
     (sy_dropped s \<noteq> [] \<longrightarrow> sy_stopping s \<and> \<not> lg_open (sy_sink s) \<and> q = []) \<and>
     lg_accepted (sy_sink s) = entry_bytes (sy_taken s @ q @ sy_dropped s) + sum_list (map held (sy_calls s)) \<and>
     lg_accepted (sy_sink s) \<le> 8388608 \<and> list_all small (sy_calls s)"
proof -
  have "log_inv s"
    using assms
  proof (induction rule: log_reaches.induct)
    case lg_start
    then show ?case by (simp add: log_inv_def live_sink_def)
  next
    case (lg_next s s')
    then show ?case by (simp add: log_step_inv)
  qed
  then show ?thesis by (auto simp: log_inv_def log_queue_capacity_def max_log_bytes_def)
qed

theorem log_accounts_for_every_entry_witness:
  "\<exists>s. log_reaches ''e'' 1 empty_db s \<and> lg_accepted (sy_sink s) = 2 \<and>
     lg_queue (sy_sink s) = Some [] \<and> sy_dropped s = [(GameSource, ''ab'')] \<and> \<not> lg_open (sy_sink s) \<and>
     list_all small (sy_calls s)"
proof -
  let ?x = "(GameSource, ''ab'')"
  let ?s0 = "\<lparr>sy_sink = live_sink, sy_calls = [], sy_taken = [], sy_dropped = [],
    sy_stopping = False, sy_db = empty_db\<rparr>"
  let ?k1 = "live_sink\<lparr>lg_accepted := 2\<rparr>"
  let ?s1 = "?s0\<lparr>sy_sink := ?k1, sy_calls := [LogReserved ?x]\<rparr>"
  let ?s2 = "?s1\<lparr>sy_sink := ?k1\<lparr>lg_queue := Some [?x]\<rparr>, sy_calls := [LogReturned ?x (Ok ())]\<rparr>"
  have "log_step ''e'' 1 ?s0 ?s1"
    using lg_begin [of ?x ?s0 ?k1 "LogReserved ?x"]
    by (simp add: log_reserve_def live_sink_def max_entry_bytes_def max_log_bytes_def)
  moreover have "log_step ''e'' 1 ?s1 ?s2"
    using lg_advance [of 0 ?s1 "?k1\<lparr>lg_queue := Some [?x]\<rparr>" "LogReturned ?x (Ok ())"]
    by (simp add: log_offer_def live_sink_def log_queue_capacity_def)
  moreover have "log_step ''e'' 1 ?s2 (?s2\<lparr>sy_stopping := True\<rparr>)" by (rule lg_shutdown)
  moreover have "log_step ''e'' 1 (?s2\<lparr>sy_stopping := True\<rparr>) (log_abort (?s2\<lparr>sy_stopping := True\<rparr>))"
    by (rule lg_abort) simp
  ultimately have r: "log_reaches ''e'' 1 empty_db (log_abort (?s2\<lparr>sy_stopping := True\<rparr>))"
    by (intro lg_next [OF lg_next [OF lg_next [OF lg_next [OF lg_start]]]])
  have "list_all small (sy_calls (log_abort (?s2\<lparr>sy_stopping := True\<rparr>)))"
    using log_accounts_for_every_entry [OF r] by (elim exE conjE)
  moreover have "lg_accepted (sy_sink (log_abort (?s2\<lparr>sy_stopping := True\<rparr>))) = 2"
    "lg_queue (sy_sink (log_abort (?s2\<lparr>sy_stopping := True\<rparr>))) = Some []"
    "sy_dropped (log_abort (?s2\<lparr>sy_stopping := True\<rparr>)) = [?x]" "\<not> lg_open (sy_sink (log_abort (?s2\<lparr>sy_stopping := True\<rparr>)))"
    by (simp_all add: log_abort_def)
  ultimately show ?thesis using r by blast
qed

section \<open>Draining\<close>

lemma log_persist_stores:
  assumes "find_session d e i = Some r"
  shows "\<exists>t n. log_persist e i False now x d = add_event (event_of_record (log_record e i x) n t) d"
proof -
  have "ev_experiment (log_record e i x) = e" "ev_session (log_record e i x) = i"
    by (auto simp: log_record_def split: log_source.split)
  then show ?thesis
    using assms by (auto simp: log_persist_def append_session_event_def stored_game_time_ms_def ok_or_def Let_def
        split: outcome.split)
qed

text \<open>What a stored entry shows of its origin and text.\<close>

definition attributed :: "event_row \<Rightarrow> string \<times> int option \<times> string option \<times> json" where
  "attributed r = (er_type r, er_actor r, er_actor_role r, er_payload r)"

definition attribution :: "log_entry \<Rightarrow> string \<times> int option \<times> string option \<times> json" where
  "attribution x = (let r = log_record [] 0 x in (ev_type r, ev_actor r, ev_actor_role r, ev_payload r))"

lemma attributed_record: "attributed (event_of_record (log_record e i x) n t) = attribution x"
  by (simp add: attributed_def attribution_def event_of_record_def log_record_def Let_def split: log_source.split)

lemma log_record_key [simp]:
  "ev_experiment (log_record e i x) = e" "ev_session (log_record e i x) = i"
  by (simp_all add: log_record_def split: log_source.split)

text \<open>After the shutdown every entry still queued reaches the store while it works and the worker is not
  aborted: as
  many turns of the worker as there are entries store them all, once, in the order in which they
  were accepted, each under its own source, and from then on a call is refused and leaves the
  accepted bytes as they were.\<close>

theorem shutdown_drains_the_log:
  assumes "find_session d e i = Some r" "length q \<le> length turns"
    and "lg_queue k = Some q" "\<not> lg_open k" "length (snd x) \<le> 65536" "lg_accepted k + length (snd x) \<le> 8388608"
  shows "map attributed (events_of (log_drain e i (map (Pair False) turns) q d) e i)
       = map attributed (events_of d e i) @ map attribution q \<and>
     session_log x k = (k, LogReturned x (Err LogClosed))"
proof
  show "map attributed (events_of (log_drain e i (map (Pair False) turns) q d) e i)
       = map attributed (events_of d e i) @ map attribution q"
    using assms(1,2)
  proof (induction q arbitrary: d turns)
    case Nil
    then show ?case by (cases turns) simp_all
  next
    case (Cons y q)
    obtain t ts where turns: "turns = t # ts" using Cons.prems(2) by (cases turns) auto
    obtain u n where stored: "log_persist e i False t y d = add_event (event_of_record (log_record e i y) n u) d"
      using log_persist_stores [OF Cons.prems(1)] by blast
    have "find_session (log_persist e i False t y d) e i = Some r"
      using Cons.prems(1) by (simp add: stored find_session_def add_event_def)
    from Cons.IH [OF this, of ts] Cons.prems(2) show ?case
      by (simp add: turns stored attributed_record)
  qed
  show "session_log x k = (k, LogReturned x (Err LogClosed))"
    using assms(3-6)
    by (simp add: session_log_def log_reserve_def log_offer_def log_refund_def max_entry_bytes_def max_log_bytes_def)
qed

theorem shutdown_drains_the_log_witness:
  "map attributed (events_of (log_drain ''e'' 1 [(False, 2100), (False, 2200)]
       [(GameSource, ''dealt''), (AgentSource 7 RoleB, ''thinking'')] demo4) ''e'' 1)
   = map attributed (events_of demo4 ''e'' 1) @
     [(''log'', None, None, JObj [(''source'', JStr ''game''), (''text'', JStr ''dealt'')]),
      (''log'', Some 7, Some ''B'', JObj [(''source'', JStr ''agent''), (''text'', JStr ''thinking'')])]"
proof -
  let ?q = "[(GameSource, ''dealt''), (AgentSource 7 RoleB, ''thinking'')]"
  let ?k = "\<lparr>lg_queue = Some ?q, lg_open = False, lg_accepted = 13\<rparr>"
  have "find_session demo4 ''e'' 1 \<noteq> None" by code_simp
  then obtain r where r: "find_session demo4 ''e'' 1 = Some r" by auto
  show ?thesis
    using shutdown_drains_the_log [OF r, of ?q "[2100, 2200]" ?k "(GameSource, [])"]
    by (simp add: attribution_def log_record_def Let_def)
qed

end
