(* ===== verification/Rejections.thy ===== *)
theory Rejections
  imports Session_Ops "HOL-Library.AList"
begin

text \<open>
  Rejected inputs of participants, \<open>persist_rejected_input\<close> and \<open>flush_rejected_input_aggregates\<close> of
  \<open>rust-server/src/app.rs\<close>: the first of a kind is stored at once, repetitions are counted in a
  window and stored at most once a minute, and what is still counted is stored when the
  participant's connection ends.

  A window's key joins session, participant, event type and reason with NUL characters and is taken
  apart again by the flush. Times of windows are seconds. The SHA-256 digest, in hexadecimal, is the
  argument \<open>sha\<close>.
\<close>

section \<open>Windows\<close>

record rejection_window =
  rw_first :: int
  rw_last :: int
  rw_persisted :: int
  rw_occurrences :: nat

type_synonym windows = "(string \<times> rejection_window) list"

abbreviation nul :: char where
  "nul \<equiv> CHR 0x00"

definition rejection_key :: "string \<Rightarrow> string \<Rightarrow> string \<Rightarrow> string \<Rightarrow> string" where
  "rejection_key sid pid ty reason = sid @ [nul] @ pid @ [nul] @ ty @ [nul] @ reason"

text \<open>What is reported: the times of the window and how many inputs it stands for.\<close>

type_synonym aggregate = "int \<times> int \<times> nat"

definition record_rejection :: "int \<Rightarrow> string \<Rightarrow> windows \<Rightarrow> windows \<times> aggregate option" where
  "record_rejection now key ws =
     (let w0 = (case map_of ws key of
                  None \<Rightarrow> \<lparr>rw_first = now, rw_last = now, rw_persisted = now - 61, rw_occurrences = 0\<rparr>
                | Some w \<Rightarrow> w);
          w = w0\<lparr>rw_occurrences := rw_occurrences w0 + 1, rw_last := now\<rparr>
      in if rw_persisted w > now - 60 then (AList.update key w ws, None)
         else (AList.update key (w\<lparr>rw_first := now, rw_persisted := now, rw_occurrences := 0\<rparr>) ws,
               Some (rw_first w, rw_last w, rw_occurrences w)))"

text \<open>\<open>str::split\<close> on NUL.\<close>

fun split_nul :: "string \<Rightarrow> string list" where
  "split_nul [] = [[]]"
| "split_nul (c # cs) =
     (if c = nul then [] # split_nul cs
      else case split_nul cs of [] \<Rightarrow> [[c]] | p # ps \<Rightarrow> (c # p) # ps)"

definition rejection_types :: "string list" where
  "rejection_types = [''game_action_rejected'', ''chat_message_rejected'', ''client_message_rejected'']"

definition reported_window :: "string \<Rightarrow> rejection_window \<Rightarrow> (string \<times> string \<times> rejection_window) option" where
  "reported_window key w =
     (case split_nul key of
        sid # pid # ty # reason # rest \<Rightarrow>
          (if ty \<in> set rejection_types \<and> rw_occurrences w > 0 then Some (ty, reason, w) else None)
      | _ \<Rightarrow> None)"

definition take_aggregates ::
    "string \<Rightarrow> string \<Rightarrow> windows \<Rightarrow> windows \<times> (string \<times> string \<times> rejection_window) list" where
  "take_aggregates sid pid ws =
     (let prefix = sid @ [nul] @ pid @ [nul]
      in (filter (\<lambda>(k, w). \<not> starts_with prefix k) ws,
          List.map_filter (\<lambda>(k, w). if starts_with prefix k then reported_window k w else None) ws))"

section \<open>The handlers\<close>

text \<open>\<open>chars().take(n)\<close> on UTF-8 bytes: continuation bytes belong to the character before them.\<close>

definition continuation_byte :: "char \<Rightarrow> bool" where
  "continuation_byte c \<longleftrightarrow> 128 \<le> (of_char c :: nat) \<and> (of_char c :: nat) < 192"

fun take_chars :: "nat \<Rightarrow> string \<Rightarrow> string" where
  "take_chars n [] = []"
| "take_chars n (c # cs) =
     (if continuation_byte c then c # take_chars n cs
      else case n of 0 \<Rightarrow> [] | Suc m \<Rightarrow> c # take_chars m cs)"

definition rejection_payload ::
    "(string \<Rightarrow> string) \<Rightarrow> string \<Rightarrow> string \<Rightarrow> string \<Rightarrow> string option \<Rightarrow> aggregate \<Rightarrow> json" where
  "rejection_payload sha ty reason err raw a =
     (case a of (first, lst, n) \<Rightarrow>
        let base = [(''error'', JStr (take_chars 512 err)), (''first_seen_at'', JInt first),
                    (''last_seen_at'', JInt lst), (''occurrences'', JInt (int n)),
                    (''reason_code'', JStr reason)]
        in JObj (case raw of
             None \<Rightarrow> base
           | Some bytes \<Rightarrow>
               entry_insert (if ty = ''game_action_rejected'' then ''action_sha256'' else ''input_sha256'')
                 (JStr (sha bytes)) (entry_insert ''submitted_bytes'' (JInt (int (length bytes))) base)))"

definition persist_rejected_input ::
    "(string \<Rightarrow> string) \<Rightarrow> faults \<Rightarrow> int \<Rightarrow> string \<Rightarrow> string \<Rightarrow> string \<Rightarrow> string \<Rightarrow> string \<Rightarrow> string option \<Rightarrow>
     windows \<times> 's world \<Rightarrow> windows \<times> 's world" where
  "persist_rejected_input sha io now sid pid ty reason err raw st =
     (case record_rejection (now div 1000) (rejection_key sid pid ty reason) (fst st) of
        (ws, None) \<Rightarrow> (ws, snd st)
      | (ws, Some a) \<Rightarrow>
          (ws, persist_session_event io now sid (Some pid) ty (rejection_payload sha ty reason err raw a) (snd st)))"

definition flushed_payload :: "string \<Rightarrow> rejection_window \<Rightarrow> json" where
  "flushed_payload reason w = JObj
     [(''coalesced'', JBool True), (''first_seen_at'', JInt (rw_first w)), (''last_seen_at'', JInt (rw_last w)),
      (''occurrences'', JInt (int (rw_occurrences w))), (''reason_code'', JStr reason)]"

definition flush_rejected_input_aggregates ::
    "faults \<Rightarrow> int \<Rightarrow> string \<Rightarrow> string \<Rightarrow> windows \<times> 's world \<Rightarrow> windows \<times> 's world" where
  "flush_rejected_input_aggregates io now sid pid st =
     (case take_aggregates sid pid (fst st) of
        (ws, out) \<Rightarrow>
          (ws, fold (\<lambda>(ty, reason, w). persist_session_event io now sid (Some pid) ty (flushed_payload reason w))
                 out (snd st)))"

section \<open>What a history of rejections reports\<close>

datatype rejection_op = Rejected int string string string string | ConnectionEnded string string

text \<open>The windows after a history and the reports it made, each for one kind of input.\<close>

type_synonym kind = "string \<times> string \<times> string \<times> string"

fun rejection_step :: "rejection_op \<Rightarrow> windows \<times> (kind \<times> nat) list \<Rightarrow> windows \<times> (kind \<times> nat) list" where
  "rejection_step (Rejected now sid pid ty reason) (ws, reports) =
     (case record_rejection now (rejection_key sid pid ty reason) ws of
        (ws', None) \<Rightarrow> (ws', reports)
      | (ws', Some (first, lst, n)) \<Rightarrow> (ws', reports @ [((sid, pid, ty, reason), n)]))"
| "rejection_step (ConnectionEnded sid pid) (ws, reports) =
     (case take_aggregates sid pid ws of
        (ws', out) \<Rightarrow> (ws', reports @ map (\<lambda>(ty, reason, w). ((sid, pid, ty, reason), rw_occurrences w)) out))"

definition after_rejections :: "rejection_op list \<Rightarrow> windows \<times> (kind \<times> nat) list" where
  "after_rejections ops = fold rejection_step ops ([], [])"

fun of_kind :: "kind \<Rightarrow> rejection_op \<Rightarrow> bool" where
  "of_kind (sid, pid, ty, reason) (Rejected now s p t r) \<longleftrightarrow> s = sid \<and> p = pid \<and> t = ty \<and> r = reason"
| "of_kind k (ConnectionEnded s p) \<longleftrightarrow> False"

fun kind_key :: "kind \<Rightarrow> string" where
  "kind_key (sid, pid, ty, reason) = rejection_key sid pid ty reason"

definition pending :: "windows \<Rightarrow> kind \<Rightarrow> nat" where
  "pending ws k = (case map_of ws (kind_key k) of None \<Rightarrow> 0 | Some w \<Rightarrow> rw_occurrences w)"

definition reported :: "(kind \<times> nat) list \<Rightarrow> kind \<Rightarrow> nat" where
  "reported rs k = sum_list (map snd (filter (\<lambda>r. fst r = k) rs))"

text \<open>Identifiers and reason codes have no NUL, and the event type is one of the three.\<close>

fun proper :: "rejection_op \<Rightarrow> bool" where
  "proper (Rejected now sid pid ty reason) \<longleftrightarrow>
     nul \<notin> set sid \<and> nul \<notin> set pid \<and> ty \<in> set rejection_types \<and> nul \<notin> set reason"
| "proper (ConnectionEnded sid pid) \<longleftrightarrow> nul \<notin> set sid \<and> nul \<notin> set pid"

lemma split_nul_plain: "nul \<notin> set s \<Longrightarrow> split_nul s = [s]"
  by (induction s) auto

lemma split_nul_join: "nul \<notin> set s \<Longrightarrow> split_nul (s @ nul # t) = s # split_nul t"
  by (induction s) auto

lemma types_plain: "ty \<in> set rejection_types \<Longrightarrow> nul \<notin> set ty"
  by (auto simp: rejection_types_def)

lemma split_key:
  "proper (Rejected now sid pid ty reason) \<Longrightarrow> split_nul (rejection_key sid pid ty reason) = [sid, pid, ty, reason]"
  by (auto simp: rejection_key_def split_nul_join split_nul_plain dest: types_plain)

fun proper_kind :: "kind \<Rightarrow> bool" where
  "proper_kind (sid, pid, ty, reason) \<longleftrightarrow> proper (Rejected 0 sid pid ty reason)"

lemma split_kind_key: "proper_kind (sid, pid, ty, reason) \<Longrightarrow> split_nul (kind_key (sid, pid, ty, reason)) = [sid, pid, ty, reason]"
  using split_key [of 0 sid pid ty reason] by simp

lemma kind_key_inj: "proper_kind k \<Longrightarrow> proper_kind k' \<Longrightarrow> kind_key k = kind_key k' \<longleftrightarrow> k = k'"
  by (cases k; cases k') (metis split_kind_key list.inject)

lemma nul_cancel: "nul \<notin> set s \<Longrightarrow> nul \<notin> set s' \<Longrightarrow> s @ nul # a = s' @ nul # b \<longleftrightarrow> s = s' \<and> a = b"
proof (induction s arbitrary: s')
  case Nil
  then show ?case by (cases s') auto
next
  case (Cons c s)
  then show ?case by (cases s') auto
qed

lemma prefix_of_key:
  assumes "proper_kind (s, p, t, r)" "nul \<notin> set sid" "nul \<notin> set pid"
  shows "starts_with (sid @ [nul] @ pid @ [nul]) (kind_key (s, p, t, r)) \<longleftrightarrow> s = sid \<and> p = pid"
  using assms by (auto simp: starts_with_iff rejection_key_def nul_cancel)

lemma pending_Nil [simp]: "pending [] k = 0"
  by (simp add: pending_def)

lemma pending_Cons: "pending ((key, w) # ws) k = (if key = kind_key k then rw_occurrences w else pending ws k)"
  by (simp add: pending_def)

lemma reported_simps [simp]:
  "reported [] k = 0" "reported (r # rs) k = (if fst r = k then snd r else 0) + reported rs k"
  "reported (rs @ rs') k = reported rs k + reported rs' k"
  by (simp_all add: reported_def)

definition well_keyed :: "windows \<Rightarrow> bool" where
  "well_keyed ws \<longleftrightarrow> distinct (map fst ws) \<and> fst ` set ws \<subseteq> kind_key ` Collect proper_kind"

lemma flush_reports:
  assumes "well_keyed ws" "proper_kind (s, p, t, r)" "nul \<notin> set sid" "nul \<notin> set pid"
  shows "reported (map (\<lambda>(ty, reason, w). ((sid, pid, ty, reason), rw_occurrences w)) (snd (take_aggregates sid pid ws)))
     (s, p, t, r) = (if s = sid \<and> p = pid then pending ws (s, p, t, r) else 0)"
  using assms(1)
proof (induction ws)
  case Nil
  then show ?case by (simp add: take_aggregates_def map_filter_simps)
next
  case (Cons kw ws)
  obtain key w where kw: "kw = (key, w)" by (cases kw)
  obtain s' p' t' r' where k': "proper_kind (s', p', t', r')" "key = kind_key (s', p', t', r')"
  proof -
    obtain k' where "proper_kind k'" "key = kind_key k'" using Cons.prems by (auto simp: well_keyed_def kw)
    then show thesis using that by (cases k') blast
  qed
  have rest: "well_keyed ws" and new: "key \<notin> fst ` set ws" using Cons.prems by (auto simp: well_keyed_def kw)
  have pre: "starts_with (sid @ nul # pid @ [nul]) key \<longleftrightarrow> s' = sid \<and> p' = pid"
    using prefix_of_key [OF k'(1) assms(3,4)] by (simp add: k'(2))
  have rep: "reported_window key w = (if rw_occurrences w > 0 then Some (t', r', w) else None)"
    using split_kind_key [OF k'(1)] k'(1) by (simp add: reported_window_def k'(2))
  have same: "key = kind_key (s, p, t, r) \<longleftrightarrow> (s', p', t', r') = (s, p, t, r)"
    using kind_key_inj [OF k'(1) assms(2)] by (simp only: k'(2))
  have "pending ws (s, p, t, r) = 0" if "key = kind_key (s, p, t, r)"
    using new that by (auto simp: pending_def dest: map_of_SomeD intro: rev_image_eqI split: option.split)
  moreover have "snd (take_aggregates sid pid (kw # ws)) =
      (if s' = sid \<and> p' = pid \<and> rw_occurrences w > 0 then [(t', r', w)] else []) @ snd (take_aggregates sid pid ws)"
    by (simp add: kw take_aggregates_def map_filter_simps pre rep Let_def)
  ultimately show ?case
    using Cons.IH [OF rest] same by (auto simp: kw pending_Cons simp del: kind_key.simps)
qed

lemma flush_pending:
  assumes "well_keyed ws" "proper_kind (s, p, t, r)" "nul \<notin> set sid" "nul \<notin> set pid"
  shows "pending (fst (take_aggregates sid pid ws)) (s, p, t, r) = (if s = sid \<and> p = pid then 0 else pending ws (s, p, t, r))"
    and "well_keyed (fst (take_aggregates sid pid ws))"
proof -
  have "starts_with (sid @ nul # pid @ [nul]) (kind_key (s, p, t, r)) \<longleftrightarrow> s = sid \<and> p = pid"
    using prefix_of_key [OF assms(2-4)] by simp
  then show "pending (fst (take_aggregates sid pid ws)) (s, p, t, r) = (if s = sid \<and> p = pid then 0 else pending ws (s, p, t, r))"
    by (induction ws) (auto simp: take_aggregates_def pending_Cons Let_def)
  show "well_keyed (fst (take_aggregates sid pid ws))"
    using assms(1) unfolding well_keyed_def take_aggregates_def Let_def fst_conv
    by (auto intro: distinct_map_filter)
qed

lemma record_windows:
  assumes "record_rejection now (kind_key k) ws = (ws', out)" "well_keyed ws" "proper_kind k" "proper_kind k'"
  shows "well_keyed ws'"
    and "(case out of None \<Rightarrow> 0 | Some (first, lst, n) \<Rightarrow> if k' = k then n else 0) + pending ws' k'
       = pending ws k' + (if k' = k then 1 else 0)"
proof -
  obtain w where w: "ws' = AList.update (kind_key k) w ws"
    using assms(1) by (auto simp: record_rejection_def Let_def split: if_splits)
  then show "well_keyed ws'"
    using assms(2,3) by (auto simp: well_keyed_def AList.distinct_update AList.dom_update)
  show "(case out of None \<Rightarrow> 0 | Some (first, lst, n) \<Rightarrow> if k' = k then n else 0) + pending ws' k'
       = pending ws k' + (if k' = k then 1 else 0)"
  proof (cases "k' = k")
    case True
    then show ?thesis
      using assms(1) by (auto simp: record_rejection_def Let_def pending_def AList.update_conv' split: if_splits option.splits)
  next
    case False
    then have "kind_key k' \<noteq> kind_key k" using kind_key_inj [OF assms(4,3)] by simp
    then have "pending ws' k' = pending ws k'" by (simp add: w pending_def AList.update_conv')
    then show ?thesis using False by (auto split: option.split)
  qed
qed

lemma rejections_inv:
  assumes "list_all proper ops"
  shows "well_keyed (fst (after_rejections ops)) \<and>
    (\<forall>k. proper_kind k \<longrightarrow> reported (snd (after_rejections ops)) k + pending (fst (after_rejections ops)) k
       = length (filter (of_kind k) ops))"
  using assms
proof (induction ops rule: rev_induct)
  case Nil
  then show ?case by (simp add: after_rejections_def well_keyed_def)
next
  case (snoc op ops)
  obtain ws rs where st: "after_rejections ops = (ws, rs)" by (cases "after_rejections ops")
  have now: "after_rejections (ops @ [x]) = rejection_step x (ws, rs)" for x
    using st by (simp add: after_rejections_def)
  have keyed: "well_keyed ws" and count: "\<And>k. proper_kind k \<Longrightarrow> reported rs k + pending ws k = length (filter (of_kind k) ops)"
    using snoc st by auto
  show ?case
  proof (cases op)
    case (Rejected t sid pid ty reason)
    let ?k = "(sid, pid, ty, reason)"
    obtain ws' out where step: "record_rejection t (kind_key ?k) ws = (ws', out)"
      by (cases "record_rejection t (kind_key ?k) ws")
    have k: "proper_kind ?k" using snoc.prems by (simp add: Rejected)
    note facts = record_windows [OF step keyed k]
    have of_kind: "of_kind k' op \<longleftrightarrow> k' = ?k" for k' by (cases k') (auto simp: Rejected)
    have "reported (snd (after_rejections (ops @ [op]))) k' + pending ws' k'
        = length (filter (of_kind k') (ops @ [op]))" if "proper_kind k'" for k'
      using facts(2) [OF that] count [OF that] step
      by (auto simp: now Rejected of_kind [unfolded Rejected] split: option.splits if_splits)
    moreover have "fst (after_rejections (ops @ [op])) = ws'"
      using step by (simp add: now Rejected split: option.split prod.split)
    ultimately show ?thesis using facts(1) [OF k] by simp
  next
    case (ConnectionEnded sid pid)
    have nul: "nul \<notin> set sid" "nul \<notin> set pid" using snoc.prems by (auto simp: ConnectionEnded)
    have "reported (snd (after_rejections (ops @ [op]))) k' + pending (fst (after_rejections (ops @ [op]))) k'
        = length (filter (of_kind k') (ops @ [op]))" if "proper_kind k'" for k'
    proof -
      obtain s p t r where k': "k' = (s, p, t, r)" by (cases k')
      show ?thesis
        using flush_reports [OF keyed, of s p t r sid pid] flush_pending(1) [OF keyed, of s p t r sid pid] nul that
          count [OF that]
        by (auto simp: now ConnectionEnded k' split: prod.splits)
    qed
    moreover have "well_keyed (fst (take_aggregates sid pid ws))"
      unfolding well_keyed_def take_aggregates_def Let_def fst_conv
      using keyed by (auto simp: well_keyed_def intro: distinct_map_filter)
    ultimately show ?thesis by (auto simp: now ConnectionEnded split: prod.splits)
  qed
qed

text \<open>No rejected input is lost or counted twice: for every participant, event type
  and reason, the occurrences in the stored reports and those still counted in its window add up to
  the inputs rejected, whatever other rejections and ended connections come in between; when the
  participant's connection has ended they have all been reported.\<close>

theorem rejections_all_reported:
  assumes "list_all proper ops" "proper (Rejected 0 sid pid ty reason)"
  shows "reported (snd (after_rejections ops)) (sid, pid, ty, reason) +
       pending (fst (after_rejections ops)) (sid, pid, ty, reason)
     = length (filter (of_kind (sid, pid, ty, reason)) ops) \<and>
   reported (snd (after_rejections (ops @ [ConnectionEnded sid pid]))) (sid, pid, ty, reason)
     = length (filter (of_kind (sid, pid, ty, reason)) ops)"
proof -
  let ?k = "(sid, pid, ty, reason)"
  have k: "proper_kind ?k" using assms(2) by simp
  have nul: "nul \<notin> set sid" "nul \<notin> set pid" using assms(2) by auto
  obtain ws rs where st: "after_rejections ops = (ws, rs)" by (cases "after_rejections ops")
  have keyed: "well_keyed ws" and count: "reported rs ?k + pending ws ?k = length (filter (of_kind ?k) ops)"
    using rejections_inv [OF assms(1)] k st by auto
  have "after_rejections (ops @ [ConnectionEnded sid pid]) = rejection_step (ConnectionEnded sid pid) (ws, rs)"
    using st by (simp add: after_rejections_def)
  then show ?thesis
    using count flush_reports [OF keyed k nul] by (auto simp: st split: prod.splits)
qed

definition too_fast :: "int \<Rightarrow> rejection_op" where
  "too_fast t = Rejected t ''S1'' ''p'' ''chat_message_rejected'' ''human_pacing''"

theorem rejections_all_reported_witness:
  "snd (after_rejections [too_fast 100, too_fast 101, too_fast 102]) = [((''S1'', ''p'', ''chat_message_rejected'', ''human_pacing''), 1)] \<and>
   reported (snd (after_rejections ([too_fast 100, too_fast 101, too_fast 102] @ [ConnectionEnded ''S1'' ''p''])))
     (''S1'', ''p'', ''chat_message_rejected'', ''human_pacing'') = 3"
proof
  show "snd (after_rejections [too_fast 100, too_fast 101, too_fast 102]) = [((''S1'', ''p'', ''chat_message_rejected'', ''human_pacing''), 1)]"
    by code_simp
  show "reported (snd (after_rejections ([too_fast 100, too_fast 101, too_fast 102] @ [ConnectionEnded ''S1'' ''p''])))
     (''S1'', ''p'', ''chat_message_rejected'', ''human_pacing'') = 3"
    using rejections_all_reported [of "[too_fast 100, too_fast 101, too_fast 102]" "''S1''" "''p''" "''chat_message_rejected''" "''human_pacing''"]
    by (simp add: too_fast_def rejection_types_def)
qed

section \<open>At most one report a minute\<close>

text \<open>Nothing that happens before the connection ends lowers the time a window was last reported.\<close>

fun ends_connection :: "kind \<Rightarrow> rejection_op \<Rightarrow> bool" where
  "ends_connection (sid, pid, ty, reason) (ConnectionEnded s p) \<longleftrightarrow> s = sid \<and> p = pid"
| "ends_connection k (Rejected now s p t r) \<longleftrightarrow> False"

lemma record_persisted:
  assumes "record_rejection now key ws = (ws', out)" "map_of ws key' = Some w"
  shows "\<exists>w'. map_of ws' key' = Some w' \<and> rw_persisted w \<le> rw_persisted w'"
  using assms by (auto simp: record_rejection_def Let_def AList.update_conv' split: if_splits option.splits)

lemma persisted_grows:
  assumes "list_all proper ops" "proper_kind k" "\<not> list_ex (ends_connection k) ops"
    and "map_of ws (kind_key k) = Some w"
  shows "\<exists>w'. map_of (fst (fold rejection_step ops (ws, rs))) (kind_key k) = Some w' \<and> rw_persisted w \<le> rw_persisted w'"
  using assms
proof (induction ops arbitrary: ws rs w)
  case (Cons op ops)
  obtain ws1 rs1 where step: "rejection_step op (ws, rs) = (ws1, rs1)" by (cases "rejection_step op (ws, rs)")
  have "\<exists>w1. map_of ws1 (kind_key k) = Some w1 \<and> rw_persisted w \<le> rw_persisted w1"
  proof (cases op)
    case (Rejected t s p ty r)
    then have "ws1 = fst (record_rejection t (rejection_key s p ty r) ws)"
      using step by (auto split: option.splits prod.splits)
    then show ?thesis using record_persisted [of t _ ws ws1] Cons.prems(4) by (metis prod.collapse)
  next
    case (ConnectionEnded s p)
    obtain a b c d where k: "k = (a, b, c, d)" by (cases k)
    have "ws1 = fst (take_aggregates s p ws)" using step by (auto simp: ConnectionEnded split: prod.splits)
    moreover have "\<not> starts_with (s @ [nul] @ p @ [nul]) (kind_key k)"
      using prefix_of_key [of a b c d s p] Cons.prems(1-3) by (auto simp: ConnectionEnded k)
    ultimately have "map_of ws1 (kind_key k) = Some w"
      using Cons.prems(4) by (induction ws arbitrary: ws1) (auto simp: take_aggregates_def Let_def split: if_splits)
    then show ?thesis by blast
  qed
  then obtain w1 where w1: "map_of ws1 (kind_key k) = Some w1" "rw_persisted w \<le> rw_persisted w1" by blast
  have "\<not> list_ex (ends_connection k) ops" "list_all proper ops" using Cons.prems by auto
  from Cons.IH [OF this(2) Cons.prems(2) this(1) w1(1), of rs1] w1(2) show ?case
    by (auto simp: step intro: order_trans)
qed auto

text \<open>Between a stored report of a kind of rejected input and the next one lies at
  least a minute, however many inputs are rejected and whatever the clock does in between, as long
  as the participant's connection lasts. The first input of a kind is reported at once.\<close>

theorem rejections_reported_once_a_minute:
  assumes "record_rejection now (kind_key k) ws = (ws1, Some a)"
    and "list_all proper ops" "proper_kind k" "\<not> list_ex (ends_connection k) ops"
    and "record_rejection later (kind_key k) (fst (fold rejection_step ops (ws1, rs))) = (ws2, Some b)"
  shows "now + 60 \<le> later \<and> snd (record_rejection now (kind_key k) []) = Some (now, now, 1)"
proof -
  have "\<exists>w. map_of ws1 (kind_key k) = Some w \<and> rw_persisted w = now"
    using assms(1) by (auto simp: record_rejection_def Let_def AList.update_conv' split: if_splits)
  then obtain w where w: "map_of ws1 (kind_key k) = Some w" "rw_persisted w = now" by blast
  obtain w' where "map_of (fst (fold rejection_step ops (ws1, rs))) (kind_key k) = Some w'" "now \<le> rw_persisted w'"
    using persisted_grows [OF assms(2-4) w(1), of rs] w(2) by blast
  then have "now + 60 \<le> later"
    using assms(5) by (auto simp: record_rejection_def Let_def split: if_splits)
  then show ?thesis by (simp add: record_rejection_def Let_def)
qed

theorem rejections_reported_once_a_minute_witness:
  "\<exists>ws1 ws2 b. record_rejection 100 (kind_key (''S1'', ''p'', ''chat_message_rejected'', ''human_pacing'')) [] = (ws1, Some (100, 100, 1)) \<and>
     record_rejection 160 (kind_key (''S1'', ''p'', ''chat_message_rejected'', ''human_pacing''))
       (fst (fold rejection_step [too_fast 101, too_fast 159] (ws1, []))) = (ws2, Some b) \<and> (100::int) + 60 \<le> 160"
proof -
  let ?k = "(''S1'', ''p'', ''chat_message_rejected'', ''human_pacing'')"
  obtain ws1 where ws1: "record_rejection 100 (kind_key ?k) [] = (ws1, Some (100, 100, 1))"
    by (simp add: record_rejection_def Let_def)
  have "snd (record_rejection 160 (kind_key ?k)
      (fst (fold rejection_step [too_fast 101, too_fast 159] (fst (record_rejection 100 (kind_key ?k) []), [])))) = Some (100, 160, 3)"
    by code_simp
  then obtain ws2 where ws2: "record_rejection 160 (kind_key ?k)
      (fst (fold rejection_step [too_fast 101, too_fast 159] (ws1, []))) = (ws2, Some (100, 160, 3))"
    by (metis ws1 fst_conv prod.collapse)
  have "list_all proper [too_fast 101, too_fast 159]" "proper_kind ?k" "\<not> list_ex (ends_connection ?k) [too_fast 101, too_fast 159]"
    by (simp_all add: too_fast_def rejection_types_def)
  from rejections_reported_once_a_minute [OF ws1 this ws2] ws1 ws2 show ?thesis by blast
qed

end
