(* ===== verification/Agents.thy ===== *)
theory Agents
  imports Agent_Settings
begin

text \<open>
  What the live runtime and the headless experiments share about agents:
  \<open>AgentIdentity\<close>, \<open>AgentResponse\<close> and the configuration fingerprint of
  \<open>rust-server/src/agents.rs\<close>, the canonical form of \<open>rust-server/src/canonical_json.rs\<close>, and the
  seed of \<open>rust-server/src/agent_experiment.rs\<close>. SHA-256 and the rendering of JSON text are arguments.

  The canonical form does not rely on the order \<open>serde_json\<close> keeps: in this theory an object is any
  list of entries with different keys.
\<close>

section \<open>Responses and identities\<close>

datatype 'a agent_response = ActionOnly 'a | MessageOnly string | ActionAndMessage 'a string

fun into_parts :: "'a agent_response \<Rightarrow> 'a option \<times> string option" where
  "into_parts (ActionOnly a) = (Some a, None)"
| "into_parts (MessageOnly t) = (None, Some t)"
| "into_parts (ActionAndMessage a t) = (Some a, Some t)"

record agent_identity =
  ai_name :: string
  ai_version :: string

datatype identity_error = EmptyAgentName | EmptyAgentVersion

definition validate_identity :: "agent_identity \<Rightarrow> (identity_error, unit) outcome" where
  "validate_identity i =
     obind (ensure (\<not> blank (ai_name i)) EmptyAgentName) (\<lambda>u.
       ensure (\<not> blank (ai_version i)) EmptyAgentVersion)"

section \<open>Canonical form\<close>

lemma json_member_size:
  "(k, v) \<in> set kvs \<Longrightarrow> size v < size (JObj kvs)"
  "v \<in> set vs \<Longrightarrow> size v < size (JArr vs)"
proof -
  show "(k, v) \<in> set kvs \<Longrightarrow> size v < size (JObj kvs)"
    by (induction kvs) auto
  show "v \<in> set vs \<Longrightarrow> size v < size (JArr vs)"
    by (induction vs) auto
qed

function canonical_value :: "json \<Rightarrow> json" where
  "canonical_value (JObj kvs) = JObj (map (\<lambda>(k, v). (k, canonical_value v)) (sort_key fst kvs))"
| "canonical_value (JArr vs) = JArr (map canonical_value vs)"
| "canonical_value JNull = JNull"
| "canonical_value (JBool b) = JBool b"
| "canonical_value (JInt n) = JInt n"
| "canonical_value (JFloat q) = JFloat q"
| "canonical_value (JStr s) = JStr s"
  by pat_completeness auto

termination
  by (relation "measure size") (use json_member_size in auto)

definition configuration_fingerprint ::
    "(string \<Rightarrow> string) \<Rightarrow> (json \<Rightarrow> string) \<Rightarrow> string \<Rightarrow> json \<Rightarrow> string" where
  "configuration_fingerprint sha render factory settings =
     ''sha256:'' @ sha (render (canonical_value
       (JObj [(''factory'', JStr factory), (''settings'', settings), (''version'', JInt 1)])))"

definition hash_value :: "(string \<Rightarrow> string) \<Rightarrow> (json \<Rightarrow> string) \<Rightarrow> json \<Rightarrow> string" where
  "hash_value sha render v = ''sha256-'' @ sha (render (canonical_value v))"

text \<open>The reference: two documents are the same when they differ in the order of entries only.\<close>

function same_json :: "json \<Rightarrow> json \<Rightarrow> bool" where
  "same_json (JObj xs) w \<longleftrightarrow>
     (case w of
        JObj ys \<Rightarrow> fst ` set xs = fst ` set ys \<and> (\<forall>(k, v) \<in> set xs. \<forall>(k', v') \<in> set ys. k = k' \<longrightarrow> same_json v v')
      | _ \<Rightarrow> False)"
| "same_json (JArr vs) w \<longleftrightarrow> (case w of JArr ws \<Rightarrow> list_all2 same_json vs ws | _ \<Rightarrow> False)"
| "same_json JNull w \<longleftrightarrow> w = JNull"
| "same_json (JBool b) w \<longleftrightarrow> w = JBool b"
| "same_json (JInt n) w \<longleftrightarrow> w = JInt n"
| "same_json (JFloat q) w \<longleftrightarrow> w = JFloat q"
| "same_json (JStr s) w \<longleftrightarrow> w = JStr s"
  by pat_completeness auto

termination
  by (relation "measure (\<lambda>(v, w). size v)") (use json_member_size in auto)

function unique_keys :: "json \<Rightarrow> bool" where
  "unique_keys (JObj kvs) \<longleftrightarrow> distinct (map fst kvs) \<and> (\<forall>(k, v) \<in> set kvs. unique_keys v)"
| "unique_keys (JArr vs) \<longleftrightarrow> (\<forall>v \<in> set vs. unique_keys v)"
| "unique_keys JNull \<longleftrightarrow> True"
| "unique_keys (JBool b) \<longleftrightarrow> True"
| "unique_keys (JInt n) \<longleftrightarrow> True"
| "unique_keys (JFloat q) \<longleftrightarrow> True"
| "unique_keys (JStr s) \<longleftrightarrow> True"
  by pat_completeness auto

termination
  by (relation "measure size") (use json_member_size in auto)

declare canonical_value.simps [simp del] same_json.simps [simp del]

lemmas canonical_simps = canonical_value.simps
lemmas same_simps = same_json.simps

lemma canonical_entries:
  assumes "distinct (map fst kvs)"
  shows "sorted_entries (map (\<lambda>(k, v). (k, f v)) (sort_key fst kvs))"
    and "map_of (map (\<lambda>(k, v). (k, f v)) (sort_key fst kvs)) = map_option f \<circ> map_of kvs"
proof -
  have keys: "map fst (map (\<lambda>(k, v). (k, f v)) (sort_key fst kvs)) = map fst (sort_key fst kvs)"
    by (simp add: comp_def split_beta)
  have d: "distinct (map fst (sort_key fst kvs))"
    using assms by (metis distinct_map distinct_sort set_sort)
  then show "sorted_entries (map (\<lambda>(k, v). (k, f v)) (sort_key fst kvs))"
    unfolding sorted_entries_def keys by (simp add: strict_sorted_iff)
  have "map_of (sort_key fst kvs) = map_of kvs"
    using d assms by (simp add: map_of_inject_set)
  then show "map_of (map (\<lambda>(k, v). (k, f v)) (sort_key fst kvs)) = map_option f \<circ> map_of kvs"
    by (simp add: map_of_map)
qed

lemma entries_rel:
  assumes "distinct (map fst xs)" "distinct (map fst ys)"
  shows "fst ` set xs = fst ` set ys \<and> (\<forall>(k, v) \<in> set xs. \<forall>(k', v') \<in> set ys. k = k' \<longrightarrow> f v = f v') \<longleftrightarrow>
    map_option f \<circ> map_of xs = map_option f \<circ> map_of ys" (is "?l \<longleftrightarrow> ?r")
proof
  assume l: ?l
  show ?r
  proof
    fix k
    show "(map_option f \<circ> map_of xs) k = (map_option f \<circ> map_of ys) k"
    proof (cases "map_of xs k")
      case None
      then show ?thesis using l by (metis comp_apply map_of_eq_None_iff)
    next
      case (Some v)
      then have "k \<in> fst ` set ys" using l map_of_SomeD by force
      then obtain w where w: "map_of ys k = Some w" by (metis map_of_eq_None_iff not_None_eq)
      have "f v = f w" using l map_of_SomeD [OF Some] map_of_SomeD [OF w] by blast
      then show ?thesis using Some w by simp
    qed
  qed
next
  assume r: ?r
  have "map_of xs k = None \<longleftrightarrow> map_of ys k = None" for k
    using fun_cong [OF r, of k] by (cases "map_of xs k"; cases "map_of ys k") auto
  then have "fst ` set xs = fst ` set ys" by (metis equalityI map_of_eq_None_iff subsetI)
  moreover have "f v = f w" if "(k, v) \<in> set xs" "(k, w) \<in> set ys" for k v w
    using fun_cong [OF r, of k] map_of_is_SomeI [OF assms(1) that(1)] map_of_is_SomeI [OF assms(2) that(2)] by simp
  ultimately show ?l by blast
qed

lemma canonical_object:
  assumes "distinct (map fst xs)" "distinct (map fst ys)"
  shows "canonical_value (JObj xs) = canonical_value (JObj ys) \<longleftrightarrow>
    map_option canonical_value \<circ> map_of xs = map_option canonical_value \<circ> map_of ys"
  unfolding canonical_simps json.inject
  using canonical_entries [OF assms(1), of canonical_value] canonical_entries [OF assms(2), of canonical_value]
    sorted_entries_eqI by metis

text \<open>The canonical form decides whether two documents say the same: for documents
  whose objects have no key twice, the canonical forms are equal exactly when the documents differ in
  the order of object entries only, at every depth.\<close>

theorem canonical_value_decides_equality:
  assumes "unique_keys v" "unique_keys w"
  shows "canonical_value v = canonical_value w \<longleftrightarrow> same_json v w"
  using assms
proof (induction v w rule: same_json.induct)
  case (1 xs w)
  show ?case
  proof (cases w)
    case (JObj ys)
    have d: "distinct (map fst xs)" "distinct (map fst ys)" using 1(2,3) by (simp_all add: JObj)
    have "(\<forall>(k, v) \<in> set xs. \<forall>(k', v') \<in> set ys. k = k' \<longrightarrow> same_json v v') \<longleftrightarrow>
        (\<forall>(k, v) \<in> set xs. \<forall>(k', v') \<in> set ys. k = k' \<longrightarrow> canonical_value v = canonical_value v')"
      using 1 JObj by fastforce
    then show ?thesis
      using canonical_object [OF d] entries_rel [OF d, of canonical_value] by (simp add: JObj same_simps)
  qed (simp_all add: canonical_simps same_simps)
next
  case (2 vs w)
  show ?case
  proof (cases w)
    case (JArr ws)
    have "list_all2 same_json vs ws \<longleftrightarrow> list_all2 (\<lambda>v w. canonical_value v = canonical_value w) vs ws"
      using 2 JArr by (intro list.rel_cong) auto
    moreover have "map canonical_value vs = map canonical_value ws \<longleftrightarrow> list_all2 (\<lambda>v w. canonical_value v = canonical_value w) vs ws"
      by (auto simp only: list_all2_conv_all_nth list_eq_iff_nth_eq length_map nth_map)
    ultimately show ?thesis by (simp add: JArr canonical_simps same_simps)
  qed (simp_all add: canonical_simps same_simps)
next
  case (3 w)
  then show ?case by (cases w) (simp_all add: canonical_simps same_simps)
next
  case (4 b w)
  then show ?case by (cases w) (auto simp: canonical_simps same_simps)
next
  case (5 n w)
  then show ?case by (cases w) (auto simp: canonical_simps same_simps)
next
  case (6 q w)
  then show ?case by (cases w) (auto simp: canonical_simps same_simps)
next
  case (7 t w)
  then show ?case by (cases w) (auto simp: canonical_simps same_simps)
qed

text \<open>The canonical form is its own canonical form.\<close>

lemma sorted_sort_key: "sorted_entries kvs \<Longrightarrow> sort_key fst kvs = kvs"
  by (induction kvs) (auto simp: sorted_entries_def less_imp_le intro!: insort_is_Cons)

lemma canonical_value_idempotent: "unique_keys v \<Longrightarrow> canonical_value (canonical_value v) = canonical_value v"
proof (induction v rule: canonical_value.induct)
  case (1 kvs)
  then have d: "distinct (map fst kvs)" by simp
  have "map (\<lambda>(k, v). (k, canonical_value v)) (map (\<lambda>(k, v). (k, canonical_value v)) (sort_key fst kvs)) =
      map (\<lambda>(k, v). (k, canonical_value v)) (sort_key fst kvs)"
    using 1 by (auto simp: list.map_comp intro!: map_cong)
  then show ?case
    unfolding canonical_simps sorted_sort_key [OF canonical_entries(1) [OF d]] by simp
qed (auto simp: canonical_simps)

section \<open>Derived seeds\<close>

text \<open>Bytes are numbers below 256; a length is written as eight bytes, most significant first.\<close>

definition be_bytes :: "nat \<Rightarrow> nat list" where
  "be_bytes n = map (\<lambda>i. n div 256 ^ i mod 256) (rev [0..<8])"

fun from_be_bytes :: "nat list \<Rightarrow> nat" where
  "from_be_bytes [] = 0"
| "from_be_bytes (b # bs) = b * 256 ^ length bs + from_be_bytes bs"

definition seed_bytes :: "nat list list \<Rightarrow> nat list" where
  "seed_bytes parts = map of_char ''parlando-agent-seed-v1'' @ [0] @ concat (map (\<lambda>p. be_bytes (length p) @ p) parts)"

text \<open>The digest, SHA-256, is an argument; it has at least eight bytes.\<close>

definition derive_seed :: "(nat list \<Rightarrow> nat list) \<Rightarrow> nat list list \<Rightarrow> nat" where
  "derive_seed sha parts = from_be_bytes (take 8 (sha (seed_bytes parts)))"

lemma be_bytes_length [simp]: "length (be_bytes n) = 8"
  by (simp add: be_bytes_def)

lemma from_be_bytes_digits: "from_be_bytes (map (\<lambda>i. n div 256 ^ i mod 256) (rev [0..<k])) = n mod 256 ^ k"
proof (induction k)
  case (Suc k)
  then show ?case using mod_mult2_eq [of n "256 ^ k" 256] by (simp add: mult.commute)
qed simp

lemma from_be_bytes_be_bytes: "n < 2 ^ 64 \<Longrightarrow> from_be_bytes (be_bytes n) = n"
proof -
  assume "n < 2 ^ 64"
  moreover have "(2::nat) ^ 64 = 256 ^ 8" by simp
  ultimately show ?thesis unfolding be_bytes_def from_be_bytes_digits by (simp only: mod_less)
qed

lemma be_bytes_nonempty [simp]: "be_bytes n \<noteq> []"
  by (simp add: be_bytes_def)

lemma be_bytes_inj:
  assumes "m < 2 ^ 64" "n < 2 ^ 64" "be_bytes m = be_bytes n"
  shows "m = n"
proof -
  have "m = from_be_bytes (be_bytes m)" by (rule from_be_bytes_be_bytes [OF assms(1), symmetric])
  also have "\<dots> = from_be_bytes (be_bytes n)" by (rule arg_cong [OF assms(3)])
  also have "\<dots> = n" by (rule from_be_bytes_be_bytes [OF assms(2)])
  finally show ?thesis .
qed

lemma seed_parts_inj:
  assumes "\<forall>p \<in> set ps \<union> set qs. length p < 2 ^ 64"
    and "concat (map (\<lambda>p. be_bytes (length p) @ p) ps) = concat (map (\<lambda>p. be_bytes (length p) @ p) qs)"
  shows "ps = qs"
  using assms
proof (induction ps arbitrary: qs)
  case Nil
  then show ?case by (cases qs) simp_all
next
  case (Cons p ps)
  show ?case
  proof (cases qs)
    case Nil
    then show ?thesis using Cons.prems(2) by simp
  next
    case (Cons q qs')
    have eq: "be_bytes (length p) @ p @ concat (map (\<lambda>p. be_bytes (length p) @ p) ps) =
        be_bytes (length q) @ q @ concat (map (\<lambda>p. be_bytes (length p) @ p) qs')"
      using Cons.prems(2) Cons by simp
    then have "be_bytes (length p) = be_bytes (length q)" by (simp add: append_eq_append_conv)
    then have len: "length p = length q" using Cons.prems(1) Cons by (intro be_bytes_inj) auto
    then have "p = q" "concat (map (\<lambda>p. be_bytes (length p) @ p) ps) = concat (map (\<lambda>p. be_bytes (length p) @ p) qs')"
      using eq by (simp_all add: append_eq_append_conv)
    then show ?thesis using Cons.IH [of qs'] Cons.prems(1) Cons by auto
  qed
qed

text \<open>The seed of an agent is derived from an unambiguous text: two different lists of
  labels, of whatever lengths and contents, are never hashed as the same bytes, so a label cannot
  run into its neighbour.\<close>

theorem seed_bytes_unambiguous:
  assumes "\<forall>p \<in> set ps \<union> set qs. length p < 2 ^ 64" "seed_bytes ps = seed_bytes qs"
  shows "ps = qs"
  by (rule seed_parts_inj [OF assms(1)]) (use assms(2) in \<open>simp add: seed_bytes_def\<close>)

theorem seed_bytes_unambiguous_witness:
  "seed_bytes [[1, 2], [3]] \<noteq> seed_bytes [[1], [2, 3]]"
  using seed_bytes_unambiguous [of "[[1, 2], [3]]" "[[1], [2, 3]]"] by auto

text \<open>Objects with the same two entries in either order, one of them nested.\<close>

definition demo_document :: json where
  "demo_document = JObj [(''b'', JObj [(''y'', JInt 1), (''x'', JNull)]), (''a'', JArr [JInt 2])]"

definition demo_reordered :: json where
  "demo_reordered = JObj [(''a'', JArr [JInt 2]), (''b'', JObj [(''x'', JNull), (''y'', JInt 1)])]"

theorem canonical_value_decides_equality_witness:
  "same_json demo_document demo_reordered \<and> canonical_value demo_document = canonical_value demo_reordered"
proof -
  have u: "unique_keys demo_document" "unique_keys demo_reordered"
    by (simp_all add: demo_document_def demo_reordered_def)
  have s: "same_json demo_document demo_reordered"
    by (auto simp: demo_document_def demo_reordered_def same_simps)
  show ?thesis using canonical_value_decides_equality [OF u] s by simp
qed

end
