(* ===== verification/Agent_Loop.thy ===== *)
theory Agent_Loop
  imports Session_Demo Agents "HOL-Library.Sublist"
begin

text \<open>
  The task that runs a software agent in a session: \<open>start_agent_task\<close>, \<open>request_agent_decision\<close>,
  \<open>handle_agent_response\<close> and the two \<open>notify_agents_of_\<close> functions of \<open>rust-server/src/app.rs\<close>.

  The agent itself is user code: what its methods answer, and whether they fail or time out, are
  arguments of the steps. The task is cut at the awaits on which it can be made to wait by others:
  the transition lock and the space in its own bounded inbox. The steps of the other handlers that
  reach the inbox (starting the game, the partner's actions and messages) are steps of the same
  machine. Two fields are history: the observations the agent was given, and the actions accepted
  since it attached.
\<close>

section \<open>Observations\<close>

datatype ('a, 'obs, 'c) agent_observation =
    Activated
  | ObservedAction player_role 'a 'obs "'c option"
  | ObservedMessage player_role string

text \<open>The outcome of \<open>respond\<close> under its timeout; a failure has the text of its error.\<close>

datatype 'a agent_answer = NoResponse | Response "'a agent_response" | RespondFails string

section \<open>The state of the task\<close>

text \<open>What is fixed for one agent: where it sits, its invalid-action limit, and how errors print.\<close>

record agent_seat =
  seat_session :: string
  seat_agent :: string
  seat_role :: player_role
  seat_limit :: nat
  seat_metadata :: json
  seat_text :: "app_error \<Rightarrow> string"

datatype 'a agent_pc =
    Loading
  | Attaching
  | AwaitingActivation
  | ActivationBarrier
  | Deciding
  | Responding
  | Submitting 'a "string option"
  | Notifying "string option" transition_outcome
  | Speaking string transition_outcome
  | Receiving
  | Gone

text \<open>A send that waits for space in the inbox, by the handler that makes it. All but the one of a
  message hold the transition lock; all hold the read guard of the map of inboxes.\<close>

datatype sender = StartSends | OwnActionSends | PartnerActionSends | PartnerMessageSends

record ('s, 'a, 'obs, 'c) agent_life =
  ag_world :: "'s world"
  ag_pc :: "'a agent_pc"
  ag_starting :: bool
  ag_registered :: bool
  ag_inbox :: "('a, 'obs, 'c) agent_observation list"
  ag_senders :: "(sender \<times> ('a, 'obs, 'c) agent_observation) list"
  ag_invalid :: nat
  ag_last_error :: "string option"
  ag_awaiting :: bool
  ag_seen :: "('a, 'obs, 'c) agent_observation list"
  ag_accepted :: "(player_role \<times> 'a) list"

definition inbox_capacity :: nat where
  "inbox_capacity = 64"

definition lock_held :: "('s, 'a, 'obs, 'c) agent_life \<Rightarrow> bool" where
  "lock_held st \<longleftrightarrow> ag_starting st \<or> list_ex (\<lambda>(src, ob). src \<noteq> PartnerMessageSends) (ag_senders st)"

definition agent_start :: "'s world \<Rightarrow> ('s, 'a, 'obs, 'c) agent_life" where
  "agent_start w = \<lparr>ag_world = w, ag_pc = Loading, ag_starting = False, ag_registered = False, ag_inbox = [],
     ag_senders = [], ag_invalid = 0, ag_last_error = None, ag_awaiting = False, ag_seen = [], ag_accepted = []\<rparr>"

section \<open>Notifications\<close>

text \<open>Sending to an inbox whose receiver is dropped fails at once.\<close>

definition offer ::
    "sender \<Rightarrow> ('a, 'obs, 'c) agent_observation option \<Rightarrow> ('s, 'a, 'obs, 'c) agent_life
      \<Rightarrow> ('s, 'a, 'obs, 'c) agent_life" where
  "offer src notice st =
     (case notice of
        Some ob \<Rightarrow> if ag_registered st \<and> ag_pc st \<noteq> Gone then st\<lparr>ag_senders := ag_senders st @ [(src, ob)]\<rparr> else st
      | None \<Rightarrow> st)"

definition agent_in :: "agent_seat \<Rightarrow> 's live_session \<Rightarrow> session_participant option" where
  "agent_in k s =
     (case map_of (ls_participants s) (seat_agent k) of
        Some p \<Rightarrow> if sp_source p = ''agent'' then Some p else None
      | None \<Rightarrow> None)"

definition notify_agents_of_action ::
    "('cfg, 's, 'a, 'obs, 'c) runtime \<Rightarrow> agent_seat \<Rightarrow> player_role \<Rightarrow> 'a \<Rightarrow> 's world
      \<Rightarrow> ('a, 'obs, 'c) agent_observation option" where
  "notify_agents_of_action rt k actor a w =
     (case session_in w (seat_session k) of
        None \<Rightarrow> None
      | Some s \<Rightarrow>
          map_option (\<lambda>p. ObservedAction actor a (g_observation (rt_game rt) (ls_state s) (sp_role p))
                            (g_completion (rt_game rt) (ls_state s))) (agent_in k s))"

definition notify_agents_of_message ::
    "agent_seat \<Rightarrow> player_role \<Rightarrow> string \<Rightarrow> 's world \<Rightarrow> ('a, 'obs, 'c) agent_observation option" where
  "notify_agents_of_message k speaker t w =
     (case session_in w (seat_session k) of
        None \<Rightarrow> None
      | Some s \<Rightarrow>
          (case agent_in k s of
             Some p \<Rightarrow> if sp_role p \<noteq> speaker then Some (ObservedMessage speaker t) else None
           | None \<Rightarrow> None))"

section \<open>Leaving\<close>

definition agent_event ::
    "faults \<Rightarrow> int \<Rightarrow> agent_seat \<Rightarrow> string \<Rightarrow> json \<Rightarrow> 's world \<Rightarrow> 's world" where
  "agent_event io now k = persist_session_event io now (seat_session k) (Some (seat_agent k))"

definition error_payload :: "string option \<Rightarrow> string option \<Rightarrow> json" where
  "error_payload e ph =
     JObj ((''last_error'', case e of None \<Rightarrow> JNull | Some t \<Rightarrow> JStr t) #
           (case ph of None \<Rightarrow> [] | Some p \<Rightarrow> [(''phase'', JStr p)]))"

text \<open>The end of the task: the receiver is dropped, which releases whoever waits to send; the inbox
  is removed and the log of the session closed.\<close>

definition agent_leaves :: "agent_seat \<Rightarrow> ('s, 'a, 'obs, 'c) agent_life \<Rightarrow> ('s, 'a, 'obs, 'c) agent_life" where
  "agent_leaves k st = st\<lparr>ag_world := shutdown_session_log (seat_session k) (ag_world st), ag_pc := Gone,
     ag_registered := False, ag_inbox := [], ag_senders := []\<rparr>"

text \<open>A panic ends the task without its cleanup; the receiver is dropped all the same.\<close>

definition agent_crashes :: "('s, 'a, 'obs, 'c) agent_life \<Rightarrow> ('s, 'a, 'obs, 'c) agent_life" where
  "agent_crashes st = st\<lparr>ag_pc := Gone, ag_inbox := [], ag_senders := []\<rparr>"

definition agent_error ::
    "faults \<Rightarrow> int \<Rightarrow> agent_seat \<Rightarrow> json \<Rightarrow> ('s, 'a, 'obs, 'c) agent_life \<Rightarrow> ('s, 'a, 'obs, 'c) agent_life" where
  "agent_error io now k payload st = st\<lparr>ag_world := agent_event io now k ''agent_error'' payload (ag_world st)\<rparr>"

definition dismissed ::
    "faults \<Rightarrow> int \<Rightarrow> agent_seat \<Rightarrow> string option \<Rightarrow> ('s, 'a, 'obs, 'c) agent_life \<Rightarrow> ('s, 'a, 'obs, 'c) agent_life" where
  "dismissed io now k ph st = agent_leaves k (agent_error io now k (error_payload (ag_last_error st) ph) st)"

text \<open>The limit is checked after a decision and after an observation.\<close>

definition unless_exhausted ::
    "faults \<Rightarrow> int \<Rightarrow> agent_seat \<Rightarrow> 'a agent_pc \<Rightarrow> ('s, 'a, 'obs, 'c) agent_life \<Rightarrow> ('s, 'a, 'obs, 'c) agent_life" where
  "unless_exhausted io now k pc st =
     (if ag_invalid st \<ge> seat_limit k then dismissed io now k None st else st\<lparr>ag_pc := pc\<rparr>)"

section \<open>A decision\<close>

text \<open>The result of \<open>request_agent_decision\<close> as the loop handles it.\<close>

definition decided ::
    "faults \<Rightarrow> int \<Rightarrow> agent_seat \<Rightarrow> (app_error, transition_outcome option) outcome
      \<Rightarrow> ('s, 'a, 'obs, 'c) agent_life \<Rightarrow> ('s, 'a, 'obs, 'c) agent_life" where
  "decided io now k r st =
     (case r of
        Ok (Some TransitionCompleted) \<Rightarrow> unless_exhausted io now k Receiving (st\<lparr>ag_awaiting := True\<rparr>)
      | Ok _ \<Rightarrow> unless_exhausted io now k Receiving st
      | Panic \<Rightarrow> agent_crashes st
      | Err e \<Rightarrow>
          let st1 = st\<lparr>ag_last_error := Some (seat_text k e)\<rparr>
          in (case e of
                GameRejection c \<Rightarrow>
                  let st2 = st1\<lparr>ag_invalid := ag_invalid st + 1\<rparr>
                  in if ag_invalid st2 < seat_limit k then st2\<lparr>ag_pc := Deciding\<rparr>
                     else unless_exhausted io now k Receiving st2
              | _ \<Rightarrow> dismissed io now k (Some ''runtime'') st1))"

definition after_action ::
    "faults \<Rightarrow> int \<Rightarrow> agent_seat \<Rightarrow> string option \<Rightarrow> transition_outcome
      \<Rightarrow> ('s, 'a, 'obs, 'c) agent_life \<Rightarrow> ('s, 'a, 'obs, 'c) agent_life" where
  "after_action io now k m out st =
     (case m of
        Some t \<Rightarrow> st\<lparr>ag_pc := Speaking t out\<rparr>
      | None \<Rightarrow> decided io now k (Ok (Some out)) st)"

text \<open>The session is read for the listed actions before the agent is asked.\<close>

definition agent_asked ::
    "faults \<Rightarrow> int \<Rightarrow> agent_seat \<Rightarrow> ('s, 'a, 'obs, 'c) agent_life \<Rightarrow> ('s, 'a, 'obs, 'c) agent_life" where
  "agent_asked io now k st =
     (if session_in (ag_world st) (seat_session k) = None then decided io now k (Err NotFound) st
      else st\<lparr>ag_pc := Responding\<rparr>)"

text \<open>From the agent's answer to its first effect: an action is recorded as proposed before it is
  submitted.\<close>

definition agent_answers ::
    "('cfg, 's, 'a, 'obs, 'c) runtime \<Rightarrow> faults \<Rightarrow> int \<Rightarrow> agent_seat \<Rightarrow> 'a agent_answer
      \<Rightarrow> ('s, 'a, 'obs, 'c) agent_life \<Rightarrow> ('s, 'a, 'obs, 'c) agent_life" where
  "agent_answers rt io now k ans st =
     (case ans of
        NoResponse \<Rightarrow> decided io now k (Ok None) st
      | RespondFails t \<Rightarrow> dismissed io now k (Some ''runtime'') (st\<lparr>ag_last_error := Some t\<rparr>)
      | Response r \<Rightarrow>
          (case into_parts r of
             (Some a, m) \<Rightarrow>
               (case rt_action_json rt a of
                  None \<Rightarrow> decided io now k (Err Internal) st
                | Some j \<Rightarrow>
                    st\<lparr>ag_world := agent_event io now k ''agent_action'' (JObj [(''action'', j)]) (ag_world st),
                       ag_pc := Submitting a m\<rparr>)
           | (None, Some t) \<Rightarrow> st\<lparr>ag_pc := Speaking t Continued\<rparr>
           | (None, None) \<Rightarrow> decided io now k (Ok (Some Continued)) st))"

text \<open>\<open>submit_action\<close> for the agent, up to the send to its own inbox.\<close>

definition agent_submits ::
    "('cfg, 's, 'a, 'obs, 'c) runtime \<Rightarrow> faults \<Rightarrow> int \<Rightarrow> agent_seat \<Rightarrow> 'a \<Rightarrow> string option
      \<Rightarrow> ('s, 'a, 'obs, 'c) agent_life \<Rightarrow> ('s, 'a, 'obs, 'c) agent_life" where
  "agent_submits rt io now k a m st =
     (case submit_action rt io now False (seat_session k) (seat_agent k) (seat_role k) a (ag_world st) of
        (w, Ok out) \<Rightarrow>
          let st1 = st\<lparr>ag_world := w, ag_accepted := ag_accepted st @ [(seat_role k, a)]\<rparr>;
              notice = notify_agents_of_action rt k (seat_role k) a w
          in if ag_registered st \<and> notice \<noteq> None
             then (offer OwnActionSends notice st1)\<lparr>ag_pc := Notifying m out\<rparr>
             else after_action io now k m out st1
      | (w, Err e) \<Rightarrow> decided io now k (Err e) (st\<lparr>ag_world := w\<rparr>)
      | (w, Panic) \<Rightarrow> agent_crashes (st\<lparr>ag_world := w\<rparr>))"

text \<open>A message of the agent whose storing fails is dropped.\<close>

definition agent_speaks ::
    "('cfg, 's, 'a, 'obs, 'c) runtime \<Rightarrow> faults \<Rightarrow> int \<Rightarrow> agent_seat \<Rightarrow> json \<Rightarrow> string \<Rightarrow> transition_outcome
      \<Rightarrow> ('s, 'a, 'obs, 'c) agent_life \<Rightarrow> ('s, 'a, 'obs, 'c) agent_life" where
  "agent_speaks rt io now k payload t out st =
     (let w = fst (commit_conversation_message (rt_config rt) io now (seat_session k) (seat_agent k) payload
                     (length t) 2 (ag_world st))
      in decided io now k (Ok (Some out)) (st\<lparr>ag_world := w\<rparr>))"

section \<open>An observation\<close>

definition observed ::
    "faults \<Rightarrow> int \<Rightarrow> agent_seat \<Rightarrow> string option \<Rightarrow> string option \<Rightarrow> ('a, 'obs, 'c) agent_observation
      \<Rightarrow> ('s, 'a, 'obs, 'c) agent_life \<Rightarrow> ('s, 'a, 'obs, 'c) agent_life" where
  "observed io now k observe_error finish_error ob st =
     (let st1 = (case observe_error of
                   None \<Rightarrow> st
                 | Some t \<Rightarrow> st\<lparr>ag_last_error := Some t, ag_invalid := ag_invalid st + 1\<rparr>)
      in case ob of
           Activated \<Rightarrow> agent_crashes st
         | ObservedAction r a v (Some c) \<Rightarrow>
             (case finish_error of
                None \<Rightarrow> agent_leaves k st1
              | Some t \<Rightarrow> agent_leaves k (agent_error io now k (error_payload (Some t) (Some ''finish'')) st1))
         | _ \<Rightarrow> unless_exhausted io now k (if ag_awaiting st then Receiving else Deciding) st1)"

text \<open>\<open>recv\<close> gives \<open>None\<close> when the inbox is empty and no longer in the map; otherwise it waits.\<close>

definition agent_receives ::
    "faults \<Rightarrow> int \<Rightarrow> agent_seat \<Rightarrow> string option \<Rightarrow> string option
      \<Rightarrow> ('s, 'a, 'obs, 'c) agent_life \<Rightarrow> ('s, 'a, 'obs, 'c) agent_life option" where
  "agent_receives io now k observe_error finish_error st =
     (case ag_inbox st of
        [] \<Rightarrow> if ag_registered st then None else Some (agent_leaves k st)
      | ob # rest \<Rightarrow>
          let st1 = st\<lparr>ag_inbox := rest, ag_seen := ag_seen st @ [ob]\<rparr>
          in Some (if ag_pc st = AwaitingActivation
                   then (if ob = Activated then st1\<lparr>ag_pc := ActivationBarrier\<rparr> else agent_leaves k st1)
                   else observed io now k observe_error finish_error ob st1))"

section \<open>Joining\<close>

text \<open>\<open>start\<close> runs while the session is forming; a failure ends the session.\<close>

definition agent_loads ::
    "('cfg, 's, 'a, 'obs, 'c) runtime \<Rightarrow> faults \<Rightarrow> int \<Rightarrow> agent_seat \<Rightarrow> string option
      \<Rightarrow> ('s, 'a, 'obs, 'c) agent_life \<Rightarrow> ('s, 'a, 'obs, 'c) agent_life" where
  "agent_loads rt io now k start_error st =
     (case session_in (ag_world st) (seat_session k) of
        None \<Rightarrow> agent_leaves k st
      | Some s \<Rightarrow>
          if ls_lifecycle s \<noteq> Forming then agent_leaves k st
          else (case start_error of
              None \<Rightarrow> st\<lparr>ag_pc := Attaching\<rparr>
            | Some t \<Rightarrow>
                let st1 = agent_error io now k (error_payload (Some t) (Some ''start'')) st
                in agent_leaves k (st1\<lparr>ag_world :=
                     fst (expire_live_session rt io now (seat_session k) ''agent_start_failed'' (ag_world st1))\<rparr>)))"

definition agent_attaches ::
    "faults \<Rightarrow> int \<Rightarrow> agent_seat \<Rightarrow> ('s, 'a, 'obs, 'c) agent_life \<Rightarrow> ('s, 'a, 'obs, 'c) agent_life" where
  "agent_attaches io now k st =
     (case session_in (ag_world st) (seat_session k) of
        None \<Rightarrow> agent_leaves k st
      | Some s \<Rightarrow>
          if ls_lifecycle s \<noteq> Forming \<or> map_of (ls_participants s) (seat_agent k) = None then agent_leaves k st
          else
            let w1 = in_memory (modify_session (seat_session k) (modify_participant (seat_agent k)
                       (\<lambda>p. p\<lparr>sp_ready := True, sp_updated_at := now\<rparr>))) (ag_world st);
                w2 = agent_event io now k ''participant_connected''
                       (JObj [(''agent'', seat_metadata k), (''source'', JStr ''agent'')]) w1;
                w3 = agent_event io now k ''agent_started''
                       (JObj [(''agent'', seat_metadata k), (''role'', JStr (role_str (seat_role k)))]) w2
            in st\<lparr>ag_world := w3, ag_registered := True, ag_pc := AwaitingActivation\<rparr>)"

section \<open>Steps\<close>

text \<open>Every step is taken by the task or by a handler of the same session. \<open>GameStarts\<close> is
  \<open>maybe_start_game\<close> up to its memory write and \<open>ActivationSent\<close> its send to the inbox;
  \<open>SendCompletes\<close> moves the observation of the longest waiting sender into the inbox.\<close>

datatype ('s, 'a) task_event =
    AgentLoads "string option"
  | AgentAttaches
  | GameStarts
  | ActivationSent
  | SendCompletes
  | BarrierPasses
  | AgentAsked
  | AgentAnswers "'a agent_answer"
  | AgentSubmits
  | AgentSpeaks json
  | AgentReceives "string option" "string option"
  | PartnerActs string player_role 'a
  | PartnerSays string string json nat
  | InboxCloses
  | Elsewhere "'s world"

text \<open>Other handlers leave the agent its place in the session while the session is in memory.\<close>

definition seated :: "agent_seat \<Rightarrow> 's world \<Rightarrow> bool" where
  "seated k w \<longleftrightarrow>
     (case session_in w (seat_session k) of
        None \<Rightarrow> True
      | Some s \<Rightarrow> (case agent_in k s of None \<Rightarrow> False | Some p \<Rightarrow> sp_role p = seat_role k))"

definition attached :: "('s, 'a, 'obs, 'c) agent_life \<Rightarrow> bool" where
  "attached st \<longleftrightarrow> ag_pc st \<noteq> Loading \<and> ag_pc st \<noteq> Attaching"

definition send_completes ::
    "faults \<Rightarrow> int \<Rightarrow> agent_seat \<Rightarrow> ('s, 'a, 'obs, 'c) agent_life \<Rightarrow> ('s, 'a, 'obs, 'c) agent_life option" where
  "send_completes io now k st =
     (case ag_senders st of
        [] \<Rightarrow> None
      | (src, ob) # rest \<Rightarrow>
          if length (ag_inbox st) \<ge> inbox_capacity then None
          else
            let st1 = st\<lparr>ag_inbox := ag_inbox st @ [ob], ag_senders := rest\<rparr>
            in (case (src, ag_pc st) of
                  (OwnActionSends, Notifying m out) \<Rightarrow> Some (after_action io now k m out st1)
                | _ \<Rightarrow> Some st1))"

definition partner_acts ::
    "('cfg, 's, 'a, 'obs, 'c) runtime \<Rightarrow> faults \<Rightarrow> int \<Rightarrow> agent_seat \<Rightarrow> string \<Rightarrow> player_role \<Rightarrow> 'a
      \<Rightarrow> ('s, 'a, 'obs, 'c) agent_life \<Rightarrow> ('s, 'a, 'obs, 'c) agent_life" where
  "partner_acts rt io now k pid role a st =
     (case submit_action rt io now False (seat_session k) pid role a (ag_world st) of
        (w, Ok out) \<Rightarrow>
          offer PartnerActionSends (notify_agents_of_action rt k role a w)
            (st\<lparr>ag_world := w,
                ag_accepted := (if attached st then ag_accepted st @ [(role, a)] else ag_accepted st)\<rparr>)
      | (w, r) \<Rightarrow> st\<lparr>ag_world := w\<rparr>)"

definition partner_says ::
    "('cfg, 's, 'a, 'obs, 'c) runtime \<Rightarrow> faults \<Rightarrow> int \<Rightarrow> agent_seat \<Rightarrow> string \<Rightarrow> string \<Rightarrow> json \<Rightarrow> nat
      \<Rightarrow> ('s, 'a, 'obs, 'c) agent_life \<Rightarrow> ('s, 'a, 'obs, 'c) agent_life" where
  "partner_says rt io now k pid t payload bytes st =
     (case commit_conversation_message (rt_config rt) io now (seat_session k) pid payload (length t) bytes (ag_world st) of
        (w, Ok role) \<Rightarrow> offer PartnerMessageSends (notify_agents_of_message k role t w) (st\<lparr>ag_world := w\<rparr>)
      | (w, r) \<Rightarrow> st\<lparr>ag_world := w\<rparr>)"

definition starts_now :: "agent_seat \<Rightarrow> 's world \<Rightarrow> 's world \<Rightarrow> bool" where
  "starts_now k w w' \<longleftrightarrow>
     (case (session_in w (seat_session k), session_in w' (seat_session k)) of
        (Some s, Some s') \<Rightarrow> ls_lifecycle s = Forming \<and> ls_lifecycle s' = Running
      | _ \<Rightarrow> False)"

fun agent_step ::
    "('cfg, 's, 'a, 'obs, 'c) runtime \<Rightarrow> faults \<Rightarrow> int \<Rightarrow> agent_seat \<Rightarrow> ('s, 'a) task_event
      \<Rightarrow> ('s, 'a, 'obs, 'c) agent_life \<Rightarrow> ('s, 'a, 'obs, 'c) agent_life option" where
  "agent_step rt io now k (AgentLoads e) st =
     (if ag_pc st = Loading then Some (agent_loads rt io now k e st) else None)"
| "agent_step rt io now k AgentAttaches st =
     (if ag_pc st = Attaching \<and> \<not> lock_held st then Some (agent_attaches io now k st) else None)"
| "agent_step rt io now k GameStarts st =
     (if lock_held st then None
      else let w = maybe_start_game (rt_config rt) io now (seat_session k) (ag_world st)
           in Some (st\<lparr>ag_world := w, ag_starting := starts_now k (ag_world st) w\<rparr>))"
| "agent_step rt io now k ActivationSent st =
     (if ag_starting st then Some (offer StartSends (Some Activated) (st\<lparr>ag_starting := False\<rparr>)) else None)"
| "agent_step rt io now k SendCompletes st = send_completes io now k st"
| "agent_step rt io now k BarrierPasses st =
     (if ag_pc st = ActivationBarrier \<and> \<not> lock_held st then Some (st\<lparr>ag_pc := Deciding\<rparr>) else None)"
| "agent_step rt io now k AgentAsked st =
     (if ag_pc st = Deciding then Some (agent_asked io now k st) else None)"
| "agent_step rt io now k (AgentAnswers ans) st =
     (if ag_pc st = Responding then Some (agent_answers rt io now k ans st) else None)"
| "agent_step rt io now k AgentSubmits st =
     (case ag_pc st of
        Submitting a m \<Rightarrow> if lock_held st then None else Some (agent_submits rt io now k a m st)
      | _ \<Rightarrow> None)"
| "agent_step rt io now k (AgentSpeaks payload) st =
     (case ag_pc st of Speaking t out \<Rightarrow> Some (agent_speaks rt io now k payload t out st) | _ \<Rightarrow> None)"
| "agent_step rt io now k (AgentReceives e1 e2) st =
     (if ag_pc st \<in> {AwaitingActivation, Receiving} then agent_receives io now k e1 e2 st else None)"
| "agent_step rt io now k (PartnerActs pid role a) st =
     (if lock_held st \<or> pid = seat_agent k then None else Some (partner_acts rt io now k pid role a st))"
| "agent_step rt io now k (PartnerSays pid t payload bytes) st =
     (if pid = seat_agent k then None else Some (partner_says rt io now k pid t payload bytes st))"
| "agent_step rt io now k InboxCloses st =
     (if ag_senders st = [] then Some (st\<lparr>ag_registered := False\<rparr>) else None)"
| "agent_step rt io now k (Elsewhere w) st = (if seated k w then Some (st\<lparr>ag_world := w\<rparr>) else None)"

text \<open>The states one agent's task goes through, under any steps, times and store failures.\<close>

inductive agent_path ::
    "('cfg, 's, 'a, 'obs, 'c) runtime \<Rightarrow> agent_seat \<Rightarrow> ('s, 'a, 'obs, 'c) agent_life
      \<Rightarrow> ('s, 'a, 'obs, 'c) agent_life \<Rightarrow> bool"
  for rt k st0 where
  path_refl: "agent_path rt k st0 st0"
| path_step: "agent_path rt k st0 st \<Longrightarrow> agent_step rt io now k e st = Some st' \<Longrightarrow> agent_path rt k st0 st'"

definition agent_lives ::
    "('cfg, 's, 'a, 'obs, 'c) runtime \<Rightarrow> agent_seat \<Rightarrow> ('s, 'a, 'obs, 'c) agent_life \<Rightarrow> bool" where
  "agent_lives rt k st \<longleftrightarrow> (\<exists>w. seated k w \<and> agent_path rt k (agent_start w) st)"

fun agent_run ::
    "('cfg, 's, 'a, 'obs, 'c) runtime \<Rightarrow> faults \<Rightarrow> int \<Rightarrow> agent_seat \<Rightarrow> ('s, 'a) task_event list
      \<Rightarrow> ('s, 'a, 'obs, 'c) agent_life \<Rightarrow> ('s, 'a, 'obs, 'c) agent_life option" where
  "agent_run rt io now k [] st = Some st"
| "agent_run rt io now k (e # es) st =
     (case agent_step rt io now k e st of
        None \<Rightarrow> None
      | Some st' \<Rightarrow> agent_run rt io (now + 1000) k es st')"

section \<open>The agent keeps its place\<close>

definition same_places :: "string \<Rightarrow> 's world \<Rightarrow> 's world \<Rightarrow> bool" where
  "same_places sid w w' \<longleftrightarrow>
     (\<forall>s'. session_in w' sid = Some s' \<longrightarrow> (\<exists>s. session_in w sid = Some s \<and> roster s' = roster s))"

named_theorems places

lemma seated_roster:
  "seated k w \<longleftrightarrow>
     (\<forall>s. session_in w (seat_session k) = Some s \<longrightarrow>
        (\<exists>i. map_of (roster s) (seat_agent k) = Some (i, seat_role k, ''agent'')))"
proof -
  have "map_of (roster s) p = map_option (\<lambda>q. (sp_id q, sp_role q, sp_source q)) (map_of (ls_participants s) p)"
    for s :: "'a live_session" and p
    by (simp add: roster_def map_of_map)
  then show ?thesis by (auto simp: seated_def agent_in_def split: option.splits)
qed

lemma seated_same: "same_places (seat_session k) w w' \<Longrightarrow> seated k w \<Longrightarrow> seated k w'"
  by (fastforce simp: seated_roster same_places_def)

lemma places_refl [places]: "same_places sid w w"
  by (simp add: same_places_def)

lemma places_trans: "same_places sid w w' \<Longrightarrow> same_places sid w' w'' \<Longrightarrow> same_places sid w w''"
  by (fastforce simp: same_places_def)

lemma places_memory: "w_memory w' = w_memory w \<Longrightarrow> same_places sid w w'"
  by (simp add: same_places_def)

lemma places_db: "same_places sid w (w\<lparr>w_db := d\<rparr>)"
  by (simp add: places_memory)

lemma places_modify [places]:
  "(\<And>s. roster (f s) = roster s) \<Longrightarrow> same_places sid w (in_memory (modify_session sid' f) (w\<lparr>w_db := d\<rparr>))"
  "(\<And>s. roster (f s) = roster s) \<Longrightarrow> same_places sid w (in_memory (modify_session sid' f) w)"
  by (auto simp: same_places_def split: if_splits option.splits)

lemma places_event [places]: "same_places sid w (persist_session_event io now sid' pid ty payload w)"
  by (simp add: places_memory)

lemma places_shutdown [places]: "same_places sid w (shutdown_session_log sid' w)"
  unfolding shutdown_session_log_def by (rule places_modify) (simp add: roster_def)

lemma places_touch [places]: "same_places sid w (touch_session_activity c io now sid' w)"
proof (cases "session_in w sid'")
  case (Some s)
  have "same_places sid w (in_memory (modify_session sid' (\<lambda>s. s\<lparr>ls_updated_at := now,
     ls_last_activity := Some now, ls_idle_deadline := Some (now + 1000 * session_idle_timeout (cfg_session c))\<rparr>)) w)"
    by (rule places_modify) (simp add: roster_def)
  then show ?thesis using Some by (auto simp: touch_session_activity_def Let_def same_places_def)
qed (simp add: touch_session_activity_def places_refl)

lemma places_start [places]: "same_places sid w (maybe_start_game c io now sid' w)"
  by (auto simp: maybe_start_game_def Let_def roster_def places_db places_refl split: option.split prod.split
      intro!: places_modify)

lemma roster_transition: "roster (apply_transition c now v after ending s) = roster s"
  by (simp add: apply_transition_def roster_def split: option.split)

lemma places_submit [places]: "same_places sid w (fst (submit_action rt io now pair sid' pid role a w))"
  by (auto simp: submit_action_def Let_def places_refl roster_transition split: outcome.split prod.split option.split
      intro!: places_modify places_trans [OF _ places_touch] places_trans [OF _ places_shutdown])

lemma places_message [places]:
  "same_places sid w (fst (commit_conversation_message c io now sid' pid payload n m w))"
proof -
  have "same_places sid w w1 " if "persist_session_event_required io now sid' (Some pid) ''conversation_message'' payload w = Ok w1" for w1
    using that by (auto simp: persist_session_event_required_def places_db)
  then show ?thesis
    by (auto simp: commit_conversation_message_def places_refl split: outcome.split
        intro!: places_trans [OF _ places_touch])
qed

lemma places_expire [places]: "same_places sid w (fst (expire_live_session rt io now sid' reason w))"
  by (auto simp: expire_live_session_def mark_ended_def roster_def places_refl
      split: outcome.split prod.split option.split intro!: places_modify)

lemma seated_submit: "submit_action rt io now hp sid pid role a w = (w', r) \<Longrightarrow> seated k w \<Longrightarrow> seated k w'"
  using seated_same [OF places_submit] by (metis fst_conv)

lemma seated_message:
  "commit_conversation_message c io now sid pid payload n m w = (w', r) \<Longrightarrow> seated k w \<Longrightarrow> seated k w'"
  using seated_same [OF places_message] by (metis fst_conv)

lemma seated_agent_event: "seated k w \<Longrightarrow> seated k (agent_event io now k ty payload w)"
  unfolding agent_event_def by (rule seated_same [OF places_event])

section \<open>The invariant\<close>

text \<open>The actions among observations.\<close>

definition actions_in :: "('a, 'obs, 'c) agent_observation list \<Rightarrow> (player_role \<times> 'a) list" where
  "actions_in = List.map_filter (\<lambda>ob. case ob of ObservedAction r a v c \<Rightarrow> Some (r, a) | _ \<Rightarrow> None)"

lemma actions_in_simps [simp]:
  "actions_in [] = []"
  "actions_in (Activated # obs) = actions_in obs"
  "actions_in (ObservedMessage r t # obs) = actions_in obs"
  "actions_in (ObservedAction r a v c # obs) = (r, a) # actions_in obs"
  "actions_in (xs @ ys) = actions_in xs @ actions_in ys"
  by (simp_all add: actions_in_def map_filter_simps map_filter_def)

definition notices :: "('s, 'a, 'obs, 'c) agent_life \<Rightarrow> ('a, 'obs, 'c) agent_observation list" where
  "notices st = ag_seen st @ ag_inbox st @ map snd (ag_senders st)"

definition holders :: "('s, 'a, 'obs, 'c) agent_life \<Rightarrow> nat" where
  "holders st = (if ag_starting st then 1 else 0) +
     length (filter (\<lambda>(src, ob). src \<noteq> PartnerMessageSends) (ag_senders st))"

definition own_send :: "('s, 'a, 'obs, 'c) agent_life \<Rightarrow> bool" where
  "own_send st \<longleftrightarrow> OwnActionSends \<in> fst ` set (ag_senders st)"

fun notifying :: "'a agent_pc \<Rightarrow> bool" where
  "notifying (Notifying m out) = True"
| "notifying pc = False"

text \<open>What holds whatever the task does next.\<close>

definition sound :: "agent_seat \<Rightarrow> ('s, 'a, 'obs, 'c) agent_life \<Rightarrow> bool" where
  "sound k st \<longleftrightarrow>
     length (ag_inbox st) \<le> inbox_capacity \<and> holders st \<le> 1 \<and> seated k (ag_world st) \<and>
     (ag_senders st \<noteq> [] \<longrightarrow> ag_registered st) \<and> prefix (actions_in (notices st)) (ag_accepted st) \<and>
     (ag_registered st \<longrightarrow> actions_in (notices st) = ag_accepted st)"

definition untouched :: "('s, 'a, 'obs, 'c) agent_life \<Rightarrow> bool" where
  "untouched st \<longleftrightarrow> \<not> ag_registered st \<and> ag_accepted st = [] \<and> notices st = []"

definition agent_inv :: "agent_seat \<Rightarrow> ('s, 'a, 'obs, 'c) agent_life \<Rightarrow> bool" where
  "agent_inv k st \<longleftrightarrow>
     (if ag_pc st = Gone
      then ag_inbox st = [] \<and> ag_senders st = [] \<and> seated k (ag_world st) \<and>
           prefix (actions_in (ag_seen st)) (ag_accepted st)
      else sound k st \<and> ag_invalid st < seat_limit k \<and> (own_send st \<longleftrightarrow> notifying (ag_pc st)) \<and>
           (ag_awaiting st \<longrightarrow> ag_pc st = Receiving) \<and> (\<not> attached st \<longrightarrow> untouched st))"

lemma lock_held_holders: "lock_held st \<longleftrightarrow> holders st > 0"
  by (auto simp: lock_held_def holders_def list_ex_iff filter_empty_conv)

lemma sound_world [simp]:
  "sound k (st\<lparr>ag_last_error := e\<rparr>) = sound k st"
  "sound k (st\<lparr>ag_invalid := n\<rparr>) = sound k st"
  "sound k (st\<lparr>ag_awaiting := b\<rparr>) = sound k st"
  "sound k (st\<lparr>ag_pc := pc\<rparr>) = sound k st"
  "seated k w \<Longrightarrow> sound k st \<Longrightarrow> sound k (st\<lparr>ag_world := w\<rparr>)"
  by (simp_all add: sound_def holders_def notices_def)

lemma own_send_other [simp]:
  "own_send (st\<lparr>ag_last_error := e\<rparr>) = own_send st"
  "own_send (st\<lparr>ag_invalid := n\<rparr>) = own_send st"
  "own_send (st\<lparr>ag_awaiting := b\<rparr>) = own_send st"
  "own_send (st\<lparr>ag_pc := pc\<rparr>) = own_send st"
  "own_send (st\<lparr>ag_world := w\<rparr>) = own_send st"
  by (simp_all add: own_send_def)

lemma sound_seated: "sound k st \<Longrightarrow> seated k (ag_world st)"
  by (simp add: sound_def)

lemma sound_error [simp]: "sound k st \<Longrightarrow> sound k (agent_error io now k payload st)"
  by (simp add: agent_error_def seated_agent_event sound_seated)

lemma leaves_inv [simp]: "sound k st \<Longrightarrow> agent_inv k (agent_leaves k st)"
  unfolding sound_def agent_inv_def agent_leaves_def
  by (auto simp: notices_def intro: seated_same [OF places_shutdown] append_prefixD)

lemma crashes_inv [simp]: "sound k st \<Longrightarrow> agent_inv k (agent_crashes st)"
  unfolding sound_def agent_inv_def agent_crashes_def by (auto simp: notices_def intro: append_prefixD)

lemma dismissed_inv [simp]: "sound k st \<Longrightarrow> agent_inv k (dismissed io now k ph st)"
  by (simp add: dismissed_def)

lemma inv_at:
  assumes "sound k st" "own_send st \<longleftrightarrow> notifying pc" "pc \<notin> {Gone, Loading, Attaching}"
    "ag_awaiting st \<longrightarrow> pc = Receiving" "ag_invalid st < seat_limit k"
  shows "agent_inv k (st\<lparr>ag_pc := pc\<rparr>)"
  using assms by (auto simp: agent_inv_def attached_def)

lemma unless_exhausted_inv:
  assumes "sound k st" "\<not> own_send st" "\<not> notifying pc" "pc \<notin> {Gone, Loading, Attaching}"
    "ag_awaiting st \<longrightarrow> pc = Receiving"
  shows "agent_inv k (unless_exhausted io now k pc st)"
  using assms by (simp add: unless_exhausted_def inv_at)

lemma decided_inv:
  assumes "sound k st" "\<not> own_send st" "\<not> ag_awaiting st"
  shows "agent_inv k (decided io now k r st)"
  using assms
  by (simp add: decided_def Let_def unless_exhausted_inv inv_at
      split: outcome.split option.split transition_outcome.split app_error.split)

lemma after_action_inv:
  assumes "sound k st" "\<not> own_send st" "\<not> ag_awaiting st" "ag_invalid st < seat_limit k"
  shows "agent_inv k (after_action io now k m out st)"
  using assms by (simp add: after_action_def inv_at decided_inv split: option.split)

lemma submit_keeps_session:
  "submit_action rt io now hp sid pid role a w = (w', Ok out) \<Longrightarrow> session_in w' sid \<noteq> None"
  by (auto simp: submit_action_def touch_session_activity_def shutdown_session_log_def Let_def
      split: outcome.splits option.splits prod.splits if_splits)

lemma submit_notice:
  assumes "submit_action rt io now hp (seat_session k) pid role a w = (w', Ok out)" "seated k w"
  obtains v c where "notify_agents_of_action rt k role a w' = Some (ObservedAction role a v c)"
proof -
  obtain s where "session_in w' (seat_session k) = Some s" using submit_keeps_session [OF assms(1)] by blast
  moreover have "seated k w'" by (rule seated_submit [OF assms])
  ultimately show thesis
    using that by (auto simp: seated_def notify_agents_of_action_def split: option.splits)
qed

lemma sound_offer:
  assumes "sound k st" "ag_pc st \<noteq> Gone" "src \<noteq> PartnerMessageSends \<longrightarrow> \<not> lock_held st"
  shows "sound k (offer src (Some ob) (st\<lparr>ag_accepted := ag_accepted st @ actions_in [ob]\<rparr>))"
proof (cases "ag_registered st")
  case True
  let ?st = "st\<lparr>ag_accepted := ag_accepted st @ actions_in [ob], ag_senders := ag_senders st @ [(src, ob)]\<rparr>"
  have "actions_in (notices ?st) = actions_in (notices st) @ actions_in [ob]"
    by (simp add: notices_def)
  then have "actions_in (notices ?st) = ag_accepted ?st"
    using assms(1) True by (simp add: sound_def)
  moreover have "holders ?st \<le> 1"
    using assms(1,3) by (auto simp: sound_def holders_def lock_held_holders)
  ultimately have "sound k ?st" using assms(1) True by (simp add: sound_def)
  then show ?thesis using assms(2) True by (simp add: offer_def)
next
  case False
  then show ?thesis using assms by (auto simp: offer_def sound_def notices_def holders_def)
qed

lemma sound_offer_quiet:
  assumes "sound k st" "ag_pc st \<noteq> Gone" "src \<noteq> PartnerMessageSends \<longrightarrow> \<not> lock_held st" "actions_in [ob] = []"
  shows "sound k (offer src (Some ob) st)"
  using sound_offer [OF assms(1-3), of ob] by (simp add: assms(4))

lemma offer_sel [simp]:
  "ag_pc (offer src n st) = ag_pc st" "ag_invalid (offer src n st) = ag_invalid st"
  "ag_awaiting (offer src n st) = ag_awaiting st" "ag_world (offer src n st) = ag_world st"
  "ag_registered (offer src n st) = ag_registered st" "ag_accepted (offer src n st) = ag_accepted st"
  "ag_inbox (offer src n st) = ag_inbox st" "ag_seen (offer src n st) = ag_seen st"
  "attached (offer src n st) = attached st"
  by (auto simp: offer_def attached_def split: option.split)

lemma offer_gone: "ag_pc st = Gone \<Longrightarrow> offer src n st = st"
  by (simp add: offer_def split: option.split)

lemma offer_untouched: "\<not> ag_registered st \<Longrightarrow> offer src n st = st"
  by (simp add: offer_def split: option.split)

lemma own_send_offer: "src \<noteq> OwnActionSends \<Longrightarrow> own_send (offer src n st) = own_send st"
  by (auto simp: offer_def own_send_def split: option.split)

lemma inv_gone:
  "ag_pc st = Gone \<Longrightarrow> agent_inv k st \<Longrightarrow> seated k w \<Longrightarrow> agent_inv k (st\<lparr>ag_world := w\<rparr>)"
  "ag_pc st = Gone \<Longrightarrow> agent_inv k st \<Longrightarrow> seated k w \<Longrightarrow> agent_inv k (st\<lparr>ag_world := w, ag_accepted := ag_accepted st @ xs\<rparr>)"
  by (auto simp: agent_inv_def)

lemma inv_seated: "agent_inv k st \<Longrightarrow> seated k (ag_world st)"
  by (auto simp: agent_inv_def sound_def split: if_splits)

lemma inv_present:
  assumes "agent_inv k st" "ag_pc st \<noteq> Gone"
  shows "sound k st" "ag_invalid st < seat_limit k" "own_send st \<longleftrightarrow> notifying (ag_pc st)"
    "ag_awaiting st \<longrightarrow> ag_pc st = Receiving" "\<not> attached st \<longrightarrow> untouched st"
  using assms by (auto simp: agent_inv_def)

lemma inv_world:
  assumes "agent_inv k st" "seated k w"
  shows "agent_inv k (st\<lparr>ag_world := w\<rparr>)"
proof (cases "ag_pc st = Gone")
  case False
  note st = inv_present [OF assms(1) False]
  have "untouched (st\<lparr>ag_world := w\<rparr>) = untouched st" "attached (st\<lparr>ag_world := w\<rparr>) = attached st"
    by (simp_all add: untouched_def notices_def attached_def)
  then show ?thesis using st False assms(2) by (auto simp: agent_inv_def)
qed (use assms in \<open>simp add: inv_gone\<close>)

subsection \<open>The steps of the task\<close>

lemma seated_expire:
  "seated k w \<Longrightarrow> seated k (fst (expire_live_session rt io now sid reason w))"
  by (rule seated_same [OF places_expire])

lemma loads_inv:
  assumes "agent_inv k st" "ag_pc st = Loading"
  shows "agent_inv k (agent_loads rt io now k e st)"
proof -
  have st: "sound k st" "ag_invalid st < seat_limit k" "\<not> own_send st" "\<not> ag_awaiting st" "untouched st"
    using inv_present [OF assms(1)] assms(2) by (auto simp: attached_def)
  have "agent_inv k (st\<lparr>ag_pc := Attaching\<rparr>)"
    using st by (auto simp: agent_inv_def untouched_def notices_def)
  then show ?thesis
    using st by (auto simp: agent_loads_def Let_def agent_error_def
        intro!: leaves_inv sound_world seated_expire seated_agent_event sound_seated split: option.split)
qed

lemma sound_registered: "sound k st \<Longrightarrow> untouched st \<Longrightarrow> sound k (st\<lparr>ag_registered := True\<rparr>)"
  by (simp add: sound_def untouched_def notices_def holders_def)

lemma attaches_inv:
  assumes "agent_inv k st" "ag_pc st = Attaching"
  shows "agent_inv k (agent_attaches io now k st)"
proof -
  have st: "sound k st" "ag_invalid st < seat_limit k" "\<not> own_send st" "\<not> ag_awaiting st" "untouched st"
    using inv_present [OF assms(1)] assms(2) by (auto simp: attached_def)
  have "same_places (seat_session k) (ag_world st) (in_memory (modify_session (seat_session k)
      (modify_participant (seat_agent k) (\<lambda>p. p\<lparr>sp_ready := True, sp_updated_at := now\<rparr>))) (ag_world st))"
    by (rule places_modify) (simp add: roster_modify_participant)
  then have "seated k (in_memory (modify_session (seat_session k)
      (modify_participant (seat_agent k) (\<lambda>p. p\<lparr>sp_ready := True, sp_updated_at := now\<rparr>))) (ag_world st))"
    using seated_same sound_seated [OF st(1)] by blast
  then have "agent_inv k (st\<lparr>ag_world := agent_event io now k ty' payload' (agent_event io now k ty payload
      (in_memory (modify_session (seat_session k) (modify_participant (seat_agent k)
         (\<lambda>p. p\<lparr>sp_ready := True, sp_updated_at := now\<rparr>))) (ag_world st))),
      ag_registered := True, ag_pc := AwaitingActivation\<rparr>)" for ty payload ty' payload'
    using st by (intro inv_at sound_registered) (simp_all add: seated_agent_event own_send_def untouched_def notices_def)
  then show ?thesis using st by (simp add: agent_attaches_def Let_def split: option.split)
qed

lemma asked_inv:
  assumes "agent_inv k st" "ag_pc st = Deciding"
  shows "agent_inv k (agent_asked io now k st)"
  using inv_present [OF assms(1)] assms(2) by (auto simp: agent_asked_def intro!: decided_inv inv_at)

lemma answers_inv:
  assumes "agent_inv k st" "ag_pc st = Responding"
  shows "agent_inv k (agent_answers rt io now k ans st)"
proof -
  have st: "sound k st" "ag_invalid st < seat_limit k" "\<not> own_send st" "\<not> ag_awaiting st"
    using inv_present [OF assms(1)] assms(2) by auto
  have "agent_inv k (st\<lparr>ag_world := agent_event io now k ty payload (ag_world st), ag_pc := Submitting a m\<rparr>)" for ty payload a m
    using st by (intro inv_at) (simp_all add: seated_agent_event sound_seated)
  then show ?thesis
    using st by (simp add: agent_answers_def decided_inv inv_at split: agent_answer.split option.split prod.split)
qed

lemma submits_inv:
  assumes "agent_inv k st" "ag_pc st = Submitting a m" "\<not> lock_held st"
  shows "agent_inv k (agent_submits rt io now k a m st)"
proof -
  have st: "sound k st" "ag_invalid st < seat_limit k" "\<not> own_send st" "\<not> ag_awaiting st"
    using inv_present [OF assms(1)] assms(2) by auto
  obtain w r where sub: "submit_action rt io now False (seat_session k) (seat_agent k) (seat_role k) a (ag_world st) = (w, r)"
    by (cases "submit_action rt io now False (seat_session k) (seat_agent k) (seat_role k) a (ag_world st)")
  have w: "seated k w" by (rule seated_submit [OF sub sound_seated [OF st(1)]])
  show ?thesis
  proof (cases r)
    case (Ok out)
    obtain v c where n: "notify_agents_of_action rt k (seat_role k) a w = Some (ObservedAction (seat_role k) a v c)"
      using submit_notice [OF sub [unfolded Ok] sound_seated [OF st(1)]] by blast
    let ?st = "st\<lparr>ag_world := w\<rparr>"
    let ?st1 = "?st\<lparr>ag_accepted := ag_accepted ?st @ [(seat_role k, a)]\<rparr>"
    have lock: "\<not> lock_held ?st" using assms(3) by (simp add: lock_held_def)
    have off: "sound k (offer OwnActionSends (Some (ObservedAction (seat_role k) a v c)) ?st1)"
      using sound_offer [of k ?st OwnActionSends "ObservedAction (seat_role k) a v c"] st(1) w lock assms(2)
      by simp
    show ?thesis
    proof (cases "ag_registered st")
      case True
      have "own_send (offer OwnActionSends (Some (ObservedAction (seat_role k) a v c)) ?st1)"
        using True assms(2) by (simp add: offer_def own_send_def)
      then have "agent_inv k ((offer OwnActionSends (Some (ObservedAction (seat_role k) a v c)) ?st1)\<lparr>ag_pc := Notifying m out\<rparr>)"
        using off st by (intro inv_at) simp_all
      then show ?thesis using True by (simp add: agent_submits_def sub Ok n Let_def)
    next
      case False
      then have "sound k ?st1" using off by (simp add: offer_untouched)
      moreover have "\<not> own_send ?st1" using st(3) by (simp add: own_send_def)
      ultimately have "agent_inv k (after_action io now k m out ?st1)"
        using st by (intro after_action_inv) simp_all
      then show ?thesis using False by (simp add: agent_submits_def sub Ok Let_def)
    qed
  qed (use st w in \<open>simp_all add: agent_submits_def sub decided_inv\<close>)
qed

lemma speaks_inv:
  assumes "agent_inv k st" "ag_pc st = Speaking t out"
  shows "agent_inv k (agent_speaks rt io now k payload t out st)"
proof -
  have st: "sound k st" "ag_invalid st < seat_limit k" "\<not> own_send st" "\<not> ag_awaiting st"
    using inv_present [OF assms(1)] assms(2) by auto
  have "seated k (fst (commit_conversation_message c io now sid pid payload n m (ag_world st)))" for c sid pid n m
    by (rule seated_same [OF places_message sound_seated [OF st(1)]])
  then show ?thesis using st unfolding agent_speaks_def Let_def by (intro decided_inv) simp_all
qed

lemma observed_inv:
  assumes "sound k st" "\<not> own_send st"
  shows "agent_inv k (observed io now k e1 e2 ob st)"
proof -
  define st1 where "st1 = (case e1 of None \<Rightarrow> st | Some t \<Rightarrow> st\<lparr>ag_last_error := Some t, ag_invalid := ag_invalid st + 1\<rparr>)"
  have st1: "sound k st1" "\<not> own_send st1" "ag_awaiting st1 = ag_awaiting st"
    using assms by (simp_all add: st1_def split: option.split)
  have "agent_inv k (unless_exhausted io now k (if ag_awaiting st then Receiving else Deciding) st1)"
    using st1 by (intro unless_exhausted_inv) auto
  then show ?thesis
    unfolding observed_def Let_def st1_def [symmetric]
    using assms st1 by (auto split: agent_observation.split option.split)
qed

lemma receives_inv:
  assumes "agent_inv k st" "ag_pc st \<in> {AwaitingActivation, Receiving}"
    and "agent_receives io now k e1 e2 st = Some st'"
  shows "agent_inv k st'"
proof -
  have st: "sound k st" "ag_invalid st < seat_limit k" "\<not> own_send st" "ag_awaiting st \<longrightarrow> ag_pc st = Receiving"
    using inv_present [OF assms(1)] assms(2) by auto
  show ?thesis
  proof (cases "ag_inbox st")
    case Nil
    then show ?thesis using assms(3) st by (auto simp: agent_receives_def split: if_splits)
  next
    case (Cons ob rest)
    let ?st = "st\<lparr>ag_inbox := rest, ag_seen := ag_seen st @ [ob]\<rparr>"
    have s: "sound k ?st" "\<not> own_send ?st"
      using st Cons by (simp_all add: sound_def notices_def holders_def own_send_def)
    have barrier: "agent_inv k (?st\<lparr>ag_pc := ActivationBarrier\<rparr>)" if "ag_pc st = AwaitingActivation"
      using s st that by (intro inv_at) simp_all
    note observed_inv [OF s, of io now e1 e2 ob]
    then show ?thesis
      using assms(3) s barrier by (auto simp: agent_receives_def Cons Let_def split: if_splits)
  qed
qed

lemma sends_inv:
  assumes "agent_inv k st" "send_completes io now k st = Some st'"
  shows "agent_inv k st'"
proof -
  obtain src ob rest where senders: "ag_senders st = (src, ob) # rest" and room: "length (ag_inbox st) < inbox_capacity"
    using assms(2) by (auto simp: send_completes_def not_le split: list.splits if_splits)
  then have here: "ag_pc st \<noteq> Gone" using assms(1) by (auto simp: agent_inv_def)
  note st = inv_present [OF assms(1) here]
  let ?st = "st\<lparr>ag_inbox := ag_inbox st @ [ob], ag_senders := rest\<rparr>"
  have s: "sound k ?st"
    using st(1) room by (auto simp: sound_def notices_def holders_def senders split: if_splits)
  have att: "attached st" using st(5) by (auto simp: untouched_def notices_def senders)
  show ?thesis
  proof (cases "src = OwnActionSends")
    case True
    then obtain m out where pc: "ag_pc st = Notifying m out"
      using st(3) by (cases "ag_pc st") (auto simp: own_send_def senders)
    have "\<not> own_send ?st"
      using st(1) True by (auto simp: sound_def holders_def senders own_send_def filter_empty_conv split: if_splits)
    then show ?thesis
      using assms(2) True s st pc room by (auto simp: send_completes_def senders Let_def intro!: after_action_inv)
  next
    case False
    then have "st' = ?st" using assms(2) room by (auto simp: send_completes_def senders Let_def split: sender.splits)
    moreover have "own_send ?st = own_send st" using False by (auto simp: own_send_def senders)
    moreover have "attached ?st" using att by (simp add: attached_def)
    ultimately show ?thesis using s st here by (simp add: agent_inv_def)
  qed
qed

subsection \<open>The steps of the other handlers\<close>

lemma inv_offer:
  assumes "agent_inv k st" "src \<noteq> PartnerMessageSends \<longrightarrow> \<not> lock_held st" "src \<noteq> OwnActionSends"
    and "\<And>ob. n = Some ob \<Longrightarrow> actions_in [ob] = []"
  shows "agent_inv k (offer src n st)"
proof (cases "ag_pc st = Gone \<or> n = None \<or> \<not> attached st")
  case True
  moreover have "\<not> attached st \<Longrightarrow> offer src n st = st"
    using assms(1) by (auto simp: agent_inv_def untouched_def offer_def attached_def split: option.split if_splits)
  moreover have "n = None \<Longrightarrow> offer src n st = st" by (simp add: offer_def)
  ultimately show ?thesis using assms(1) by (auto simp: offer_gone)
next
  case False
  then obtain ob where n: "n = Some ob" by auto
  note st = inv_present [OF assms(1)]
  have "sound k (offer src (Some ob) st)"
    using False assms(2,4) st(1) n by (intro sound_offer_quiet) auto
  then show ?thesis
    using False st assms(3) n by (auto simp: agent_inv_def own_send_offer)
qed

lemma partner_says_inv:
  assumes "agent_inv k st"
  shows "agent_inv k (partner_says rt io now k pid t payload bytes st)"
proof -
  obtain w r where msg: "commit_conversation_message (rt_config rt) io now (seat_session k) pid payload (length t) bytes (ag_world st) = (w, r)"
    by (cases "commit_conversation_message (rt_config rt) io now (seat_session k) pid payload (length t) bytes (ag_world st)")
  have inv: "agent_inv k (st\<lparr>ag_world := w\<rparr>)"
    using assms by (intro inv_world seated_message [OF msg] inv_seated)
  have "actions_in [ob] = []" if "notify_agents_of_message k role t w = Some ob" for role ob
    using that by (auto simp: notify_agents_of_message_def split: option.splits if_splits)
  then show ?thesis
    using inv by (auto simp: partner_says_def msg intro!: inv_offer split: outcome.split)
qed

lemma partner_acts_inv:
  assumes "agent_inv k st" "\<not> lock_held st"
  shows "agent_inv k (partner_acts rt io now k pid role a st)"
proof -
  obtain w r where sub: "submit_action rt io now False (seat_session k) pid role a (ag_world st) = (w, r)"
    by (cases "submit_action rt io now False (seat_session k) pid role a (ag_world st)")
  have w: "seated k w" by (rule seated_submit [OF sub inv_seated [OF assms(1)]])
  show ?thesis
  proof (cases r)
    case (Ok out)
    obtain v c where n: "notify_agents_of_action rt k role a w = Some (ObservedAction role a v c)"
      using submit_notice [OF sub [unfolded Ok] inv_seated [OF assms(1)]] by blast
    show ?thesis
    proof (cases "ag_pc st = Gone \<or> \<not> attached st")
      case True
      moreover have "ag_pc st = Gone \<Longrightarrow> attached st" by (simp add: attached_def)
      moreover have "\<not> attached st \<Longrightarrow> \<not> ag_registered st"
        using assms(1) by (auto simp: agent_inv_def untouched_def attached_def split: if_splits)
      ultimately show ?thesis
        using assms(1) w by (auto simp: partner_acts_def sub Ok offer_gone offer_untouched inv_gone inv_world)
    next
      case False
      then have here: "ag_pc st \<noteq> Gone" and att: "attached st" by auto
      note st = inv_present [OF assms(1) here]
      let ?st = "st\<lparr>ag_world := w\<rparr>"
      have "sound k (offer PartnerActionSends (Some (ObservedAction role a v c))
          (?st\<lparr>ag_accepted := ag_accepted ?st @ actions_in [ObservedAction role a v c]\<rparr>))"
        using here assms(2) st(1) w by (intro sound_offer) (simp_all add: lock_held_def)
      moreover have "attached (?st\<lparr>ag_accepted := xs\<rparr>)" "own_send (?st\<lparr>ag_accepted := xs\<rparr>) = own_send st" for xs
        using att by (simp_all add: attached_def own_send_def)
      ultimately show ?thesis
        using here att st by (simp add: partner_acts_def sub Ok n agent_inv_def own_send_offer)
    qed
  qed (use assms(1) w in \<open>simp_all add: partner_acts_def sub inv_world\<close>)
qed

lemma inv_starting: "agent_inv k st \<Longrightarrow> \<not> lock_held st \<Longrightarrow> agent_inv k (st\<lparr>ag_starting := b\<rparr>)"
  by (auto simp: agent_inv_def sound_def holders_def lock_held_holders own_send_def attached_def untouched_def notices_def)

lemma inv_closes:
  assumes "agent_inv k st" "ag_senders st = []"
  shows "agent_inv k (st\<lparr>ag_registered := False\<rparr>)"
proof -
  have "sound k (st\<lparr>ag_registered := False\<rparr>)" if "sound k st"
    using that assms(2) by (simp add: sound_def holders_def notices_def)
  moreover have "own_send (st\<lparr>ag_registered := False\<rparr>) = own_send st" "attached (st\<lparr>ag_registered := False\<rparr>) = attached st"
    "untouched st \<longrightarrow> untouched (st\<lparr>ag_registered := False\<rparr>)"
    by (simp_all add: own_send_def attached_def untouched_def notices_def)
  ultimately show ?thesis using assms(1) by (simp add: agent_inv_def split: if_splits)
qed

lemma agent_step_inv:
  assumes "agent_inv k st" "agent_step rt io now k e st = Some st'"
  shows "agent_inv k st'"
proof (cases e)
  case GameStarts
  have "agent_inv k (st\<lparr>ag_world := maybe_start_game (rt_config rt) io now (seat_session k) (ag_world st)\<rparr>)"
    by (rule inv_world [OF assms(1) seated_same [OF places_start inv_seated [OF assms(1)]]])
  then show ?thesis using assms(2)
    by (auto simp: GameStarts Let_def lock_held_def intro!: inv_starting split: if_splits)
next
  case ActivationSent
  have "agent_inv k (st\<lparr>ag_starting := False\<rparr>)" "ag_starting st \<Longrightarrow> \<not> lock_held (st\<lparr>ag_starting := False\<rparr>)"
    using assms(1)
    by (auto simp: agent_inv_def sound_def holders_def lock_held_holders own_send_def attached_def untouched_def notices_def split: if_splits)
  then show ?thesis using assms(2)
    by (auto simp: ActivationSent offer_gone intro!: inv_offer split: if_splits)
next
  case InboxCloses
  then show ?thesis using assms by (auto intro: inv_closes split: if_splits)
next
  case BarrierPasses
  then show ?thesis using assms inv_present [OF assms(1)]
    by (auto intro!: inv_at split: if_splits)
next
  case AgentSubmits
  then show ?thesis using assms by (auto intro: submits_inv split: if_splits agent_pc.splits)
next
  case (AgentSpeaks payload)
  then show ?thesis using assms by (auto intro: speaks_inv split: agent_pc.splits)
next
  case (AgentReceives e1 e2)
  then show ?thesis using assms receives_inv [OF assms(1)] by (simp split: if_splits)
qed (use assms in \<open>auto intro: loads_inv attaches_inv asked_inv answers_inv sends_inv
    partner_says_inv partner_acts_inv inv_world split: if_splits\<close>)

lemma agent_path_inv: "agent_path rt k st0 st \<Longrightarrow> agent_inv k st0 \<Longrightarrow> agent_inv k st"
  by (induction rule: agent_path.induct) (auto intro: agent_step_inv)

lemma agent_lives_inv:
  assumes "agent_lives rt k st" "0 < seat_limit k"
  shows "agent_inv k st"
proof -
  obtain w where w: "seated k w" "agent_path rt k (agent_start w) st" using assms(1) by (auto simp: agent_lives_def)
  have "agent_inv k (agent_start w)"
    using w(1) assms(2) by (simp add: agent_inv_def agent_start_def sound_def holders_def own_send_def notices_def
        untouched_def inbox_capacity_def)
  from agent_path_inv [OF w(2) this] show ?thesis .
qed

end
