(* ===== verification/Agent_Properties.thy ===== *)
theory Agent_Properties
  imports Agent_Loop
begin

text \<open>
  What the task of a software agent promises under every schedule of its own steps and those of
  the other handlers, and three situations in which it does not do what it is meant to do.
\<close>

section \<open>A concrete agent\<close>

text \<open>The cue-choice game with a human as \<open>A\<close> and an agent, which deals, as \<open>B\<close>.\<close>

definition agent_rt ::
    "(cue_choice_config, cue_choice_state, cue_choice_action, cue_choice_observation, cue_choice_completion) runtime" where
  "agent_rt = demo_rt\<lparr>rt_config := demo_config\<lparr>cfg_mode := HumanVsAgent\<rparr>\<rparr>"

definition demo_seat :: agent_seat where
  "demo_seat = \<lparr>seat_session = ''S1'', seat_agent = ''a'', seat_role = RoleB, seat_limit = 3,
     seat_metadata = JNull, seat_text = (\<lambda>e. ''error'')\<rparr>"

definition joined_world :: "cue_choice_state world" where
  "joined_world = it_world (the (run_requests agent_rt 1000
     (join_requests ''p'' ''S1'' @ [AgentJoins ''S1'' ''a'' 2 ''Ra'' JNull True, Connects ''S1'' ''p'']) demo_start))"

definition attach_steps :: "(cue_choice_state, cue_choice_action) task_event list" where
  "attach_steps = [AgentLoads None, AgentAttaches, GameStarts]"

definition begin_steps :: "(cue_choice_state, cue_choice_action) task_event list" where
  "begin_steps = attach_steps @ [ActivationSent, SendCompletes, AgentReceives None None, BarrierPasses, AgentAsked]"

lemma agent_run_path:
  "agent_run rt io now k es st = Some st' \<Longrightarrow> agent_path rt k st0 st \<Longrightarrow> agent_path rt k st0 st'"
proof (induction es arbitrary: now st)
  case (Cons e es)
  then obtain st1 where step: "agent_step rt io now k e st = Some st1" and run: "agent_run rt io (now + 1000) k es st1 = Some st'"
    by (auto split: option.splits)
  show ?case by (rule Cons.IH [OF run path_step [OF Cons.prems(2) step]])
qed simp

lemma agent_run_append:
  "agent_run rt io now k (es @ fs) st =
     (case agent_run rt io now k es st of
        None \<Rightarrow> None | Some st' \<Rightarrow> agent_run rt io (now + 1000 * int (length es)) k fs st')"
  by (induction es arbitrary: now st) (auto split: option.split simp: algebra_simps)

lemma joined_seated: "seated demo_seat joined_world"
  by code_simp

lemma demo_lives:
  "agent_run agent_rt no_faults 20000 demo_seat es (agent_start joined_world) = Some st \<Longrightarrow> agent_lives agent_rt demo_seat st"
  unfolding agent_lives_def using joined_seated agent_run_path [OF _ path_refl] by blast

section \<open>What an agent hears\<close>

text \<open>C25 (invariant). An agent is told of every accepted action exactly once and in the order of
  acceptance, its own actions included, whatever messages come in between: the actions it was shown
  are a prefix of those accepted since it attached, and while it is present the rest waits in its
  inbox, which never holds more than 64 observations, or in a send that waits for space.\<close>

theorem agent_hears_every_action:
  assumes "agent_lives rt k st" "0 < seat_limit k"
  shows "prefix (actions_in (ag_seen st)) (ag_accepted st) \<and> length (ag_inbox st) \<le> 64 \<and>
    (ag_registered st \<and> ag_pc st \<noteq> Gone \<longrightarrow>
       ag_accepted st = actions_in (ag_seen st @ ag_inbox st @ map snd (ag_senders st)))"
proof -
  have inv: "agent_inv k st" by (rule agent_lives_inv [OF assms])
  show ?thesis
  proof (cases "ag_pc st = Gone")
    case True
    then show ?thesis using inv by (simp add: agent_inv_def)
  next
    case False
    then have "sound k st" using inv_present(1) [OF inv] by simp
    then show ?thesis by (auto simp: sound_def notices_def inbox_capacity_def intro: append_prefixD)
  qed
qed

text \<open>A present agent has failed fewer times than its limit allows, rejected actions and
  failed observations counted together; once its own action has completed the game it is not asked
  for a decision again, and at most one handler of its session holds the transition lock.\<close>

theorem agent_within_its_limit:
  assumes "agent_lives rt k st" "0 < seat_limit k" "ag_pc st \<noteq> Gone"
  shows "ag_invalid st < seat_limit k \<and> (ag_awaiting st \<longrightarrow> ag_pc st = Receiving) \<and>
    length (filter (\<lambda>(src, ob). src \<noteq> PartnerMessageSends) (ag_senders st)) \<le> 1"
proof -
  note st = inv_present [OF agent_lives_inv [OF assms(1,2)] assms(3)]
  then show ?thesis by (auto simp: sound_def holders_def split: if_splits)
qed

section \<open>An agent that waits for itself\<close>

text \<open>The inbox is full, a handler that holds the transition lock waits to put one more observation
  into it, and the agent's task, the only one to take observations out, waits for that very send or
  for the lock.\<close>

definition jammed :: "('s, 'a, 'obs, 'c) agent_life \<Rightarrow> bool" where
  "jammed st \<longleftrightarrow> length (ag_inbox st) \<ge> inbox_capacity \<and>
     list_ex (\<lambda>(src, ob). src \<noteq> PartnerMessageSends) (ag_senders st) \<and>
     (case ag_pc st of Notifying m out \<Rightarrow> True | Submitting a m \<Rightarrow> True | ActivationBarrier \<Rightarrow> True | _ \<Rightarrow> False)"

lemma jammed_step:
  assumes "jammed st" "agent_step rt io now k e st = Some st'"
  shows "jammed st' \<and> ag_pc st' = ag_pc st \<and> ag_inbox st' = ag_inbox st \<and> ag_accepted st' = ag_accepted st \<and>
    ag_registered st' = ag_registered st"
proof -
  have lock: "lock_held st" and senders: "ag_senders st \<noteq> []" using assms(1) by (auto simp: jammed_def lock_held_def)
  have offer: "jammed (offer src n st1)" if "jammed st1" for src n and st1 :: "('a, 'b, 'c, 'd) agent_life"
    using that by (auto simp: jammed_def offer_def split: option.split)
  have other: "jammed (st\<lparr>ag_world := w\<rparr>) = jammed st" "jammed (st\<lparr>ag_starting := b\<rparr>) = jammed st" for w b
    by (simp_all add: jammed_def)
  show ?thesis
    using assms lock senders
    by (cases e)
      (auto simp: other partner_says_def send_completes_def jammed_def [of st] intro!: offer
        split: agent_pc.splits if_splits list.splits outcome.splits prod.splits)
qed

lemma jammed_path:
  "agent_path rt k st st' \<Longrightarrow> jammed st \<Longrightarrow>
     jammed st' \<and> ag_pc st' = ag_pc st \<and> ag_inbox st' = ag_inbox st \<and> ag_accepted st' = ag_accepted st \<and>
     ag_registered st' = ag_registered st"
  by (induction rule: agent_path.induct) (auto dest: jammed_step)

text \<open>C11 (safety). An agent whose inbox is full when its own action is accepted waits for space that
  only its own task could make: from then on, whatever any handler does, the agent takes no further
  step, no further action of either player is accepted, and its inbox can neither be emptied nor be
  removed.\<close>

theorem agent_waits_for_itself:
  assumes "ag_pc st = Submitting a m" "length (ag_inbox st) = 64" "ag_registered st" "seated k (ag_world st)"
    and "submit_action rt io now False (seat_session k) (seat_agent k) (seat_role k) a (ag_world st) = (w, Ok out)"
    and "agent_step rt io now k AgentSubmits st = Some st1" "agent_path rt k st1 st2"
  shows "ag_pc st2 = Notifying m out \<and> ag_inbox st2 = ag_inbox st \<and>
    ag_accepted st2 = ag_accepted st @ [(seat_role k, a)] \<and> ag_registered st2 \<and> lock_held st2"
proof -
  obtain v c where n: "notify_agents_of_action rt k (seat_role k) a w = Some (ObservedAction (seat_role k) a v c)"
    using submit_notice [OF assms(5,4)] by blast
  have st1: "st1 = (offer OwnActionSends (Some (ObservedAction (seat_role k) a v c))
      (st\<lparr>ag_world := w, ag_accepted := ag_accepted st @ [(seat_role k, a)]\<rparr>))\<lparr>ag_pc := Notifying m out\<rparr>"
    using assms(1,3,5,6) n by (auto simp: agent_submits_def Let_def split: if_splits)
  have "jammed st1" using assms(1-3) by (simp add: st1 jammed_def offer_def inbox_capacity_def)
  from jammed_path [OF assms(7) this] show ?thesis
    using assms(3) by (auto simp: st1 jammed_def lock_held_def)
qed

subsection \<open>How it comes to that\<close>

text \<open>A message of a participant goes through in an active session and changes nothing but the times.\<close>

definition stamped :: "int \<Rightarrow> int \<Rightarrow> 's live_session \<Rightarrow> 's live_session" where
  "stamped now idle s = s\<lparr>ls_updated_at := now, ls_last_activity := Some now, ls_idle_deadline := Some idle\<rparr>"

lemma stamped_sel [simp]:
  "ls_participants (stamped now idle s) = ls_participants s" "ls_session (stamped now idle s) = ls_session s"
  "ls_experiment (stamped now idle s) = ls_experiment s" "ls_id (stamped now idle s) = ls_id s"
  "ls_state (stamped now idle s) = ls_state s" "ls_lifecycle (stamped now idle s) = ls_lifecycle s"
  "ls_pause (stamped now idle s) = ls_pause s" "stamped now' idle' (stamped now idle s) = stamped now' idle' s"
  "session_is_active (stamped now idle s) = session_is_active s"
  "session_ready_for_game c (stamped now idle s) = session_ready_for_game c s"
  "agent_in k (stamped now idle s) = agent_in k s"
  by (simp_all add: stamped_def session_is_active_def session_ready_for_game_def participants_of_def agent_in_def)

lemma event_goes_through:
  assumes "session_in w sid = Some s" "ls_session s > 0"
    and "find_session (w_db w) (ls_experiment s) (ls_session s) \<noteq> None" "\<not> io CallAppend"
  shows "\<exists>row. persist_session_event_required io now sid pid ty payload w = Ok (w\<lparr>w_db := add_event row (w_db w)\<rparr>)"
  using assms
  by (auto simp: persist_session_event_required_def session_event_record_def ok_or_def append_session_event_def
      stored_game_time_ms_def durable_def Let_def)

lemma found_touch: "find_session (touch_session d e i a idle) e' i' = None \<longleftrightarrow> find_session d e' i' = None"
  by (simp add: touch_session_def find_update_sessions)

lemma found_event [simp]: "find_session (add_event row d) e i = find_session d e i"
  by (simp add: add_event_def)

lemma found_persist [simp]:
  "find_session (w_db (persist_session_event io now sid pid ty payload w)) e i = find_session (w_db w) e i"
  by (auto simp: persist_session_event_def persist_session_event_required_def append_session_event_def Let_def
      split: outcome.split)

lemma message_goes_through:
  assumes s: "session_in w sid = Some s" "session_is_active s" "ls_session s > 0" "map_of (ls_participants s) pid = Some p"
    and d: "find_session (w_db w) (ls_experiment s) (ls_session s) \<noteq> None" "\<not> io CallAppend" "\<not> io CallTouch"
    and n: "n \<le> 4000" "m \<le> 8192"
  shows "\<exists>w' idle. commit_conversation_message c io now sid pid payload n m w = (w', Ok (sp_role p)) \<and>
    session_in w' sid = Some (stamped now idle s) \<and> find_session (w_db w') (ls_experiment s) (ls_session s) \<noteq> None"
proof -
  obtain row where e: "persist_session_event_required io now sid (Some pid) ''conversation_message'' payload w =
      Ok (w\<lparr>w_db := add_event row (w_db w)\<rparr>)"
    using event_goes_through [of w sid s io, OF s(1,3) d(1,2)] by blast
  let ?w = "touch_session_activity c io now sid (w\<lparr>w_db := add_event row (w_db w)\<rparr>)"
  have "commit_conversation_message c io now sid pid payload n m w = (?w, Ok (sp_role p))"
    using s n by (simp add: commit_conversation_message_def ok_or_def e)
  moreover have "session_in ?w sid = Some (stamped now (now + 1000 * session_idle_timeout (cfg_session c)) s)"
    using s(1) d(3) by (simp add: touch_session_activity_def Let_def stamped_def)
  moreover have "find_session (w_db ?w) (ls_experiment s) (ls_session s) \<noteq> None"
    using s(1) d(1,3) found_touch by (auto simp: touch_session_activity_def Let_def)
  ultimately show ?thesis by blast
qed

text \<open>An agent is asked for a decision while its session runs; \<open>s\<close> is the session.\<close>

definition asked_in :: "'s live_session \<Rightarrow> agent_seat \<Rightarrow> nat \<Rightarrow> ('s, 'a, 'obs, 'c) agent_life \<Rightarrow> bool" where
  "asked_in s k n st \<longleftrightarrow> ag_pc st = Responding \<and> ag_registered st \<and> ag_senders st = [] \<and> \<not> ag_starting st \<and>
     length (ag_inbox st) = n \<and>
     (\<exists>now idle. session_in (ag_world st) (seat_session k) = Some (stamped now idle s)) \<and>
     find_session (w_db (ag_world st)) (ls_experiment s) (ls_session s) \<noteq> None"

definition chatter :: "string \<Rightarrow> nat \<Rightarrow> ('s, 'a) task_event list" where
  "chatter pid n = concat (replicate n [PartnerSays pid ''hi'' JNull 2, SendCompletes])"

lemma chatter_fills:
  assumes "asked_in s k i st" "session_is_active s" "ls_session s > 0" "map_of (ls_participants s) pid = Some p"
    and "agent_in k s = Some q" "sp_role q \<noteq> sp_role p" "pid \<noteq> seat_agent k" "i + n \<le> inbox_capacity"
    and "\<not> io CallAppend" "\<not> io CallTouch"
  shows "\<exists>st'. agent_run rt io now k (chatter pid n) st = Some st' \<and> asked_in s k (i + n) st'"
  using assms(1,8)
proof (induction n arbitrary: i st now)
  case 0
  then show ?case by (simp add: chatter_def)
next
  case (Suc n)
  obtain t idle where s: "session_in (ag_world st) (seat_session k) = Some (stamped t idle s)"
    using Suc.prems(1) by (auto simp: asked_in_def)
  obtain w idle' where msg: "commit_conversation_message (rt_config rt) io now (seat_session k) pid JNull (length ''hi'') 2 (ag_world st) = (w, Ok (sp_role p))"
    and w: "session_in w (seat_session k) = Some (stamped now idle' s)" "find_session (w_db w) (ls_experiment s) (ls_session s) \<noteq> None"
    using message_goes_through [OF s, of pid p io "length ''hi''" 2 "rt_config rt" now JNull] assms Suc.prems(1)
    by (auto simp: asked_in_def)
  define st1 where "st1 = st\<lparr>ag_world := w, ag_inbox := ag_inbox st @ [ObservedMessage (sp_role p) ''hi''], ag_senders := []\<rparr>"
  have "partner_says rt io now k pid ''hi'' JNull 2 st =
      st\<lparr>ag_world := w, ag_senders := [(PartnerMessageSends, ObservedMessage (sp_role p) ''hi'')]\<rparr>"
    unfolding partner_says_def msg using Suc.prems(1) assms(5,6)
    by (simp add: offer_def asked_in_def notify_agents_of_message_def w)
  then have "agent_run rt io now k (chatter pid (Suc n)) st = agent_run rt io (now + 2000) k (chatter pid n) st1"
    using Suc.prems assms(7)
    by (simp add: chatter_def asked_in_def send_completes_def inbox_capacity_def st1_def algebra_simps)
  moreover have "asked_in s k (Suc i) st1" using Suc.prems(1) w by (auto simp: asked_in_def st1_def)
  ultimately show ?case using Suc.IH [of "Suc i" st1] Suc.prems(2) by simp
qed

text \<open>The demo agent, asked in a session whose other player is \<open>p\<close>.\<close>

lemma asked_in_demo:
  obtains st :: "(cue_choice_state, cue_choice_action, cue_choice_observation, cue_choice_completion) agent_life" and s p q x
  where "agent_run agent_rt no_faults 20000 demo_seat begin_steps (agent_start joined_world) = Some st"
    "asked_in s demo_seat 0 st" "session_is_active s" "ls_session s = 1" "ls_experiment s = ''e''" "ls_id s = ''S1''"
    "map_of (ls_participants s) ''p'' = Some p" "sp_role p = RoleA"
    "agent_in demo_seat s = Some q" "sp_role q = RoleB"
    "decide_action agent_rt s RoleB Deal = Ok x" "g_completion (rt_game agent_rt) x = None"
proof -
  let ?run = "agent_run agent_rt no_faults 20000 demo_seat begin_steps (agent_start joined_world) :: (cue_choice_state, cue_choice_action, cue_choice_observation, cue_choice_completion) agent_life option"
  have "(case ?run of
      None \<Rightarrow> False
    | Some st \<Rightarrow> (case ag_pc st of Responding \<Rightarrow> True | _ \<Rightarrow> False) \<and> ag_registered st \<and> ag_senders st = [] \<and> \<not> ag_starting st \<and>
        length (ag_inbox st) = 0 \<and> find_session (w_db (ag_world st)) ''e'' 1 \<noteq> None \<and>
        (case session_in (ag_world st) ''S1'' of
           None \<Rightarrow> False
         | Some s \<Rightarrow> ls_last_activity s = Some (ls_updated_at s) \<and> ls_idle_deadline s \<noteq> None \<and>
             ls_experiment s = ''e'' \<and> ls_session s = 1 \<and> ls_id s = ''S1'' \<and> session_is_active s \<and>
             (case map_of (ls_participants s) ''p'' of None \<Rightarrow> False | Some p \<Rightarrow> sp_role p = RoleA) \<and>
             (case agent_in demo_seat s of None \<Rightarrow> False | Some q \<Rightarrow> sp_role q = RoleB) \<and>
             (case decide_action agent_rt s RoleB Deal of Ok x \<Rightarrow> g_completion (rt_game agent_rt) x = None | _ \<Rightarrow> False)))"
    by code_simp
  then obtain st s p q x where st: "?run = Some st" "ag_pc st = Responding" "ag_registered st" "ag_senders st = []"
      "\<not> ag_starting st" "length (ag_inbox st) = 0" "find_session (w_db (ag_world st)) ''e'' 1 \<noteq> None"
    and s: "session_in (ag_world st) ''S1'' = Some s" "ls_last_activity s = Some (ls_updated_at s)" "ls_idle_deadline s \<noteq> None"
      "ls_experiment s = ''e''" "ls_session s = 1" "ls_id s = ''S1''" "session_is_active s"
    and more: "map_of (ls_participants s) ''p'' = Some p" "sp_role p = RoleA"
    "agent_in demo_seat s = Some q" "sp_role q = RoleB"
    "decide_action agent_rt s RoleB Deal = Ok x" "g_completion (rt_game agent_rt) x = None"
    by (auto split: option.splits agent_pc.splits outcome.splits)
  have "stamped (ls_updated_at s) (the (ls_idle_deadline s)) s = s"
    using s(2,3) by (cases s) (auto simp: stamped_def)
  then have "\<exists>now idle. session_in (ag_world st) ''S1'' = Some (stamped now idle s)" using s(1) by metis
  then have "asked_in s demo_seat 0 st" using st s(4,5) by (simp add: asked_in_def demo_seat_def)
  from that [OF st(1) this s(7,5,4,6) more] show thesis .
qed

lemma deal_accepted:
  assumes "session_in w ''S1'' = Some (stamped t idle s)" "find_session (w_db w) ''e'' 1 \<noteq> None"
    and "ls_session s = 1" "ls_experiment s = ''e''" "ls_id s = ''S1''"
    and "decide_action agent_rt s RoleB Deal = Ok x" "g_completion (rt_game agent_rt) x = None"
  shows "\<exists>w'. submit_action agent_rt no_faults now False ''S1'' ''a'' RoleB Deal w = (w', Ok Continued)"
proof -
  have "decide_action agent_rt (stamped t idle s) RoleB Deal = Ok x"
    using assms(6) by (auto simp: decide_action_def split: if_splits)
  moreover have "rt_state_json agent_rt x \<noteq> None" "rt_action_json agent_rt Deal \<noteq> None"
    by (simp_all add: agent_rt_def demo_rt_def)
  ultimately show ?thesis
    using assms
    by (auto simp: submit_action_def action_records_def ok_or_def session_event_record_def Let_def
        commit_session_transition_def stored_game_time_ms_def durable_def no_faults_def)
qed

text \<open>After 64 messages the agent decides to deal.\<close>

definition late_steps :: "(cue_choice_state, cue_choice_action) task_event list" where
  "late_steps = begin_steps @ chatter ''p'' 64 @ [AgentAnswers (Response (ActionOnly Deal))]"

lemma late:
  obtains st :: "(cue_choice_state, cue_choice_action, cue_choice_observation, cue_choice_completion) agent_life" and w
  where "agent_run agent_rt no_faults 20000 demo_seat late_steps (agent_start joined_world) = Some st"
    "ag_pc st = Submitting Deal None" "length (ag_inbox st) = 64" "ag_registered st" "\<not> lock_held st"
    "submit_action agent_rt no_faults 157000 False ''S1'' ''a'' RoleB Deal (ag_world st) = (w, Ok Continued)"
proof -
  obtain st0 :: "(cue_choice_state, cue_choice_action, cue_choice_observation, cue_choice_completion) agent_life" and s p q x
    where run0: "agent_run agent_rt no_faults 20000 demo_seat begin_steps (agent_start joined_world) = Some st0"
    and asked0: "asked_in s demo_seat 0 st0" "session_is_active s"
    and s: "ls_session s = 1" "ls_experiment s = ''e''" "ls_id s = ''S1''"
    and seats: "map_of (ls_participants s) ''p'' = Some p" "sp_role p = RoleA" "agent_in demo_seat s = Some q" "sp_role q = RoleB"
    and deal: "decide_action agent_rt s RoleB Deal = Ok x" "g_completion (rt_game agent_rt) x = None"
    by (rule asked_in_demo)
  have sides: "0 < ls_session s" "sp_role q \<noteq> sp_role p" "''p'' \<noteq> seat_agent demo_seat" "0 + 64 \<le> inbox_capacity"
      "\<not> no_faults CallAppend" "\<not> no_faults CallTouch"
    using s seats by (simp_all add: demo_seat_def no_faults_def inbox_capacity_def)
  obtain st1 where run1: "agent_run agent_rt no_faults (20000 + 1000 * int (length begin_steps)) demo_seat (chatter ''p'' 64) st0 = Some st1"
    and asked1: "asked_in s demo_seat 64 st1"
    using chatter_fills [OF asked0 sides(1) seats(1,3) sides(2-6)] by fastforce
  define st where "st = st1\<lparr>ag_world := agent_event no_faults
      (20000 + 1000 * int (length begin_steps) + 1000 * int (length (chatter ''p'' 64 :: (cue_choice_state, cue_choice_action) task_event list)))
      demo_seat ''agent_action'' (JObj [(''action'', JNull)]) (ag_world st1), ag_pc := Submitting Deal None\<rparr>"
  have run: "agent_run agent_rt no_faults 20000 demo_seat late_steps (agent_start joined_world) = Some st"
    using run0 run1 asked1
    by (simp add: late_steps_def agent_run_append asked_in_def agent_answers_def st_def agent_rt_def demo_rt_def del: of_nat_mult)
  obtain t idle where s1: "session_in (ag_world st1) ''S1'' = Some (stamped t idle s)"
    using asked1 by (auto simp: asked_in_def demo_seat_def)
  then have here: "session_in (ag_world st) ''S1'' = Some (stamped t idle s)"
    by (simp add: st_def agent_event_def)
  have "find_session (w_db (ag_world st1)) ''e'' 1 \<noteq> None" using asked1 s by (simp add: asked_in_def)
  then have "find_session (w_db (ag_world st)) ''e'' 1 \<noteq> None"
    by (simp add: st_def agent_event_def)
  then obtain w where "submit_action agent_rt no_faults 157000 False ''S1'' ''a'' RoleB Deal (ag_world st) = (w, Ok Continued)"
    using deal_accepted [OF here _ s deal] by blast
  moreover have "ag_pc st = Submitting Deal None" "length (ag_inbox st) = 64" "ag_registered st" "\<not> lock_held st"
    using asked1 by (simp_all add: st_def asked_in_def lock_held_def)
  ultimately show thesis using that run by blast
qed

lemma chatter_length: "length (chatter pid n) = 2 * n"
  by (induction n) (simp_all add: chatter_def)

lemma late_length: "length late_steps = 137"
  by (simp add: late_steps_def begin_steps_def attach_steps_def chatter_length)

theorem agent_waits_for_itself_witness:
  "\<exists>st1 :: (cue_choice_state, cue_choice_action, cue_choice_observation, cue_choice_completion) agent_life.
     agent_run agent_rt no_faults 20000 demo_seat (late_steps @ [AgentSubmits]) (agent_start joined_world) = Some st1 \<and>
     agent_lives agent_rt demo_seat st1 \<and> ag_pc st1 = Notifying None Continued \<and> length (ag_inbox st1) = 64 \<and> lock_held st1"
proof -
  obtain st :: "(cue_choice_state, cue_choice_action, cue_choice_observation, cue_choice_completion) agent_life" and w
    where run: "agent_run agent_rt no_faults 20000 demo_seat late_steps (agent_start joined_world) = Some st"
    and st: "ag_pc st = Submitting Deal None" "length (ag_inbox st) = 64" "ag_registered st" "\<not> lock_held st"
    and sub: "submit_action agent_rt no_faults 157000 False ''S1'' ''a'' RoleB Deal (ag_world st) = (w, Ok Continued)"
    by (rule late)
  have lives: "agent_lives agent_rt demo_seat st" by (rule demo_lives [OF run])
  then have "agent_inv demo_seat st" by (rule agent_lives_inv) (simp add: demo_seat_def)
  then have seat: "seated demo_seat (ag_world st)" by (rule inv_seated)
  obtain st1 where step: "agent_step agent_rt no_faults 157000 demo_seat AgentSubmits st = Some st1"
    using st(1,4) by simp
  have sub': "submit_action agent_rt no_faults 157000 False (seat_session demo_seat) (seat_agent demo_seat) (seat_role demo_seat) Deal
      (ag_world st) = (w, Ok Continued)"
    using sub by (simp add: demo_seat_def)
  have run1: "agent_run agent_rt no_faults 20000 demo_seat (late_steps @ [AgentSubmits]) (agent_start joined_world) = Some st1"
    using run step by (simp only: agent_run_append late_length) (simp del: agent_step.simps)
  show ?thesis
    using agent_waits_for_itself [OF st(1-3) seat sub' step path_refl] demo_lives [OF run1] run1 st(2) by auto
qed

theorem agent_hears_every_action_witness:
  "\<exists>st :: (cue_choice_state, cue_choice_action, cue_choice_observation, cue_choice_completion) agent_life.
     agent_lives agent_rt demo_seat st \<and> length (ag_inbox st) = 64 \<and> prefix (actions_in (ag_seen st)) (ag_accepted st)"
proof -
  obtain st :: "(cue_choice_state, cue_choice_action, cue_choice_observation, cue_choice_completion) agent_life" and w
    where run: "agent_run agent_rt no_faults 20000 demo_seat late_steps (agent_start joined_world) = Some st"
    and st: "length (ag_inbox st) = 64"
    by (rule late)
  show ?thesis using agent_hears_every_action [OF demo_lives [OF run]] demo_lives [OF run] st by (auto simp: demo_seat_def)
qed

theorem agent_within_its_limit_witness:
  "\<exists>st :: (cue_choice_state, cue_choice_action, cue_choice_observation, cue_choice_completion) agent_life.
     agent_lives agent_rt demo_seat st \<and> ag_pc st = Submitting Deal None \<and> ag_invalid st < 3"
proof -
  obtain st :: "(cue_choice_state, cue_choice_action, cue_choice_observation, cue_choice_completion) agent_life" and w
    where run: "agent_run agent_rt no_faults 20000 demo_seat late_steps (agent_start joined_world) = Some st"
    and st: "ag_pc st = Submitting Deal None"
    by (rule late)
  show ?thesis using agent_within_its_limit [OF demo_lives [OF run]] demo_lives [OF run] st by (auto simp: demo_seat_def)
qed

section \<open>An agent that is dismissed without fault\<close>

lemma gone_path: "agent_path rt k st st' \<Longrightarrow> ag_pc st = Gone \<Longrightarrow> ag_pc st' = Gone"
proof (induction rule: agent_path.induct)
  case (path_step st io now e st')
  then have "ag_pc st = Gone" by simp
  then show ?case using path_step(2)
    by (cases e) (auto simp: Let_def partner_acts_def partner_says_def send_completes_def
        split: if_splits list.splits sender.splits outcome.splits prod.splits)
qed

lemma kept_session:
  "session_in (shutdown_session_log sid w) sid = map_option (\<lambda>s. s\<lparr>ls_log_open := False\<rparr>) (session_in w sid)"
  "session_in (agent_event io now k ty payload w) sid = session_in w sid"
  by (simp_all add: shutdown_session_log_def agent_event_def split: option.split)

text \<open>C26 (safety). An action that the agent proposes while the human's connection is interrupted is
  refused as \<open>participant_not_active\<close>, which is not a rejection by the game: the task ends for good
  and the inbox is removed, while the session keeps running and waits for the human to reconnect.\<close>

theorem agent_dismissed_while_partner_reconnects:
  assumes "ag_pc st = Submitting a m" "session_in (ag_world st) (seat_session k) = Some s"
    and "ls_lifecycle s = Running" "ls_pause s = Some (PartnerReconnecting deadline)"
    and "agent_step rt io now k AgentSubmits st = Some st1" "agent_path rt k st1 st2"
  shows "ag_pc st2 = Gone \<and> \<not> ag_registered st1 \<and>
    session_in (ag_world st1) (seat_session k) = Some (s\<lparr>ls_log_open := False\<rparr>)"
proof -
  have sub: "submit_action rt io now False (seat_session k) (seat_agent k) (seat_role k) a (ag_world st) =
      (ag_world st, Err (SubmissionRejection ''participant_not_active''))"
    using assms(2-4) by (simp add: submit_action_def decide_action_def ok_or_def)
  have "st1 = agent_submits rt io now k a m st" using assms(1,5) by (simp split: if_splits)
  then have st1: "ag_pc st1 = Gone" "\<not> ag_registered st1"
    "ag_world st1 = shutdown_session_log (seat_session k) (agent_event io now k ''agent_error''
       (error_payload (Some (seat_text k (SubmissionRejection ''participant_not_active''))) (Some ''runtime'')) (ag_world st))"
    by (simp_all add: agent_submits_def sub decided_def Let_def dismissed_def agent_leaves_def agent_error_def)
  then show ?thesis using gone_path [OF assms(6)] assms(2) by (simp add: kept_session)
qed

lemma message_notice:
  "seated k w \<Longrightarrow> session_in w (seat_session k) = Some s \<Longrightarrow> role \<noteq> seat_role k \<Longrightarrow>
     notify_agents_of_message k role t w = Some (ObservedMessage role t)"
  by (auto simp: seated_def notify_agents_of_message_def split: option.splits)

text \<open>The activation of a session does not exclude public input: a message of the
  partner that is accepted after the session runs and before the activation is sent reaches the
  inbox first, and the agent, which expects the activation, leaves at once, without an error event.
  The session keeps running.\<close>

theorem message_before_activation_dismisses_agent:
  assumes "ag_pc st = AwaitingActivation" "ag_registered st" "ag_starting st" "ag_inbox st = []" "ag_senders st = []"
    and "seated k (ag_world st)" "pid \<noteq> seat_agent k"
    and "commit_conversation_message (rt_config rt) io now (seat_session k) pid payload (length t) bytes (ag_world st) = (w, Ok role)"
    and "role \<noteq> seat_role k"
  shows "\<exists>st'. agent_run rt io now k [PartnerSays pid t payload bytes, SendCompletes, AgentReceives None None] st = Some st' \<and>
    ag_pc st' = Gone \<and> ag_starting st' \<and> ag_world st' = shutdown_session_log (seat_session k) w \<and>
    (\<exists>s. session_in (ag_world st') (seat_session k) = Some s \<and> session_is_active s)"
proof -
  obtain s where s: "session_in w (seat_session k) = Some s" "session_is_active s"
    using assms(8)
    by (auto simp: commit_conversation_message_def ok_or_def touch_session_activity_def Let_def session_is_active_def
        persist_session_event_required_def split: outcome.splits option.splits if_splits)
  have "seated k w" by (rule seated_message [OF assms(8,6)])
  then show ?thesis
    using assms s
    by (auto simp: partner_says_def message_notice offer_def send_completes_def inbox_capacity_def agent_receives_def Let_def
        agent_leaves_def kept_session session_is_active_def)
qed

text \<open>The demo agent proposes to deal after the human's connection is lost.\<close>

definition paused_steps :: "(cue_choice_state, cue_choice_action) task_event list" where
  "paused_steps = begin_steps @ [AgentAnswers (Response (ActionOnly Deal))]"

theorem agent_dismissed_while_partner_reconnects_witness:
  "\<exists>(st :: (cue_choice_state, cue_choice_action, cue_choice_observation, cue_choice_completion) agent_life) w st1 s.
     agent_run agent_rt no_faults 20000 demo_seat paused_steps (agent_start joined_world) = Some st \<and>
     w = disconnect_participant agent_rt no_faults 30000 ''S1'' ''p'' (ag_world st) \<and>
     agent_run agent_rt no_faults 31000 demo_seat [Elsewhere w, AgentSubmits] st = Some st1 \<and>
     ag_pc st1 = Gone \<and> session_in (ag_world st1) ''S1'' = Some s \<and> ls_lifecycle s = Running"
proof -
  let ?run = "agent_run agent_rt no_faults 20000 demo_seat paused_steps (agent_start joined_world)
    :: (cue_choice_state, cue_choice_action, cue_choice_observation, cue_choice_completion) agent_life option"
  have "(case ?run of
      None \<Rightarrow> False
    | Some st \<Rightarrow> (case ag_pc st of Submitting Deal None \<Rightarrow> True | _ \<Rightarrow> False) \<and> \<not> lock_held st \<and>
       (let w = disconnect_participant agent_rt no_faults 30000 ''S1'' ''p'' (ag_world st) in seated demo_seat w \<and>
        (case session_in w ''S1'' of None \<Rightarrow> False | Some s \<Rightarrow> ls_lifecycle s = Running \<and> ls_pause s = Some (PartnerReconnecting 60000))))"
    by code_simp
  then obtain st s where st: "?run = Some st" "ag_pc st = Submitting Deal None" "\<not> lock_held st"
    and w: "seated demo_seat (disconnect_participant agent_rt no_faults 30000 ''S1'' ''p'' (ag_world st))"
    and s: "session_in (disconnect_participant agent_rt no_faults 30000 ''S1'' ''p'' (ag_world st)) ''S1'' = Some s"
      "ls_lifecycle s = Running" "ls_pause s = Some (PartnerReconnecting 60000)"
    by (auto simp: Let_def split: option.splits agent_pc.splits cue_choice_action.splits)
  define st0 where "st0 = st\<lparr>ag_world := disconnect_participant agent_rt no_faults 30000 ''S1'' ''p'' (ag_world st)\<rparr>"
  have st0: "ag_pc st0 = Submitting Deal None" "session_in (ag_world st0) (seat_session demo_seat) = Some s" "\<not> lock_held st0"
    using st s(1) by (simp_all add: st0_def demo_seat_def lock_held_def)
  obtain st1 where step: "agent_step agent_rt no_faults 32000 demo_seat AgentSubmits st0 = Some st1"
    using st0 by simp
  have "agent_run agent_rt no_faults 31000 demo_seat
      [Elsewhere (disconnect_participant agent_rt no_faults 30000 ''S1'' ''p'' (ag_world st)), AgentSubmits] st = Some st1"
    using step w by (simp add: st0_def)
  then show ?thesis
    using agent_dismissed_while_partner_reconnects [OF st0(1,2) s(2,3) step path_refl] st(1) s(2)
    by (auto simp: demo_seat_def)
qed

theorem message_before_activation_dismisses_agent_witness:
  "\<exists>(st :: (cue_choice_state, cue_choice_action, cue_choice_observation, cue_choice_completion) agent_life) st'.
     agent_run agent_rt no_faults 20000 demo_seat attach_steps (agent_start joined_world) = Some st \<and>
     agent_run agent_rt no_faults 23000 demo_seat [PartnerSays ''p'' ''hi'' JNull 2, SendCompletes, AgentReceives None None] st = Some st' \<and>
     ag_pc st' = Gone \<and> ag_starting st'"
proof -
  let ?run = "agent_run agent_rt no_faults 20000 demo_seat attach_steps (agent_start joined_world)
    :: (cue_choice_state, cue_choice_action, cue_choice_observation, cue_choice_completion) agent_life option"
  have "(case ?run of
      None \<Rightarrow> False
    | Some st \<Rightarrow> (case ag_pc st of AwaitingActivation \<Rightarrow> True | _ \<Rightarrow> False) \<and> ag_registered st \<and> ag_starting st \<and>
        ag_inbox st = [] \<and> ag_senders st = [] \<and> seated demo_seat (ag_world st) \<and>
        (case snd (commit_conversation_message (rt_config agent_rt) no_faults 23000 (seat_session demo_seat) ''p'' JNull (length ''hi'') 2 (ag_world st)) of
           Ok r \<Rightarrow> r = RoleA | _ \<Rightarrow> False))"
    by code_simp
  then obtain st w where st: "?run = Some st" "ag_pc st = AwaitingActivation" "ag_registered st" "ag_starting st"
      "ag_inbox st = []" "ag_senders st = []" "seated demo_seat (ag_world st)"
    and msg: "commit_conversation_message (rt_config agent_rt) no_faults 23000 (seat_session demo_seat) ''p'' JNull (length ''hi'') 2 (ag_world st) = (w, Ok RoleA)"
    by (auto split: option.splits agent_pc.splits outcome.splits) (metis prod.collapse)
  have "''p'' \<noteq> seat_agent demo_seat" "RoleA \<noteq> seat_role demo_seat" by (simp_all add: demo_seat_def)
  from message_before_activation_dismisses_agent [OF st(2-7) this(1) msg this(2)] st(1) show ?thesis by blast
qed

end
