(* ===== verification/Headless_Session.thy ===== *)
theory Headless_Session
  imports Agents Game_Interface
begin

text \<open>
  One session of a headless experiment, \<open>SessionRunner\<close> and \<open>drive_session\<close> of
  \<open>rust-server/src/agent_experiment.rs\<close>: two software agents play a game under an activation
  schedule and hard limits, and a compact result is kept.

  The agents are arguments: a record of their callbacks on a state of their own, each of which
  returns, raises an error, exceeds its timeout or panics. Nothing in the runner catches a panic, so one
  unwinds the session. The clock is an argument that tells before which
  decision the deadline has passed. Encoders that come from the serialisation framework are
  arguments that may fail. Durations and the elapsed time of a result are left out.
\<close>

section \<open>Agents\<close>

datatype 'x callback = Returned 'x | Raised string | TimedOut | Panicked

record ('m, 'a, 'obs, 'c) agent_callbacks =
  ac_start :: "'m \<Rightarrow> 'obs \<Rightarrow> 'm \<times> unit callback"
  ac_transition :: "'m \<Rightarrow> player_role \<Rightarrow> 'a \<Rightarrow> 'obs \<Rightarrow> 'm \<times> unit callback"
  ac_message :: "'m \<Rightarrow> player_role \<Rightarrow> string \<Rightarrow> 'm \<times> unit callback"
  ac_finish :: "'m \<Rightarrow> 'c \<Rightarrow> 'm \<times> unit callback"
  ac_respond :: "'m \<Rightarrow> 'a list option \<Rightarrow> 'm \<times> 'a agent_response option callback"
  ac_shutdown :: "'m \<Rightarrow> unit callback"

fun other_role :: "player_role \<Rightarrow> player_role" where
  "other_role RoleA = RoleB"
| "other_role RoleB = RoleA"

section \<open>Plans\<close>

record resolved_seat =
  rs_name :: string
  rs_factory :: string
  rs_settings :: json
  rs_settings_fingerprint :: string
  rs_secrets :: secret_maps
  rs_identity :: agent_identity
  rs_checkpoint :: "string option"
  rs_role :: player_role
  rs_seed :: nat

definition identity_document :: "resolved_seat \<Rightarrow> json" where
  "identity_document s = JObj
     [(''checkpoint'', case rs_checkpoint s of None \<Rightarrow> JNull | Some c \<Rightarrow> JStr c),
      (''factory'', JStr (rs_factory s)),
      (''identity'', JObj [(''name'', JStr (ai_name (rs_identity s))), (''version'', JStr (ai_version (rs_identity s)))]),
      (''name'', JStr (rs_name s)),
      (''role'', JStr (role_str (rs_role s))),
      (''seed'', JInt (int (rs_seed s))),
      (''settings_fingerprint'', JStr (rs_settings_fingerprint s))]"

record result_agent =
  ra_key :: string
  ra_factory :: string
  ra_name :: string
  ra_version :: string
  ra_checkpoint :: "string option"
  ra_settings_fingerprint :: string
  ra_role :: player_role
  ra_seed :: nat

definition result_identity :: "resolved_seat \<Rightarrow> result_agent" where
  "result_identity s = \<lparr>ra_key = rs_name s, ra_factory = rs_factory s, ra_name = ai_name (rs_identity s),
     ra_version = ai_version (rs_identity s), ra_checkpoint = rs_checkpoint s,
     ra_settings_fingerprint = rs_settings_fingerprint s, ra_role = rs_role s, ra_seed = rs_seed s\<rparr>"

text \<open>Durations are in seconds.\<close>

record session_limits =
  lim_callback :: nat
  lim_shutdown :: nat
  lim_session :: nat
  lim_decisions :: nat
  lim_accepted :: nat
  lim_messages :: nat
  lim_rejected :: nat

definition default_limits :: session_limits where
  "default_limits = \<lparr>lim_callback = 60, lim_shutdown = 10, lim_session = 900, lim_decisions = 200,
     lim_accepted = 100, lim_messages = 200, lim_rejected = 10\<rparr>"

datatype experiment_error =
    BadLimits | BadSchedule | DuplicatePlan string | InconsistentFile string | CorruptFile string
  | WriteFailed string | SessionFailed | TrainingFailed | TrainFailed string | Invalid string

definition validate_limits :: "session_limits \<Rightarrow> (experiment_error, unit) outcome" where
  "validate_limits l =
     (if lim_callback l = 0 \<or> lim_shutdown l = 0 \<or> lim_session l = 0 \<or> lim_decisions l = 0 \<or>
         lim_accepted l = 0 \<or> lim_messages l = 0 \<or> lim_rejected l = 0 then Err BadLimits
      else if lim_callback l > lim_session l then Err BadLimits
      else Ok ())"

datatype trace_level = TraceResults | TraceDecisions | TraceFull

section \<open>Schedules\<close>

text \<open>An activation schedule: its first role, and the next role or \<open>None\<close> for quiescence.\<close>

record ('k, 'a) schedule =
  sch_first :: player_role
  sch_state :: 'k
  sch_next :: "'k \<Rightarrow> player_role \<Rightarrow> 'a agent_response option \<Rightarrow> action_rejection option \<Rightarrow> 'k \<times> player_role option"

text \<open>Both built-in schedules remember the role that yielded last; \<open>None\<close> when nobody did.\<close>

definition every_response_next ::
    "player_role option \<Rightarrow> player_role \<Rightarrow> 'a agent_response option \<Rightarrow> action_rejection option
      \<Rightarrow> player_role option \<times> player_role option" where
  "every_response_next yielded previous response rej =
     (case response of
        None \<Rightarrow> if yielded = Some (other_role previous) then (yielded, None)
                 else (Some previous, Some (other_role previous))
      | Some r \<Rightarrow> (None, Some (other_role previous)))"

definition after_action_next ::
    "player_role option \<Rightarrow> player_role \<Rightarrow> 'a agent_response option \<Rightarrow> action_rejection option
      \<Rightarrow> player_role option \<times> player_role option" where
  "after_action_next yielded previous response rej =
     (case response of
        None \<Rightarrow> if yielded = Some (other_role previous) then (yielded, None)
                 else (Some previous, Some (other_role previous))
      | Some (MessageOnly t) \<Rightarrow> (None, Some previous)
      | Some r \<Rightarrow> (None, Some (if rej \<noteq> None then previous else other_role previous)))"

definition alternate_every_response :: "player_role \<Rightarrow> (player_role option, 'a) schedule" where
  "alternate_every_response first = \<lparr>sch_first = first, sch_state = None, sch_next = every_response_next\<rparr>"

definition alternate_after_action :: "player_role \<Rightarrow> (player_role option, 'a) schedule" where
  "alternate_after_action first = \<lparr>sch_first = first, sch_state = None, sch_next = after_action_next\<rparr>"

section \<open>Results\<close>

datatype session_status =
    RunCompleted | Quiescent | DecisionLimit | ActionLimit | MessageLimit | RejectionLimit | Deadline | RunFailed

fun is_success :: "session_status \<Rightarrow> bool" where
  "is_success s \<longleftrightarrow> s = RunCompleted \<or> s = Quiescent"

record 'w trajectory_step =
  tj_run :: string
  tj_plan :: string
  tj_decision :: nat
  tj_scenario :: string
  tj_role :: player_role
  tj_agent :: string
  tj_checkpoint :: string
  tj_reward :: string
  tj_reward_version :: string
  tj_observation :: json
  tj_available :: json
  tj_action :: json
  tj_accepted :: bool
  tj_rejection :: "action_rejection option"
  tj_rewards :: "'w option"
  tj_next_observation :: json
  tj_terminal :: bool

text \<open>\<open>tc_rewards\<close> is the reward function with its parameters, \<open>None\<close> when it panics; \<open>'w\<close> are rewards for
  both roles.\<close>

record ('s, 'a, 'c, 'w) training_capture =
  tc_learner :: string
  tc_checkpoint :: string
  tc_reward :: string
  tc_reward_version :: string
  tc_rewards :: "'s \<Rightarrow> 's \<Rightarrow> player_role \<Rightarrow> 'a \<Rightarrow> 'c option \<Rightarrow> 'w option"

record ('cfg, 's, 'a, 'c, 'k, 'w) session_plan =
  hp_run :: string
  hp_plan :: string
  hp_phase :: string
  hp_phase_index :: nat
  hp_scenario :: string
  hp_game_id :: string
  hp_game_version :: string
  hp_config_fingerprint :: string
  hp_config :: 'cfg
  hp_game_seed :: seed
  hp_secrets :: secret_values
  hp_seats :: "player_role \<Rightarrow> resolved_seat"
  hp_schedule_kind :: string
  hp_schedule :: "(string, ('k, 'a) schedule) outcome"
  hp_limits :: session_limits
  hp_trace :: trace_level
  hp_capture :: "('s, 'a, 'c, 'w) training_capture option"

record ('c, 'w) session_result =
  hr_run :: string
  hr_plan :: string
  hr_phase :: string
  hr_phase_index :: nat
  hr_scenario :: string
  hr_game_id :: string
  hr_game_version :: string
  hr_config_fingerprint :: string
  hr_game_seed :: seed
  hr_agents :: "result_agent list"
  hr_schedule :: string
  hr_status :: session_status
  hr_completion :: "'c option"
  hr_failure_phase :: "string option"
  hr_failure_role :: "player_role option"
  hr_diagnostic :: "string option"
  hr_decisions :: nat
  hr_accepted :: nat
  hr_rejected :: nat
  hr_messages :: nat
  hr_trace :: "json list option"
  hr_trajectory :: "'w trajectory_step list"
  hr_cleanup :: "string list"

section \<open>The driver\<close>

text \<open>What the driver is given besides the plan.\<close>

record ('cfg, 's, 'a, 'obs, 'c, 'm, 'w) headless =
  hd_game :: "('cfg, 's, 'a, 'obs, 'c) game"
  hd_game_factory :: "(string, unit) outcome"
  hd_create :: "resolved_seat \<Rightarrow> 'm callback"
  hd_agent :: "('m, 'a, 'obs, 'c) agent_callbacks"
  hd_late :: "nat \<Rightarrow> bool"
  hd_observation_json :: "'obs \<Rightarrow> (string, json) outcome"
  hd_available_json :: "'a list option \<Rightarrow> (string, json) outcome"
  hd_action_json :: "'a \<Rightarrow> (string, json) outcome"

record session_failure =
  sf_phase :: string
  sf_role :: "player_role option"
  sf_error :: string

text \<open>The mutable state of a session: game state, agents, schedule, acting role and result. The last
  field is history: the accepted actions.\<close>

record ('s, 'a, 'c, 'm, 'k, 'w) drive =
  dr_state :: 's
  dr_agents :: "player_role \<Rightarrow> 'm"
  dr_schedule :: 'k
  dr_role :: player_role
  dr_result :: "('c, 'w) session_result"
  dr_played :: "('a \<times> player_role) list"

text \<open>\<open>?\<close>: an error ends the driver, with the state as it is then.\<close>

definition and_then :: "'d \<times> ('e, 'x) outcome \<Rightarrow> ('x \<Rightarrow> 'd \<Rightarrow> 'd \<times> ('e, 'y) outcome) \<Rightarrow> 'd \<times> ('e, 'y) outcome" where
  "and_then m f = (case m of (d, Ok x) \<Rightarrow> f x d | (d, Err e) \<Rightarrow> (d, Err e) | (d, Panic) \<Rightarrow> (d, Panic))"

definition on_result :: "(('c, 'w) session_result \<Rightarrow> ('c, 'w) session_result) \<Rightarrow> ('s, 'a, 'c, 'm, 'k, 'w) drive
    \<Rightarrow> ('s, 'a, 'c, 'm, 'k, 'w) drive" where
  "on_result f d = d\<lparr>dr_result := f (dr_result d)\<rparr>"

definition callback_failure :: "string \<Rightarrow> player_role \<Rightarrow> string \<Rightarrow> session_failure" where
  "callback_failure ph role e = \<lparr>sf_phase = ph, sf_role = Some role, sf_error = e\<rparr>"

definition invoke ::
    "string \<Rightarrow> player_role \<Rightarrow> ('m \<Rightarrow> 'm \<times> 'x callback) \<Rightarrow> ('s, 'a, 'c, 'm, 'k, 'w) drive
      \<Rightarrow> ('s, 'a, 'c, 'm, 'k, 'w) drive \<times> (session_failure, 'x) outcome" where
  "invoke ph role f d =
     (case f (dr_agents d role) of
        (m, r) \<Rightarrow>
          (d\<lparr>dr_agents := (dr_agents d)(role := m)\<rparr>,
           case r of
             Returned x \<Rightarrow> Ok x
           | Raised e \<Rightarrow> Err (callback_failure ph role e)
           | TimedOut \<Rightarrow> Err (callback_failure ph role ''agent callback timed out'')
           | Panicked \<Rightarrow> Panic))"

definition each_role ::
    "string \<Rightarrow> (player_role \<Rightarrow> 'm \<Rightarrow> 'm \<times> unit callback) \<Rightarrow> ('s, 'a, 'c, 'm, 'k, 'w) drive
      \<Rightarrow> ('s, 'a, 'c, 'm, 'k, 'w) drive \<times> (session_failure, unit) outcome" where
  "each_role ph f d = and_then (invoke ph RoleA (f RoleA) d) (\<lambda>u. invoke ph RoleB (f RoleB))"

definition deliver_message ::
    "('m, 'a, 'obs, 'c) agent_callbacks \<Rightarrow> player_role \<Rightarrow> string \<Rightarrow> ('s, 'a, 'c, 'm, 'k, 'w) drive
      \<Rightarrow> ('s, 'a, 'c, 'm, 'k, 'w) drive \<times> (session_failure, unit) outcome" where
  "deliver_message A sender t = invoke ''observe_message'' (other_role sender) (\<lambda>m. ac_message A m sender t)"

definition finish_agents ::
    "('m, 'a, 'obs, 'c) agent_callbacks \<Rightarrow> 'c \<Rightarrow> ('s, 'a, 'c, 'm, 'k, 'w) drive
      \<Rightarrow> ('s, 'a, 'c, 'm, 'k, 'w) drive \<times> (session_failure, unit) outcome" where
  "finish_agents A c = each_role ''finish'' (\<lambda>r m. ac_finish A m c)"

text \<open>An encoder that fails in a phase.\<close>

definition encoded ::
    "string \<Rightarrow> player_role \<Rightarrow> (string, json) outcome \<Rightarrow> 'd \<Rightarrow> 'd \<times> (session_failure, json) outcome" where
  "encoded ph role j d = (d, map_err (callback_failure ph role) j)"

section \<open>Trajectories and traces\<close>

text \<open>\<open>record_trajectory\<close>: one step of the learner, when the decision has an input. \<open>outcome\<close> is the
  rejection, or the state before and the completion of an accepted action.\<close>

datatype ('s, 'c) trajectory_outcome = TrajectoryRejected action_rejection | TrajectoryAccepted 's "'c option"

definition record_trajectory ::
    "('cfg, 's, 'a, 'obs, 'c, 'm, 'w) headless \<Rightarrow> ('cfg, 's, 'a, 'c, 'k, 'w) session_plan \<Rightarrow> 's \<Rightarrow> player_role \<Rightarrow> 'a
      \<Rightarrow> (json \<times> json) option \<Rightarrow> ('s, 'c) trajectory_outcome \<Rightarrow> ('s, 'a, 'c, 'm, 'k, 'w) drive
      \<Rightarrow> ('s, 'a, 'c, 'm, 'k, 'w) drive \<times> (session_failure, unit) outcome" where
  "record_trajectory H p next_state actor a input out d =
     (case (input, hp_capture p) of
        (Some (observation, available), Some cap) \<Rightarrow>
          (case (case out of
                    TrajectoryAccepted before c \<Rightarrow>
                      map_option (\<lambda>w. (True, None, c, Some w)) (tc_rewards cap before next_state actor a c)
                  | TrajectoryRejected e \<Rightarrow> Some (False, Some e, None, None)) of
             None \<Rightarrow> (d, Panic)
           | Some (accepted, rej, completion, rewards) \<Rightarrow>
              and_then (encoded ''trajectory'' actor
                   (hd_observation_json H (g_observation (hd_game H) next_state actor)) d) (\<lambda>next_observation d1.
              and_then (encoded ''trajectory'' actor (hd_action_json H a) d1) (\<lambda>aj d2.
                (on_result (\<lambda>r. r\<lparr>hr_trajectory := hr_trajectory r @
                   [\<lparr>tj_run = hp_run p, tj_plan = hp_plan p, tj_decision = hr_decisions r,
                     tj_scenario = hp_scenario p, tj_role = actor, tj_agent = tc_learner cap,
                     tj_checkpoint = tc_checkpoint cap, tj_reward = tc_reward cap,
                     tj_reward_version = tc_reward_version cap, tj_observation = observation,
                     tj_available = available, tj_action = aj, tj_accepted = accepted, tj_rejection = rej,
                     tj_rewards = rewards, tj_next_observation = next_observation,
                     tj_terminal = (completion \<noteq> None)\<rparr>]\<rparr>) d2, Ok ()))))
      | _ \<Rightarrow> (d, Ok ()))"

text \<open>\<open>record_trace\<close>; encoding an action inside \<open>json!\<close> panics when it fails.\<close>

definition response_json ::
    "('cfg, 's, 'a, 'obs, 'c, 'm, 'w) headless \<Rightarrow> 'a agent_response option \<Rightarrow> (session_failure, json) outcome" where
  "response_json H response =
     (let aj = (\<lambda>a. case hd_action_json H a of Ok j \<Rightarrow> Ok j | _ \<Rightarrow> Panic) in
      case response of
        None \<Rightarrow> Ok (JObj [(''type'', JStr ''yield'')])
      | Some (ActionOnly a) \<Rightarrow> obind (aj a) (\<lambda>j. Ok (JObj [(''action'', j), (''type'', JStr ''action'')]))
      | Some (MessageOnly t) \<Rightarrow> Ok (JObj [(''message'', JStr t), (''type'', JStr ''message'')])
      | Some (ActionAndMessage a t) \<Rightarrow>
          obind (aj a) (\<lambda>j. Ok (JObj [(''action'', j), (''message'', JStr t), (''type'', JStr ''action_and_message'')])))"

definition rejection_json :: "action_rejection option \<Rightarrow> json" where
  "rejection_json rej = (case rej of None \<Rightarrow> JNull | Some r \<Rightarrow> JObj [(''code'', JStr (rej_code r))])"

definition record_trace ::
    "('cfg, 's, 'a, 'obs, 'c, 'm, 'w) headless \<Rightarrow> player_role \<Rightarrow> 'a agent_response option \<Rightarrow> action_rejection option
      \<Rightarrow> json option \<Rightarrow> ('s, 'a, 'c, 'm, 'k, 'w) drive \<Rightarrow> ('s, 'a, 'c, 'm, 'k, 'w) drive \<times> (session_failure, unit) outcome" where
  "record_trace H role response rej input d =
     (case hr_trace (dr_result d) of
        None \<Rightarrow> (d, Ok ())
      | Some entries \<Rightarrow>
          (case response_json H response of
             Ok j \<Rightarrow>
               (on_result (\<lambda>r. r\<lparr>hr_trace := Some (entries @ [JObj
                  ([(''decision'', JInt (int (hr_decisions r)))] @
                   (case input of None \<Rightarrow> [] | Some i \<Rightarrow> [(''input'', i)]) @
                   [(''rejection'', rejection_json rej), (''response'', j), (''role'', JStr (role_str role))])])\<rparr>) d,
                Ok ())
           | Err e \<Rightarrow> (d, Err e)
           | Panic \<Rightarrow> (d, Panic)))"

section \<open>One decision\<close>

text \<open>\<open>apply_action\<close>: \<open>Ok (completion, rejection)\<close>.\<close>

definition apply_agent_action ::
    "('cfg, 's, 'a, 'obs, 'c, 'm, 'w) headless \<Rightarrow> ('cfg, 's, 'a, 'c, 'k, 'w) session_plan \<Rightarrow> player_role \<Rightarrow> 'a
      \<Rightarrow> string option \<Rightarrow> (json \<times> json) option \<Rightarrow> ('s, 'a, 'c, 'm, 'k, 'w) drive
      \<Rightarrow> ('s, 'a, 'c, 'm, 'k, 'w) drive \<times> (session_failure, 'c option \<times> action_rejection option) outcome" where
  "apply_agent_action H p actor a message input d =
     (let before = dr_state d in
      case g_apply (hd_game H) before a actor of
        Panic \<Rightarrow> (d, Panic)
      | Err rej \<Rightarrow>
          and_then (record_trajectory H p before actor a input (TrajectoryRejected rej)
              (on_result (\<lambda>r. r\<lparr>hr_rejected := hr_rejected r + 1\<rparr>) d))
            (\<lambda>u d1. (d1, Ok (None, Some rej)))
      | Ok after \<Rightarrow>
          and_then (each_role ''observe_transition''
              (\<lambda>r m. ac_transition (hd_agent H) m actor a (g_observation (hd_game H) after r))
              (on_result (\<lambda>r. r\<lparr>hr_accepted := hr_accepted r + 1\<rparr>) d)) (\<lambda>u d1.
          let completion = g_completion (hd_game H) after in
          and_then (record_trajectory H p after actor a input (TrajectoryAccepted before completion) d1) (\<lambda>u d2.
          let d3 = d2\<lparr>dr_state := after, dr_played := dr_played d2 @ [(a, actor)]\<rparr> in
          case (completion, message) of
            (None, Some t) \<Rightarrow>
              and_then (deliver_message (hd_agent H) actor t d3) (\<lambda>u d4.
                (on_result (\<lambda>r. r\<lparr>hr_messages := hr_messages r + 1\<rparr>) d4, Ok (None, None)))
          | _ \<Rightarrow> (d3, Ok (completion, None)))))"

definition perform_response ::
    "('cfg, 's, 'a, 'obs, 'c, 'm, 'w) headless \<Rightarrow> ('cfg, 's, 'a, 'c, 'k, 'w) session_plan \<Rightarrow> player_role
      \<Rightarrow> 'a agent_response option \<Rightarrow> (json \<times> json) option \<Rightarrow> ('s, 'a, 'c, 'm, 'k, 'w) drive
      \<Rightarrow> ('s, 'a, 'c, 'm, 'k, 'w) drive \<times> (session_failure, 'c option \<times> action_rejection option) outcome" where
  "perform_response H p role response input d =
     (case map_option into_parts response of
        Some (Some a, message) \<Rightarrow> apply_agent_action H p role a message input d
      | Some (None, Some t) \<Rightarrow>
          and_then (deliver_message (hd_agent H) role t d) (\<lambda>u d1.
            (on_result (\<lambda>r. r\<lparr>hr_messages := hr_messages r + 1\<rparr>) d1, Ok (None, None)))
      | _ \<Rightarrow> (d, Ok (None, None)))"

definition is_learner ::
    "('cfg, 's, 'a, 'c, 'k, 'w) session_plan \<Rightarrow> player_role \<Rightarrow> bool" where
  "is_learner p role =
     (case hp_capture p of None \<Rightarrow> False | Some cap \<Rightarrow> tc_learner cap = rs_name (hp_seats p role))"

definition decision_input ::
    "('cfg, 's, 'a, 'obs, 'c, 'm, 'w) headless \<Rightarrow> ('cfg, 's, 'a, 'c, 'k, 'w) session_plan \<Rightarrow> player_role
      \<Rightarrow> ('s, 'a, 'c, 'm, 'k, 'w) drive
      \<Rightarrow> ('s, 'a, 'c, 'm, 'k, 'w) drive \<times> (session_failure, (json \<times> json) option) outcome" where
  "decision_input H p role d =
     (if is_learner p role \<or> hp_trace p = TraceFull then
        let ph = (if is_learner p role then ''trajectory'' else ''trace'') in
        and_then (encoded ph role (hd_observation_json H (g_observation (hd_game H) (dr_state d) role)) d) (\<lambda>ob d1.
        and_then (encoded ph role (hd_available_json H (g_available (hd_game H) (dr_state d) role)) d1) (\<lambda>av d2.
          (d2, Ok (Some (ob, av)))))
      else (d, Ok None))"

definition learner_response_ok :: "'a agent_response option \<Rightarrow> bool" where
  "learner_response_ok response = (case response of Some (ActionOnly a) \<Rightarrow> True | _ \<Rightarrow> False)"

text \<open>The end of an iteration: \<open>Ok (Some (status, completion))\<close> leaves the loop.\<close>

definition conclude ::
    "('cfg, 's, 'a, 'obs, 'c, 'm, 'w) headless \<Rightarrow> ('cfg, 's, 'a, 'c, 'k, 'w) session_plan
      \<Rightarrow> ('k \<Rightarrow> player_role \<Rightarrow> 'a agent_response option \<Rightarrow> action_rejection option \<Rightarrow> 'k \<times> player_role option)
      \<Rightarrow> 'a agent_response option \<Rightarrow> 'c option \<Rightarrow> action_rejection option \<Rightarrow> ('s, 'a, 'c, 'm, 'k, 'w) drive
      \<Rightarrow> ('s, 'a, 'c, 'm, 'k, 'w) drive \<times> (session_failure, (session_status \<times> 'c option) option) outcome" where
  "conclude H p sch response completion rej d =
     (case completion of
        Some c \<Rightarrow> and_then (finish_agents (hd_agent H) c d) (\<lambda>u d1. (d1, Ok (Some (RunCompleted, Some c))))
      | None \<Rightarrow>
          if hr_accepted (dr_result d) \<ge> lim_accepted (hp_limits p) then (d, Ok (Some (ActionLimit, None)))
          else if hr_messages (dr_result d) \<ge> lim_messages (hp_limits p) then (d, Ok (Some (MessageLimit, None)))
          else if hr_rejected (dr_result d) \<ge> lim_rejected (hp_limits p) then (d, Ok (Some (RejectionLimit, None)))
          else
            (case sch (dr_schedule d) (dr_role d) response rej of
               (k, None) \<Rightarrow> (d\<lparr>dr_schedule := k\<rparr>, Ok (Some (Quiescent, None)))
             | (k, Some role) \<Rightarrow> (d\<lparr>dr_schedule := k, dr_role := role\<rparr>, Ok None)))"

text \<open>What follows a response.\<close>

definition settle_response ::
    "('cfg, 's, 'a, 'obs, 'c, 'm, 'w) headless \<Rightarrow> ('cfg, 's, 'a, 'c, 'k, 'w) session_plan
      \<Rightarrow> ('k \<Rightarrow> player_role \<Rightarrow> 'a agent_response option \<Rightarrow> action_rejection option \<Rightarrow> 'k \<times> player_role option)
      \<Rightarrow> player_role \<Rightarrow> (json \<times> json) option \<Rightarrow> 'a agent_response option \<Rightarrow> ('s, 'a, 'c, 'm, 'k, 'w) drive
      \<Rightarrow> ('s, 'a, 'c, 'm, 'k, 'w) drive \<times> (session_failure, (session_status \<times> 'c option) option) outcome" where
  "settle_response H p sch role input response d =
     (if is_learner p role \<and> \<not> learner_response_ok response
      then (d, Err \<lparr>sf_phase = ''training_response'', sf_role = Some role,
              sf_error = ''the v1 RL trajectory contract requires action-only learner responses''\<rparr>)
      else
        and_then (perform_response H p role response (if is_learner p role then input else None) d)
          (\<lambda>(completion, rej) d1.
        and_then (record_trace H role response rej
            (if hp_trace p = TraceFull
             then map_option (\<lambda>(ob, av). JObj [(''available_actions'', av), (''observation'', ob)]) input
             else None) d1) (\<lambda>u d2.
          conclude H p sch response completion rej d2)))"

definition counted :: "('s, 'a, 'c, 'm, 'k, 'w) drive \<Rightarrow> ('s, 'a, 'c, 'm, 'k, 'w) drive" where
  "counted d = on_result (\<lambda>r. r\<lparr>hr_decisions := hr_decisions r + 1\<rparr>) d"

definition decision_step ::
    "('cfg, 's, 'a, 'obs, 'c, 'm, 'w) headless \<Rightarrow> ('cfg, 's, 'a, 'c, 'k, 'w) session_plan
      \<Rightarrow> ('k \<Rightarrow> player_role \<Rightarrow> 'a agent_response option \<Rightarrow> action_rejection option \<Rightarrow> 'k \<times> player_role option)
      \<Rightarrow> ('s, 'a, 'c, 'm, 'k, 'w) drive
      \<Rightarrow> ('s, 'a, 'c, 'm, 'k, 'w) drive \<times> (session_failure, (session_status \<times> 'c option) option) outcome" where
  "decision_step H p sch d =
     (let n = hr_decisions (dr_result d); role = dr_role d in
      if hd_late H n then (d, Ok (Some (Deadline, None)))
      else if n \<ge> lim_decisions (hp_limits p) then (d, Ok (Some (DecisionLimit, None)))
      else
        and_then (decision_input H p role (counted d)) (\<lambda>input d1.
        and_then (invoke ''respond'' role
            (\<lambda>m. ac_respond (hd_agent H) m (g_available (hd_game H) (dr_state d) role)) d1) (\<lambda>response d2.
          settle_response H p sch role input response d2)))"

lemma and_then_simps [simp]:
  "and_then (d, Ok x) f = f x d" "and_then (d, Err e) f = (d, Err e)" "and_then (d, Panic) f = (d, Panic)"
  by (simp_all add: and_then_def)

lemma and_then_weak_cong: "m = n \<Longrightarrow> and_then m f = and_then n f"
  by simp

lemma and_then_Ok: "and_then m f = (d', Ok y) \<longleftrightarrow> (\<exists>d1 x. m = (d1, Ok x) \<and> f x d1 = (d', Ok y))"
  by (cases m rule: prod.exhaust, rename_tac d r, case_tac r) (auto simp: and_then_def)

lemma and_thenE:
  assumes "and_then m f = (d', r)"
  obtains (fails) e where "m = (d', Err e)" "r = Err e"
    | (panics) "m = (d', Panic)" "r = Panic"
    | (continues) d1 x where "m = (d1, Ok x)" "f x d1 = (d', r)"
  using assms by (cases m rule: prod.exhaust, rename_tac d q, case_tac q) (auto simp: and_then_def)

section \<open>What the parts leave alone\<close>

text \<open>The fields of the result that a decision may change are its counters, trace and trajectory.\<close>

definition calm :: "('s, 'a, 'c, 'm, 'k, 'w) drive \<Rightarrow> ('s, 'a, 'c, 'm, 'k, 'w) drive \<Rightarrow> bool" where
  "calm d d' \<longleftrightarrow> (\<exists>agents. d' = d\<lparr>dr_agents := agents\<rparr>)"

lemma calmI [intro]: "calm d (d\<lparr>dr_agents := m\<rparr>)" "calm d d"
  by (auto simp: calm_def intro: exI [of _ "dr_agents d"])

lemma calm_trans [trans]: "calm d d' \<Longrightarrow> calm d' d'' \<Longrightarrow> calm d d''"
  by (auto simp: calm_def)

lemma calm_fields:
  assumes "calm d d'"
  shows "dr_state d' = dr_state d" "dr_schedule d' = dr_schedule d" "dr_role d' = dr_role d"
    "dr_result d' = dr_result d" "dr_played d' = dr_played d"
  using assms by (auto simp: calm_def)

lemma invoke_calm: "invoke ph role f d = (d', r) \<Longrightarrow> calm d d'"
  by (auto simp: invoke_def split: prod.splits)

lemma invoke_panic: "invoke ph role f d = (d', Panic) \<Longrightarrow> \<exists>m. snd (f m) = Panicked"
  by (auto simp: invoke_def split: prod.splits callback.splits) (metis snd_conv)

lemma and_then_calm:
  assumes "and_then m f = (d', r)" "\<And>d1 x. m = (d1, x) \<Longrightarrow> calm d d1" "\<And>x d1 d2 y. f x d1 = (d2, y) \<Longrightarrow> calm d1 d2"
  shows "calm d d'"
  using assms(1)
proof (cases rule: and_thenE)
  case (continues d1 x)
  then show ?thesis using assms(2,3) calm_trans by blast
qed (use assms(2) in auto)

lemma each_role_calm: "each_role ph f d = (d', r) \<Longrightarrow> calm d d'"
  unfolding each_role_def by (erule and_then_calm) (auto dest: invoke_calm)

lemma each_role_panic: "each_role ph f d = (d', Panic) \<Longrightarrow> \<exists>role m. snd (f role m) = Panicked"
  by (auto simp: each_role_def elim!: and_thenE dest!: invoke_panic)

lemma finish_agents_calm: "finish_agents A c d = (d', r) \<Longrightarrow> calm d d'"
  unfolding finish_agents_def by (rule each_role_calm)

lemma deliver_message_calm: "deliver_message A sender t d = (d', r) \<Longrightarrow> calm d d'"
  unfolding deliver_message_def by (rule invoke_calm)

lemma decision_input_calm: "decision_input H p role d = (d', r) \<Longrightarrow> d' = d"
  by (auto simp: decision_input_def encoded_def and_then_def Let_def split: if_splits prod.splits outcome.splits)

text \<open>What one recorded step says, given the decision and the game's answer.\<close>

definition step_says :: "nat \<Rightarrow> player_role \<Rightarrow> bool \<Rightarrow> bool \<Rightarrow> 'w trajectory_step \<Rightarrow> bool" where
  "step_says n actor accepted terminal t \<longleftrightarrow>
     tj_decision t = n \<and> tj_role t = actor \<and> tj_accepted t = accepted \<and> tj_terminal t = terminal \<and>
     (tj_rewards t \<noteq> None \<longleftrightarrow> accepted) \<and> (tj_rejection t = None \<longleftrightarrow> accepted)"

definition extends_trajectory ::
    "('s, 'a, 'c, 'm, 'k, 'w) drive \<Rightarrow> 'w trajectory_step list \<Rightarrow> ('s, 'a, 'c, 'm, 'k, 'w) drive \<Rightarrow> bool" where
  "extends_trajectory d steps d' \<longleftrightarrow> d' = on_result (\<lambda>r. r\<lparr>hr_trajectory := hr_trajectory r @ steps\<rparr>) d"

lemma extends_nothing [simp]: "extends_trajectory d [] d"
  by (simp add: extends_trajectory_def on_result_def)

fun outcome_accepts :: "('s, 'c) trajectory_outcome \<Rightarrow> bool" where
  "outcome_accepts (TrajectoryRejected e) \<longleftrightarrow> False"
| "outcome_accepts (TrajectoryAccepted before c) \<longleftrightarrow> True"

fun outcome_ends :: "('s, 'c) trajectory_outcome \<Rightarrow> bool" where
  "outcome_ends (TrajectoryRejected e) \<longleftrightarrow> False"
| "outcome_ends (TrajectoryAccepted before c) \<longleftrightarrow> c \<noteq> None"

lemma record_trajectory_effect:
  assumes "record_trajectory H p next_state actor a input out d = (d', r)"
  obtains steps where "extends_trajectory d steps d'" "length steps \<le> 1"
    "steps \<noteq> [] \<Longrightarrow> input \<noteq> None \<and> r = Ok ()"
    "r = Ok () \<Longrightarrow> input \<noteq> None \<Longrightarrow> hp_capture p \<noteq> None \<Longrightarrow> steps \<noteq> []"
    "\<forall>t \<in> set steps. step_says (hr_decisions (dr_result d)) actor (outcome_accepts out) (outcome_ends out) t"
    "\<forall>t \<in> set steps. hd_action_json H a = Ok (tj_action t)"
proof (cases "input = None \<or> hp_capture p = None")
  case True
  then have "d' = d \<and> r = Ok ()" using assms by (auto simp: record_trajectory_def split: option.splits)
  then show ?thesis using that [of "[]"] True by auto
next
  case False
  then obtain ob av cap where ic: "input = Some (ob, av)" "hp_capture p = Some cap" by auto
  note unf = assms [unfolded record_trajectory_def ic option.case prod.case encoded_def Let_def]
  show ?thesis
  proof (cases "\<exists>e. r = Err e \<or> r = Panic")
    case True
    then have "d' = d" using unf
      by (cases out) (auto elim!: and_thenE split: option.splits)
    then show ?thesis using that [of "[]"] True by auto
  next
    case False
    then have "r = Ok ()" by (cases r) auto
    note that' = that [unfolded extends_trajectory_def on_result_def step_says_def]
    show ?thesis
    proof (cases out)
      case (TrajectoryRejected e)
      obtain t where "d' = d\<lparr>dr_result := (dr_result d)\<lparr>hr_trajectory := hr_trajectory (dr_result d) @ [t]\<rparr>\<rparr>"
          "tj_decision t = hr_decisions (dr_result d)" "tj_role t = actor" "\<not> tj_accepted t" "\<not> tj_terminal t"
          "tj_rewards t = None" "tj_rejection t \<noteq> None" "hd_action_json H a = Ok (tj_action t)"
        using unf by (fastforce simp: \<open>r = Ok ()\<close> TrajectoryRejected and_then_Ok on_result_def)
      then show ?thesis
        by (intro that') (use ic \<open>r = Ok ()\<close> in \<open>auto simp: TrajectoryRejected\<close>)
    next
      case (TrajectoryAccepted before c)
      obtain t where "d' = d\<lparr>dr_result := (dr_result d)\<lparr>hr_trajectory := hr_trajectory (dr_result d) @ [t]\<rparr>\<rparr>"
          "tj_decision t = hr_decisions (dr_result d)" "tj_role t = actor" "tj_accepted t" "tj_terminal t \<longleftrightarrow> c \<noteq> None"
          "tj_rewards t \<noteq> None" "tj_rejection t = None" "hd_action_json H a = Ok (tj_action t)"
        using unf by (fastforce simp: \<open>r = Ok ()\<close> TrajectoryAccepted and_then_Ok on_result_def split: option.splits)
      then show ?thesis
        by (intro that') (use ic \<open>r = Ok ()\<close> in \<open>auto simp: TrajectoryAccepted\<close>)
    qed
  qed
qed

lemma record_trace_effect:
  "record_trace H role response rej input d = (d', r) \<Longrightarrow> \<exists>tr. d' = on_result (\<lambda>r. r\<lparr>hr_trace := tr\<rparr>) d"
  by (auto simp: record_trace_def on_result_def split: option.splits outcome.splits
      intro!: exI [of _ "hr_trace (dr_result d')"])

text \<open>What a response does: \<open>k\<close> actions played, \<open>acc\<close> accepted, \<open>rj\<close> rejected, \<open>ms\<close> messages counted,
  and the steps recorded, which hold the action played.\<close>

definition moved ::
    "('cfg, 's, 'a, 'obs, 'c, 'm, 'w) headless \<Rightarrow> player_role \<Rightarrow> ('s, 'a, 'c, 'm, 'k, 'w) drive
      \<Rightarrow> ('s, 'a, 'c, 'm, 'k, 'w) drive \<Rightarrow> nat \<Rightarrow> bool" where
  "moved H role d d' k \<longleftrightarrow>
     k = 0 \<and> dr_state d' = dr_state d \<and> dr_played d' = dr_played d \<or>
     k = 1 \<and> (\<exists>a. g_apply (hd_game H) (dr_state d) a role = Ok (dr_state d') \<and> dr_played d' = dr_played d @ [(a, role)])"

definition effect ::
    "('cfg, 's, 'a, 'obs, 'c, 'm, 'w) headless \<Rightarrow> player_role \<Rightarrow> ('s, 'a, 'c, 'm, 'k, 'w) drive
      \<Rightarrow> ('s, 'a, 'c, 'm, 'k, 'w) drive \<Rightarrow> nat \<Rightarrow> nat \<Rightarrow> nat \<Rightarrow> nat \<Rightarrow> 'w trajectory_step list \<Rightarrow> bool" where
  "effect H role d d' k acc rj ms steps \<longleftrightarrow>
     moved H role d d' k \<and>
     (k = 1 \<longrightarrow> (\<forall>t \<in> set steps. hd_action_json H (fst (last (dr_played d'))) = Ok (tj_action t))) \<and>
     hr_decisions (dr_result d') = hr_decisions (dr_result d) \<and>
     hr_accepted (dr_result d') = hr_accepted (dr_result d) + acc \<and>
     hr_rejected (dr_result d') = hr_rejected (dr_result d) + rj \<and>
     hr_messages (dr_result d') = hr_messages (dr_result d) + ms \<and>
     hr_trajectory (dr_result d') = hr_trajectory (dr_result d) @ steps \<and>
     hr_completion (dr_result d') = hr_completion (dr_result d) \<and>
     hr_run (dr_result d') = hr_run (dr_result d) \<and> hr_plan (dr_result d') = hr_plan (dr_result d)"

lemma effect_idle: "effect H role d d 0 0 0 0 []"
  by (simp add: effect_def moved_def)

lemma effect_calm:
  assumes "effect H role d d' k acc rj ms steps" "calm d' d''"
  shows "effect H role d d'' k acc rj ms steps"
  using assms by (auto simp: effect_def moved_def calm_fields)

lemma calm_effect:
  assumes "calm d d'" "effect H role d' d'' k acc rj ms steps"
  shows "effect H role d d'' k acc rj ms steps"
  using assms by (auto simp: effect_def moved_def calm_fields)

lemma effect_message:
  assumes "effect H role d d' k acc rj ms steps"
  shows "effect H role d (on_result (\<lambda>r. r\<lparr>hr_messages := hr_messages r + 1\<rparr>) d') k acc rj (ms + 1) steps"
  using assms by (auto simp: effect_def moved_def on_result_def)

lemma effect_trace:
  assumes "effect H role d d' k acc rj ms steps" "record_trace H role' response e input d' = (d'', r)"
  shows "effect H role d d'' k acc rj ms steps"
proof -
  obtain tr where "d'' = on_result (\<lambda>r. r\<lparr>hr_trace := tr\<rparr>) d'" using record_trace_effect [OF assms(2)] by blast
  then show ?thesis using assms(1) by (auto simp: effect_def moved_def on_result_def)
qed

lemma effect_rejected:
  assumes "extends_trajectory (on_result (\<lambda>r. r\<lparr>hr_rejected := hr_rejected r + 1\<rparr>) d) steps d'"
  shows "effect H role d d' 0 0 1 0 steps"
  using assms by (auto simp: effect_def moved_def extends_trajectory_def on_result_def)

lemma effect_accepting:
  assumes "calm (on_result (\<lambda>r. r\<lparr>hr_accepted := hr_accepted r + 1\<rparr>) d) d1" "extends_trajectory d1 steps d2"
  shows "effect H role d d2 0 1 0 0 steps"
    and "g_apply (hd_game H) (dr_state d) a role = Ok after \<Longrightarrow>
      \<forall>t \<in> set steps. hd_action_json H a = Ok (tj_action t) \<Longrightarrow>
      effect H role d (d2\<lparr>dr_state := after, dr_played := dr_played d2 @ [(a, role)]\<rparr>) 1 1 0 0 steps"
  using assms by (auto simp: effect_def moved_def extends_trajectory_def on_result_def calm_def)

lemma apply_agent_action_effect:
  assumes "apply_agent_action H p actor a message input d = (d', r)" "r \<noteq> Panic"
  obtains k acc rj ms steps where "effect H actor d d' k acc rj ms steps"
    "acc + rj = 1" "ms \<le> 1" "k \<le> acc" "length steps \<le> 1" "steps \<noteq> [] \<Longrightarrow> input \<noteq> None"
    "\<forall>t \<in> set steps. step_says (hr_decisions (dr_result d)) actor (acc = 1) (\<exists>c e. r = Ok (Some c, e)) t"
    "\<And>c e. r = Ok (c, e) \<Longrightarrow> k = acc \<and> (e = None \<longleftrightarrow> acc = 1) \<and> (acc = 1 \<longrightarrow> g_completion (hd_game H) (dr_state d') = c)
       \<and> (c \<noteq> None \<longrightarrow> acc = 1)"
    "\<And>c e. r = Ok (c, e) \<Longrightarrow> input \<noteq> None \<Longrightarrow> hp_capture p \<noteq> None \<Longrightarrow> steps \<noteq> []"
proof (cases "g_apply (hd_game H) (dr_state d) a actor")
  case Panic
  then show ?thesis using assms by (simp add: apply_agent_action_def)
next
  case (Err rej)
  let ?d = "on_result (\<lambda>r. r\<lparr>hr_rejected := hr_rejected r + 1\<rparr>) d"
  from assms(1) obtain d1 q where rt: "record_trajectory H p (dr_state d) actor a input (TrajectoryRejected rej) ?d = (d1, q)"
    and rest: "d' = d1" "q = Ok () \<Longrightarrow> r = Ok (None, Some rej)" "\<And>e. q = Err e \<Longrightarrow> r = Err e" "q = Panic \<Longrightarrow> r = Panic"
    by (auto simp: apply_agent_action_def Err elim!: and_thenE)
  from rt obtain steps where st: "extends_trajectory ?d steps d1" "length steps \<le> 1"
      "steps \<noteq> [] \<Longrightarrow> input \<noteq> None \<and> q = Ok ()" "q = Ok () \<Longrightarrow> input \<noteq> None \<Longrightarrow> hp_capture p \<noteq> None \<Longrightarrow> steps \<noteq> []"
      "\<forall>t \<in> set steps. step_says (hr_decisions (dr_result d)) actor False False t"
    by (rule record_trajectory_effect) (auto simp: on_result_def)
  have q: "q = Ok () \<or> (\<exists>e. q = Err e \<and> r = Err e)" using rest assms(2) by (cases q) auto
  show ?thesis
    by (rule that [OF effect_rejected [OF st(1), folded rest(1)]]) (use q rest(2) st in auto)
next
  case (Ok after)
  let ?d = "on_result (\<lambda>r. r\<lparr>hr_accepted := hr_accepted r + 1\<rparr>) d"
  let ?c = "g_completion (hd_game H) after"
  note unf = assms(1) [unfolded apply_agent_action_def Let_def Ok outcome.case]
  show ?thesis
    using unf
  proof (cases rule: and_thenE)
    case (fails e)
    show ?thesis
      by (rule that [OF effect_accepting(1) [OF each_role_calm [OF fails(1)] extends_nothing]]) (use fails(2) in auto)
  next
    case panics
    then show ?thesis using assms(2) by simp
  next
    case (continues d1 u)
    note calm = each_role_calm [OF continues(1)]
    from continues(2) show ?thesis
    proof (cases rule: and_thenE)
      case (fails e)
      then obtain steps where st: "extends_trajectory d1 steps d'" "steps = []" by (auto elim: record_trajectory_effect)
      show ?thesis by (rule that [OF effect_accepting(1) [OF calm st(1)]]) (use fails(2) st(2) in auto)
    next
      case panics
      then show ?thesis using assms(2) by simp
    next
      case (continues d2 u')
      have dec: "hr_decisions (dr_result d1) = hr_decisions (dr_result d)"
        using calm_fields(4) [OF calm] by (simp add: on_result_def)
      obtain steps where st: "extends_trajectory d1 steps d2" "length steps \<le> 1" "steps \<noteq> [] \<Longrightarrow> input \<noteq> None"
          "input \<noteq> None \<Longrightarrow> hp_capture p \<noteq> None \<Longrightarrow> steps \<noteq> []"
          "\<forall>t \<in> set steps. step_says (hr_decisions (dr_result d)) actor True (?c \<noteq> None) t"
          "\<forall>t \<in> set steps. hd_action_json H a = Ok (tj_action t)"
        by (rule record_trajectory_effect [OF continues(1)]) (simp add: dec)
      note eff = effect_accepting(2) [OF calm st(1) Ok st(6)]
      show ?thesis
      proof (cases "\<exists>t. ?c = None \<and> message = Some t")
        case True
        then obtain t where cm: "?c = None" "message = Some t" by blast
        from continues(2) show ?thesis unfolding cm option.case prod.case
        proof (cases rule: and_thenE)
          case (continues d4 u'')
          have "dr_state d' = after" using continues(2) calm_fields(1) [OF deliver_message_calm [OF continues(1)]]
            by (auto simp: on_result_def)
          moreover have "effect H actor d d' 1 1 0 (0 + 1) steps"
            using effect_message [OF effect_calm [OF eff deliver_message_calm [OF continues(1)]]] continues(2) by simp
          ultimately show ?thesis
            by (intro that [of 1 1 0 "0 + 1" steps]) (use continues(2) st cm in auto)
        next
          case (fails e)
          show ?thesis
            by (rule that [OF effect_calm [OF eff deliver_message_calm [OF fails(1)]]]) (use fails(2) st cm in auto)
        qed (use assms(2) in simp)
      next
        case False
        then have "d' = d2\<lparr>dr_state := after, dr_played := dr_played d2 @ [(a, actor)]\<rparr>" "r = Ok (?c, None)"
          using continues(2) by (auto split: option.splits)
        moreover from this(1) have "effect H actor d d' 1 1 0 0 steps" using eff by simp
        ultimately show ?thesis by (intro that [of 1 1 0 0 steps]) (use st in auto)
      qed
    qed
  qed
qed

lemma perform_response_effect:
  assumes "perform_response H p role response input d = (d', r)" "r \<noteq> Panic"
  obtains k acc rj ms steps where "effect H role d d' k acc rj ms steps"
    "acc + rj \<le> 1" "ms \<le> 1" "k \<le> acc" "length steps \<le> 1" "steps \<noteq> [] \<Longrightarrow> input \<noteq> None"
    "\<forall>t \<in> set steps. step_says (hr_decisions (dr_result d)) role (acc = 1) (\<exists>c e. r = Ok (Some c, e)) t"
    "\<And>c e. r = Ok (c, e) \<Longrightarrow> k = acc \<and> (acc = 1 \<longrightarrow> g_completion (hd_game H) (dr_state d') = c) \<and> (c \<noteq> None \<longrightarrow> acc = 1)"
    "\<And>c e. r = Ok (c, e) \<Longrightarrow> acc = 1 \<Longrightarrow> input \<noteq> None \<Longrightarrow> hp_capture p \<noteq> None \<Longrightarrow> steps \<noteq> []"
proof (cases "map_option into_parts response")
  case None
  then have "d' = d" "r = Ok (None, None)" using assms(1) by (simp_all add: perform_response_def)
  note r = this(2)
  have "effect H role d d' 0 0 0 0 []" unfolding \<open>d' = d\<close> by (rule effect_idle)
  then show ?thesis by (rule that) (simp_all add: r)
next
  case (Some parts)
  obtain act message where parts: "parts = (act, message)" by (cases parts)
  show ?thesis
  proof (cases act)
    case (Some a)
    then have "apply_agent_action H p role a message input d = (d', r)"
      using assms(1) \<open>map_option into_parts response = Some parts\<close> parts by (simp add: perform_response_def)
    then show ?thesis using assms(2)
    proof (rule apply_agent_action_effect)
      fix k acc rj ms steps
      assume eff: "effect H role d d' k acc rj ms steps"
      assume a: "acc + rj = 1" "ms \<le> 1" "k \<le> acc" "length steps \<le> 1" "steps \<noteq> [] \<Longrightarrow> input \<noteq> None"
        "\<forall>t \<in> set steps. step_says (hr_decisions (dr_result d)) role (acc = 1) (\<exists>c e. r = Ok (Some c, e)) t"
        "\<And>c e. r = Ok (c, e) \<Longrightarrow> k = acc \<and> (e = None \<longleftrightarrow> acc = 1) \<and> (acc = 1 \<longrightarrow> g_completion (hd_game H) (dr_state d') = c)
           \<and> (c \<noteq> None \<longrightarrow> acc = 1)"
        "\<And>c e. r = Ok (c, e) \<Longrightarrow> input \<noteq> None \<Longrightarrow> hp_capture p \<noteq> None \<Longrightarrow> steps \<noteq> []"
      show thesis by (rule that [OF eff _ a(2-6)]) (use a(1,7,8) in auto)
    qed
  next
    case None
    note pr = assms(1) [unfolded perform_response_def \<open>map_option into_parts response = Some parts\<close> parts None
      option.case prod.case]
    show ?thesis
    proof (cases message)
      case None
      then have "d' = d" "r = Ok (None, None)" using pr by simp_all
      note r = this(2)
      have "effect H role d d' 0 0 0 0 []" unfolding \<open>d' = d\<close> by (rule effect_idle)
      then show ?thesis by (rule that) (simp_all add: r)
    next
      case (Some t)
      from pr [unfolded Some option.case] show ?thesis
      proof (cases rule: and_thenE)
        case (fails e)
        show ?thesis
          by (rule that [OF effect_calm [OF effect_idle deliver_message_calm [OF fails(1)]]]) (use fails(2) in auto)
      next
        case (continues d1 u)
        have "effect H role d d' 0 0 0 (0 + 1) []"
          using effect_message [OF effect_calm [OF effect_idle deliver_message_calm [OF continues(1)]]] continues(2) by simp
        then show ?thesis by (rule that) (use continues(2) in auto)
      qed (use assms(2) in simp)
    qed
  qed
qed

text \<open>A decision: the count goes up by one, the rest is the effect of the response.\<close>

lemma conclude_effect:
  assumes "conclude H p sch response completion rej d = (d', r)" "r \<noteq> Panic"
  shows "dr_state d' = dr_state d" "dr_played d' = dr_played d" "dr_result d' = dr_result d"
    "r = Ok None \<Longrightarrow> completion = None \<and> hr_accepted (dr_result d) < lim_accepted (hp_limits p) \<and>
       hr_messages (dr_result d) < lim_messages (hp_limits p) \<and> hr_rejected (dr_result d) < lim_rejected (hp_limits p)"
    "r = Ok (Some (st, c)) \<Longrightarrow> c = completion \<and> st \<noteq> RunFailed \<and> (st = RunCompleted \<longleftrightarrow> completion \<noteq> None)"
proof -
  have "dr_state d' = dr_state d \<and> dr_played d' = dr_played d \<and> dr_result d' = dr_result d \<and>
    (r = Ok None \<longrightarrow> completion = None \<and> hr_accepted (dr_result d) < lim_accepted (hp_limits p) \<and>
       hr_messages (dr_result d) < lim_messages (hp_limits p) \<and> hr_rejected (dr_result d) < lim_rejected (hp_limits p)) \<and>
    (r = Ok (Some (st, c)) \<longrightarrow> c = completion \<and> st \<noteq> RunFailed \<and> (st = RunCompleted \<longleftrightarrow> completion \<noteq> None))"
  proof (cases completion)
    case (Some c')
    from assms(1) [unfolded conclude_def Some option.case] show ?thesis
    proof (cases rule: and_thenE)
      case (fails e)
      then show ?thesis using calm_fields [OF finish_agents_calm [OF fails(1)]] by simp
    next
      case panics
      then show ?thesis using assms(2) by simp
    next
      case (continues d1 u)
      then show ?thesis using calm_fields [OF finish_agents_calm [OF continues(1)]] Some by auto
    qed
  next
    case None
    then show ?thesis
      using assms(1) by (auto simp: conclude_def not_le split: if_splits prod.splits option.splits)
  qed
  then show "dr_state d' = dr_state d" "dr_played d' = dr_played d" "dr_result d' = dr_result d"
    "r = Ok None \<Longrightarrow> completion = None \<and> hr_accepted (dr_result d) < lim_accepted (hp_limits p) \<and>
       hr_messages (dr_result d) < lim_messages (hp_limits p) \<and> hr_rejected (dr_result d) < lim_rejected (hp_limits p)"
    "r = Ok (Some (st, c)) \<Longrightarrow> c = completion \<and> st \<noteq> RunFailed \<and> (st = RunCompleted \<longleftrightarrow> completion \<noteq> None)"
    by simp_all
qed

lemma effect_cong:
  assumes "effect H role d d' k acc rj ms steps"
    "dr_state d'' = dr_state d'" "dr_played d'' = dr_played d'" "dr_result d'' = dr_result d'"
  shows "effect H role d d'' k acc rj ms steps"
  using assms by (simp add: effect_def moved_def)

lemma counted_fields [simp]:
  "dr_state (counted d) = dr_state d" "dr_played (counted d) = dr_played d" "dr_role (counted d) = dr_role d"
  "hr_decisions (dr_result (counted d)) = hr_decisions (dr_result d) + 1"
  "hr_accepted (dr_result (counted d)) = hr_accepted (dr_result d)"
  "hr_rejected (dr_result (counted d)) = hr_rejected (dr_result d)"
  "hr_messages (dr_result (counted d)) = hr_messages (dr_result d)"
  "hr_trajectory (dr_result (counted d)) = hr_trajectory (dr_result d)"
  "hr_completion (dr_result (counted d)) = hr_completion (dr_result d)"
  "hr_run (dr_result (counted d)) = hr_run (dr_result d)" "hr_plan (dr_result (counted d)) = hr_plan (dr_result d)"
  by (simp_all add: counted_def on_result_def)

text \<open>The facts a decision leaves: with \<open>n\<close> the number of the decision and \<open>r\<close> how the iteration ends.\<close>

definition decided ::
    "('cfg, 's, 'a, 'obs, 'c, 'm, 'w) headless \<Rightarrow> ('cfg, 's, 'a, 'c, 'k, 'w) session_plan \<Rightarrow> player_role
      \<Rightarrow> ('s, 'a, 'c, 'm, 'k, 'w) drive \<Rightarrow> ('s, 'a, 'c, 'm, 'k, 'w) drive
      \<Rightarrow> (session_failure, (session_status \<times> 'c option) option) outcome
      \<Rightarrow> nat \<Rightarrow> nat \<Rightarrow> nat \<Rightarrow> nat \<Rightarrow> 'w trajectory_step list \<Rightarrow> bool \<Rightarrow> bool" where
  "decided H p role d d' r k acc rj ms steps terminal \<longleftrightarrow>
     effect H role d d' k acc rj ms steps \<and> acc + rj \<le> 1 \<and> ms \<le> 1 \<and> k \<le> acc \<and> length steps \<le> 1 \<and>
     (steps \<noteq> [] \<longrightarrow> is_learner p role) \<and>
     (\<forall>t \<in> set steps. step_says (hr_decisions (dr_result d)) role (acc = 1) terminal t) \<and>
     (case r of
        Ok None \<Rightarrow> k = acc \<and> (acc = 1 \<longrightarrow> is_learner p role \<longrightarrow> steps \<noteq> []) \<and> \<not> terminal \<and> g_completion (hd_game H) (dr_state d') = None \<and>
          hr_accepted (dr_result d') < lim_accepted (hp_limits p) \<and>
          hr_messages (dr_result d') < lim_messages (hp_limits p) \<and>
          hr_rejected (dr_result d') < lim_rejected (hp_limits p)
      | Ok (Some (st, c)) \<Rightarrow> k = acc \<and> (acc = 1 \<longrightarrow> is_learner p role \<longrightarrow> steps \<noteq> []) \<and> st \<noteq> RunFailed \<and> c = g_completion (hd_game H) (dr_state d') \<and>
          (st = RunCompleted \<longleftrightarrow> c \<noteq> None) \<and> (terminal \<longleftrightarrow> c \<noteq> None)
      | Err e \<Rightarrow> True
      | Panic \<Rightarrow> False)"

lemma learner_captures: "is_learner p role \<Longrightarrow> hp_capture p \<noteq> None"
  by (auto simp: is_learner_def split: option.splits)

lemma perform_response_learner:
  assumes "perform_response H p role response (if is_learner p role then input else None) d = (d', r)" "r \<noteq> Panic"
    "is_learner p role \<longrightarrow> input \<noteq> None"
  shows "\<exists>k acc rj ms steps. effect H role d d' k acc rj ms steps \<and> acc + rj \<le> 1 \<and> ms \<le> 1 \<and> k \<le> acc \<and> length steps \<le> 1 \<and>
    (steps \<noteq> [] \<longrightarrow> is_learner p role) \<and>
    (\<forall>t \<in> set steps. step_says (hr_decisions (dr_result d)) role (acc = 1) (\<exists>c e. r = Ok (Some c, e)) t) \<and>
    (\<forall>c e. r = Ok (c, e) \<longrightarrow> k = acc \<and> (acc = 1 \<longrightarrow> g_completion (hd_game H) (dr_state d') = c) \<and> (c \<noteq> None \<longrightarrow> acc = 1) \<and>
       (acc = 1 \<longrightarrow> is_learner p role \<longrightarrow> steps \<noteq> []))"
proof (rule perform_response_effect [OF assms(1,2)], intro exI conjI)
  fix k acc rj ms steps
  assume e: "\<And>c e. r = Ok (c, e) \<Longrightarrow> k = acc \<and> (acc = 1 \<longrightarrow> g_completion (hd_game H) (dr_state d') = c) \<and> (c \<noteq> None \<longrightarrow> acc = 1)"
    "\<And>c e. r = Ok (c, e) \<Longrightarrow> acc = 1 \<Longrightarrow> (if is_learner p role then input else None) \<noteq> None \<Longrightarrow> hp_capture p \<noteq> None \<Longrightarrow> steps \<noteq> []"
  then show "\<forall>c e. r = Ok (c, e) \<longrightarrow> k = acc \<and> (acc = 1 \<longrightarrow> g_completion (hd_game H) (dr_state d') = c) \<and> (c \<noteq> None \<longrightarrow> acc = 1) \<and>
       (acc = 1 \<longrightarrow> is_learner p role \<longrightarrow> steps \<noteq> [])"
    using assms(3) learner_captures [of p role] by (metis (full_types))
next
  fix k acc rj ms steps
  assume "steps \<noteq> [] \<Longrightarrow> (if is_learner p role then input else None) \<noteq> None"
  then show "steps \<noteq> [] \<longrightarrow> is_learner p role" by (cases "is_learner p role") auto
qed assumption+

lemma decided_failure:
  assumes "effect H role d d' 0 0 0 0 []"
  shows "decided H p role d d' (Err e) 0 0 0 0 [] False"
  using assms by (simp add: decided_def)

lemma settle_response_effect:
  assumes "settle_response H p sch role input response d = (d', r)" "r \<noteq> Panic"
    "g_completion (hd_game H) (dr_state d) = None" "is_learner p role \<longrightarrow> input \<noteq> None"
  shows "\<exists>k acc rj ms steps terminal. decided H p role d d' r k acc rj ms steps terminal"
proof (cases "is_learner p role \<and> \<not> learner_response_ok response")
  case True
  then have "d' = d" "\<exists>e. r = Err e" using assms(1) by (auto simp: settle_response_def)
  then show ?thesis using decided_failure [OF effect_idle [of H role d], of p] by blast
next
  case False
  from assms(1) [unfolded settle_response_def if_not_P [OF False]] show ?thesis
  proof (cases rule: and_thenE)
    case (fails e)
    obtain k acc rj ms steps where "effect H role d d' k acc rj ms steps"
      "acc + rj \<le> 1" "ms \<le> 1" "k \<le> acc" "length steps \<le> 1" "steps \<noteq> [] \<longrightarrow> is_learner p role"
      "\<forall>t \<in> set steps. step_says (hr_decisions (dr_result d)) role (acc = 1) False t"
      using perform_response_learner [OF fails(1) outcome.distinct(5) assms(4)] by (elim exE conjE) (rule that, assumption, simp_all)
    then have "decided H p role d d' r k acc rj ms steps False" using fails(2) by (simp add: decided_def)
    then show ?thesis by blast
  next
    case (continues d1 x)
    obtain completion rej where x: "x = (completion, rej)" by (cases x)
    have ends: "(\<exists>c e. Ok (completion, rej) = Ok (Some c, e)) \<longleftrightarrow> completion \<noteq> None" by simp
    obtain k acc rj ms steps where eff: "effect H role d d1 k acc rj ms steps"
      and bounds: "acc + rj \<le> 1" "ms \<le> 1" "k \<le> acc" "length steps \<le> 1" "steps \<noteq> [] \<longrightarrow> is_learner p role"
      and says: "\<forall>t \<in> set steps. step_says (hr_decisions (dr_result d)) role (acc = 1) (completion \<noteq> None) t"
      and all: "\<forall>c e. completion = c \<and> rej = e \<longrightarrow> k = acc \<and>
        (acc = 1 \<longrightarrow> g_completion (hd_game H) (dr_state d1) = c) \<and> (c \<noteq> None \<longrightarrow> acc = 1) \<and>
        (acc = 1 \<longrightarrow> is_learner p role \<longrightarrow> steps \<noteq> [])"
      using perform_response_learner [OF continues(1) [unfolded x] outcome.distinct(3) assms(4)]
      unfolding ends unfolding outcome.inject prod.inject by (elim exE conjE) (rule that)
    from all have played: "k = acc" "acc = 1 \<longrightarrow> g_completion (hd_game H) (dr_state d1) = completion"
        "completion \<noteq> None \<longrightarrow> acc = 1" "acc = 1 \<longrightarrow> is_learner p role \<longrightarrow> steps \<noteq> []"
      by blast+
    have completion: "g_completion (hd_game H) (dr_state d1) = completion"
    proof (cases "acc = 1")
      case False
      then have "k = 0" "completion = None" using played bounds(1) by auto
      then have "dr_state d1 = dr_state d" using eff by (auto simp: effect_def moved_def)
      then show ?thesis using assms(3) \<open>completion = None\<close> by simp
    qed (use played in simp)
    from continues(2) [unfolded x prod.case] show ?thesis
    proof (cases rule: and_thenE)
      case (fails e)
      have "decided H p role d d' r k acc rj ms steps (completion \<noteq> None)"
        using effect_trace [OF eff fails(1)] bounds says fails(2) by (simp add: decided_def)
      then show ?thesis by blast
    next
      case (continues d2 u)
      note concl = conclude_effect [OF continues(2) assms(2)]
      have "dr_state d2 = dr_state d1" using record_trace_effect [OF continues(1)] by (auto simp: on_result_def)
      then have "g_completion (hd_game H) (dr_state d') = completion" using concl(1) completion by simp
      moreover have "effect H role d d' k acc rj ms steps"
        by (rule effect_cong [OF effect_trace [OF eff continues(1)] concl(1-3)])
      ultimately have "decided H p role d d' r k acc rj ms steps (completion \<noteq> None)"
        using bounds says played(1,4) concl(3,4) assms(2) conclude_effect(5) [OF continues(2) assms(2)]
        by (auto simp: decided_def split: outcome.splits option.splits)
      then show ?thesis by blast
    qed (use assms(2) in simp)
  qed (use assms(2) in simp)
qed

lemma calm_decided:
  assumes "calm d d1" "decided H p role d1 d' r k acc rj ms steps terminal"
  shows "decided H p role d d' r k acc rj ms steps terminal"
  using assms(2) calm_effect [OF assms(1)] unfolding decided_def calm_fields(4) [OF assms(1)] by blast

lemma decision_step_effect:
  assumes "decision_step H p sch d = (d', r)" "r \<noteq> Panic" "g_completion (hd_game H) (dr_state d) = None"
  shows "d' = d \<and> (\<exists>st. r = Ok (Some (st, None)) \<and> st \<noteq> RunFailed \<and> st \<noteq> RunCompleted) \<or>
    hr_decisions (dr_result d) < lim_decisions (hp_limits p) \<and>
    (\<exists>k acc rj ms steps terminal. decided H p (dr_role d) (counted d) d' r k acc rj ms steps terminal)"
proof (cases "hd_late H (hr_decisions (dr_result d)) \<or> hr_decisions (dr_result d) \<ge> lim_decisions (hp_limits p)")
  case True
  then show ?thesis using assms(1) by (auto simp: decision_step_def Let_def split: if_splits)
next
  case False
  then have lim: "\<not> hd_late H (hr_decisions (dr_result d))" "\<not> lim_decisions (hp_limits p) \<le> hr_decisions (dr_result d)"
    by auto
  have "\<exists>k acc rj ms steps terminal. decided H p (dr_role d) (counted d) d' r k acc rj ms steps terminal"
    using assms(1) [unfolded decision_step_def Let_def if_not_P [OF lim(1)] if_not_P [OF lim(2)]]
  proof (cases rule: and_thenE)
    case (fails e)
    then show ?thesis using decided_failure [OF effect_idle] decision_input_calm by blast
  next
    case (continues d1 input)
    have d1: "d1 = counted d" and input: "is_learner p (dr_role d) \<longrightarrow> input \<noteq> None"
      using continues(1) decision_input_calm [OF continues(1)]
      by (auto simp: decision_input_def and_then_Ok Let_def)
    from continues(2) show ?thesis unfolding d1
    proof (cases rule: and_thenE)
      case (fails e)
      then show ?thesis using decided_failure [OF effect_calm [OF effect_idle invoke_calm [OF fails(1)]]] by blast
    next
      case (continues d2 response)
      note calm = invoke_calm [OF continues(1)]
      have "g_completion (hd_game H) (dr_state d2) = None" using calm_fields(1) [OF calm] assms(3) by simp
      from settle_response_effect [OF continues(2) assms(2) this input] show ?thesis
        using calm_decided [OF calm] by blast
    qed (use assms(2) in simp)
  qed (use assms(2) in simp)
  then show ?thesis using lim(2) by simp
qed

end
