(* ===== verification/Headless_Runs.thy ===== *)
theory Headless_Runs
  imports Headless_Session Cue_Choice
begin

text \<open>
  The loop of a headless session and the whole of \<open>SessionRunner::run\<close>, on the decisions of
  \<open>Headless_Session\<close>: that it ends within its limits, that its result rests on a play of the game,
  and what its trajectory holds.
\<close>

section \<open>The loop\<close>

lemma settle_counts:
  assumes "settle_response H p sch role input response d = (d', Ok x)"
  shows "hr_decisions (dr_result d') = hr_decisions (dr_result d)"
proof -
  obtain d1 c rej d2 i where
      pr: "perform_response H p role response (if is_learner p role then input else None) d = (d1, Ok (c, rej))" and
      rt: "record_trace H role response rej i d1 = (d2, Ok ())" and
      cl: "conclude H p sch response c rej d2 = (d', Ok x)"
    using assms by (auto simp: settle_response_def and_then_Ok split: if_splits)
  have "hr_decisions (dr_result d1) = hr_decisions (dr_result d)"
    by (rule perform_response_effect [OF pr]) (simp_all add: effect_def)
  moreover have "hr_decisions (dr_result d2) = hr_decisions (dr_result d1)"
    using record_trace_effect [OF rt] by (auto simp: on_result_def)
  ultimately show ?thesis using conclude_effect(3) [OF cl] by simp
qed

lemma step_counts:
  assumes "decision_step H p sch d = (d', Ok None)"
  shows "hr_decisions (dr_result d) < lim_decisions (hp_limits p) \<and>
    hr_decisions (dr_result d') = hr_decisions (dr_result d) + 1"
proof -
  have lim: "\<not> lim_decisions (hp_limits p) \<le> hr_decisions (dr_result d)"
    using assms by (auto simp: decision_step_def Let_def split: if_splits)
  obtain i response d1 d2 f where d1: "decision_input H p (dr_role d) (counted d) = (d1, Ok i)"
      and inv: "invoke ''respond'' (dr_role d) f d1 = (d2, Ok response)"
      and st: "settle_response H p sch (dr_role d) i response d2 = (d', Ok None)"
    using assms by (auto simp: decision_step_def Let_def and_then_Ok split: if_splits)
  have "dr_result d2 = dr_result (counted d)"
    using calm_fields(4) [OF invoke_calm [OF inv]] decision_input_calm [OF d1] by simp
  then show ?thesis using settle_counts [OF st] lim by simp
qed

function drive_loop ::
    "('cfg, 's, 'a, 'obs, 'c, 'm, 'w) headless \<Rightarrow> ('cfg, 's, 'a, 'c, 'k, 'w) session_plan
      \<Rightarrow> ('k \<Rightarrow> player_role \<Rightarrow> 'a agent_response option \<Rightarrow> action_rejection option \<Rightarrow> 'k \<times> player_role option)
      \<Rightarrow> ('s, 'a, 'c, 'm, 'k, 'w) drive
      \<Rightarrow> ('s, 'a, 'c, 'm, 'k, 'w) drive \<times> (session_failure, session_status \<times> 'c option) outcome" where
  "drive_loop H p sch d =
     (case decision_step H p sch d of
        (d', Ok None) \<Rightarrow> drive_loop H p sch d'
      | (d', Ok (Some out)) \<Rightarrow> (d', Ok out)
      | (d', Err e) \<Rightarrow> (d', Err e)
      | (d', Panic) \<Rightarrow> (d', Panic))"
  by pat_completeness auto

termination
proof (relation "measure (\<lambda>(H, p, sch, d). lim_decisions (hp_limits p) - hr_decisions (dr_result d))", goal_cases)
  case (2 H p sch d d')
  then have "decision_step H p sch d = (d', Ok None)" by simp
  from step_counts [OF this] show ?case by auto
qed simp

declare drive_loop.simps [simp del]

section \<open>A session\<close>

text \<open>\<open>drive_session\<close>.\<close>

definition drive_session ::
    "('cfg, 's, 'a, 'obs, 'c, 'm, 'w) headless \<Rightarrow> ('cfg, 's, 'a, 'c, 'k, 'w) session_plan
      \<Rightarrow> ('s, 'a, 'c, 'm, 'k, 'w) drive
      \<Rightarrow> ('s, 'a, 'c, 'm, 'k, 'w) drive \<times> (session_failure, session_status \<times> 'c option) outcome" where
  "drive_session H p d =
     and_then (each_role ''start''
         (\<lambda>r m. ac_start (hd_agent H) m (g_observation (hd_game H) (dr_state d) r)) d) (\<lambda>u d1.
       case g_completion (hd_game H) (dr_state d1) of
         Some c \<Rightarrow> and_then (finish_agents (hd_agent H) c d1) (\<lambda>u d2. (d2, Ok (RunCompleted, Some c)))
       | None \<Rightarrow>
           (case hp_schedule p of
              Err e \<Rightarrow> (d1, Err \<lparr>sf_phase = ''schedule'', sf_role = None, sf_error = e\<rparr>)
            | Panic \<Rightarrow> (d1, Panic)
            | Ok sch \<Rightarrow>
                drive_loop H p (sch_next sch) (d1\<lparr>dr_schedule := sch_state sch, dr_role := sch_first sch\<rparr>)))"

text \<open>\<open>record_failure\<close>: the diagnostic is cut at 4096 characters.\<close>

definition record_failure :: "session_failure \<Rightarrow> ('c, 'w) session_result \<Rightarrow> ('c, 'w) session_result" where
  "record_failure f r = r\<lparr>hr_status := RunFailed, hr_failure_phase := Some (sf_phase f),
     hr_failure_role := sf_role f, hr_diagnostic := Some (take 4096 (sf_error f))\<rparr>"

text \<open>The diagnostics of a shutdown; \<open>None\<close> is a panic.\<close>

definition shutdown_agent :: "('m, 'a, 'obs, 'c) agent_callbacks \<Rightarrow> 'm \<Rightarrow> string list option" where
  "shutdown_agent A m =
     (case ac_shutdown A m of
        Returned u \<Rightarrow> Some []
      | Raised e \<Rightarrow> Some [''shutdown failed: '' @ e]
      | TimedOut \<Rightarrow> Some [''shutdown timed out'']
      | Panicked \<Rightarrow> None)"

definition shutdown_agents :: "('m, 'a, 'obs, 'c) agent_callbacks \<Rightarrow> (player_role \<Rightarrow> 'm) \<Rightarrow> string list option" where
  "shutdown_agents A ms =
     Option.bind (shutdown_agent A (ms RoleA)) (\<lambda>xs.
     Option.bind (shutdown_agent A (ms RoleB)) (\<lambda>ys.
       Some (map (\<lambda>e. ''role A: '' @ e) xs @ map (\<lambda>e. ''role B: '' @ e) ys)))"

definition fresh_result :: "('cfg, 's, 'a, 'c, 'k, 'w) session_plan \<Rightarrow> ('c, 'w) session_result" where
  "fresh_result p = \<lparr>hr_run = hp_run p, hr_plan = hp_plan p, hr_phase = hp_phase p, hr_phase_index = hp_phase_index p,
     hr_scenario = hp_scenario p, hr_game_id = hp_game_id p, hr_game_version = hp_game_version p,
     hr_config_fingerprint = hp_config_fingerprint p, hr_game_seed = hp_game_seed p,
     hr_agents = [result_identity (hp_seats p RoleA), result_identity (hp_seats p RoleB)],
     hr_schedule = hp_schedule_kind p, hr_status = RunFailed, hr_completion = None, hr_failure_phase = None,
     hr_failure_role = None, hr_diagnostic = None, hr_decisions = 0, hr_accepted = 0, hr_rejected = 0,
     hr_messages = 0, hr_trace = (if hp_trace p = TraceResults then None else Some []), hr_trajectory = [],
     hr_cleanup = []\<rparr>"

definition create_agent :: "('cfg, 's, 'a, 'obs, 'c, 'm, 'w) headless \<Rightarrow> resolved_seat \<Rightarrow> (string, 'm) outcome" where
  "create_agent H seat =
     (case hd_create H seat of
        Returned m \<Rightarrow> Ok m
      | Raised e \<Rightarrow> Err e
      | TimedOut \<Rightarrow> Err ''agent factory timed out''
      | Panicked \<Rightarrow> Panic)"

text \<open>A failure before the agents start; the agents made so far have been shut down.\<close>

definition failed_early ::
    "('cfg, 's, 'a, 'c, 'k, 'w) session_plan \<Rightarrow> string \<Rightarrow> player_role option \<Rightarrow> string \<Rightarrow> string list
      \<Rightarrow> ('c, 'w) session_result" where
  "failed_early p ph role e cleanup =
     (record_failure \<lparr>sf_phase = ph, sf_role = role, sf_error = e\<rparr> (fresh_result p))\<lparr>hr_cleanup := cleanup\<rparr>"

definition first_drive ::
    "('cfg, 's, 'a, 'c, 'k, 'w) session_plan \<Rightarrow> 's \<Rightarrow> (player_role \<Rightarrow> 'm) \<Rightarrow> 'k \<Rightarrow> ('s, 'a, 'c, 'm, 'k, 'w) drive" where
  "first_drive p s ms k = \<lparr>dr_state = s, dr_agents = ms, dr_schedule = k, dr_role = RoleA,
     dr_result = fresh_result p, dr_played = []\<rparr>"

text \<open>\<open>SessionRunner::run\<close>; \<open>None\<close> is a panic, and \<open>k\<close> stands for the schedule until there is one.\<close>

definition close_session ::
    "('cfg, 's, 'a, 'obs, 'c, 'm, 'w) headless \<Rightarrow> ('s, 'a, 'c, 'm, 'k, 'w) drive
      \<times> (session_failure, session_status \<times> 'c option) outcome \<Rightarrow> ('c, 'w) session_result option" where
  "close_session H x =
     (case x of
        (d, Panic) \<Rightarrow> None
      | (d, Ok (st, c)) \<Rightarrow>
          map_option (\<lambda>cleanup. (dr_result d)\<lparr>hr_status := st, hr_completion := c, hr_cleanup := cleanup\<rparr>)
            (shutdown_agents (hd_agent H) (dr_agents d))
      | (d, Err f) \<Rightarrow>
          map_option (\<lambda>cleanup. (record_failure f (dr_result d))\<lparr>hr_cleanup := cleanup\<rparr>)
            (shutdown_agents (hd_agent H) (dr_agents d)))"

definition run_session ::
    "('cfg, 's, 'a, 'obs, 'c, 'm, 'w) headless \<Rightarrow> 'k \<Rightarrow> ('cfg, 's, 'a, 'c, 'k, 'w) session_plan
      \<Rightarrow> ('c, 'w) session_result option" where
  "run_session H k p =
     (case hd_game_factory H of
        Err e \<Rightarrow> Some (failed_early p ''game_factory'' None e [])
      | Panic \<Rightarrow> None
      | Ok u \<Rightarrow>
     (case create_agent H (hp_seats p RoleA) of
        Err e \<Rightarrow> Some (failed_early p ''agent_factory'' (Some RoleA) e [])
      | Panic \<Rightarrow> None
      | Ok a \<Rightarrow>
     (case create_agent H (hp_seats p RoleB) of
        Err e \<Rightarrow> map_option (failed_early p ''agent_factory'' (Some RoleB) e) (shutdown_agent (hd_agent H) a)
      | Panic \<Rightarrow> None
      | Ok b \<Rightarrow>
     (let ms = (\<lambda>role. case role of RoleA \<Rightarrow> a | RoleB \<Rightarrow> b) in
      case g_initial (hd_game H) (hp_config p) (hp_game_seed p) (hp_secrets p) of
        Err e \<Rightarrow> map_option (failed_early p ''initial_state'' None e) (shutdown_agents (hd_agent H) ms)
      | Panic \<Rightarrow> None
      | Ok s \<Rightarrow> close_session H (drive_session H p (first_drive p s ms k))))))"

section \<open>The invariant of a session\<close>

definition accepted_play ::
    "('cfg, 's, 'a, 'obs, 'c) game \<Rightarrow> ('a \<times> player_role) list \<Rightarrow> 's \<Rightarrow> (action_rejection, 's) outcome" where
  "accepted_play G xs s = ofold (\<lambda>(a, r) s. g_apply G s a r) xs s"

definition trajectory_ok :: "('cfg, 's, 'a, 'c, 'k, 'w) session_plan \<Rightarrow> nat \<Rightarrow> 'w trajectory_step list \<Rightarrow> bool" where
  "trajectory_ok p n ts \<longleftrightarrow>
     sorted_wrt (<) (map tj_decision ts) \<and>
     (\<forall>t \<in> set ts. 1 \<le> tj_decision t \<and> tj_decision t \<le> n \<and> is_learner p (tj_role t) \<and>
        (tj_rewards t \<noteq> None \<longleftrightarrow> tj_accepted t) \<and> (tj_rejection t = None \<longleftrightarrow> tj_accepted t)) \<and>
     (\<forall>t \<in> set (butlast ts). \<not> tj_terminal t)"

definition obeys :: "session_limits \<Rightarrow> ('c, 'w) session_result \<Rightarrow> bool" where
  "obeys l r \<longleftrightarrow> hr_decisions r \<le> lim_decisions l \<and> hr_accepted r \<le> lim_accepted l \<and>
     hr_messages r \<le> lim_messages l \<and> hr_rejected r \<le> lim_rejected l"

definition drive_ok ::
    "('cfg, 's, 'a, 'obs, 'c, 'm, 'w) headless \<Rightarrow> ('cfg, 's, 'a, 'c, 'k, 'w) session_plan \<Rightarrow> 's
      \<Rightarrow> ('s, 'a, 'c, 'm, 'k, 'w) drive \<Rightarrow> bool" where
  "drive_ok H p s0 d \<longleftrightarrow>
     accepted_play (hd_game H) (dr_played d) s0 = Ok (dr_state d) \<and>
     length (dr_played d) \<le> hr_accepted (dr_result d) \<and> hr_accepted (dr_result d) \<le> length (dr_played d) + 1 \<and>
     hr_accepted (dr_result d) + hr_rejected (dr_result d) \<le> hr_decisions (dr_result d) \<and>
     hr_messages (dr_result d) \<le> hr_decisions (dr_result d) \<and>
     obeys (hp_limits p) (dr_result d) \<and>
     trajectory_ok p (hr_decisions (dr_result d)) (hr_trajectory (dr_result d)) \<and>
     hr_completion (dr_result d) = None \<and> hr_run (dr_result d) = hp_run p \<and> hr_plan (dr_result d) = hp_plan p"

text \<open>Between decisions, and at an end that is not a failure, the result tells all of the play: an accepted
  step for each move of the learner, with its role and the encoding of its action.\<close>

definition tells ::
    "('cfg, 's, 'a, 'obs, 'c, 'm, 'w) headless \<Rightarrow> 'w trajectory_step \<Rightarrow> 'a \<times> player_role \<Rightarrow> bool" where
  "tells H t x \<longleftrightarrow> tj_role t = snd x \<and> hd_action_json H (fst x) = Ok (tj_action t)"

definition settled ::
    "('cfg, 's, 'a, 'obs, 'c, 'm, 'w) headless \<Rightarrow> ('cfg, 's, 'a, 'c, 'k, 'w) session_plan \<Rightarrow> ('s, 'a, 'c, 'm, 'k, 'w) drive \<Rightarrow> bool" where
  "settled H p d \<longleftrightarrow> hr_accepted (dr_result d) = length (dr_played d) \<and>
     list_all2 (tells H) (filter tj_accepted (hr_trajectory (dr_result d)))
       (filter (\<lambda>x. is_learner p (snd x)) (dr_played d))"

definition undecided ::
    "('cfg, 's, 'a, 'obs, 'c, 'm, 'w) headless \<Rightarrow> ('cfg, 's, 'a, 'c, 'k, 'w) session_plan
      \<Rightarrow> ('s, 'a, 'c, 'm, 'k, 'w) drive \<Rightarrow> bool" where
  "undecided H p d \<longleftrightarrow>
     g_completion (hd_game H) (dr_state d) = None \<and> (\<forall>t \<in> set (hr_trajectory (dr_result d)). \<not> tj_terminal t) \<and>
     hr_accepted (dr_result d) < lim_accepted (hp_limits p) \<and>
     hr_messages (dr_result d) < lim_messages (hp_limits p) \<and>
     hr_rejected (dr_result d) < lim_rejected (hp_limits p)"

text \<open>The end of the driver.\<close>

definition ended ::
    "('cfg, 's, 'a, 'obs, 'c, 'm, 'w) headless \<Rightarrow> ('cfg, 's, 'a, 'c, 'k, 'w) session_plan
      \<Rightarrow> ('s, 'a, 'c, 'm, 'k, 'w) drive \<Rightarrow> session_status \<Rightarrow> 'c option \<Rightarrow> bool" where
  "ended H p d st c \<longleftrightarrow> settled H p d \<and> st \<noteq> RunFailed \<and> c = g_completion (hd_game H) (dr_state d) \<and>
     (st = RunCompleted \<longleftrightarrow> c \<noteq> None) \<and> ((\<exists>t \<in> set (hr_trajectory (dr_result d)). tj_terminal t) \<longrightarrow> c \<noteq> None)"

lemma trajectory_ok_extend:
  assumes "trajectory_ok p n ts" "\<forall>t \<in> set ts. \<not> tj_terminal t" "length steps \<le> 1"
    "\<forall>t \<in> set steps. step_says (n + 1) role acc terminal t" "steps \<noteq> [] \<longrightarrow> is_learner p role"
  shows "trajectory_ok p (n + 1) (ts @ steps)"
proof (cases steps)
  case Nil
  then show ?thesis using assms(1) by (force simp: trajectory_ok_def)
next
  case (Cons t rest)
  then show ?thesis
    using assms by (auto simp: trajectory_ok_def step_says_def sorted_wrt_append butlast_append less_Suc_eq_le
        intro: le_SucI)
qed

lemma decided_ok:
  assumes "drive_ok H p s0 d" "settled H p d" "undecided H p d"
    "hr_decisions (dr_result d) < lim_decisions (hp_limits p)"
    "decided H p (dr_role d) (counted d) d' r k acc rj ms steps terminal"
  shows "drive_ok H p s0 d'" "r = Ok None \<Longrightarrow> settled H p d' \<and> undecided H p d'"
    "r = Ok (Some (st, c)) \<Longrightarrow> ended H p d' st c"
proof -
  let ?r = "dr_result d" and ?r' = "dr_result d'"
  note dec = assms(5) [unfolded decided_def counted_fields]
  have acts: "k = 1 \<longrightarrow> (\<forall>t \<in> set steps. hd_action_json H (fst (last (dr_played d'))) = Ok (tj_action t))"
    using dec by (simp add: effect_def)
  have eff: "moved H (dr_role d) (counted d) d' k" "hr_decisions ?r' = hr_decisions ?r + 1"
      "hr_accepted ?r' = hr_accepted ?r + acc" "hr_rejected ?r' = hr_rejected ?r + rj"
      "hr_messages ?r' = hr_messages ?r + ms" "hr_trajectory ?r' = hr_trajectory ?r @ steps"
      "hr_completion ?r' = hr_completion ?r" "hr_run ?r' = hr_run ?r" "hr_plan ?r' = hr_plan ?r"
    using dec by (simp_all add: effect_def)
  have bounds: "acc + rj \<le> 1" "ms \<le> 1" "k \<le> acc" "length steps \<le> 1" using dec by simp_all
  have says: "\<forall>t \<in> set steps. step_says (hr_decisions ?r + 1) (dr_role d) (acc = 1) terminal t"
    and learner: "steps \<noteq> [] \<longrightarrow> is_learner p (dr_role d)" using dec by simp_all
  have play: "accepted_play (hd_game H) (dr_played d') s0 = Ok (dr_state d')"
    using eff(1) assms(1) by (auto simp: moved_def drive_ok_def accepted_play_def ofold_append)
  have len: "length (dr_played d') = length (dr_played d) + k" using eff(1) by (auto simp: moved_def)
  have acc: "hr_accepted ?r = length (dr_played d)" using assms(2) by (simp add: settled_def)
  have traj: "trajectory_ok p (hr_decisions ?r') (hr_trajectory ?r')"
    unfolding eff using assms(1,3) bounds(4) says learner
    by (intro trajectory_ok_extend) (auto simp: drive_ok_def undecided_def)
  show "drive_ok H p s0 d'"
    unfolding drive_ok_def obeys_def
    using play traj assms(1,3,4) eff(2-5,7-9) bounds len acc by (auto simp: drive_ok_def obeys_def undecided_def)
  have settled: "settled H p d'" if "k = acc" "acc = 1 \<longrightarrow> is_learner p (dr_role d) \<longrightarrow> steps \<noteq> []"
  proof -
    obtain ms where played: "dr_played d' = dr_played d @ ms"
        "ms = [] \<and> k = 0 \<or> k = 1 \<and> (\<exists>a. ms = [(a, dr_role d)])"
      using eff(1) by (auto simp: moved_def)
    have "list_all2 (tells H) (filter tj_accepted steps) (filter (\<lambda>x. is_learner p (snd x)) ms)"
      using played that bounds(1,4) says learner acts by (cases steps) (auto simp: step_says_def tells_def)
    then show ?thesis
      using assms(2) eff(3,6) that(1) len played(1) by (auto simp: settled_def intro: list_all2_appendI)
  qed
  have old: "\<forall>t \<in> set (hr_trajectory ?r). \<not> tj_terminal t" using assms(3) by (simp add: undecided_def)
  have new: "\<forall>t \<in> set steps. tj_terminal t = terminal" using says by (simp add: step_says_def)
  show "settled H p d' \<and> undecided H p d'" if "r = Ok None"
  proof -
    from dec [unfolded that]
    have "k = acc" "acc = 1 \<longrightarrow> is_learner p (dr_role d) \<longrightarrow> steps \<noteq> []" "\<not> terminal"
      "g_completion (hd_game H) (dr_state d') = None" "hr_accepted ?r' < lim_accepted (hp_limits p)"
      "hr_messages ?r' < lim_messages (hp_limits p)" "hr_rejected ?r' < lim_rejected (hp_limits p)"
      by simp_all
    then show ?thesis using settled old new unfolding undecided_def eff(6) set_append by blast
  qed
  show "ended H p d' st c" if "r = Ok (Some (st, c))"
  proof -
    from dec [unfolded that]
    have "k = acc" "acc = 1 \<longrightarrow> is_learner p (dr_role d) \<longrightarrow> steps \<noteq> []" "st \<noteq> RunFailed"
      "c = g_completion (hd_game H) (dr_state d')" "st = RunCompleted \<longleftrightarrow> c \<noteq> None" "terminal \<longleftrightarrow> c \<noteq> None"
      by simp_all
    then show ?thesis using settled old new unfolding ended_def eff(6) set_append by blast
  qed
qed

lemma drive_loop_ok:
  assumes "drive_loop H p sch d = (d', r)" "r \<noteq> Panic" "drive_ok H p s0 d" "settled H p d" "undecided H p d"
  shows "drive_ok H p s0 d' \<and> (\<forall>st c. r = Ok (st, c) \<longrightarrow> ended H p d' st c)"
  using assms
proof (induction H p sch d arbitrary: d' r rule: drive_loop.induct)
  case (1 H p sch d)
  obtain d1 x where step: "decision_step H p sch d = (d1, x)" by (cases "decision_step H p sch d")
  note loop = 1(2) [unfolded drive_loop.simps [of H p sch d] step prod.case]
  have "x \<noteq> Panic" using loop 1(3) by auto
  have compl: "g_completion (hd_game H) (dr_state d) = None" using 1(6) by (simp add: undecided_def)
  from decision_step_effect [OF step \<open>x \<noteq> Panic\<close> compl] show ?case
  proof (elim disjE conjE exE)
    fix st
    assume st: "d1 = d" "x = Ok (Some (st, None))" "st \<noteq> RunFailed" "st \<noteq> RunCompleted"
    then have "d' = d" "r = Ok (st, None)" using loop by simp_all
    moreover have "ended H p d st None" using st(3,4) 1(5,6) compl by (simp add: ended_def undecided_def)
    ultimately show ?thesis using 1(4) by simp
  next
    fix k acc rj ms steps terminal
    assume dec: "hr_decisions (dr_result d) < lim_decisions (hp_limits p)"
      "decided H p (dr_role d) (counted d) d1 x k acc rj ms steps terminal"
    note ok = decided_ok [OF 1(4-6) dec]
    show ?thesis
    proof (cases "x = Ok None")
      case True
      then have "drive_loop H p sch d1 = (d', r)" using loop by simp
      from 1(1) [OF step [symmetric] True refl this 1(3) ok(1)] ok(2) [OF True] show ?thesis by blast
    next
      case False
      then show ?thesis using loop ok(1,3) \<open>x \<noteq> Panic\<close> by (cases x) auto
    qed
  qed
qed

definition positive_limits :: "session_limits \<Rightarrow> bool" where
  "positive_limits l \<longleftrightarrow> 0 < lim_accepted l \<and> 0 < lim_messages l \<and> 0 < lim_rejected l"

lemma validated_positive: "validate_limits l = Ok () \<Longrightarrow> positive_limits l"
  by (auto simp: validate_limits_def positive_limits_def split: if_splits)

lemma fresh_drive:
  assumes "dr_result d = fresh_result p" "dr_played d = []" "dr_state d = s0"
  shows "drive_ok H p s0 d" "settled H p d"
    "positive_limits (hp_limits p) \<Longrightarrow> g_completion (hd_game H) s0 = None \<Longrightarrow> undecided H p d"
    "g_completion (hd_game H) s0 = Some c \<Longrightarrow> ended H p d RunCompleted (Some c)"
  using assms by (simp_all add: drive_ok_def settled_def undecided_def ended_def fresh_result_def accepted_play_def
      obeys_def trajectory_ok_def positive_limits_def)

lemma drive_session_ok:
  assumes "drive_session H p d = (d', r)" "r \<noteq> Panic" "positive_limits (hp_limits p)"
    "dr_result d = fresh_result p" "dr_played d = []" "dr_state d = s0"
  shows "drive_ok H p s0 d' \<and> (\<forall>st c. r = Ok (st, c) \<longrightarrow> ended H p d' st c)"
  using assms(1) [unfolded drive_session_def]
proof (cases rule: and_thenE)
  case (fails e)
  show ?thesis
    using fresh_drive(1) [of d' p s0 H] calm_fields [OF each_role_calm [OF fails(1)]] assms(4-6) fails(2) by simp
next
  case (continues d1 u)
  have d1: "dr_result d1 = fresh_result p" "dr_played d1 = []" "dr_state d1 = s0"
    using calm_fields [OF each_role_calm [OF continues(1)]] assms(4-6) by simp_all
  show ?thesis
  proof (cases "g_completion (hd_game H) s0")
    case (Some c)
    from continues(2) [unfolded d1(3) Some option.case] show ?thesis
    proof (cases rule: and_thenE)
      case (fails e)
      show ?thesis
        using fresh_drive(1) [of d' p s0 H] calm_fields [OF finish_agents_calm [OF fails(1)]] d1 fails(2) by simp
    next
      case (continues d2 u)
      then have "dr_result d' = fresh_result p" "dr_played d' = []" "dr_state d' = s0" "r = Ok (RunCompleted, Some c)"
        using calm_fields [OF finish_agents_calm [OF continues(1)]] d1 by auto
      then show ?thesis using fresh_drive(1) [of d' p s0 H] fresh_drive(4) [of d' p s0 H c] Some by simp
    qed (use assms(2) in simp)
  next
    case None
    show ?thesis
    proof (cases "hp_schedule p")
      case (Ok sch)
      let ?d = "d1\<lparr>dr_schedule := sch_state sch, dr_role := sch_first sch\<rparr>"
      have d: "dr_result ?d = fresh_result p" "dr_played ?d = []" "dr_state ?d = s0" using d1 by simp_all
      have "drive_loop H p (sch_next sch) ?d = (d', r)"
        using continues(2) None d1 Ok by simp
      then show ?thesis
        by (rule drive_loop_ok [OF _ assms(2) fresh_drive(1,2) [OF d] fresh_drive(3) [OF d assms(3) None]])
    next
      case (Err e)
      then show ?thesis using continues(2) None d1 fresh_drive(1) [OF d1] by auto
    next
      case Panic
      then show ?thesis using continues(2) None d1 assms(2) by auto
    qed
  qed
qed (use assms(2) in simp)

text \<open>How a result comes about: early, or from the driver.\<close>

lemma run_session_cases:
  assumes "run_session H k p = Some r"
  obtains (early) ph role e cleanup where "r = failed_early p ph role e cleanup"
  | (driven) s ms d x where "g_initial (hd_game H) (hp_config p) (hp_game_seed p) (hp_secrets p) = Ok s"
      "drive_session H p (first_drive p s ms k) = (d, x)" "close_session H (d, x) = Some r"
proof -
  have "(\<exists>ph role e cleanup. r = failed_early p ph role e cleanup) \<or>
    (\<exists>s ms. g_initial (hd_game H) (hp_config p) (hp_game_seed p) (hp_secrets p) = Ok s \<and>
      close_session H (drive_session H p (first_drive p s ms k)) = Some r)"
    using assms by (auto simp: run_session_def Let_def split: outcome.splits)
  then show thesis using early driven by (metis prod.collapse)
qed

lemma close_session_Some:
  assumes "close_session H (d, x) = Some r"
  shows "x \<noteq> Panic" "\<exists>st c ph role dg cl. r = (dr_result d)\<lparr>hr_status := st, hr_completion := c,
    hr_failure_phase := ph, hr_failure_role := role, hr_diagnostic := dg, hr_cleanup := cl\<rparr>"
  "hr_status r \<noteq> RunFailed \<Longrightarrow> x = Ok (hr_status r, hr_completion r)"
proof -
  show "x \<noteq> Panic" using assms by (auto simp: close_session_def)
  show "hr_status r \<noteq> RunFailed \<Longrightarrow> x = Ok (hr_status r, hr_completion r)"
    using assms by (auto simp: close_session_def record_failure_def split: outcome.splits)
  show "\<exists>st c ph role dg cl. r = (dr_result d)\<lparr>hr_status := st, hr_completion := c,
      hr_failure_phase := ph, hr_failure_role := role, hr_diagnostic := dg, hr_cleanup := cl\<rparr>"
  proof (intro exI)
    show "r = (dr_result d)\<lparr>hr_status := hr_status r, hr_completion := hr_completion r,
      hr_failure_phase := hr_failure_phase r, hr_failure_role := hr_failure_role r,
      hr_diagnostic := hr_diagnostic r, hr_cleanup := hr_cleanup r\<rparr>"
      using assms by (auto simp: close_session_def record_failure_def split: outcome.splits)
  qed
qed

section \<open>No panic\<close>

text \<open>Encoders that never panic, and actions that can always be encoded.\<close>

definition encoders_total :: "('cfg, 's, 'a, 'obs, 'c, 'm, 'w) headless \<Rightarrow> bool" where
  "encoders_total H \<longleftrightarrow> (\<forall>x. hd_observation_json H x \<noteq> Panic) \<and> (\<forall>x. hd_available_json H x \<noteq> Panic) \<and>
     (\<forall>a. is_ok (hd_action_json H a))"

text \<open>A reward function that never panics, and agents that do not.\<close>

definition rewards_total :: "('cfg, 's, 'a, 'c, 'k, 'w) session_plan \<Rightarrow> bool" where
  "rewards_total p \<longleftrightarrow> (\<forall>cap s s' role a c. hp_capture p = Some cap \<longrightarrow> tc_rewards cap s s' role a c \<noteq> None)"

definition agents_unwind :: "('cfg, 's, 'a, 'obs, 'c, 'm, 'w) headless \<Rightarrow> bool" where
  "agents_unwind H \<longleftrightarrow>
     (\<exists>seat. hd_create H seat = Panicked) \<or> (\<exists>m. ac_shutdown (hd_agent H) m = Panicked) \<or>
     (\<exists>m ob. snd (ac_start (hd_agent H) m ob) = Panicked) \<or>
     (\<exists>m role a ob. snd (ac_transition (hd_agent H) m role a ob) = Panicked) \<or>
     (\<exists>m role t. snd (ac_message (hd_agent H) m role t) = Panicked) \<or>
     (\<exists>m c. snd (ac_finish (hd_agent H) m c) = Panicked) \<or>
     (\<exists>m as. snd (ac_respond (hd_agent H) m as) = Panicked)"

lemma calm_agents:
  assumes "\<not> agents_unwind H"
  shows "create_agent H seat \<noteq> Panic" "shutdown_agent (hd_agent H) m \<noteq> None" "shutdown_agents (hd_agent H) ms \<noteq> None"
    "finish_agents (hd_agent H) c d \<noteq> (d', Panic)" "deliver_message (hd_agent H) sender t d \<noteq> (d', Panic)"
    "each_role ph (\<lambda>r m. ac_start (hd_agent H) m (f r)) d \<noteq> (d', Panic)"
    "each_role ph (\<lambda>r m. ac_transition (hd_agent H) m actor a (f r)) d \<noteq> (d', Panic)"
    "invoke ph role (\<lambda>m. ac_respond (hd_agent H) m as) d \<noteq> (d', Panic)"
proof -
  note unw = assms [unfolded agents_unwind_def]
  show "create_agent H seat \<noteq> Panic" using unw by (auto simp: create_agent_def split: callback.split)
  have down: "shutdown_agent (hd_agent H) m \<noteq> None" for m
    using unw by (auto simp: shutdown_agent_def split: callback.split)
  obtain xs ys where "shutdown_agent (hd_agent H) (ms RoleA) = Some xs" "shutdown_agent (hd_agent H) (ms RoleB) = Some ys"
    using down by blast
  then show "shutdown_agents (hd_agent H) ms \<noteq> None" by (simp add: shutdown_agents_def)
  show "shutdown_agent (hd_agent H) m \<noteq> None" by (rule down)
  show "finish_agents (hd_agent H) c d \<noteq> (d', Panic)" "deliver_message (hd_agent H) sender t d \<noteq> (d', Panic)"
    "each_role ph (\<lambda>r m. ac_start (hd_agent H) m (f r)) d \<noteq> (d', Panic)"
    "each_role ph (\<lambda>r m. ac_transition (hd_agent H) m actor a (f r)) d \<noteq> (d', Panic)"
    "invoke ph role (\<lambda>m. ac_respond (hd_agent H) m as) d \<noteq> (d', Panic)"
    using unw by (auto simp: finish_agents_def deliver_message_def dest!: each_role_panic invoke_panic)
qed

lemma record_trajectory_no_panic:
  assumes "encoders_total H" "rewards_total p"
  shows "record_trajectory H p s actor a input out d \<noteq> (d', Panic)"
proof -
  have e: "hd_observation_json H x \<noteq> Panic" "hd_action_json H a \<noteq> Panic" for x
    using assms(1) by (auto simp: encoders_total_def is_ok_iff) (metis outcome.distinct(3))
  have rw: "hp_capture p = Some cap \<Longrightarrow> tc_rewards cap s s' role b c = None \<Longrightarrow> False" for cap s s' role b c
    using assms(2) unfolding rewards_total_def by metis
  show ?thesis
    by (auto simp: record_trajectory_def Let_def encoded_def e
        split: option.splits trajectory_outcome.splits elim!: and_thenE dest: rw)
qed

lemma record_trace_no_panic:
  assumes "encoders_total H"
  shows "record_trace H role response e input d \<noteq> (d', Panic)"
proof -
  have "\<forall>a. \<exists>j. hd_action_json H a = Ok j" using assms by (simp add: encoders_total_def is_ok_iff)
  then obtain f where f: "\<And>a. hd_action_json H a = Ok (f a)" by metis
  have "response_json H response \<noteq> Panic"
    by (auto simp: response_json_def Let_def f split: option.split agent_response.split)
  then show ?thesis by (auto simp: record_trace_def split: option.split outcome.split)
qed

lemma settle_no_panic:
  assumes "encoders_total H" "rewards_total p" "\<not> agents_unwind H"
    "\<And>a role. g_apply (hd_game H) (dr_state d) a role \<noteq> Panic"
  shows "settle_response H p sch role input response d \<noteq> (d', Panic)"
proof -
  have ap: "apply_agent_action H p role a m i d \<noteq> (e, Panic)" for a m i e
    using assms(4) [of a role]
    by (cases "g_apply (hd_game H) (dr_state d) a role")
      (auto simp: apply_agent_action_def Let_def calm_agents [OF assms(3)] record_trajectory_no_panic [OF assms(1,2)]
        split: option.splits elim!: and_thenE)
  have "perform_response H p role response i d \<noteq> (e, Panic)" for i e
    by (auto simp: perform_response_def calm_agents [OF assms(3)] ap split: option.splits prod.splits elim!: and_thenE)
  moreover have "conclude H p sch response c rej d1 \<noteq> (e, Panic)" for c rej d1 e
    by (auto simp: conclude_def calm_agents [OF assms(3)] split: option.splits if_splits prod.splits elim!: and_thenE)
  ultimately show ?thesis
    by (auto simp: settle_response_def record_trace_no_panic [OF assms(1)] elim!: and_thenE)
qed

lemma decision_step_no_panic:
  assumes "encoders_total H" "rewards_total p" "\<not> agents_unwind H"
    "\<And>a role. g_apply (hd_game H) (dr_state d) a role \<noteq> Panic"
  shows "decision_step H p sch d \<noteq> (d', Panic)"
proof -
  have input: "decision_input H p role d1 \<noteq> (e, Panic)" for role d1 e
    using assms(1) by (auto simp: decision_input_def Let_def encoders_total_def encoded_def elim!: and_thenE split: if_splits)
  show ?thesis
  proof
    assume "decision_step H p sch d = (d', Panic)"
    then have "and_then (decision_input H p (dr_role d) (counted d)) (\<lambda>input d1.
        and_then (invoke ''respond'' (dr_role d)
            (\<lambda>m. ac_respond (hd_agent H) m (g_available (hd_game H) (dr_state d) (dr_role d))) d1) (\<lambda>response d2.
          settle_response H p sch (dr_role d) input response d2)) = (d', Panic)"
      by (auto simp: decision_step_def Let_def split: if_splits)
    then obtain d1 i d2 response f where "decision_input H p (dr_role d) (counted d) = (d1, Ok i)"
        and inv: "invoke ''respond'' (dr_role d) f d1 = (d2, Ok response)"
        and st: "settle_response H p sch (dr_role d) i response d2 = (d', Panic)"
      using input by (auto simp: calm_agents [OF assms(3)] elim!: and_thenE)
    then have "dr_state d2 = dr_state d"
      using decision_input_calm [of H p "dr_role d" "counted d"] calm_fields(1) [OF invoke_calm [OF inv]] by simp
    then show False using settle_no_panic [OF assms(1-3), of d2] assms(4) st by simp
  qed
qed

lemma drive_loop_no_panic:
  assumes "encoders_total H" "rewards_total p" "\<not> agents_unwind H" "\<forall>s a role. I s \<longrightarrow> g_apply (hd_game H) s a role \<noteq> Panic"
    "\<forall>s a role s'. I s \<longrightarrow> g_apply (hd_game H) s a role = Ok s' \<longrightarrow> I s'"
    "I (dr_state d)" "g_completion (hd_game H) (dr_state d) = None"
  shows "drive_loop H p sch d \<noteq> (d', Panic)"
  using assms
proof (induction H p sch d rule: drive_loop.induct)
  case (1 H p sch d)
  obtain d1 x where step: "decision_step H p sch d = (d1, x)" by (cases "decision_step H p sch d")
  have np: "x \<noteq> Panic" using decision_step_no_panic [OF 1(2-4), of d sch d1] 1(5,7) step by auto
  show ?case
  proof (cases "x = Ok None")
    case True
    from decision_step_effect [OF step np 1(8)] True obtain k acc rj ms steps terminal where
        dec: "decided H p (dr_role d) (counted d) d1 x k acc rj ms steps terminal"
      by auto
    then have "moved H (dr_role d) (counted d) d1 k" "g_completion (hd_game H) (dr_state d1) = None"
      using True by (auto simp: decided_def effect_def)
    moreover from this have "I (dr_state d1)" using 1(6,7) by (auto simp: moved_def)
    ultimately have "drive_loop H p sch d1 \<noteq> (d', Panic)"
      using 1(1) [OF step [symmetric] True refl 1(2-6)] by blast
    then show ?thesis using step True by (simp add: drive_loop.simps [of H p sch d])
  next
    case False
    then show ?thesis using step np by (auto simp: drive_loop.simps [of H p sch d] split: outcome.splits option.splits)
  qed
qed

lemma drive_session_no_panic:
  assumes "encoders_total H" "rewards_total p" "\<not> agents_unwind H" "hp_schedule p \<noteq> Panic" "game_rules (hd_game H) I" "I (dr_state d)"
  shows "drive_session H p d \<noteq> (d', Panic)"
proof
  assume "drive_session H p d = (d', Panic)"
  from this [unfolded drive_session_def] show False
  proof (cases rule: and_thenE)
    case panics
    then show ?thesis by (simp add: calm_agents [OF assms(3)])
  next
    case (continues d1 u)
    have "I (dr_state d1)" using assms(6) calm_fields(1) [OF each_role_calm [OF continues(1)]] by simp
    note rules = game_rules.apply_no_panic [OF assms(5)] game_rules.apply_inv [OF assms(5)]
    have loop: "drive_loop H p (sch_next sch) (d1\<lparr>dr_schedule := sch_state sch, dr_role := sch_first sch\<rparr>) \<noteq> (d', Panic)"
      if "g_completion (hd_game H) (dr_state d1) = None" for sch
      by (rule drive_loop_no_panic [OF assms(1-3), of I]) (use rules that \<open>I (dr_state d1)\<close> in auto)
    show ?thesis
    proof (cases "g_completion (hd_game H) (dr_state d1)")
      case (Some c)
      then show ?thesis using continues(2) by (auto simp: calm_agents [OF assms(3)] elim!: and_thenE)
    next
      case None
      then show ?thesis using continues(2) assms(4) loop by (cases "hp_schedule p") auto
    qed
  qed simp
qed

section \<open>Properties\<close>

lemma failed_early_ok:
  "obeys l (failed_early p ph role e cleanup)" "hr_accepted (failed_early p ph role e cleanup) = 0"
  "hr_rejected (failed_early p ph role e cleanup) = 0" "hr_messages (failed_early p ph role e cleanup) = 0"
  "hr_trajectory (failed_early p ph role e cleanup) = []" "hr_status (failed_early p ph role e cleanup) = RunFailed"
  by (simp_all add: failed_early_def record_failure_def fresh_result_def obeys_def)

lemma run_session_ok:
  assumes "validate_limits (hp_limits p) = Ok ()" "run_session H k p = Some r"
  obtains (early) ph role e cleanup where "r = failed_early p ph role e cleanup"
  | (driven) s d where "g_initial (hd_game H) (hp_config p) (hp_game_seed p) (hp_secrets p) = Ok s"
      "drive_ok H p s d" "\<exists>st c ph role dg cl. r = (dr_result d)\<lparr>hr_status := st, hr_completion := c,
        hr_failure_phase := ph, hr_failure_role := role, hr_diagnostic := dg, hr_cleanup := cl\<rparr>"
      "hr_status r \<noteq> RunFailed \<Longrightarrow> ended H p d (hr_status r) (hr_completion r)"
  using assms(2)
proof (cases rule: run_session_cases)
  case (driven s ms d x)
  note c = close_session_Some [OF driven(3)]
  have "drive_ok H p s d \<and> (\<forall>st c. x = Ok (st, c) \<longrightarrow> ended H p d st c)"
    by (rule drive_session_ok [OF driven(2) c(1) validated_positive [OF assms(1)]]) (simp_all add: first_drive_def)
  then show ?thesis using that(2) [OF driven(1) _ c(2)] c(3) by blast
qed (use that in blast)

text \<open>A session stays within its limits however it ends, failures included: its decisions,
  accepted actions, rejected actions and messages do not exceed the plan's limits, and every action and
  every message has a decision of its own.\<close>

theorem session_keeps_its_limits:
  assumes "validate_limits (hp_limits p) = Ok ()" "run_session H k p = Some r"
  shows "obeys (hp_limits p) r \<and> hr_accepted r + hr_rejected r \<le> hr_decisions r \<and> hr_messages r \<le> hr_decisions r"
  using assms
proof (cases rule: run_session_ok)
  case (early ph role e cleanup)
  then show ?thesis by (simp add: failed_early_ok)
next
  case (driven s d)
  then show ?thesis by (auto simp: drive_ok_def obeys_def)
qed

text \<open>C12 (refinement). The result of a session that did not fail rests on a play of the game: from the
  initial state of the plan there is a sequence of moves, each accepted by the game from the role that made
  it, as long as the count of accepted actions; the completion reported is the game's in the state reached,
  and the status says completed exactly when there is one. The accepted steps of the trajectory are the
  learner's moves of that play, in order and without a gap: each names the role of its move and holds the
  encoding of its action.\<close>

theorem result_rests_on_play:
  assumes "validate_limits (hp_limits p) = Ok ()" "run_session H k p = Some r" "hr_status r \<noteq> RunFailed"
  shows "\<exists>s0 xs s. g_initial (hd_game H) (hp_config p) (hp_game_seed p) (hp_secrets p) = Ok s0 \<and>
    accepted_play (hd_game H) xs s0 = Ok s \<and> length xs = hr_accepted r \<and>
    hr_completion r = g_completion (hd_game H) s \<and> (hr_status r = RunCompleted \<longleftrightarrow> hr_completion r \<noteq> None) \<and>
    list_all2 (\<lambda>t x. tj_role t = snd x \<and> hd_action_json H (fst x) = Ok (tj_action t))
      (filter tj_accepted (hr_trajectory r)) (filter (\<lambda>x. is_learner p (snd x)) xs)"
  using assms(1,2)
proof (cases rule: run_session_ok)
  case (early ph role e cleanup)
  then show ?thesis using assms(3) by (simp add: failed_early_ok)
next
  case (driven s d)
  from driven(3) have "hr_accepted r = hr_accepted (dr_result d)" "hr_trajectory r = hr_trajectory (dr_result d)" by auto
  then show ?thesis
    using driven(1,2) driven(4) [OF assms(3)] by (auto simp: drive_ok_def ended_def settled_def tells_def [abs_def])
qed

text \<open>The trajectory of a session holds the learner's actions only: its decisions ascend
  and none is above the count of decisions, each step is of a seat of the learner, a step has rewards
  exactly when the action was accepted and a rejection otherwise, and only the last step can be terminal,
  which in a session that did not fail means that the game was completed.\<close>

theorem trajectory_is_the_learners:
  assumes "validate_limits (hp_limits p) = Ok ()" "run_session H k p = Some r"
  shows "trajectory_ok p (hr_decisions r) (hr_trajectory r) \<and>
    ((\<exists>t \<in> set (hr_trajectory r). tj_terminal t) \<longrightarrow> hr_status r = RunCompleted \<or> hr_status r = RunFailed)"
  using assms
proof (cases rule: run_session_ok)
  case (early ph role e cleanup)
  then show ?thesis by (simp add: failed_early_ok trajectory_ok_def)
next
  case (driven s d)
  from driven(3) have "hr_decisions r = hr_decisions (dr_result d)" "hr_trajectory r = hr_trajectory (dr_result d)" by auto
  moreover have "(\<exists>t \<in> set (hr_trajectory (dr_result d)). tj_terminal t) \<longrightarrow> hr_status r = RunCompleted"
    if "hr_status r \<noteq> RunFailed"
    using driven(4) [OF that] unfolding ended_def by blast
  ultimately show ?thesis using driven(2) by (auto simp: drive_ok_def)
qed

text \<open>C13 (termination). A headless session in which nothing panics reports a result, and the loop ends within
  the limit of decisions: agents may refuse to start, raise errors, exceed their timeouts, play what the game
  rejects, send messages for ever or fail to shut down, whatever they answer. The premises are that the game
  keeps the contract of games, that no callback of an agent, no creation of one and no reward panics, that
  the factory, the schedule and the encoders do not panic, and that actions can be encoded; a panic is
  not caught, and unwinds the session without a result.\<close>

theorem session_always_reports:
  assumes "validate_limits (hp_limits p) = Ok ()" "game_rules (hd_game H) I" "encoders_total H"
    "\<not> agents_unwind H" "rewards_total p" "hd_game_factory H \<noteq> Panic" "hp_schedule p \<noteq> Panic"
    "g_initial (hd_game H) (hp_config p) (hp_game_seed p) (hp_secrets p) \<noteq> Panic"
    "\<And>s. g_initial (hd_game H) (hp_config p) (hp_game_seed p) (hp_secrets p) = Ok s \<Longrightarrow> I s"
  shows "\<exists>r. run_session H k p = Some r \<and> hr_decisions r \<le> lim_decisions (hp_limits p)"
proof -
  have "close_session H (drive_session H p (first_drive p s ms k)) \<noteq> None"
    if "g_initial (hd_game H) (hp_config p) (hp_game_seed p) (hp_secrets p) = Ok s" for s ms
    using drive_session_no_panic [OF assms(3,5,4,7,2), of "first_drive p s ms k"] assms(9) [OF that] calm_agents(3) [OF assms(4)]
    by (auto simp: close_session_def first_drive_def split: prod.split outcome.split)
  then have "run_session H k p \<noteq> None"
    using assms(6,8) calm_agents(1-3) [OF assms(4)] by (auto simp: run_session_def Let_def split: outcome.splits)
  then show ?thesis using session_keeps_its_limits [OF assms(1)] by (auto simp: obeys_def)
qed

text \<open>The result names the run and the plan it belongs to.\<close>

lemma run_session_identity:
  assumes "validate_limits (hp_limits p) = Ok ()" "run_session H k p = Some r"
  shows "hr_run r = hp_run p \<and> hr_plan r = hp_plan p"
  using assms
proof (cases rule: run_session_ok)
  case (early ph role e cleanup)
  then show ?thesis by (simp add: failed_early_def record_failure_def fresh_result_def)
next
  case (driven s d)
  then show ?thesis by (auto simp: drive_ok_def)
qed

section \<open>A concrete session\<close>

text \<open>Two agents that take the first action offered play the cue-choice game; A is the learner.\<close>

definition eager_agent :: "(nat, 'a, 'obs, 'c) agent_callbacks" where
  "eager_agent = \<lparr>ac_start = (\<lambda>m ob. (m, Returned ())), ac_transition = (\<lambda>m r a ob. (m, Returned ())),
     ac_message = (\<lambda>m r t. (m, Returned ())), ac_finish = (\<lambda>m c. (m, Returned ())),
     ac_respond = (\<lambda>m av. (m + 1, Returned (case av of Some (a # as) \<Rightarrow> Some (ActionOnly a) | _ \<Rightarrow> None))),
     ac_shutdown = (\<lambda>m. Returned ())\<rparr>"

fun demo_action_json :: "cue_choice_action \<Rightarrow> json" where
  "demo_action_json Deal = JStr ''deal''"
| "demo_action_json (Choose c) = JStr ''choose''"

definition demo_headless ::
    "(cue_choice_config, cue_choice_state, cue_choice_action, cue_choice_observation, cue_choice_completion, nat, nat)
      headless" where
  "demo_headless = \<lparr>hd_game = cue_choice, hd_game_factory = Ok (), hd_create = (\<lambda>seat. Returned 0),
     hd_agent = eager_agent, hd_late = (\<lambda>n. False), hd_observation_json = (\<lambda>ob. Ok JNull),
     hd_available_json = (\<lambda>av. Ok JNull), hd_action_json = (\<lambda>a. Ok (demo_action_json a))\<rparr>"

definition demo_seat :: "player_role \<Rightarrow> resolved_seat" where
  "demo_seat role = \<lparr>rs_name = (case role of RoleA \<Rightarrow> ''learner'' | RoleB \<Rightarrow> ''dealer''), rs_factory = ''f'',
     rs_settings = JObj [], rs_settings_fingerprint = ''x'', rs_secrets = (Map.empty, Map.empty),
     rs_identity = \<lparr>ai_name = ''n'', ai_version = ''1''\<rparr>,
     rs_checkpoint = None, rs_role = role, rs_seed = 7\<rparr>"

definition demo_plan ::
    "(cue_choice_config, cue_choice_state, cue_choice_action, cue_choice_completion, player_role option, nat) session_plan" where
  "demo_plan = \<lparr>hp_run = ''run'', hp_plan = ''plan'', hp_phase = ''evaluate'', hp_phase_index = 0,
     hp_scenario = ''s'', hp_game_id = ''cue-choice'', hp_game_version = ''1'', hp_config_fingerprint = ''c'',
     hp_config = \<lparr>cc_level = Dax\<rparr>, hp_game_seed = 7, hp_secrets = Map.empty, hp_seats = demo_seat,
     hp_schedule_kind = ''alternate_after_action'', hp_schedule = Ok (alternate_after_action RoleB),
     hp_limits = default_limits, hp_trace = TraceResults,
     hp_capture = Some \<lparr>tc_learner = ''learner'', tc_checkpoint = ''0'', tc_reward = ''score'', tc_reward_version = ''1'',
       tc_rewards = (\<lambda>before after r a c. Some (case c of None \<Rightarrow> 0 | Some x \<Rightarrow> if comp_correct x then 1 else 0))\<rparr>\<rparr>"

definition demo_result :: "(cue_choice_completion, nat) session_result" where
  "demo_result = the (run_session demo_headless None demo_plan)"

text \<open>Plans that differ from it in their identity only.\<close>

definition demo_like ::
    "(cue_choice_config, cue_choice_state, cue_choice_action, cue_choice_completion, player_role option, nat) session_plan
      \<Rightarrow> bool" where
  "demo_like p \<longleftrightarrow> (\<forall>role. is_learner p role \<longleftrightarrow> role = RoleA) \<and> hp_capture p \<noteq> None \<and> rewards_total p \<and> hp_limits p = default_limits \<and>
     hp_trace p = TraceResults \<and> hp_schedule p = Ok (alternate_after_action RoleB) \<and>
     hp_config p = \<lparr>cc_level = Dax\<rparr> \<and> hp_game_seed p = 7 \<and> hp_secrets p = Map.empty"

lemma demo_like_demo: "demo_like demo_plan"
  by (auto simp: demo_like_def is_learner_def demo_plan_def demo_seat_def rewards_total_def split: player_role.splits)

lemma demo_like_fields:
  assumes "demo_like p"
  shows "is_learner p role \<longleftrightarrow> role = RoleA" "hp_limits p = default_limits" "hp_trace p = TraceResults"
    "hp_schedule p = Ok (alternate_after_action RoleB)" "hp_config p = \<lparr>cc_level = Dax\<rparr>" "hp_game_seed p = 7"
    "hp_secrets p = Map.empty"
  using assms by (simp_all add: demo_like_def)

lemmas demo_plan_fields [simp] = demo_like_fields [OF demo_like_demo]

lemma demo_fields [simp]:
  "hd_game demo_headless = cue_choice" "hd_game_factory demo_headless = Ok ()" "hd_create demo_headless seat = Returned 0"
  "hd_agent demo_headless = eager_agent" "hd_late demo_headless n = False"
  "hd_observation_json demo_headless ob = Ok JNull" "hd_available_json demo_headless av = Ok JNull"
  "hd_action_json demo_headless a = Ok (demo_action_json a)"
  by (simp_all add: demo_headless_def)

definition demo_at :: "cue_choice_state \<Rightarrow> player_role \<Rightarrow> nat \<Rightarrow>
    (cue_choice_state, cue_choice_action, cue_choice_completion, nat, player_role option, nat) drive \<Rightarrow> bool" where
  "demo_at s role n d \<longleftrightarrow> dr_state d = s \<and> dr_role d = role \<and> hr_decisions (dr_result d) = n \<and>
     hr_accepted (dr_result d) = n \<and> hr_rejected (dr_result d) = 0 \<and> hr_messages (dr_result d) = 0 \<and>
     hr_trace (dr_result d) = None"

lemmas demo_eval = each_role_def invoke_def eager_agent_def on_result_def encoded_def finish_agents_def
  decision_step_def decision_input_def counted_def settle_response_def learner_response_ok_def
  perform_response_def apply_agent_action_def record_trajectory_def record_trace_def conclude_def
  after_action_next_def default_limits_def choice_all_def Let_def

lemma demo_deal:
  assumes "demo_like p" "demo_at (AwaitingDeal l n) RoleB 0 d"
  shows "\<exists>d'. decision_step demo_headless p after_action_next d = (d', Ok None) \<and> demo_at (Choosing l n) RoleA 1 d'"
  using assms(2) demo_like_fields [OF assms(1)] by (simp add: demo_eval demo_at_def cong: and_then_weak_cong)

lemma demo_choose:
  assumes "demo_like p" "demo_at (Choosing l n) RoleA k d" "k < 200"
  shows "\<exists>d' c. decision_step demo_headless p after_action_next d = (d', Ok (Some (RunCompleted, c))) \<and>
    hr_decisions (dr_result d') = k + 1"
proof -
  obtain cap where cap: "hp_capture p = Some cap" using assms(1) by (auto simp: demo_like_def)
  have "tc_rewards cap s s' role a c \<noteq> None" for s s' role a c
    using assms(1) cap by (auto simp: demo_like_def rewards_total_def)
  define f where "f s s' role a c = the (tc_rewards cap s s' role a c)" for s s' role a c
  have "tc_rewards cap s s' role a c = Some (f s s' role a c)" for s s' role a c
    unfolding f_def using \<open>\<And>s s' role a c. tc_rewards cap s s' role a c \<noteq> None\<close> by (rule option.collapse [symmetric])
  with cap show ?thesis using assms(2,3) demo_like_fields [OF assms(1)]
    by (simp add: demo_eval demo_at_def cong: and_then_weak_cong)
qed

lemma demo_loop:
  assumes p: "demo_like p" and "demo_at (AwaitingDeal l n) RoleB 0 d"
  shows "\<exists>d' c. drive_loop demo_headless p after_action_next d = (d', Ok (RunCompleted, c)) \<and>
    hr_decisions (dr_result d') = 2"
proof -
  obtain d1 where d1: "decision_step demo_headless p after_action_next d = (d1, Ok None)" "demo_at (Choosing l n) RoleA 1 d1"
    using demo_deal [OF assms] by blast
  obtain d2 c where d2: "decision_step demo_headless p after_action_next d1 = (d2, Ok (Some (RunCompleted, c)))"
      "hr_decisions (dr_result d2) = 1 + 1"
    using demo_choose [OF p d1(2)] by auto
  have "drive_loop demo_headless p after_action_next d1 = (d2, Ok (RunCompleted, c))"
    by (subst drive_loop.simps) (simp add: d2)
  then have "drive_loop demo_headless p after_action_next d = (d2, Ok (RunCompleted, c))"
    by (subst drive_loop.simps) (simp add: d1)
  then show ?thesis using d2(2) by simp
qed

lemma first_drive_fields [simp]:
  "dr_state (first_drive p s ms k) = s" "dr_result (first_drive p s ms k) = fresh_result p"
  by (simp_all add: first_drive_def)

lemma demo_session:
  assumes p: "demo_like p"
  shows "\<exists>r. run_session demo_headless None p = Some r \<and> hr_status r = RunCompleted \<and> hr_decisions r = 2"
proof -
  note fields = demo_like_fields [OF p]
  have drives: "\<exists>d2 c. drive_session demo_headless p (first_drive p (AwaitingDeal Dax (trial_nonce 7)) ms None) =
    (d2, Ok (RunCompleted, c)) \<and> hr_decisions (dr_result d2) = 2" for ms
  proof -
    obtain d1 where d1: "each_role ''start'' (\<lambda>r m. ac_start (hd_agent demo_headless) m (cc_observation (AwaitingDeal Dax (trial_nonce 7)) r))
        (first_drive p (AwaitingDeal Dax (trial_nonce 7)) ms None) = (d1, Ok ())"
      by (simp add: each_role_def invoke_def eager_agent_def)
    note f = calm_fields [OF each_role_calm [OF d1]]
    have "demo_at (AwaitingDeal Dax (trial_nonce 7)) RoleB 0 (d1\<lparr>dr_schedule := None, dr_role := RoleB\<rparr>)"
      using f fields(3) by (simp add: demo_at_def fresh_result_def)
    from demo_loop [OF p this] show ?thesis
      using d1 f fields by (auto simp: drive_session_def alternate_after_action_def cong: and_then_weak_cong)
  qed
  have closes: "\<exists>r. close_session demo_headless (drive_session demo_headless p
      (first_drive p (AwaitingDeal Dax (trial_nonce 7)) ms None)) = Some r \<and>
    hr_status r = RunCompleted \<and> hr_decisions r = 2" for ms
    using drives [of ms] by (auto simp: close_session_def shutdown_agents_def shutdown_agent_def eager_agent_def)
  show ?thesis
    using closes fields by (simp add: run_session_def create_agent_def cc_initial_state_def Let_def)
qed

lemma demo_run:
  "run_session demo_headless None demo_plan = Some demo_result" "hr_status demo_result = RunCompleted"
  "hr_decisions demo_result = 2"
  using demo_session [OF demo_like_demo] by (auto simp: demo_result_def)

lemma demo_plan_limits: "validate_limits (hp_limits demo_plan) = Ok ()"
  by (simp add: validate_limits_def default_limits_def)

lemma demo_rules: "game_rules (hd_game demo_headless) cc_inv"
  using cc.game_rules_axioms by simp

lemma demo_encoders: "encoders_total demo_headless"
  by (simp add: encoders_total_def)

lemma demo_agents: "\<not> agents_unwind demo_headless"
  by (simp add: agents_unwind_def eager_agent_def)

lemma demo_rewards: "rewards_total demo_plan"
  using demo_like_demo by (simp add: demo_like_def)

lemma session_keeps_its_limits_witness:
  "hr_accepted demo_result + hr_rejected demo_result \<le> 2 \<and> obeys default_limits demo_result"
  using session_keeps_its_limits [OF demo_plan_limits demo_run(1)] demo_run(3) by simp

lemma result_rests_on_play_witness:
  "\<exists>xs s. accepted_play cue_choice xs (AwaitingDeal Dax (trial_nonce 7)) = Ok s \<and> cc_completion s \<noteq> None \<and>
     list_all2 (\<lambda>t x. tj_role t = snd x \<and> demo_action_json (fst x) = tj_action t)
       (filter tj_accepted (hr_trajectory demo_result)) (filter (\<lambda>x. is_learner demo_plan (snd x)) xs) \<and>
     length xs = hr_accepted demo_result"
proof -
  have "hr_status demo_result \<noteq> RunFailed" by (simp add: demo_run(2))
  from result_rests_on_play [OF demo_plan_limits demo_run(1) this] show ?thesis
    by (elim exE conjE) (intro exI conjI; simp add: cc_initial_state_def demo_run(2))
qed

lemma trajectory_is_the_learners_witness:
  "trajectory_ok demo_plan 2 (hr_trajectory demo_result)"
  using trajectory_is_the_learners [OF demo_plan_limits demo_run(1)] demo_run(3) by simp

lemma session_always_reports_witness:
  "\<exists>r. run_session demo_headless None demo_plan = Some r \<and> hr_decisions r \<le> 200"
  using session_always_reports [OF demo_plan_limits demo_rules demo_encoders demo_agents demo_rewards, of None]
  by (simp add: cc_initial_state_def default_limits_def)

end
