(* ===== verification/Experiment_Plan.thy ===== *)
theory Experiment_Plan
  imports Headless_Runs
begin

text \<open>
  Experiment files of \<open>rust-server/src/agent_experiment.rs\<close>: the registry of an
  \<open>ExperimentRunner\<close>, the checks of a file, and its expansion into session plans.

  Factories, learners, rewards and schedules are entries of the registry; a learner resolves and
  exposes checkpoints by functions, as its contract of immutable checkpoints says. SHA-256, the
  rendering of JSON text and the parsers of settings are arguments too. A YAML file is given parsed.
\<close>

section \<open>The registry\<close>

record agent_factory =
  af_definition :: agent_definition
  af_identity :: "json \<Rightarrow> (string, agent_identity) outcome"

record learner =
  ln_resolve :: "json \<Rightarrow> (string, string) outcome"
  ln_factory :: "string \<Rightarrow> (string, agent_factory) outcome"

record ('s, 'a, 'c, 'w) reward_function =
  rw_version :: string
  rw_validate :: "json \<Rightarrow> (string, unit) outcome"
  rw_rewards :: "json \<Rightarrow> 's \<Rightarrow> 's \<Rightarrow> player_role \<Rightarrow> 'a \<Rightarrow> 'c option \<Rightarrow> 'w option"

record ('cfg, 's, 'a, 'c, 'k, 'w) registry =
  rg_game_id :: string
  rg_game_version :: string
  rg_config :: "json \<Rightarrow> (string, 'cfg) outcome"
  rg_validate_config :: "'cfg \<Rightarrow> (string, unit) outcome"
  rg_static :: "string \<rightharpoonup> agent_factory"
  rg_learners :: "string \<rightharpoonup> learner"
  rg_rewards :: "string \<rightharpoonup> ('s, 'a, 'c, 'w) reward_function"
  rg_schedules :: "string \<rightharpoonup> (player_role \<Rightarrow> json \<Rightarrow> (string, ('k, 'a) schedule) outcome)"
  rg_secrets :: "string \<rightharpoonup> string"
  rg_digest :: "nat list \<Rightarrow> nat list"
  rg_sha :: "string \<Rightarrow> string"
  rg_render :: "json \<Rightarrow> string"
  rg_uri :: uri_parser
  rg_yaml :: yaml_parser

text \<open>The two schedules every runner has.\<close>

definition require_empty_parameters :: "json \<Rightarrow> (string, unit) outcome" where
  "require_empty_parameters v =
     (if as_object v = Some [] then Ok () else Err ''this agent schedule accepts no parameters'')"

definition built_in_schedules ::
    "string \<rightharpoonup> (player_role \<Rightarrow> json \<Rightarrow> (string, (player_role option, 'a) schedule) outcome)" where
  "built_in_schedules =
     [''alternate_every_response'' \<mapsto>
        (\<lambda>first ps. obind (require_empty_parameters ps) (\<lambda>u. Ok (alternate_every_response first))),
      ''alternate_after_action'' \<mapsto>
        (\<lambda>first ps. obind (require_empty_parameters ps) (\<lambda>u. Ok (alternate_after_action first)))]"

text \<open>Registration: an identifier is taken once, by a static factory or by a learner.\<close>

definition register_agent ::
    "agent_factory \<Rightarrow> ('cfg, 's, 'a, 'c, 'k, 'w) registry \<Rightarrow> (experiment_error, ('cfg, 's, 'a, 'c, 'k, 'w) registry) outcome" where
  "register_agent f R =
     (let i = def_id (af_definition f) in
      obind (map_err (\<lambda>e. Invalid ''definition'') (validate_definition (rg_uri R) (rg_yaml R) (af_definition f))) (\<lambda>u.
        if rg_learners R i \<noteq> None \<or> rg_static R i \<noteq> None then Err (Invalid ''registered more than once'')
        else Ok (R\<lparr>rg_static := (rg_static R)(i \<mapsto> f)\<rparr>)))"

definition register_learner ::
    "string \<Rightarrow> learner \<Rightarrow> ('cfg, 's, 'a, 'c, 'k, 'w) registry
      \<Rightarrow> (experiment_error, ('cfg, 's, 'a, 'c, 'k, 'w) registry) outcome" where
  "register_learner i l R =
     (if blank i then Err (Invalid ''RL agent factory ID must not be empty'')
      else if rg_static R i \<noteq> None \<or> rg_learners R i \<noteq> None then Err (Invalid ''registered more than once'')
      else Ok (R\<lparr>rg_learners := (rg_learners R)(i \<mapsto> l)\<rparr>))"

text \<open>The checkpoints of a learner are named by texts that are not blank.\<close>

definition checkpoint_id :: "string \<Rightarrow> (string, string) outcome" where
  "checkpoint_id t = (if blank t then Err ''checkpoint ID must not be empty'' else Ok t)"

definition register_reward ::
    "string \<Rightarrow> ('s, 'a, 'c, 'w) reward_function \<Rightarrow> ('cfg, 's, 'a, 'c, 'k, 'w) registry
      \<Rightarrow> (experiment_error, ('cfg, 's, 'a, 'c, 'k, 'w) registry) outcome" where
  "register_reward i rw R =
     (if blank i \<or> blank (rw_version rw) then Err (Invalid ''reward ID and version must not be empty'')
      else if rg_rewards R i \<noteq> None then Err (Invalid ''reward function is registered more than once'')
      else Ok (R\<lparr>rg_rewards := (rg_rewards R)(i \<mapsto> rw)\<rparr>))"

definition supply_secret ::
    "string \<Rightarrow> string \<Rightarrow> ('cfg, 's, 'a, 'c, 'k, 'w) registry
      \<Rightarrow> (experiment_error, ('cfg, 's, 'a, 'c, 'k, 'w) registry) outcome" where
  "supply_secret key v R =
     (if blank key \<or> starts_with ''game.'' key
      then Err (Invalid ''secret keys must be non-empty and omit the game. prefix'')
      else Ok (R\<lparr>rg_secrets := (rg_secrets R)(key \<mapsto> v)\<rparr>))"

definition register_schedule ::
    "string \<Rightarrow> (player_role \<Rightarrow> json \<Rightarrow> (string, ('k, 'a) schedule) outcome) \<Rightarrow> ('cfg, 's, 'a, 'c, 'k, 'w) registry
      \<Rightarrow> (experiment_error, ('cfg, 's, 'a, 'c, 'k, 'w) registry) outcome" where
  "register_schedule i f R =
     (if blank i then Err (Invalid ''agent schedule kind must not be empty'')
      else if rg_schedules R i \<noteq> None then Err (Invalid ''agent schedule is registered more than once'')
      else Ok (R\<lparr>rg_schedules := (rg_schedules R)(i \<mapsto> f)\<rparr>))"

text \<open>The secrets of a file that the runner does not hold are taken from the environment.\<close>

fun environment_secrets ::
    "(string \<rightharpoonup> string) \<Rightarrow> (string \<times> string) list \<Rightarrow> ('cfg, 's, 'a, 'c, 'k, 'w) registry
      \<Rightarrow> (experiment_error, ('cfg, 's, 'a, 'c, 'k, 'w) registry) outcome" where
  "environment_secrets env [] R = Ok R"
| "environment_secrets env ((key, name) # refs) R =
     (if rg_secrets R key \<noteq> None then environment_secrets env refs R
      else
        obind (ok_or (env name) (Invalid ''secret requires environment variable'')) (\<lambda>v.
          environment_secrets env refs (R\<lparr>rg_secrets := (rg_secrets R)(key \<mapsto> v)\<rparr>)))"

section \<open>Experiment files\<close>

record configured_agent =
  ca_factory :: string
  ca_checkpoint :: "json option"
  ca_settings :: json

record scenario =
  sc_name :: string
  sc_config :: json
  sc_seeds :: "nat list"
  sc_repetitions :: nat

record session_set =
  ss_scenarios :: "scenario list"
  ss_player_a :: string
  ss_player_b :: string
  ss_mirror :: bool

record training_spec =
  tr_learner :: string
  tr_set :: session_set
  tr_epochs :: nat
  tr_every :: nat
  tr_reward :: string
  tr_parameters :: json

record validation_spec =
  va_set :: session_set
  va_every :: nat

record experiment_file =
  ef_schema :: string
  ef_game :: string
  ef_secrets :: "(string \<times> string) list"
  ef_agents :: "(string \<times> configured_agent) list"
  ef_sessions :: "session_set option"
  ef_training :: "training_spec option"
  ef_validation :: "validation_spec option"
  ef_schedule :: string
  ef_first :: player_role
  ef_parameters :: json
  ef_limits :: session_limits
  ef_concurrency :: nat
  ef_fail_fast :: bool
  ef_trace :: trace_level

abbreviation experiment_schema :: string where
  "experiment_schema \<equiv> ''parlando-agent-experiment/v1''"

section \<open>Factories and seats\<close>

definition configured_factory ::
    "('cfg, 's, 'a, 'c, 'k, 'w) registry \<Rightarrow> configured_agent \<Rightarrow> string option
      \<Rightarrow> (experiment_error, agent_factory \<times> string option) outcome" where
  "configured_factory R ca override =
     (case rg_static R (ca_factory ca) of
        Some f \<Rightarrow>
          if ca_checkpoint ca \<noteq> None \<or> override \<noteq> None then Err (Invalid ''static factory does not accept a checkpoint'')
          else Ok (f, None)
      | None \<Rightarrow>
          obind (ok_or (rg_learners R (ca_factory ca)) (Invalid ''unregistered agent factory'')) (\<lambda>l.
          obind (case override of
                   Some c \<Rightarrow> Ok c
                 | None \<Rightarrow>
                     obind (ok_or (ca_checkpoint ca) (Invalid ''RL factory requires checkpoint'')) (\<lambda>ref.
                       map_err Invalid (ln_resolve l ref))) (\<lambda>c.
          obind (map_err Invalid (ln_factory l c)) (\<lambda>f. Ok (f, Some c)))))"

definition agent_settings ::
    "('cfg, 's, 'a, 'c, 'k, 'w) registry \<Rightarrow> agent_factory \<Rightarrow> json
      \<Rightarrow> (experiment_error, json \<times> secret_maps \<times> agent_identity) outcome" where
  "agent_settings R f given =
     obind (map_err (\<lambda>e. Invalid ''settings'') (normalize_settings (rg_uri R) (rg_yaml R) (af_definition f) given)) (\<lambda>settings.
     obind (map_err (\<lambda>e. Invalid ''secrets'') (resolve_secrets (af_definition f) settings (rg_secrets R))) (\<lambda>secrets.
     obind (map_err Invalid (af_identity f settings)) (\<lambda>identity.
     obind (map_err (\<lambda>e. Invalid ''identity'') (validate_identity identity)) (\<lambda>u.
       Ok (settings, secrets, identity)))))"

fun decimal :: "nat \<Rightarrow> string" where
  "decimal n = (if n < 10 then [char_of (48 + n)] else decimal (n div 10) @ [char_of (48 + n mod 10)])"

declare decimal.simps [simp del]

definition label_bytes :: "string \<Rightarrow> nat list" where
  "label_bytes t = map of_char t"

definition resolve_seat ::
    "('cfg, 's, 'a, 'c, 'k, 'w) registry \<Rightarrow> experiment_file \<Rightarrow> string \<Rightarrow> player_role \<Rightarrow> nat \<Rightarrow> nat \<Rightarrow> string
      \<Rightarrow> string option \<Rightarrow> (experiment_error, resolved_seat) outcome" where
  "resolve_seat R f name role game_seed repetition leg override =
     obind (ok_or (map_of (ef_agents f) name) (Invalid ''unknown agent'')) (\<lambda>ca.
     obind (configured_factory R ca override) (\<lambda>(factory, checkpoint).
     obind (agent_settings R factory (ca_settings ca)) (\<lambda>(settings, secrets, identity).
       Ok \<lparr>rs_name = name, rs_factory = ca_factory ca, rs_settings = settings,
           rs_settings_fingerprint = configuration_fingerprint (rg_sha R) (rg_render R) (ca_factory ca) settings,
           rs_secrets = secrets, rs_identity = identity, rs_checkpoint = checkpoint, rs_role = role,
           rs_seed = derive_seed (rg_digest R) (map label_bytes
             [ef_schema f, rg_game_id R, name, role_str role, decimal game_seed, decimal repetition, leg])\<rparr>)))"

section \<open>Checks of a file\<close>

definition check_scenario ::
    "('cfg, 's, 'a, 'c, 'k, 'w) registry \<Rightarrow> scenario \<Rightarrow> (experiment_error, unit) outcome" where
  "check_scenario R sc =
     (if blank (sc_name sc) \<or> sc_seeds sc = [] \<or> sc_repetitions sc = 0
      then Err (Invalid ''scenario names, seeds, and repetitions must be non-empty'')
      else obind (map_err Invalid (rg_config R (sc_config sc))) (\<lambda>config.
        map_err Invalid (rg_validate_config R config)))"

definition validate_session_set ::
    "('cfg, 's, 'a, 'c, 'k, 'w) registry \<Rightarrow> (string \<times> configured_agent) list \<Rightarrow> session_set
      \<Rightarrow> (experiment_error, unit) outcome" where
  "validate_session_set R agents ss =
     (if ss_scenarios ss = [] then Err (Invalid ''scenarios must contain at least one scenario'')
      else if map_of agents (ss_player_a ss) = None \<or> map_of agents (ss_player_b ss) = None
      then Err (Invalid ''seat references unknown agent'')
      else ofold (\<lambda>sc u. check_scenario R sc) (ss_scenarios ss) ())"

definition seats_learner :: "session_set \<Rightarrow> string \<Rightarrow> bool" where
  "seats_learner ss learner \<longleftrightarrow> ss_player_a ss = learner \<or> ss_player_b ss = learner"

definition validate_training ::
    "('cfg, 's, 'a, 'c, 'k, 'w) registry \<Rightarrow> (string \<times> configured_agent) list \<Rightarrow> training_spec
      \<Rightarrow> (experiment_error, unit) outcome" where
  "validate_training R agents t =
     (if tr_epochs t = 0 \<or> tr_every t = 0 then Err (Invalid ''training epochs and checkpoint cadence must be positive'')
      else if tr_epochs t mod tr_every t \<noteq> 0 then Err (Invalid ''epochs must be divisible by checkpoint_every_epochs'')
      else
        obind (ok_or (map_of agents (tr_learner t)) (Invalid ''training selects unknown learner'')) (\<lambda>ca.
        if rg_learners R (ca_factory ca) = None then Err (Invalid ''learner is not registered as an RL agent'')
        else if \<not> seats_learner (tr_set t) (tr_learner t)
        then Err (Invalid ''training learner must occupy at least one training seat'')
        else
          obind (validate_session_set R agents (tr_set t)) (\<lambda>u.
          obind (ok_or (rg_rewards R (tr_reward t)) (Invalid ''unknown reward function'')) (\<lambda>rw.
            map_err Invalid (rw_validate rw (tr_parameters t))))))"

definition validate_validation ::
    "('cfg, 's, 'a, 'c, 'k, 'w) registry \<Rightarrow> (string \<times> configured_agent) list \<Rightarrow> string \<Rightarrow> validation_spec
      \<Rightarrow> (experiment_error, unit) outcome" where
  "validate_validation R agents learner v =
     (if va_every v = 0 then Err (Invalid ''validation.every_checkpoints must be positive'')
      else obind (validate_session_set R agents (va_set v)) (\<lambda>u.
        ensure (seats_learner (va_set v) learner) (Invalid ''validation must seat the training learner'')))"

definition resolve_schedule ::
    "('cfg, 's, 'a, 'c, 'k, 'w) registry \<Rightarrow> experiment_file \<Rightarrow> (experiment_error, ('k, 'a) schedule) outcome" where
  "resolve_schedule R f =
     obind (ok_or (rg_schedules R (ef_schedule f)) (Invalid ''unknown agent schedule'')) (\<lambda>make.
       map_err Invalid (make (ef_first f) (ef_parameters f)))"

definition check_secret :: "string \<times> string \<Rightarrow> (experiment_error, unit) outcome" where
  "check_secret x =
     (case x of (key, environment) \<Rightarrow>
        if blank key \<or> starts_with ''game.'' key
        then Err (Invalid ''secret keys must be non-empty and omit the game. prefix'')
        else if blank environment then Err (Invalid ''secret must name a non-empty environment variable'')
        else Ok ())"

definition check_agent ::
    "('cfg, 's, 'a, 'c, 'k, 'w) registry \<Rightarrow> string \<times> configured_agent \<Rightarrow> (experiment_error, unit) outcome" where
  "check_agent R x =
     obind (configured_factory R (snd x) None) (\<lambda>(factory, checkpoint).
     obind (agent_settings R factory (ca_settings (snd x))) (\<lambda>y. Ok ()))"

text \<open>The optional parts: \<open>if let Some(x) = ...\<close>.\<close>

definition when_some :: "'x option \<Rightarrow> ('x \<Rightarrow> ('e, unit) outcome) \<Rightarrow> ('e, unit) outcome" where
  "when_some x g = (case x of None \<Rightarrow> Ok () | Some y \<Rightarrow> g y)"

definition validate_spec ::
    "('cfg, 's, 'a, 'c, 'k, 'w) registry \<Rightarrow> experiment_file \<Rightarrow> (experiment_error, unit) outcome" where
  "validate_spec R f =
     (if ef_schema f \<noteq> experiment_schema then Err (Invalid ''unsupported agent experiment schema'')
      else if ef_game f \<noteq> rg_game_id R then Err (Invalid ''experiment selects another game'')
      else if ef_sessions f = None \<and> ef_training f = None
      then Err (Invalid ''an experiment must define sessions, training, or both'')
      else if ef_validation f \<noteq> None \<and> ef_training f = None then Err (Invalid ''validation requires a training section'')
      else if ef_concurrency f = 0 then Err (Invalid ''execution.concurrency must be positive'')
      else
        obind (ofold (\<lambda>x u. check_secret x) (ef_secrets f) ()) (\<lambda>u.
        obind (validate_limits (ef_limits f)) (\<lambda>u.
        obind (ofold (\<lambda>x u. check_agent R x) (ef_agents f) ()) (\<lambda>u.
        obind (when_some (ef_sessions f) (validate_session_set R (ef_agents f))) (\<lambda>u.
        obind (when_some (ef_training f) (validate_training R (ef_agents f))) (\<lambda>u.
        obind (when_some (ef_validation f) (\<lambda>v.
            case ef_training f of
              None \<Rightarrow> Panic
            | Some t \<Rightarrow> validate_validation R (ef_agents f) (tr_learner t) v)) (\<lambda>u.
        obind (resolve_schedule R f) (\<lambda>sch. Ok ()))))))))"

section \<open>Expansion into plans\<close>

datatype leg = Original | Mirrored

fun leg_str :: "leg \<Rightarrow> string" where
  "leg_str Original = ''original''"
| "leg_str Mirrored = ''mirrored''"

definition assignments :: "session_set \<Rightarrow> (string \<times> string \<times> leg) list" where
  "assignments ss =
     (if ss_mirror ss \<and> ss_player_a ss \<noteq> ss_player_b ss
      then [(ss_player_a ss, ss_player_b ss, Original), (ss_player_b ss, ss_player_a ss, Mirrored)]
      else [(ss_player_a ss, ss_player_b ss, Original)])"

text \<open>The four nested loops, as the list of their coordinates.\<close>

definition coordinates :: "session_set \<Rightarrow> (scenario \<times> nat \<times> nat \<times> string \<times> string \<times> leg) list" where
  "coordinates ss =
     concat (map (\<lambda>sc. concat (map (\<lambda>game_seed. concat (map (\<lambda>repetition.
       map (\<lambda>x. (sc, game_seed, repetition, x)) (assignments ss)) [0..<sc_repetitions sc]))
       (sc_seeds sc))) (ss_scenarios ss))"

definition limits_json :: "session_limits \<Rightarrow> json" where
  "limits_json l = JObj
     [(''accepted_actions'', JInt (int (lim_accepted l))),
      (''callback_timeout_seconds'', JInt (int (lim_callback l))),
      (''decisions'', JInt (int (lim_decisions l))),
      (''messages'', JInt (int (lim_messages l))),
      (''rejected_actions'', JInt (int (lim_rejected l))),
      (''session_timeout_seconds'', JInt (int (lim_session l))),
      (''shutdown_timeout_seconds'', JInt (int (lim_shutdown l)))]"

fun trace_str :: "trace_level \<Rightarrow> string" where
  "trace_str TraceResults = ''results''"
| "trace_str TraceDecisions = ''decisions''"
| "trace_str TraceFull = ''full''"

fun configured_role_str :: "player_role \<Rightarrow> string" where
  "configured_role_str RoleA = ''player_a''"
| "configured_role_str RoleB = ''player_b''"

definition plan_document ::
    "('cfg, 's, 'a, 'c, 'k, 'w) registry \<Rightarrow> experiment_file \<Rightarrow> string \<Rightarrow> nat \<Rightarrow> scenario \<Rightarrow> nat \<Rightarrow> nat \<Rightarrow> leg
      \<Rightarrow> resolved_seat \<Rightarrow> resolved_seat \<Rightarrow> json" where
  "plan_document R f ph phase_index sc game_seed repetition leg seat_a seat_b = JObj
     [(''config'', sc_config sc),
      (''game'', JObj [(''id'', JStr (ef_game f)), (''version'', JStr (rg_game_version R))]),
      (''game_seed'', JInt (int game_seed)),
      (''limits'', limits_json (ef_limits f)),
      (''mirror_leg'', JStr (leg_str leg)),
      (''phase'', JStr ph),
      (''phase_index'', JInt (int phase_index)),
      (''player_a'', identity_document seat_a),
      (''player_b'', identity_document seat_b),
      (''repetition'', JInt (int repetition)),
      (''scenario'', JStr (sc_name sc)),
      (''schedule'', JObj [(''first'', JStr (configured_role_str (ef_first f))), (''kind'', JStr (ef_schedule f)),
         (''parameters'', ef_parameters f)]),
      (''schema'', JStr (ef_schema f)),
      (''trace'', JStr (trace_str (ef_trace f))),
      (''version'', JInt 1)]"

text \<open>One plan: \<open>overrides\<close> names the checkpoint of the learner.\<close>

definition make_plan ::
    "('cfg, 's, 'a, 'c, 'k, 'w) registry \<Rightarrow> experiment_file \<Rightarrow> string \<Rightarrow> string \<Rightarrow> nat \<Rightarrow> (string \<rightharpoonup> string)
      \<Rightarrow> ('s, 'a, 'c, 'w) training_capture option \<Rightarrow> scenario \<times> nat \<times> nat \<times> string \<times> string \<times> leg
      \<Rightarrow> (experiment_error, ('cfg, 's, 'a, 'c, 'k, 'w) session_plan) outcome" where
  "make_plan R f run ph phase_index overrides capture x =
     (case x of (sc, game_seed, repetition, player_a, player_b, leg) \<Rightarrow>
        obind (map_err Invalid (rg_config R (sc_config sc))) (\<lambda>config.
        obind (resolve_seat R f player_a RoleA game_seed repetition (leg_str leg) (overrides player_a)) (\<lambda>seat_a.
        obind (resolve_seat R f player_b RoleB game_seed repetition (leg_str leg) (overrides player_b)) (\<lambda>seat_b.
        obind (ok_or (rg_schedules R (ef_schedule f)) (Invalid ''unknown agent schedule'')) (\<lambda>make.
          Ok \<lparr>hp_run = run,
              hp_plan = hash_value (rg_sha R) (rg_render R)
                (plan_document R f ph phase_index sc game_seed repetition leg seat_a seat_b),
              hp_phase = ph, hp_phase_index = phase_index, hp_scenario = sc_name sc, hp_game_id = rg_game_id R,
              hp_game_version = rg_game_version R,
              hp_config_fingerprint = hash_value (rg_sha R) (rg_render R) (sc_config sc),
              hp_config = config, hp_game_seed = of_nat game_seed, hp_secrets = rg_secrets R,
              hp_seats = (\<lambda>role. case role of RoleA \<Rightarrow> seat_a | RoleB \<Rightarrow> seat_b),
              hp_schedule_kind = ef_schedule f, hp_schedule = make (ef_first f) (ef_parameters f),
              hp_limits = ef_limits f, hp_trace = ef_trace f, hp_capture = capture\<rparr>)))))"

fun first_repeated :: "string list \<Rightarrow> string list \<Rightarrow> string option" where
  "first_repeated seen [] = None"
| "first_repeated seen (i # is) = (if List.member seen i then Some i else first_repeated (i # seen) is)"

definition plan_set ::
    "('cfg, 's, 'a, 'c, 'k, 'w) registry \<Rightarrow> experiment_file \<Rightarrow> string \<Rightarrow> string \<Rightarrow> nat \<Rightarrow> session_set
      \<Rightarrow> (string \<rightharpoonup> string) \<Rightarrow> ('s, 'a, 'c, 'w) training_capture option
      \<Rightarrow> (experiment_error, ('cfg, 's, 'a, 'c, 'k, 'w) session_plan list) outcome" where
  "plan_set R f run ph phase_index ss overrides capture =
     obind (omap (make_plan R f run ph phase_index overrides capture) (coordinates ss)) (\<lambda>plans.
       case first_repeated [] (map hp_plan plans) of
         Some i \<Rightarrow> Err (DuplicatePlan i)
       | None \<Rightarrow> Ok plans)"

end
