(* ===== verification/Experiment_Run.thy ===== *)
theory Experiment_Run
  imports Experiment_Plan
begin

text \<open>
  The execution of an experiment file, \<open>ExperimentRunner::run\<close> of
  \<open>rust-server/src/agent_experiment.rs\<close>, over the files it leaves behind: the run manifest, one
  result per plan, one record per checkpoint.

  A file is missing, readable or not readable. Files are written whole by an atomic rename, and a
  write may fail. The sessions an invocation meets, the answers of the learner and the order in which
  concurrent sessions finish are given by a \<open>world\<close>, a new one for each invocation; what a session
  cut off by the failed write of another leaves is nothing. Two history fields list the plans whose
  session was run and the checkpoints the learner was asked for.
\<close>

section \<open>Files\<close>

datatype 'x stored = Missing | Readable 'x | Garbled

record run_manifest =
  mf_schema :: string
  mf_run :: string
  mf_game :: string
  mf_version :: string
  mf_spec_hash :: string

record checkpoint_record =
  cp_run :: string
  cp_number :: nat
  cp_update :: string
  cp_base :: string
  cp_checkpoint :: string

record ('c, 'w) artifacts =
  at_manifest :: "run_manifest stored"
  at_results :: "string \<Rightarrow> ('c, 'w) session_result stored"
  at_checkpoints :: "nat \<Rightarrow> checkpoint_record stored"
  at_ran :: "string list"
  at_updates :: "nat list"

definition no_artifacts :: "('c, 'w) artifacts" where
  "no_artifacts = \<lparr>at_manifest = Missing, at_results = (\<lambda>i. Missing), at_checkpoints = (\<lambda>n. Missing),
     at_ran = [], at_updates = []\<rparr>"

datatype artifact = ManifestFile | ResultFile string | CheckpointFile nat

record 'w training_batch =
  tb_update :: string
  tb_epochs :: nat
  tb_steps :: "'w trajectory_step list"

record training_context =
  tx_settings :: json
  tx_secrets :: "string \<rightharpoonup> string"

record ('cfg, 's, 'a, 'obs, 'c, 'm, 'k, 'w) world =
  wd_headless :: "nat \<Rightarrow> ('cfg, 's, 'a, 'obs, 'c, 'm, 'w) headless"
  wd_idle :: 'k
  wd_train :: "training_context \<Rightarrow> string \<Rightarrow> 'w training_batch \<Rightarrow> (string, string) outcome"
  wd_order :: "nat \<Rightarrow> ('cfg, 's, 'a, 'c, 'k, 'w) session_plan list \<Rightarrow> ('cfg, 's, 'a, 'c, 'k, 'w) session_plan list"
  wd_fails :: "artifact \<Rightarrow> bool"
  wd_uuid :: string

section \<open>Reading files\<close>

definition finalized_result_matches ::
    "('c, 'w) session_result stored \<Rightarrow> string \<Rightarrow> string \<Rightarrow> (experiment_error, bool) outcome" where
  "finalized_result_matches f run plan =
     (case f of
        Missing \<Rightarrow> Ok False
      | Garbled \<Rightarrow> Err (CorruptFile plan)
      | Readable r \<Rightarrow> if hr_run r \<noteq> run \<or> hr_plan r \<noteq> plan then Err (InconsistentFile plan) else Ok True)"

definition load_result_data ::
    "('c, 'w) session_result stored \<Rightarrow> (experiment_error, 'w trajectory_step list \<times> bool) outcome" where
  "load_result_data f =
     (case f of
        Readable r \<Rightarrow> Ok (hr_trajectory r, is_success (hr_status r))
      | x \<Rightarrow> Err (CorruptFile ''trajectory''))"

definition load_checkpoint_record ::
    "checkpoint_record stored \<Rightarrow> string \<Rightarrow> nat \<Rightarrow> (experiment_error, checkpoint_record option) outcome" where
  "load_checkpoint_record f run n =
     (case f of
        Missing \<Rightarrow> Ok None
      | Garbled \<Rightarrow> Err (CorruptFile ''checkpoint'')
      | Readable c \<Rightarrow> if cp_run c \<noteq> run \<or> cp_number c \<noteq> n then Err (InconsistentFile ''checkpoint'') else Ok (Some c))"

definition load_or_create_manifest ::
    "('cfg, 's, 'a, 'obs, 'c, 'm, 'k, 'w) world \<Rightarrow> string \<Rightarrow> string \<Rightarrow> string \<Rightarrow> ('c, 'w) artifacts
      \<Rightarrow> ('c, 'w) artifacts \<times> (experiment_error, run_manifest) outcome" where
  "load_or_create_manifest W game version spec_hash st =
     (case at_manifest st of
        Readable m \<Rightarrow>
          if mf_schema m \<noteq> experiment_schema \<or> mf_game m \<noteq> game \<or> mf_version m \<noteq> version \<or> mf_spec_hash m \<noteq> spec_hash
          then (st, Err (InconsistentFile ''run'')) else (st, Ok m)
      | Garbled \<Rightarrow> (st, Err (CorruptFile ''run''))
      | Missing \<Rightarrow>
          (let m = \<lparr>mf_schema = experiment_schema, mf_run = wd_uuid W, mf_game = game, mf_version = version,
                    mf_spec_hash = spec_hash\<rparr>
           in if wd_fails W ManifestFile then (st, Err (WriteFailed ''run''))
              else (st\<lparr>at_manifest := Readable m\<rparr>, Ok m)))"

section \<open>Running plans\<close>

record 'w execution_batch =
  eb_planned :: nat
  eb_completed :: nat
  eb_failed :: nat
  eb_skipped :: nat
  eb_steps :: "'w trajectory_step list"
  eb_has_failure :: bool

definition empty_batch :: "nat \<Rightarrow> 'w execution_batch" where
  "empty_batch n = \<lparr>eb_planned = n, eb_completed = 0, eb_failed = 0, eb_skipped = 0, eb_steps = [], eb_has_failure = False\<rparr>"

definition merge_batch :: "'w execution_batch \<Rightarrow> 'w execution_batch \<Rightarrow> 'w execution_batch" where
  "merge_batch a b = \<lparr>eb_planned = eb_planned a + eb_planned b, eb_completed = eb_completed a + eb_completed b,
     eb_failed = eb_failed a + eb_failed b, eb_skipped = eb_skipped a + eb_skipped b,
     eb_steps = eb_steps a @ eb_steps b, eb_has_failure = (eb_has_failure a \<or> eb_has_failure b)\<rparr>"

text \<open>The first loop of \<open>execute_plans\<close>: finalised plans are read, the others are pending.\<close>

fun skip_finalized ::
    "('c, 'w) artifacts \<Rightarrow> string \<Rightarrow> ('cfg, 's, 'a, 'c, 'k, 'w) session_plan list \<Rightarrow> 'w execution_batch
      \<Rightarrow> ('cfg, 's, 'a, 'c, 'k, 'w) session_plan list
      \<Rightarrow> (experiment_error, 'w execution_batch \<times> ('cfg, 's, 'a, 'c, 'k, 'w) session_plan list) outcome" where
  "skip_finalized st run [] b pending = Ok (b, pending)"
| "skip_finalized st run (p # ps) b pending =
     obind (finalized_result_matches (at_results st (hp_plan p)) run (hp_plan p)) (\<lambda>done.
       if done then
         obind (load_result_data (at_results st (hp_plan p))) (\<lambda>(steps, succeeded).
           skip_finalized st run ps
             (b\<lparr>eb_skipped := eb_skipped b + 1, eb_steps := eb_steps b @ steps,
                eb_has_failure := (eb_has_failure b \<or> \<not> succeeded)\<rparr>) pending)
       else skip_finalized st run ps b (pending @ [p]))"

definition count_result :: "('c, 'w) session_result \<Rightarrow> 'w execution_batch \<Rightarrow> 'w execution_batch" where
  "count_result r b =
     (let b1 = b\<lparr>eb_steps := eb_steps b @ hr_trajectory r\<rparr> in
      if is_success (hr_status r) then b1\<lparr>eb_completed := eb_completed b1 + 1\<rparr>
      else b1\<lparr>eb_failed := eb_failed b1 + 1, eb_has_failure := True\<rparr>)"

text \<open>The sessions in the order in which they finish.\<close>

fun run_pending ::
    "('cfg, 's, 'a, 'obs, 'c, 'm, 'k, 'w) world \<Rightarrow> bool \<Rightarrow> ('cfg, 's, 'a, 'c, 'k, 'w) session_plan list
      \<Rightarrow> 'w execution_batch \<Rightarrow> ('c, 'w) artifacts
      \<Rightarrow> ('c, 'w) artifacts \<times> (experiment_error, 'w execution_batch) outcome" where
  "run_pending W fail_fast [] b st = (st, Ok b)"
| "run_pending W fail_fast (p # ps) b st =
     (let st1 = st\<lparr>at_ran := at_ran st @ [hp_plan p]\<rparr> in
      case run_session (wd_headless W (length (at_ran st))) (wd_idle W) p of
        None \<Rightarrow> (st1, Panic)
      | Some r \<Rightarrow>
          if wd_fails W (ResultFile (hr_plan r)) then (st1, Err (WriteFailed (hr_plan r)))
          else
            (let st2 = st1\<lparr>at_results := (at_results st1)(hr_plan r := Readable r)\<rparr> in
             if fail_fast \<and> \<not> is_success (hr_status r) then (st2, Err SessionFailed)
             else run_pending W fail_fast ps (count_result r b) st2))"

definition execute_plans ::
    "('cfg, 's, 'a, 'obs, 'c, 'm, 'k, 'w) world \<Rightarrow> experiment_file \<Rightarrow> string
      \<Rightarrow> ('cfg, 's, 'a, 'c, 'k, 'w) session_plan list \<Rightarrow> ('c, 'w) artifacts
      \<Rightarrow> ('c, 'w) artifacts \<times> (experiment_error, 'w execution_batch) outcome" where
  "execute_plans W f run plans st =
     and_then (st, skip_finalized st run plans (empty_batch (length plans)) []) (\<lambda>(b, pending) st1.
       let concurrency = (if ef_fail_fast f then 1 else ef_concurrency f) in
       run_pending W (ef_fail_fast f) (if concurrency = 1 then pending else wd_order W (length (at_ran st1)) pending) b st1)"

section \<open>Training\<close>

record 'w training_state =
  ts_checkpoint :: string
  ts_pending :: "'w trajectory_step list"
  ts_count :: nat
  ts_totals :: "'w execution_batch"

text \<open>What the learner needs: its first checkpoint, the context of its updates and the reward.\<close>

definition training_setup ::
    "('cfg, 's, 'a, 'c, 'k, 'w) registry \<Rightarrow> experiment_file \<Rightarrow> training_spec
      \<Rightarrow> (experiment_error, string \<times> training_context \<times> ('s, 'a, 'c, 'w) reward_function) outcome" where
  "training_setup R f t =
     obind (expect (map_of (ef_agents f) (tr_learner t))) (\<lambda>ca.
     obind (expect (ca_checkpoint ca)) (\<lambda>ref.
     obind (expect (rg_learners R (ca_factory ca))) (\<lambda>l.
     obind (map_err Invalid (ln_resolve l ref)) (\<lambda>checkpoint.
     obind (configured_factory R ca (Some checkpoint)) (\<lambda>(factory, c).
     obind (map_err (\<lambda>e. Invalid ''settings'')
         (normalize_settings (rg_uri R) (rg_yaml R) (af_definition factory) (ca_settings ca))) (\<lambda>settings.
     obind (map_err (\<lambda>e. Invalid ''secrets'') (resolve_secrets (af_definition factory) settings (rg_secrets R))) (\<lambda>secrets.
     obind (expect (rg_rewards R (tr_reward t))) (\<lambda>rw.
       Ok (checkpoint, \<lparr>tx_settings = settings, tx_secrets = fst secrets\<rparr>, rw)))))))))"

definition capture_of ::
    "training_spec \<Rightarrow> ('s, 'a, 'c, 'w) reward_function \<Rightarrow> string \<Rightarrow> ('s, 'a, 'c, 'w) training_capture" where
  "capture_of t rw checkpoint = \<lparr>tc_learner = tr_learner t, tc_checkpoint = checkpoint, tc_reward = tr_reward t,
     tc_reward_version = rw_version rw, tc_rewards = rw_rewards rw (tr_parameters t)\<rparr>"

definition update_id :: "string \<Rightarrow> nat \<Rightarrow> string" where
  "update_id run n = run @ '':checkpoint:'' @ decimal n"

text \<open>The checkpoint of number \<open>n\<close>: from its record, or from the learner.\<close>

definition next_checkpoint ::
    "('cfg, 's, 'a, 'obs, 'c, 'm, 'k, 'w) world \<Rightarrow> training_context \<Rightarrow> string \<Rightarrow> nat \<Rightarrow> nat \<Rightarrow> string
      \<Rightarrow> 'w trajectory_step list \<Rightarrow> ('c, 'w) artifacts \<Rightarrow> ('c, 'w) artifacts \<times> (experiment_error, string) outcome" where
  "next_checkpoint W ctx run epoch n checkpoint steps st =
     and_then (st, load_checkpoint_record (at_checkpoints st n) run n) (\<lambda>rec st0.
       case rec of
         Some c \<Rightarrow> (st0, Ok (cp_checkpoint c))
       | None \<Rightarrow>
           (let st1 = st0\<lparr>at_updates := at_updates st0 @ [n]\<rparr> in
            and_then (st1, map_err TrainFailed (wd_train W ctx checkpoint
                \<lparr>tb_update = update_id run n, tb_epochs = epoch, tb_steps = steps\<rparr>)) (\<lambda>next st2.
              if wd_fails W (CheckpointFile n) then (st2, Err (WriteFailed ''checkpoint''))
              else (st2\<lparr>at_checkpoints := (at_checkpoints st2)(n := Readable
                      \<lparr>cp_run = run, cp_number = n, cp_update = update_id run n, cp_base = checkpoint,
                       cp_checkpoint = next\<rparr>)\<rparr>, Ok next))))"

definition plan_and_execute ::
    "('cfg, 's, 'a, 'c, 'k, 'w) registry \<Rightarrow> ('cfg, 's, 'a, 'obs, 'c, 'm, 'k, 'w) world \<Rightarrow> experiment_file \<Rightarrow> string
      \<Rightarrow> string \<Rightarrow> nat \<Rightarrow> session_set \<Rightarrow> (string \<rightharpoonup> string) \<Rightarrow> ('s, 'a, 'c, 'w) training_capture option
      \<Rightarrow> ('c, 'w) artifacts \<Rightarrow> ('c, 'w) artifacts \<times> (experiment_error, 'w execution_batch) outcome" where
  "plan_and_execute R W f run ph i ss overrides capture st =
     and_then (st, plan_set R f run ph i ss overrides capture) (\<lambda>plans. execute_plans W f run plans)"

text \<open>Validation after a checkpoint, at its cadence.\<close>

definition validate_checkpoint ::
    "('cfg, 's, 'a, 'c, 'k, 'w) registry \<Rightarrow> ('cfg, 's, 'a, 'obs, 'c, 'm, 'k, 'w) world \<Rightarrow> experiment_file \<Rightarrow> string
      \<Rightarrow> training_spec \<Rightarrow> 'w training_state \<Rightarrow> ('c, 'w) artifacts
      \<Rightarrow> ('c, 'w) artifacts \<times> (experiment_error, 'w training_state) outcome" where
  "validate_checkpoint R W f run t ts st =
     (case ef_validation f of
        None \<Rightarrow> (st, Ok ts)
      | Some v \<Rightarrow>
          if va_every v dvd ts_count ts then
            and_then (plan_and_execute R W f run ''validation'' (ts_count ts) (va_set v)
                [tr_learner t \<mapsto> ts_checkpoint ts] None st) (\<lambda>b st1.
              (st1, Ok (ts\<lparr>ts_totals := merge_batch (ts_totals ts) b\<rparr>)))
          else (st, Ok ts))"

definition training_epoch ::
    "('cfg, 's, 'a, 'c, 'k, 'w) registry \<Rightarrow> ('cfg, 's, 'a, 'obs, 'c, 'm, 'k, 'w) world \<Rightarrow> experiment_file \<Rightarrow> string
      \<Rightarrow> training_spec \<Rightarrow> training_context \<Rightarrow> ('s, 'a, 'c, 'w) reward_function \<Rightarrow> nat \<Rightarrow> 'w training_state
      \<Rightarrow> ('c, 'w) artifacts \<Rightarrow> ('c, 'w) artifacts \<times> (experiment_error, 'w training_state) outcome" where
  "training_epoch R W f run t ctx rw epoch ts st =
     and_then (plan_and_execute R W f run ''training'' epoch (tr_set t) [tr_learner t \<mapsto> ts_checkpoint ts]
         (Some (capture_of t rw (ts_checkpoint ts))) st) (\<lambda>b st1.
       let ts1 = ts\<lparr>ts_pending := ts_pending ts @ eb_steps b, ts_totals := merge_batch (ts_totals ts) b\<rparr> in
       if eb_has_failure b then (st1, Err TrainingFailed)
       else if \<not> tr_every t dvd epoch then (st1, Ok ts1)
       else
         (let n = ts_count ts1 + 1 in
          and_then (next_checkpoint W ctx run epoch n (ts_checkpoint ts1) (ts_pending ts1) st1) (\<lambda>checkpoint.
            validate_checkpoint R W f run t
              (ts1\<lparr>ts_checkpoint := checkpoint, ts_pending := [], ts_count := n\<rparr>))))"

fun training_loop ::
    "('cfg, 's, 'a, 'c, 'k, 'w) registry \<Rightarrow> ('cfg, 's, 'a, 'obs, 'c, 'm, 'k, 'w) world \<Rightarrow> experiment_file \<Rightarrow> string
      \<Rightarrow> training_spec \<Rightarrow> training_context \<Rightarrow> ('s, 'a, 'c, 'w) reward_function \<Rightarrow> nat list \<Rightarrow> 'w training_state
      \<Rightarrow> ('c, 'w) artifacts \<Rightarrow> ('c, 'w) artifacts \<times> (experiment_error, 'w training_state) outcome" where
  "training_loop R W f run t ctx rw [] ts st = (st, Ok ts)"
| "training_loop R W f run t ctx rw (epoch # epochs) ts st =
     and_then (training_epoch R W f run t ctx rw epoch ts st) (training_loop R W f run t ctx rw epochs)"

section \<open>A whole invocation\<close>

record run_summary =
  su_run :: string
  su_planned :: nat
  su_completed :: nat
  su_failed :: nat
  su_skipped :: nat
  su_checkpoints :: nat

definition evaluate_sessions ::
    "('cfg, 's, 'a, 'c, 'k, 'w) registry \<Rightarrow> ('cfg, 's, 'a, 'obs, 'c, 'm, 'k, 'w) world \<Rightarrow> experiment_file \<Rightarrow> string
      \<Rightarrow> ('c, 'w) artifacts \<Rightarrow> ('c, 'w) artifacts \<times> (experiment_error, 'w execution_batch) outcome" where
  "evaluate_sessions R W f run st =
     (case ef_sessions f of
        None \<Rightarrow> (st, Ok (empty_batch 0))
      | Some ss \<Rightarrow>
          and_then (plan_and_execute R W f run ''evaluation'' 0 ss Map.empty None st) (\<lambda>b st1.
            (st1, Ok (merge_batch (empty_batch 0) b))))"

definition train_learner ::
    "('cfg, 's, 'a, 'c, 'k, 'w) registry \<Rightarrow> ('cfg, 's, 'a, 'obs, 'c, 'm, 'k, 'w) world \<Rightarrow> experiment_file \<Rightarrow> string
      \<Rightarrow> 'w execution_batch \<Rightarrow> ('c, 'w) artifacts
      \<Rightarrow> ('c, 'w) artifacts \<times> (experiment_error, 'w execution_batch \<times> nat) outcome" where
  "train_learner R W f run totals st =
     (case ef_training f of
        None \<Rightarrow> (st, Ok (totals, 0))
      | Some t \<Rightarrow>
          and_then (st, training_setup R f t) (\<lambda>(checkpoint, ctx, rw) st1.
          and_then (training_loop R W f run t ctx rw [1..<tr_epochs t + 1]
              \<lparr>ts_checkpoint = checkpoint, ts_pending = [], ts_count = 0, ts_totals = totals\<rparr> st1) (\<lambda>ts st2.
            (st2, Ok (ts_totals ts, ts_count ts)))))"

text \<open>\<open>spec_json\<close> is the serialisation of the file that the framework derives.\<close>

definition run_experiment ::
    "('cfg, 's, 'a, 'c, 'k, 'w) registry \<Rightarrow> (experiment_file \<Rightarrow> json) \<Rightarrow> ('cfg, 's, 'a, 'obs, 'c, 'm, 'k, 'w) world
      \<Rightarrow> experiment_file \<Rightarrow> ('c, 'w) artifacts \<Rightarrow> ('c, 'w) artifacts \<times> (experiment_error, run_summary) outcome" where
  "run_experiment R spec_json W f st =
     and_then (st, validate_spec R f) (\<lambda>u st0.
     and_then (load_or_create_manifest W (rg_game_id R) (rg_game_version R)
         (hash_value (rg_sha R) (rg_render R) (spec_json f)) st0) (\<lambda>m st1.
     and_then (evaluate_sessions R W f (mf_run m) st1) (\<lambda>totals st2.
     and_then (train_learner R W f (mf_run m) totals st2) (\<lambda>(b, n) st3.
       (st3, Ok \<lparr>su_run = mf_run m, su_planned = eb_planned b, su_completed = eb_completed b,
                 su_failed = eb_failed b, su_skipped = eb_skipped b, su_checkpoints = n\<rparr>)))))"

text \<open>\<open>run_yaml\<close>, from the parsed file on.\<close>

definition run_file ::
    "(string \<rightharpoonup> string) \<Rightarrow> ('cfg, 's, 'a, 'c, 'k, 'w) registry \<Rightarrow> (experiment_file \<Rightarrow> json)
      \<Rightarrow> ('cfg, 's, 'a, 'obs, 'c, 'm, 'k, 'w) world \<Rightarrow> experiment_file \<Rightarrow> ('c, 'w) artifacts
      \<Rightarrow> ('c, 'w) artifacts \<times> (experiment_error, run_summary) outcome" where
  "run_file env R spec_json W f st =
     and_then (st, environment_secrets env (ef_secrets f) R) (\<lambda>R'. run_experiment R' spec_json W f)"

end
