(* ===== verification/Experiment_Demo.thy ===== *)
theory Experiment_Demo
  imports Experiment_Run
begin

text \<open>
  A concrete experiment on which the properties of \<open>Experiment_Properties\<close> are applied: one epoch of
  training of a learner with the eager agent of \<open>Headless_Runs\<close> on the cue choice game, against a
  static dealer. Digests and the text of JSON are constants, since the experiment has one plan.
\<close>

definition demo_factory :: agent_factory where
  "demo_factory = \<lparr>af_definition = \<lparr>def_id = ''dealer'', def_name = ''d'', def_description = [], def_fields = []\<rparr>,
     af_identity = (\<lambda>settings. Ok \<lparr>ai_name = ''eager'', ai_version = ''1''\<rparr>)\<rparr>"

definition demo_registry ::
    "(cue_choice_config, cue_choice_state, cue_choice_action, cue_choice_completion, player_role option, nat) registry" where
  "demo_registry = \<lparr>rg_game_id = ''cue-choice'', rg_game_version = ''1'',
     rg_config = (\<lambda>v. Ok \<lparr>cc_level = Dax\<rparr>), rg_validate_config = (\<lambda>c. Ok ()),
     rg_static = [''dealer'' \<mapsto> demo_factory],
     rg_learners = [''learner'' \<mapsto> \<lparr>ln_resolve = (\<lambda>ref. Ok ''base''), ln_factory = (\<lambda>c. Ok demo_factory)\<rparr>],
     rg_rewards = [''score'' \<mapsto> \<lparr>rw_version = ''1'', rw_validate = (\<lambda>v. Ok ()),
       rw_rewards = (\<lambda>ps before after r a c. Some (case c of None \<Rightarrow> 0 | Some x \<Rightarrow> if comp_correct x then 1 else 0))\<rparr>],
     rg_schedules = built_in_schedules, rg_secrets = Map.empty, rg_digest = (\<lambda>bs. []), rg_sha = (\<lambda>t. ''digest''),
     rg_render = (\<lambda>v. ''{}''), rg_uri = (\<lambda>t. None), rg_yaml = (\<lambda>t. None)\<rparr>"

definition demo_sessions :: session_set where
  "demo_sessions = \<lparr>ss_scenarios = [\<lparr>sc_name = ''s'', sc_config = JObj [], sc_seeds = [7], sc_repetitions = 1\<rparr>],
     ss_player_a = ''learner'', ss_player_b = ''dealer'', ss_mirror = False\<rparr>"

definition demo_training :: training_spec where
  "demo_training = \<lparr>tr_learner = ''learner'', tr_set = demo_sessions, tr_epochs = 1, tr_every = 1,
     tr_reward = ''score'', tr_parameters = JObj []\<rparr>"

definition demo_file :: experiment_file where
  "demo_file = \<lparr>ef_schema = experiment_schema, ef_game = ''cue-choice'', ef_secrets = [],
     ef_agents = [(''learner'', \<lparr>ca_factory = ''learner'', ca_checkpoint = Some JNull, ca_settings = JObj []\<rparr>),
       (''dealer'', \<lparr>ca_factory = ''dealer'', ca_checkpoint = None, ca_settings = JObj []\<rparr>)],
     ef_sessions = None, ef_training = Some demo_training, ef_validation = None,
     ef_schedule = ''alternate_after_action'', ef_first = RoleB, ef_parameters = JObj [], ef_limits = default_limits,
     ef_concurrency = 1, ef_fail_fast = False, ef_trace = TraceResults\<rparr>"

definition demo_world ::
    "(cue_choice_config, cue_choice_state, cue_choice_action, cue_choice_observation, cue_choice_completion,
      nat, player_role option, nat) world" where
  "demo_world = \<lparr>wd_headless = (\<lambda>n. demo_headless), wd_idle = None, wd_train = (\<lambda>ctx base batch. Ok ''next''),
     wd_order = (\<lambda>n ps. ps), wd_fails = (\<lambda>a. False), wd_uuid = ''run''\<rparr>"

lemma demo_file_valid: "validate_spec demo_registry demo_file = Ok ()"
  by code_simp

lemma demo_registry_fields [simp]:
  "rg_game_id demo_registry = ''cue-choice''" "rg_game_version demo_registry = ''1''"
  "rg_config demo_registry v = Ok \<lparr>cc_level = Dax\<rparr>" "rg_static demo_registry = [''dealer'' \<mapsto> demo_factory]"
  "rg_schedules demo_registry = built_in_schedules" "rg_secrets demo_registry = Map.empty"
  by (simp_all add: demo_registry_def)

lemma demo_file_fields [simp]:
  "ef_training demo_file = Some demo_training" "ef_sessions demo_file = None" "ef_validation demo_file = None"
  "ef_schedule demo_file = ''alternate_after_action''" "ef_first demo_file = RoleB" "ef_parameters demo_file = JObj []"
  "ef_limits demo_file = default_limits" "ef_concurrency demo_file = 1" "ef_fail_fast demo_file = False"
  "ef_trace demo_file = TraceResults"
  by (simp_all add: demo_file_def)

lemma demo_checks: "check_known_keys [] [] ''config'' = Ok ()" "\<not> blank ''eager''" "\<not> blank ''1''"
  by code_simp+

lemma demo_settings:
  "agent_settings demo_registry demo_factory (JObj []) = Ok (JObj [], (Map.empty, Map.empty), \<lparr>ai_name = ''eager'', ai_version = ''1''\<rparr>)"
  by (simp add: agent_settings_def normalize_settings_def resolve_secrets_def demo_factory_def ok_or_def
      normalize_object.simps resolve_field_secrets.simps validate_identity_def demo_checks)

lemma demo_learner: "configured_factory demo_registry \<lparr>ca_factory = ''learner'', ca_checkpoint = Some JNull, ca_settings = JObj []\<rparr> (Some c)
    = Ok (demo_factory, Some c)"
  by (simp add: configured_factory_def demo_registry_def)

lemma demo_dealer: "configured_factory demo_registry \<lparr>ca_factory = ''dealer'', ca_checkpoint = None, ca_settings = JObj []\<rparr> None
    = Ok (demo_factory, None)"
  by (simp add: configured_factory_def)

lemma training_setup_reward:
  "training_setup R f t = Ok (c, x, rw) \<Longrightarrow> rg_rewards R (tr_reward t) = Some rw"
  by (auto simp: training_setup_def expect_def split: option.splits prod.splits)

lemma demo_reward: "rg_rewards demo_registry n = Some rw \<Longrightarrow> rw_rewards rw ps s s' role a c \<noteq> None"
  by (auto simp: demo_registry_def split: if_splits)

lemma demo_setup:
  "\<exists>ctx rw. training_setup demo_registry demo_file demo_training = Ok (''base'', ctx, rw) \<and>
     (\<forall>ps s s' role a c. rw_rewards rw ps s s' role a c \<noteq> None)"
proof -
  have "(case training_setup demo_registry demo_file demo_training of Ok x \<Rightarrow> fst x = ''base'' | y \<Rightarrow> False)"
    by code_simp
  then obtain ctx rw where su: "training_setup demo_registry demo_file demo_training = Ok (''base'', ctx, rw)"
    by (auto split: outcome.splits)
  from demo_reward [OF training_setup_reward [OF this]] su show ?thesis by blast
qed

lemma demo_plans:
  assumes "tc_learner cap = ''learner''" "\<And>s s' role a c. tc_rewards cap s s' role a c \<noteq> None"
  shows "\<exists>p. plan_set demo_registry demo_file ''run'' ''training'' 1 demo_sessions [''learner'' \<mapsto> c] (Some cap) = Ok [p] \<and> demo_like p"
proof -
  have "\<exists>seat. resolve_seat demo_registry demo_file ''learner'' RoleA 7 0 leg (Some c) = Ok seat \<and> rs_name seat = ''learner''" for leg
    by (simp add: resolve_seat_def demo_file_def demo_learner demo_settings)
  then obtain seat_a where a: "resolve_seat demo_registry demo_file ''learner'' RoleA 7 0 ''original'' (Some c) = Ok seat_a"
    "rs_name seat_a = ''learner''" by blast
  have "\<exists>seat. resolve_seat demo_registry demo_file ''dealer'' RoleB 7 0 leg None = Ok seat \<and> rs_name seat = ''dealer''" for leg
    by (simp add: resolve_seat_def demo_file_def demo_dealer demo_settings)
  then obtain seat_b where b: "resolve_seat demo_registry demo_file ''dealer'' RoleB 7 0 ''original'' None = Ok seat_b"
    "rs_name seat_b = ''dealer''" by blast
  have co: "coordinates demo_sessions = [(\<lparr>sc_name = ''s'', sc_config = JObj [], sc_seeds = [7], sc_repetitions = 1\<rparr>, 7, 0,
      ''learner'', ''dealer'', Original)]"
    by (simp add: coordinates_def demo_sessions_def assignments_def)
  show ?thesis
    using assms
    by (simp add: plan_set_def co make_plan_def a b built_in_schedules_def require_empty_parameters_def demo_like_def is_learner_def
        rewards_total_def del: not_None_eq
        split: player_role.split)
qed

lemma demo_world_fields [simp]:
  "wd_headless demo_world n = demo_headless" "wd_idle demo_world = None" "wd_train demo_world ctx c b = Ok ''next''"
  "wd_order demo_world n ps = ps" "\<not> wd_fails demo_world a" "wd_uuid demo_world = ''run''"
  by (simp_all add: demo_world_def)

lemma demo_manifest:
  "load_or_create_manifest demo_world g v h no_artifacts =
     (no_artifacts\<lparr>at_manifest := Readable \<lparr>mf_schema = experiment_schema, mf_run = ''run'', mf_game = g, mf_version = v, mf_spec_hash = h\<rparr>\<rparr>,
      Ok \<lparr>mf_schema = experiment_schema, mf_run = ''run'', mf_game = g, mf_version = v, mf_spec_hash = h\<rparr>)"
  by (simp add: load_or_create_manifest_def no_artifacts_def Let_def)

lemma demo_batch:
  assumes "demo_like p" "at_results st (hp_plan p) = Missing"
  shows "\<exists>st1 b. execute_plans demo_world demo_file run [p] st = (st1, Ok b) \<and> \<not> eb_has_failure b \<and> eb_planned b = 1 \<and>
    eb_completed b = 1 \<and> eb_failed b = 0 \<and> eb_skipped b = 0 \<and> at_checkpoints st1 = at_checkpoints st"
proof -
  obtain r where "run_session demo_headless None p = Some r" "hr_status r = RunCompleted"
    using demo_session [OF assms(1)] by blast
  then show ?thesis using assms(2)
    by (simp add: execute_plans_def finalized_result_matches_def empty_batch_def count_result_def Let_def)
qed

lemma demo_run_experiment:
  "\<exists>st. run_experiment demo_registry (\<lambda>f. JNull) demo_world demo_file no_artifacts =
     (st, Ok \<lparr>su_run = ''run'', su_planned = 1, su_completed = 1, su_failed = 0, su_skipped = 0, su_checkpoints = 1\<rparr>)"
proof -
  obtain ctx rw where su: "training_setup demo_registry demo_file demo_training = Ok (''base'', ctx, rw)" and
    rw: "\<And>ps s s' role a c. rw_rewards rw ps s s' role a c \<noteq> None" using demo_setup by blast
  have tr: "tr_epochs demo_training = 1" "tr_every demo_training = 1" "tr_set demo_training = demo_sessions"
    "tr_learner demo_training = ''learner''"
    by (simp_all add: demo_training_def)
  let ?cap = "capture_of demo_training rw ''base''"
  have "tc_learner ?cap = ''learner''" by (simp add: capture_of_def tr)
  moreover have "tc_rewards ?cap s s' role a c \<noteq> None" for s s' role a c using rw by (simp add: capture_of_def)
  ultimately obtain p where
    p: "plan_set demo_registry demo_file ''run'' ''training'' 1 demo_sessions [''learner'' \<mapsto> ''base''] (Some ?cap) = Ok [p]"
      "demo_like p" using demo_plans by blast
  define st0 :: "(cue_choice_completion, nat) artifacts" where "st0 = no_artifacts\<lparr>at_manifest := Readable \<lparr>mf_schema = experiment_schema, mf_run = ''run'',
    mf_game = ''cue-choice'', mf_version = ''1'', mf_spec_hash = hash_value (rg_sha demo_registry) (rg_render demo_registry) JNull\<rparr>\<rparr>"
  have "at_results st0 (hp_plan p) = Missing" by (simp add: st0_def no_artifacts_def)
  from demo_batch [OF p(2) this, where run = "''run''"] obtain st1 b where
    b: "execute_plans demo_world demo_file ''run'' [p] st0 = (st1, Ok b)" "\<not> eb_has_failure b" "eb_planned b = 1"
      "eb_completed b = 1" "eb_failed b = 0" "eb_skipped b = 0" "at_checkpoints st1 = at_checkpoints st0" by blast
  have "at_checkpoints st1 1 = Missing" using b(7) by (simp add: st0_def no_artifacts_def)
  then have nc: "\<exists>st2. next_checkpoint demo_world ctx ''run'' 1 1 ''base'' steps st1 = (st2, Ok ''next'')" for steps
    by (simp add: next_checkpoint_def load_checkpoint_record_def Let_def)
  then obtain st2 where st2: "next_checkpoint demo_world ctx ''run'' 1 1 ''base'' (eb_steps b) st1 = (st2, Ok ''next'')" by blast
  show ?thesis
    by (simp add: run_experiment_def demo_file_valid demo_manifest st0_def [symmetric] evaluate_sessions_def train_learner_def su tr
        training_epoch_def plan_and_execute_def p(1) [simplified] b(1-6) st2 [simplified] validate_checkpoint_def merge_batch_def
        empty_batch_def Let_def cong: and_then_weak_cong)
qed

text \<open>The files it leaves, and its summary.\<close>

definition demo_files :: "(cue_choice_completion, nat) artifacts" where
  "demo_files = fst (run_experiment demo_registry (\<lambda>f. JNull) demo_world demo_file no_artifacts)"

abbreviation demo_summary :: run_summary where
  "demo_summary \<equiv>
     \<lparr>su_run = ''run'', su_planned = 1, su_completed = 1, su_failed = 0, su_skipped = 0, su_checkpoints = 1\<rparr>"

lemma demo_outcome:
  "run_experiment demo_registry (\<lambda>f. JNull) demo_world demo_file no_artifacts = (demo_files, Ok demo_summary)"
  using demo_run_experiment unfolding demo_files_def by fastforce

end
