(* ===== verification/Experiment_Properties.thy ===== *)
theory Experiment_Properties
  imports Experiment_Demo "HOL-Library.Multiset"
begin

text \<open>
  What holds of the invocations of an experiment over the files they leave: finished work is kept and
  never done twice, a finished experiment can be invoked again without effect, the counts of a summary
  add up, and the checkpoints form a chain.
\<close>

section \<open>Progress\<close>

text \<open>A log of work and the files the work writes: files that are there stay, new work is on files that
  were missing, each once, and a settled step has written them all.\<close>

definition advances ::
    "'i list \<times> ('i \<Rightarrow> 'x stored) \<Rightarrow> bool \<Rightarrow> 'i list \<times> ('i \<Rightarrow> 'x stored) \<Rightarrow> bool" where
  "advances a s a' \<longleftrightarrow>
     (\<forall>i. snd a i \<noteq> Missing \<longrightarrow> snd a' i = snd a i) \<and>
     (\<exists>new. fst a' = fst a @ new \<and> distinct new \<and>
        (\<forall>i \<in> set new. snd a i = Missing \<and> (s \<longrightarrow> snd a' i \<noteq> Missing)))"

lemma advances_refl [simp]: "advances a s a"
  by (simp add: advances_def)

lemma advances_trans:
  assumes "advances a True b" "advances b s c"
  shows "advances a s c"
proof -
  obtain xs where xs: "fst b = fst a @ xs" "distinct xs" "\<forall>i \<in> set xs. snd a i = Missing \<and> snd b i \<noteq> Missing"
    using assms(1) by (auto simp: advances_def)
  obtain ys where ys: "fst c = fst b @ ys" "distinct ys" "\<forall>i \<in> set ys. snd b i = Missing \<and> (s \<longrightarrow> snd c i \<noteq> Missing)"
    using assms(2) by (auto simp: advances_def)
  have kept: "\<forall>i. snd a i \<noteq> Missing \<longrightarrow> snd b i = snd a i" "\<forall>i. snd b i \<noteq> Missing \<longrightarrow> snd c i = snd b i"
    using assms by (auto simp: advances_def)
  have "distinct (xs @ ys)" using xs(2,3) ys(2,3) by auto
  moreover have "\<forall>i \<in> set (xs @ ys). snd a i = Missing \<and> (s \<longrightarrow> snd c i \<noteq> Missing)"
    using xs(3) ys(3) kept by (metis Un_iff set_append)
  ultimately show ?thesis
    unfolding advances_def using kept xs(1) ys(1) by (auto intro!: exI [of _ "xs @ ys"])
qed

definition progresses :: "bool \<Rightarrow> ('c, 'w) artifacts \<Rightarrow> ('c, 'w) artifacts \<Rightarrow> bool" where
  "progresses s st st' \<longleftrightarrow>
     advances (at_ran st, at_results st) s (at_ran st', at_results st') \<and>
     advances (at_updates st, at_checkpoints st) s (at_updates st', at_checkpoints st') \<and>
     (at_manifest st \<noteq> Missing \<longrightarrow> at_manifest st' = at_manifest st)"

lemma progresses_weaken: "progresses True a b \<Longrightarrow> progresses s a b"
  by (auto simp: progresses_def advances_def)

definition works :: "('c, 'w) artifacts \<Rightarrow> ('c, 'w) artifacts \<times> ('e, 'x) outcome \<Rightarrow> bool" where
  "works st m \<longleftrightarrow> progresses (is_ok (snd m)) st (fst m)"

lemma works_same [simp]: "works st (st, x)"
  by (simp add: works_def progresses_def)

lemma progresses_trans: "progresses True a b \<Longrightarrow> progresses s b c \<Longrightarrow> progresses s a c"
  unfolding progresses_def by (metis advances_trans)

lemma works_progress: "works st m \<Longrightarrow> m = (st', Ok x) \<Longrightarrow> progresses True st st'"
  by (simp add: works_def)

lemma works_then:
  assumes "works st m" "\<And>x st'. m = (st', Ok x) \<Longrightarrow> works st' (f x st')"
  shows "works st (and_then m f)"
proof (cases m)
  case (Pair st' x)
  then show ?thesis
    using assms progresses_trans by (cases x) (auto simp: works_def)
qed

lemma works_then_same: "(\<And>x. m = Ok x \<Longrightarrow> works st (f x st)) \<Longrightarrow> works st (and_then (st, m) f)"
  by (rule works_then) auto

section \<open>Plans\<close>

text \<open>The plans a file expands to.\<close>

definition plans_of :: "experiment_file \<Rightarrow> string \<Rightarrow> ('cfg, 's, 'a, 'c, 'k, 'w) session_plan list \<Rightarrow> bool" where
  "plans_of f run ps \<longleftrightarrow> distinct (map hp_plan ps) \<and> (\<forall>p \<in> set ps. hp_run p = run \<and> hp_limits p = ef_limits f)"

lemma first_repeated_None: "first_repeated seen is = None \<longleftrightarrow> distinct is \<and> set is \<inter> set seen = {}"
  by (induction "is" arbitrary: seen) auto

lemma make_plan_fields:
  assumes "make_plan R f run ph i overrides capture x = Ok p"
  shows "hp_run p = run" "hp_limits p = ef_limits f"
  using assms by (auto simp: make_plan_def split: prod.splits)

lemma omap_set: "omap f xs = Ok ys \<Longrightarrow> y \<in> set ys \<Longrightarrow> \<exists>x \<in> set xs. f x = Ok y"
  by (induction xs arbitrary: ys) auto

lemma plan_set_plans:
  assumes "plan_set R f run ph i ss overrides capture = Ok ps"
  shows "plans_of f run ps"
proof -
  have om: "omap (make_plan R f run ph i overrides capture) (coordinates ss) = Ok ps"
    and "first_repeated [] (map hp_plan ps) = None"
    using assms by (auto simp: plan_set_def split: option.splits)
  then have "distinct (map hp_plan ps)" by (simp add: first_repeated_None)
  moreover have "hp_run p = run \<and> hp_limits p = ef_limits f" if "p \<in> set ps" for p
    using omap_set [OF om that] make_plan_fields by metis
  ultimately show ?thesis by (simp add: plans_of_def)
qed

section \<open>Running plans\<close>

definition orderly :: "('cfg, 's, 'a, 'obs, 'c, 'm, 'k, 'w) world \<Rightarrow> bool" where
  "orderly W \<longleftrightarrow> (\<forall>n ps. mset (wd_order W n ps) = mset ps)"

definition belongs :: "string \<Rightarrow> ('cfg, 's, 'a, 'c, 'k, 'w) session_plan \<Rightarrow> ('c, 'w) session_result \<Rightarrow> bool" where
  "belongs run p r \<longleftrightarrow> hr_run r = run \<and> hr_plan r = hp_plan p"

definition finalized_ok :: "('c, 'w) artifacts \<Rightarrow> string \<Rightarrow> ('cfg, 's, 'a, 'c, 'k, 'w) session_plan \<Rightarrow> bool" where
  "finalized_ok st run p \<longleftrightarrow> (\<exists>r. at_results st (hp_plan p) = Readable r \<and> belongs run p r)"

definition succeeded :: "('c, 'w) artifacts \<Rightarrow> ('cfg, 's, 'a, 'c, 'k, 'w) session_plan \<Rightarrow> bool" where
  "succeeded st p \<longleftrightarrow> (\<exists>r. at_results st (hp_plan p) = Readable r \<and> is_success (hr_status r))"

lemma skip_finalized_step:
  "skip_finalized st run (p # ps) b pending = Ok y \<longleftrightarrow>
     at_results st (hp_plan p) = Missing \<and> skip_finalized st run ps b (pending @ [p]) = Ok y \<or>
     (\<exists>r. at_results st (hp_plan p) = Readable r \<and> belongs run p r \<and>
        skip_finalized st run ps
          (b\<lparr>eb_skipped := eb_skipped b + 1, eb_steps := eb_steps b @ hr_trajectory r,
             eb_has_failure := (eb_has_failure b \<or> \<not> is_success (hr_status r))\<rparr>) pending = Ok y)"
  by (cases "at_results st (hp_plan p)")
    (auto simp: finalized_result_matches_def load_result_data_def belongs_def)

lemma skip_finalized_pending:
  assumes "skip_finalized st run ps b pending = Ok (b', out)"
  shows "out = pending @ filter (\<lambda>p. at_results st (hp_plan p) = Missing) ps \<and>
    (\<forall>p \<in> set ps. at_results st (hp_plan p) = Missing \<or> finalized_ok st run p) \<and>
    eb_planned b' = eb_planned b \<and> eb_completed b' = eb_completed b \<and> eb_failed b' = eb_failed b \<and>
    eb_skipped b' + length out = eb_skipped b + length pending + length ps \<and>
    (eb_has_failure b' \<longleftrightarrow> eb_has_failure b \<or> (\<exists>p \<in> set ps. at_results st (hp_plan p) \<noteq> Missing \<and> \<not> succeeded st p))"
  using assms
proof (induction ps arbitrary: b pending)
  case (Cons p ps)
  from Cons.prems [unfolded skip_finalized_step] show ?case
  proof (elim disjE conjE exE)
    assume "at_results st (hp_plan p) = Missing" "skip_finalized st run ps b (pending @ [p]) = Ok (b', out)"
    then show ?thesis using Cons.IH by fastforce
  next
    fix r
    assume r: "at_results st (hp_plan p) = Readable r" "belongs run p r"
      and rest: "skip_finalized st run ps
          (b\<lparr>eb_skipped := eb_skipped b + 1, eb_steps := eb_steps b @ hr_trajectory r,
             eb_has_failure := (eb_has_failure b \<or> \<not> is_success (hr_status r))\<rparr>) pending = Ok (b', out)"
    show ?thesis using Cons.IH [OF rest] r by (auto simp: finalized_ok_def succeeded_def)
  qed
qed simp

lemma run_pending_works:
  assumes "distinct (map hp_plan ps)"
    "\<forall>p \<in> set ps. at_results st (hp_plan p) = Missing \<and> validate_limits (hp_limits p) = Ok ()"
  shows "works st (run_pending W ff ps b st)"
  using assms
proof (induction ps arbitrary: b st)
  case (Cons p ps)
  let ?st1 = "st\<lparr>at_ran := at_ran st @ [hp_plan p]\<rparr>"
  have miss: "at_results st (hp_plan p) = Missing" using Cons.prems(2) by simp
  have begun: "progresses False st ?st1"
    using miss by (auto simp: progresses_def advances_def)
  show ?case
  proof (cases "run_session (wd_headless W (length (at_ran st))) (wd_idle W) p")
    case None
    then show ?thesis using begun by (simp add: works_def Let_def)
  next
    case (Some r)
    then have r: "hr_plan r = hp_plan p" using run_session_identity Cons.prems(2) by (metis list.set_intros(1))
    let ?st2 = "?st1\<lparr>at_results := (at_results ?st1)(hr_plan r := Readable r)\<rparr>"
    have finished: "progresses True st ?st2"
      using miss r by (auto simp: progresses_def advances_def)
    have rest: "works ?st2 (run_pending W ff ps (count_result r b) ?st2)"
      by (rule Cons.IH) (use Cons.prems r in \<open>auto simp: image_iff\<close>)
    show ?thesis
    proof (cases "wd_fails W (ResultFile (hr_plan r)) \<or> ff \<and> \<not> is_success (hr_status r)")
      case True
      then show ?thesis
        using Some begun progresses_weaken [OF finished, of False] by (auto simp: works_def Let_def)
    next
      case False
      then have "run_pending W ff (p # ps) b st = run_pending W ff ps (count_result r b) ?st2"
        using Some by (auto simp: Let_def)
      then show ?thesis using rest progresses_trans [OF finished] by (simp add: works_def)
    qed
  qed
qed simp

lemma execute_plans_works:
  assumes "orderly W" "plans_of f run ps" "validate_limits (ef_limits f) = Ok ()"
  shows "works st (execute_plans W f run ps st)"
  unfolding execute_plans_def Let_def
proof (rule works_then_same, clarify)
  fix b out
  assume "skip_finalized st run ps (empty_batch (length ps)) [] = Ok (b, out)"
  then have out: "out = filter (\<lambda>p. at_results st (hp_plan p) = Missing) ps"
    using skip_finalized_pending by fastforce
  let ?order = "if (if ef_fail_fast f then 1 else ef_concurrency f) = 1 then out else wd_order W (length (at_ran st)) out"
  have m: "mset ?order = mset out" using assms(1) by (simp add: orderly_def)
  have "distinct (map hp_plan out)" using assms(2) out by (simp add: plans_of_def distinct_map_filter)
  then have "distinct (map hp_plan ?order)" by (metis m mset_eq_imp_distinct_iff mset_map)
  moreover have "\<forall>p \<in> set ?order. at_results st (hp_plan p) = Missing \<and> validate_limits (hp_limits p) = Ok ()"
    unfolding mset_eq_setD [OF m] using assms(2,3) out by (auto simp: plans_of_def)
  ultimately show "works st (run_pending W (ef_fail_fast f) ?order b st)" by (rule run_pending_works)
qed

lemma plan_and_execute_works:
  assumes "orderly W" "validate_limits (ef_limits f) = Ok ()"
  shows "works st (plan_and_execute R W f run ph i ss overrides capture st)"
  unfolding plan_and_execute_def
  by (rule works_then_same) (rule execute_plans_works [OF assms(1) plan_set_plans assms(2)])

section \<open>Training\<close>

lemma next_checkpoint_works: "works st (next_checkpoint W ctx run epoch n checkpoint steps st)"
proof -
  have "works st (and_then (st\<lparr>at_updates := at_updates st @ [n]\<rparr>, m) (\<lambda>next st2.
      if wd_fails W (CheckpointFile n) then (st2, Err (WriteFailed ''checkpoint''))
      else (st2\<lparr>at_checkpoints := (at_checkpoints st2)(n := Readable (c next))\<rparr>, Ok next)))"
    if "at_checkpoints st n = Missing" for m c
    using that by (cases m) (auto simp: works_def progresses_def advances_def)
  then show ?thesis
    unfolding next_checkpoint_def Let_def
    by (intro works_then_same) (auto simp: load_checkpoint_record_def split: option.split stored.splits if_splits)
qed

lemma validate_checkpoint_works:
  assumes "orderly W" "validate_limits (ef_limits f) = Ok ()"
  shows "works st (validate_checkpoint R W f run t ts st)"
  unfolding validate_checkpoint_def
  by (auto split: option.split intro!: works_then plan_and_execute_works [OF assms])

lemma training_epoch_works:
  assumes "orderly W" "validate_limits (ef_limits f) = Ok ()"
  shows "works st (training_epoch R W f run t ctx rw epoch ts st)"
  unfolding training_epoch_def Let_def
  by (auto intro!: works_then plan_and_execute_works [OF assms] next_checkpoint_works validate_checkpoint_works [OF assms])

lemma training_loop_works:
  assumes "orderly W" "validate_limits (ef_limits f) = Ok ()"
  shows "works st (training_loop R W f run t ctx rw epochs ts st)"
proof (induction epochs arbitrary: ts st)
  case (Cons epoch epochs)
  then show ?case by (simp add: works_then [OF training_epoch_works [OF assms]])
qed simp

lemma run_experiment_works:
  assumes "orderly W"
  shows "works st (run_experiment R spec_json W f st)"
  unfolding run_experiment_def
proof (rule works_then_same, rule works_then)
  show "works st (load_or_create_manifest W game version h st)" for game version h
    by (auto simp: load_or_create_manifest_def works_def progresses_def Let_def split: stored.split)
next
  fix u m st1
  assume "validate_spec R f = Ok u"
  then have lim: "validate_limits (ef_limits f) = Ok ()" by (auto simp: validate_spec_def split: if_splits)
  note parts = plan_and_execute_works [OF assms lim] training_loop_works [OF assms lim]
  have "works st1 (evaluate_sessions R W f run st1)" for run
    unfolding evaluate_sessions_def by (auto split: option.split intro!: works_then parts)
  moreover have "works st2 (train_learner R W f run totals st2)" for run totals st2
    unfolding train_learner_def by (auto split: option.split intro!: works_then_same works_then parts)
  ultimately show "works st1 (and_then (evaluate_sessions R W f (mf_run m) st1) (\<lambda>totals st2.
      and_then (train_learner R W f (mf_run m) totals st2) (\<lambda>(b, n) st3.
        (st3, Ok \<lparr>su_run = mf_run m, su_planned = eb_planned b, su_completed = eb_completed b,
                  su_failed = eb_failed b, su_skipped = eb_skipped b, su_checkpoints = n\<rparr>))))"
    by (auto intro!: works_then)
qed

section \<open>Finished plans\<close>

lemma stored_later:
  assumes "progresses s st st'"
  shows "finalized_ok st run p \<Longrightarrow> finalized_ok st' run p" "succeeded st p \<Longrightarrow> succeeded st' p"
  using assms by (auto simp: progresses_def advances_def finalized_ok_def succeeded_def)

lemma run_pending_finished:
  assumes "run_pending W ff ps b st = (st', Ok b')" "distinct (map hp_plan ps)"
    "\<forall>p \<in> set ps. at_results st (hp_plan p) = Missing \<and> validate_limits (hp_limits p) = Ok () \<and> hp_run p = run"
  shows "(\<forall>p \<in> set ps. finalized_ok st' run p \<and> (\<not> eb_has_failure b' \<longrightarrow> succeeded st' p)) \<and>
    eb_planned b' = eb_planned b \<and> eb_skipped b' = eb_skipped b \<and>
    eb_completed b' + eb_failed b' = eb_completed b + eb_failed b + length ps \<and>
    length (at_ran st') = length (at_ran st) + length ps \<and> (eb_has_failure b \<longrightarrow> eb_has_failure b')"
  using assms
proof (induction ps arbitrary: b st)
  case (Cons p ps)
  let ?st1 = "st\<lparr>at_ran := at_ran st @ [hp_plan p]\<rparr>"
  obtain r where Some: "run_session (wd_headless W (length (at_ran st))) (wd_idle W) p = Some r"
    using Cons.prems(1) by (cases "run_session (wd_headless W (length (at_ran st))) (wd_idle W) p") (auto simp: Let_def)
  have r: "hr_plan r = hp_plan p" "hr_run r = run" using run_session_identity [OF _ Some] Cons.prems(3) by auto
  let ?st2 = "?st1\<lparr>at_results := (at_results ?st1)(hr_plan r := Readable r)\<rparr>"
  have rest: "run_pending W ff ps (count_result r b) ?st2 = (st', Ok b')"
    using Cons.prems(1) Some by (auto simp: Let_def split: if_splits)
  have pre: "distinct (map hp_plan ps)"
    "\<forall>p \<in> set ps. at_results ?st2 (hp_plan p) = Missing \<and> validate_limits (hp_limits p) = Ok () \<and> hp_run p = run"
    using Cons.prems(2,3) r by (auto simp: image_iff)
  note ih = Cons.IH [OF rest pre]
  have "progresses True ?st2 st'" using run_pending_works [OF pre(1), of ?st2 W ff "count_result r b"] pre(2) rest
    by (simp add: works_def)
  moreover have "finalized_ok ?st2 run p" using r by (simp add: finalized_ok_def belongs_def)
  moreover have "succeeded ?st2 p" if "\<not> eb_has_failure b'"
  proof -
    have "\<not> eb_has_failure (count_result r b)" using ih that by blast
    then show ?thesis using r by (auto simp: succeeded_def count_result_def Let_def split: if_splits)
  qed
  ultimately have "finalized_ok st' run p \<and> (\<not> eb_has_failure b' \<longrightarrow> succeeded st' p)" using stored_later by blast
  then show ?case using ih by (auto simp: count_result_def Let_def split: if_splits)
qed simp

lemma empty_batch_fields [simp]:
  "eb_planned (empty_batch n) = n" "eb_completed (empty_batch n) = 0" "eb_failed (empty_batch n) = 0"
  "eb_skipped (empty_batch n) = 0" "eb_has_failure (empty_batch n) = False"
  by (simp_all add: empty_batch_def)

lemma execute_plans_finished:
  assumes "execute_plans W f run ps st = (st', Ok b)" "orderly W" "plans_of f run ps"
    "validate_limits (ef_limits f) = Ok ()"
  shows "(\<forall>p \<in> set ps. finalized_ok st' run p \<and> (\<not> eb_has_failure b \<longrightarrow> succeeded st' p)) \<and>
    eb_planned b = length ps \<and> eb_completed b + eb_failed b + eb_skipped b = eb_planned b \<and>
    length (at_ran st') = length (at_ran st) + eb_completed b + eb_failed b"
proof -
  obtain b0 out where skip: "skip_finalized st run ps (empty_batch (length ps)) [] = Ok (b0, out)"
    and run: "run_pending W (ef_fail_fast f)
        (if (if ef_fail_fast f then 1 else ef_concurrency f) = 1 then out else wd_order W (length (at_ran st)) out) b0 st = (st', Ok b)"
    using assms(1) by (auto simp: execute_plans_def and_then_Ok Let_def)
  let ?order = "if (if ef_fail_fast f then 1 else ef_concurrency f) = 1 then out else wd_order W (length (at_ran st)) out"
  note sk = skip_finalized_pending [OF skip]
  have m: "mset ?order = mset out" using assms(2) by (simp add: orderly_def)
  have "distinct (map hp_plan out)" using assms(3) sk by (simp add: plans_of_def distinct_map_filter)
  then have d: "distinct (map hp_plan ?order)" by (metis m mset_eq_imp_distinct_iff mset_map)
  have miss: "\<forall>p \<in> set ?order. at_results st (hp_plan p) = Missing \<and> validate_limits (hp_limits p) = Ok () \<and> hp_run p = run"
    unfolding mset_eq_setD [OF m] using assms(3,4) sk by (auto simp: plans_of_def)
  note fin = run_pending_finished [OF run d miss]
  have len: "length ?order = length out" by (metis m size_mset)
  have works: "progresses True st st'" using execute_plans_works [OF assms(2-4), of st] assms(1) by (simp add: works_def)
  have "finalized_ok st' run p \<and> (\<not> eb_has_failure b \<longrightarrow> succeeded st' p)" if p: "p \<in> set ps" for p
  proof (cases "at_results st (hp_plan p) = Missing")
    case True
    then have "p \<in> set ?order" using p sk mset_eq_setD [OF m] by simp
    then show ?thesis using fin by blast
  next
    case False
    then have "finalized_ok st run p" "\<not> eb_has_failure b0 \<longrightarrow> succeeded st p" using p sk by blast+
    then show ?thesis using stored_later [OF works] fin by blast
  qed
  moreover have "eb_skipped b0 + length out = length ps" "eb_planned b0 = length ps" "eb_completed b0 = 0" "eb_failed b0 = 0"
    using sk unfolding empty_batch_fields list.size(3) add_0 add_0_right by blast+
  ultimately show ?thesis using fin [unfolded len] by simp
qed

section \<open>Invoking again\<close>

definition quiet :: "'w execution_batch \<Rightarrow> nat \<Rightarrow> bool" where
  "quiet b n \<longleftrightarrow> eb_planned b = n \<and> eb_skipped b = n \<and> eb_completed b = 0 \<and> eb_failed b = 0"

lemma quiet_merge: "quiet a m \<Longrightarrow> quiet b n \<Longrightarrow> quiet (merge_batch a b) (m + n)"
  by (simp add: quiet_def merge_batch_def)

lemma skip_all:
  assumes "\<forall>p \<in> set ps. finalized_ok st run p"
  shows "\<exists>b'. skip_finalized st run ps b pending = Ok (b', pending)"
  using assms
proof (induction ps arbitrary: b)
  case (Cons p ps)
  then show ?case by (fastforce simp: finalized_ok_def finalized_result_matches_def load_result_data_def belongs_def)
qed simp

lemma execute_plans_idle:
  assumes "\<forall>p \<in> set ps. finalized_ok st run p" "orderly W"
  shows "\<exists>b. execute_plans W f run ps st = (st, Ok b) \<and> quiet b (length ps) \<and>
    ((\<forall>p \<in> set ps. succeeded st p) \<longrightarrow> \<not> eb_has_failure b)"
proof -
  obtain b where b: "skip_finalized st run ps (empty_batch (length ps)) [] = Ok (b, [])"
    using skip_all [OF assms(1)] by blast
  have "wd_order W n [] = []" for n using assms(2) by (metis mset_zero_iff orderly_def)
  then have "execute_plans W f run ps st = (st, Ok b)" using b by (simp add: execute_plans_def Let_def)
  moreover note skip_finalized_pending [OF b]
  ultimately show ?thesis by (auto simp: quiet_def empty_batch_def)
qed

lemma plan_and_execute_idle:
  assumes "plan_and_execute R W f run ph i ss ov capture st = (st1, Ok b)" "progresses True st1 st2"
    "orderly W" "orderly W'" "validate_limits (ef_limits f) = Ok ()"
  shows "\<exists>b'. plan_and_execute R W' f run ph i ss ov capture st2 = (st2, Ok b') \<and> quiet b' (eb_planned b) \<and>
    (\<not> eb_has_failure b \<longrightarrow> \<not> eb_has_failure b')"
proof -
  obtain ps where ps: "plan_set R f run ph i ss ov capture = Ok ps" and ex: "execute_plans W f run ps st = (st1, Ok b)"
    using assms(1) by (auto simp: plan_and_execute_def and_then_Ok)
  note fin = execute_plans_finished [OF ex assms(3) plan_set_plans [OF ps] assms(5)]
  have "\<forall>p \<in> set ps. finalized_ok st2 run p" using fin stored_later(1) [OF assms(2)] by blast
  from execute_plans_idle [OF this assms(4), of f]
  obtain b' where "execute_plans W' f run ps st2 = (st2, Ok b')" "quiet b' (length ps)"
      "(\<forall>p \<in> set ps. succeeded st2 p) \<longrightarrow> \<not> eb_has_failure b'"
    by blast
  moreover have "\<not> eb_has_failure b \<longrightarrow> (\<forall>p \<in> set ps. succeeded st2 p)" using fin stored_later(2) [OF assms(2)] by blast
  ultimately show ?thesis using ps fin by (auto simp: plan_and_execute_def)
qed

lemma next_checkpoint_record:
  assumes "next_checkpoint W ctx run epoch n c steps st = (st1, Ok x)"
  shows "\<exists>rec. at_checkpoints st1 n = Readable rec \<and> cp_run rec = run \<and> cp_number rec = n \<and> cp_checkpoint rec = x"
  using assms by (auto simp: next_checkpoint_def load_checkpoint_record_def and_then_Ok Let_def
      split: stored.splits if_splits option.splits)

lemma next_checkpoint_idle:
  assumes "next_checkpoint W ctx run epoch n c steps st = (st1, Ok x)" "progresses True st1 st2"
  shows "next_checkpoint W' ctx run epoch n c' steps' st2 = (st2, Ok x)"
proof -
  obtain rec where rec: "at_checkpoints st1 n = Readable rec" "cp_run rec = run" "cp_number rec = n" "cp_checkpoint rec = x"
    using next_checkpoint_record [OF assms(1)] by blast
  then have "at_checkpoints st2 n = Readable rec" using assms(2) by (simp add: progresses_def advances_def)
  then show ?thesis using rec by (simp add: next_checkpoint_def load_checkpoint_record_def)
qed

text \<open>The later invocation is at the same checkpoint, with nothing done.\<close>

definition resumes :: "'w training_state \<Rightarrow> 'w training_state \<Rightarrow> bool" where
  "resumes ts ts' \<longleftrightarrow> ts_checkpoint ts' = ts_checkpoint ts \<and> ts_count ts' = ts_count ts \<and>
     quiet (ts_totals ts') (eb_planned (ts_totals ts))"

lemma validate_checkpoint_idle:
  assumes "validate_checkpoint R W f run t ts st = (st1, Ok ts1)" "progresses True st1 st2" "resumes ts ts'"
    "orderly W" "orderly W'" "validate_limits (ef_limits f) = Ok ()"
  shows "\<exists>ts1'. validate_checkpoint R W' f run t ts' st2 = (st2, Ok ts1') \<and> resumes ts1 ts1'"
proof (cases "\<exists>v. ef_validation f = Some v \<and> va_every v dvd ts_count ts")
  case True
  then obtain v where v: "ef_validation f = Some v" "va_every v dvd ts_count ts" by blast
  then obtain b where b: "plan_and_execute R W f run ''validation'' (ts_count ts) (va_set v)
        [tr_learner t \<mapsto> ts_checkpoint ts] None st = (st1, Ok b)" "ts1 = ts\<lparr>ts_totals := merge_batch (ts_totals ts) b\<rparr>"
    using assms(1) by (auto simp: validate_checkpoint_def and_then_Ok)
  from plan_and_execute_idle [OF b(1) assms(2,4-6)] show ?thesis
    using v b(2) assms(3) quiet_merge by (fastforce simp: validate_checkpoint_def resumes_def merge_batch_def)
next
  case False
  then show ?thesis using assms(1,3) by (auto simp: validate_checkpoint_def resumes_def split: option.splits)
qed

lemma training_epoch_idle:
  assumes "training_epoch R W f run t ctx rw epoch ts st = (st1, Ok ts1)" "progresses True st1 st2" "resumes ts ts'"
    "orderly W" "orderly W'" "validate_limits (ef_limits f) = Ok ()"
  shows "\<exists>ts1'. training_epoch R W' f run t ctx rw epoch ts' st2 = (st2, Ok ts1') \<and> resumes ts1 ts1'"
proof -
  let ?exec = "\<lambda>V z. plan_and_execute R V f run ''training'' epoch (tr_set t) [tr_learner t \<mapsto> ts_checkpoint ts]
         (Some (capture_of t rw (ts_checkpoint ts))) z"
  let ?ts1 = "\<lambda>ts b. ts\<lparr>ts_pending := ts_pending ts @ eb_steps b, ts_totals := merge_batch (ts_totals ts) b\<rparr>"
  obtain sta b where ex: "?exec W st = (sta, Ok b)" and nf: "\<not> eb_has_failure b"
    and rest: "(if \<not> tr_every t dvd epoch then (sta, Ok (?ts1 ts b)) else
         and_then (next_checkpoint W ctx run epoch (ts_count ts + 1) (ts_checkpoint ts) (ts_pending ts @ eb_steps b) sta)
           (\<lambda>checkpoint. validate_checkpoint R W f run t
              ((?ts1 ts b)\<lparr>ts_checkpoint := checkpoint, ts_pending := [], ts_count := ts_count ts + 1\<rparr>))) = (st1, Ok ts1)"
    using assms(1) by (auto simp: training_epoch_def and_then_Ok Let_def split: if_splits)
  have pos: "ts_checkpoint ts' = ts_checkpoint ts" "ts_count ts' = ts_count ts" using assms(3) by (simp_all add: resumes_def)
  have same: "resumes ((?ts1 ts b)\<lparr>ts_checkpoint := c, ts_pending := [], ts_count := n\<rparr>)
      ((?ts1 ts' b')\<lparr>ts_checkpoint := c, ts_pending := [], ts_count := n\<rparr>)" "resumes (?ts1 ts b) (?ts1 ts' b')"
    if "quiet b' (eb_planned b)" for b' c n
    using assms(3) quiet_merge [OF _ that] by (simp_all add: resumes_def merge_batch_def)
  show ?thesis
  proof (cases "tr_every t dvd epoch")
    case False
    then have "sta = st1" "ts1 = ?ts1 ts b" using rest by simp_all
    with plan_and_execute_idle [OF ex _ assms(4-6), of st2] assms(2)
    obtain b' where "?exec W' st2 = (st2, Ok b')" "quiet b' (eb_planned b)" "\<not> eb_has_failure b'" using nf by blast
    then show ?thesis
      using False pos same(2) [of b'] \<open>ts1 = _\<close> by (simp add: training_epoch_def Let_def)
  next
    case True
    then obtain stb c where nc: "next_checkpoint W ctx run epoch (ts_count ts + 1) (ts_checkpoint ts)
          (ts_pending ts @ eb_steps b) sta = (stb, Ok c)"
      and vc: "validate_checkpoint R W f run t
          ((?ts1 ts b)\<lparr>ts_checkpoint := c, ts_pending := [], ts_count := ts_count ts + 1\<rparr>) stb = (st1, Ok ts1)"
      using rest by (auto simp: and_then_Ok)
    have b2: "progresses True stb st2"
      by (rule progresses_trans [OF works_progress [OF validate_checkpoint_works [OF assms(4,6)] vc] assms(2)])
    have a2: "progresses True sta st2"
      by (rule progresses_trans [OF works_progress [OF next_checkpoint_works nc] b2])
    from plan_and_execute_idle [OF ex a2 assms(4-6)]
    obtain b' where b': "?exec W' st2 = (st2, Ok b')" "quiet b' (eb_planned b)" "\<not> eb_has_failure b'" using nf by blast
    from validate_checkpoint_idle [OF vc assms(2) same(1) [OF b'(2)] assms(4-6)]
    obtain ts1' where "validate_checkpoint R W' f run t
        ((?ts1 ts' b')\<lparr>ts_checkpoint := c, ts_pending := [], ts_count := ts_count ts + 1\<rparr>) st2 = (st2, Ok ts1')" "resumes ts1 ts1'"
      by blast
    then show ?thesis
      using b' pos True next_checkpoint_idle [OF nc b2, of W'] by (simp add: training_epoch_def Let_def)
  qed
qed

lemma training_loop_idle:
  assumes "training_loop R W f run t ctx rw epochs ts st = (st1, Ok ts1)" "progresses True st1 st2" "resumes ts ts'"
    "orderly W" "orderly W'" "validate_limits (ef_limits f) = Ok ()"
  shows "\<exists>ts1'. training_loop R W' f run t ctx rw epochs ts' st2 = (st2, Ok ts1') \<and> resumes ts1 ts1'"
  using assms(1,3)
proof (induction epochs arbitrary: ts st ts')
  case (Cons epoch epochs)
  then obtain sta tsa where a: "training_epoch R W f run t ctx rw epoch ts st = (sta, Ok tsa)"
      "training_loop R W f run t ctx rw epochs tsa sta = (st1, Ok ts1)"
    by (auto simp: and_then_Ok)
  have "progresses True sta st2"
    by (rule progresses_trans [OF works_progress [OF training_loop_works [OF assms(4,6)] a(2)] assms(2)])
  from training_epoch_idle [OF a(1) this Cons.prems(2) assms(4-6)]
  obtain tsa' where "training_epoch R W' f run t ctx rw epoch ts' st2 = (st2, Ok tsa')" "resumes tsa tsa'" by blast
  then show ?case using Cons.IH [OF a(2)] by simp
qed simp

lemma run_experiment_parts:
  assumes "run_experiment R spec_json W f st = (st', Ok su)"
  obtains m sta totals stb b n where "validate_spec R f = Ok ()"
    "load_or_create_manifest W (rg_game_id R) (rg_game_version R) (hash_value (rg_sha R) (rg_render R) (spec_json f)) st = (sta, Ok m)"
    "evaluate_sessions R W f (mf_run m) sta = (stb, Ok totals)"
    "train_learner R W f (mf_run m) totals stb = (st', Ok (b, n))"
    "su = \<lparr>su_run = mf_run m, su_planned = eb_planned b, su_completed = eb_completed b,
       su_failed = eb_failed b, su_skipped = eb_skipped b, su_checkpoints = n\<rparr>"
  using assms by (auto simp: run_experiment_def and_then_Ok)

lemma validated_limits: "validate_spec R f = Ok u \<Longrightarrow> validate_limits (ef_limits f) = Ok ()"
  by (auto simp: validate_spec_def split: if_splits)

lemma manifest_idle:
  assumes "load_or_create_manifest W game version h st = (st1, Ok m)" "progresses True st1 st2"
  shows "load_or_create_manifest W' game version h st2 = (st2, Ok m)"
proof -
  have "at_manifest st1 = Readable m \<and> mf_schema m = experiment_schema \<and> mf_game m = game \<and> mf_version m = version \<and>
      mf_spec_hash m = h"
    using assms(1) by (auto simp: load_or_create_manifest_def Let_def split: stored.splits if_splits)
  moreover from this have "at_manifest st2 = Readable m" using assms(2) by (simp add: progresses_def)
  ultimately show ?thesis by (simp add: load_or_create_manifest_def)
qed

lemma evaluate_sessions_works:
  assumes "orderly W" "validate_limits (ef_limits f) = Ok ()"
  shows "works st (evaluate_sessions R W f run st)"
  unfolding evaluate_sessions_def
  by (auto split: option.split intro!: works_then plan_and_execute_works [OF assms])

lemma train_learner_works:
  assumes "orderly W" "validate_limits (ef_limits f) = Ok ()"
  shows "works st (train_learner R W f run totals st)"
  unfolding train_learner_def
  by (auto split: option.split intro!: works_then_same works_then training_loop_works [OF assms])

lemma evaluate_sessions_idle:
  assumes "evaluate_sessions R W f run st = (st1, Ok totals)" "progresses True st1 st2"
    "orderly W" "orderly W'" "validate_limits (ef_limits f) = Ok ()"
  shows "\<exists>totals'. evaluate_sessions R W' f run st2 = (st2, Ok totals') \<and> quiet totals' (eb_planned totals)"
proof (cases "ef_sessions f")
  case None
  then show ?thesis using assms(1) by (auto simp: evaluate_sessions_def quiet_def empty_batch_def)
next
  case (Some ss)
  then obtain b where b: "plan_and_execute R W f run ''evaluation'' 0 ss Map.empty None st = (st1, Ok b)"
      "totals = merge_batch (empty_batch 0) b"
    using assms(1) by (auto simp: evaluate_sessions_def and_then_Ok)
  from plan_and_execute_idle [OF b(1) assms(2-5)] show ?thesis
    using Some b(2) by (auto simp: evaluate_sessions_def quiet_def merge_batch_def empty_batch_def)
qed

lemma train_learner_idle:
  assumes "train_learner R W f run totals st = (st1, Ok (b, n))" "progresses True st1 st2"
    "orderly W" "orderly W'" "validate_limits (ef_limits f) = Ok ()" "quiet totals' (eb_planned totals)"
  shows "\<exists>b'. train_learner R W' f run totals' st2 = (st2, Ok (b', n)) \<and> quiet b' (eb_planned b)"
proof (cases "ef_training f")
  case None
  then show ?thesis using assms(1,6) by (auto simp: train_learner_def)
next
  case (Some t)
  then obtain c ctx rw ts where su: "training_setup R f t = Ok (c, ctx, rw)"
    and loop: "training_loop R W f run t ctx rw [1..<tr_epochs t + 1]
        \<lparr>ts_checkpoint = c, ts_pending = [], ts_count = 0, ts_totals = totals\<rparr> st = (st1, Ok ts)"
    and out: "b = ts_totals ts" "n = ts_count ts"
    using assms(1) by (auto simp: train_learner_def and_then_Ok)
  have "resumes \<lparr>ts_checkpoint = c, ts_pending = [], ts_count = 0, ts_totals = totals\<rparr>
      \<lparr>ts_checkpoint = c, ts_pending = [], ts_count = 0, ts_totals = totals'\<rparr>"
    using assms(6) by (simp add: resumes_def)
  from training_loop_idle [OF loop assms(2) this assms(3-5)] obtain ts' where
      "training_loop R W' f run t ctx rw [1..<tr_epochs t + 1]
        \<lparr>ts_checkpoint = c, ts_pending = [], ts_count = 0, ts_totals = totals'\<rparr> st2 = (st2, Ok ts')" "resumes ts ts'"
    by blast
  then show ?thesis using Some su out by (auto simp: train_learner_def resumes_def)
qed

section \<open>The chain of checkpoints\<close>

text \<open>What a step leaves: \<open>E\<close> in any case, and \<open>Q\<close> of the value it returns.\<close>

definition leaves :: "('y \<Rightarrow> 'd \<Rightarrow> bool) \<Rightarrow> ('d \<Rightarrow> bool) \<Rightarrow> 'd \<times> ('e, 'y) outcome \<Rightarrow> bool" where
  "leaves Q E m \<longleftrightarrow> E (fst m) \<and> (\<forall>y. snd m = Ok y \<longrightarrow> Q y (fst m))"

lemma leaves_simps [simp]:
  "leaves Q E (st, Ok y) \<longleftrightarrow> E st \<and> Q y st" "leaves Q E (st, Err e) \<longleftrightarrow> E st" "leaves Q E (st, Panic) \<longleftrightarrow> E st"
  by (auto simp: leaves_def)

lemma leaves_then:
  assumes "leaves Q E m" "\<And>y st. Q y st \<Longrightarrow> leaves Q' E (f y st)"
  shows "leaves Q' E (and_then m f)"
proof (cases m)
  case (Pair st r)
  then show ?thesis using assms by (cases r) simp_all
qed

lemma leaves_start:
  assumes "E st" "\<And>y. m = Ok y \<Longrightarrow> leaves Q E (f y st)"
  shows "leaves Q E (and_then (st, m) f)"
  using assms by (cases m) simp_all

lemma leaves_weaken:
  "leaves Q E m \<Longrightarrow> (\<And>y st. Q y st \<Longrightarrow> Q' y st) \<Longrightarrow> (\<And>st. E st \<Longrightarrow> E' st) \<Longrightarrow> leaves Q' E' m"
  by (simp add: leaves_def)

lemma run_pending_checkpoints: "at_checkpoints (fst (run_pending W ff ps b st)) = at_checkpoints st"
  by (induction ps arbitrary: b st) (simp_all add: Let_def split: option.split)

lemma plan_and_execute_leaves:
  assumes "I (at_checkpoints st)"
  shows "leaves (\<lambda>b st'. I (at_checkpoints st')) (\<lambda>st'. I (at_checkpoints st')) (plan_and_execute R W f run ph i ss ov capture st)"
  unfolding plan_and_execute_def execute_plans_def
  by (intro leaves_start assms)
    (auto simp: leaves_def Let_def run_pending_checkpoints assms intro!: leaves_start [unfolded leaves_def])

text \<open>Each record starts from the checkpoint of the one before, the first from the initial checkpoint.\<close>

definition chained :: "string \<Rightarrow> (nat \<Rightarrow> checkpoint_record stored) \<Rightarrow> bool" where
  "chained c0 F \<longleftrightarrow> (\<forall>n r. F (Suc n) = Readable r \<longrightarrow>
     (if n = 0 then cp_base r = c0 else \<exists>q. F n = Readable q \<and> cp_base r = cp_checkpoint q))"

text \<open>The state of a training at its checkpoint \<open>n\<close>, with the records of its run up to it.\<close>

definition at_link :: "string \<Rightarrow> string \<Rightarrow> nat \<Rightarrow> string \<Rightarrow> (nat \<Rightarrow> checkpoint_record stored) \<Rightarrow> bool" where
  "at_link c0 run n c F \<longleftrightarrow> chained c0 F \<and>
     (if n = 0 then c = c0 else \<exists>q. F n = Readable q \<and> cp_checkpoint q = c) \<and>
     (\<forall>k \<in> {1..n}. \<exists>r. F k = Readable r \<and> cp_run r = run \<and> cp_number r = k)"

abbreviation link_or_chain where
  "link_or_chain c0 L m \<equiv> leaves (\<lambda>y st. L y (at_checkpoints st)) (\<lambda>st. chained c0 (at_checkpoints st)) m"

lemma at_link_chained: "at_link c0 run n c F \<Longrightarrow> chained c0 F"
  by (simp add: at_link_def)

lemma chained_update:
  assumes "chained c0 F" "F (Suc n) = Missing" "if n = 0 then b = c0 else \<exists>q. F n = Readable q \<and> b = cp_checkpoint q"
    "cp_base r = b"
  shows "chained c0 (F(Suc n := Readable r))"
  unfolding chained_def
proof (intro allI impI)
  fix k s
  assume s: "(F(Suc n := Readable r)) (Suc k) = Readable s"
  show "if k = 0 then cp_base s = c0 else \<exists>q. (F(Suc n := Readable r)) k = Readable q \<and> cp_base s = cp_checkpoint q"
  proof (cases "k = n")
    case True
    then show ?thesis using s assms(3,4) by (cases "n = 0") auto
  next
    case False
    then have old: "F (Suc k) = Readable s" using s by simp
    then show ?thesis using assms(1,2) unfolding chained_def by (cases "k = Suc n") fastforce+
  qed
qed

lemma next_checkpoint_link:
  assumes "at_link c0 run n c (at_checkpoints st)"
  shows "link_or_chain c0 (at_link c0 run (Suc n)) (next_checkpoint W ctx run epoch (Suc n) c steps st)"
proof (cases "at_checkpoints st (Suc n)")
  case Missing
  let ?rec = "\<lambda>c'. \<lparr>cp_run = run, cp_number = Suc n, cp_update = update_id run (Suc n), cp_base = c, cp_checkpoint = c'\<rparr>"
  have chain: "chained c0 ((at_checkpoints st)(Suc n := Readable (?rec c')))" for c'
    using assms Missing by (intro chained_update [where b = c]) (auto simp: at_link_def)
  have "at_link c0 run (Suc n) c' ((at_checkpoints st)(Suc n := Readable (?rec c')))" for c'
    unfolding at_link_def using chain assms by (auto simp: at_link_def)
  then show ?thesis
    using Missing chain at_link_chained [OF assms]
    by (cases "wd_train W ctx c \<lparr>tb_update = update_id run (Suc n), tb_epochs = epoch, tb_steps = steps\<rparr>")
      (simp_all add: next_checkpoint_def load_checkpoint_record_def Let_def)
next
  case (Readable r)
  show ?thesis
  proof (cases "cp_run r \<noteq> run \<or> cp_number r \<noteq> Suc n")
    case True
    then show ?thesis
      using Readable at_link_chained [OF assms] by (auto simp: next_checkpoint_def load_checkpoint_record_def)
  next
    case False
    then have "at_link c0 run (Suc n) (cp_checkpoint r) (at_checkpoints st)"
      using Readable assms by (auto simp: at_link_def le_Suc_eq)
    then show ?thesis
      using False Readable by (simp add: next_checkpoint_def load_checkpoint_record_def at_link_chained)
  qed
next
  case Garbled
  then show ?thesis using at_link_chained [OF assms] by (simp add: next_checkpoint_def load_checkpoint_record_def)
qed

definition at_state :: "string \<Rightarrow> string \<Rightarrow> nat \<Rightarrow> 'w training_state \<Rightarrow> (nat \<Rightarrow> checkpoint_record stored) \<Rightarrow> bool" where
  "at_state c0 run n ts F \<longleftrightarrow> ts_count ts = n \<and> at_link c0 run n (ts_checkpoint ts) F"

lemma at_state_chained: "at_state c0 run n ts F \<Longrightarrow> chained c0 F"
  by (simp add: at_state_def at_link_def)

lemma plan_and_execute_link:
  assumes "at_link c0 run n c (at_checkpoints st)"
  shows "link_or_chain c0 (\<lambda>b. at_link c0 run n c) (plan_and_execute R W f run ph i ss ov capture st)"
  by (rule leaves_weaken [OF plan_and_execute_leaves [where I = "at_link c0 run n c", OF assms]])
    (simp_all add: at_link_chained)

lemma validate_checkpoint_link:
  assumes "at_state c0 run n ts (at_checkpoints st)"
  shows "link_or_chain c0 (at_state c0 run n) (validate_checkpoint R W f run t ts st)"
  unfolding validate_checkpoint_def
  using assms
  by (auto simp: at_state_def at_link_chained split: option.split intro!: leaves_then [OF plan_and_execute_link])

lemma training_epoch_link:
  fixes ts :: "'w training_state" and st :: "('c, 'w) artifacts"
  assumes "at_state c0 run n ts (at_checkpoints st)"
  shows "link_or_chain c0 (at_state c0 run (if tr_every t dvd epoch then Suc n else n))
    (training_epoch R W f run t ctx rw epoch ts st)"
  unfolding training_epoch_def
proof (rule leaves_then [OF plan_and_execute_link])
  fix b and st1 :: "('c, 'w) artifacts"
  let ?ts = "ts\<lparr>ts_pending := ts_pending ts @ eb_steps b, ts_totals := merge_batch (ts_totals ts) b\<rparr>"
  assume l: "at_link c0 run n (ts_checkpoint ts) (at_checkpoints st1)"
  have more: "link_or_chain c0 (at_state c0 run (Suc n))
      (and_then (next_checkpoint W ctx run epoch (Suc n) (ts_checkpoint ts) (ts_pending ?ts) st1)
        (\<lambda>c. validate_checkpoint R W f run t (?ts\<lparr>ts_checkpoint := c, ts_pending := [], ts_count := Suc n\<rparr>)))"
    by (rule leaves_then [OF next_checkpoint_link [OF l]], rule validate_checkpoint_link) (simp add: at_state_def)
  have cnt: "ts_count ts = n" using assms by (simp add: at_state_def)
  show "link_or_chain c0 (at_state c0 run (if tr_every t dvd epoch then Suc n else n))
    (let ts1 = ?ts in
       if eb_has_failure b then (st1, Err TrainingFailed)
       else if \<not> tr_every t dvd epoch then (st1, Ok ts1)
       else
         (let n = ts_count ts1 + 1 in
          and_then (next_checkpoint W ctx run epoch n (ts_checkpoint ts1) (ts_pending ts1) st1) (\<lambda>checkpoint.
            validate_checkpoint R W f run t
              (ts1\<lparr>ts_checkpoint := checkpoint, ts_pending := [], ts_count := n\<rparr>))))"
    using l more by (auto simp: Let_def cnt at_state_def [of c0 run n] at_link_chained)
qed (use assms in \<open>simp add: at_state_def\<close>)

lemma training_loop_link:
  assumes "at_state c0 run n ts (at_checkpoints st)"
  shows "link_or_chain c0 (at_state c0 run (n + length (filter (\<lambda>e. tr_every t dvd e) epochs)))
    (training_loop R W f run t ctx rw epochs ts st)"
  using assms
proof (induction epochs arbitrary: n ts st)
  case Nil
  then show ?case by (simp add: at_state_chained)
next
  case (Cons epoch epochs)
  show ?case
    unfolding training_loop.simps
    by (rule leaves_then [OF training_epoch_link [OF Cons.prems]], rule leaves_weaken, erule Cons.IH) (auto split: if_splits)
qed

lemma count_multiples: "length (filter (\<lambda>e. d dvd e) [1..<n + 1]) = n div d"
proof (induction n)
  case (Suc n)
  have "[1..<Suc n + 1] = [1..<n + 1] @ [Suc n]" by simp
  then show ?case using Suc by (simp add: div_Suc dvd_eq_mod_eq_0)
qed simp

lemma manifest_checkpoints: "at_checkpoints (fst (load_or_create_manifest W g v h st)) = at_checkpoints st"
  by (simp add: load_or_create_manifest_def Let_def split: stored.split)

lemma evaluate_sessions_leaves:
  assumes "I (at_checkpoints st)"
  shows "leaves (\<lambda>b st'. I (at_checkpoints st')) (\<lambda>st'. I (at_checkpoints st')) (evaluate_sessions R W f run st)"
  unfolding evaluate_sessions_def
  using assms by (auto split: option.split intro!: leaves_then [OF plan_and_execute_leaves [where I = I]])

lemma train_learner_link:
  assumes "ef_training f = Some t" "training_setup R f t = Ok (c0, ctx, rw)" "chained c0 (at_checkpoints st)"
  shows "link_or_chain c0 (\<lambda>(b, n) F. n = tr_epochs t div tr_every t \<and> (\<exists>c. at_link c0 run n c F))
    (train_learner R W f run totals st)"
proof -
  let ?ts = "\<lparr>ts_checkpoint = c0, ts_pending = [], ts_count = 0, ts_totals = totals\<rparr>"
  have "at_state c0 run 0 ?ts (at_checkpoints st)" using assms(3) by (simp add: at_state_def at_link_def)
  then have loop: "link_or_chain c0 (at_state c0 run (tr_epochs t div tr_every t))
      (training_loop R W f run t ctx rw [1..<tr_epochs t + 1] ?ts st)"
    using training_loop_link [where n = 0 and R = R and W = W and t = t and ctx = ctx and rw = rw and epochs = "[1..<tr_epochs t + 1]"]
    unfolding count_multiples by (simp only: add_0)
  show ?thesis
    unfolding train_learner_def assms(1,2) option.case and_then_simps prod.case
    by (rule leaves_then [OF loop]) (auto simp: at_state_def at_link_chained)
qed

section \<open>The counts\<close>

text \<open>A batch accounts for its plans and for the sessions run since there were \<open>k\<close>.\<close>

definition tally :: "nat \<Rightarrow> 'w execution_batch \<Rightarrow> ('c, 'w) artifacts \<Rightarrow> bool" where
  "tally k b st \<longleftrightarrow> eb_completed b + eb_failed b + eb_skipped b = eb_planned b \<and>
     length (at_ran st) = k + eb_completed b + eb_failed b"

abbreviation tallies where
  "tallies k B m \<equiv> leaves (\<lambda>y st. tally k (B y) st) (\<lambda>st. True) m"

lemma tally_empty: "k = length (at_ran st) \<Longrightarrow> tally k (empty_batch 0) st"
  by (simp add: tally_def)

lemma tally_merge: "tally k a st \<Longrightarrow> tally (length (at_ran st)) b st' \<Longrightarrow> tally k (merge_batch a b) st'"
  by (simp add: tally_def merge_batch_def)

lemma plan_and_execute_tally:
  assumes "orderly W" "validate_limits (ef_limits f) = Ok ()"
  shows "tallies (length (at_ran st)) (\<lambda>b. b) (plan_and_execute R W f run ph i ss ov capture st)"
  unfolding plan_and_execute_def
proof (rule leaves_start, simp)
  fix ps
  assume ps: "plan_set R f run ph i ss ov capture = Ok ps"
  show "tallies (length (at_ran st)) (\<lambda>b. b) (execute_plans W f run ps st)"
    using execute_plans_finished [OF _ assms(1) plan_set_plans [OF ps] assms(2)]
    by (fastforce simp: leaves_def tally_def prod_eq_iff)
qed

lemma evaluate_sessions_tally:
  assumes "orderly W" "validate_limits (ef_limits f) = Ok ()"
  shows "tallies (length (at_ran st)) (\<lambda>b. b) (evaluate_sessions R W f run st)"
  unfolding evaluate_sessions_def
  by (auto split: option.split simp: tally_empty intro!: leaves_then [OF plan_and_execute_tally [OF assms]]
      intro: tally_merge [OF tally_empty])

lemma validate_checkpoint_tally:
  assumes "orderly W" "validate_limits (ef_limits f) = Ok ()" "tally k (ts_totals ts) st"
  shows "tallies k ts_totals (validate_checkpoint R W f run t ts st)"
  unfolding validate_checkpoint_def
  using assms(3) by (auto split: option.split intro!: leaves_then [OF plan_and_execute_tally [OF assms(1,2)]] intro: tally_merge)

lemma next_checkpoint_ran: "at_ran (fst (next_checkpoint W ctx run epoch n c steps st)) = at_ran st"
  by (auto simp: next_checkpoint_def Let_def and_then_def split: outcome.split option.split)

lemma training_epoch_tally:
  fixes ts :: "'w training_state" and st :: "('c, 'w) artifacts"
  assumes "orderly W" "validate_limits (ef_limits f) = Ok ()" "tally k (ts_totals ts) st"
  shows "tallies k ts_totals (training_epoch R W f run t ctx rw epoch ts st)"
  unfolding training_epoch_def
proof (rule leaves_then [OF plan_and_execute_tally [OF assms(1,2)]])
  fix b and st1 :: "('c, 'w) artifacts"
  let ?ts = "ts\<lparr>ts_pending := ts_pending ts @ eb_steps b, ts_totals := merge_batch (ts_totals ts) b\<rparr>"
  assume "tally (length (at_ran st)) b st1"
  then have here: "tally k (merge_batch (ts_totals ts) b) st1" by (rule tally_merge [OF assms(3)])
  have "leaves (\<lambda>c st2. tally k (merge_batch (ts_totals ts) b) st2) (\<lambda>st. True)
      (next_checkpoint W ctx run epoch n c steps st1)" for n c steps
    using here by (simp add: leaves_def tally_def next_checkpoint_ran)
  then show "tallies k ts_totals (let ts1 = ?ts in
       if eb_has_failure b then (st1, Err TrainingFailed)
       else if \<not> tr_every t dvd epoch then (st1, Ok ts1)
       else
         (let n = ts_count ts1 + 1 in
          and_then (next_checkpoint W ctx run epoch n (ts_checkpoint ts1) (ts_pending ts1) st1) (\<lambda>checkpoint.
            validate_checkpoint R W f run t
              (ts1\<lparr>ts_checkpoint := checkpoint, ts_pending := [], ts_count := n\<rparr>))))"
    using here by (auto simp: Let_def intro!: leaves_then validate_checkpoint_tally [OF assms(1,2)])
qed

lemma training_loop_tally:
  assumes "orderly W" "validate_limits (ef_limits f) = Ok ()" "tally k (ts_totals ts) st"
  shows "tallies k ts_totals (training_loop R W f run t ctx rw epochs ts st)"
  using assms(3)
proof (induction epochs arbitrary: ts st)
  case (Cons epoch epochs)
  show ?case
    unfolding training_loop.simps
    by (rule leaves_then [OF training_epoch_tally [OF assms(1,2) Cons.prems]], rule Cons.IH)
qed simp

lemma train_learner_tally:
  assumes "orderly W" "validate_limits (ef_limits f) = Ok ()" "tally k totals st"
  shows "tallies k fst (train_learner R W f run totals st)"
  unfolding train_learner_def
  using assms(3) by (auto split: option.split intro!: leaves_start leaves_then [OF training_loop_tally [OF assms(1,2)]])

lemma manifest_ran: "at_ran (fst (load_or_create_manifest W g v h st)) = at_ran st"
  by (simp add: load_or_create_manifest_def Let_def split: stored.split)

section \<open>Properties\<close>

text \<open>C14 (safety). An invocation of an experiment keeps finished work and does none of it again, whether
  it succeeds, fails or is refused: result files, checkpoint records and the manifest that are there stay
  as they are; every session it runs is of a plan without a result, at most once; every update it asks of
  the learner is for a checkpoint without a record, at most once. The premise is that concurrent sessions
  finish in some order.\<close>

theorem finished_work_is_kept:
  assumes "orderly W" "run_experiment R spec_json W f st = (st', r)"
  shows "(\<forall>i. at_results st i \<noteq> Missing \<longrightarrow> at_results st' i = at_results st i) \<and>
    (\<forall>n. at_checkpoints st n \<noteq> Missing \<longrightarrow> at_checkpoints st' n = at_checkpoints st n) \<and>
    (at_manifest st \<noteq> Missing \<longrightarrow> at_manifest st' = at_manifest st) \<and>
    (\<exists>ran updates. at_ran st' = at_ran st @ ran \<and> at_updates st' = at_updates st @ updates \<and>
       distinct ran \<and> (\<forall>i \<in> set ran. at_results st i = Missing) \<and>
       distinct updates \<and> (\<forall>n \<in> set updates. at_checkpoints st n = Missing))"
proof -
  have "works st (st', r)" using run_experiment_works [OF assms(1)] assms(2) by metis
  then show ?thesis unfolding works_def progresses_def advances_def by auto
qed

text \<open>Invoking a finished experiment again changes nothing: from the files an invocation
  that reported a summary left, any later invocation of the same file, in whatever world, runs no session,
  asks nothing of the learner, leaves the files as they are and reports the same run, the same number of
  plans, all of them skipped, and the same number of checkpoints.\<close>

theorem finished_experiment_is_idle:
  assumes "orderly W" "orderly W'" "run_experiment R spec_json W f st = (st', Ok su)"
  shows "run_experiment R spec_json W' f st' = (st', Ok \<lparr>su_run = su_run su, su_planned = su_planned su,
    su_completed = 0, su_failed = 0, su_skipped = su_planned su, su_checkpoints = su_checkpoints su\<rparr>)"
  using assms(3)
proof (rule run_experiment_parts)
  fix m sta totals stb b n
  assume v: "validate_spec R f = Ok ()"
    and m: "load_or_create_manifest W (rg_game_id R) (rg_game_version R)
        (hash_value (rg_sha R) (rg_render R) (spec_json f)) st = (sta, Ok m)"
    and e: "evaluate_sessions R W f (mf_run m) sta = (stb, Ok totals)"
    and t: "train_learner R W f (mf_run m) totals stb = (st', Ok (b, n))"
    and su: "su = \<lparr>su_run = mf_run m, su_planned = eb_planned b, su_completed = eb_completed b,
       su_failed = eb_failed b, su_skipped = eb_skipped b, su_checkpoints = n\<rparr>"
  note lim = validated_limits [OF v]
  have b2: "progresses True stb st'" by (rule works_progress [OF train_learner_works [OF assms(1) lim] t])
  have a2: "progresses True sta st'"
    by (rule progresses_trans [OF works_progress [OF evaluate_sessions_works [OF assms(1) lim] e] b2])
  have here: "progresses True st' st'" by (simp add: progresses_def)
  from evaluate_sessions_idle [OF e b2 assms(1,2) lim] obtain totals' where
    e': "evaluate_sessions R W' f (mf_run m) st' = (st', Ok totals')" "quiet totals' (eb_planned totals)" by blast
  from train_learner_idle [OF t here assms(1,2) lim e'(2)] obtain b' where
    "train_learner R W' f (mf_run m) totals' st' = (st', Ok (b', n))" "quiet b' (eb_planned b)" by blast
  then show ?thesis
    using v manifest_idle [OF m a2, of W'] e'(1) su by (simp add: run_experiment_def quiet_def)
qed

text \<open>C15 (invariant). The checkpoint records form a chain: when every record that is there starts from the
  checkpoint of the one before it, the first from the learner's initial checkpoint, this holds after any
  invocation, however it ends; and an invocation that reports a summary has reached as many checkpoints as
  the cadence fits into the epochs, with a record of its run for each.\<close>

theorem checkpoints_form_a_chain:
  assumes "ef_training f = Some t" "training_setup R f t = Ok (c0, ctx, rw)" "chained c0 (at_checkpoints st)"
    "run_experiment R spec_json W f st = (st', r)"
  shows "chained c0 (at_checkpoints st') \<and>
    (\<forall>su. r = Ok su \<longrightarrow> su_checkpoints su = tr_epochs t div tr_every t \<and>
       (\<forall>n \<in> {1..su_checkpoints su}. \<exists>rec. at_checkpoints st' n = Readable rec \<and> cp_run rec = su_run su \<and> cp_number rec = n))"
proof -
  let ?L = "\<lambda>su F. su_checkpoints su = tr_epochs t div tr_every t \<and>
    (\<exists>c. at_link c0 (su_run su) (su_checkpoints su) c F)"
  have "link_or_chain c0 ?L (run_experiment R spec_json W f st)"
    unfolding run_experiment_def
  proof (intro leaves_start assms(3))
    fix u
    let ?man = "load_or_create_manifest W (rg_game_id R) (rg_game_version R)
        (hash_value (rg_sha R) (rg_render R) (spec_json f)) st"
    have man: "link_or_chain c0 (\<lambda>m. chained c0) ?man" using assms(3) by (simp add: leaves_def manifest_checkpoints)
    show "link_or_chain c0 ?L (and_then ?man (\<lambda>m st1. and_then (evaluate_sessions R W f (mf_run m) st1) (\<lambda>totals st2.
       and_then (train_learner R W f (mf_run m) totals st2) (\<lambda>(b, n) st3.
         (st3, Ok \<lparr>su_run = mf_run m, su_planned = eb_planned b, su_completed = eb_completed b,
                 su_failed = eb_failed b, su_skipped = eb_skipped b, su_checkpoints = n\<rparr>)))))"
      by (rule leaves_then [OF man], rule leaves_then [OF evaluate_sessions_leaves], assumption,
          rule leaves_then [OF train_learner_link [OF assms(1,2)]], assumption)
        (auto dest: at_link_chained)
  qed
  then show ?thesis using assms(4) by (fastforce simp: leaves_def at_link_def)
qed

text \<open>The counts of a summary add up: the planned sessions are the completed, the failed and
  the skipped ones, and the invocation ran as many sessions as it reports completed or failed.\<close>

theorem summary_adds_up:
  assumes "orderly W" "run_experiment R spec_json W f st = (st', Ok su)"
  shows "su_planned su = su_completed su + su_failed su + su_skipped su \<and>
    length (at_ran st') = length (at_ran st) + su_completed su + su_failed su"
  using assms(2)
proof (rule run_experiment_parts)
  fix m sta totals stb b n
  assume v: "validate_spec R f = Ok ()"
    and m: "load_or_create_manifest W (rg_game_id R) (rg_game_version R)
        (hash_value (rg_sha R) (rg_render R) (spec_json f)) st = (sta, Ok m)"
    and e: "evaluate_sessions R W f (mf_run m) sta = (stb, Ok totals)"
    and t: "train_learner R W f (mf_run m) totals stb = (st', Ok (b, n))"
    and su: "su = \<lparr>su_run = mf_run m, su_planned = eb_planned b, su_completed = eb_completed b,
       su_failed = eb_failed b, su_skipped = eb_skipped b, su_checkpoints = n\<rparr>"
  note lim = validated_limits [OF v]
  have "tally (length (at_ran sta)) totals stb"
    using evaluate_sessions_tally [OF assms(1) lim, where R = R and run = "mf_run m" and st = sta] e by simp
  from train_learner_tally [OF assms(1) lim this, where R = R and run = "mf_run m"] t
  have "tally (length (at_ran sta)) b st'" by simp
  moreover have "at_ran sta = at_ran st" using manifest_ran [where W = W and st = st] m by (metis fst_conv)
  ultimately show ?thesis using su by (simp add: tally_def)
qed

section \<open>The demonstration experiment\<close>

lemma demo_orderly: "orderly demo_world"
  by (simp add: orderly_def)

lemma demo_at_rest: "chained c (at_checkpoints no_artifacts)" "at_ran no_artifacts = []" "at_updates no_artifacts = []"
  by (simp_all add: chained_def no_artifacts_def)

lemma finished_work_is_kept_witness: "distinct (at_ran demo_files) \<and> distinct (at_updates demo_files)"
  using finished_work_is_kept [OF demo_orderly demo_outcome] by (auto simp: demo_at_rest)

lemma finished_experiment_is_idle_witness:
  "run_experiment demo_registry (\<lambda>f. JNull) demo_world demo_file demo_files =
     (demo_files, Ok \<lparr>su_run = ''run'', su_planned = 1, su_completed = 0, su_failed = 0, su_skipped = 1, su_checkpoints = 1\<rparr>)"
  using finished_experiment_is_idle [OF demo_orderly demo_orderly demo_outcome] by simp

lemma checkpoints_form_a_chain_witness:
  "chained ''base'' (at_checkpoints demo_files) \<and> (\<exists>rec. at_checkpoints demo_files 1 = Readable rec \<and> cp_run rec = ''run'')"
proof -
  obtain ctx rw where su: "training_setup demo_registry demo_file demo_training = Ok (''base'', ctx, rw)" using demo_setup by blast
  show ?thesis using checkpoints_form_a_chain [OF demo_file_fields(1) su demo_at_rest(1) demo_outcome] by auto
qed

lemma summary_adds_up_witness: "length (at_ran demo_files) = 1"
  using summary_adds_up [OF demo_orderly demo_outcome] by (simp add: demo_at_rest)

end
