(* ===== verification/Data_Deletion.thy ===== *)
theory Data_Deletion
  imports Json
begin

text \<open>
  Deletion of a participant's data: \<open>participant_data_preview\<close> and \<open>delete_participant_data\<close> of
  \<open>rust-server/src/storage.rs\<close> with the administration handlers of \<open>app.rs\<close> that call them, over the
  columns of the tables they read.

  Whether SQLite enforces the foreign keys of the schema is an argument, \<open>fk\<close>; a statement that would
  leave a row referring to a deleted one then fails, and the transaction with it. Every session has a
  dialogue identifier, since \<open>create_session\<close> draws one.
\<close>

section \<open>Tables\<close>

record person_row =
  pe_id :: int
  pe_experiment :: string
  pe_research :: "string option"

record dialogue_row =
  dl_experiment :: string
  dl_session :: int
  dl_dialogue :: string
  dl_lifecycle :: string

record seat_row =
  st_experiment :: string
  st_session :: int
  st_participant :: int

record submission_row =
  sb_experiment :: string
  sb_participant :: int
  sb_prolific :: string

record consent_row =
  co_experiment :: string
  co_session :: "int option"
  co_participant :: int

record entry_row =
  en_experiment :: string
  en_session :: int
  en_type :: string
  en_actor :: "int option"

record tables =
  dt_people :: "person_row list"
  dt_sessions :: "dialogue_row list"
  dt_seats :: "seat_row list"
  dt_submissions :: "submission_row list"
  dt_consents :: "consent_row list"
  dt_events :: "entry_row list"

text \<open>\<open>select session_id from session_participants where experiment_id = ? and participant_id = ?\<close>.\<close>

definition sessions_of :: "tables \<Rightarrow> string \<Rightarrow> int \<Rightarrow> int list" where
  "sessions_of d e p = map st_session (filter (\<lambda>s. st_experiment s = e \<and> st_participant s = p) (dt_seats d))"

definition joined_sessions :: "tables \<Rightarrow> string \<Rightarrow> int \<Rightarrow> dialogue_row list" where
  "joined_sessions d e p = filter (\<lambda>s. dl_experiment s = e \<and> List.member (sessions_of d e p) (dl_session s)) (dt_sessions d)"

section \<open>Preview\<close>

record data_preview =
  pv_participant :: int
  pv_sessions :: nat
  pv_consents :: nat
  pv_content_events :: nat
  pv_other_events :: nat
  pv_session_ids :: "string list"
  pv_others :: "string list"
  pv_non_terminal :: bool

definition content_event :: "string \<Rightarrow> bool" where
  "content_event t \<longleftrightarrow> List.member [''conversation_message'', ''transcript_segment''] t"

definition participant_data_preview :: "tables \<Rightarrow> string \<Rightarrow> int \<Rightarrow> data_preview" where
  "participant_data_preview d e p =
     (let own = filter (\<lambda>v. en_experiment v = e \<and> en_actor v = Some p) (dt_events d);
          others = filter (\<lambda>x. list_ex (\<lambda>s. st_participant s = pe_id x \<and> st_experiment s = e \<and> st_participant s \<noteq> p \<and>
                     List.member (sessions_of d e p) (st_session s)) (dt_seats d)) (dt_people d)
      in \<lparr>pv_participant = p,
          pv_sessions = length (sessions_of d e p),
          pv_consents = length (filter (\<lambda>c. co_experiment c = e \<and> co_participant c = p) (dt_consents d)),
          pv_content_events = length (filter (content_event \<circ> en_type) own),
          pv_other_events = length (filter (\<lambda>v. \<not> content_event (en_type v)) own),
          pv_session_ids = sort (map dl_dialogue (joined_sessions d e p)),
          pv_others = sort (remdups (List.map_filter pe_research others)),
          pv_non_terminal = list_ex (\<lambda>s. dl_lifecycle s \<noteq> ''ended'') (joined_sessions d e p)\<rparr>)"

section \<open>Deletion\<close>

datatype deletion_error = NonTerminal | ConstraintFailed | NotVerified

text \<open>The foreign keys into a table, for the rows a statement deletes.\<close>

definition sessions_referred :: "tables \<Rightarrow> dialogue_row \<Rightarrow> bool" where
  "sessions_referred d s \<longleftrightarrow>
     list_ex (\<lambda>r. st_experiment r = dl_experiment s \<and> st_session r = dl_session s) (dt_seats d) \<or>
     list_ex (\<lambda>r. en_experiment r = dl_experiment s \<and> en_session r = dl_session s) (dt_events d)"

definition person_referred :: "tables \<Rightarrow> int \<Rightarrow> bool" where
  "person_referred d p \<longleftrightarrow>
     list_ex (\<lambda>r. st_participant r = p) (dt_seats d) \<or> list_ex (\<lambda>r. sb_participant r = p) (dt_submissions d) \<or>
     list_ex (\<lambda>r. co_participant r = p) (dt_consents d) \<or> list_ex (\<lambda>r. en_actor r = Some p) (dt_events d)"

definition delete_consents :: "string \<Rightarrow> int \<Rightarrow> tables \<Rightarrow> tables" where
  "delete_consents e p d = d\<lparr>dt_consents := filter (\<lambda>c. \<not> (co_experiment c = e \<and>
     (co_participant c = p \<or> (case co_session c of None \<Rightarrow> False | Some i \<Rightarrow> List.member (sessions_of d e p) i))))
     (dt_consents d)\<rparr>"

definition delete_events :: "string \<Rightarrow> int \<Rightarrow> tables \<Rightarrow> tables" where
  "delete_events e p d = d\<lparr>dt_events := filter (\<lambda>v. \<not> (en_experiment v = e \<and> List.member (sessions_of d e p) (en_session v)))
     (dt_events d)\<rparr>"

definition delete_seats :: "string \<Rightarrow> int \<Rightarrow> tables \<Rightarrow> tables" where
  "delete_seats e p d = d\<lparr>dt_seats := filter (\<lambda>s. \<not> (st_experiment s = e \<and> List.member (sessions_of d e p) (st_session s)))
     (dt_seats d)\<rparr>"

definition delete_sessions :: "bool \<Rightarrow> string \<Rightarrow> string list \<Rightarrow> tables \<Rightarrow> (deletion_error, tables) outcome" where
  "delete_sessions fk e ids d =
     (let gone = filter (\<lambda>s. dl_experiment s = e \<and> List.member ids (dl_dialogue s)) (dt_sessions d) in
      if fk \<and> list_ex (sessions_referred d) gone then Err ConstraintFailed
      else Ok (d\<lparr>dt_sessions := filter (\<lambda>s. \<not> (dl_experiment s = e \<and> List.member ids (dl_dialogue s))) (dt_sessions d)\<rparr>))"

definition is_person :: "string \<Rightarrow> int \<Rightarrow> person_row \<Rightarrow> bool" where
  "is_person e p x \<longleftrightarrow> pe_experiment x = e \<and> pe_id x = p"

definition delete_person :: "bool \<Rightarrow> string \<Rightarrow> int \<Rightarrow> tables \<Rightarrow> (deletion_error, tables) outcome" where
  "delete_person fk e p d =
     (if fk \<and> list_ex (is_person e p) (dt_people d) \<and> person_referred d p then Err ConstraintFailed
      else Ok (d\<lparr>dt_people := filter (\<lambda>x. \<not> is_person e p x) (dt_people d)\<rparr>))"

text \<open>The preview is read before the transaction, from \<open>d0\<close>; the transaction sees \<open>d\<close>.\<close>

definition delete_participant_data ::
    "bool \<Rightarrow> tables \<Rightarrow> tables \<Rightarrow> string \<Rightarrow> int \<Rightarrow> (deletion_error, tables \<times> data_preview) outcome" where
  "delete_participant_data fk d0 d e p =
     (let preview = participant_data_preview d0 e p in
      if pv_non_terminal preview then Err NonTerminal
      else if list_ex (\<lambda>s. dl_lifecycle s \<noteq> ''ended'') (joined_sessions d e p) then Err NonTerminal
      else
        obind (delete_sessions fk e (pv_session_ids preview) (delete_seats e p (delete_events e p (delete_consents e p d)))) (\<lambda>d4.
        obind (delete_person fk e p d4) (\<lambda>d5.
          if list_ex (is_person e p) (dt_people d5) then Err NotVerified else Ok (d5, preview))))"

section \<open>The administration handler\<close>

text \<open>The participants of \<open>export_rows\<close>, in the order of their identifiers.\<close>

definition exported_people :: "tables \<Rightarrow> string \<Rightarrow> person_row list" where
  "exported_people d e =
     sort_key pe_id (filter (\<lambda>x. list_ex (\<lambda>s. st_participant s = pe_id x \<and> st_experiment s = e) (dt_seats d)) (dt_people d))"

definition participant_id_for_research_id :: "tables \<Rightarrow> string \<Rightarrow> string \<Rightarrow> int option" where
  "participant_id_for_research_id d e r =
     map_option pe_id (find (\<lambda>x. pe_research x = Some r) (exported_people d e))"

datatype deletion_reply = AlreadyAbsent | DeletionBlocked | DeletionFailed deletion_error | Deleted data_preview

definition admin_participant_deletion_preview :: "tables \<Rightarrow> string \<Rightarrow> string \<Rightarrow> data_preview option" where
  "admin_participant_deletion_preview d e r =
     map_option (participant_data_preview d e) (participant_id_for_research_id d e r)"

definition admin_delete_participant_data ::
    "bool \<Rightarrow> tables \<Rightarrow> string \<Rightarrow> string \<Rightarrow> tables \<times> deletion_reply" where
  "admin_delete_participant_data fk d e r =
     (case participant_id_for_research_id d e r of
        None \<Rightarrow> (d, AlreadyAbsent)
      | Some p \<Rightarrow>
          if pv_non_terminal (participant_data_preview d e p) then (d, DeletionBlocked)
          else
            (case delete_participant_data fk d d e p of
               Ok (d', preview) \<Rightarrow> (d', Deleted preview)
             | Err x \<Rightarrow> (d, DeletionFailed x)
             | Panic \<Rightarrow> (d, DeletionFailed NotVerified)))"

section \<open>What is to be deleted\<close>

text \<open>The reference, as the documentation puts it: the participant and every session in which the
  participant appeared, with all that belongs to it.\<close>

definition erase :: "string \<Rightarrow> int \<Rightarrow> tables \<Rightarrow> tables" where
  "erase e p d =
     (let own = (\<lambda>i. i \<in> set (sessions_of d e p)) in
      \<lparr>dt_people = filter (\<lambda>x. \<not> (pe_experiment x = e \<and> pe_id x = p)) (dt_people d),
       dt_sessions = filter (\<lambda>s. \<not> (dl_experiment s = e \<and> own (dl_session s))) (dt_sessions d),
       dt_seats = filter (\<lambda>s. \<not> (st_experiment s = e \<and> own (st_session s))) (dt_seats d),
       dt_submissions = dt_submissions d,
       dt_consents = filter (\<lambda>c. \<not> (co_experiment c = e \<and> (co_participant c = p \<or> (\<exists>i. co_session c = Some i \<and> own i)))) (dt_consents d),
       dt_events = filter (\<lambda>v. \<not> (en_experiment v = e \<and> own (en_session v))) (dt_events d)\<rparr>)"

text \<open>The tables as the schema and \<open>create_session\<close> keep them.\<close>

definition tables_ok :: "tables \<Rightarrow> bool" where
  "tables_ok d \<longleftrightarrow>
     (\<forall>s \<in> set (dt_sessions d). \<forall>s' \<in> set (dt_sessions d). dl_dialogue s = dl_dialogue s' \<longrightarrow> s = s') \<and>
     (\<forall>x \<in> set (dt_people d). \<forall>x' \<in> set (dt_people d). pe_id x = pe_id x' \<longrightarrow> x = x') \<and>
     (\<forall>s \<in> set (dt_seats d). \<exists>x \<in> set (dt_people d). pe_id x = st_participant s \<and> pe_experiment x = st_experiment s) \<and>
     (\<forall>c \<in> set (dt_consents d). \<exists>x \<in> set (dt_people d). pe_id x = co_participant c \<and> pe_experiment x = co_experiment c) \<and>
     (\<forall>v \<in> set (dt_events d). \<forall>p. en_actor v = Some p \<longrightarrow>
        (\<exists>s \<in> set (dt_seats d). st_experiment s = en_experiment v \<and> st_session s = en_session v \<and> st_participant s = p))"

definition traces :: "tables \<Rightarrow> string \<Rightarrow> int \<Rightarrow> bool" where
  "traces d e p \<longleftrightarrow>
     (\<exists>x \<in> set (dt_people d). pe_experiment x = e \<and> pe_id x = p) \<or>
     (\<exists>s \<in> set (dt_seats d). st_experiment s = e \<and> st_participant s = p) \<or>
     (\<exists>c \<in> set (dt_consents d). co_experiment c = e \<and> co_participant c = p) \<or>
     (\<exists>v \<in> set (dt_events d). en_experiment v = e \<and> en_actor v = Some p) \<or>
     (\<exists>b \<in> set (dt_submissions d). sb_experiment b = e \<and> sb_participant b = p)"

end
