(* ===== verification/Deletion_Properties.thy ===== *)
theory Deletion_Properties
  imports Data_Deletion
begin

text \<open>
  What a deletion of participant data does: it is the erasure the documentation describes, and the two
  cases in which personal data stays behind.
\<close>

lemma sessions_of_cong [simp]:
  "sessions_of (d\<lparr>dt_people := ps\<rparr>) = sessions_of d" "sessions_of (d\<lparr>dt_consents := cs\<rparr>) = sessions_of d"
  "sessions_of (d\<lparr>dt_events := vs\<rparr>) = sessions_of d" "sessions_of (d\<lparr>dt_sessions := ss\<rparr>) = sessions_of d"
  by (simp_all add: fun_eq_iff sessions_of_def)

lemmas deletion_steps = delete_consents_def delete_events_def delete_seats_def

definition cleared :: "string \<Rightarrow> int \<Rightarrow> tables \<Rightarrow> tables" where
  "cleared e p d = delete_seats e p (delete_events e p (delete_consents e p d))"

lemma cleared_fields [simp]:
  "dt_people (cleared e p d) = dt_people d" "dt_sessions (cleared e p d) = dt_sessions d"
  "dt_submissions (cleared e p d) = dt_submissions d" "dt_consents (cleared e p d) = dt_consents (erase e p d)"
  "dt_events (cleared e p d) = dt_events (erase e p d)" "dt_seats (cleared e p d) = dt_seats (erase e p d)"
  by (auto simp: cleared_def deletion_steps erase_def Let_def intro!: filter_cong split: option.split)

lemma member_joined:
  "s \<in> set (joined_sessions d e p) \<longleftrightarrow> s \<in> set (dt_sessions d) \<and> dl_experiment s = e \<and> dl_session s \<in> set (sessions_of d e p)"
  by (auto simp: joined_sessions_def)

lemma delete_sessions_joined:
  assumes "tables_ok d"
  shows "delete_sessions fk e (sort (map dl_dialogue (joined_sessions d e p))) (cleared e p d) =
    Ok ((cleared e p d)\<lparr>dt_sessions := dt_sessions (erase e p d)\<rparr>)"
proof -
  have own: "dl_experiment s = e \<and> dl_dialogue s \<in> dl_dialogue ` set (joined_sessions d e p) \<longleftrightarrow>
      dl_experiment s = e \<and> dl_session s \<in> set (sessions_of d e p)" if s: "s \<in> set (dt_sessions d)" for s
  proof -
    have "s' = s" if "s' \<in> set (joined_sessions d e p)" "dl_dialogue s' = dl_dialogue s" for s'
      using assms s that by (simp add: tables_ok_def member_joined)
    then have "dl_dialogue s \<in> dl_dialogue ` set (joined_sessions d e p) \<longleftrightarrow> s \<in> set (joined_sessions d e p)" by fastforce
    then show ?thesis using s by (auto simp: member_joined)
  qed
  have "\<not> sessions_referred (cleared e p d) s"
    if "s \<in> set (dt_sessions d)" "dl_experiment s = e" "dl_dialogue s \<in> dl_dialogue ` set (joined_sessions d e p)" for s
    using own [OF that(1)] that(2,3) by (auto simp: sessions_referred_def list_ex_iff erase_def Let_def)
  moreover have "filter (\<lambda>s. \<not> (dl_experiment s = e \<and> dl_dialogue s \<in> dl_dialogue ` set (joined_sessions d e p))) (dt_sessions d) =
      dt_sessions (erase e p d)"
    unfolding erase_def Let_def tables.simps using own by (intro filter_cong) simp_all
  ultimately show ?thesis by (auto simp: delete_sessions_def list_ex_iff Let_def)
qed

lemma own_sessions: "s \<in> set (dt_seats d) \<Longrightarrow> st_experiment s = e \<Longrightarrow> st_participant s = p \<Longrightarrow> st_session s \<in> set (sessions_of d e p)"
  by (auto simp: sessions_of_def)

lemma erased_references:
  assumes "tables_ok d" "x \<in> set (dt_people d)" "is_person e p x"
  shows "person_referred ((cleared e p d)\<lparr>dt_sessions := ss\<rparr>) p \<longleftrightarrow> (\<exists>b \<in> set (dt_submissions d). sb_participant b = p)"
proof -
  have x: "pe_experiment y = e" if "y \<in> set (dt_people d)" "pe_id y = p" for y
    using assms that unfolding tables_ok_def is_person_def by metis
  have seats: "st_participant s \<noteq> p" if "s \<in> set (dt_seats (erase e p d))" for s
  proof
    assume p: "st_participant s = p"
    have s: "s \<in> set (dt_seats d)" "\<not> (st_experiment s = e \<and> st_session s \<in> set (sessions_of d e p))"
      using that by (auto simp: erase_def Let_def)
    then have "st_experiment s = e" using assms(1) p x unfolding tables_ok_def by metis
    then show False using s own_sessions p by blast
  qed
  have consents: "co_participant c \<noteq> p" if "c \<in> set (dt_consents (erase e p d))" for c
  proof
    assume p: "co_participant c = p"
    have c: "c \<in> set (dt_consents d)" "\<not> (co_experiment c = e \<and> co_participant c = p)" using that by (auto simp: erase_def Let_def)
    then show False using assms(1) p x unfolding tables_ok_def by metis
  qed
  have events: "en_actor v \<noteq> Some p" if "v \<in> set (dt_events (erase e p d))" for v
  proof
    assume p: "en_actor v = Some p"
    have v: "v \<in> set (dt_events d)" "\<not> (en_experiment v = e \<and> en_session v \<in> set (sessions_of d e p))"
      using that by (auto simp: erase_def Let_def)
    then obtain s where s: "s \<in> set (dt_seats d)" "st_experiment s = en_experiment v" "st_session s = en_session v" "st_participant s = p"
      using assms(1) p unfolding tables_ok_def by blast
    then have "st_experiment s = e" using assms(1) x unfolding tables_ok_def by metis
    then show False using s v own_sessions by metis
  qed
  show ?thesis using seats consents events by (auto simp: person_referred_def list_ex_iff)
qed

lemma delete_person_erased:
  assumes "tables_ok d"
  shows "delete_person fk e p ((cleared e p d)\<lparr>dt_sessions := dt_sessions (erase e p d)\<rparr>) =
    (if fk \<and> (\<exists>x \<in> set (dt_people d). is_person e p x) \<and> (\<exists>b \<in> set (dt_submissions d). sb_participant b = p)
     then Err ConstraintFailed else Ok (erase e p d))"
proof -
  have "(cleared e p d)\<lparr>dt_sessions := dt_sessions (erase e p d),
      dt_people := filter (\<lambda>x. \<not> is_person e p x) (dt_people d)\<rparr> = erase e p d"
    by (rule tables.equality) (simp_all add: is_person_def, simp_all add: erase_def Let_def)
  moreover have "(\<exists>x \<in> set (dt_people d). is_person e p x) \<and> person_referred ((cleared e p d)\<lparr>dt_sessions := ss\<rparr>) p \<longleftrightarrow>
      (\<exists>x \<in> set (dt_people d). is_person e p x) \<and> (\<exists>b \<in> set (dt_submissions d). sb_participant b = p)" for ss
    using erased_references [OF assms] by blast
  ultimately show ?thesis by (simp add: delete_person_def list_ex_iff)
qed

lemma erased_person: "\<not> list_ex (is_person e p) (dt_people (erase e p d))"
  by (auto simp: erase_def is_person_def list_ex_iff Let_def)

section \<open>Properties\<close>

text \<open>C16 (equivalence). On tables the schema and the server keep consistent, a deletion is refused when a session
  of the participant has not ended or, with foreign keys enforced, when the participant came from
  Prolific; otherwise it erases the participant and every session in which the participant appeared, and
  nothing else, and the only trace left is a Prolific submission.\<close>

theorem deletion_is_erasure:
  assumes "tables_ok d"
  shows "delete_participant_data fk d d e p =
      (if pv_non_terminal (participant_data_preview d e p) then Err NonTerminal
       else if fk \<and> (\<exists>x \<in> set (dt_people d). is_person e p x) \<and> (\<exists>b \<in> set (dt_submissions d). sb_participant b = p)
       then Err ConstraintFailed
       else Ok (erase e p d, participant_data_preview d e p)) \<and>
    (traces (erase e p d) e p \<longleftrightarrow> (\<exists>b \<in> set (dt_submissions d). sb_experiment b = e \<and> sb_participant b = p))"
proof
  show "delete_participant_data fk d d e p =
      (if pv_non_terminal (participant_data_preview d e p) then Err NonTerminal
       else if fk \<and> (\<exists>x \<in> set (dt_people d). is_person e p x) \<and> (\<exists>b \<in> set (dt_submissions d). sb_participant b = p)
       then Err ConstraintFailed
       else Ok (erase e p d, participant_data_preview d e p))"
  proof (cases "pv_non_terminal (participant_data_preview d e p)")
    case False
    moreover from this have "\<not> list_ex (\<lambda>s. dl_lifecycle s \<noteq> ''ended'') (joined_sessions d e p)"
      by (simp add: participant_data_preview_def Let_def)
    moreover have "pv_session_ids (participant_data_preview d e p) = sort (map dl_dialogue (joined_sessions d e p))"
      by (simp add: participant_data_preview_def Let_def)
    moreover note delete_sessions_joined [OF assms, of fk e p, unfolded cleared_def]
    ultimately show ?thesis
      using delete_person_erased [OF assms, of fk e p] erased_person [of e p d]
      by (simp add: delete_participant_data_def Let_def cleared_def)
  qed (simp add: delete_participant_data_def)
  have "\<not> (en_experiment v = e \<and> en_actor v = Some p)" if v: "v \<in> set (dt_events (erase e p d))" for v
  proof
    assume a: "en_experiment v = e \<and> en_actor v = Some p"
    have "v \<in> set (dt_events d)" using v by (simp add: erase_def Let_def)
    then obtain s where "s \<in> set (dt_seats d)" "st_experiment s = e" "st_session s = en_session v" "st_participant s = p"
      using assms a unfolding tables_ok_def by metis
    then have "en_session v \<in> set (sessions_of d e p)" using own_sessions by metis
    then show False using a v by (simp add: erase_def Let_def)
  qed
  moreover have "\<not> (\<exists>s \<in> set (dt_seats (erase e p d)). st_experiment s = e \<and> st_participant s = p)"
    using own_sessions by (auto simp: erase_def Let_def)
  ultimately show "traces (erase e p d) e p \<longleftrightarrow> (\<exists>b \<in> set (dt_submissions d). sb_experiment b = e \<and> sb_participant b = p)"
    unfolding traces_def by (auto simp: erase_def Let_def)
qed

lemma deletion_keeps_submissions:
  "delete_participant_data fk d0 d e p = Ok (d', pv) \<Longrightarrow> dt_submissions d' = dt_submissions d"
  by (auto simp: delete_participant_data_def Let_def delete_sessions_def delete_person_def deletion_steps split: if_splits)

text \<open>C17 (safety). The data of a participant who came from Prolific is never deleted completely: with
  foreign keys enforced the deletion fails and removes nothing, and without them the submission with the
  participant's Prolific identifier stays.\<close>

theorem prolific_identity_survives:
  assumes "tables_ok d" "b \<in> set (dt_submissions d)" "sb_participant b = p" "participant_id_for_research_id d e r = Some p"
    "x \<in> set (dt_people d)" "pe_experiment x = e" "pe_id x = p"
  shows "b \<in> set (dt_submissions (fst (admin_delete_participant_data fk d e r))) \<and>
    (fk \<longrightarrow> admin_delete_participant_data fk d e r = (d, DeletionBlocked) \<or>
      admin_delete_participant_data fk d e r = (d, DeletionFailed ConstraintFailed))"
proof -
  have "dt_submissions (fst (admin_delete_participant_data fk d e r)) = dt_submissions d"
    using deletion_keeps_submissions [of fk d d e p] assms(4)
    by (auto simp: admin_delete_participant_data_def split: outcome.split)
  moreover have "delete_participant_data fk d d e p = Err ConstraintFailed"
    if "fk" "\<not> pv_non_terminal (participant_data_preview d e p)"
  proof -
    have "\<exists>x \<in> set (dt_people d). is_person e p x" using assms(5-7) by (auto simp: is_person_def)
    moreover have "\<exists>b \<in> set (dt_submissions d). sb_participant b = p" using assms(2,3) by blast
    ultimately show ?thesis using deletion_is_erasure [OF assms(1), of fk e p] that by simp
  qed
  ultimately show ?thesis using assms(2,4) by (auto simp: admin_delete_participant_data_def)
qed

text \<open>C32 (safety). A participant without a seat in a session, because none was joined or because the shared
  sessions were deleted with the other participant, cannot be deleted: the request is answered as if the
  participant were absent, and everything stored stays.\<close>

theorem unseated_participant_not_deleted:
  assumes "x \<in> set (dt_people d)" "pe_research x = Some r" "\<forall>y \<in> set (dt_people d). pe_research y = Some r \<longrightarrow> y = x"
    "\<forall>s \<in> set (dt_seats d). st_experiment s = e \<longrightarrow> st_participant s \<noteq> pe_id x"
  shows "admin_delete_participant_data fk d e r = (d, AlreadyAbsent) \<and>
    admin_participant_deletion_preview d e r = None"
proof -
  have "find (\<lambda>y. pe_research y = Some r) (exported_people d e) = None"
    using assms(3,4) by (fastforce simp: find_None_iff exported_people_def list_ex_iff)
  then show ?thesis
    by (simp add: admin_delete_participant_data_def admin_participant_deletion_preview_def participant_id_for_research_id_def)
qed

section \<open>An experiment with two participants\<close>

text \<open>\<open>amber\<close> came from Prolific, \<open>birch\<close> did not; they played one session to its end.\<close>

definition demo_tables :: tables where
  "demo_tables = \<lparr>dt_people =
       [\<lparr>pe_id = 1, pe_experiment = ''e'', pe_research = Some ''amber''\<rparr>, \<lparr>pe_id = 2, pe_experiment = ''e'', pe_research = Some ''birch''\<rparr>],
     dt_sessions = [\<lparr>dl_experiment = ''e'', dl_session = 1, dl_dialogue = ''d'', dl_lifecycle = ''ended''\<rparr>],
     dt_seats = [\<lparr>st_experiment = ''e'', st_session = 1, st_participant = 1\<rparr>, \<lparr>st_experiment = ''e'', st_session = 1, st_participant = 2\<rparr>],
     dt_submissions = [\<lparr>sb_experiment = ''e'', sb_participant = 1, sb_prolific = ''pid''\<rparr>],
     dt_consents = [\<lparr>co_experiment = ''e'', co_session = None, co_participant = 1\<rparr>, \<lparr>co_experiment = ''e'', co_session = None, co_participant = 2\<rparr>],
     dt_events = [\<lparr>en_experiment = ''e'', en_session = 1, en_type = ''conversation_message'', en_actor = Some 2\<rparr>]\<rparr>"

lemma demo_tables_ok: "tables_ok demo_tables"
  by (simp add: tables_ok_def demo_tables_def)

lemma deletion_is_erasure_witness:
  "delete_participant_data True demo_tables demo_tables ''e'' 2 =
     Ok (erase ''e'' 2 demo_tables, participant_data_preview demo_tables ''e'' 2) \<and> \<not> traces (erase ''e'' 2 demo_tables) ''e'' 2"
proof -
  have "\<not> pv_non_terminal (participant_data_preview demo_tables ''e'' 2)" by code_simp
  moreover have "\<not> (\<exists>b \<in> set (dt_submissions demo_tables). sb_participant b = 2)" by (simp add: demo_tables_def)
  ultimately show ?thesis using deletion_is_erasure [OF demo_tables_ok, of True "''e''" 2] by auto
qed

lemma prolific_identity_survives_witness:
  "dt_submissions (fst (admin_delete_participant_data False demo_tables ''e'' ''amber'')) \<noteq> []"
proof -
  have "participant_id_for_research_id demo_tables ''e'' ''amber'' = Some 1" by code_simp
  then have "\<lparr>sb_experiment = ''e'', sb_participant = 1, sb_prolific = ''pid''\<rparr> \<in>
      set (dt_submissions (fst (admin_delete_participant_data False demo_tables ''e'' ''amber'')))"
    using prolific_identity_survives [OF demo_tables_ok, where fk = False and e = "''e''" and r = "''amber''" and p = 1 and
          b = "\<lparr>sb_experiment = ''e'', sb_participant = 1, sb_prolific = ''pid''\<rparr>" and
          x = "\<lparr>pe_id = 1, pe_experiment = ''e'', pe_research = Some ''amber''\<rparr>"]
    by (simp add: demo_tables_def)
  then show ?thesis by (metis empty_iff empty_set)
qed

lemma demo_after: "erase ''e'' 2 demo_tables = demo_tables\<lparr>dt_people := [\<lparr>pe_id = 1, pe_experiment = ''e'', pe_research = Some ''amber''\<rparr>],
     dt_sessions := [], dt_seats := [], dt_consents := [\<lparr>co_experiment = ''e'', co_session = None, co_participant = 1\<rparr>], dt_events := []\<rparr>"
  by (simp add: erase_def demo_tables_def sessions_of_def)

lemma unseated_participant_not_deleted_witness:
  "admin_delete_participant_data True (erase ''e'' 2 demo_tables) ''e'' ''amber'' = (erase ''e'' 2 demo_tables, AlreadyAbsent) \<and>
     traces (erase ''e'' 2 demo_tables) ''e'' 1"
proof -
  let ?x = "\<lparr>pe_id = 1, pe_experiment = ''e'', pe_research = Some ''amber''\<rparr>"
  have "?x \<in> set (dt_people (erase ''e'' 2 demo_tables))" "pe_research ?x = Some ''amber''"
    "\<forall>y \<in> set (dt_people (erase ''e'' 2 demo_tables)). pe_research y = Some ''amber'' \<longrightarrow> y = ?x"
    "\<forall>s \<in> set (dt_seats (erase ''e'' 2 demo_tables)). st_experiment s = ''e'' \<longrightarrow> st_participant s \<noteq> pe_id ?x"
    by (simp_all add: demo_after)
  note absent = unseated_participant_not_deleted [OF this, of True]
  have "traces (erase ''e'' 2 demo_tables) ''e'' 1" by (simp add: traces_def demo_after)
  then show ?thesis using absent by blast
qed

end
