(* ===== verification/Config_Secrets.thy ===== *)
theory Config_Secrets
  imports Agents Agent_Settings
begin

text \<open>
  How \<open>rust-server/src/app.rs\<close> keeps credentials out of stored experiment configurations: the names
  that look like credentials, the redaction before a configuration is stored, the check of game options,
  the references to secrets, and the keys of secrets entered in the dashboard.
\<close>

section \<open>Strings\<close>

definition ascii_lower :: "string \<Rightarrow> string" where
  "ascii_lower s = map (\<lambda>c. let n = of_char c :: nat in if 65 \<le> n \<and> n \<le> 90 then char_of (n + 32) else c) s"

definition ends_with :: "string \<Rightarrow> string \<Rightarrow> bool" where
  "ends_with p s \<longleftrightarrow> length p \<le> length s \<and> drop (length s - length p) s = p"

text \<open>The bytes that begin a character: \<open>chars().count()\<close> is their number.\<close>

definition begins_char :: "char \<Rightarrow> bool" where
  "begins_char c \<longleftrightarrow> (let n = of_char c :: nat in n < 0x80 \<or> 0xC0 \<le> n)"

definition char_count :: "string \<Rightarrow> nat" where
  "char_count s = length (filter begins_char s)"

fun join_dots :: "string list \<Rightarrow> string" where
  "join_dots [] = []"
| "join_dots [x] = x"
| "join_dots (x # xs) = x @ ''.'' @ join_dots xs"

section \<open>Names of credentials\<close>

definition credential_suffix :: "string \<Rightarrow> bool" where
  "credential_suffix n \<longleftrightarrow> ends_with ''_api_key'' n \<or> ends_with ''_password'' n \<or> ends_with ''_secret'' n \<or> ends_with ''_token'' n"

text \<open>The names a game configuration may not have, and the names that are redacted.\<close>

definition looks_like_credential :: "string \<Rightarrow> bool" where
  "looks_like_credential key =
     (let n = ascii_lower key in
      n = ''private_key'' \<or> n = ''client_secret'' \<or> n = ''access_token'' \<or> n = ''auth_token'' \<or> credential_suffix n \<or>
      List.member [''api_key'', ''apikey'', ''password'', ''token'', ''secret''] n)"

definition redacted_name :: "string \<Rightarrow> bool" where
  "redacted_name key =
     (let n = ascii_lower key in
      n = ''private_key'' \<or> n = ''client_secret'' \<or> n = ''access_token'' \<or> n = ''auth_token'' \<or> credential_suffix n \<or>
      List.member [''api_key'', ''apikey'', ''password'', ''password_hash'', ''token'', ''secret''] n)"

definition is_game_secret_reference :: "string \<Rightarrow> bool" where
  "is_game_secret_reference v =
     (case strip_prefix ''game.'' v of
        None \<Rightarrow> False
      | Some key \<Rightarrow> key \<noteq> [] \<and> length key \<le> 128 \<and>
          list_all (\<lambda>b. is_ascii_alphanumeric b \<or> b = CHR ''_'' \<or> b = CHR ''-'') key)"

section \<open>Redaction\<close>

definition redact_entry :: "json \<Rightarrow> json" where
  "redact_entry v = (case as_str v of Some s \<Rightarrow> if is_game_secret_reference s then v else JStr [] | None \<Rightarrow> JStr [])"

function redact_secret_fields :: "json \<Rightarrow> json" where
  "redact_secret_fields (JObj kvs) =
     JObj (map (\<lambda>(k, v). (k, if redacted_name k then redact_entry v else redact_secret_fields v)) kvs)"
| "redact_secret_fields (JArr vs) = JArr (map redact_secret_fields vs)"
| "redact_secret_fields JNull = JNull"
| "redact_secret_fields (JBool b) = JBool b"
| "redact_secret_fields (JInt n) = JInt n"
| "redact_secret_fields (JFloat q) = JFloat q"
| "redact_secret_fields (JStr s) = JStr s"
  by pat_completeness auto

termination
  by (relation "measure size") (use json_member_size in auto)

section \<open>The check of game options\<close>

text \<open>The error is the path of the first entry found.\<close>

function visit_config :: "json \<Rightarrow> string list \<Rightarrow> (string, unit) outcome" where
  "visit_config (JObj []) path = Ok ()"
| "visit_config (JObj ((k, v) # kvs)) path =
     (if looks_like_credential k then Err (join_dots (path @ [k]))
      else obind (visit_config v (path @ [k])) (\<lambda>u. visit_config (JObj kvs) path))"
| "visit_config (JArr []) path = Ok ()"
| "visit_config (JArr (v # vs)) path = obind (visit_config v path) (\<lambda>u. visit_config (JArr vs) path)"
| "visit_config JNull path = Ok ()"
| "visit_config (JBool b) path = Ok ()"
| "visit_config (JInt n) path = Ok ()"
| "visit_config (JFloat q) path = Ok ()"
| "visit_config (JStr s) path = Ok ()"
  by pat_completeness auto

termination
  by (relation "measure (\<lambda>(v, path). size v)") auto

definition validate_game_config_contains_no_secrets :: "json \<Rightarrow> (string, unit) outcome" where
  "validate_game_config_contains_no_secrets v = visit_config v []"

section \<open>Secrets entered in the dashboard\<close>

definition derived_agent_secret_key :: "string \<Rightarrow> string \<Rightarrow> string" where
  "derived_agent_secret_key factory path =
     take 128 (map (\<lambda>c. if is_ascii_alphanumeric c \<or> c = CHR ''_'' \<or> c = CHR ''-'' then c else CHR ''_'')
       (filter begins_char (''agent_'' @ factory @ ''_'' @ path)))"

text \<open>\<open>decorate\<close>: the reference a dashboard field of a serialised definition gets.\<close>

fun decorate_path :: "string \<Rightarrow> string \<Rightarrow> string" where
  "decorate_path [] key = key"
| "decorate_path parent key = parent @ ''.'' @ key"

function decorate :: "string \<Rightarrow> string \<Rightarrow> json \<Rightarrow> json" where
  "decorate factory parent field =
     (case field of
        JObj obj \<Rightarrow>
          (case map_of obj ''key'' of
             Some (JStr key) \<Rightarrow>
               (let path = decorate_path parent key in
                case map_of obj ''type'' of
                  Some (JStr t) \<Rightarrow>
                    if t = ''secret_reference'' then
                      JObj (entry_insert ''secret_reference'' (JStr (''game.'' @ derived_agent_secret_key factory path)) obj)
                    else if t = ''object'' then
                      (case map_of obj ''fields'' of
                         Some (JArr children) \<Rightarrow> JObj (entry_insert ''fields'' (JArr (map (decorate factory path) children)) obj)
                       | _ \<Rightarrow> field)
                    else field
                | _ \<Rightarrow> field)
           | _ \<Rightarrow> field)
      | _ \<Rightarrow> field)"
  by pat_completeness auto

termination
proof (relation "measure (\<lambda>(factory, parent, field). size field)", goal_cases)
  case (2 factory parent field obj kv key path tv t fv children child)
  then have "size child < size (JArr children)" "size fv < size field"
    using json_member_size(2) [of child children] json_member_size(1) [OF map_of_SomeD, of obj "''fields''" fv] by auto
  then show ?case using 2 by simp
qed simp

declare decorate.simps [simp del]

definition dashboard_agent_definition :: "json \<Rightarrow> json" where
  "dashboard_agent_definition d =
     (case d of
        JObj obj \<Rightarrow>
          (case (map_of obj ''id'', map_of obj ''config_fields'') of
             (Some (JStr factory), Some (JArr flds)) \<Rightarrow>
               JObj (entry_insert ''config_fields'' (JArr (map (decorate factory []) flds)) obj)
           | _ \<Rightarrow> d)
      | _ \<Rightarrow> d)"

datatype secret_error = BadSecretKey | BadSecretValue

definition validate_secret_update :: "string \<Rightarrow> string option \<Rightarrow> (secret_error, unit) outcome" where
  "validate_secret_update key val =
     (if 128 < char_count key \<or>
         \<not> (case strip_prefix ''game.'' key of None \<Rightarrow> False | Some name \<Rightarrow> name \<noteq> []) \<or>
         \<not> list_all (\<lambda>b. is_ascii_alphanumeric b \<or> b = CHR ''.'' \<or> b = CHR ''-'' \<or> b = CHR ''_'') key
      then Err BadSecretKey
      else if \<exists>v \<in> set_option val. v = [] \<or> 65536 < length v then Err BadSecretValue
      else Ok ())"

text \<open>Secrets of an experiment and of the server, as the runtime receives them.\<close>

definition game_secrets_of :: "(string \<rightharpoonup> string) \<Rightarrow> (string \<rightharpoonup> string)" where
  "game_secrets_of secrets = (\<lambda>key. secrets (''game.'' @ key))"

end
