(* ===== verification/Secrets_Properties.thy ===== *)
theory Secrets_Properties
  imports Config_Secrets
begin

text \<open>
  What the redaction of stored configurations does and does not do, and which references to secrets the
  server accepts back.
\<close>

section \<open>Credential-free documents\<close>

text \<open>The reference: a document in which every entry with the name of a credential is empty or refers to a
  secret.\<close>

definition harmless :: "json \<Rightarrow> bool" where
  "harmless v \<longleftrightarrow> v = JStr [] \<or> (\<exists>s. v = JStr s \<and> is_game_secret_reference s)"

inductive credential_free :: "json \<Rightarrow> bool" where
  object: "(\<And>k v. (k, v) \<in> set kvs \<Longrightarrow> if redacted_name k then harmless v else credential_free v) \<Longrightarrow> credential_free (JObj kvs)"
| array: "(\<And>v. v \<in> set vs \<Longrightarrow> credential_free v) \<Longrightarrow> credential_free (JArr vs)"
| null: "credential_free JNull"
| bool: "credential_free (JBool b)"
| int: "credential_free (JInt n)"
| float: "credential_free (JFloat q)"
| str: "credential_free (JStr s)"

inductive_simps credential_free_simps [simp]:
  "credential_free (JObj kvs)" "credential_free (JArr vs)" "credential_free JNull" "credential_free (JBool b)"
  "credential_free (JInt n)" "credential_free (JFloat q)" "credential_free (JStr s)"

lemma redact_entry_harmless: "harmless (redact_entry v)"
  by (auto simp: redact_entry_def harmless_def split: option.split)

lemma redact_entry_same: "redact_entry v = v \<longleftrightarrow> harmless v"
  by (cases v) (auto simp: redact_entry_def harmless_def)

lemma redact_credential_free: "credential_free (redact_secret_fields v)"
proof (induction v rule: redact_secret_fields.induct)
  case (1 kvs)
  then show ?case by (fastforce simp: redact_entry_harmless)
qed (auto)

lemma redact_same: "redact_secret_fields v = v \<longleftrightarrow> credential_free v"
proof
  assume "redact_secret_fields v = v"
  then show "credential_free v" using redact_credential_free [of v] by simp
next
  assume "credential_free v"
  then show "redact_secret_fields v = v"
  proof (induction rule: credential_free.induct)
    case (object kvs)
    have "(\<lambda>(k, v). (k, if redacted_name k then redact_entry v else redact_secret_fields v)) x = x" if "x \<in> set kvs" for x
      using object [of "fst x" "snd x"] that by (cases x) (auto simp: redact_entry_same split: if_splits)
    then have "map (\<lambda>(k, v). (k, if redacted_name k then redact_entry v else redact_secret_fields v)) kvs = kvs"
      by (rule map_idI)
    then show ?case by simp
  next
    case (array vs)
    then have "map redact_secret_fields vs = vs" by (intro map_idI) blast
    then show ?case by simp
  qed simp_all
qed

section \<open>The check of game options\<close>

text \<open>No entry of a document has a name in a set.\<close>

inductive names_avoid :: "(string \<Rightarrow> bool) \<Rightarrow> json \<Rightarrow> bool" for P where
  object: "(\<And>k v. (k, v) \<in> set kvs \<Longrightarrow> \<not> P k \<and> names_avoid P v) \<Longrightarrow> names_avoid P (JObj kvs)"
| array: "(\<And>v. v \<in> set vs \<Longrightarrow> names_avoid P v) \<Longrightarrow> names_avoid P (JArr vs)"
| null: "names_avoid P JNull"
| bool: "names_avoid P (JBool b)"
| int: "names_avoid P (JInt n)"
| float: "names_avoid P (JFloat q)"
| str: "names_avoid P (JStr s)"

inductive_simps names_avoid_simps [simp]:
  "names_avoid P (JObj kvs)" "names_avoid P (JArr vs)" "names_avoid P JNull" "names_avoid P (JBool b)"
  "names_avoid P (JInt n)" "names_avoid P (JFloat q)" "names_avoid P (JStr s)"

lemma visit_config_iff: "visit_config v path = Ok () \<longleftrightarrow> names_avoid looks_like_credential v"
proof (induction v path rule: visit_config.induct)
  case (2 k v kvs path)
  then have "visit_config (JObj ((k, v) # kvs)) path = Ok () \<longleftrightarrow> \<not> looks_like_credential k \<and>
      names_avoid looks_like_credential v \<and> names_avoid looks_like_credential (JObj kvs)"
    by (cases "looks_like_credential k") (simp_all only: visit_config.simps if_False if_True obind_eq_Ok, auto)
  then show ?case by auto
next
  case (4 v vs path)
  then have "visit_config (JArr (v # vs)) path = Ok () \<longleftrightarrow>
      names_avoid looks_like_credential v \<and> names_avoid looks_like_credential (JArr vs)"
    by (simp only: visit_config.simps obind_eq_Ok) auto
  then show ?case by auto
qed simp_all

lemma redacted_name_split: "redacted_name k \<longleftrightarrow> looks_like_credential k \<or> ascii_lower k = ''password_hash''"
  by (auto simp: redacted_name_def looks_like_credential_def Let_def)

lemma avoid_credential_free:
  "names_avoid looks_like_credential v \<Longrightarrow> names_avoid (\<lambda>k. ascii_lower k = ''password_hash'') v \<Longrightarrow> credential_free v"
proof (induction v rule: redact_secret_fields.induct)
  case (1 kvs)
  then show ?case by (fastforce simp: redacted_name_split)
qed auto

section \<open>References\<close>

definition key_char :: "char \<Rightarrow> bool" where
  "key_char c \<longleftrightarrow> is_ascii_alphanumeric c \<or> c = CHR ''_'' \<or> c = CHR ''-''"

lemma derived_key_chars: "list_all key_char (derived_agent_secret_key f p)"
  by (auto simp: derived_agent_secret_key_def list_all_iff key_char_def dest!: in_set_takeD)

lemma key_char_begins: "key_char c \<Longrightarrow> begins_char c"
  by (auto simp: key_char_def begins_char_def is_ascii_alphanumeric_def Let_def)

lemma derived_key_length:
  "length (derived_agent_secret_key f p) = min 128 (char_count (''agent_'' @ f @ ''_'' @ p))"
  by (simp add: derived_agent_secret_key_def char_count_def)

lemma char_count_append [simp]: "char_count (xs @ ys) = char_count xs + char_count ys"
  by (simp add: char_count_def)

lemma char_count_ascii: "list_all begins_char xs \<Longrightarrow> char_count xs = length xs"
  by (simp add: char_count_def list_all_iff)

lemma prefix_counts: "char_count ''agent_'' = 6" "char_count ''_'' = 1" "char_count ''game.'' = 5"
  by code_simp+

lemma derived_key_count: "char_count (''game.'' @ derived_agent_secret_key f p) = 5 + min 128 (7 + char_count f + char_count p)"
proof -
  have "list_all begins_char (derived_agent_secret_key f p)"
    using derived_key_chars [of f p] key_char_begins by (auto simp: list_all_iff)
  then show ?thesis using char_count_ascii [of "derived_agent_secret_key f p"]
    unfolding char_count_append derived_key_length prefix_counts by linarith
qed

lemma derived_key_nonempty: "derived_agent_secret_key f p \<noteq> []"
proof -
  have "length (derived_agent_secret_key f p) \<noteq> 0" unfolding derived_key_length char_count_append prefix_counts by linarith
  then show ?thesis by auto
qed

section \<open>Properties\<close>

text \<open>C30 (equivalence). Redaction leaves no credential in a stored configuration: afterwards every entry with the
  name of a credential, at any depth, is empty or a reference to a secret; a document is unchanged exactly
  when this held before; and game options that pass the check for credentials are stored as they are when
  none is named \<open>password_hash\<close>.\<close>

theorem redaction_removes_credentials:
  "credential_free (redact_secret_fields v) \<and>
   (redact_secret_fields v = v \<longleftrightarrow> credential_free v) \<and>
   (validate_game_config_contains_no_secrets v = Ok () \<longrightarrow> names_avoid (\<lambda>k. ascii_lower k = ''password_hash'') v \<longrightarrow>
      redact_secret_fields v = v)"
  using redact_credential_free redact_same avoid_credential_free
  by (auto simp: validate_game_config_contains_no_secrets_def visit_config_iff)

lemma redaction_removes_credentials_witness:
  "redact_secret_fields (JObj [(''model'', JStr ''m'')]) = JObj [(''model'', JStr ''m'')]"
proof -
  have "validate_game_config_contains_no_secrets (JObj [(''model'', JStr ''m'')]) = Ok ()" by code_simp
  moreover have "ascii_lower ''model'' \<noteq> ''password_hash''" by code_simp
  ultimately show ?thesis using redaction_removes_credentials [of "JObj [(''model'', JStr ''m'')]"] by simp
qed

text \<open>An agent definition with one text setting, \<open>stop_token\<close>.\<close>

definition token_definition :: agent_definition where
  "token_definition = \<lparr>def_id = ''bot'', def_name = ''Bot'', def_description = [],
     def_fields = [Field ''stop_token'' ''Stop'' [] (VString Plain) False JNull]\<rparr>"

lemma token_names: "valid_key ''stop_token''" "\<not> looks_like_credential ''password_hash''"
  "redacted_name ''password_hash''" "redacted_name ''stop_token''"
  by code_simp+

text \<open>C31 (error). Stored configurations can lose values that were accepted: a game option named
  \<open>password_hash\<close> passes the check for credentials and is erased when it is stored, and so is a text
  setting of an agent whose declared, validated name ends like that of a credential, such as
  \<open>stop_token\<close>.\<close>

theorem accepted_settings_erased:
  assumes "\<not> is_game_secret_reference t" "\<not> blank t"
  shows "validate_game_config_contains_no_secrets (JObj [(''password_hash'', JStr t)]) = Ok () \<and>
    redact_secret_fields (JObj [(''password_hash'', JStr t)]) = JObj [(''password_hash'', JStr [])] \<and>
    validate_definition pu py token_definition = Ok () \<and>
    normalize_settings pu py token_definition (JObj [(''stop_token'', JStr t)]) = Ok (JObj [(''stop_token'', JStr t)]) \<and>
    redact_secret_fields (JObj [(''stop_token'', JStr t)]) = JObj [(''stop_token'', JStr [])]"
  using assms token_names not_blank_bot
  by (simp add: validate_game_config_contains_no_secrets_def redact_entry_def validate_definition_def normalize_settings_def
      token_definition_def validate_fields.simps normalize_object.simps normalize_value.simps normalize_string_def field_value_def
      sub_path_def check_known_keys_def)

lemma accepted_settings_erased_witness:
  "redact_secret_fields (JObj [(''stop_token'', JStr ''END'')]) = JObj [(''stop_token'', JStr [])]"
proof -
  have "\<not> is_game_secret_reference ''END''" "\<not> blank ''END''" by code_simp+
  then show ?thesis using accepted_settings_erased by blast
qed

text \<open>A definition with two credentials, \<open>voice.key\<close> and \<open>voice_key\<close>.\<close>

definition clashing_definition :: agent_definition where
  "clashing_definition = \<lparr>def_id = ''bot'', def_name = ''Bot'', def_description = [], def_fields =
     [Field ''voice'' ''Voice'' [] (VObject [Field ''key'' ''Key'' [] (VSecretReference Factory) False JNull]) False JNull,
      Field ''voice_key'' ''Key'' [] (VSecretReference Factory) False JNull]\<rparr>"

lemma clashing_valid: "validate_definition pu py clashing_definition = Ok ()"
proof -
  have "valid_key ''voice''" "valid_key ''key''" "valid_key ''voice_key''" by code_simp+
  then show ?thesis
    using not_blank_bot by (simp add: validate_definition_def clashing_definition_def validate_fields.simps sub_path_def)
qed

lemma clashing_keys: "derived_agent_secret_key f ''voice.key'' = derived_agent_secret_key f ''voice_key''"
proof -
  have "map (\<lambda>c. if is_ascii_alphanumeric c \<or> c = CHR ''_'' \<or> c = CHR ''-'' then c else CHR ''_'') (filter begins_char ''voice.key'') =
      map (\<lambda>c. if is_ascii_alphanumeric c \<or> c = CHR ''_'' \<or> c = CHR ''-'' then c else CHR ''_'') (filter begins_char ''voice_key'')"
    by code_simp
  then show ?thesis unfolding derived_agent_secret_key_def filter_append map_append by metis
qed

text \<open>The key derived for a credential entered in the dashboard is a reference that redaction
  keeps, and the server takes the credential when the key of factory and path is short enough; with more
  than 116 characters of factory and path together, saving it is always refused. Different credentials of
  one valid definition can have the same key: a field nested in an object and a field whose name joins
  the two with an underscore.\<close>

theorem derived_references:
  "is_game_secret_reference (''game.'' @ derived_agent_secret_key f p) \<and>
   redact_entry (JStr (''game.'' @ derived_agent_secret_key f p)) = JStr (''game.'' @ derived_agent_secret_key f p) \<and>
   validate_secret_update (''game.'' @ derived_agent_secret_key f p) None =
     (if char_count f + char_count p \<le> 116 then Ok () else Err BadSecretKey) \<and>
   validate_definition pu py clashing_definition = Ok () \<and>
   derived_agent_secret_key f ''voice.key'' = derived_agent_secret_key f ''voice_key''"
proof -
  note chars = derived_key_chars [of f p, unfolded key_char_def]
  have ref: "is_game_secret_reference (''game.'' @ derived_agent_secret_key f p)"
    using chars derived_key_nonempty [of f p] derived_key_length [of f p]
    by (simp add: is_game_secret_reference_def strip_prefix_def starts_with_def)
  moreover have "list_all (\<lambda>b. is_ascii_alphanumeric b \<or> b = CHR ''.'' \<or> b = CHR ''-'' \<or> b = CHR ''_'')
      (''game.'' @ derived_agent_secret_key f p)"
  proof -
    have "list_all (\<lambda>b. is_ascii_alphanumeric b \<or> b = CHR ''.'' \<or> b = CHR ''-'' \<or> b = CHR ''_'') ''game.''" by code_simp
    then show ?thesis using chars by (auto simp: list_all_iff)
  qed
  ultimately show ?thesis
    using derived_key_nonempty [of f p] derived_key_count [of f p]
      clashing_valid [of pu py] clashing_keys [of f]
    by (auto simp: redact_entry_def validate_secret_update_def strip_prefix_def starts_with_def)
qed

end
