(* ===== verification/Configuration.thy ===== *)
theory Configuration
  imports Config_Secrets Session_Types
begin

text \<open>
  The configuration of an experiment, \<open>rust-server/src/config.rs\<close>, with the functions of \<open>app.rs\<close> that
  hydrate it: validation, what is missing for intake, the stored part and its return to the runtime,
  participant URLs, default endpoints.

  The URI parser of the \<open>http\<close> crate is an argument. \<open>cf_view\<close> is the part of a configuration the session
  theories read.
\<close>

section \<open>Records\<close>

record uri =
  ur_scheme :: "string option"
  ur_authority :: "string option"
  ur_host :: "string option"
  ur_path :: string
  ur_query :: "string option"

type_synonym http_parser = "string \<Rightarrow> uri option"

record consent_item_config = consent_item +
  ci_body :: string

record direct_config =
  di_enabled :: bool
  di_information_version :: string
  di_information_url :: string
  di_consents :: "consent_item_config list"

record prolific_paths = completion_paths +
  path_no_consent :: string

record prolific_config =
  pc_enabled :: bool
  pc_study :: string
  pc_paths :: prolific_paths
  pc_token :: string

record server_config =
  sv_public_url :: string
  sv_origins :: "string list"
  sv_client_dist :: "string option"

record voice_config =
  vc_enabled :: bool
  vc_sample_rate :: nat
  vc_frame_ms :: nat
  vc_jitter_ms :: nat
  vc_post_completion :: nat

record speechmatics_config =
  sm_api_key :: string
  sm_url :: string
  sm_max_delay :: f64
  sm_partials :: bool
  sm_silence :: f64

record transcription_config =
  tn_enabled :: bool
  tn_provider :: string
  tn_model :: string
  tn_language :: string

record tts_config =
  tt_enabled :: bool
  tt_provider :: string
  tt_model :: string
  tt_voice_id :: string
  tt_voice_name :: string
  tt_base_url :: string
  tt_api_key :: string
  tt_output :: string

record human_vs_agent =
  ha_factory :: "string option"
  ha_timeout :: f64
  ha_invalid_limit :: nat
  ha_seed :: "nat option"
  ha_config :: json

record agents_config =
  ag_mode :: agents_mode
  ag_human_vs_agent :: "human_vs_agent option"

text \<open>The revisioned part of a configuration, and the whole of it.\<close>

record stored_config =
  cf_session :: session_config
  cf_planned_sessions :: "int option"
  cf_direct :: direct_config
  cf_prolific :: prolific_config
  cf_voice :: voice_config
  cf_speechmatics :: speechmatics_config
  cf_transcription :: transcription_config
  cf_tts :: tts_config
  cf_agents :: agents_config
  cf_capacity :: capacity_config
  cf_contract :: string
  cf_game :: json

record full_config = stored_config +
  cf_id :: "string option"
  cf_server :: server_config
  cf_database :: string
  cf_game_secrets :: "string \<rightharpoonup> string"

section \<open>Defaults\<close>

definition default_session :: session_config where
  "default_session = \<lparr>waiting_session_timeout = 10 * 60, reconnect_grace = 15, session_idle_timeout = 30 * 60,
     session_max_lifetime = 4 * 60 * 60\<rparr>"

definition default_capacity :: capacity_config where
  "default_capacity = \<lparr>max_active_sessions = 30, max_waiting_sessions = 60, max_unattached_participants = 120,
     max_transcription_streams = 32, storage_reserve_megabytes = 256\<rparr>"

definition default_direct :: direct_config where
  "default_direct = \<lparr>di_enabled = True, di_information_version = [], di_information_url = [], di_consents = []\<rparr>"

definition default_prolific :: prolific_config where
  "default_prolific = \<lparr>pc_enabled = False, pc_study = [],
     pc_paths = \<lparr>path_completed = [], path_partner_left = [], path_game_did_not_start = [], path_ended_early = [],
       path_technical_failure = [], path_no_consent = []\<rparr>, pc_token = []\<rparr>"

definition default_server :: server_config where
  "default_server = \<lparr>sv_public_url = ''http://localhost:8000'', sv_origins = [], sv_client_dist = None\<rparr>"

definition default_voice :: voice_config where
  "default_voice = \<lparr>vc_enabled = False, vc_sample_rate = 24000, vc_frame_ms = 20, vc_jitter_ms = 100, vc_post_completion = 60\<rparr>"

definition default_speechmatics :: speechmatics_config where
  "default_speechmatics = \<lparr>sm_api_key = [], sm_url = ''wss://eu.rt.speechmatics.com/v2'', sm_max_delay = Finite 2,
     sm_partials = True, sm_silence = Finite (6 / 5)\<rparr>"

definition default_transcription :: transcription_config where
  "default_transcription = \<lparr>tn_enabled = False, tn_provider = ''speechmatics'', tn_model = ''enhanced'', tn_language = ''en-US''\<rparr>"

definition default_tts :: tts_config where
  "default_tts = \<lparr>tt_enabled = False, tt_provider = ''elevenlabs'', tt_model = ''eleven_flash_v2_5'', tt_voice_id = [],
     tt_voice_name = [], tt_base_url = ''wss://api.elevenlabs.io'', tt_api_key = [], tt_output = ''pcm_24000''\<rparr>"

definition default_human_vs_agent :: human_vs_agent where
  "default_human_vs_agent = \<lparr>ha_factory = None, ha_timeout = Finite 10, ha_invalid_limit = 3, ha_seed = None, ha_config = JObj []\<rparr>"

definition default_config :: full_config where
  "default_config = \<lparr>cf_session = default_session, cf_planned_sessions = None, cf_direct = default_direct,
     cf_prolific = default_prolific, cf_voice = default_voice, cf_speechmatics = default_speechmatics,
     cf_transcription = default_transcription, cf_tts = default_tts,
     cf_agents = \<lparr>ag_mode = HumanVsHuman, ag_human_vs_agent = None\<rparr>, cf_capacity = default_capacity,
     cf_contract = ''2'', cf_game = JObj [], cf_id = None, cf_server = default_server, cf_database = [],
     cf_game_secrets = Map.empty\<rparr>"

section \<open>Validation\<close>

text \<open>The error of a check names the setting.\<close>

definition id_ok :: "string \<Rightarrow> bool" where
  "id_ok i \<longleftrightarrow> i \<noteq> [] \<and> char_count i \<le> 128 \<and>
     list_all (\<lambda>b. is_ascii_alphanumeric b \<or> b = CHR ''-'' \<or> b = CHR ''_'' \<or> b = CHR ''.'') i"

definition validate_new_experiment_id :: "string \<Rightarrow> (string, unit) outcome" where
  "validate_new_experiment_id i = ensure (id_ok i) ''experiment_id''"

definition validate_prolific_code :: "string \<Rightarrow> string \<Rightarrow> (string, unit) outcome" where
  "validate_prolific_code name code =
     (if code = [] then Ok ()
      else ensure (\<not> (64 < char_count code \<or> \<not> list_all is_ascii_alphanumeric code)) name)"

definition path_codes :: "prolific_paths \<Rightarrow> (string \<times> string) list" where
  "path_codes p = [(''completed'', path_completed p), (''partner_left'', path_partner_left p),
     (''game_did_not_start'', path_game_did_not_start p), (''participation_ended_early'', path_ended_early p),
     (''technical_failure'', path_technical_failure p), (''no_consent'', path_no_consent p)]"

definition validate_websocket_url :: "http_parser \<Rightarrow> string \<Rightarrow> string \<Rightarrow> (string, unit) outcome" where
  "validate_websocket_url http field v =
     obind (ok_or (http v) field) (\<lambda>u.
       ensure (\<not> (\<not> List.member [Some ''ws'', Some ''wss''] (ur_scheme u) \<or> ur_authority u = None)) field)"

definition validate_http_url :: "http_parser \<Rightarrow> string \<Rightarrow> string \<Rightarrow> (string, unit) outcome" where
  "validate_http_url http field v =
     obind (ok_or (http v) field) (\<lambda>u.
     obind (ensure (\<not> (\<not> List.member [Some ''http'', Some ''https''] (ur_scheme u) \<or> ur_authority u = None)) field) (\<lambda>x.
       ensure (\<not> (\<exists>a \<in> set_option (ur_authority u). List.member a (CHR ''@''))) field))"

definition validate_public_origin :: "http_parser \<Rightarrow> string \<Rightarrow> string \<Rightarrow> (string, unit) outcome" where
  "validate_public_origin http field v =
     obind (validate_http_url http field v) (\<lambda>x.
     obind (ok_or (http v) field) (\<lambda>u.
       ensure (\<not> (ur_path u \<noteq> ''/'' \<or> ur_query u \<noteq> None)) field))"

text \<open>The loop over the allowed origins, with the set of those seen.\<close>

fun check_origins :: "http_parser \<Rightarrow> string list \<Rightarrow> string list \<Rightarrow> (string, unit) outcome" where
  "check_origins http seen [] = Ok ()"
| "check_origins http seen (origin # rest) =
     obind (validate_http_url http ''server.allowed_origins'' origin) (\<lambda>x.
     obind (ok_or (http origin) ''server.allowed_origins'') (\<lambda>u.
       if ur_path u \<noteq> ''/'' \<or> ur_query u \<noteq> None then Err ''server.allowed_origins''
       else if List.member seen (ascii_lower origin) then Err ''server.allowed_origins''
       else check_origins http (ascii_lower origin # seen) rest))"

fun contains :: "string \<Rightarrow> string \<Rightarrow> bool" where
  "contains p [] \<longleftrightarrow> p = []"
| "contains p (c # s) \<longleftrightarrow> starts_with p (c # s) \<or> contains p s"

fun check_consents :: "string list \<Rightarrow> consent_item_config list \<Rightarrow> (string, unit) outcome" where
  "check_consents seen [] = Ok ()"
| "check_consents seen (item # rest) =
     (if blank (ci_id item) \<or> 128 < char_count (ci_id item) then Err ''direct consent ids''
      else if List.member seen (ci_id item) then Err ''direct consent ids must be unique''
      else if blank (ci_title item) \<or> 500 < char_count (ci_title item) then Err ''direct consent titles''
      else if blank (ci_body item) \<or> 20000 < char_count (ci_body item) then Err ''direct consent bodies''
      else if contains ''{{'' (ci_body item) \<or> contains ''}}'' (ci_body item) then Err ''unresolved template placeholders''
      else check_consents (ci_id item # seen) rest)"

definition positive :: "f64 \<Rightarrow> bool" where
  "positive x \<longleftrightarrow> f64_is_finite x \<and> f64_less (Finite 0) x"

definition validate_session_limits :: "full_config \<Rightarrow> (string, unit) outcome" where
  "validate_session_limits c =
     (let s = cf_session c in
      if waiting_session_timeout s \<le> 0 then Err ''session.waiting_session_timeout_seconds''
      else if \<exists>n \<in> set_option (cf_planned_sessions c). n \<le> 0 then Err ''progress.planned_sessions''
      else if reconnect_grace s < 0 then Err ''session.reconnect_grace_seconds''
      else if 60 < reconnect_grace s then Err ''session.reconnect_grace_seconds''
      else
        obind (ofold (\<lambda>(name, code) u. validate_prolific_code name code) (path_codes (pc_paths (cf_prolific c))) ()) (\<lambda>x.
        if session_idle_timeout s \<le> 0 then Err ''session.session_idle_timeout_seconds''
        else if session_max_lifetime s < session_idle_timeout s then Err ''session.session_max_lifetime_seconds''
        else
          (let k = cf_capacity c in
           ensure (\<not> (max_active_sessions k = 0 \<or> max_waiting_sessions k = 0 \<or> max_unattached_participants k = 0 \<or>
              max_transcription_streams k = 0 \<or> storage_reserve_megabytes k = 0)) ''capacity'')))"

definition validate_speech :: "http_parser \<Rightarrow> full_config \<Rightarrow> (string, unit) outcome" where
  "validate_speech http c =
     (let v = cf_voice c; t = cf_tts c; n = cf_transcription c; m = cf_speechmatics c in
      if vc_jitter_ms v < vc_frame_ms v \<or> 5000 < vc_jitter_ms v then Err ''voice.jitter_buffer_ms''
      else if vc_post_completion v = 0 \<or> 3600 < vc_post_completion v then Err ''voice.post_completion_seconds''
      else
        obind (if tt_enabled t then
                 (if tt_provider t \<noteq> ''elevenlabs'' then Err ''tts.provider''
                  else if blank (tt_model t) then Err ''tts.model''
                  else if tt_output t \<noteq> ''pcm_24000'' then Err ''tts.output_format''
                  else validate_websocket_url http ''tts.base_url'' (tt_base_url t))
               else Ok ()) (\<lambda>x.
        if vc_enabled v \<and> (vc_sample_rate v \<noteq> 24000 \<or> vc_frame_ms v \<noteq> 20) then Err ''voice protocol version 1''
        else if tn_enabled n then
          (if tn_provider n \<noteq> ''speechmatics'' then Err ''transcription.provider''
           else if \<not> List.member [''standard'', ''enhanced''] (tn_model n) then Err ''transcription.model''
           else if blank (tn_model n) \<or> blank (tn_language n) then Err ''transcription.language''
           else
             obind (validate_websocket_url http ''speechmatics.realtime_url'' (sm_url m)) (\<lambda>x.
             if \<not> positive (sm_max_delay m) then Err ''speechmatics.max_delay''
             else ensure (positive (sm_silence m)) ''speechmatics.end_of_utterance_silence_trigger''))
        else Ok ()))"

definition validate_agents :: "full_config \<Rightarrow> (string, unit) outcome" where
  "validate_agents c =
     (let a = cf_agents c in
      obind (case ag_human_vs_agent a of
               None \<Rightarrow> Ok ()
             | Some h \<Rightarrow>
                 if \<not> positive (ha_timeout h) then Err ''agents.human_vs_agent.act_timeout_seconds''
                 else ensure (ha_invalid_limit h \<noteq> 0) ''agents.human_vs_agent.invalid_action_limit'') (\<lambda>x.
      if ag_mode a = HumanVsAgent \<and> ag_human_vs_agent a = None then Err ''agents.human_vs_agent is required''
      else ensure (\<not> (ag_mode a = HumanVsHuman \<and> ag_human_vs_agent a \<noteq> None)) ''agents.human_vs_agent must be omitted''))"

definition validate_config :: "http_parser \<Rightarrow> full_config \<Rightarrow> (string, unit) outcome" where
  "validate_config http c =
     obind (ensure (\<not> (\<exists>i \<in> set_option (cf_id c). \<not> id_ok i)) ''experiment.id'') (\<lambda>x.
     obind (validate_session_limits c) (\<lambda>x.
     obind (validate_http_url http ''server.public_base_url'' (sv_public_url (cf_server c))) (\<lambda>x.
     obind (check_origins http [] (sv_origins (cf_server c))) (\<lambda>x.
     if blank (cf_database c) then Err ''database.url''
     else if blank (cf_contract c) then Err ''privacy.contract_version''
     else
       obind (validate_speech http c) (\<lambda>x.
       obind (validate_agents c) (\<lambda>x.
       obind (check_consents [] (di_consents (cf_direct c))) (\<lambda>x.
         (let has_version = \<not> blank (di_information_version (cf_direct c));
              has_url = \<not> blank (di_information_url (cf_direct c)) in
          if has_version \<noteq> has_url then Err ''direct participant information''
          else if has_url then validate_http_url http ''direct.participant_information_url'' (di_information_url (cf_direct c))
          else Ok ()))))))))"

section \<open>What intake still needs\<close>

definition activation_issues :: "full_config \<Rightarrow> string list" where
  "activation_issues c =
     (if tn_enabled (cf_transcription c) \<and> blank (sm_api_key (cf_speechmatics c))
      then [''Speechmatics API key is required when transcription is enabled.''] else []) @
     (if tt_enabled (cf_tts c) \<and> blank (tt_api_key (cf_tts c))
      then [''ElevenLabs API key is required when text to speech is enabled.''] else []) @
     (if tt_enabled (cf_tts c) \<and> blank (tt_voice_id (cf_tts c))
      then [''ElevenLabs voice id is required when text to speech is enabled.''] else [])"

definition prolific_completion_path_issues :: "full_config \<Rightarrow> string list" where
  "prolific_completion_path_issues c =
     (if \<not> pc_enabled (cf_prolific c) then []
      else
        (let codes = map snd (path_codes (pc_paths (cf_prolific c))) in
         if list_ex blank codes then [''Configure all six Prolific completion paths before starting this experiment.'']
         else if card (set codes) \<noteq> length codes then [''Prolific completion path codes must be distinct.'']
         else []))"

definition validate_agent_configuration ::
    "uri_parser \<Rightarrow> yaml_parser \<Rightarrow> agent_definition list \<Rightarrow> full_config \<Rightarrow> bool \<Rightarrow> (string, unit) outcome" where
  "validate_agent_configuration pu py definitions c require_secrets =
     (if ag_mode (cf_agents c) \<noteq> HumanVsAgent then Ok ()
      else
        obind (ok_or (ag_human_vs_agent (cf_agents c)) ''human-versus-agent configuration is missing'') (\<lambda>h.
        obind (ok_or (ha_factory h) ''no agent factory is selected'') (\<lambda>factory.
        obind (ok_or (find (\<lambda>d. def_id d = factory) definitions) ''unknown agent factory'') (\<lambda>d.
        obind (map_err (\<lambda>e. ''settings'') (normalize_settings pu py d (ha_config h))) (\<lambda>settings.
          if require_secrets
          then obind (map_err (\<lambda>e. ''secrets'') (resolve_secrets d settings (cf_game_secrets c))) (\<lambda>x. Ok ())
          else Ok ())))))"

text \<open>Providers injected by an embedding application count as configured.\<close>

definition local_testing_issues_for_config ::
    "uri_parser \<Rightarrow> yaml_parser \<Rightarrow> agent_definition list \<Rightarrow> bool \<Rightarrow> bool \<Rightarrow> full_config \<Rightarrow> string list" where
  "local_testing_issues_for_config pu py definitions has_transcription has_tts c0 =
     (let c1 = (if has_transcription
                then c0\<lparr>cf_speechmatics := (cf_speechmatics c0)\<lparr>sm_api_key := ''provided-by-runtime''\<rparr>\<rparr> else c0);
          c = (if has_tts
               then c1\<lparr>cf_tts := (cf_tts c1)\<lparr>tt_api_key := ''provided-by-runtime'', tt_voice_id := ''provided-by-runtime''\<rparr>\<rparr>
               else c1)
      in activation_issues c @ prolific_completion_path_issues c @
         (case validate_agent_configuration pu py definitions c True of Err e \<Rightarrow> [e] | _ \<Rightarrow> []))"

end
