(* ===== verification/Hydration.thy ===== *)
theory Hydration
  imports Configuration
begin

text \<open>
  From a stored revision to the configuration of a runtime, \<open>config.rs\<close> and \<open>app.rs\<close>: the stored part,
  participant URLs, secrets, default endpoints, and the browser origins a runtime accepts.
\<close>

section \<open>The stored part\<close>

definition stored_of :: "full_config \<Rightarrow> stored_config" where
  "stored_of c = \<lparr>cf_session = cf_session c, cf_planned_sessions = cf_planned_sessions c, cf_direct = cf_direct c,
     cf_prolific = cf_prolific c, cf_voice = cf_voice c, cf_speechmatics = cf_speechmatics c,
     cf_transcription = cf_transcription c, cf_tts = cf_tts c, cf_agents = cf_agents c, cf_capacity = cf_capacity c,
     cf_contract = cf_contract c, cf_game = cf_game c\<rparr>"

definition into_runtime :: "stored_config \<Rightarrow> full_config \<Rightarrow> string \<Rightarrow> string \<Rightarrow> full_config" where
  "into_runtime s bootstrap experiment public_url =
     \<lparr>cf_session = cf_session s, cf_planned_sessions = cf_planned_sessions s, cf_direct = cf_direct s,
      cf_prolific = cf_prolific s, cf_voice = cf_voice s, cf_speechmatics = cf_speechmatics s,
      cf_transcription = cf_transcription s, cf_tts = cf_tts s, cf_agents = cf_agents s, cf_capacity = cf_capacity s,
      cf_contract = cf_contract s, cf_game = cf_game s, cf_id = Some experiment,
      cf_server = (cf_server bootstrap)\<lparr>sv_public_url := public_url\<rparr>, cf_database = cf_database bootstrap,
      cf_game_secrets = Map.empty\<rparr>"

text \<open>The part of a configuration the session theories read.\<close>

definition view_of :: "full_config \<Rightarrow> experiment_config" where
  "view_of c = \<lparr>cfg_session = cf_session c, cfg_capacity = cf_capacity c,
     cfg_paths = completion_paths.truncate (pc_paths (cf_prolific c)), cfg_direct_enabled = di_enabled (cf_direct c),
     cfg_consents = map consent_item.truncate (di_consents (cf_direct c)),
     cfg_prolific_enabled = pc_enabled (cf_prolific c), cfg_prolific_study = pc_study (cf_prolific c),
     cfg_mode = ag_mode (cf_agents c), cfg_voice_enabled = vc_enabled (cf_voice c),
     cfg_post_completion = int (vc_post_completion (cf_voice c)),
     cfg_transcription_enabled = tn_enabled (cf_transcription c),
     cfg_transcription_provider = tn_provider (cf_transcription c)\<rparr>"

section \<open>Participant URLs\<close>

definition trim_end_slashes :: "string \<Rightarrow> string" where
  "trim_end_slashes s = rev (dropWhile (\<lambda>c. c = CHR ''/'') (rev s))"

definition experiment_public_base_url :: "string \<Rightarrow> string \<Rightarrow> string" where
  "experiment_public_base_url public_origin experiment =
     (let base = trim_end_slashes public_origin; suffix = ''/e/'' @ experiment
      in if ends_with suffix base then base else base @ suffix)"

definition prolific_setup_url :: "string \<Rightarrow> string" where
  "prolific_setup_url base =
     trim_end_slashes base @ ''/?PROLIFIC_PID={{%PROLIFIC_PID%}}&STUDY_ID={{%STUDY_ID%}}&SESSION_ID={{%SESSION_ID%}}''"

section \<open>Secrets and endpoints\<close>

definition apply_experiment_secrets :: "(string \<rightharpoonup> string) \<Rightarrow> full_config \<Rightarrow> full_config" where
  "apply_experiment_secrets secrets c = c\<lparr>cf_game_secrets := game_secrets_of secrets\<rparr>"

definition apply_game_provider_secrets :: "(string \<rightharpoonup> string) \<Rightarrow> full_config \<Rightarrow> full_config" where
  "apply_game_provider_secrets secrets c =
     (let or_empty = (\<lambda>k. case secrets k of Some v \<Rightarrow> v | None \<Rightarrow> []) in
      c\<lparr>cf_speechmatics := (cf_speechmatics c)\<lparr>sm_api_key := or_empty ''speechmatics.api_key''\<rparr>,
        cf_tts := (cf_tts c)\<lparr>tt_api_key := or_empty ''tts.api_key''\<rparr>,
        cf_prolific := (cf_prolific c)\<lparr>pc_token := or_empty ''prolific.api_token''\<rparr>\<rparr>)"

record endpoint_settings =
  es_speechmatics_url :: string
  es_tts_url :: string

definition entry_or_insert :: "string \<Rightarrow> 'v \<Rightarrow> (string \<times> 'v) list \<Rightarrow> (string \<times> 'v) list" where
  "entry_or_insert k v kvs = (if map_of kvs k = None then entry_insert k v kvs else kvs)"

definition default_endpoint ::
    "string \<times> string \<times> string \<Rightarrow> (string \<times> json) list \<Rightarrow> (string, (string \<times> json) list) outcome" where
  "default_endpoint x obj =
     (case x of (section, key, d) \<Rightarrow>
        obind (ok_or (as_object (the (map_of (entry_or_insert section (JObj []) obj) section))) section) (\<lambda>provider.
          Ok (entry_insert section (JObj (entry_or_insert key (JStr d) provider)) (entry_or_insert section (JObj []) obj))))"

definition apply_provider_endpoint_defaults :: "endpoint_settings \<Rightarrow> json \<Rightarrow> (string, json) outcome" where
  "apply_provider_endpoint_defaults s v =
     obind (ok_or (as_object v) ''experiment configuration must be a JSON object'') (\<lambda>obj.
     obind (ofold default_endpoint [(''speechmatics'', ''realtime_url'', es_speechmatics_url s),
         (''tts'', ''base_url'', es_tts_url s)] obj) (\<lambda>obj'. Ok (JObj obj')))"

section \<open>Origins\<close>

text \<open>The headers of a request that the checks read.\<close>

record origin_headers =
  oh_origin :: "string option"
  oh_host :: "string option"
  oh_fetch_site :: "string option"

datatype origin_error = OriginRequired | OriginNotAllowed | CrossSite | BadPublicUrl

definition canonical_origin :: "http_parser \<Rightarrow> string \<Rightarrow> (origin_error, string) outcome" where
  "canonical_origin http url =
     obind (ok_or (http url) BadPublicUrl) (\<lambda>u.
     obind (ok_or (case ur_scheme u of Some s \<Rightarrow> if List.member [''http'', ''https''] s then Some s else None | None \<Rightarrow> None)
        BadPublicUrl) (\<lambda>scheme.
     obind (ok_or (ur_authority u) BadPublicUrl) (\<lambda>authority. Ok (scheme @ ''://'' @ authority))))"

definition origin_matches_request_host :: "http_parser \<Rightarrow> string \<Rightarrow> origin_headers \<Rightarrow> bool" where
  "origin_matches_request_host http origin h =
     (case oh_host h of
        None \<Rightarrow> False
      | Some host \<Rightarrow>
          (case http origin of
             None \<Rightarrow> False
           | Some u \<Rightarrow> (case ur_authority u of None \<Rightarrow> False | Some a \<Rightarrow> ascii_lower a = ascii_lower host)))"

definition is_loopback_origin :: "string \<Rightarrow> bool" where
  "is_loopback_origin origin \<longleftrightarrow> starts_with ''http://localhost'' origin \<or> starts_with ''http://127.0.0.1'' origin \<or>
     starts_with ''http://[::1]'' origin"

definition validate_websocket_origin :: "http_parser \<Rightarrow> full_config \<Rightarrow> origin_headers \<Rightarrow> (origin_error, unit) outcome" where
  "validate_websocket_origin http c h =
     (if \<exists>origin \<in> set_option (oh_origin h). origin_matches_request_host http origin h then Ok ()
      else
        obind (canonical_origin http (sv_public_url (cf_server c))) (\<lambda>public_origin.
        if oh_origin h = None \<and> is_loopback_origin public_origin then Ok ()
        else
          (case oh_origin h of
             None \<Rightarrow> Err OriginRequired
           | Some origin \<Rightarrow>
               ensure (List.member (sv_origins (cf_server c) @ [public_origin]) origin) OriginNotAllowed)))"

definition validate_admin_request_origin :: "http_parser \<Rightarrow> full_config \<Rightarrow> origin_headers \<Rightarrow> (origin_error, unit) outcome" where
  "validate_admin_request_origin http c h =
     (if oh_fetch_site h = Some ''cross-site'' then Err CrossSite
      else
        (case oh_origin h of
           None \<Rightarrow>
             obind (canonical_origin http (sv_public_url (cf_server c))) (\<lambda>public_origin.
               if is_loopback_origin public_origin then Ok () else Err OriginRequired)
         | Some origin \<Rightarrow>
             if origin_matches_request_host http origin h then Ok ()
             else
               obind (canonical_origin http (sv_public_url (cf_server c))) (\<lambda>public_origin.
                 ensure (List.member (sv_origins (cf_server c) @ [public_origin]) origin) OriginNotAllowed)))"

section \<open>The time limit of an agent\<close>

text \<open>\<open>Duration::from_secs_f64\<close> panics unless the seconds are finite, not negative and below \<open>2^64\<close>; the
  rounding to nanoseconds is left out.\<close>

fun duration_from_secs_f64 :: "f64 \<Rightarrow> ('e, rat) outcome" where
  "duration_from_secs_f64 (Finite q) = (if q < 0 \<or> 2 ^ 64 \<le> q then Panic else Ok q)"
| "duration_from_secs_f64 x = Panic"

definition agent_time_limit :: "human_vs_agent \<Rightarrow> ('e, rat) outcome" where
  "agent_time_limit h = duration_from_secs_f64 (ha_timeout h)"

end
