(* ===== verification/Config_Properties.thy ===== *)
theory Config_Properties
  imports Hydration
begin

text \<open>
  What an accepted configuration is, that stored revisions return to the runtime as they were, which
  browser origins a runtime accepts, and what validation lets through.
\<close>

section \<open>Accepted values\<close>

definition http_url :: "http_parser \<Rightarrow> string \<Rightarrow> bool" where
  "http_url http v \<longleftrightarrow> (\<exists>u a. http v = Some u \<and> (ur_scheme u = Some ''http'' \<or> ur_scheme u = Some ''https'') \<and>
     ur_authority u = Some a \<and> CHR ''@'' \<notin> set a)"

definition websocket_url :: "http_parser \<Rightarrow> string \<Rightarrow> bool" where
  "websocket_url http v \<longleftrightarrow> (\<exists>u. http v = Some u \<and> (ur_scheme u = Some ''ws'' \<or> ur_scheme u = Some ''wss'') \<and> ur_authority u \<noteq> None)"

definition bare_origin :: "http_parser \<Rightarrow> string \<Rightarrow> bool" where
  "bare_origin http v \<longleftrightarrow> http_url http v \<and> ur_path (the (http v)) = ''/'' \<and> ur_query (the (http v)) = None"

definition consent_ok :: "consent_item_config \<Rightarrow> bool" where
  "consent_ok i \<longleftrightarrow> \<not> blank (ci_id i) \<and> char_count (ci_id i) \<le> 128 \<and> \<not> blank (ci_title i) \<and> char_count (ci_title i) \<le> 500 \<and>
     \<not> blank (ci_body i) \<and> char_count (ci_body i) \<le> 20000 \<and> \<not> contains ''{{'' (ci_body i) \<and> \<not> contains ''}}'' (ci_body i)"

definition code_ok :: "string \<Rightarrow> bool" where
  "code_ok t \<longleftrightarrow> t = [] \<or> char_count t \<le> 64 \<and> list_all is_ascii_alphanumeric t"

text \<open>A well-formed configuration.\<close>

definition limits_ok :: "full_config \<Rightarrow> bool" where
  "limits_ok c \<longleftrightarrow> (let s = cf_session c; k = cf_capacity c in
     0 < waiting_session_timeout s \<and> 0 \<le> reconnect_grace s \<and> reconnect_grace s \<le> 60 \<and> 0 < session_idle_timeout s \<and>
     session_idle_timeout s \<le> session_max_lifetime s \<and> (\<forall>n. cf_planned_sessions c = Some n \<longrightarrow> 0 < n) \<and>
     (\<forall>t \<in> snd ` set (path_codes (pc_paths (cf_prolific c))). code_ok t) \<and>
     0 < max_active_sessions k \<and> 0 < max_waiting_sessions k \<and> 0 < max_unattached_participants k \<and>
     0 < max_transcription_streams k \<and> 0 < storage_reserve_megabytes k)"

definition speech_ok :: "http_parser \<Rightarrow> full_config \<Rightarrow> bool" where
  "speech_ok http c \<longleftrightarrow> (let v = cf_voice c; t = cf_tts c; n = cf_transcription c; m = cf_speechmatics c in
     vc_frame_ms v \<le> vc_jitter_ms v \<and> vc_jitter_ms v \<le> 5000 \<and> 1 \<le> vc_post_completion v \<and> vc_post_completion v \<le> 3600 \<and>
     (vc_enabled v \<longrightarrow> vc_sample_rate v = 24000 \<and> vc_frame_ms v = 20) \<and>
     (tt_enabled t \<longrightarrow> tt_provider t = ''elevenlabs'' \<and> \<not> blank (tt_model t) \<and> tt_output t = ''pcm_24000'' \<and>
        websocket_url http (tt_base_url t)) \<and>
     (tn_enabled n \<longrightarrow> tn_provider n = ''speechmatics'' \<and> tn_model n \<in> {''standard'', ''enhanced''} \<and> \<not> blank (tn_language n) \<and>
        websocket_url http (sm_url m) \<and> positive (sm_max_delay m) \<and> positive (sm_silence m)))"

definition agents_ok :: "full_config \<Rightarrow> bool" where
  "agents_ok c \<longleftrightarrow>
     (case ag_human_vs_agent (cf_agents c) of
        None \<Rightarrow> ag_mode (cf_agents c) = HumanVsHuman
      | Some h \<Rightarrow> ag_mode (cf_agents c) = HumanVsAgent \<and> positive (ha_timeout h) \<and> 0 < ha_invalid_limit h)"

definition config_ok :: "http_parser \<Rightarrow> full_config \<Rightarrow> bool" where
  "config_ok http c \<longleftrightarrow>
     (\<forall>i. cf_id c = Some i \<longrightarrow> id_ok i) \<and> limits_ok c \<and> http_url http (sv_public_url (cf_server c)) \<and>
     (\<forall>v \<in> set (sv_origins (cf_server c)). bare_origin http v) \<and> distinct (map ascii_lower (sv_origins (cf_server c))) \<and>
     \<not> blank (cf_database c) \<and> \<not> blank (cf_contract c) \<and> speech_ok http c \<and> agents_ok c \<and>
     (\<forall>i \<in> set (di_consents (cf_direct c)). consent_ok i) \<and> distinct (map ci_id (di_consents (cf_direct c))) \<and>
     (blank (di_information_version (cf_direct c)) \<longleftrightarrow> blank (di_information_url (cf_direct c))) \<and>
     (\<not> blank (di_information_url (cf_direct c)) \<longrightarrow> http_url http (di_information_url (cf_direct c)))"

lemma validate_http_url_iff: "validate_http_url http field v = Ok () \<longleftrightarrow> http_url http v"
  by (auto simp: validate_http_url_def http_url_def)

lemma validate_websocket_url_iff: "validate_websocket_url http field v = Ok () \<longleftrightarrow> websocket_url http v"
  by (auto simp: validate_websocket_url_def websocket_url_def)

lemma check_origins_iff:
  "check_origins http seen vs = Ok () \<longleftrightarrow>
     (\<forall>v \<in> set vs. bare_origin http v) \<and> distinct (map ascii_lower vs) \<and> ascii_lower ` set vs \<inter> set seen = {}"
proof (induction vs arbitrary: seen)
  case (Cons v vs)
  have "http_url http v \<Longrightarrow> \<exists>u. http v = Some u" by (auto simp: http_url_def)
  then show ?case using Cons.IH by (auto simp: validate_http_url_iff bare_origin_def)
qed simp

lemma check_consents_iff:
  "check_consents seen items = Ok () \<longleftrightarrow>
     (\<forall>i \<in> set items. consent_ok i) \<and> distinct (map ci_id items) \<and> ci_id ` set items \<inter> set seen = {}"
proof (induction items arbitrary: seen)
  case (Cons i items)
  show ?case
  proof (cases "consent_ok i")
    case True
    then show ?thesis using Cons.IH by (auto simp: consent_ok_def)
  next
    case False
    then show ?thesis by (auto simp: consent_ok_def)
  qed
qed simp

lemma validate_codes_iff:
  "ofold (\<lambda>(name, code) u. validate_prolific_code name code) xs () = Ok () \<longleftrightarrow> (\<forall>t \<in> snd ` set xs. code_ok t)"
proof (induction xs)
  case (Cons x xs)
  then show ?case by (cases x) (auto simp: validate_prolific_code_def code_ok_def)
qed simp

lemma validate_session_limits_iff: "validate_session_limits c = Ok () \<longleftrightarrow> limits_ok c"
  unfolding validate_session_limits_def limits_ok_def Let_def
  by (auto simp: validate_codes_iff split: if_splits)

lemma validate_speech_iff: "validate_speech http c = Ok () \<longleftrightarrow> speech_ok http c"
proof -
  have "blank ''standard'' = False" "blank ''enhanced'' = False" by code_simp+
  then show ?thesis
    unfolding validate_speech_def speech_ok_def Let_def
    by (auto simp: validate_websocket_url_iff split: if_splits)
qed

lemma validate_agents_iff: "validate_agents c = Ok () \<longleftrightarrow> agents_ok c"
  unfolding validate_agents_def agents_ok_def Let_def
  by (cases "ag_human_vs_agent (cf_agents c)"; cases "ag_mode (cf_agents c)") auto

lemma validate_config_iff: "validate_config http c = Ok () \<longleftrightarrow> config_ok http c"
  unfolding validate_config_def config_ok_def
  by (auto simp: validate_session_limits_iff validate_http_url_iff check_origins_iff validate_speech_iff validate_agents_iff
      check_consents_iff Let_def split: if_splits)

section \<open>Hydration\<close>

lemma id_ok_chars: "id_ok i \<Longrightarrow> i \<noteq> [] \<and> CHR ''/'' \<notin> set i"
  by (auto simp: id_ok_def list_all_iff is_ascii_alphanumeric_def Let_def)

lemma trim_end_fixed: "s \<noteq> [] \<Longrightarrow> last s \<noteq> CHR ''/'' \<Longrightarrow> trim_end_slashes s = s"
  by (cases "rev s") (auto simp: trim_end_slashes_def)

lemma ends_with_append: "ends_with p (s @ p)"
  by (simp add: ends_with_def)

lemma ends_with_last: "ends_with p s \<Longrightarrow> p \<noteq> [] \<Longrightarrow> s \<noteq> [] \<and> last s = last p"
  by (metis append_take_drop_id ends_with_def last_appendR append_is_Nil_conv)

lemma experiment_url_stable:
  assumes "id_ok i"
  shows "experiment_public_base_url (experiment_public_base_url x i) i = experiment_public_base_url x i"
proof -
  let ?u = "experiment_public_base_url x i"
  have "ends_with (''/e/'' @ i) ?u" by (simp add: experiment_public_base_url_def Let_def ends_with_append [of "''/e/'' @ i", simplified])
  moreover have "last i \<noteq> CHR ''/''" using id_ok_chars [OF assms] last_in_set [of i] by metis
  then have "?u \<noteq> []" "last ?u \<noteq> CHR ''/''"
    using ends_with_last [OF calculation] id_ok_chars [OF assms] by simp_all
  ultimately show ?thesis
    using trim_end_fixed [of ?u] by (subst experiment_public_base_url_def) (simp add: Let_def)
qed

lemma into_runtime_fields [simp]:
  "stored_of (into_runtime (stored_of c) b i u) = stored_of c" "cf_id (into_runtime s b i u) = Some i"
  "sv_public_url (cf_server (into_runtime s b i u)) = u" "sv_origins (cf_server (into_runtime s b i u)) = sv_origins (cf_server b)"
  "cf_database (into_runtime s b i u) = cf_database b" "cf_game_secrets (into_runtime s b i u) = Map.empty"
  by (simp_all add: stored_of_def into_runtime_def)

lemma stored_parts:
  "limits_ok (into_runtime (stored_of c) b i u) = limits_ok c" "speech_ok http (into_runtime (stored_of c) b i u) = speech_ok http c"
  "agents_ok (into_runtime (stored_of c) b i u) = agents_ok c" "cf_direct (into_runtime (stored_of c) b i u) = cf_direct c"
  "cf_contract (into_runtime (stored_of c) b i u) = cf_contract c"
  by (simp_all add: limits_ok_def speech_ok_def agents_ok_def into_runtime_def stored_of_def split: option.split)

lemma limits_ok_update [simp]:
  "limits_ok (c\<lparr>cf_agents := a\<rparr>) = limits_ok c" "limits_ok (c\<lparr>cf_server := s\<rparr>) = limits_ok c"
  by (simp_all add: limits_ok_def)

lemma speech_ok_update [simp]:
  "speech_ok http (c\<lparr>cf_agents := a\<rparr>) = speech_ok http c" "speech_ok http (c\<lparr>cf_server := s\<rparr>) = speech_ok http c"
  by (simp_all add: speech_ok_def)

lemma agents_ok_server [simp]: "agents_ok (c\<lparr>cf_server := s\<rparr>) = agents_ok c"
  by (simp add: agents_ok_def split: option.split)

section \<open>Origins\<close>

text \<open>The origins a runtime accepts. A request without an origin depends on the authority of the public URL: the code
  looks at how its text begins, which is wider than the authorities that name a local host.\<close>

definition begins_local :: "string \<Rightarrow> bool" where
  "begins_local a \<longleftrightarrow> (\<exists>host rest. host \<in> {''localhost'', ''127.0.0.1'', ''[::1]''} \<and> a = host @ rest)"

definition names_local_host :: "string \<Rightarrow> bool" where
  "names_local_host a \<longleftrightarrow>
     (\<exists>host \<in> {''localhost'', ''127.0.0.1'', ''[::1]''}. a = host \<or> (\<exists>port. a = host @ '':'' @ port))"

definition origin_accepted :: "http_parser \<Rightarrow> full_config \<Rightarrow> origin_headers \<Rightarrow> bool" where
  "origin_accepted http c h \<longleftrightarrow>
     (case oh_origin h of
        None \<Rightarrow> (\<exists>u a. http (sv_public_url (cf_server c)) = Some u \<and> ur_scheme u = Some ''http'' \<and>
          ur_authority u = Some a \<and> begins_local a)
      | Some origin \<Rightarrow> origin_matches_request_host http origin h \<or>
          (\<exists>p. canonical_origin http (sv_public_url (cf_server c)) = Ok p \<and> (origin = p \<or> origin \<in> set (sv_origins (cf_server c)))))"

lemma local_begins: "names_local_host a \<Longrightarrow> begins_local a"
  unfolding names_local_host_def begins_local_def by (metis append_Nil2)

lemma other_begins: "begins_local ''localhost.example.org''"
  unfolding begins_local_def by (intro exI [of _ "''localhost''"] exI [of _ "''.example.org''"]) simp

lemma loopback_origin:
  assumes "scheme = ''http'' \<or> scheme = ''https''"
  shows "is_loopback_origin (scheme @ ''://'' @ a) \<longleftrightarrow> scheme = ''http'' \<and> begins_local a"
  using assms by (auto simp: is_loopback_origin_def starts_with_iff begins_local_def)

lemma canonical_loopback:
  "(\<exists>p. canonical_origin http url = Ok p \<and> is_loopback_origin p) \<longleftrightarrow>
     (\<exists>u a. http url = Some u \<and> ur_scheme u = Some ''http'' \<and> ur_authority u = Some a \<and> begins_local a)"
  by (auto simp: canonical_origin_def ok_or_def loopback_origin simp del: append.simps append_Cons split: option.splits if_splits)

lemma validate_websocket_origin_iff: "validate_websocket_origin http c h = Ok () \<longleftrightarrow> origin_accepted http c h"
proof (cases "oh_origin h")
  case None
  then have "validate_websocket_origin http c h = Ok () \<longleftrightarrow>
      (\<exists>p. canonical_origin http (sv_public_url (cf_server c)) = Ok p \<and> is_loopback_origin p)"
    by (auto simp: validate_websocket_origin_def)
  then show ?thesis using None by (simp add: canonical_loopback origin_accepted_def)
qed (auto simp: validate_websocket_origin_def origin_accepted_def)

section \<open>Properties\<close>

text \<open>C23 (type). Validation accepts exactly the well-formed configurations: positive timeouts with a grace of at most a
  minute and an idle timeout within the lifetime, positive capacities, web origins without path, query,
  credentials or repetition, the one voice format, supported providers with web socket endpoints, an agent
  exactly in the mode that has one, and consent items with distinct names, bounded texts and no template
  placeholder.\<close>

theorem validation_is_wellformedness: "validate_config http c = Ok () \<longleftrightarrow> config_ok http c"
  by (rule validate_config_iff)

text \<open>What an accepted configuration stores returns to the runtime as it was: for an accepted
  bootstrap configuration, experiment name and participant URL, the hydrated configuration is accepted, has
  the same stored part and no secrets yet, and deriving its participant URL again changes nothing.\<close>

theorem stored_configuration_returns:
  assumes "validate_config http c = Ok ()" "validate_config http bootstrap = Ok ()" "validate_new_experiment_id i = Ok ()"
    "validate_http_url http field (experiment_public_base_url url i) = Ok ()"
  shows "validate_config http (into_runtime (stored_of c) bootstrap i (experiment_public_base_url url i)) = Ok () \<and>
    stored_of (into_runtime (stored_of c) bootstrap i (experiment_public_base_url url i)) = stored_of c \<and>
    cf_game_secrets (into_runtime (stored_of c) bootstrap i (experiment_public_base_url url i)) = Map.empty \<and>
    experiment_public_base_url (experiment_public_base_url url i) i = experiment_public_base_url url i"
proof -
  have i: "id_ok i" using assms(3) by (simp add: validate_new_experiment_id_def)
  have "config_ok http c" "config_ok http bootstrap" using assms(1,2) validate_config_iff by blast+
  then have "config_ok http (into_runtime (stored_of c) bootstrap i (experiment_public_base_url url i))"
    using i assms(4) by (simp add: config_ok_def stored_parts validate_http_url_iff)
  then show ?thesis using experiment_url_stable [OF i] validate_config_iff by simp
qed

text \<open>C34 (equivalence). The two origin checks agree. A socket with an origin is opened exactly when that is the request's
  own host, the public origin or a configured one; without one exactly when the public URL is an http URL
  whose authority begins with the text localhost, 127.0.0.1 or [::1]. That holds for every local host, with or
  without a port, but not only for those: a server whose public URL is on localhost.example.org opens
  sockets without an origin too, although the code documents its test as one for local hosts. An administrator's
  request is answered in the same way, except that one from another site is refused first.\<close>

theorem origin_checks_agree:
  "(validate_websocket_origin http c h = Ok () \<longleftrightarrow> origin_accepted http c h) \<and>
   validate_admin_request_origin http c h =
     (if oh_fetch_site h = Some ''cross-site'' then Err CrossSite else validate_websocket_origin http c h) \<and>
   (oh_origin h = None \<and> http (sv_public_url (cf_server c)) = Some u \<and> ur_scheme u = Some ''http'' \<and>
      ur_authority u = Some a \<and> (names_local_host a \<or> a = ''localhost.example.org'') \<longrightarrow>
      validate_websocket_origin http c h = Ok ()) \<and>
   \<not> names_local_host ''localhost.example.org''"
proof (intro conjI impI)
  show "validate_websocket_origin http c h = Ok () \<longleftrightarrow> origin_accepted http c h"
    by (rule validate_websocket_origin_iff)
  show "validate_admin_request_origin http c h =
     (if oh_fetch_site h = Some ''cross-site'' then Err CrossSite else validate_websocket_origin http c h)"
    by (cases "oh_origin h"; cases "canonical_origin http (sv_public_url (cf_server c))")
      (auto simp: validate_websocket_origin_def validate_admin_request_origin_def)
  show "\<not> names_local_host ''localhost.example.org''" by (simp add: names_local_host_def)
  assume u: "oh_origin h = None \<and> http (sv_public_url (cf_server c)) = Some u \<and> ur_scheme u = Some ''http'' \<and>
      ur_authority u = Some a \<and> (names_local_host a \<or> a = ''localhost.example.org'')"
  have "begins_local a" using u local_begins other_begins by blast
  then show "validate_websocket_origin http c h = Ok ()"
    using u by (auto simp: validate_websocket_origin_iff origin_accepted_def)
qed

text \<open>C35 (error). Validation lets settings through that cannot work. A time limit of an agent of \<open>2^64\<close> seconds or
  more is accepted and its conversion panics; an allowed origin that ends with a slash is accepted, and no
  socket of the origin without the slash, as browsers send it, is opened for it.\<close>

theorem accepted_settings_fail:
  assumes "validate_config http c = Ok ()" "ag_human_vs_agent (cf_agents c) = Some h" "2 ^ 64 \<le> q"
    "bare_origin http (origin @ ''/'')" "canonical_origin http (sv_public_url (cf_server c)) \<noteq> Ok origin"
    "\<not> origin_matches_request_host http origin hs" "oh_origin hs = Some origin"
  shows "validate_config http (c\<lparr>cf_agents := (cf_agents c)\<lparr>ag_human_vs_agent := Some (h\<lparr>ha_timeout := Finite q\<rparr>)\<rparr>\<rparr>) = Ok () \<and>
    agent_time_limit (h\<lparr>ha_timeout := Finite q\<rparr>) = (Panic :: ('e, rat) outcome) \<and>
    validate_config http (c\<lparr>cf_server := (cf_server c)\<lparr>sv_origins := [origin @ ''/'']\<rparr>\<rparr>) = Ok () \<and>
    validate_websocket_origin http (c\<lparr>cf_server := (cf_server c)\<lparr>sv_origins := [origin @ ''/'']\<rparr>\<rparr>) hs \<noteq> Ok ()"
proof (intro conjI)
  have ok: "config_ok http c" using assms(1) validate_config_iff by blast
  have q: "0 < q" using assms(3) by (rule less_le_trans [rotated]) simp
  have "config_ok http (c\<lparr>cf_agents := (cf_agents c)\<lparr>ag_human_vs_agent := Some (h\<lparr>ha_timeout := Finite q\<rparr>)\<rparr>\<rparr>)"
    using ok assms(2) q by (simp add: config_ok_def agents_ok_def positive_def)
  then show "validate_config http (c\<lparr>cf_agents := (cf_agents c)\<lparr>ag_human_vs_agent := Some (h\<lparr>ha_timeout := Finite q\<rparr>)\<rparr>\<rparr>) = Ok ()"
    using validate_config_iff by blast
  show "agent_time_limit (h\<lparr>ha_timeout := Finite q\<rparr>) = (Panic :: ('e, rat) outcome)"
    using assms(3) by (simp add: agent_time_limit_def)
  have "config_ok http (c\<lparr>cf_server := (cf_server c)\<lparr>sv_origins := [origin @ ''/'']\<rparr>\<rparr>)"
    using ok assms(4) by (simp add: config_ok_def)
  then show "validate_config http (c\<lparr>cf_server := (cf_server c)\<lparr>sv_origins := [origin @ ''/'']\<rparr>\<rparr>) = Ok ()"
    using validate_config_iff by blast
  show "validate_websocket_origin http (c\<lparr>cf_server := (cf_server c)\<lparr>sv_origins := [origin @ ''/'']\<rparr>\<rparr>) hs \<noteq> Ok ()"
    using assms(5-7) by (simp add: validate_websocket_origin_iff origin_accepted_def)
qed

section \<open>Instances\<close>

text \<open>A parser that knows two addresses, an accepted configuration, and one with an agent.\<close>

definition demo_http :: http_parser where
  "demo_http v =
     (if List.member [''http://localhost:8000'', ''http://localhost:8000/e/pilot''] v
      then Some \<lparr>ur_scheme = Some ''http'', ur_authority = Some ''localhost:8000'', ur_host = Some ''localhost'', ur_path = ''/'', ur_query = None\<rparr>
      else if List.member [''https://lab.example'', ''https://lab.example/''] v
      then Some \<lparr>ur_scheme = Some ''https'', ur_authority = Some ''lab.example'', ur_host = Some ''lab.example'', ur_path = ''/'', ur_query = None\<rparr>
      else None)"

definition demo_config :: full_config where
  "demo_config = default_config\<lparr>cf_database := ''sqlite:///x''\<rparr>"

definition demo_agent_config :: full_config where
  "demo_agent_config = demo_config\<lparr>cf_agents := \<lparr>ag_mode = HumanVsAgent, ag_human_vs_agent = Some default_human_vs_agent\<rparr>\<rparr>"

lemma demo_parts:
  "limits_ok default_config" "speech_ok demo_http default_config" "blank ''sqlite:///x'' = False" "blank ''2'' = False" "blank ''''"
  "http_url demo_http ''http://localhost:8000''"
proof -
  show "limits_ok default_config"
    by (simp add: limits_ok_def default_config_def default_session_def default_capacity_def default_prolific_def path_codes_def
        code_ok_def Let_def)
  show "speech_ok demo_http default_config"
    by (simp add: speech_ok_def default_config_def default_voice_def default_tts_def default_transcription_def Let_def)
  show "http_url demo_http ''http://localhost:8000''"
    by (simp add: http_url_def demo_http_def)
qed code_simp+

lemma limits_ok_database [simp]: "limits_ok (c\<lparr>cf_database := d\<rparr>) = limits_ok c"
  by (simp add: limits_ok_def)

lemma speech_ok_database [simp]: "speech_ok http (c\<lparr>cf_database := d\<rparr>) = speech_ok http c"
  by (simp add: speech_ok_def)

lemma demo_accepted:
  "validate_config demo_http demo_config = Ok ()" "validate_config demo_http demo_agent_config = Ok ()"
  "validate_new_experiment_id ''pilot'' = Ok ()"
  "validate_http_url demo_http ''url'' (experiment_public_base_url ''http://localhost:8000'' ''pilot'') = Ok ()"
proof -
  have d: "cf_id default_config = None" "cf_server default_config = default_server" "cf_contract default_config = ''2''"
    "cf_direct default_config = default_direct"
    "cf_agents default_config = \<lparr>ag_mode = HumanVsHuman, ag_human_vs_agent = None\<rparr>"
    by (simp_all add: default_config_def)
  show "validate_config demo_http demo_config = Ok ()" "validate_config demo_http demo_agent_config = Ok ()"
    by (simp_all add: validate_config_iff config_ok_def demo_parts d demo_config_def demo_agent_config_def default_server_def
        default_direct_def agents_ok_def positive_def default_human_vs_agent_def)
qed code_simp+

theorem origin_checks_agree_witness:
  "validate_websocket_origin (\<lambda>v. Some \<lparr>ur_scheme = Some ''http'', ur_authority = Some ''localhost.example.org'',
       ur_host = Some ''localhost.example.org'', ur_path = ''/'', ur_query = None\<rparr>) demo_config
     \<lparr>oh_origin = None, oh_host = None, oh_fetch_site = None\<rparr> = Ok ()"
proof -
  let ?u = "\<lparr>ur_scheme = Some ''http'', ur_authority = Some ''localhost.example.org'',
       ur_host = Some ''localhost.example.org'', ur_path = ''/'', ur_query = None\<rparr> :: uri"
  show ?thesis
    using origin_checks_agree [of "\<lambda>v. Some ?u" demo_config "\<lparr>oh_origin = None, oh_host = None, oh_fetch_site = None\<rparr>" ?u
        "''localhost.example.org''"]
    by (simp del: not_None_eq)
qed

theorem stored_configuration_returns_witness:
  "validate_config demo_http (into_runtime (stored_of demo_agent_config) demo_config ''pilot''
      (experiment_public_base_url ''http://localhost:8000'' ''pilot'')) = Ok () \<and>
   stored_of (into_runtime (stored_of demo_agent_config) demo_config ''pilot''
      (experiment_public_base_url ''http://localhost:8000'' ''pilot'')) = stored_of demo_agent_config"
  using stored_configuration_returns [OF demo_accepted(2,1,3,4)] by blast

definition demo_headers :: origin_headers where
  "demo_headers = \<lparr>oh_origin = Some ''https://lab.example'', oh_host = Some ''backend:8000'', oh_fetch_site = None\<rparr>"

lemma demo_origin:
  "bare_origin demo_http (''https://lab.example'' @ ''/'')"
  "canonical_origin demo_http (sv_public_url (cf_server demo_agent_config)) \<noteq> Ok ''https://lab.example''"
  "\<not> origin_matches_request_host demo_http ''https://lab.example'' demo_headers"
  "oh_origin demo_headers = Some ''https://lab.example''"
proof -
  show "bare_origin demo_http (''https://lab.example'' @ ''/'')"
    by (simp add: bare_origin_def http_url_def demo_http_def)
qed code_simp+

theorem accepted_settings_fail_witness:
  "agent_time_limit (default_human_vs_agent\<lparr>ha_timeout := Finite (2 ^ 64)\<rparr>) = (Panic :: (unit, rat) outcome) \<and>
   validate_config demo_http (demo_agent_config\<lparr>cf_agents := (cf_agents demo_agent_config)\<lparr>ag_human_vs_agent :=
      Some (default_human_vs_agent\<lparr>ha_timeout := Finite (2 ^ 64)\<rparr>)\<rparr>\<rparr>) = Ok ()"
proof -
  have "ag_human_vs_agent (cf_agents demo_agent_config) = Some default_human_vs_agent" "(2 :: rat) ^ 64 \<le> 2 ^ 64"
    by (simp_all add: demo_agent_config_def)
  from accepted_settings_fail [OF demo_accepted(2) this demo_origin, where 'e = unit] show ?thesis by blast
qed

end
