(* ===== verification/Provider_Urls.thy ===== *)
theory Provider_Urls
  imports Hydration
begin

text \<open>
  Endpoints of hosted providers, \<open>config.rs\<close> and \<open>app.rs\<close>: clear-text \<open>http\<close> is accepted for this host only,
  so the literals of IP addresses are parsed as \<open>core::net\<close> parses them. Also the trimming of strings.
\<close>

section \<open>Trimming\<close>

text \<open>\<open>str::trim\<close>. A blank rest begins at a character, because white space begins with a leading byte.\<close>

fun trim_end :: "string \<Rightarrow> string" where
  "trim_end [] = []"
| "trim_end (c # s) = (if blank (c # s) then [] else c # trim_end s)"

definition trim_str :: "string \<Rightarrow> string" where
  "trim_str s = trim_end (map char_of (trim_start_bytes (map of_char s)))"

text \<open>\<open>trim_matches(['[', ']'])\<close>.\<close>

definition trim_brackets :: "string \<Rightarrow> string" where
  "trim_brackets s =
     (let bracket = (\<lambda>c. c = CHR ''['' \<or> c = CHR '']'') in rev (dropWhile bracket (rev (dropWhile bracket s))))"

section \<open>IP literals\<close>

text \<open>A parser takes the rest of the input and answers a value and what is left. \<open>digits\<close> takes the longest run of
  digits and fails when it is empty or too long.\<close>

type_synonym 'v parser = "string \<Rightarrow> ('v \<times> string) option"

definition digit_value :: "nat \<Rightarrow> char \<Rightarrow> nat option" where
  "digit_value radix c =
     (let n = of_char c :: nat;
          d = (if 48 \<le> n \<and> n \<le> 57 then Some (n - 48)
               else if 97 \<le> n \<and> n \<le> 122 then Some (n - 87)
               else if 65 \<le> n \<and> n \<le> 90 then Some (n - 55) else None)
      in (case d of None \<Rightarrow> None | Some v \<Rightarrow> if v < radix then Some v else None))"

definition read_number :: "nat \<Rightarrow> nat \<Rightarrow> bool \<Rightarrow> nat \<Rightarrow> nat parser" where
  "read_number radix max_digits zero_prefix bound s =
     (let ds = takeWhile (\<lambda>c. digit_value radix c \<noteq> None) s;
          v = foldl (\<lambda>a c. a * radix + the (digit_value radix c)) 0 ds
      in if ds = [] \<or> max_digits < length ds \<or> bound < v then None
         else if \<not> zero_prefix \<and> hd ds = CHR ''0'' \<and> 1 < length ds then None
         else Some (v, drop (length ds) s))"

definition read_separator :: "char \<Rightarrow> nat \<Rightarrow> 'v parser \<Rightarrow> 'v parser" where
  "read_separator sep i p s =
     (if i = 0 then p s else (case s of [] \<Rightarrow> None | c # r \<Rightarrow> if c = sep then p r else None))"

fun read_octets :: "nat \<Rightarrow> nat \<Rightarrow> nat list parser" where
  "read_octets i 0 s = Some ([], s)"
| "read_octets i (Suc n) s =
     (case read_separator (CHR ''.'') i (read_number 10 3 False 255) s of
        None \<Rightarrow> None
      | Some (v, r) \<Rightarrow> map_option (\<lambda>(vs, r'). (v # vs, r')) (read_octets (Suc i) n r))"

definition read_ipv4 :: "nat list parser" where
  "read_ipv4 s = read_octets 0 4 s"

text \<open>\<open>read_groups\<close>: up to \<open>limit\<close> groups from the \<open>i\<close>-th on, with whether an IPv4 address ended them.\<close>

function read_groups :: "nat \<Rightarrow> nat \<Rightarrow> string \<Rightarrow> (nat list \<times> bool) \<times> string" where
  "read_groups limit i s =
     (if limit \<le> i then (([], False), s)
      else
        (case (if i < limit - 1 then read_separator (CHR '':'') i read_ipv4 s else None) of
           Some (vs, r) \<Rightarrow> (([256 * vs ! 0 + vs ! 1, 256 * vs ! 2 + vs ! 3], True), r)
         | None \<Rightarrow>
             (case read_separator (CHR '':'') i (read_number 16 4 True 65535) s of
                None \<Rightarrow> (([], False), s)
              | Some (g, r) \<Rightarrow> (case read_groups limit (Suc i) r of ((gs, v4), r') \<Rightarrow> ((g # gs, v4), r')))))"
  by pat_completeness auto

termination
  by (relation "measure (\<lambda>(limit, i, s). limit - i)") auto

declare read_groups.simps [simp del]

definition read_ipv6 :: "nat list parser" where
  "read_ipv6 s =
     (case read_groups 8 0 s of
        ((front, v4), r) \<Rightarrow>
          if length front = 8 then Some (front, r)
          else if v4 then None
          else if take 2 r \<noteq> ''::'' then None
          else
            (case read_groups (8 - (length front + 1)) 0 (drop 2 r) of
               ((back, v4'), r') \<Rightarrow> Some (front @ replicate (8 - length front - length back) 0 @ back, r')))"

datatype ip_address = Ipv4 "nat list" | Ipv6 "nat list"

definition parse_ip :: "string \<Rightarrow> ip_address option" where
  "parse_ip s =
     (case read_ipv4 s of
        Some (vs, r) \<Rightarrow> if r = [] then Some (Ipv4 vs) else None
      | None \<Rightarrow> (case read_ipv6 s of Some (gs, r) \<Rightarrow> if r = [] then Some (Ipv6 gs) else None | None \<Rightarrow> None))"

fun is_loopback :: "ip_address \<Rightarrow> bool" where
  "is_loopback (Ipv4 vs) \<longleftrightarrow> vs ! 0 = 127"
| "is_loopback (Ipv6 gs) \<longleftrightarrow> gs = [0, 0, 0, 0, 0, 0, 0, 1]"

definition loopback_host :: "string \<Rightarrow> bool" where
  "loopback_host host \<longleftrightarrow> ascii_lower host = ''localhost'' \<or> (\<exists>a \<in> set_option (parse_ip host). is_loopback a)"

section \<open>Provider endpoints\<close>

definition validate_provider_http_url :: "http_parser \<Rightarrow> string \<Rightarrow> string \<Rightarrow> (string, unit) outcome" where
  "validate_provider_http_url http field v =
     obind (validate_http_url http field v) (\<lambda>x.
     obind (ok_or (http v) field) (\<lambda>u.
       if ur_scheme u \<noteq> Some ''http'' then Ok ()
       else ensure (loopback_host (trim_brackets (case ur_host u of Some h \<Rightarrow> h | None \<Rightarrow> []))) field))"

definition prolific_local_activation_issues :: "http_parser \<Rightarrow> full_config \<Rightarrow> string list" where
  "prolific_local_activation_issues http c =
     (if \<not> pc_enabled (cf_prolific c) then []
      else
        (if blank (pc_study (cf_prolific c))
         then [''Enter the linked Prolific study ID before starting this experiment.''] else []) @
        (if blank (pc_token (cf_prolific c))
         then [''Connect a Prolific API token in Game Settings before starting this experiment.''] else []) @
        (case validate_provider_http_url http ''The Prolific participant URL'' (sv_public_url (cf_server c)) of
           Err e \<Rightarrow> [e] | _ \<Rightarrow> []))"

definition prolific_configuration_complete :: "full_config \<Rightarrow> bool" where
  "prolific_configuration_complete c \<longleftrightarrow>
     \<not> (\<not> pc_enabled (cf_prolific c) \<or> blank (pc_study (cf_prolific c)) \<or> blank (pc_token (cf_prolific c))) \<and>
     list_all (\<lambda>code. \<not> blank code) (map snd (path_codes (pc_paths (cf_prolific c))))"

definition activation_issues_for_config ::
    "http_parser \<Rightarrow> uri_parser \<Rightarrow> yaml_parser \<Rightarrow> agent_definition list \<Rightarrow> bool \<Rightarrow> bool \<Rightarrow> full_config \<Rightarrow> string list" where
  "activation_issues_for_config http pu py definitions has_transcription has_tts c =
     local_testing_issues_for_config pu py definitions has_transcription has_tts c @ prolific_local_activation_issues http c"

end
