(* ===== verification/Prolific_Study.thy ===== *)
theory Prolific_Study
  imports Provider_Urls
begin

text \<open>
  The linked Prolific study, \<open>rust-server/src/prolific.rs\<close> and \<open>app.rs\<close>: what a study must be before research
  intake opens, the cache of that check, and the verification of launches. The answers of the Prolific API,
  the token library and the digest are arguments; the product of a study's minutes with 60 is not rounded.
\<close>

section \<open>Study\<close>

record study_code =
  sc_code :: "string option"
  sc_type :: string
  sc_actions :: "string list"

record study =
  sd_id :: string
  sd_url :: string
  sd_id_option :: string
  sd_codes :: "study_code list"
  sd_estimated :: int
  sd_places :: f64
  sd_maximum :: "f64 option"
  sd_secure :: bool
  sd_project :: "string option"

record submission =
  su_id :: string
  su_participant :: "string option"
  su_study :: string
  su_status :: string

text \<open>The client of one token: the study, the workspace of a project, a submission.\<close>

record prolific_api =
  pa_study :: "string \<Rightarrow> (string, study) outcome"
  pa_workspace :: "string \<Rightarrow> (string, string) outcome"
  pa_submission :: "string \<Rightarrow> (string, submission) outcome"

definition expected_actions :: "(string \<times> string) list" where
  "expected_actions = [(''completed'', ''AUTOMATICALLY_APPROVE''), (''partner_left'', ''AUTOMATICALLY_APPROVE''),
     (''game_did_not_start'', ''REQUEST_RETURN''), (''participation_ended_early'', ''REQUEST_RETURN''),
     (''technical_failure'', ''AUTOMATICALLY_APPROVE''), (''no_consent'', ''REQUEST_RETURN'')]"

definition path_issues :: "study \<Rightarrow> (string \<times> string) list \<Rightarrow> string \<times> string \<Rightarrow> string list" where
  "path_issues s configured x =
     (case map_of configured (fst x) of
        None \<Rightarrow> [''missing field '' @ fst x]
      | Some code \<Rightarrow>
          (case find (\<lambda>p. sc_code p = Some code) (sd_codes s) of
             None \<Rightarrow> [''unknown code for '' @ fst x]
           | Some path \<Rightarrow>
               (if sc_actions path \<noteq> [snd x] then [''wrong action for '' @ fst x] else []) @
               (if fst x = ''game_did_not_start'' \<and> sc_type path = ''FIXED_SCREENOUT'' then [''screened out''] else [])))"

definition completion_path_issues :: "study \<Rightarrow> (string \<times> string) list \<Rightarrow> string list" where
  "completion_path_issues s configured = concat (map (path_issues s configured) expected_actions)"

section \<open>The check before research intake\<close>

definition saturating_i64 :: "int \<Rightarrow> int" where
  "saturating_i64 n = max (- (2 ^ 63)) (min (2 ^ 63 - 1) n)"

fun f64_times :: "f64 \<Rightarrow> rat \<Rightarrow> f64" where
  "f64_times (Finite q) k = Finite (q * k)"
| "f64_times x k = x"

definition study_issues :: "full_config \<Rightarrow> study \<Rightarrow> string list" where
  "study_issues c s =
     (if sd_id_option s \<noteq> ''url_parameters'' then [''participant IDs must be URL parameters''] else []) @
     (if sd_url s \<noteq> prolific_setup_url (sv_public_url (cf_server c)) then [''external study URL''] else []) @
     completion_path_issues s (path_codes (pc_paths (cf_prolific c))) @
     (if saturating_i64 (sd_estimated s * 60) < waiting_session_timeout (cf_session c)
      then [''estimated duration is shorter than the partner wait''] else []) @
     (if \<exists>m \<in> set_option (sd_maximum s). f64_less (f64_times m 60) (Finite (int_to_f64 (session_max_lifetime (cf_session c))))
      then [''maximum time is shorter than the session lifetime''] else [])"

text \<open>\<open>connect\<close> builds a client for a token and the address of the service; its error is a message.\<close>

definition prolific_activation_preflight ::
    "http_parser \<Rightarrow> (string \<Rightarrow> string \<Rightarrow> (string, prolific_api) outcome) \<Rightarrow> full_config \<Rightarrow> string
      \<Rightarrow> string list \<times> (study \<times> string) option" where
  "prolific_activation_preflight http connect c api_url =
     (if \<not> pc_enabled (cf_prolific c) then ([], None)
      else
        (let local = prolific_local_activation_issues http c in
         if local \<noteq> [] then (local, None)
         else
           (case obind (if blank (pc_token (cf_prolific c)) then Err ''Prolific API token is missing''
                        else connect (pc_token (cf_prolific c)) (trim_end_slashes api_url)) (\<lambda>api.
                 obind (pa_study api (pc_study (cf_prolific c))) (\<lambda>s. Ok (api, s))) of
              Ok (api, s) \<Rightarrow>
                (let (workspace, unknown) =
                       (case sd_project s of
                          None \<Rightarrow> (None, [''no project workspace''])
                        | Some project \<Rightarrow>
                            (case pa_workspace api project of Ok w \<Rightarrow> (Some w, []) | Err e \<Rightarrow> (None, [e]) | Panic \<Rightarrow> (None, [''panic''])))
                 in ((if sd_id s \<noteq> pc_study (cf_prolific c) then [''a different study''] else []) @ unknown @ study_issues c s,
                     map_option (\<lambda>w. (s, w)) workspace))
            | Err e \<Rightarrow> ([e], None)
            | Panic \<Rightarrow> ([''panic''], None))))"

text \<open>The answer of \<open>experiment_activation_issues\<close> when its check of the study is a new one; the code may use an
  answer of the last 30 seconds instead, see \<open>cached_activation_issues\<close>.\<close>

definition experiment_activation_issues ::
    "http_parser \<Rightarrow> uri_parser \<Rightarrow> yaml_parser \<Rightarrow> agent_definition list \<Rightarrow> bool \<Rightarrow> bool
      \<Rightarrow> (string \<Rightarrow> string \<Rightarrow> (string, prolific_api) outcome) \<Rightarrow> string \<Rightarrow> full_config \<Rightarrow> string list" where
  "experiment_activation_issues http pu py definitions has_transcription has_tts connect api_url c =
     (let issues = activation_issues_for_config http pu py definitions has_transcription has_tts c in
      if issues = [] then fst (prolific_activation_preflight http connect c api_url) else issues)"

text \<open>The number of sessions the places of a study make; a cast of a float to an integer saturates.\<close>

definition prolific_planned_sessions :: "full_config \<Rightarrow> study \<Rightarrow> (string, int) outcome" where
  "prolific_planned_sessions c s =
     (case sd_places s of
        Finite q \<Rightarrow>
          if q \<le> 0 \<or> q \<noteq> of_int \<lfloor>q\<rfloor> then Err ''available places''
          else
            (let places = saturating_i64 \<lfloor>q\<rfloor>; k = (case ag_mode (cf_agents c) of HumanVsHuman \<Rightarrow> 2 | HumanVsAgent \<Rightarrow> 1) in
             if places mod k \<noteq> 0 then Err ''incomplete sessions'' else Ok (places div k))
      | _ \<Rightarrow> Err ''available places'')"

section \<open>The cache of the check\<close>

definition i64_bytes :: "int \<Rightarrow> nat list" where
  "i64_bytes n = be_bytes (nat (n mod 2 ^ 64))"

definition string_bytes :: "string \<Rightarrow> nat list" where
  "string_bytes s = map of_char s"

definition preflight_values :: "full_config \<Rightarrow> string \<Rightarrow> string list" where
  "preflight_values c api_url =
     [api_url, pc_token (cf_prolific c), pc_study (cf_prolific c), sv_public_url (cf_server c)] @
     map snd (path_codes (pc_paths (cf_prolific c)))"

text \<open>The bytes that are hashed.\<close>

definition preflight_input :: "full_config \<Rightarrow> string \<Rightarrow> nat list" where
  "preflight_input c api_url =
     [if pc_enabled (cf_prolific c) then 1 else 0] @
     concat (map (\<lambda>p. be_bytes (length p) @ p) (map string_bytes (preflight_values c api_url))) @
     i64_bytes (waiting_session_timeout (cf_session c)) @ i64_bytes (session_max_lifetime (cf_session c))"

record 'd preflight_entry =
  pf_fingerprint :: 'd
  pf_checked :: int
  pf_answer :: "string list \<times> (study \<times> string) option"

text \<open>A cached answer is used for 30 seconds while nothing it depends on has changed; times in milliseconds.\<close>

definition cached_prolific_activation_preflight ::
    "(nat list \<Rightarrow> 'd) \<Rightarrow> http_parser \<Rightarrow> (string \<Rightarrow> string \<Rightarrow> (string, prolific_api) outcome) \<Rightarrow> int \<Rightarrow> string \<Rightarrow> full_config
      \<Rightarrow> string \<Rightarrow> (string \<rightharpoonup> 'd preflight_entry)
      \<Rightarrow> (string \<rightharpoonup> 'd preflight_entry) \<times> (string list \<times> (study \<times> string) option)" where
  "cached_prolific_activation_preflight dg http connect now experiment c api_url cache =
     (let fresh = prolific_activation_preflight http connect c api_url in
      case cache experiment of
        Some p \<Rightarrow>
          if pf_fingerprint p = dg (preflight_input c api_url) \<and> now - pf_checked p < 30000 then (cache, pf_answer p)
          else (cache(experiment \<mapsto> \<lparr>pf_fingerprint = dg (preflight_input c api_url), pf_checked = now, pf_answer = fresh\<rparr>), fresh)
      | None \<Rightarrow> (cache(experiment \<mapsto> \<lparr>pf_fingerprint = dg (preflight_input c api_url), pf_checked = now, pf_answer = fresh\<rparr>), fresh))"

text \<open>\<open>experiment_activation_issues\<close> as it runs, with the cache; the study and its workspace are kept for the launches
  when there are no issues.\<close>

definition cached_activation_issues ::
    "http_parser \<Rightarrow> uri_parser \<Rightarrow> yaml_parser \<Rightarrow> agent_definition list \<Rightarrow> bool \<Rightarrow> bool \<Rightarrow> (nat list \<Rightarrow> 'd)
      \<Rightarrow> (string \<Rightarrow> string \<Rightarrow> (string, prolific_api) outcome) \<Rightarrow> int \<Rightarrow> string \<Rightarrow> full_config \<Rightarrow> string
      \<Rightarrow> (string \<rightharpoonup> 'd preflight_entry) \<Rightarrow> (string \<rightharpoonup> 'd preflight_entry) \<times> string list \<times> (study \<times> string) option" where
  "cached_activation_issues http pu py definitions has_transcription has_tts dg connect now experiment c api_url cache =
     (let issues = activation_issues_for_config http pu py definitions has_transcription has_tts c in
      if issues = [] then cached_prolific_activation_preflight dg http connect now experiment c api_url cache
      else (cache, issues, None))"

lemma cached_activation_issues_fresh:
  assumes "case cache experiment of None \<Rightarrow> True
    | Some p \<Rightarrow> pf_fingerprint p \<noteq> dg (preflight_input c api_url) \<or> 30000 \<le> now - pf_checked p"
  shows "fst (snd (cached_activation_issues http pu py definitions has_transcription has_tts dg connect now experiment c api_url cache)) =
    experiment_activation_issues http pu py definitions has_transcription has_tts connect api_url c"
  using assms
  by (auto simp: cached_activation_issues_def experiment_activation_issues_def cached_prolific_activation_preflight_def Let_def
      split: option.splits)

section \<open>Launches\<close>

record launch_header =
  lh_alg :: string
  lh_kid :: "string option"

record launch_claims =
  lc_sub :: string
  lc_participant :: string
  lc_study :: string
  lc_session :: string
  lc_workspace :: string

text \<open>The token library: the header of a token, and the claims it carries when the key, the issuer, the
  audience and the expiry are right.\<close>

record 'k token_library =
  tl_header :: "string \<Rightarrow> launch_header option"
  tl_claims :: "'k \<Rightarrow> string \<Rightarrow> string \<Rightarrow> launch_claims option"

type_synonym 'k keys = "(string \<times> 'k) list"

datatype launch_error = BadToken | KeysUnavailable | UnknownKey | WrongClaims

text \<open>\<open>cached_jwks\<close>: times in seconds; \<open>fetched\<close> is the answer of the service to this call.\<close>

definition cached_jwks ::
    "bool \<Rightarrow> int \<Rightarrow> 'k keys option \<Rightarrow> (int \<times> 'k keys) option \<Rightarrow> (int \<times> 'k keys) option \<times> (launch_error, 'k keys) outcome" where
  "cached_jwks force now fetched cache =
     (case (if force then None else
              (case cache of Some (t, ks) \<Rightarrow> if t > now - 24 * 60 * 60 then Some ks else None | None \<Rightarrow> None)) of
        Some ks \<Rightarrow> (cache, Ok ks)
      | None \<Rightarrow>
          (case fetched of
             None \<Rightarrow> (cache, Err KeysUnavailable)
           | Some ks \<Rightarrow> (Some (now, ks), Ok ks)))"

definition check_claims ::
    "'k token_library \<Rightarrow> string \<Rightarrow> string \<Rightarrow> string \<Rightarrow> 'k \<Rightarrow> string \<Rightarrow> (launch_error, launch_claims) outcome" where
  "check_claims lib audience study_id workspace k token =
     obind (ok_or (tl_claims lib k audience token) BadToken) (\<lambda>cl.
       if lc_sub cl \<noteq> lc_session cl then Err WrongClaims
       else if lc_study cl \<noteq> study_id then Err WrongClaims
       else if lc_workspace cl \<noteq> workspace then Err WrongClaims
       else Ok cl)"

definition verify_signed_launch ::
    "'k token_library \<Rightarrow> string \<Rightarrow> string \<Rightarrow> string \<Rightarrow> int \<Rightarrow> 'k keys option \<Rightarrow> 'k keys option \<Rightarrow> string
      \<Rightarrow> (int \<times> 'k keys) option \<Rightarrow> (int \<times> 'k keys) option \<times> (launch_error, launch_claims) outcome" where
  "verify_signed_launch lib audience study_id workspace now fetched1 fetched2 token cache =
     (case tl_header lib token of
        None \<Rightarrow> (cache, Err BadToken)
      | Some h \<Rightarrow>
          if lh_alg h \<noteq> ''RS256'' then (cache, Err BadToken)
          else
            (case lh_kid h of
               None \<Rightarrow> (cache, Err BadToken)
             | Some kid \<Rightarrow>
                 (case cached_jwks False now fetched1 cache of
                    (c1, Ok ks) \<Rightarrow>
                      (case map_of ks kid of
                         Some k \<Rightarrow> (c1, check_claims lib audience study_id workspace k token)
                       | None \<Rightarrow>
                           (case cached_jwks True now fetched2 c1 of
                              (c2, Ok ks2) \<Rightarrow>
                                (c2, case map_of ks2 kid of
                                       None \<Rightarrow> Err UnknownKey
                                     | Some k \<Rightarrow> check_claims lib audience study_id workspace k token)
                            | (c2, Err e) \<Rightarrow> (c2, Err e)
                            | (c2, Panic) \<Rightarrow> (c2, Panic)))
                  | (c1, Err e) \<Rightarrow> (c1, Err e)
                  | (c1, Panic) \<Rightarrow> (c1, Panic))))"

definition verify_unsigned_launch ::
    "prolific_api \<Rightarrow> string \<Rightarrow> string \<Rightarrow> string \<Rightarrow> (string, submission) outcome" where
  "verify_unsigned_launch api participant study_id session =
     obind (pa_submission api session) (\<lambda>s.
       if su_id s \<noteq> session \<or> su_study s \<noteq> study_id \<or> su_participant s \<noteq> Some participant
       then Err ''Prolific submission does not match the launch identifiers''
       else Ok s)"

end
