(* ===== verification/Prolific_Properties.thy ===== *)
theory Prolific_Properties
  imports Prolific_Study Config_Properties Session_Intake
begin

text \<open>
  What an accepted Prolific study guarantees for the redirects of participants, that the cache of the check
  does not change its answers, and what an accepted signed launch is bound to.
\<close>

section \<open>Completion paths\<close>

definition approved_outcome :: "participant_outcome_kind \<Rightarrow> bool" where
  "approved_outcome k \<longleftrightarrow> k \<in> {Completed, PartnerLeft, OutcomeTechnicalFailure, LifetimeLimitReached}"

text \<open>The field of the configuration whose code a participant of an outcome receives.\<close>

fun outcome_field :: "participant_outcome_kind \<Rightarrow> bool \<Rightarrow> string" where
  "outcome_field Completed started = ''completed''"
| "outcome_field PartnerLeft started = ''partner_left''"
| "outcome_field LeftWaitingRoom started = ''game_did_not_start''"
| "outcome_field OutcomePartnerUnavailable started = ''game_did_not_start''"
| "outcome_field ConnectionLost started = (if started then ''participation_ended_early'' else ''game_did_not_start'')"
| "outcome_field LeftGame started = ''participation_ended_early''"
| "outcome_field IdleLimitReached started = ''participation_ended_early''"
| "outcome_field OutcomeTechnicalFailure started = ''technical_failure''"
| "outcome_field LifetimeLimitReached started = ''technical_failure''"

lemma outcome_field_code:
  "map_of (path_codes p) (outcome_field k started) = Some (completion_code (completion_paths.truncate p) k started)"
  by (cases k) (simp_all add: path_codes_def completion_paths.truncate_def)

lemma outcome_field_action:
  "(outcome_field k started, if approved_outcome k then ''AUTOMATICALLY_APPROVE'' else ''REQUEST_RETURN'') \<in> set expected_actions"
  by (cases k) (simp_all add: expected_actions_def approved_outcome_def)

lemma path_issues_none:
  assumes "completion_path_issues s configured = []" "(field, action) \<in> set expected_actions" "map_of configured field = Some code"
  obtains path where "find (\<lambda>p. sc_code p = Some code) (sd_codes s) = Some path" "sc_actions path = [action]"
proof -
  have "path_issues s configured (field, action) = []" using assms(1,2) by (auto simp: completion_path_issues_def)
  then show ?thesis using assms(3) that by (auto simp: path_issues_def split: option.splits if_splits)
qed

lemma preflight_accepts:
  assumes "pc_enabled (cf_prolific c)" "fst (prolific_activation_preflight http connect c url) = []"
  obtains s w where "prolific_activation_preflight http connect c url = ([], Some (s, w))" "study_issues c s = []"
    "sd_id s = pc_study (cf_prolific c)"
proof -
  let ?r = "obind (if blank (pc_token (cf_prolific c)) then Err ''Prolific API token is missing''
                        else connect (pc_token (cf_prolific c)) (trim_end_slashes url)) (\<lambda>api.
                 obind (pa_study api (pc_study (cf_prolific c))) (\<lambda>s. Ok (api, s)))"
  have l: "prolific_local_activation_issues http c = []"
    using assms by (cases "prolific_local_activation_issues http c = []") (simp_all add: prolific_activation_preflight_def Let_def)
  show ?thesis
  proof (cases ?r)
    case (Ok x)
    then obtain api s where x: "?r = Ok (api, s)" by (cases x) auto
    show ?thesis
    proof (cases "sd_project s")
      case None
      then show ?thesis using assms l unfolding prolific_activation_preflight_def Let_def x by simp
    next
      case (Some project)
      then show ?thesis using assms l that unfolding prolific_activation_preflight_def Let_def x
        by (cases "pa_workspace api project") (auto split: if_splits)
    qed
  next
    case (Err e)
    show ?thesis using assms l unfolding prolific_activation_preflight_def Let_def Err by simp
  next
    case Panic
    show ?thesis using assms l unfolding prolific_activation_preflight_def Let_def Panic by simp
  qed
qed

lemma no_local_issues:
  assumes "pc_enabled (cf_prolific c)" "activation_issues_for_config http pu py definitions ht hv c = []"
    "x \<in> set (path_codes (pc_paths (cf_prolific c)))"
  shows "snd x \<noteq> []"
proof -
  have "cf_prolific (if hv then (if ht then a c else c)\<lparr>cf_tts := b\<rparr> else (if ht then a c else c)) = cf_prolific c"
    if "\<And>c. cf_prolific (a c) = cf_prolific c" for a b
    using that by simp
  then have "prolific_completion_path_issues c = []"
    using assms(2) by (auto simp: activation_issues_for_config_def local_testing_issues_for_config_def Let_def
        prolific_completion_path_issues_def split: if_splits)
  then have "\<not> list_ex blank (map snd (path_codes (pc_paths (cf_prolific c))))"
    using assms(1) by (auto simp: prolific_completion_path_issues_def Let_def split: if_splits)
  then show ?thesis using assms(3) by (auto simp: list_ex_iff)
qed

section \<open>The input of the fingerprint\<close>

lemma string_bytes_inj: "string_bytes s = string_bytes t \<longleftrightarrow> s = t"
proof -
  have "inj (of_char :: char \<Rightarrow> nat)" by (simp add: inj_def)
  then show ?thesis by (simp add: string_bytes_def inj_map_eq_map)
qed

definition in_i64 :: "int \<Rightarrow> bool" where
  "in_i64 n \<longleftrightarrow> - (2 ^ 63) \<le> n \<and> n < 2 ^ 63"

lemma i64_mod:
  assumes "in_i64 m"
  shows "m mod 2 ^ 64 = (if m < 0 then m + 2 ^ 64 else m)"
proof (cases "m < 0")
  case True
  have "(m + 2 ^ 64) mod 2 ^ 64 = m + 2 ^ 64"
    using assms True by (intro mod_pos_pos_trivial) (simp_all add: in_i64_def)
  then show ?thesis using True by simp
next
  case False
  then show ?thesis using assms by (simp add: in_i64_def)
qed

lemma i64_bytes_inj:
  assumes "i64_bytes m = i64_bytes n" "in_i64 m" "in_i64 n"
  shows "m = n"
proof -
  have "nat (m mod 2 ^ 64) < 2 ^ 64" "nat (n mod 2 ^ 64) < 2 ^ 64" by (simp_all add: nat_less_iff)
  then have "nat (m mod 2 ^ 64) = nat (n mod 2 ^ 64)" using assms(1) be_bytes_inj unfolding i64_bytes_def by blast
  then have "m mod 2 ^ 64 = n mod 2 ^ 64" by simp
  then show ?thesis using assms(2,3) unfolding i64_mod [OF assms(2)] i64_mod [OF assms(3)]
    by (auto simp: in_i64_def split: if_splits)
qed

lemma append_tail: "xs @ ys = xs' @ ys' \<Longrightarrow> length ys = length ys' \<Longrightarrow> xs = xs' \<and> ys = ys'"
  by simp

text \<open>What a check reads of a configuration.\<close>

definition preflight_sized :: "full_config \<Rightarrow> string \<Rightarrow> bool" where
  "preflight_sized c url \<longleftrightarrow> (\<forall>v \<in> set (preflight_values c url). length v < 2 ^ 64) \<and>
     in_i64 (waiting_session_timeout (cf_session c)) \<and> in_i64 (session_max_lifetime (cf_session c))"

lemma preflight_input_inj:
  assumes "preflight_input c url = preflight_input c' url'" "preflight_sized c url" "preflight_sized c' url'"
  shows "pc_enabled (cf_prolific c) = pc_enabled (cf_prolific c')" "preflight_values c url = preflight_values c' url'"
    "waiting_session_timeout (cf_session c) = waiting_session_timeout (cf_session c')"
    "session_max_lifetime (cf_session c) = session_max_lifetime (cf_session c')"
proof -
  let ?e = "\<lambda>c url. concat (map (\<lambda>p. be_bytes (length p) @ p) (map string_bytes (preflight_values c url)))"
  let ?w = "\<lambda>c. i64_bytes (waiting_session_timeout (cf_session c))" and ?m = "\<lambda>c. i64_bytes (session_max_lifetime (cf_session c))"
  have len: "length (?w c) = 8" "length (?m c) = 8" for c by (simp_all add: i64_bytes_def)
  have eq: "(?e c url @ ?w c) @ ?m c = (?e c' url' @ ?w c') @ ?m c'"
    and "(if pc_enabled (cf_prolific c) then 1 else 0 :: nat) = (if pc_enabled (cf_prolific c') then 1 else 0)"
    using assms(1) by (simp_all add: preflight_input_def)
  then show "pc_enabled (cf_prolific c) = pc_enabled (cf_prolific c')" by (simp split: if_splits)
  have l: "length (?m c) = length (?m c')" "length (?w c) = length (?w c')" unfolding len by (rule refl)+
  note parts = append_tail [OF eq l(1), THEN conjunct1] append_tail [OF eq l(1), THEN conjunct2]
  note fst_parts = append_tail [OF parts(1) l(2), THEN conjunct1] append_tail [OF parts(1) l(2), THEN conjunct2]
  have "map string_bytes (preflight_values c url) = map string_bytes (preflight_values c' url')"
    using assms(2,3) fst_parts(1) by (intro seed_parts_inj) (auto simp: preflight_sized_def string_bytes_def)
  then show "preflight_values c url = preflight_values c' url'"
    using string_bytes_inj by (simp add: inj_map_eq_map inj_def)
  show "waiting_session_timeout (cf_session c) = waiting_session_timeout (cf_session c')"
    "session_max_lifetime (cf_session c) = session_max_lifetime (cf_session c')"
    using i64_bytes_inj fst_parts(2) parts(2) assms(2,3) by (simp_all add: preflight_sized_def)
qed

lemma preflight_depends:
  assumes "pc_enabled (cf_prolific c) = pc_enabled (cf_prolific c')" "preflight_values c url = preflight_values c' url'"
    "waiting_session_timeout (cf_session c) = waiting_session_timeout (cf_session c')"
    "session_max_lifetime (cf_session c) = session_max_lifetime (cf_session c')"
  shows "prolific_activation_preflight http connect c url = prolific_activation_preflight http connect c' url'"
proof -
  have p: "url = url'" "pc_token (cf_prolific c) = pc_token (cf_prolific c')" "pc_study (cf_prolific c) = pc_study (cf_prolific c')"
    "sv_public_url (cf_server c) = sv_public_url (cf_server c')" "path_codes (pc_paths (cf_prolific c)) = path_codes (pc_paths (cf_prolific c'))"
    using assms(2) by (simp_all add: preflight_values_def path_codes_def)
  have "prolific_local_activation_issues http c = prolific_local_activation_issues http c'"
    using assms(1) p by (simp add: prolific_local_activation_issues_def)
  note local = this
  have study: "study_issues c = study_issues c'"
    using assms(3,4) p by (simp add: study_issues_def fun_eq_iff)
  show ?thesis unfolding prolific_activation_preflight_def assms(1) p(1-3) local study by (rule refl)
qed

section \<open>Properties\<close>

text \<open>C24 (refinement). When the check before research intake finds nothing, every participant of every session is sent
  to a completion path of the linked study that does with the submission what the outcome calls for: those
  who completed, lost their partner or met a technical failure are approved, all others are asked to return
  the submission. No outcome is left without a redirect.\<close>

theorem redirects_match_the_study:
  assumes "pc_enabled (cf_prolific c)"
    "experiment_activation_issues http pu py definitions ht hv connect url c = []"
  shows "\<exists>s w. prolific_activation_preflight http connect c url = ([], Some (s, w)) \<and> sd_id s = pc_study (cf_prolific c) \<and>
    (\<forall>k started. \<exists>h path. prolific_handoff (view_of c) k started = Some h \<and>
       find (\<lambda>p. sc_code p = Some (ho_code h)) (sd_codes s) = Some path \<and>
       sc_actions path = [if approved_outcome k then ''AUTOMATICALLY_APPROVE'' else ''REQUEST_RETURN''])"
proof -
  have a: "activation_issues_for_config http pu py definitions ht hv c = []" "fst (prolific_activation_preflight http connect c url) = []"
    using assms(2) by (auto simp: experiment_activation_issues_def Let_def split: if_splits)
  obtain s w where s: "prolific_activation_preflight http connect c url = ([], Some (s, w))" "study_issues c s = []"
    "sd_id s = pc_study (cf_prolific c)"
    using preflight_accepts [OF assms(1) a(2)] by blast
  have issues: "completion_path_issues s (path_codes (pc_paths (cf_prolific c))) = []"
    using s(2) by (simp add: study_issues_def)
  have "\<exists>h path. prolific_handoff (view_of c) k started = Some h \<and>
       find (\<lambda>p. sc_code p = Some (ho_code h)) (sd_codes s) = Some path \<and>
       sc_actions path = [if approved_outcome k then ''AUTOMATICALLY_APPROVE'' else ''REQUEST_RETURN'']" for k started
  proof -
    let ?code = "completion_code (completion_paths.truncate (pc_paths (cf_prolific c))) k started"
    obtain path where path: "find (\<lambda>p. sc_code p = Some ?code) (sd_codes s) = Some path"
      "sc_actions path = [if approved_outcome k then ''AUTOMATICALLY_APPROVE'' else ''REQUEST_RETURN'']"
      using path_issues_none [OF issues outcome_field_action outcome_field_code] by blast
    have "?code \<noteq> []"
      using no_local_issues [OF assms(1) a(1) map_of_SomeD [OF outcome_field_code [of _ k started]]] by simp
    then show ?thesis using path by (simp add: prolific_handoff_def Let_def view_of_def)
  qed
  then show ?thesis using s by blast
qed

text \<open>The cache of the check does not change what it answers: when an entry was made by a check of
  some configuration and the digest does not confuse the two inputs, the cached check answers what a new
  one would, because everything a check reads of a configuration is hashed, and hashed unambiguously.\<close>

theorem cached_check_is_fresh:
  assumes "preflight_sized c url" "preflight_sized c' url'"
    "dg (preflight_input c url) = dg (preflight_input c' url') \<Longrightarrow> preflight_input c url = preflight_input c' url'"
    "cache i = Some \<lparr>pf_fingerprint = dg (preflight_input c' url'), pf_checked = t,
       pf_answer = prolific_activation_preflight http connect c' url'\<rparr>"
  shows "snd (cached_prolific_activation_preflight dg http connect now i c url cache) = prolific_activation_preflight http connect c url"
proof (cases "dg (preflight_input c url) = dg (preflight_input c' url')")
  case True
  from preflight_depends [OF preflight_input_inj [OF assms(3) [OF this] assms(1,2)]]
  have "prolific_activation_preflight http connect c url = prolific_activation_preflight http connect c' url'" .
  then show ?thesis using True assms(4) by (simp add: cached_prolific_activation_preflight_def Let_def)
next
  case False
  then show ?thesis using assms(4) by (simp add: cached_prolific_activation_preflight_def Let_def)
qed

text \<open>The key cache after a history of calls of \<open>cached_jwks\<close>, from the empty cache of a new client; each call is
  its flag, its time and the answer of the service to it.\<close>

type_synonym 'k key_call = "bool \<times> int \<times> 'k keys option"

definition key_cache :: "'k key_call list \<Rightarrow> (int \<times> 'k keys) option" where
  "key_cache calls = fold (\<lambda>(force, now, fetched) cache. fst (cached_jwks force now fetched cache)) calls None"

lemma cached_jwks_source:
  assumes "cached_jwks force now f c0 = (c, r)"
  shows "c = c0 \<or> (\<exists>ks. f = Some ks \<and> c = Some (now, ks))"
    and "r = Ok ks \<Longrightarrow> \<exists>t. c = Some (t, ks) \<and> now - 24 * 60 * 60 < t"
  using assms by (auto simp: cached_jwks_def split: option.splits if_splits prod.splits)

lemma key_cache_published: "key_cache calls = Some (t, ks) \<Longrightarrow> \<exists>force. (force, t, Some ks) \<in> set calls"
proof (induction calls rule: rev_induct)
  case (snoc x calls)
  obtain force now f where x: "x = (force, now, f)" by (cases x)
  obtain c r where c: "cached_jwks force now f (key_cache calls) = (c, r)"
    by (cases "cached_jwks force now f (key_cache calls)")
  have "key_cache (calls @ [x]) = c" using c by (simp add: key_cache_def x)
  then have "c = Some (t, ks)" using snoc.prems by simp
  from cached_jwks_source(1) [OF c] show ?case
  proof
    assume "c = key_cache calls"
    then show ?thesis using snoc.IH \<open>c = Some (t, ks)\<close> by auto
  next
    assume "\<exists>ks. f = Some ks \<and> c = Some (now, ks)"
    then show ?thesis using x \<open>c = Some (t, ks)\<close> by auto
  qed
qed (simp add: key_cache_def)

text \<open>The client that participant creation asks, for a study whose launches are signed: the claims that
  \<open>verify_signed_launch\<close> returns for a token.\<close>

definition launch_client ::
    "'k token_library \<Rightarrow> string \<Rightarrow> string \<Rightarrow> string \<Rightarrow> int \<Rightarrow> 'k keys option \<Rightarrow> 'k keys option
      \<Rightarrow> (int \<times> 'k keys) option \<Rightarrow> prolific_client" where
  "launch_client lib audience study_id workspace now fetched1 fetched2 cache =
     \<lparr>cl_signed_urls = Some True,
      cl_verify_signed = (\<lambda>token.
        case snd (verify_signed_launch lib audience study_id workspace now fetched1 fetched2 token cache) of
          Ok cl \<Rightarrow> Some (lc_participant cl, lc_study cl, lc_session cl)
        | _ \<Rightarrow> None),
      cl_verify_unsigned = (\<lambda>participant study session. False)\<rparr>"

lemma verify_signed_launch_Ok:
  assumes "verify_signed_launch lib audience study_id workspace now fetched1 fetched2 token cache = (cache', Ok cl)"
  obtains kid k t ks where "tl_header lib token = Some \<lparr>lh_alg = ''RS256'', lh_kid = Some kid\<rparr>"
    "cache = Some (t, ks) \<or> t = now \<and> Some ks \<in> {fetched1, fetched2}" "now - 24 * 60 * 60 < t"
    "map_of ks kid = Some k" "check_claims lib audience study_id workspace k token = Ok cl"
proof -
  obtain h where h: "tl_header lib token = Some h" "lh_alg h = ''RS256''"
    using assms by (auto simp: verify_signed_launch_def split: option.splits if_splits)
  obtain kid where kid: "lh_kid h = Some kid"
    using assms h by (auto simp: verify_signed_launch_def split: option.splits)
  obtain c1 ks1 where c1: "cached_jwks False now fetched1 cache = (c1, Ok ks1)"
    using assms h kid by (auto simp: verify_signed_launch_def split: option.splits prod.splits outcome.splits)
  obtain force f c0 ks k where k: "cached_jwks force now f c0 = (cache', Ok ks)" "map_of ks kid = Some k"
    "check_claims lib audience study_id workspace k token = Ok cl" "c0 = cache \<and> f = fetched1 \<or> c0 = c1 \<and> f = fetched2"
    using assms h kid c1 by (auto simp: verify_signed_launch_def split: option.splits prod.splits outcome.splits)
  obtain t where t: "cache' = Some (t, ks)" "now - 24 * 60 * 60 < t" using cached_jwks_source(2) [OF k(1)] by blast
  have "cache = Some (t, ks) \<or> t = now \<and> Some ks \<in> {fetched1, fetched2}"
    using cached_jwks_source(1) [OF k(1)] cached_jwks_source(1) [OF c1] k(4) t(1) by auto
  moreover have "h = \<lparr>lh_alg = ''RS256'', lh_kid = Some kid\<rparr>" using h(2) kid by simp
  ultimately show ?thesis using that t(2) k(2,3) h(1) by blast
qed

text \<open>C33 (safety). A participant admitted by a signed launch URL presented a token for exactly the submission
  of the URL: its claims name the participant, the study and the session of the request, the study is the
  one configured, the subject is the session and the workspace the expected one; and the token was checked
  for this audience with an RS256 key that the service published under the token's identifier, in an
  answer to a request of this client, less than a day ago.\<close>

theorem signed_launch_is_bound:
  assumes "verify_prolific c l
      (Some (launch_client lib audience (cfg_prolific_study c) workspace now fetched1 fetched2 (key_cache calls))) q =
      Ok ''signed_url''"
  shows "\<exists>token cl kid k t ks. pq_token q = Some token \<and> tl_claims lib k audience token = Some cl \<and>
    lc_participant cl = pq_participant q \<and> lc_study cl = pq_study q \<and> lc_session cl = pq_session q \<and>
    pq_study q = cfg_prolific_study c \<and> lc_sub cl = pq_session q \<and> lc_workspace cl = workspace \<and>
    tl_header lib token = Some \<lparr>lh_alg = ''RS256'', lh_kid = Some kid\<rparr> \<and> map_of ks kid = Some k \<and>
    now - 24 * 60 * 60 < t \<and>
    (\<exists>force. (force, t, Some ks) \<in> set (calls @ [(False, now, fetched1), (True, now, fetched2)]))"
proof -
  let ?v = "\<lambda>token. verify_signed_launch lib audience (cfg_prolific_study c) workspace now fetched1 fetched2 token (key_cache calls)"
  obtain token cl where q: "pq_token q = Some token" "snd (?v token) = Ok cl" "pq_study q = cfg_prolific_study c"
    "lc_participant cl = pq_participant q" "lc_study cl = pq_study q" "lc_session cl = pq_session q"
    using assms by (auto simp: verify_prolific_def launch_client_def ok_or_def split: if_splits option.splits outcome.splits)
  then have "?v token = (fst (?v token), Ok cl)" by (metis prod.collapse)
  then obtain kid k t ks where k: "tl_header lib token = Some \<lparr>lh_alg = ''RS256'', lh_kid = Some kid\<rparr>"
    "key_cache calls = Some (t, ks) \<or> t = now \<and> Some ks \<in> {fetched1, fetched2}" "now - 24 * 60 * 60 < t"
    "map_of ks kid = Some k" "check_claims lib audience (cfg_prolific_study c) workspace k token = Ok cl"
    by (rule verify_signed_launch_Ok)
  have "\<exists>force. (force, t, Some ks) \<in> set (calls @ [(False, now, fetched1), (True, now, fetched2)])"
    using k(2) key_cache_published [of calls t ks] by auto
  moreover have "tl_claims lib k audience token = Some cl" "lc_sub cl = lc_session cl" "lc_workspace cl = workspace"
    using k(5) by (auto simp: check_claims_def ok_or_def split: if_splits option.splits)
  ultimately show ?thesis using q k(1,3,4) by metis
qed

section \<open>Instances\<close>

definition demo_paths :: prolific_paths where
  "demo_paths = \<lparr>path_completed = ''C1'', path_partner_left = ''C2'', path_game_did_not_start = ''C3'', path_ended_early = ''C4'',
     path_technical_failure = ''C5'', path_no_consent = ''C6''\<rparr>"

definition demo_prolific_config :: full_config where
  "demo_prolific_config = default_config\<lparr>
     cf_prolific := \<lparr>pc_enabled = True, pc_study = ''S'', pc_paths = demo_paths, pc_token = ''T''\<rparr>,
     cf_server := default_server\<lparr>sv_public_url := ''https://lab.example''\<rparr>\<rparr>"

definition demo_study :: study where
  "demo_study = \<lparr>sd_id = ''S'', sd_url = prolific_setup_url ''https://lab.example'', sd_id_option = ''url_parameters'',
     sd_codes = map (\<lambda>(c, a). \<lparr>sc_code = Some c, sc_type = ''OTHER'', sc_actions = [a]\<rparr>)
       [(''C1'', ''AUTOMATICALLY_APPROVE''), (''C2'', ''AUTOMATICALLY_APPROVE''), (''C3'', ''REQUEST_RETURN''),
        (''C4'', ''REQUEST_RETURN''), (''C5'', ''AUTOMATICALLY_APPROVE''), (''C6'', ''REQUEST_RETURN'')],
     sd_estimated = 30, sd_places = Finite 20, sd_maximum = None, sd_secure = True, sd_project = Some ''P''\<rparr>"

definition demo_api :: prolific_api where
  "demo_api = \<lparr>pa_study = (\<lambda>i. Ok demo_study), pa_workspace = (\<lambda>p. Ok ''W''), pa_submission = (\<lambda>s. Err ''unknown'')\<rparr>"

lemma demo_issues:
  "experiment_activation_issues demo_http (\<lambda>u. None) (\<lambda>y. None) [] False False (\<lambda>t u. Ok demo_api) ''https://api.prolific.com''
     demo_prolific_config = []"
proof -
  have b: "\<not> blank ''S''" "\<not> blank ''T''" "\<not> list_ex blank [''C1'', ''C2'', ''C3'', ''C4'', ''C5'', ''C6'']" by code_simp+
  have "validate_provider_http_url demo_http field ''https://lab.example'' = Ok ()" for field
    by (simp add: validate_provider_http_url_def validate_http_url_def demo_http_def)
  then have "activation_issues_for_config demo_http (\<lambda>u. None) (\<lambda>y. None) [] False False demo_prolific_config = []"
    using b by (simp add: activation_issues_for_config_def local_testing_issues_for_config_def activation_issues_def
        prolific_completion_path_issues_def prolific_local_activation_issues_def validate_agent_configuration_def
        demo_prolific_config_def demo_paths_def default_config_def default_transcription_def default_tts_def default_server_def
        path_codes_def Let_def)
  moreover have "study_issues demo_prolific_config demo_study = []"
    by (simp add: study_issues_def demo_study_def completion_path_issues_def expected_actions_def path_issues_def
        demo_prolific_config_def demo_paths_def path_codes_def saturating_i64_def default_config_def default_session_def)
  ultimately show ?thesis
    using b by (simp add: experiment_activation_issues_def prolific_activation_preflight_def activation_issues_for_config_def
        demo_api_def demo_study_def demo_prolific_config_def)
qed

theorem redirects_match_the_study_witness:
  "\<exists>h. prolific_handoff (view_of demo_prolific_config) IdleLimitReached True = Some h \<and> ho_code h = ''C4''"
proof -
  have "pc_enabled (cf_prolific demo_prolific_config)" by (simp add: demo_prolific_config_def)
  from redirects_match_the_study [OF this demo_issues]
  obtain h where "prolific_handoff (view_of demo_prolific_config) IdleLimitReached True = Some h" by blast
  moreover from this have "ho_code h = ''C4''"
    by (auto simp: prolific_handoff_def view_of_def demo_prolific_config_def demo_paths_def completion_paths.truncate_def Let_def)
  ultimately show ?thesis by blast
qed

lemma demo_sized: "preflight_sized demo_prolific_config ''https://api.prolific.com''"
  by (simp add: preflight_sized_def preflight_values_def demo_prolific_config_def demo_paths_def path_codes_def in_i64_def
      default_config_def default_session_def default_server_def)

theorem cached_check_is_fresh_witness:
  "snd (cached_prolific_activation_preflight id demo_http (\<lambda>t u. Ok demo_api) 1000 ''e'' demo_prolific_config ''https://api.prolific.com''
     [''e'' \<mapsto> \<lparr>pf_fingerprint = preflight_input demo_prolific_config ''https://api.prolific.com'', pf_checked = 0,
       pf_answer = prolific_activation_preflight demo_http (\<lambda>t u. Ok demo_api) demo_prolific_config ''https://api.prolific.com''\<rparr>]) =
   prolific_activation_preflight demo_http (\<lambda>t u. Ok demo_api) demo_prolific_config ''https://api.prolific.com''"
  by (rule cached_check_is_fresh [OF demo_sized demo_sized]) simp_all

definition demo_library :: "unit token_library" where
  "demo_library = \<lparr>tl_header = (\<lambda>t. Some \<lparr>lh_alg = ''RS256'', lh_kid = Some ''k''\<rparr>),
     tl_claims = (\<lambda>k aud t. Some \<lparr>lc_sub = ''X'', lc_participant = ''P'', lc_study = ''S'', lc_session = ''X'', lc_workspace = ''W''\<rparr>)\<rparr>"

theorem signed_launch_is_bound_witness:
  "\<exists>cl k. tl_claims demo_library k ''aud'' ''token'' = Some cl \<and> lc_study cl = ''S'' \<and> lc_session cl = ''X''"
proof -
  let ?c = "view_of demo_prolific_config"
  have study: "cfg_prolific_study ?c = ''S''" by (simp add: view_of_def demo_prolific_config_def)
  have cache: "key_cache [(False, 1, Some [])] = Some (1, [])" by (simp add: key_cache_def cached_jwks_def)
  have "verify_prolific ?c LifeActive (Some (launch_client demo_library ''aud'' (cfg_prolific_study ?c) ''W'' 90000 (Some [])
      (Some [(''k'', ())]) (key_cache [(False, 1, Some [])])))
      \<lparr>pq_participant = ''P'', pq_study = ''S'', pq_session = ''X'', pq_token = Some ''token''\<rparr> = Ok ''signed_url''"
    by (simp add: verify_prolific_def launch_client_def study cache verify_signed_launch_def demo_library_def cached_jwks_def
        check_claims_def ok_or_def is_ascii_string_def is_synthetic_prolific_testing_launch_def)
  from signed_launch_is_bound [OF this] show ?thesis by auto
qed

end
