(* ===== verification/Experiment_Catalogue.thy ===== *)
theory Experiment_Catalogue
  imports Hydration "HOL-Library.AList"
begin

text \<open>
  The experiments of an installation in the store, \<open>rust-server/src/storage.rs\<close>: the tables
  \<open>experiments\<close>, \<open>experiment_config_revisions\<close>, \<open>experiment_secrets\<close>, \<open>game_settings\<close> and
  \<open>game_secrets\<close>, and the statements the code runs on them, each method one transaction; only \<open>ensure_experiment\<close> is two
  statements outside a transaction, and is one step here.

  A table of experiments or revisions is the list of its rows in insertion order; a table of secrets is
  an association list with distinct keys. A text column that holds a document holds the document. Times
  are in milliseconds since the Unix epoch; the times of secrets are left out.
\<close>

section \<open>Tables\<close>

record experiment_row =
  ex_id :: string
  ex_created :: int
  ex_game_version :: string
  ex_config :: json
  ex_revision :: int
  ex_server_version :: "string option"
  ex_manifest :: "json option"
  ex_status :: string
  ex_notes :: "string option"
  ex_pinned :: bool

record revision_row =
  rv_experiment :: string
  rv_revision :: int
  rv_config :: json
  rv_created :: int
  rv_summary :: "string option"

record game_settings = endpoint_settings +
  gs_institution :: string
  gs_ip_ranges :: "string list"
  gs_prolific_url :: string
  gs_revision :: int

record catalogue =
  ca_experiments :: "experiment_row list"
  ca_revisions :: "revision_row list"
  ca_secrets :: "((string \<times> string) \<times> string) list"
  ca_settings :: game_settings
  ca_game_secrets :: "(string \<times> string) list"

definition default_game_settings :: game_settings where
  "default_game_settings = \<lparr>es_speechmatics_url = ''wss://eu.rt.speechmatics.com/v2'', es_tts_url = ''wss://api.elevenlabs.io'',
     gs_institution = [], gs_ip_ranges = [], gs_prolific_url = ''https://api.prolific.com'', gs_revision = 1\<rparr>"

text \<open>The argument of the insertions, \<open>ExperimentRecord\<close>.\<close>

record experiment_record =
  xr_id :: string
  xr_game_version :: string
  xr_config :: json
  xr_server_version :: "string option"
  xr_manifest :: "json option"
  xr_status :: string
  xr_notes :: "string option"

datatype catalogue_error =
    DuplicateExperiment
  | ChangedConcurrently
  | ExperimentMissing
  | AlreadyArchived
  | MustStopIntake
  | SettingsChanged

section \<open>Reading\<close>

definition experiment_definition :: "catalogue \<Rightarrow> string \<Rightarrow> experiment_row option" where
  "experiment_definition c e = find (\<lambda>r. ex_id r = e) (ca_experiments c)"

definition experiment_secrets :: "catalogue \<Rightarrow> string \<Rightarrow> (string \<rightharpoonup> string)" where
  "experiment_secrets c e = (\<lambda>k. map_of (ca_secrets c) (e, k))"

definition game_secrets :: "catalogue \<Rightarrow> (string \<rightharpoonup> string)" where
  "game_secrets c = map_of (ca_game_secrets c)"

definition experiment_revisions :: "catalogue \<Rightarrow> string \<Rightarrow> revision_row list" where
  "experiment_revisions c e = sort_key (\<lambda>r. - rv_revision r) (filter (\<lambda>r. rv_experiment r = e) (ca_revisions c))"

text \<open>The order of the dashboard: open research first, archived last, pinned before others, newest first.\<close>

definition list_rank :: "experiment_row \<Rightarrow> int list" where
  "list_rank r = [if ex_status r = ''active'' then 0 else 1, if ex_status r = ''archived'' then 1 else 0,
     if ex_pinned r then 0 else 1, - ex_created r]"

definition list_experiments :: "catalogue \<Rightarrow> int \<Rightarrow> string list" where
  "list_experiments c limit = take (nat (max 1 (min 1000 limit))) (map ex_id (sort_key list_rank (ca_experiments c)))"

section \<open>Writing\<close>

definition update_experiments :: "(experiment_row \<Rightarrow> bool) \<Rightarrow> (experiment_row \<Rightarrow> experiment_row) \<Rightarrow> catalogue \<Rightarrow> catalogue" where
  "update_experiments P f c = c\<lparr>ca_experiments := map (\<lambda>r. if P r then f r else r) (ca_experiments c)\<rparr>"

definition changed :: "(experiment_row \<Rightarrow> bool) \<Rightarrow> catalogue \<Rightarrow> nat" where
  "changed P c = length (filter P (ca_experiments c))"

definition has_revision :: "catalogue \<Rightarrow> string \<Rightarrow> int \<Rightarrow> bool" where
  "has_revision c e n \<longleftrightarrow> list_ex (\<lambda>r. rv_experiment r = e \<and> rv_revision r = n) (ca_revisions c)"

definition new_row :: "int \<Rightarrow> string \<Rightarrow> experiment_record \<Rightarrow> experiment_row" where
  "new_row now status x = \<lparr>ex_id = xr_id x, ex_created = now, ex_game_version = xr_game_version x, ex_config = xr_config x,
     ex_revision = 1, ex_server_version = xr_server_version x, ex_manifest = xr_manifest x, ex_status = status,
     ex_notes = xr_notes x, ex_pinned = False\<rparr>"

definition first_revision :: "int \<Rightarrow> experiment_record \<Rightarrow> revision_row" where
  "first_revision now x = \<lparr>rv_experiment = xr_id x, rv_revision = 1, rv_config = xr_config x, rv_created = now,
     rv_summary = Some ''Initial configuration''\<rparr>"

text \<open>\<open>ensure_experiment\<close> answers with the status of the row. An existing row keeps its configuration. The code
  inserts the row and its first revision by two statements, each atomic: after a crash between them, or for a
  reader that comes between them, a new experiment has no revision until the next call, which inserts it. That
  state is not one of the model's.\<close>

definition ensure_experiment :: "int \<Rightarrow> experiment_record \<Rightarrow> catalogue \<Rightarrow> catalogue \<times> string" where
  "ensure_experiment now x c =
     (let c1 = (case experiment_definition c (xr_id x) of
                  None \<Rightarrow> c\<lparr>ca_experiments := ca_experiments c @ [new_row now (xr_status x) x]\<rparr>
                | Some r \<Rightarrow> update_experiments (\<lambda>r. ex_id r = xr_id x)
                    (\<lambda>r. r\<lparr>ex_server_version := xr_server_version x, ex_manifest := xr_manifest x\<rparr>) c);
          status = (case experiment_definition c (xr_id x) of None \<Rightarrow> xr_status x | Some r \<Rightarrow> ex_status r)
      in (if has_revision c1 (xr_id x) 1 then c1 else c1\<lparr>ca_revisions := ca_revisions c1 @ [first_revision now x]\<rparr>, status))"

definition create_experiment :: "int \<Rightarrow> experiment_record \<Rightarrow> catalogue \<Rightarrow> (catalogue_error, catalogue) outcome" where
  "create_experiment now x c =
     (if experiment_definition c (xr_id x) \<noteq> None \<or> has_revision c (xr_id x) 1 then Err DuplicateExperiment
      else Ok (c\<lparr>ca_experiments := ca_experiments c @ [new_row now ''inactive'' x],
                 ca_revisions := ca_revisions c @ [first_revision now x]\<rparr>))"

text \<open>Updates come from a hash map, so their keys are distinct and their order does not matter.\<close>

definition upsert_secrets :: "string \<Rightarrow> (string \<times> string) list \<Rightarrow> ((string \<times> string) \<times> string) list \<Rightarrow> ((string \<times> string) \<times> string) list" where
  "upsert_secrets e updates ss = fold (\<lambda>(k, v). AList.update (e, k) v) updates ss"

definition delete_secrets :: "string \<Rightarrow> string list \<Rightarrow> ((string \<times> string) \<times> string) list \<Rightarrow> ((string \<times> string) \<times> string) list" where
  "delete_secrets e ks ss = fold (\<lambda>k. AList.delete (e, k)) ks ss"

definition save_experiment_configuration ::
    "int \<Rightarrow> string \<Rightarrow> int \<Rightarrow> json \<Rightarrow> string option \<Rightarrow> (string \<times> string) list \<Rightarrow> string list \<Rightarrow> catalogue
      \<Rightarrow> (catalogue_error, catalogue \<times> int) outcome" where
  "save_experiment_configuration now e expected config summary updates deletions c =
     (let P = (\<lambda>r. ex_id r = e \<and> ex_revision r = expected \<and> ex_status r = ''inactive'') in
      if changed P c \<noteq> 1 then Err ChangedConcurrently
      else if has_revision c e (expected + 1) then Err ChangedConcurrently
      else
        let c1 = update_experiments P (\<lambda>r. r\<lparr>ex_config := config, ex_revision := expected + 1\<rparr>) c
        in Ok (c1\<lparr>ca_revisions := ca_revisions c1 @ [\<lparr>rv_experiment = e, rv_revision = expected + 1, rv_config = config,
                    rv_created = now, rv_summary = summary\<rparr>],
                  ca_secrets := delete_secrets e deletions (upsert_secrets e updates (ca_secrets c1))\<rparr>, expected + 1))"

definition update_experiment_catalogue ::
    "string \<Rightarrow> bool \<Rightarrow> string option \<Rightarrow> catalogue \<Rightarrow> (catalogue_error, catalogue) outcome" where
  "update_experiment_catalogue e pinned notes c =
     (if changed (\<lambda>r. ex_id r = e) c \<noteq> 1 then Err ExperimentMissing
      else Ok (update_experiments (\<lambda>r. ex_id r = e) (\<lambda>r. r\<lparr>ex_pinned := pinned, ex_notes := notes\<rparr>) c))"

definition set_status :: "string \<Rightarrow> string \<Rightarrow> catalogue \<Rightarrow> catalogue" where
  "set_status e status c = update_experiments (\<lambda>r. ex_id r = e) (\<lambda>r. r\<lparr>ex_status := status\<rparr>) c"

definition archive_experiment :: "string \<Rightarrow> catalogue \<Rightarrow> (catalogue_error, catalogue) outcome" where
  "archive_experiment e c =
     (let P = (\<lambda>r. ex_id r = e \<and> List.member [''inactive'', ''completed''] (ex_status r)) in
      if changed P c = 1 then Ok (update_experiments P (\<lambda>r. r\<lparr>ex_status := ''archived''\<rparr>) c)
      else
        (case map_option ex_status (experiment_definition c e) of
           None \<Rightarrow> Err ExperimentMissing
         | Some status \<Rightarrow> if status = ''archived'' then Err AlreadyArchived else Err MustStopIntake))"

definition deactivate_open_experiments :: "catalogue \<Rightarrow> catalogue \<times> nat" where
  "deactivate_open_experiments c =
     (let P = (\<lambda>r. List.member [''active'', ''testing''] (ex_status r)) in
      (update_experiments P (\<lambda>r. r\<lparr>ex_status := ''inactive''\<rparr>) c, changed P c))"

text \<open>The argument \<open>s\<close> holds the new values of the settings; its revision is not used.\<close>

definition update_game_settings ::
    "(string \<Rightarrow> string) \<Rightarrow> int \<Rightarrow> game_settings \<Rightarrow> (string \<times> string) list \<Rightarrow> string list \<Rightarrow> catalogue
      \<Rightarrow> (catalogue_error, catalogue \<times> int) outcome" where
  "update_game_settings trimmed expected s updates deletions c =
     (if gs_revision (ca_settings c) \<noteq> expected then Err SettingsChanged
      else Ok (c\<lparr>ca_settings := s\<lparr>es_speechmatics_url := trimmed (es_speechmatics_url s), es_tts_url := trimmed (es_tts_url s),
                   gs_institution := trimmed (gs_institution s), gs_prolific_url := trimmed (gs_prolific_url s),
                   gs_revision := expected + 1\<rparr>,
                 ca_game_secrets := fold AList.delete deletions (fold (\<lambda>(k, v). AList.update k v) updates (ca_game_secrets c))\<rparr>,
               expected + 1))"

section \<open>A history of operations\<close>

datatype catalogue_op =
    Ensure experiment_record
  | Create experiment_record
  | Save string int json "string option" "(string \<times> string) list" "string list"
  | Annotate string bool "string option"
  | SetStatus string string
  | Archive string
  | Restart

fun apply_op :: "int \<times> catalogue_op \<Rightarrow> catalogue \<Rightarrow> catalogue" where
  "apply_op (now, Ensure x) c = fst (ensure_experiment now x c)"
| "apply_op (now, Create x) c = (case create_experiment now x c of Ok c' \<Rightarrow> c' | _ \<Rightarrow> c)"
| "apply_op (now, Save e n j summary us ds) c =
     (case save_experiment_configuration now e n j summary us ds c of Ok (c', m) \<Rightarrow> c' | _ \<Rightarrow> c)"
| "apply_op (now, Annotate e pinned notes) c = (case update_experiment_catalogue e pinned notes c of Ok c' \<Rightarrow> c' | _ \<Rightarrow> c)"
| "apply_op (now, SetStatus e status) c = set_status e status c"
| "apply_op (now, Archive e) c = (case archive_experiment e c of Ok c' \<Rightarrow> c' | _ \<Rightarrow> c)"
| "apply_op (now, Restart) c = fst (deactivate_open_experiments c)"

definition apply_ops :: "(int \<times> catalogue_op) list \<Rightarrow> catalogue \<Rightarrow> catalogue" where
  "apply_ops ops c = fold apply_op ops c"

text \<open>Experiments have distinct names, the revisions of each are numbered from 1 to its current revision,
  without gap or repetition, and the current configuration is that of the current revision.\<close>

definition catalogue_ok :: "catalogue \<Rightarrow> bool" where
  "catalogue_ok c \<longleftrightarrow>
     distinct (map ex_id (ca_experiments c)) \<and>
     distinct (map (\<lambda>v. (rv_experiment v, rv_revision v)) (ca_revisions c)) \<and>
     (\<forall>v \<in> set (ca_revisions c). \<exists>r. experiment_definition c (rv_experiment v) = Some r \<and>
        1 \<le> rv_revision v \<and> rv_revision v \<le> ex_revision r) \<and>
     (\<forall>r \<in> set (ca_experiments c). 1 \<le> ex_revision r \<and>
        (\<forall>n. 1 \<le> n \<and> n \<le> ex_revision r \<longrightarrow> has_revision c (ex_id r) n) \<and>
        (\<exists>v \<in> set (ca_revisions c). rv_experiment v = ex_id r \<and> rv_revision v = ex_revision r \<and> rv_config v = ex_config r))"

end
