(* ===== verification/Experiment_Admin.thy ===== *)
theory Experiment_Admin
  imports Experiment_Catalogue Provider_Urls Session_Memory
begin

text \<open>
  The administrator's handlers for experiments and game settings, \<open>rust-server/src/app.rs\<close>: creating,
  cloning, saving, archiving, secrets, and the configuration of an experiment as a runtime receives it.

  The derived encoding of stored configurations, the check of game options by the compiled game, and the
  parsers are arguments. The state is the catalogue and the copy of the game settings in memory; a handler
  that fails leaves it as it was.
\<close>

record admin_server =
  as_http :: http_parser
  as_uri :: uri_parser
  as_yaml :: yaml_parser
  as_encode :: "stored_config \<Rightarrow> json"
  as_decode :: "json \<Rightarrow> stored_config option"
  as_game_ok :: "json \<Rightarrow> bool"
  as_ip_range :: "string \<Rightarrow> bool"
  as_bootstrap :: full_config
  as_definitions :: "agent_definition list"
  as_version :: string
  as_server_version :: string
  as_manifest :: json

record admin_state =
  am_catalogue :: catalogue
  am_settings :: game_settings

section \<open>Stored configurations\<close>

definition persistable_config_json :: "'z admin_server_scheme \<Rightarrow> full_config \<Rightarrow> json" where
  "persistable_config_json srv c = redact_secret_fields (as_encode srv (stored_of c))"

definition experiment_config_from_json_unvalidated ::
    "'z admin_server_scheme \<Rightarrow> json \<Rightarrow> string \<Rightarrow> (app_error, full_config) outcome" where
  "experiment_config_from_json_unvalidated srv v e =
     obind (ok_or (as_object v) BadRequest) (\<lambda>x.
     obind (ok_or (as_decode srv v) BadRequest) (\<lambda>stored.
       Ok (into_runtime stored (as_bootstrap srv) e
         (experiment_public_base_url (sv_public_url (cf_server (as_bootstrap srv))) e))))"

definition validated :: "'z admin_server_scheme \<Rightarrow> full_config \<Rightarrow> (app_error, unit) outcome" where
  "validated srv c = map_err (\<lambda>x. BadRequest) (validate_config (as_http srv) c)"

definition experiment_config_from_json ::
    "'z admin_server_scheme \<Rightarrow> json \<Rightarrow> string \<Rightarrow> (app_error, full_config) outcome" where
  "experiment_config_from_json srv v e =
     obind (experiment_config_from_json_unvalidated srv v e) (\<lambda>c. obind (validated srv c) (\<lambda>x. Ok c))"

definition hydrated_experiment_config ::
    "'z admin_server_scheme \<Rightarrow> catalogue \<Rightarrow> string \<Rightarrow> (app_error, full_config) outcome" where
  "hydrated_experiment_config srv cat e =
     obind (ok_or (experiment_definition cat e) NotFound) (\<lambda>row.
     obind (experiment_config_from_json srv (ex_config row) e) (\<lambda>c.
       Ok (apply_game_provider_secrets (game_secrets cat) (apply_experiment_secrets (experiment_secrets cat e) c))))"

section \<open>Creating and cloning\<close>

definition catalogue_record :: "'z admin_server_scheme \<Rightarrow> string \<Rightarrow> full_config \<Rightarrow> string option \<Rightarrow> experiment_record" where
  "catalogue_record srv e c notes = \<lparr>xr_id = e, xr_game_version = as_version srv, xr_config = persistable_config_json srv c,
     xr_server_version = Some (as_server_version srv), xr_manifest = Some (as_manifest srv), xr_status = ''inactive'',
     xr_notes = notes\<rparr>"

definition admin_create_experiment ::
    "'z admin_server_scheme \<Rightarrow> int \<Rightarrow> string \<Rightarrow> json option \<Rightarrow> string option \<Rightarrow> admin_state \<Rightarrow> (app_error, admin_state) outcome" where
  "admin_create_experiment srv now e config notes st =
     obind (map_err (\<lambda>x. BadRequest) (validate_new_experiment_id e)) (\<lambda>x.
     obind (case config of
              Some v \<Rightarrow>
                obind (map_err (\<lambda>x. BadRequest) (apply_provider_endpoint_defaults (endpoint_settings.truncate (am_settings st)) v))
                  (\<lambda>v'. experiment_config_from_json srv v' e)
            | None \<Rightarrow>
                (let b = as_bootstrap srv in
                 Ok (b\<lparr>cf_speechmatics := (cf_speechmatics b)\<lparr>sm_url := es_speechmatics_url (am_settings st)\<rparr>,
                       cf_tts := (cf_tts b)\<lparr>tt_base_url := es_tts_url (am_settings st)\<rparr>\<rparr>))) (\<lambda>c0.
     let c = c0\<lparr>cf_id := Some e\<rparr> in
     obind (validated srv c) (\<lambda>x.
     obind (map_err (\<lambda>x. BadRequest) (validate_agent_configuration (as_uri srv) (as_yaml srv) (as_definitions srv) c False)) (\<lambda>x.
     obind (map_err (\<lambda>x. BadRequest) (create_experiment now (catalogue_record srv e c notes) (am_catalogue st))) (\<lambda>cat.
       Ok (st\<lparr>am_catalogue := cat\<rparr>))))))"

definition admin_clone_experiment ::
    "'z admin_server_scheme \<Rightarrow> int \<Rightarrow> string \<Rightarrow> string \<Rightarrow> admin_state \<Rightarrow> (app_error, admin_state) outcome" where
  "admin_clone_experiment srv now src e st =
     obind (map_err (\<lambda>x. BadRequest) (validate_new_experiment_id e)) (\<lambda>x.
     obind (ok_or (experiment_definition (am_catalogue st) src) NotFound) (\<lambda>row.
     obind (experiment_config_from_json srv (ex_config row) e) (\<lambda>c0.
     let c = c0\<lparr>cf_id := Some e\<rparr> in
     obind (validated srv c) (\<lambda>x.
     obind (map_err (\<lambda>x. BadRequest) (create_experiment now (catalogue_record srv e c None) (am_catalogue st))) (\<lambda>cat.
       Ok (st\<lparr>am_catalogue := cat\<rparr>))))))"

section \<open>Saving\<close>

record save_request =
  sq_expected :: int
  sq_config :: json
  sq_yaml :: "string option"
  sq_updates :: "(string \<times> string) list"
  sq_deletions :: "string list"
  sq_summary :: "string option"

definition parse_game_yaml :: "'z admin_server_scheme \<Rightarrow> string \<Rightarrow> (app_error, json) outcome" where
  "parse_game_yaml srv y =
     obind (ok_or (as_yaml srv y) BadRequest) (\<lambda>game.
     obind (map_err (\<lambda>x. BadRequest) (validate_game_config_contains_no_secrets game)) (\<lambda>x. Ok game))"

definition admin_validate_game_config ::
    "'z admin_server_scheme \<Rightarrow> string \<Rightarrow> string \<Rightarrow> admin_state \<Rightarrow> (app_error, unit) outcome" where
  "admin_validate_game_config srv e y st =
     obind (ok_or (experiment_definition (am_catalogue st) e) NotFound) (\<lambda>row.
     obind (parse_game_yaml srv y) (\<lambda>game. ensure (as_game_ok srv game) BadRequest))"

text \<open>The secrets the handler validates with: deletions first, then updates.\<close>

definition secrets_after :: "(string \<rightharpoonup> string) \<Rightarrow> (string \<times> string) list \<Rightarrow> string list \<Rightarrow> (string \<rightharpoonup> string)" where
  "secrets_after secrets updates deletions = (secrets |` (- set deletions)) ++ map_of updates"

definition with_game :: "'z admin_server_scheme \<Rightarrow> string option \<Rightarrow> json \<Rightarrow> (app_error, json) outcome" where
  "with_game srv yaml v =
     (case yaml of
        None \<Rightarrow> Ok v
      | Some y \<Rightarrow>
          obind (parse_game_yaml srv y) (\<lambda>game.
          obind (ok_or (as_object v) BadRequest) (\<lambda>obj. Ok (JObj (entry_insert ''game'' game obj)))))"

text \<open>The answer is the new revision with the configuration the handler checked.\<close>

definition admin_save_experiment_config ::
    "'z admin_server_scheme \<Rightarrow> int \<Rightarrow> string \<Rightarrow> save_request \<Rightarrow> admin_state
      \<Rightarrow> (app_error, admin_state \<times> int \<times> full_config) outcome" where
  "admin_save_experiment_config srv now e q st =
     obind (ok_or (experiment_definition (am_catalogue st) e) NotFound) (\<lambda>row.
     if ex_status row \<noteq> ''inactive'' then Err Conflict
     else if ex_game_version row \<noteq> as_version srv then Err Conflict
     else
       obind (map_err (\<lambda>x. BadRequest) (ofold (\<lambda>(k, v) u. validate_secret_update k (Some v)) (sq_updates q) ())) (\<lambda>x.
       obind (map_err (\<lambda>x. BadRequest) (ofold (\<lambda>k u. validate_secret_update k None) (sq_deletions q) ())) (\<lambda>x.
       obind (with_game srv (sq_yaml q) (sq_config q)) (\<lambda>v.
       obind (map_err (\<lambda>x. BadRequest) (apply_provider_endpoint_defaults (endpoint_settings.truncate (am_settings st)) v)) (\<lambda>v'.
       obind (experiment_config_from_json srv v' e) (\<lambda>c0.
       let cat = am_catalogue st;
           c = (apply_game_provider_secrets (game_secrets cat) (apply_experiment_secrets
                 (secrets_after (experiment_secrets cat e) (sq_updates q) (sq_deletions q)) c0))\<lparr>cf_id := Some e\<rparr> in
       obind (validated srv c) (\<lambda>x.
       obind (map_err (\<lambda>x. BadRequest) (validate_game_config_contains_no_secrets (cf_game c))) (\<lambda>x.
       obind (ensure (as_game_ok srv (cf_game c)) BadRequest) (\<lambda>x.
       obind (map_err (\<lambda>x. Conflict) (save_experiment_configuration now e (sq_expected q) (persistable_config_json srv c)
         (sq_summary q) (sq_updates q) (sq_deletions q) cat)) (\<lambda>(cat', n). Ok (st\<lparr>am_catalogue := cat'\<rparr>, n, c)))))))))))"

section \<open>Catalogue, archive and secrets\<close>

definition admin_update_experiment_catalogue ::
    "string \<Rightarrow> bool \<Rightarrow> string option \<Rightarrow> admin_state \<Rightarrow> (app_error, admin_state) outcome" where
  "admin_update_experiment_catalogue e pinned notes st =
     obind (map_err (\<lambda>x. BadRequest) (update_experiment_catalogue e pinned notes (am_catalogue st))) (\<lambda>cat.
       Ok (st\<lparr>am_catalogue := cat\<rparr>))"

definition admin_archive_experiment :: "string \<Rightarrow> admin_state \<Rightarrow> (app_error, admin_state) outcome" where
  "admin_archive_experiment e st =
     obind (map_err (\<lambda>x. if x = ExperimentMissing then NotFound else Conflict) (archive_experiment e (am_catalogue st))) (\<lambda>cat.
       Ok (st\<lparr>am_catalogue := cat\<rparr>))"

definition admin_reveal_experiment_secret :: "string \<Rightarrow> string \<Rightarrow> admin_state \<Rightarrow> (app_error, string) outcome" where
  "admin_reveal_experiment_secret e k st =
     obind (map_err (\<lambda>x. BadRequest) (validate_secret_update k None)) (\<lambda>x.
     obind (ok_or (experiment_definition (am_catalogue st) e) NotFound) (\<lambda>row.
       ok_or (experiment_secrets (am_catalogue st) e k) NotFound))"

definition provider_keys :: "string list" where
  "provider_keys = [''speechmatics.api_key'', ''tts.api_key'', ''prolific.api_token'']"

definition validate_game_provider_secret :: "string \<Rightarrow> string option \<Rightarrow> (app_error, unit) outcome" where
  "validate_game_provider_secret k v =
     (if \<not> List.member provider_keys k then Err BadRequest
      else ensure (\<not> (\<exists>s \<in> set_option v. s = [] \<or> 65536 < length s)) BadRequest)"

definition admin_reveal_game_secret :: "string \<Rightarrow> admin_state \<Rightarrow> (app_error, string) outcome" where
  "admin_reveal_game_secret k st =
     obind (validate_game_provider_secret k None) (\<lambda>x. ok_or (game_secrets (am_catalogue st) k) NotFound)"

text \<open>Availability without values: provider keys with whether each is configured, and the names of game secrets.\<close>

definition configured_provider_secret_statuses :: "(string \<rightharpoonup> string) \<Rightarrow> (string \<times> bool) list" where
  "configured_provider_secret_statuses stored = map (\<lambda>k. (k, stored k \<noteq> None)) provider_keys"

definition configured_secret_statuses :: "(string \<times> string) list \<Rightarrow> string list" where
  "configured_secret_statuses stored = sort (filter (starts_with ''game.'') (map fst stored))"

section \<open>Game settings\<close>

record settings_request =
  gq_expected :: int
  gq_institution :: string
  gq_ranges :: "string list"
  gq_realtime :: "string option"
  gq_tts :: "string option"
  gq_prolific :: "string option"
  gq_updates :: "(string \<times> string) list"
  gq_deletions :: "string list"

definition unwrap_or :: "'v option \<Rightarrow> 'v \<Rightarrow> 'v" where
  "unwrap_or x d = (case x of Some v \<Rightarrow> v | None \<Rightarrow> d)"

definition admin_update_game_settings ::
    "'z admin_server_scheme \<Rightarrow> settings_request \<Rightarrow> admin_state \<Rightarrow> (app_error, admin_state \<times> int) outcome" where
  "admin_update_game_settings srv q st =
     (let ranges = filter (\<lambda>r. r \<noteq> []) (map trim_str (gq_ranges q));
          realtime = trim_str (unwrap_or (gq_realtime q) (es_speechmatics_url (am_settings st)));
          tts = trim_str (unwrap_or (gq_tts q) (es_tts_url (am_settings st)));
          prolific = trim_end_slashes (unwrap_or (gq_prolific q) (gs_prolific_url (am_settings st)));
          s = \<lparr>es_speechmatics_url = realtime, es_tts_url = tts, gs_institution = trim_str (gq_institution q),
               gs_ip_ranges = ranges, gs_prolific_url = prolific, gs_revision = 0\<rparr> in
      obind (ensure (list_all (as_ip_range srv) ranges) BadRequest) (\<lambda>x.
      obind (map_err (\<lambda>x. BadRequest) (validate_websocket_url (as_http srv) ''Speechmatics realtime URL'' realtime)) (\<lambda>x.
      obind (map_err (\<lambda>x. BadRequest) (validate_websocket_url (as_http srv) ''ElevenLabs base URL'' tts)) (\<lambda>x.
      obind (map_err (\<lambda>x. BadRequest) (validate_provider_http_url (as_http srv) ''Prolific API base URL'' prolific)) (\<lambda>x.
      obind (ofold (\<lambda>(k, v) u. validate_game_provider_secret k (Some v)) (gq_updates q) ()) (\<lambda>x.
      obind (ofold (\<lambda>k u. validate_game_provider_secret k None) (gq_deletions q) ()) (\<lambda>x.
      obind (map_err (\<lambda>x. Conflict) (update_game_settings trim_str (gq_expected q) s (gq_updates q) (gq_deletions q)
        (am_catalogue st))) (\<lambda>(cat, n). Ok (\<lparr>am_catalogue = cat, am_settings = s\<lparr>gs_revision := n\<rparr>\<rparr>, n)))))))))"

section \<open>The address of a run\<close>

datatype url_kind = DirectUrl | LocalUrl | ProlificUrl

definition running_participant_url ::
    "full_config \<Rightarrow> bool \<Rightarrow> string option \<Rightarrow> (app_error, url_kind) outcome" where
  "running_participant_url c testing requested =
     (if \<not> pc_enabled (cf_prolific c)
      then (if requested = Some ''prolific'' then Err BadRequest else Ok DirectUrl)
      else
        (let kind = unwrap_or requested (if testing then ''local'' else ''prolific'') in
         if kind = ''local'' \<and> testing then Ok LocalUrl
         else if kind = ''prolific'' then Ok ProlificUrl
         else Err BadRequest))"

end
