(* ===== verification/Runtime_Host.thy ===== *)
theory Runtime_Host
  imports Experiment_Admin Session_Ops Lifecycle Prolific_Study
begin

text \<open>
  The process that hosts the experiments of one game, \<open>rust-server/src/app/routing.rs\<close> and \<open>app.rs\<close>: the
  runtime of an experiment is built on the first request, kept in a cache, and left out of the cache when a
  change makes it stale; a runtime that was left out lives on while connections hold it. Building one ends
  the sessions an earlier process left open.

  A handler of a runtime runs on its own memory and the shared store. The construction of provider clients
  and the embedding application's options are one argument, and so is the table of participants.
\<close>

record 's hosted =
  ri_experiment :: string
  ri_config :: full_config
  ri_revision :: int
  ri_lifecycle :: experiment_lifecycle
  ri_participant_url :: "string option"
  ri_memory :: "'s memory"

record 's host =
  hs_admin :: admin_state
  hs_db :: db
  hs_instances :: "'s hosted list"
  hs_cache :: "(string \<times> nat) list"

text \<open>The kind and the identity provider of a participant.\<close>

type_synonym people = "int \<Rightarrow> string option \<times> string option"

record host_server = admin_server +
  hv_resources :: "full_config \<Rightarrow> bool"
  hv_people :: people

section \<open>Sessions of an earlier process\<close>

definition recent_sessions :: "db \<Rightarrow> string \<Rightarrow> int \<Rightarrow> session_row list" where
  "recent_sessions d e limit =
     take (nat (max 1 (min 10000 limit)))
       (sort_key (\<lambda>r. [- sr_created_at r, - sr_session r]) (filter (\<lambda>r. sr_experiment r = e) (db_sessions d)))"

definition session_participants :: "db \<Rightarrow> string \<Rightarrow> int \<Rightarrow> participant_row list" where
  "session_participants d e i = sort_key pr_role (sort_key pr_joined_at
     (filter (\<lambda>p. pr_experiment p = e \<and> pr_session p = i) (db_participants d)))"

definition interrupted_result :: "experiment_config \<Rightarrow> people \<Rightarrow> session_row \<Rightarrow> participant_row \<Rightarrow> participant_result" where
  "interrupted_result c who r p =
     \<lparr>res_outcome = OutcomeTechnicalFailure, res_reason = ''server_restart'', res_completion = None, res_observation = None,
      res_handoff = (if snd (who (pr_participant p)) = Some ''prolific''
        then prolific_handoff c OutcomeTechnicalFailure (sr_started_at r \<noteq> None) else None)\<rparr>"

definition interrupted_end :: "experiment_config \<Rightarrow> people \<Rightarrow> db \<Rightarrow> session_row \<Rightarrow> session_end" where
  "interrupted_end c who d r =
     \<lparr>end_cause = TechnicalFailure, end_completion = None,
      end_results = fold (\<lambda>p. AList.update (pr_role p) (interrupted_result c who r p))
        (filter (\<lambda>p. fst (who (pr_participant p)) \<noteq> Some ''agent'')
          (session_participants d (sr_experiment r) (sr_session r))) []\<rparr>"

definition interrupted_event :: "session_end \<Rightarrow> session_row \<Rightarrow> event_record" where
  "interrupted_event en r = \<lparr>ev_experiment = sr_experiment r, ev_session = sr_session r, ev_type = ''session_ended'',
     ev_actor = None, ev_actor_role = None, ev_payload = session_end_json en, ev_game_state = None\<rparr>"

definition finalize_session :: "experiment_config \<Rightarrow> people \<Rightarrow> int \<Rightarrow> session_row \<Rightarrow> db \<Rightarrow> (store_error, db) outcome" where
  "finalize_session c who now r d =
     (if sr_lifecycle r = ''ended'' then Ok d
      else
        let en = interrupted_end c who d r in
        obind (end_session d (interrupted_event en r) en now) (\<lambda>(d', x). Ok d'))"

definition finalize_interrupted_sessions ::
    "experiment_config \<Rightarrow> people \<Rightarrow> int \<Rightarrow> string \<Rightarrow> db \<Rightarrow> (store_error, db) outcome" where
  "finalize_interrupted_sessions c who now e d =
     ofold (finalize_session c who now) (recent_sessions d e 10000) d"

section \<open>Building and finding a runtime\<close>

definition distinct_definitions :: "'z admin_server_scheme \<Rightarrow> bool" where
  "distinct_definitions srv \<longleftrightarrow>
     list_all (\<lambda>d. is_ok (validate_definition (as_uri srv) (as_yaml srv) d)) (as_definitions srv) \<and>
     distinct (map def_id (as_definitions srv))"

definition in_catalogue :: "(catalogue \<Rightarrow> catalogue) \<Rightarrow> 's host \<Rightarrow> 's host" where
  "in_catalogue f h = h\<lparr>hs_admin := (hs_admin h)\<lparr>am_catalogue := f (am_catalogue (hs_admin h))\<rparr>\<rparr>"

abbreviation catalogue_of :: "'s host \<Rightarrow> catalogue" where
  "catalogue_of h \<equiv> am_catalogue (hs_admin h)"

text \<open>\<open>build_router_with_resources\<close> for a mounted experiment. The row is refreshed before the parts that can
  still fail.\<close>

definition build_runtime ::
    "'z host_server_scheme \<Rightarrow> int \<Rightarrow> full_config \<Rightarrow> string \<Rightarrow> 's host \<Rightarrow> 's host \<times> (app_error, 's hosted) outcome" where
  "build_runtime srv now c e h =
     (if validate_config (as_http srv) c \<noteq> Ok () \<or> validate_game_config_contains_no_secrets (cf_game c) \<noteq> Ok () \<or>
         \<not> as_game_ok srv (cf_game c) then (h, Err BadRequest)
      else
        (let (cat, status) = ensure_experiment now (catalogue_record srv e c None) (catalogue_of h);
             h1 = in_catalogue (\<lambda>x. cat) h in
         case obind (ok_or (experiment_definition cat e) Internal) (\<lambda>row.
              if \<not> hv_resources srv c \<or> \<not> distinct_definitions srv then Err Internal
              else
                obind (parse_lifecycle status) (\<lambda>l.
                obind (map_err (\<lambda>x. StoreFailed) (finalize_interrupted_sessions (view_of c) (hv_people srv) now e (hs_db h1)))
                  (\<lambda>d. Ok (d, \<lparr>ri_experiment = e, ri_config = c, ri_revision = ex_revision row, ri_lifecycle = l,
                              ri_participant_url = None,
                              ri_memory = \<lparr>mem_participants = [], mem_sessions = []\<rparr>\<rparr>)))) of
           Ok (d, i) \<Rightarrow> (h1\<lparr>hs_db := d\<rparr>, Ok i)
         | Err x \<Rightarrow> (h1, Err x)
         | Panic \<Rightarrow> (h1, Panic)))"

text \<open>The runtime of a request to \<open>/e/<experiment>\<close>: the cached one or a new one.\<close>

definition experiment_router ::
    "'z host_server_scheme \<Rightarrow> int \<Rightarrow> string \<Rightarrow> 's host \<Rightarrow> 's host \<times> (app_error, nat) outcome" where
  "experiment_router srv now e h =
     (case map_of (hs_cache h) e of
        Some n \<Rightarrow> (h, Ok n)
      | None \<Rightarrow>
          (case obind (hydrated_experiment_config srv (catalogue_of h) e) (\<lambda>c.
                obind (ensure (as_game_ok srv (cf_game c)) BadRequest) (\<lambda>x.
                obind (ensure (hv_resources srv c) Internal) (\<lambda>x. Ok c))) of
             Ok c \<Rightarrow>
               (case build_runtime srv now c e h of
                  (h1, Ok i) \<Rightarrow>
                    (h1\<lparr>hs_instances := hs_instances h1 @ [i], hs_cache := AList.update e (length (hs_instances h1)) (hs_cache h1)\<rparr>,
                     Ok (length (hs_instances h1)))
                | (h1, Err x) \<Rightarrow> (h1, Err x)
                | (h1, Panic) \<Rightarrow> (h1, Panic))
           | Err x \<Rightarrow> (h, Err x)
           | Panic \<Rightarrow> (h, Panic)))"

definition invalidate_runtime_router :: "string \<Rightarrow> 's host \<Rightarrow> 's host" where
  "invalidate_runtime_router e h = h\<lparr>hs_cache := AList.delete e (hs_cache h)\<rparr>"

text \<open>After a change of the game settings, the cached runtimes of inactive experiments.\<close>

definition invalidate_inactive_runtime_routers :: "'s host \<Rightarrow> 's host" where
  "invalidate_inactive_runtime_routers h =
     h\<lparr>hs_cache := filter (\<lambda>(e, n). map_option ex_status (experiment_definition (catalogue_of h) e) \<noteq> Some ''inactive'')
        (hs_cache h)\<rparr>"

text \<open>The start of a process: intake is closed, no runtime exists.\<close>

definition start_host :: "admin_state \<Rightarrow> db \<Rightarrow> 's host" where
  "start_host st d = \<lparr>hs_admin = st\<lparr>am_catalogue := fst (deactivate_open_experiments (am_catalogue st))\<rparr>, hs_db = d,
     hs_instances = [], hs_cache = []\<rparr>"

section \<open>Handlers that leave runtimes stale\<close>

definition host_save ::
    "'z host_server_scheme \<Rightarrow> int \<Rightarrow> string \<Rightarrow> save_request \<Rightarrow> 's host \<Rightarrow> 's host \<times> (app_error, int) outcome" where
  "host_save srv now e q h =
     (case admin_save_experiment_config srv now e q (hs_admin h) of
        Ok (st, n, c) \<Rightarrow> (invalidate_runtime_router e (h\<lparr>hs_admin := st\<rparr>), Ok n)
      | Err x \<Rightarrow> (h, Err x)
      | Panic \<Rightarrow> (h, Panic))"

definition host_archive :: "string \<Rightarrow> 's host \<Rightarrow> 's host \<times> (app_error, unit) outcome" where
  "host_archive e h =
     (case admin_archive_experiment e (hs_admin h) of
        Ok st \<Rightarrow> (invalidate_runtime_router e (h\<lparr>hs_admin := st\<rparr>), Ok ())
      | Err x \<Rightarrow> (h, Err x)
      | Panic \<Rightarrow> (h, Panic))"

definition host_settings :: "'z host_server_scheme \<Rightarrow> settings_request \<Rightarrow> 's host \<Rightarrow> 's host \<times> (app_error, int) outcome" where
  "host_settings srv q h =
     (case admin_update_game_settings srv q (hs_admin h) of
        Ok (st, n) \<Rightarrow> (invalidate_inactive_runtime_routers (h\<lparr>hs_admin := st\<rparr>), Ok n)
      | Err x \<Rightarrow> (h, Err x)
      | Panic \<Rightarrow> (h, Panic))"

section \<open>A change of status\<close>

text \<open>The handler runs on one runtime. Its checks read the store and ask Prolific before it takes the runtime's
  lifecycle for writing, so it is two phases here. \<open>connect\<close> and the two flags are those of
  \<open>experiment_activation_issues\<close>, whose cache is taken to hold no answer of the last 30 seconds.\<close>

record status_request =
  tq_status :: string
  tq_kind :: "string option"
  tq_verify :: bool

definition url_text :: "url_kind \<Rightarrow> string" where
  "url_text k = (case k of DirectUrl \<Rightarrow> ''direct'' | LocalUrl \<Rightarrow> ''local'' | ProlificUrl \<Rightarrow> ''prolific'')"

definition status_phase ::
    "'z host_server_scheme \<Rightarrow> (string \<Rightarrow> string \<Rightarrow> (string, prolific_api) outcome) \<Rightarrow> bool \<Rightarrow> bool \<Rightarrow> 's hosted
      \<Rightarrow> status_request \<Rightarrow> admin_state \<Rightarrow> (app_error, status_check) outcome" where
  "status_phase srv connect has_transcription has_tts i q st =
     obind (parse_lifecycle (tq_status q)) (\<lambda>l.
     obind (ok_or (experiment_definition (am_catalogue st) (ri_experiment i)) NotFound) (\<lambda>row.
     let v = tq_verify q \<or> tq_kind q = Some ''prolific'';
         chk = \<lparr>chk_version_matches = (ex_game_version row = as_version srv),
           chk_url = obind (running_participant_url (ri_config i) (l = Testing) (tq_kind q)) (\<lambda>k. Ok (url_text k)),
           chk_local_issues = [], chk_activation_issues = [], chk_verify_prolific = v\<rparr> in
     if \<not> allows_intake l then Ok chk
     else if ex_game_version row \<noteq> as_version srv then Err Conflict
     else
       obind (chk_url chk) (\<lambda>u.
       obind (hydrated_experiment_config srv (am_catalogue st) (ri_experiment i)) (\<lambda>c.
       let issues = (if l = Testing \<and> \<not> v
             then local_testing_issues_for_config (as_uri srv) (as_yaml srv) (as_definitions srv) has_transcription has_tts c
             else experiment_activation_issues (as_http srv) (as_uri srv) (as_yaml srv) (as_definitions srv)
                    has_transcription has_tts connect (gs_prolific_url (am_settings st)) c) in
       if issues \<noteq> [] then Err Conflict
       else Ok (chk\<lparr>chk_local_issues := issues, chk_activation_issues := issues\<rparr>)))))"

text \<open>The write, with the answer of the checks.\<close>

definition write_status :: "nat \<Rightarrow> status_request \<Rightarrow> status_check \<Rightarrow> 's host \<Rightarrow> 's host \<times> (app_error, string option) outcome" where
  "write_status n q chk h =
     (let i = hs_instances h ! n; e = ri_experiment i;
          col = (case experiment_definition (catalogue_of h) e of Some row \<Rightarrow> ex_status row | None \<Rightarrow> []) in
      case update_experiment_status chk False (tq_status q) (ri_lifecycle i, col) of
        Ok ((l, status), url) \<Rightarrow>
          let h1 = in_catalogue (set_status e status) h;
              h2 = h1\<lparr>hs_instances := (hs_instances h1)[n := i\<lparr>ri_lifecycle := l, ri_participant_url := url\<rparr>]\<rparr>
          in (if l = Inactive then invalidate_runtime_router e h2 else h2, Ok url)
      | Err x \<Rightarrow> (h, Err x)
      | Panic \<Rightarrow> (h, Panic))"

definition admin_update_experiment_status ::
    "'z host_server_scheme \<Rightarrow> (string \<Rightarrow> string \<Rightarrow> (string, prolific_api) outcome) \<Rightarrow> bool \<Rightarrow> bool \<Rightarrow> nat
      \<Rightarrow> status_request \<Rightarrow> 's host \<Rightarrow> 's host \<times> (app_error, string option) outcome" where
  "admin_update_experiment_status srv connect has_transcription has_tts n q h =
     (case status_phase srv connect has_transcription has_tts (hs_instances h ! n) q (hs_admin h) of
        Ok chk \<Rightarrow> write_status n q chk h
      | Err x \<Rightarrow> (h, Err x)
      | Panic \<Rightarrow> (h, Panic))"

section \<open>Handlers of a runtime\<close>

definition world_of :: "'s host \<Rightarrow> nat \<Rightarrow> 's world" where
  "world_of h n = \<lparr>w_memory = ri_memory (hs_instances h ! n), w_db = hs_db h\<rparr>"

definition on_runtime :: "nat \<Rightarrow> ('s world \<Rightarrow> 's world \<times> 'r) \<Rightarrow> 's host \<Rightarrow> 's host \<times> 'r" where
  "on_runtime n f h =
     (case f (world_of h n) of
        (w, x) \<Rightarrow>
          (h\<lparr>hs_db := w_db w,
             hs_instances := (hs_instances h)[n := (hs_instances h ! n)\<lparr>ri_memory := w_memory w\<rparr>]\<rparr>, x))"

end
