(* ===== verification/Host_Properties.thy ===== *)
theory Host_Properties
  imports Runtime_Host Session_Properties Config_Properties
begin

text \<open>
  What the construction of a runtime does to the sessions an earlier one left open, and what that means when
  the earlier runtime is still in use; and on which revision a change of status opens intake.
\<close>

section \<open>One interrupted session\<close>

definition closed_row :: "experiment_config \<Rightarrow> people \<Rightarrow> db \<Rightarrow> int \<Rightarrow> session_row \<Rightarrow> session_row" where
  "closed_row c who d now r =
     (if sr_lifecycle r = ''ended'' then r
      else r\<lparr>sr_lifecycle := ''ended'', sr_ended_at := Some now, sr_completion := None,
             sr_end := Some (interrupted_end c who d r)\<rparr>)"

lemma end_open:
  assumes d: "store_inv d" and r: "find_session d e i = Some r" "sr_lifecycle r \<noteq> ''ended''"
    and ev: "ev_experiment ev = e" "ev_session ev = i"
  obtains t where "end_session d ev en now =
      Ok (persist_terminal_value (add_event (event_of_record ev (last_event_index d e i + 1) t) d) e i en now, True)"
    "store_inv (persist_terminal_value (add_event (event_of_record ev (last_event_index d e i + 1) t) d) e i en now)"
proof -
  obtain t where t: "stored_game_time_ms d e i now = Ok t"
    using r(1) by (cases "sr_started_at r") (auto simp: stored_game_time_ms_def)
  have "store_inv (add_event (event_of_record ev (last_event_index d e i + 1) t) d)"
    by (rule add_event_inv [OF d]) (use r ev in simp_all)
  then show ?thesis
    using that [of t] r ev t by (simp add: end_session_def ok_or_def persist_terminal_inv)
qed

lemma participants_of_other:
  assumes "(e', i') \<noteq> (e, i)"
  shows "session_participants (fold (persist_result e i now) rs d) e' i' = session_participants d e' i'"
proof (induction rs arbitrary: d)
  case (Cons rr rs)
  have "session_participants (persist_result e i now rr d) e' i' = session_participants d e' i'"
  proof -
    have "filter (\<lambda>p. pr_experiment p = e' \<and> pr_session p = i')
        (map (\<lambda>r. if pr_experiment r = e \<and> pr_session r = i \<and> pr_role r = fst rr
           then r\<lparr>pr_terminal := Some (snd rr),
                  pr_left_at := (case pr_left_at r of None \<Rightarrow> Some now | Some t \<Rightarrow> Some t)\<rparr> else r) ps) =
        filter (\<lambda>p. pr_experiment p = e' \<and> pr_session p = i') ps" for ps
      by (induction ps) (use assms in auto)
    from this [of "db_participants d"] show ?thesis
      by (simp add: session_participants_def persist_result_def)
  qed
  then show ?case using Cons.IH by simp
qed simp

lemma participants_of_persist:
  "(e', i') \<noteq> (e, i) \<Longrightarrow> session_participants (persist_terminal_value (add_event ev d) e i en now) e' i' = session_participants d e' i'"
  unfolding persist_terminal_value_def
  by (simp add: participants_of_other) (simp add: session_participants_def update_sessions_def add_event_def)

lemma finalize_one:
  assumes d: "store_inv d" and r: "find_session d (sr_experiment r) (sr_session r) = Some r"
  obtains d' where "finalize_session c who now r d = Ok d'" "store_inv d'"
    "\<And>e i. find_session d' e i = map_option (\<lambda>x. if x = r then closed_row c who d now r else x) (find_session d e i)"
    "\<And>e i. (e, i) \<noteq> (sr_experiment r, sr_session r) \<Longrightarrow> session_participants d' e i = session_participants d e i"
proof (cases "sr_lifecycle r = ''ended''")
  case True
  have "map_option (\<lambda>x. if x = r then closed_row c who d now r else x) y = y" for y
    using True by (cases y) (simp_all add: closed_row_def)
  with True d that [of d] show ?thesis by (simp add: finalize_session_def)
next
  case False
  let ?en = "interrupted_end c who d r"
  have ev: "ev_experiment (interrupted_event ?en r) = sr_experiment r" "ev_session (interrupted_event ?en r) = sr_session r"
    by (simp_all add: interrupted_event_def)
  define after where "after t = persist_terminal_value
        (add_event (event_of_record (interrupted_event ?en r) (last_event_index d (sr_experiment r) (sr_session r) + 1) t) d)
        (sr_experiment r) (sr_session r) ?en now" for t
  obtain t where t: "end_session d (interrupted_event ?en r) ?en now = Ok (after t, True)" and inv: "store_inv (after t)"
    unfolding after_def by (rule end_open [OF d r False ev])
  let ?d = "after t"
  have "find_session ?d e i = map_option (\<lambda>x. if x = r then closed_row c who d now r else x) (find_session d e i)" for e i
  proof (cases "find_session d e i")
    case (Some x)
    have "session_key (sr_experiment r) (sr_session r) x \<longleftrightarrow> x = r"
      using find_session_member [OF Some] Some r by (metis option.inject session_key_def)
    then show ?thesis using Some False by (auto simp: after_def find_persist_terminal closed_row_def interrupted_end_def)
  qed (simp add: after_def find_persist_terminal)
  moreover have "finalize_session c who now r d = Ok ?d" using False t by (simp add: finalize_session_def Let_def)
  ultimately show ?thesis using that [of ?d] inv participants_of_persist unfolding after_def by blast
qed

section \<open>All of them\<close>

lemma closed_row_key [simp]:
  "sr_experiment (closed_row c who d now r) = sr_experiment r" "sr_session (closed_row c who d now r) = sr_session r"
  by (simp_all add: closed_row_def)

lemma closed_row_participants:
  "session_participants d' (sr_experiment r) (sr_session r) = session_participants d (sr_experiment r) (sr_session r) \<Longrightarrow>
     closed_row c who d' now r = closed_row c who d now r"
  by (simp add: closed_row_def interrupted_end_def)

lemma finalize_rows:
  assumes "store_inv d" "distinct rows" "\<forall>r \<in> set rows. find_session d (sr_experiment r) (sr_session r) = Some r"
  obtains d' where "ofold (finalize_session c who now) rows d = Ok d'" "store_inv d'"
    "\<And>e i. find_session d' e i = map_option (\<lambda>x. if x \<in> set rows then closed_row c who d now x else x) (find_session d e i)"
  using assms
proof (induction rows arbitrary: d thesis)
  case Nil
  show ?case by (rule Nil.prems(1) [of d]) (use Nil.prems in \<open>simp_all add: option.map_ident\<close>)
next
  case (Cons r rows)
  have r: "find_session d (sr_experiment r) (sr_session r) = Some r" using Cons.prems(4) by simp
  obtain d1 where d1: "finalize_session c who now r d = Ok d1" "store_inv d1"
    "\<And>e i. find_session d1 e i = map_option (\<lambda>x. if x = r then closed_row c who d now r else x) (find_session d e i)"
    "\<And>e i. (e, i) \<noteq> (sr_experiment r, sr_session r) \<Longrightarrow> session_participants d1 e i = session_participants d e i"
    by (rule finalize_one [OF Cons.prems(2) r, of c who now]) blast
  have fresh: "x \<noteq> r" if "x \<in> set rows" for x
    using that Cons.prems(3) by auto
  have other: "(sr_experiment x, sr_session x) \<noteq> (sr_experiment r, sr_session r)" if "x \<in> set rows" for x
    using fresh [OF that] that Cons.prems(4) r by (metis list.set_intros(2) option.inject prod.inject)
  have rest: "\<forall>x \<in> set rows. find_session d1 (sr_experiment x) (sr_session x) = Some x"
    using Cons.prems(4) fresh by (simp add: d1(3))
  have same: "closed_row c who d1 now x = closed_row c who d now x" if "x \<in> set rows" for x
    by (rule closed_row_participants [OF d1(4) [OF other [OF that]]])
  obtain d' where d': "ofold (finalize_session c who now) rows d1 = Ok d'" "store_inv d'"
    "\<And>e i. find_session d' e i = map_option (\<lambda>x. if x \<in> set rows then closed_row c who d1 now x else x) (find_session d1 e i)"
    by (rule Cons.IH [OF _ d1(2) _ rest]) (use Cons.prems(3) in auto)
  show ?case
  proof (rule Cons.prems(1) [of d'])
    fix e i
    show "find_session d' e i = map_option (\<lambda>x. if x \<in> set (r # rows) then closed_row c who d now x else x) (find_session d e i)"
    proof (cases "find_session d e i")
      case (Some x)
      have "closed_row c who d now r \<notin> set rows"
        using other by fastforce
      then show ?thesis using Some same Cons.prems(3) by (auto simp: d'(3) d1(3))
    qed (simp add: d'(3) d1(3))
  qed (use d1(1) d'(1,2) in simp_all)
qed

lemma recent_newest:
  assumes "r \<in> set (recent_sessions d e n)" "x \<in> set (db_sessions d)" "sr_experiment x = e" "x \<notin> set (recent_sessions d e n)"
  shows "sr_created_at x \<le> sr_created_at r"
proof -
  define key where "key r = [- sr_created_at r, - sr_session r]" for r :: session_row
  define ys where "ys = sort_key key (filter (\<lambda>r. sr_experiment r = e) (db_sessions d))"
  define k where "k = nat (max 1 (min 10000 n))"
  have recent: "recent_sessions d e n = take k ys" by (simp add: recent_sessions_def ys_def k_def key_def [abs_def])
  have "x \<in> set ys" using assms(2,3) by (simp add: ys_def)
  then have "x \<in> set (drop k ys)"
    using assms(4) set_append [of "take k ys" "drop k ys"] unfolding recent append_take_drop_id by blast
  moreover have "sorted (map key (take k ys) @ map key (drop k ys))"
    unfolding map_append [symmetric] append_take_drop_id by (simp add: ys_def)
  ultimately have "key r \<le> key x" using assms(1) by (auto simp: recent sorted_append)
  then show ?thesis by (auto simp: key_def)
qed

lemma recent_all:
  assumes "length (filter (\<lambda>r. sr_experiment r = e) (db_sessions d)) \<le> 10000"
  shows "set (recent_sessions d e 10000) = {r \<in> set (db_sessions d). sr_experiment r = e}"
  using assms by (simp add: recent_sessions_def)

lemma recent_distinct: "store_inv d \<Longrightarrow> distinct (recent_sessions d e n)"
  by (auto simp: recent_sessions_def store_inv_def distinct_map intro!: distinct_take distinct_filter)

lemma recent_found: "store_inv d \<Longrightarrow> r \<in> set (recent_sessions d e n) \<Longrightarrow> find_session d (sr_experiment r) (sr_session r) = Some r"
  by (rule key_unique) (auto simp: recent_sessions_def session_key_def dest: in_set_takeD)

lemma recent_experiment: "r \<in> set (recent_sessions d e n) \<Longrightarrow> sr_experiment r = e"
  by (auto simp: recent_sessions_def dest: in_set_takeD)

lemma finalize_all:
  assumes d: "store_inv d"
  obtains d' where "finalize_interrupted_sessions c who now e d = Ok d'" "store_inv d'"
    "\<And>e' i. find_session d' e' i =
       map_option (\<lambda>x. if x \<in> set (recent_sessions d e 10000) then closed_row c who d now x else x) (find_session d e' i)"
  by (rule finalize_rows [OF d recent_distinct [OF d], of e 10000 c who now])
    (use recent_found [OF d] that in \<open>auto simp: finalize_interrupted_sessions_def\<close>)

lemma results_of_fold:
  "p \<in> set ps \<or> (\<exists>t. map_of rs (f p) = Some t \<and> P t) \<Longrightarrow> (\<And>q. P (g q)) \<Longrightarrow>
     \<exists>t. map_of (fold (\<lambda>q. AList.update (f q) (g q)) ps rs) (f p) = Some t \<and> P t"
proof (induction ps arbitrary: rs)
  case (Cons q ps)
  have "p \<in> set ps \<or> (\<exists>t. map_of (AList.update (f q) (g q) rs) (f p) = Some t \<and> P t)"
    using Cons.prems by (auto simp: update_conv)
  from Cons.IH [OF this Cons.prems(2)] show ?case by simp
qed simp

lemma interrupted_results:
  assumes "p \<in> set (session_participants d (sr_experiment r) (sr_session r))" "fst (who (pr_participant p)) \<noteq> Some ''agent''"
  shows "\<exists>t. map_of (end_results (interrupted_end c who d r)) (pr_role p) = Some t \<and>
    res_outcome t = OutcomeTechnicalFailure \<and> res_reason t = ''server_restart''"
  unfolding interrupted_end_def
  by (simp, rule results_of_fold) (use assms in \<open>simp_all add: interrupted_result_def\<close>)

text \<open>C20 (functional). Building a runtime ends what an earlier process left open among the newest 10000
  sessions of the experiment. It never fails on a consistent database; each of those sessions that was open is
  then ended, as a technical failure with a result for each human participant. Every other row stays
  as it was: the sessions that had ended, the other experiments, and the sessions of the experiment that are
  older than the newest 10000, even open ones. Up to 10000 sessions the newest 10000 are all of them.\<close>

theorem interrupted_sessions_are_closed:
  assumes "store_inv d"
  shows "\<exists>d'. finalize_interrupted_sessions c who now e d = Ok d' \<and> store_inv d' \<and>
    (\<forall>e' i. find_session d e' i = None \<longrightarrow> find_session d' e' i = None) \<and>
    (\<forall>e' i r. find_session d e' i = Some r \<and> (r \<notin> set (recent_sessions d e 10000) \<or> sr_lifecycle r = ''ended'') \<longrightarrow>
       find_session d' e' i = Some r) \<and>
    (\<forall>r \<in> set (recent_sessions d e 10000). \<forall>x \<in> set (db_sessions d).
       sr_experiment x = e \<and> x \<notin> set (recent_sessions d e 10000) \<longrightarrow> sr_created_at x \<le> sr_created_at r) \<and>
    (length (filter (\<lambda>r. sr_experiment r = e) (db_sessions d)) \<le> 10000 \<longrightarrow>
       set (recent_sessions d e 10000) = {r \<in> set (db_sessions d). sr_experiment r = e}) \<and>
    (\<forall>i r. find_session d e i = Some r \<and> r \<in> set (recent_sessions d e 10000) \<and> sr_lifecycle r \<noteq> ''ended'' \<longrightarrow>
       (\<exists>r' en. find_session d' e i = Some r' \<and> sr_lifecycle r' = ''ended'' \<and> sr_end r' = Some en \<and>
          end_cause en = TechnicalFailure \<and>
          (\<forall>p \<in> set (session_participants d e i). fst (who (pr_participant p)) \<noteq> Some ''agent'' \<longrightarrow>
             (\<exists>t. map_of (end_results en) (pr_role p) = Some t \<and> res_outcome t = OutcomeTechnicalFailure))))"
proof -
  obtain d' where d': "finalize_interrupted_sessions c who now e d = Ok d'" "store_inv d'"
    "\<And>e' i. find_session d' e' i =
       map_option (\<lambda>x. if x \<in> set (recent_sessions d e 10000) then closed_row c who d now x else x) (find_session d e' i)"
    by (rule finalize_all [OF assms, of c who now e]) blast
  have "\<exists>r' en. find_session d' e i = Some r' \<and> sr_lifecycle r' = ''ended'' \<and> sr_end r' = Some en \<and>
      end_cause en = TechnicalFailure \<and>
      (\<forall>p \<in> set (session_participants d e i). fst (who (pr_participant p)) \<noteq> Some ''agent'' \<longrightarrow>
         (\<exists>t. map_of (end_results en) (pr_role p) = Some t \<and> res_outcome t = OutcomeTechnicalFailure))"
    if r: "find_session d e i = Some r" "r \<in> set (recent_sessions d e 10000)" "sr_lifecycle r \<noteq> ''ended''" for i r
  proof -
    have k: "sr_experiment r = e" "sr_session r = i" using find_session_member [OF r(1)] by auto
    have "end_cause (interrupted_end c who d r) = TechnicalFailure" by (simp add: interrupted_end_def)
    moreover have "find_session d' e i = Some (closed_row c who d now r)" "sr_lifecycle (closed_row c who d now r) = ''ended''"
      "sr_end (closed_row c who d now r) = Some (interrupted_end c who d r)"
      using r d'(3) by (simp_all add: closed_row_def)
    ultimately show ?thesis using interrupted_results [of _ d r who c] k by blast
  qed
  moreover have "find_session d' e' i = Some r"
    if "find_session d e' i = Some r" "r \<notin> set (recent_sessions d e 10000) \<or> sr_lifecycle r = ''ended''" for e' i r
    using that d'(3) by (auto simp: closed_row_def)
  moreover have "find_session d' e' i = None" if "find_session d e' i = None" for e' i
    using that d'(3) by simp
  ultimately show ?thesis using d'(1,2) recent_newest [of _ d e 10000] recent_all [of e d] by blast
qed

section \<open>A runtime that is still in use\<close>

lemma build_runtime_Ok:
  assumes "build_runtime srv now c e h = (h1, Ok i)"
  shows "finalize_interrupted_sessions (view_of c) (hv_people srv) now e (hs_db h) = Ok (hs_db h1)"
    and "hs_instances h1 = hs_instances h" "hs_cache h1 = hs_cache h"
  using assms
  by (auto simp: build_runtime_def Let_def in_catalogue_def split: prod.splits outcome.splits if_splits)

lemma experiment_router_new:
  assumes "experiment_router srv now e h = (h1, Ok m)" "map_of (hs_cache h) e = None"
  obtains c i where "hydrated_experiment_config srv (catalogue_of h) e = Ok c" "m = length (hs_instances h)"
    "hs_instances h1 = hs_instances h @ [i]"
    "finalize_interrupted_sessions (view_of c) (hv_people srv) now e (hs_db h) = Ok (hs_db h1)"
  using assms build_runtime_Ok
  by (fastforce simp: experiment_router_def split: outcome.splits prod.splits)

lemma write_inactive:
  assumes "write_status n q chk h = (h1, Ok url)" "tq_status q = ''inactive''"
  shows "map_of (hs_cache h1) (ri_experiment (hs_instances h ! n)) = None" "hs_db h1 = hs_db h"
    "hs_instances h1 = (hs_instances h)[n := (hs_instances h ! n)\<lparr>ri_lifecycle := Inactive, ri_participant_url := url\<rparr>]"
proof -
  obtain l status where u: "update_experiment_status chk False (tq_status q) (ri_lifecycle (hs_instances h ! n),
      case experiment_definition (catalogue_of h) (ri_experiment (hs_instances h ! n)) of Some row \<Rightarrow> ex_status row | None \<Rightarrow> []) =
      Ok ((l, status), url)"
    and h1: "h1 = (let h2 = (in_catalogue (Experiment_Catalogue.set_status (ri_experiment (hs_instances h ! n)) status) h)
        \<lparr>hs_instances := (hs_instances h)[n := (hs_instances h ! n)\<lparr>ri_lifecycle := l, ri_participant_url := url\<rparr>]\<rparr>
       in if l = Inactive then invalidate_runtime_router (ri_experiment (hs_instances h ! n)) h2 else h2)"
    using assms(1) by (auto simp: write_status_def Let_def in_catalogue_def split: outcome.splits prod.splits)
  have "l = Inactive"
    using update_status_ok [OF u] assms(2) by (cases l) simp_all
  then show "map_of (hs_cache h1) (ri_experiment (hs_instances h ! n)) = None" "hs_db h1 = hs_db h"
    "hs_instances h1 = (hs_instances h)[n := (hs_instances h ! n)\<lparr>ri_lifecycle := Inactive, ri_participant_url := url\<rparr>]"
    by (simp_all add: h1 Let_def invalidate_runtime_router_def in_catalogue_def delete_conv)
qed

lemma touch_ended:
  assumes "store_inv d" "find_session d e i = Some r" "sr_lifecycle r = ''ended''"
  shows "touch_session d e i t idle = d"
proof -
  have "\<not> (session_key e i x \<and> sr_lifecycle x = ''running'')" if "x \<in> set (db_sessions d)" for x
    using key_unique [OF assms(1) that] assms(2,3) by auto
  then have "map (\<lambda>x. if session_key e i x \<and> sr_lifecycle x = ''running'' then f x else x) (db_sessions d) = db_sessions d" for f
    by (intro map_idI) auto
  then show ?thesis by (simp add: touch_session_def update_sessions_def)
qed

lemma commit_ended:
  assumes "commit_session_transition d evs ending now = Ok (d', b)" "evs \<noteq> []"
    "\<forall>ev \<in> set evs. ev_experiment ev = e \<and> ev_session ev = i" "find_session d e i = Some r" "sr_lifecycle r = ''ended''"
  shows "d' = d"
  using assms(1)
proof (cases rule: commit_cases)
  case (committed e' i' t r')
  obtain ev where "ev \<in> set evs" using assms(2) by (cases evs) auto
  then show ?thesis using committed(3,5,6) assms(3-5) by auto
qed simp

lemma submit_ended:
  assumes w: "store_inv (w_db w)" and s: "session_in w sid = Some s" "ls_id s = sid"
    and r: "find_session (w_db w) (ls_experiment s) (ls_session s) = Some r" "sr_lifecycle r = ''ended''"
  shows "w_db (fst (submit_action rt io now pair sid pid role a w)) = w_db w"
proof -
  have kept: "w_db (fst (submit_action rt io now pair sid pid role a w)) = w_db w"
    if "decide_action rt s role a = Ok after" "action_records rt (w_memory w) s pid role a after = Ok (evs, ending)"
      "commit_session_transition (w_db w) evs ending now = Ok (d, b)" "\<not> io CallCommit" for after evs ending d b
  proof -
    have "get_session (w_memory w) (ls_id s) = Some s" using s by simp
    from action_records_Ok(1,2) [OF that(2) this]
    have "d = w_db w" by (rule commit_ended [OF that(3) _ _ r])
    then show ?thesis
      using that s touch_ended [OF w r]
      by (cases ending) (simp_all add: submit_action_def ok_or_def Let_def touch_session_activity_def apply_transition_def in_db_def)
  qed
  show ?thesis
  proof (cases "snd (submit_action rt io now pair sid pid role a w)")
    case (Ok x)
    then show ?thesis
      using kept s
      by (auto simp: submit_action_def ok_or_def split: outcome.splits prod.splits)
  qed (use s in \<open>auto simp: submit_action_def ok_or_def Let_def split: outcome.splits prod.splits option.splits\<close>)
qed

lemma on_runtime_db: "hs_db (fst (on_runtime n f h)) = w_db (fst (f (world_of h n)))"
  by (simp add: on_runtime_def split_beta)

text \<open>C9 (safety). Deactivation ends running sessions although it is documented to let them finish. A session
  that is among the newest 10000 of its experiment runs in a runtime, the administrator sets the experiment to
  inactive, and any later request to it builds a new runtime: the store then holds a technical failure for
  the session, while the old runtime, which the participants' sockets still use, goes on with it and
  stores none of the actions they take in it.\<close>

theorem deactivation_ends_running_sessions:
  assumes "n < length (hs_instances h)" "ri_experiment (hs_instances h ! n) = rt_experiment rt"
    and "world_inv rt ginv (world_of h n)" "session_in (world_of h n) sid = Some s" "ls_lifecycle s = Running"
    and "\<exists>r \<in> set (recent_sessions (hs_db h) (rt_experiment rt) 10000). sr_session r = ls_session s"
    and "admin_update_experiment_status srv connect has_transcription has_tts n q h = (h1, Ok url)" "tq_status q = ''inactive''"
    and "experiment_router srv now (rt_experiment rt) h1 = (h2, Ok m)"
  shows "m \<noteq> n \<and> session_in (world_of h2 n) sid = Some s \<and>
    (\<exists>r en. find_session (hs_db h2) (rt_experiment rt) (ls_session s) = Some r \<and> sr_lifecycle r = ''ended'' \<and>
       sr_end r = Some en \<and> end_cause en = TechnicalFailure) \<and>
    hs_db (fst (on_runtime n (submit_action rt io t pair sid pid role a) h2)) = hs_db h2"
proof -
  have inv: "store_inv (hs_db h)" and si: "session_inv rt ginv (mem_participants (w_memory (world_of h n))) (hs_db h) sid s"
    using assms(3) world_invD [OF assms(3,4)] by (simp_all add: world_inv_def world_of_def)
  obtain r where r: "find_session (hs_db h) (rt_experiment rt) (ls_session s) = Some r" "sr_lifecycle r = ''running''"
    and s: "ls_id s = sid" "ls_experiment s = rt_experiment rt"
    using si assms(5) by (auto simp: session_inv_def session_wf_def agrees_def)
  obtain chk where "write_status n q chk h = (h1, Ok url)"
    using assms(7) by (auto simp: admin_update_experiment_status_def split: outcome.splits)
  from write_inactive [OF this assms(8)] have h1: "map_of (hs_cache h1) (rt_experiment rt) = None" "hs_db h1 = hs_db h"
    "hs_instances h1 = (hs_instances h)[n := (hs_instances h ! n)\<lparr>ri_lifecycle := Inactive, ri_participant_url := url\<rparr>]"
    by (simp_all add: assms(2))
  obtain c i where h2: "m = length (hs_instances h1)" "hs_instances h2 = hs_instances h1 @ [i]"
    "finalize_interrupted_sessions (view_of c) (hv_people srv) now (rt_experiment rt) (hs_db h) = Ok (hs_db h2)"
    by (rule experiment_router_new [OF assms(9) h1(1)]) (simp add: h1(2))
  obtain d' where d': "finalize_interrupted_sessions (view_of c) (hv_people srv) now (rt_experiment rt) (hs_db h) = Ok d'"
    "store_inv d'" "\<And>e' i. find_session d' e' i = map_option (\<lambda>x. if x \<in> set (recent_sessions (hs_db h) (rt_experiment rt) 10000)
       then closed_row (view_of c) (hv_people srv) (hs_db h) now x else x) (find_session (hs_db h) e' i)"
    by (rule finalize_all [OF inv]) blast
  have recent: "r \<in> set (recent_sessions (hs_db h) (rt_experiment rt) 10000)"
    using assms(6) recent_found [OF inv] r(1) recent_experiment by (metis option.inject)
  have w: "world_of h2 n = (world_of h n)\<lparr>w_db := d'\<rparr>" "d' = hs_db h2"
    using assms(1) h1(3) h2 d'(1) by (simp_all add: world_of_def nth_append)
  have ended: "find_session d' (rt_experiment rt) (ls_session s) = Some (closed_row (view_of c) (hv_people srv) (hs_db h) now r)"
    "sr_lifecycle (closed_row (view_of c) (hv_people srv) (hs_db h) now r) = ''ended''"
    "sr_end (closed_row (view_of c) (hv_people srv) (hs_db h) now r) = Some (interrupted_end (view_of c) (hv_people srv) (hs_db h) r)"
    using r recent d'(3) by (simp_all add: closed_row_def)
  have live: "session_in (world_of h2 n) sid = Some s" using assms(4) w by simp
  have "w_db (fst (submit_action rt io t pair sid pid role a (world_of h2 n))) = w_db (world_of h2 n)"
    by (rule submit_ended [OF _ live s(1)]) (use w d'(2) ended s(2) in simp_all)
  then have "hs_db (fst (on_runtime n (submit_action rt io t pair sid pid role a) h2)) = hs_db h2"
    using w by (simp add: on_runtime_db)
  moreover have "m \<noteq> n" using assms(1) h1(3) h2(1) by simp
  moreover have "end_cause (interrupted_end (view_of c) (hv_people srv) (hs_db h) r) = TechnicalFailure"
    by (simp add: interrupted_end_def)
  ultimately show ?thesis using live ended w(2) by blast
qed

section \<open>Instances\<close>

text \<open>A server that stores one configuration, and the runtime of \<open>playing_state\<close> mounted on it.\<close>

definition host_http :: http_parser where
  "host_http v = demo_http ''http://localhost:8000''"

definition host_config :: full_config where
  "host_config = Config_Properties.demo_config"

definition demo_server :: host_server where
  "demo_server = \<lparr>as_http = host_http, as_uri = (\<lambda>u. None), as_yaml = (\<lambda>y. None), as_encode = (\<lambda>c. JObj []),
     as_decode = (\<lambda>v. Some (stored_of host_config)), as_game_ok = (\<lambda>g. True), as_ip_range = (\<lambda>r. True),
     as_bootstrap = host_config, as_definitions = [], as_version = ''1'', as_server_version = ''1'', as_manifest = JNull,
     hv_resources = (\<lambda>c. True), hv_people = (\<lambda>p. (None, None))\<rparr>"

definition demo_experiment :: experiment_row where
  "demo_experiment = \<lparr>ex_id = ''e'', ex_created = 0, ex_game_version = ''1'', ex_config = JObj [], ex_revision = 1,
     ex_server_version = None, ex_manifest = None, ex_status = ''active'', ex_notes = None, ex_pinned = False\<rparr>"

definition demo_admin :: admin_state where
  "demo_admin = \<lparr>am_catalogue = \<lparr>ca_experiments = [demo_experiment], ca_revisions = [], ca_secrets = [],
     ca_settings = default_game_settings, ca_game_secrets = []\<rparr>, am_settings = default_game_settings\<rparr>"

definition demo_host :: "cue_choice_state host" where
  "demo_host = \<lparr>hs_admin = demo_admin, hs_db = w_db (it_world playing_state),
     hs_instances = [\<lparr>ri_experiment = ''e'', ri_config = host_config, ri_revision = 1, ri_lifecycle = LifeActive,
       ri_participant_url = Some ''direct'',
       ri_memory = w_memory (it_world playing_state)\<rparr>], hs_cache = [(''e'', 0)]\<rparr>"

lemma host_config_accepted: "validate_config host_http host_config = Ok ()"
proof -
  have d: "cf_id default_config = None" "cf_server default_config = default_server" "cf_contract default_config = ''2''"
    "cf_direct default_config = default_direct"
    "cf_agents default_config = \<lparr>ag_mode = HumanVsHuman, ag_human_vs_agent = None\<rparr>"
    by (simp_all add: default_config_def)
  have "speech_ok host_http default_config"
    by (simp add: speech_ok_def default_config_def default_voice_def default_tts_def default_transcription_def Let_def)
  moreover have "http_url host_http u" for u using demo_parts(6) by (simp add: http_url_def host_http_def)
  ultimately show ?thesis
    by (simp add: validate_config_iff config_ok_def demo_parts d host_config_def Config_Properties.demo_config_def default_server_def
        default_direct_def agents_ok_def)
qed

lemma accepted_with_secrets:
  "validate_config http (apply_game_provider_secrets gs (apply_experiment_secrets es c)) = Ok () \<longleftrightarrow> validate_config http c = Ok ()"
proof -
  let ?c = "apply_game_provider_secrets gs (apply_experiment_secrets es c)"
  have "agents_ok ?c = agents_ok c"
    by (simp add: agents_ok_def apply_game_provider_secrets_def apply_experiment_secrets_def Let_def split: option.split)
  then show ?thesis
    by (simp add: validate_config_iff config_ok_def limits_ok_def speech_ok_def apply_game_provider_secrets_def
        apply_experiment_secrets_def Let_def)
qed

lemma demo_hydrated:
  assumes "experiment_definition cat ''e'' = Some row" "ex_config row = JObj []"
  shows "\<exists>c. hydrated_experiment_config demo_server cat ''e'' = Ok c \<and> validate_config host_http c = Ok () \<and> cf_game c = cf_game host_config"
proof -
  have "validate_new_experiment_id ''e'' = Ok ()" by code_simp
  moreover have "validate_http_url host_http ''url'' u = Ok ()" for u
    using demo_parts(6) by (simp add: validate_http_url_iff http_url_def host_http_def)
  ultimately have ok: "validate_config host_http (into_runtime (stored_of host_config) host_config ''e''
      (experiment_public_base_url (sv_public_url (cf_server host_config)) ''e'')) = Ok ()"
    using stored_configuration_returns [OF host_config_accepted host_config_accepted] by blast
  have g: "cf_game (apply_game_provider_secrets gs (apply_experiment_secrets es c)) = cf_game c" for gs es c
    by (simp add: apply_game_provider_secrets_def apply_experiment_secrets_def Let_def)
  have i: "cf_game (into_runtime (stored_of c) b e u) = cf_game c" for c b e u
    by (simp add: into_runtime_def stored_of_def)
  show ?thesis
    using assms ok
    by (simp add: i hydrated_experiment_config_def experiment_config_from_json_def experiment_config_from_json_unvalidated_def
        validated_def demo_server_def ok_or_def accepted_with_secrets g stored_parts)
qed

lemma ensure_existing:
  assumes "experiment_definition c (xr_id x) = Some r"
  obtains c' r' where "ensure_experiment now x c = (c', ex_status r)" "experiment_definition c' (xr_id x) = Some r'"
proof -
  have "experiment_definition (c1\<lparr>ca_revisions := rs\<rparr>) e = experiment_definition c1 e" for c1 rs e
    by (simp add: experiment_definition_def)
  moreover have "\<exists>r'. experiment_definition (update_experiments (\<lambda>r. ex_id r = xr_id x)
      (\<lambda>r. r\<lparr>ex_server_version := xr_server_version x, ex_manifest := xr_manifest x\<rparr>) c) (xr_id x) = Some r'"
    using assms by (simp add: experiment_definition_def update_experiments_def find_map_keep)
  ultimately show ?thesis
    using that [of "fst (ensure_experiment now x c)"] assms by (auto simp: ensure_experiment_def Let_def)
qed

lemma demo_builds:
  assumes "store_inv (hs_db h)"
    and "experiment_definition (catalogue_of h) ''e'' = Some row" "ex_config row = JObj []" "ex_status row = ''inactive''"
    and "map_of (hs_cache h) ''e'' = None"
  shows "\<exists>h' m. experiment_router demo_server now ''e'' h = (h', Ok m)"
proof -
  obtain c where c: "hydrated_experiment_config demo_server (catalogue_of h) ''e'' = Ok c" "validate_config host_http c = Ok ()"
    "cf_game c = cf_game host_config"
    using demo_hydrated [OF assms(2,3)] by blast
  have safe: "validate_game_config_contains_no_secrets (cf_game host_config) = Ok ()" by code_simp
  obtain d' where d': "finalize_interrupted_sessions (view_of c) (\<lambda>p. (None, None)) now ''e'' (hs_db h) = Ok d'"
    by (rule finalize_all [OF assms(1)])
  let ?x = "catalogue_record demo_server ''e'' c None"
  have id: "xr_id ?x = ''e''" by (simp add: catalogue_record_def)
  have row: "experiment_definition (catalogue_of h) (xr_id ?x) = Some row" unfolding id by (rule assms(2))
  obtain cat r where e: "ensure_experiment now ?x (catalogue_of h) = (cat, ex_status row)" "experiment_definition cat (xr_id ?x) = Some r"
    by (rule ensure_existing [OF row, of now])
  have srv: "as_http demo_server = host_http" "as_game_ok demo_server = (\<lambda>g. True)" "hv_resources demo_server = (\<lambda>c. True)"
    "hv_people demo_server = (\<lambda>p. (None, None))" "distinct_definitions demo_server"
    by (simp_all add: demo_server_def distinct_definitions_def)
  have "\<exists>h' i. build_runtime demo_server now c ''e'' h = (h', Ok i)"
    unfolding build_runtime_def e(1) Let_def
    using c(2,3) safe d' assms(4) e(2) unfolding id by (simp add: srv ok_or_def in_catalogue_def)
  then show ?thesis
    using c(1) assms(5) by (auto simp: experiment_router_def srv ensure_def split: outcome.splits prod.splits)
qed

definition pause_request :: status_request where
  "pause_request = \<lparr>tq_status = ''inactive'', tq_kind = None, tq_verify = False\<rparr>"

definition paused_host :: "cue_choice_state host" where
  "paused_host = demo_host\<lparr>
     hs_admin := demo_admin\<lparr>am_catalogue := (am_catalogue demo_admin)\<lparr>ca_experiments := [demo_experiment\<lparr>ex_status := ''inactive''\<rparr>]\<rparr>\<rparr>,
     hs_instances := [(hs_instances demo_host ! 0)\<lparr>ri_lifecycle := Inactive, ri_participant_url := None\<rparr>], hs_cache := []\<rparr>"

lemma pausing:
  "admin_update_experiment_status demo_server (\<lambda>t u. Err []) False False 0 pause_request demo_host = (paused_host, Ok None)"
proof -
  have "status_phase demo_server (\<lambda>t u. Err []) False False (hs_instances demo_host ! 0) pause_request (hs_admin demo_host) =
      Ok \<lparr>chk_version_matches = True, chk_url = Ok ''direct'', chk_local_issues = [], chk_activation_issues = [], chk_verify_prolific = False\<rparr>"
    by (simp add: status_phase_def demo_host_def pause_request_def demo_admin_def experiment_definition_def demo_experiment_def
        ok_or_def demo_server_def Let_def running_participant_url_def url_text_def host_config_def Config_Properties.demo_config_def
        default_config_def default_prolific_def)
  then show ?thesis
    by (simp add: admin_update_experiment_status_def write_status_def update_experiment_status_def pause_request_def demo_host_def
        paused_host_def demo_admin_def experiment_definition_def demo_experiment_def Let_def in_catalogue_def
        invalidate_runtime_router_def Experiment_Catalogue.set_status_def update_experiments_def)
qed

lemma demo_world [simp]: "world_of demo_host 0 = it_world playing_state"
  by (simp add: world_of_def demo_host_def)

lemma demo_sessions: "length (filter (\<lambda>r. sr_experiment r = ''e'') (db_sessions (w_db (it_world playing_state)))) = 1"
  by code_simp

lemma demo_recent:
  "set (recent_sessions (w_db (it_world playing_state)) ''e'' 10000) =
     {r \<in> set (db_sessions (w_db (it_world playing_state))). sr_experiment r = ''e''}"
  by (rule recent_all) (simp add: demo_sessions)

lemma demo_store: "store_inv (w_db (it_world playing_state))"
  using serves_world [OF playing_serves empty_db_inv] by (simp add: world_inv_def)

theorem interrupted_sessions_are_closed_witness:
  "\<exists>d' r'. finalize_interrupted_sessions Session_Demo.demo_config (\<lambda>p. (None, None)) 90000 ''e'' (w_db (it_world playing_state)) = Ok d' \<and>
     find_session d' ''e'' 1 = Some r' \<and> sr_lifecycle r' = ''ended''"
proof -
  obtain r where r: "find_session (w_db (it_world playing_state)) ''e'' 1 = Some r" "sr_lifecycle r \<noteq> ''ended''"
  proof -
    have "map_option sr_lifecycle (find_session (w_db (it_world playing_state)) ''e'' 1) = Some ''running''" by code_simp
    then show ?thesis using that by auto
  qed
  have "r \<in> set (recent_sessions (w_db (it_world playing_state)) ''e'' 10000)"
    using demo_recent r(1) find_session_member [OF r(1)] by auto
  with interrupted_sessions_are_closed [OF demo_store, of Session_Demo.demo_config "\<lambda>p. (None, None)" 90000 "''e''"] r
  show ?thesis by blast
qed

lemma paused_builds: "\<exists>h' m. experiment_router demo_server now ''e'' paused_host = (h', Ok m)"
proof -
  have p: "hs_db paused_host = w_db (it_world playing_state)" "hs_cache paused_host = []"
    "experiment_definition (catalogue_of paused_host) ''e'' = Some (demo_experiment\<lparr>ex_status := ''inactive''\<rparr>)"
    by (simp_all add: paused_host_def demo_host_def demo_admin_def experiment_definition_def demo_experiment_def)
  show ?thesis
    using p by (intro demo_builds [where row = "demo_experiment\<lparr>ex_status := ''inactive''\<rparr>"])
      (simp_all add: demo_experiment_def demo_store)
qed

theorem deactivation_ends_running_sessions_witness:
  "\<exists>h1 h2 m. admin_update_experiment_status demo_server (\<lambda>t u. Err []) False False 0 pause_request demo_host = (h1, Ok None) \<and>
     experiment_router demo_server 90000 ''e'' h1 = (h2, Ok m) \<and>
     (\<exists>s. session_in (world_of h2 0) ''S1'' = Some s \<and> ls_lifecycle s = Running) \<and>
     (\<exists>r. find_session (hs_db h2) ''e'' 1 = Some r \<and> sr_lifecycle r = ''ended'')"
proof -
  obtain s where s: "session_in (it_world playing_state) ''S1'' = Some s" "ls_session s = 1" "ls_lifecycle s = Running"
    by (rule playing_session)
  obtain h2 m where h2: "experiment_router demo_server 90000 ''e'' paused_host = (h2, Ok m)" using paused_builds by blast
  have e: "rt_experiment demo_rt = ''e''" by (simp add: demo_rt_def)
  have recent: "\<exists>r \<in> set (recent_sessions (hs_db demo_host) ''e'' 10000). sr_session r = ls_session s"
  proof -
    have "\<exists>r \<in> set (db_sessions (w_db (it_world playing_state))). sr_experiment r = ''e'' \<and> sr_session r = 1" by code_simp
    then show ?thesis using demo_recent s(2) by (auto simp: demo_host_def)
  qed
  have l: "0 < length (hs_instances demo_host)" "ri_experiment (hs_instances demo_host ! 0) = rt_experiment demo_rt"
    "tq_status pause_request = ''inactive''"
    by (simp_all add: demo_host_def e pause_request_def)
  have w: "world_inv demo_rt (\<lambda>s. True) (world_of demo_host 0)" "session_in (world_of demo_host 0) ''S1'' = Some s"
    using serves_world [OF playing_serves empty_db_inv] s(1) by simp_all
  have "session_in (world_of h2 0) ''S1'' = Some s \<and> (\<exists>r. find_session (hs_db h2) ''e'' 1 = Some r \<and> sr_lifecycle r = ''ended'')"
    using deactivation_ends_running_sessions [OF l(1,2) w s(3) recent [folded e] pausing l(3) h2 [folded e]]
    unfolding e s(2) by blast
  then show ?thesis
    by (intro exI [of _ paused_host] exI [of _ h2] exI [of _ m]) (use pausing h2 s(3) in auto)
qed

end
