(* ===== verification/Catalogue_Properties.thy ===== *)
theory Catalogue_Properties
  imports Experiment_Catalogue
begin

text \<open>
  The history of configurations: revisions are never changed or skipped, a revision is saved at most once,
  and the configuration of an experiment that is not inactive does not change.
\<close>

section \<open>Rows after an update\<close>

lemma find_row_snoc: "find P (xs @ [y]) = (case find P xs of Some x \<Rightarrow> Some x | None \<Rightarrow> if P y then Some y else None)"
  by (induction xs) auto

lemma definition_update:
  assumes "\<And>r. ex_id (f r) = ex_id r"
  shows "experiment_definition (update_experiments P f c) e = map_option (\<lambda>r. if P r then f r else r) (experiment_definition c e)"
proof -
  have "find (\<lambda>r. ex_id r = e) (map (\<lambda>r. if P r then f r else r) rs) =
      map_option (\<lambda>r. if P r then f r else r) (find (\<lambda>r. ex_id r = e) rs)" for rs
    using assms by (induction rs) auto
  then show ?thesis by (simp add: experiment_definition_def update_experiments_def)
qed

lemma update_other [simp]:
  "ca_revisions (update_experiments P f c) = ca_revisions c" "ca_secrets (update_experiments P f c) = ca_secrets c"
  "has_revision (update_experiments P f c) = has_revision c"
  by (simp_all add: update_experiments_def has_revision_def fun_eq_iff)

lemma definition_member: "experiment_definition c e = Some r \<Longrightarrow> r \<in> set (ca_experiments c) \<and> ex_id r = e"
  by (auto simp: experiment_definition_def find_Some_iff)

lemma member_definition:
  assumes "distinct (map ex_id (ca_experiments c))" "r \<in> set (ca_experiments c)"
  shows "experiment_definition c (ex_id r) = Some r"
proof -
  have "find (\<lambda>x. ex_id x = ex_id r) rs = Some r" if "distinct (map ex_id rs)" "r \<in> set rs" for rs
    using that by (induction rs) (auto simp: image_iff)
  then show ?thesis using assms by (simp add: experiment_definition_def)
qed

lemma definition_none: "experiment_definition c e = None \<longleftrightarrow> e \<notin> ex_id ` set (ca_experiments c)"
  by (auto simp: experiment_definition_def find_None_iff)

lemma has_revision_member: "has_revision c e n \<longleftrightarrow> (\<exists>v \<in> set (ca_revisions c). rv_experiment v = e \<and> rv_revision v = n)"
  by (simp add: has_revision_def list_ex_iff)

lemma catalogue_okD:
  assumes "catalogue_ok c" "experiment_definition c e = Some r"
  shows "1 \<le> ex_revision r" "1 \<le> n \<Longrightarrow> n \<le> ex_revision r \<Longrightarrow> has_revision c e n"
    "\<exists>v \<in> set (ca_revisions c). rv_experiment v = e \<and> rv_revision v = ex_revision r \<and> rv_config v = ex_config r"
    "has_revision c e n \<Longrightarrow> 1 \<le> n \<and> n \<le> ex_revision r"
  using assms definition_member [OF assms(2)] by (auto simp: catalogue_ok_def has_revision_member)

text \<open>Updates of other columns.\<close>

lemma catalogue_ok_columns:
  assumes "catalogue_ok c" "\<And>r. ex_id (f r) = ex_id r \<and> ex_revision (f r) = ex_revision r \<and> ex_config (f r) = ex_config r"
  shows "catalogue_ok (update_experiments P f c)"
proof -
  have ids: "map ex_id (ca_experiments (update_experiments P f c)) = map ex_id (ca_experiments c)"
    using assms(2) by (auto simp: update_experiments_def)
  have defs: "experiment_definition (update_experiments P f c) e = map_option (\<lambda>r. if P r then f r else r) (experiment_definition c e)" for e
    by (rule definition_update) (simp add: assms(2))
  have rows: "\<exists>r \<in> set (ca_experiments c). ex_id r = ex_id x \<and> ex_revision r = ex_revision x \<and> ex_config r = ex_config x"
    if "x \<in> set (ca_experiments (update_experiments P f c))" for x
    using that assms(2) by (fastforce simp: update_experiments_def)
  show ?thesis
    unfolding catalogue_ok_def
  proof (intro conjI ballI)
    show "distinct (map ex_id (ca_experiments (update_experiments P f c)))" using assms(1) ids by (simp add: catalogue_ok_def)
    show "distinct (map (\<lambda>v. (rv_experiment v, rv_revision v)) (ca_revisions (update_experiments P f c)))"
      using assms(1) by (simp add: catalogue_ok_def)
  next
    fix v assume "v \<in> set (ca_revisions (update_experiments P f c))"
    then obtain r where "experiment_definition c (rv_experiment v) = Some r" "1 \<le> rv_revision v" "rv_revision v \<le> ex_revision r"
      using assms(1) by (auto simp: catalogue_ok_def)
    then show "\<exists>r. experiment_definition (update_experiments P f c) (rv_experiment v) = Some r \<and> 1 \<le> rv_revision v \<and> rv_revision v \<le> ex_revision r"
      using defs assms(2) by auto
  next
    fix x assume "x \<in> set (ca_experiments (update_experiments P f c))"
    with rows obtain r where r: "r \<in> set (ca_experiments c)" "ex_id r = ex_id x" "ex_revision r = ex_revision x" "ex_config r = ex_config x" by blast
    have "1 \<le> ex_revision r \<and> (\<forall>n. 1 \<le> n \<and> n \<le> ex_revision r \<longrightarrow> has_revision c (ex_id r) n) \<and>
        (\<exists>v \<in> set (ca_revisions c). rv_experiment v = ex_id r \<and> rv_revision v = ex_revision r \<and> rv_config v = ex_config r)"
      using assms(1) r(1) by (simp add: catalogue_ok_def)
    then show "1 \<le> ex_revision x" "\<forall>n. 1 \<le> n \<and> n \<le> ex_revision x \<longrightarrow> has_revision (update_experiments P f c) (ex_id x) n"
      "\<exists>v \<in> set (ca_revisions (update_experiments P f c)). rv_experiment v = ex_id x \<and> rv_revision v = ex_revision x \<and> rv_config v = ex_config x"
      using r by simp_all
  qed
qed

text \<open>A new experiment.\<close>

lemma catalogue_ok_new:
  assumes "catalogue_ok c" "experiment_definition c e = None" "ex_id row = e" "ex_revision row = 1"
    "rv_experiment v = e" "rv_revision v = 1" "rv_config v = ex_config row"
    "ca_experiments c' = ca_experiments c @ [row]" "ca_revisions c' = ca_revisions c @ [v]"
  shows "catalogue_ok c'"
proof -
  have free: "rv_experiment x \<noteq> e" if "x \<in> set (ca_revisions c)" for x
    using assms(1,2) that by (force simp: catalogue_ok_def)
  have e: "e \<notin> ex_id ` set (ca_experiments c)" using assms(2) definition_none by blast
  have old: "experiment_definition c' x = experiment_definition c x" if "x \<noteq> e" for x
    using that assms(3,8) by (simp add: experiment_definition_def find_row_snoc split: option.split)
  have new: "experiment_definition c' e = Some row"
    using assms(2,3,8) by (simp add: experiment_definition_def find_row_snoc)
  have rev: "has_revision c' x n \<longleftrightarrow> has_revision c x n \<or> x = e \<and> n = 1" for x n
    using assms(5,6,9) by (auto simp: has_revision_member)
  have "distinct (map ex_id (ca_experiments c'))" using assms(1,3,8) e by (auto simp: catalogue_ok_def)
  moreover have "distinct (map (\<lambda>v. (rv_experiment v, rv_revision v)) (ca_revisions c'))"
    using assms(1,5,9) free by (fastforce simp: catalogue_ok_def)
  moreover have "\<exists>r. experiment_definition c' (rv_experiment x) = Some r \<and> 1 \<le> rv_revision x \<and> rv_revision x \<le> ex_revision r"
    if "x \<in> set (ca_revisions c')" for x
    using that assms(1,4,5,6,9) new old free by (auto simp: catalogue_ok_def)
  moreover have "1 \<le> ex_revision r \<and> (\<forall>n. 1 \<le> n \<and> n \<le> ex_revision r \<longrightarrow> has_revision c' (ex_id r) n) \<and>
      (\<exists>v \<in> set (ca_revisions c'). rv_experiment v = ex_id r \<and> rv_revision v = ex_revision r \<and> rv_config v = ex_config r)"
    if "r \<in> set (ca_experiments c')" for r
  proof (cases "r = row")
    case True
    then show ?thesis using assms(3-7,9) rev by auto
  next
    case False
    then have "r \<in> set (ca_experiments c)" using that assms(8) by simp
    then show ?thesis using assms(1,9) rev by (auto simp: catalogue_ok_def)
  qed
  ultimately show ?thesis by (simp add: catalogue_ok_def)
qed

text \<open>A saved revision.\<close>

lemma save_result:
  assumes "save_experiment_configuration now e n j summary us ds c = Ok (c', m)" "catalogue_ok c"
  obtains r where "experiment_definition c e = Some r" "ex_revision r = n" "ex_status r = ''inactive''" "m = n + 1"
    "experiment_definition c' e = Some (r\<lparr>ex_config := j, ex_revision := n + 1\<rparr>)"
    "\<And>x. x \<noteq> e \<Longrightarrow> experiment_definition c' x = experiment_definition c x"
    "ca_experiments c' = map (\<lambda>x. if ex_id x = e then r\<lparr>ex_config := j, ex_revision := n + 1\<rparr> else x) (ca_experiments c)"
    "ca_revisions c' = ca_revisions c @ [\<lparr>rv_experiment = e, rv_revision = n + 1, rv_config = j, rv_created = now, rv_summary = summary\<rparr>]"
proof -
  let ?P = "\<lambda>r. ex_id r = e \<and> ex_revision r = n \<and> ex_status r = ''inactive''"
  let ?f = "\<lambda>r. r\<lparr>ex_config := j, ex_revision := n + 1\<rparr>"
  have one: "changed ?P c = 1" using assms(1) by (auto simp: save_experiment_configuration_def Let_def split: if_splits)
  then have "filter ?P (ca_experiments c) \<noteq> []" by (auto simp: changed_def)
  then obtain r where r: "r \<in> set (ca_experiments c)" "?P r" by (auto simp: filter_empty_conv)
  have d: "distinct (map ex_id (ca_experiments c))" using assms(2) by (simp add: catalogue_ok_def)
  have r': "experiment_definition c e = Some r" using member_definition [OF d r(1)] r(2) by simp
  have same: "x = r" if "x \<in> set (ca_experiments c)" "ex_id x = e" for x
    using member_definition [OF d that(1)] that(2) r' by simp
  have rows: "map (\<lambda>x. if ?P x then ?f x else x) (ca_experiments c) = map (\<lambda>x. if ex_id x = e then ?f r else x) (ca_experiments c)"
  proof (rule map_cong [OF refl])
    fix x assume "x \<in> set (ca_experiments c)"
    then show "(if ?P x then ?f x else x) = (if ex_id x = e then ?f r else x)"
      using same [of x] r(2) by (cases "ex_id x = e") simp_all
  qed
  have defs: "experiment_definition c' x = map_option (\<lambda>r. if ?P r then ?f r else r) (experiment_definition c x)" for x
  proof -
    have "experiment_definition c' x = experiment_definition (update_experiments ?P ?f c) x"
      using assms(1) by (auto simp: save_experiment_configuration_def Let_def experiment_definition_def update_experiments_def split: if_splits)
    then show ?thesis using definition_update [of ?f ?P c x] by simp
  qed
  have cols: "m = n + 1 \<and> ca_experiments c' = map (\<lambda>x. if ?P x then ?f x else x) (ca_experiments c) \<and>
      ca_revisions c' = ca_revisions c @ [\<lparr>rv_experiment = e, rv_revision = n + 1, rv_config = j, rv_created = now, rv_summary = summary\<rparr>]"
    using assms(1) by (auto simp: save_experiment_configuration_def Let_def update_experiments_def split: if_splits)
  have "experiment_definition c' x = experiment_definition c x" if "x \<noteq> e" for x
    using defs [of x] that definition_member [of c x] by (cases "experiment_definition c x") auto
  then show ?thesis using that [of r] r r' defs [of e] cols rows by simp
qed

lemma save_cases:
  "save_experiment_configuration now e n j summary us ds c = Err ChangedConcurrently \<or>
   (\<exists>x. save_experiment_configuration now e n j summary us ds c = Ok x)"
  by (simp add: save_experiment_configuration_def Let_def)

lemma save_ok:
  assumes "save_experiment_configuration now e n j summary us ds c = Ok (c', m)" "catalogue_ok c"
  shows "catalogue_ok c'"
proof -
  obtain r where r: "experiment_definition c e = Some r" "ex_revision r = n"
    "experiment_definition c' e = Some (r\<lparr>ex_config := j, ex_revision := n + 1\<rparr>)"
    "\<And>x. x \<noteq> e \<Longrightarrow> experiment_definition c' x = experiment_definition c x"
    "ca_experiments c' = map (\<lambda>x. if ex_id x = e then r\<lparr>ex_config := j, ex_revision := n + 1\<rparr> else x) (ca_experiments c)"
    "ca_revisions c' = ca_revisions c @ [\<lparr>rv_experiment = e, rv_revision = n + 1, rv_config = j, rv_created = now, rv_summary = summary\<rparr>]"
    using save_result [OF assms] by blast
  note old = catalogue_okD [OF assms(2) r(1)]
  have rev: "has_revision c' x k \<longleftrightarrow> has_revision c x k \<or> x = e \<and> k = n + 1" for x k
    using r(6) by (auto simp: has_revision_member)
  have "ex_id r = e" using definition_member [OF r(1)] by simp
  then have "map ex_id (ca_experiments c') = map ex_id (ca_experiments c)" unfolding r(5) by (simp add: comp_def cong: map_cong)
  then have "distinct (map ex_id (ca_experiments c'))" using assms(2) by (simp add: catalogue_ok_def)
  moreover have "distinct (map (\<lambda>v. (rv_experiment v, rv_revision v)) (ca_revisions c'))"
  proof -
    have "(e, n + 1) \<notin> (\<lambda>v. (rv_experiment v, rv_revision v)) ` set (ca_revisions c)"
    proof -
      have "\<not> has_revision c e (n + 1)" using old(4) [of "n + 1"] r(2) by linarith
      then show ?thesis unfolding has_revision_member by (auto simp: image_iff)
    qed
    then show ?thesis using assms(2) r(6) by (simp add: catalogue_ok_def)
  qed
  moreover have "\<exists>r. experiment_definition c' (rv_experiment v) = Some r \<and> 1 \<le> rv_revision v \<and> rv_revision v \<le> ex_revision r"
    if "v \<in> set (ca_revisions c')" for v
  proof (cases "rv_experiment v = e")
    case True
    have "1 \<le> rv_revision v \<and> rv_revision v \<le> n + 1"
    proof (cases "v \<in> set (ca_revisions c)")
      case True
      then have "has_revision c e (rv_revision v)" using \<open>rv_experiment v = e\<close> has_revision_member by blast
      then show ?thesis using old(4) r(2) by fastforce
    qed (use that r(2,6) old(1) in simp)
    then show ?thesis using True r(3) by simp
  next
    case False
    then show ?thesis using that r(4,6) assms(2) by (auto simp: catalogue_ok_def)
  qed
  moreover have "1 \<le> ex_revision x \<and> (\<forall>k. 1 \<le> k \<and> k \<le> ex_revision x \<longrightarrow> has_revision c' (ex_id x) k) \<and>
      (\<exists>v \<in> set (ca_revisions c'). rv_experiment v = ex_id x \<and> rv_revision v = ex_revision x \<and> rv_config v = ex_config x)"
    if x: "x \<in> set (ca_experiments c')" for x
  proof (cases "ex_id x = e")
    case True
    then have "x = r\<lparr>ex_config := j, ex_revision := n + 1\<rparr>" using x r(5) by (auto split: if_splits)
    moreover have "has_revision c' e k" if "1 \<le> k" "k \<le> n + 1" for k
      using that rev old(2) [of k] r(2) by (cases "k = n + 1") auto
    ultimately show ?thesis using True old(1) r(2,6) by simp
  next
    case False
    then have "x \<in> set (ca_experiments c)" using x r(5) \<open>ex_id r = e\<close> by (auto split: if_splits)
    then show ?thesis using assms(2) rev r(6) by (auto simp: catalogue_ok_def)
  qed
  ultimately show ?thesis by (simp add: catalogue_ok_def)
qed

lemma ensure_ok:
  assumes "catalogue_ok c"
  shows "catalogue_ok (fst (ensure_experiment now x c))"
proof (cases "experiment_definition c (xr_id x)")
  case None
  have free: "\<not> has_revision c (xr_id x) 1" using assms None by (force simp: catalogue_ok_def has_revision_member)
  show ?thesis
    by (rule catalogue_ok_new [OF assms None, where row = "new_row now (xr_status x) x" and v = "first_revision now x"])
      (use None free in \<open>simp_all add: ensure_experiment_def new_row_def first_revision_def has_revision_def\<close>)
next
  case (Some r)
  then have "has_revision c (xr_id x) 1" using catalogue_okD(1) [OF assms Some] catalogue_okD(2) [OF assms Some, of 1] by simp
  then show ?thesis using Some assms by (simp add: ensure_experiment_def catalogue_ok_columns)
qed

lemma create_ok:
  assumes "catalogue_ok c" "create_experiment now x c = Ok c'"
  shows "catalogue_ok c'"
proof -
  have "experiment_definition c (xr_id x) = None" using assms(2) by (simp add: create_experiment_def split: if_splits)
  from catalogue_ok_new [OF assms(1) this, where row = "new_row now ''inactive'' x" and v = "first_revision now x" and c' = c'] show ?thesis
    using assms(2) by (auto simp: create_experiment_def new_row_def first_revision_def split: if_splits)
qed

lemma apply_op_ok:
  assumes "catalogue_ok c"
  shows "catalogue_ok (apply_op (now, p) c)"
proof (cases p)
  case (Ensure x)
  then show ?thesis using ensure_ok [OF assms] by simp
next
  case (Create x)
  then show ?thesis using create_ok [OF assms] assms by (auto split: outcome.split)
next
  case (Save e n j summary us ds)
  then show ?thesis using save_ok [OF _ assms] assms by (auto split: outcome.split)
next
  case (Annotate e pinned memo)
  then show ?thesis using assms by (simp add: update_experiment_catalogue_def catalogue_ok_columns)
next
  case (SetStatus e status)
  then show ?thesis using assms by (simp add: set_status_def catalogue_ok_columns)
next
  case (Archive e)
  then show ?thesis using assms
    by (simp add: archive_experiment_def Let_def catalogue_ok_columns split: option.split)
next
  case Restart
  then show ?thesis using assms by (simp add: deactivate_open_experiments_def Let_def catalogue_ok_columns)
qed

lemma apply_op_revisions:
  assumes "v \<in> set (ca_revisions c)"
  shows "v \<in> set (ca_revisions (apply_op (now, p) c))"
  using assms
  by (cases p)
    (auto simp: ensure_experiment_def create_experiment_def save_experiment_configuration_def update_experiment_catalogue_def
      set_status_def archive_experiment_def deactivate_open_experiments_def Let_def split: option.split outcome.split)

text \<open>Only a save changes a configuration, and only that of an inactive experiment at the revision it names.\<close>

definition same_configuration :: "experiment_row \<Rightarrow> experiment_row \<Rightarrow> bool" where
  "same_configuration r r' \<longleftrightarrow> ex_config r' = ex_config r \<and> ex_revision r' = ex_revision r"

lemma apply_op_row:
  assumes "catalogue_ok c" "experiment_definition c e = Some r"
  obtains r' where "experiment_definition (apply_op (now, p) c) e = Some r'" "ex_revision r \<le> ex_revision r'"
    "same_configuration r r' \<or> (\<exists>j summary us ds. p = Save e (ex_revision r) j summary us ds \<and> ex_status r = ''inactive'' \<and>
      ex_config r' = j \<and> ex_revision r' = ex_revision r + 1)"
proof (cases p)
  case (Ensure x)
  have "experiment_definition (fst (ensure_experiment now x c)) e =
      Some (if ex_id r = xr_id x then r\<lparr>ex_server_version := xr_server_version x, ex_manifest := xr_manifest x\<rparr> else r)"
  proof (cases "experiment_definition c (xr_id x)")
    case None
    then have "ex_id r \<noteq> xr_id x" using assms(2) definition_member [OF assms(2)] by auto
    then show ?thesis using None assms(2) by (simp add: ensure_experiment_def experiment_definition_def find_row_snoc Let_def new_row_def)
  next
    case (Some y)
    let ?c = "update_experiments (\<lambda>r. ex_id r = xr_id x) (\<lambda>r. r\<lparr>ex_server_version := xr_server_version x, ex_manifest := xr_manifest x\<rparr>) c"
    have "experiment_definition (fst (ensure_experiment now x c)) e = experiment_definition ?c e"
      using Some by (simp add: ensure_experiment_def experiment_definition_def Let_def)
    then show ?thesis using assms(2) by (subst (asm) definition_update) simp_all
  qed
  then show ?thesis using that Ensure by (auto simp: same_configuration_def)
next
  case (Create x)
  have "experiment_definition (case create_experiment now x c of Ok c' \<Rightarrow> c' | _ \<Rightarrow> c) e = Some r"
    using assms(2) by (auto simp: create_experiment_def experiment_definition_def find_row_snoc)
  then show ?thesis using that Create by (simp add: same_configuration_def)
next
  case (Save e' n j summary us ds)
  show ?thesis
  proof (cases "save_experiment_configuration now e' n j summary us ds c")
    case (Ok x)
    then obtain c' m where x: "save_experiment_configuration now e' n j summary us ds c = Ok (c', m)" by (cases x) auto
    then show ?thesis using save_result [OF x assms(1)] assms(2) that Save
      by (cases "e' = e") (fastforce simp: same_configuration_def)+
  next
    case (Err x)
    then show ?thesis using that Save assms(2) by (simp add: same_configuration_def)
  next
    case Panic
    then show ?thesis using that Save assms(2) by (simp add: same_configuration_def)
  qed
next
  case (Annotate e' pinned memo)
  then show ?thesis using that assms(2)
    by (cases "changed (\<lambda>r. ex_id r = e') c \<noteq> 1")
      (simp_all add: update_experiment_catalogue_def definition_update same_configuration_def split: if_splits)
next
  case (SetStatus e' status)
  then show ?thesis using that assms(2) by (simp add: set_status_def definition_update same_configuration_def)
next
  case (Archive e')
  have "\<exists>r'. experiment_definition (apply_op (now, p) c) e = Some r' \<and> same_configuration r r'"
    using Archive assms(2)
    by (auto simp: archive_experiment_def Let_def definition_update same_configuration_def split: option.split)
  then show ?thesis using that by (auto simp: same_configuration_def)
next
  case Restart
  then show ?thesis using that assms(2)
    by (simp add: deactivate_open_experiments_def Let_def definition_update same_configuration_def)
qed

lemma apply_ops_simps: "apply_ops [] c = c" "apply_ops (q # qs) c = apply_ops qs (apply_op q c)"
  by (simp_all add: apply_ops_def)

lemma apply_ops_ok: "catalogue_ok c \<Longrightarrow> catalogue_ok (apply_ops ops c)"
proof (induction ops arbitrary: c)
  case (Cons q qs)
  then show ?case using apply_op_ok [of c "fst q" "snd q"] by (simp add: apply_ops_simps)
qed (simp add: apply_ops_simps)

lemma apply_ops_revisions: "v \<in> set (ca_revisions c) \<Longrightarrow> v \<in> set (ca_revisions (apply_ops ops c))"
proof (induction ops arbitrary: c)
  case (Cons q qs)
  then show ?case using apply_op_revisions [of v c "fst q" "snd q"] by (simp add: apply_ops_simps)
qed (simp add: apply_ops_simps)

lemma apply_ops_row:
  assumes "catalogue_ok c" "experiment_definition c e = Some r"
  shows "\<exists>r'. experiment_definition (apply_ops ops c) e = Some r' \<and> ex_revision r \<le> ex_revision r'"
  using assms
proof (induction ops arbitrary: c r)
  case (Cons q qs)
  obtain r' where r': "experiment_definition (apply_op (fst q, snd q) c) e = Some r'" "ex_revision r \<le> ex_revision r'"
    using apply_op_row [OF Cons.prems] by blast
  from Cons.IH [OF apply_op_ok [OF Cons.prems(1)] r'(1)] r'(2) show ?case
    by (auto simp: apply_ops_simps)
qed (simp add: apply_ops_simps)

section \<open>Properties\<close>

text \<open>C22 (invariant). The history of configurations is complete and never rewritten: whatever operations run,
  the revisions of an experiment stay numbered from 1 to the current one without gap, the current
  configuration is that of the current revision, and every revision once stored is stored unchanged
  afterwards, so a session can always be traced to the configuration of its revision.\<close>

theorem revision_history_is_kept:
  assumes "catalogue_ok c"
  shows "catalogue_ok (apply_ops ops c) \<and> set (ca_revisions c) \<subseteq> set (ca_revisions (apply_ops ops c))"
  using apply_ops_ok [OF assms] apply_ops_revisions by blast

text \<open>C18 (safety). Of the saves that start from one revision of an experiment at most one succeeds, whatever
  happens in between: one succeeds only while the experiment is inactive and only from the current revision,
  and after any further operations every save from that revision or an earlier one is refused. No other
  operation changes the configuration or the revision of an experiment, and while an experiment is not
  inactive no operation at all does: opening intake freezes the configuration.\<close>

theorem one_save_per_revision:
  assumes "catalogue_ok c" "experiment_definition c e = Some r"
  shows "(\<forall>now n j summary us ds c1 m. save_experiment_configuration now e n j summary us ds c = Ok (c1, m) \<longrightarrow>
      n = ex_revision r \<and> ex_status r = ''inactive'' \<and>
      (\<forall>ops now' n' j' summary' us' ds'. n' \<le> n \<longrightarrow>
         save_experiment_configuration now' e n' j' summary' us' ds' (apply_ops ops c1) = Err ChangedConcurrently)) \<and>
    (\<forall>now p. \<exists>r'. experiment_definition (apply_op (now, p) c) e = Some r' \<and>
      (ex_status r \<noteq> ''inactive'' \<or> (\<forall>j summary us ds. p \<noteq> Save e (ex_revision r) j summary us ds) \<longrightarrow>
         ex_config r' = ex_config r \<and> ex_revision r' = ex_revision r))"
proof (intro conjI allI impI)
  fix now p
  obtain r' where "experiment_definition (apply_op (now, p) c) e = Some r'"
    "same_configuration r r' \<or> (\<exists>j summary us ds. p = Save e (ex_revision r) j summary us ds \<and> ex_status r = ''inactive'' \<and>
      ex_config r' = j \<and> ex_revision r' = ex_revision r + 1)"
    using apply_op_row [OF assms] by metis
  then show "\<exists>r'. experiment_definition (apply_op (now, p) c) e = Some r' \<and>
      (ex_status r \<noteq> ''inactive'' \<or> (\<forall>j summary us ds. p \<noteq> Save e (ex_revision r) j summary us ds) \<longrightarrow>
         ex_config r' = ex_config r \<and> ex_revision r' = ex_revision r)"
    by (auto simp: same_configuration_def)
next
  fix now n j summary us ds c1 m
  assume save: "save_experiment_configuration now e n j summary us ds c = Ok (c1, m)"
  obtain r1 where r1: "experiment_definition c e = Some r1" "ex_revision r1 = n" "ex_status r1 = ''inactive''"
    "experiment_definition c1 e = Some (r1\<lparr>ex_config := j, ex_revision := n + 1\<rparr>)"
    using save_result [OF save assms(1)] by blast
  then show "n = ex_revision r" "ex_status r = ''inactive''" using assms(2) by auto
  fix ops now' n' j' summary' us' ds'
  assume "n' \<le> n"
  have ok1: "catalogue_ok c1" by (rule save_ok [OF save assms(1)])
  obtain r2 where r2: "experiment_definition (apply_ops ops c1) e = Some r2" "n + 1 \<le> ex_revision r2"
    using apply_ops_row [OF ok1 r1(4), of ops] by auto
  let ?s = "save_experiment_configuration now' e n' j' summary' us' ds' (apply_ops ops c1)"
  have "?s \<noteq> Ok x" for x
  proof
    assume "?s = Ok x"
    then obtain c2 k where "?s = Ok (c2, k)" by (cases x) auto
    from save_result [OF this apply_ops_ok [OF ok1]] r2 \<open>n' \<le> n\<close> show False by auto
  qed
  then show "?s = Err ChangedConcurrently"
    using save_cases [of now' e n' j' summary' us' ds' "apply_ops ops c1"] by blast
qed

section \<open>Instances\<close>

definition no_experiments :: catalogue where
  "no_experiments = \<lparr>ca_experiments = [], ca_revisions = [], ca_secrets = [], ca_settings = default_game_settings,
     ca_game_secrets = []\<rparr>"

definition pilot :: experiment_record where
  "pilot = \<lparr>xr_id = ''pilot'', xr_game_version = ''1.0.0'', xr_config = JObj [], xr_server_version = None, xr_manifest = None,
     xr_status = ''inactive'', xr_notes = None\<rparr>"

definition pilot_created :: catalogue where
  "pilot_created = no_experiments\<lparr>ca_experiments := [new_row 0 ''inactive'' pilot], ca_revisions := [first_revision 0 pilot]\<rparr>"

lemma pilot_created_ok: "catalogue_ok pilot_created"
proof (rule create_ok)
  show "catalogue_ok no_experiments" by (simp add: catalogue_ok_def no_experiments_def)
  show "create_experiment 0 pilot no_experiments = Ok pilot_created"
    by (simp add: create_experiment_def pilot_created_def no_experiments_def experiment_definition_def has_revision_def)
qed

text \<open>The pilot after intake was opened.\<close>

definition pilot_open :: catalogue where
  "pilot_open = apply_op (1, SetStatus ''pilot'' ''active'') pilot_created"

lemma pilot_open_ok: "catalogue_ok pilot_open"
  unfolding pilot_open_def by (rule apply_op_ok [OF pilot_created_ok])

theorem revision_history_is_kept_witness:
  "first_revision 0 pilot \<in> set (ca_revisions (apply_ops
     [(1, SetStatus ''pilot'' ''active''), (2, Restart), (3, Save ''pilot'' 1 JNull None [] [])] pilot_created))"
proof -
  have "first_revision 0 pilot \<in> set (ca_revisions pilot_created)" by (simp add: pilot_created_def)
  then show ?thesis using revision_history_is_kept [OF pilot_created_ok] by blast
qed

theorem one_save_per_revision_witness:
  "\<exists>c1. save_experiment_configuration 1 ''pilot'' 1 JNull None [(''game.key'', ''k'')] [] pilot_created = Ok (c1, 2) \<and>
     save_experiment_configuration 2 ''pilot'' 1 (JObj []) None [] [] c1 = Err ChangedConcurrently \<and>
     (\<exists>r. experiment_definition (apply_op (3, Save ''pilot'' 1 JNull None [] []) pilot_open) ''pilot'' = Some r \<and>
        ex_config r = JObj [] \<and> ex_revision r = 1)"
proof -
  have row: "experiment_definition pilot_created ''pilot'' = Some (new_row 0 ''inactive'' pilot)"
    by (simp add: experiment_definition_def pilot_created_def new_row_def pilot_def)
  have "\<exists>c1. save_experiment_configuration 1 ''pilot'' 1 JNull None [(''game.key'', ''k'')] [] pilot_created = Ok (c1, 2)"
    by (simp add: save_experiment_configuration_def changed_def pilot_created_def new_row_def pilot_def has_revision_def first_revision_def)
  then obtain c1 where c1: "save_experiment_configuration 1 ''pilot'' 1 JNull None [(''game.key'', ''k'')] [] pilot_created = Ok (c1, 2)"
    by blast
  have "save_experiment_configuration 2 ''pilot'' 1 (JObj []) None [] [] (apply_ops [] c1) = Err ChangedConcurrently"
    using one_save_per_revision [OF pilot_created_ok row] c1 by blast
  then have again: "save_experiment_configuration 2 ''pilot'' 1 (JObj []) None [] [] c1 = Err ChangedConcurrently"
    by (simp add: apply_ops_simps)
  have open_row: "experiment_definition pilot_open ''pilot'' = Some (new_row 0 ''active'' pilot)"
    by (simp add: experiment_definition_def pilot_open_def pilot_created_def new_row_def pilot_def set_status_def update_experiments_def)
  have "ex_status (new_row 0 ''active'' pilot) \<noteq> ''inactive''" "ex_config (new_row 0 ''active'' pilot) = JObj []"
    "ex_revision (new_row 0 ''active'' pilot) = 1"
    by (simp_all add: new_row_def pilot_def)
  then have "\<exists>r. experiment_definition (apply_op (3, Save ''pilot'' 1 JNull None [] []) pilot_open) ''pilot'' = Some r \<and>
      ex_config r = JObj [] \<and> ex_revision r = 1"
    using one_save_per_revision [OF pilot_open_ok open_row] by metis
  then show ?thesis using c1 again by blast
qed

end
