(* ===== verification/Host_Invariant.thy ===== *)
theory Host_Invariant
  imports Runtime_Host Catalogue_Properties
begin

text \<open>
  The cache of runtimes: what a cached runtime agrees with in the store, kept by every operation of the host
  when each runs as a whole on the cached runtime.
\<close>

section \<open>Operations of the host\<close>

inductive hosts :: "'z host_server_scheme \<Rightarrow> 's host \<Rightarrow> bool" for srv where
  hosts_start: "catalogue_ok (am_catalogue st) \<Longrightarrow> hosts srv (start_host st d)"
| hosts_request: "hosts srv h \<Longrightarrow> hosts srv (fst (experiment_router srv now e h))"
| hosts_save: "hosts srv h \<Longrightarrow> hosts srv (fst (host_save srv now e sq h))"
| hosts_archive: "hosts srv h \<Longrightarrow> hosts srv (fst (host_archive e h))"
| hosts_settings: "hosts srv h \<Longrightarrow> hosts srv (fst (host_settings srv gq h))"
| hosts_status: "hosts srv h \<Longrightarrow> map_of (hs_cache h) e = Some n \<Longrightarrow>
    hosts srv (fst (admin_update_experiment_status srv connect has_transcription has_tts n q h))"
| hosts_create: "hosts srv h \<Longrightarrow> admin_create_experiment srv now e config notes (hs_admin h) = Ok st \<Longrightarrow>
    hosts srv (h\<lparr>hs_admin := st\<rparr>)"
| hosts_clone: "hosts srv h \<Longrightarrow> admin_clone_experiment srv now e e' (hs_admin h) = Ok st \<Longrightarrow> hosts srv (h\<lparr>hs_admin := st\<rparr>)"
| hosts_annotate: "hosts srv h \<Longrightarrow> admin_update_experiment_catalogue e pinned notes (hs_admin h) = Ok st \<Longrightarrow>
    hosts srv (h\<lparr>hs_admin := st\<rparr>)"
| hosts_handler: "hosts srv h \<Longrightarrow> hosts srv (fst (on_runtime n (\<lambda>w. (f w, ())) h))"

section \<open>What a cached runtime agrees with\<close>

text \<open>The provider credentials are those of the store at some time, and the current ones while the experiment is
  inactive.\<close>

definition runtime_current :: "'z host_server_scheme \<Rightarrow> catalogue \<Rightarrow> string \<Rightarrow> 's hosted \<Rightarrow> bool" where
  "runtime_current srv cat e i \<longleftrightarrow> ri_experiment i = e \<and>
     (\<exists>r c gs. experiment_definition cat e = Some r \<and> ri_revision i = ex_revision r \<and>
        parse_lifecycle (ex_status r) = Ok (ri_lifecycle i) \<and> experiment_config_from_json srv (ex_config r) e = Ok c \<and>
        ri_config i = apply_game_provider_secrets gs (apply_experiment_secrets (experiment_secrets cat e) c) \<and>
        (ex_status r = ''inactive'' \<longrightarrow> gs = game_secrets cat))"

definition cache_current :: "'z host_server_scheme \<Rightarrow> 's host \<Rightarrow> bool" where
  "cache_current srv h \<longleftrightarrow> catalogue_ok (catalogue_of h) \<and> distinct (map fst (hs_cache h)) \<and>
     (\<forall>(e, n) \<in> set (hs_cache h). n < length (hs_instances h) \<and> runtime_current srv (catalogue_of h) e (hs_instances h ! n))"

text \<open>The part of the store a runtime of \<open>e\<close> depends on.\<close>

definition same_source :: "string \<Rightarrow> catalogue \<Rightarrow> catalogue \<Rightarrow> bool" where
  "same_source e cat cat' \<longleftrightarrow>
     map_option (\<lambda>r. (ex_revision r, ex_status r, ex_config r)) (experiment_definition cat' e) =
       map_option (\<lambda>r. (ex_revision r, ex_status r, ex_config r)) (experiment_definition cat e) \<and>
     experiment_secrets cat' e = experiment_secrets cat e"

lemma same_source_refl [simp]: "same_source e c c"
  by (simp add: same_source_def)

lemma runtime_current_same:
  assumes "runtime_current srv cat e i" "same_source e cat cat'"
    and "game_secrets cat' = game_secrets cat \<or> map_option ex_status (experiment_definition cat e) \<noteq> Some ''inactive''"
  shows "runtime_current srv cat' e i"
proof -
  obtain r c gs where r: "ri_experiment i = e" "experiment_definition cat e = Some r" "ri_revision i = ex_revision r"
    "parse_lifecycle (ex_status r) = Ok (ri_lifecycle i)" "experiment_config_from_json srv (ex_config r) e = Ok c"
    "ri_config i = apply_game_provider_secrets gs (apply_experiment_secrets (experiment_secrets cat e) c)"
    "ex_status r = ''inactive'' \<longrightarrow> gs = game_secrets cat"
    using assms(1) by (auto simp: runtime_current_def)
  obtain r' where r': "experiment_definition cat' e = Some r'" "ex_revision r' = ex_revision r" "ex_status r' = ex_status r"
    "ex_config r' = ex_config r" "experiment_secrets cat' e = experiment_secrets cat e"
    using assms(2) r(2) by (auto simp: same_source_def map_option_eq_Some)
  have "ex_status r = ''inactive'' \<longrightarrow> gs = game_secrets cat'" using assms(3) r(2,7) by auto
  then show ?thesis
    unfolding runtime_current_def using r r' by (intro conjI exI [of _ r'] exI [of _ c] exI [of _ gs]) simp_all
qed

lemma cache_current_same:
  assumes "cache_current srv h" "catalogue_ok (catalogue_of h')" "set (hs_cache h') \<subseteq> set (hs_cache h)" "distinct (map fst (hs_cache h'))"
    and "hs_instances h' = hs_instances h"
    and "\<And>e n. (e, n) \<in> set (hs_cache h') \<Longrightarrow> same_source e (catalogue_of h) (catalogue_of h') \<and>
      (game_secrets (catalogue_of h') = game_secrets (catalogue_of h) \<or>
       map_option ex_status (experiment_definition (catalogue_of h) e) \<noteq> Some ''inactive'')"
  shows "cache_current srv h'"
proof -
  have "n < length (hs_instances h') \<and> runtime_current srv (catalogue_of h') e (hs_instances h' ! n)" if "(e, n) \<in> set (hs_cache h')" for e n
  proof
    have c: "n < length (hs_instances h)" "runtime_current srv (catalogue_of h) e (hs_instances h ! n)"
      using assms(1,3) that by (auto simp: cache_current_def)
    then show "n < length (hs_instances h')" by (simp add: assms(5))
    show "runtime_current srv (catalogue_of h') e (hs_instances h' ! n)"
      unfolding assms(5) by (rule runtime_current_same [OF c(2)]) (use assms(6) [OF that] in auto)
  qed
  then show ?thesis using assms(2,4) by (auto simp: cache_current_def)
qed

section \<open>Operations on the store\<close>

lemma definition_snoc:
  assumes "ca_experiments c' = ca_experiments c @ [row]" "experiment_definition c e \<noteq> None"
  shows "experiment_definition c' e = experiment_definition c e"
  using assms by (auto simp: experiment_definition_def find_row_snoc split: option.splits)

lemma create_source:
  assumes "create_experiment now x c = Ok c'" "experiment_definition c e \<noteq> None"
  shows "same_source e c c'" "game_secrets c' = game_secrets c"
proof -
  have c': "c' = c\<lparr>ca_experiments := ca_experiments c @ [new_row now ''inactive'' x], ca_revisions := ca_revisions c @ [first_revision now x]\<rparr>"
    using assms(1) by (simp add: create_experiment_def split: if_splits)
  have "experiment_definition c' e = experiment_definition c e"
    by (rule definition_snoc [OF _ assms(2), where row = "new_row now ''inactive'' x"]) (simp add: c')
  then show "same_source e c c'" by (simp add: same_source_def experiment_secrets_def c')
  show "game_secrets c' = game_secrets c" by (simp add: c' game_secrets_def)
qed

lemma update_source:
  assumes "\<And>r. ex_id (f r) = ex_id r" "\<And>r. ex_id r = e \<Longrightarrow> P r \<Longrightarrow> ex_revision (f r) = ex_revision r \<and> ex_status (f r) = ex_status r \<and> ex_config (f r) = ex_config r"
  shows "same_source e c (update_experiments P f c)"
proof -
  have "map_option (\<lambda>r. (ex_revision r, ex_status r, ex_config r)) (experiment_definition (update_experiments P f c) e) =
      map_option (\<lambda>r. (ex_revision r, ex_status r, ex_config r)) (experiment_definition c e)"
    using assms(2) definition_member by (cases "experiment_definition c e") (auto simp: definition_update [OF assms(1)])
  then show ?thesis by (simp add: same_source_def experiment_secrets_def)
qed

lemma update_game_secrets [simp]: "game_secrets (update_experiments P f c) = game_secrets c"
  by (simp add: update_experiments_def game_secrets_def)

lemma secrets_of_others:
  assumes "e' \<noteq> e"
  shows "map_of (delete_secrets e ds (upsert_secrets e us ss)) (e', k) = map_of ss (e', k)"
proof -
  have "map_of (fold (\<lambda>d. AList.delete (e, d)) ds xs) (e', k) = map_of xs (e', k)" for xs :: "((string \<times> string) \<times> string) list"
    using assms by (induction ds arbitrary: xs) (auto simp: delete_conv)
  moreover have "map_of (fold (\<lambda>(u, v). AList.update (e, u) v) us xs) (e', k) = map_of xs (e', k)" for xs :: "((string \<times> string) \<times> string) list"
    using assms by (induction us arbitrary: xs) (auto simp: update_conv)
  ultimately show ?thesis by (simp add: delete_secrets_def upsert_secrets_def)
qed

lemma save_source:
  assumes "save_experiment_configuration now e n j summary us ds c = Ok (c', m)" "catalogue_ok c" "e' \<noteq> e"
  shows "same_source e' c c'" "game_secrets c' = game_secrets c"
proof -
  have "experiment_definition c' e' = experiment_definition c e'"
    by (rule save_result [OF assms(1,2)]) (use assms(3) in blast)
  moreover have "experiment_secrets c' e' = experiment_secrets c e'"
    using assms(1) secrets_of_others [OF assms(3)]
    by (auto simp: save_experiment_configuration_def experiment_secrets_def update_experiments_def Let_def fun_eq_iff split: if_splits)
  ultimately show "same_source e' c c'" by (simp add: same_source_def)
  show "game_secrets c' = game_secrets c"
    using assms(1) by (auto simp: save_experiment_configuration_def game_secrets_def update_experiments_def Let_def split: if_splits)
qed

lemma ensure_source:
  assumes "experiment_definition c (xr_id x) = Some r" "ensure_experiment now x c = (c', s)"
  shows "same_source e c c'" "game_secrets c' = game_secrets c" "s = ex_status r"
proof -
  let ?u = "update_experiments (\<lambda>r. ex_id r = xr_id x) (\<lambda>r. r\<lparr>ex_server_version := xr_server_version x, ex_manifest := xr_manifest x\<rparr>) c"
  have c': "c' = ?u \<or> c' = ?u\<lparr>ca_revisions := ca_revisions ?u @ [first_revision now x]\<rparr>" "s = ex_status r"
    using assms by (auto simp: ensure_experiment_def Let_def split: if_splits)
  have "same_source e c (d\<lparr>ca_revisions := rs\<rparr>) = same_source e c d" "game_secrets (d\<lparr>ca_revisions := rs\<rparr>) = game_secrets d" for d rs
    by (simp_all add: same_source_def experiment_definition_def experiment_secrets_def game_secrets_def)
  moreover have "same_source e c ?u" by (rule update_source) simp_all
  ultimately show "same_source e c c'" "game_secrets c' = game_secrets c" "s = ex_status r" using c' by auto
qed

section \<open>Every operation keeps the cache current\<close>

lemma build_runtime_parts:
  assumes "build_runtime srv now c e h = (h', Ok i)" "experiment_definition (catalogue_of h) e = Some r"
  obtains l where "ri_experiment i = e" "ri_config i = c" "ri_revision i = ex_revision r" "parse_lifecycle (ex_status r) = Ok l"
    "ri_lifecycle i = l"
proof -
  obtain cat s where ens: "ensure_experiment now (catalogue_record srv e c None) (catalogue_of h) = (cat, s)" by force
  have x: "xr_id (catalogue_record srv e c None) = e" by (simp add: catalogue_record_def)
  have d: "experiment_definition (catalogue_of h) (xr_id (catalogue_record srv e c None)) = Some r" unfolding x by (rule assms(2))
  have src: "same_source e (catalogue_of h) cat" "s = ex_status r"
    by (rule ensure_source [OF d ens])+
  then obtain r' where "experiment_definition cat e = Some r'" "ex_revision r' = ex_revision r"
    using assms(2) by (auto simp: same_source_def map_option_eq_Some)
  then show ?thesis
    using assms(1) src(2) that
    by (auto simp: build_runtime_def ens Let_def ok_or_def in_catalogue_def split: outcome.splits if_splits)
qed

lemma build_runtime_store:
  assumes "build_runtime srv now c e h = (h', x)" "experiment_definition (catalogue_of h) e = Some r" "catalogue_ok (catalogue_of h)"
  shows "catalogue_ok (catalogue_of h')" "same_source e' (catalogue_of h) (catalogue_of h')"
    "game_secrets (catalogue_of h') = game_secrets (catalogue_of h)" "hs_instances h' = hs_instances h" "hs_cache h' = hs_cache h"
proof -
  obtain cat s where ens: "ensure_experiment now (catalogue_record srv e c None) (catalogue_of h) = (cat, s)" by force
  have id: "xr_id (catalogue_record srv e c None) = e" by (simp add: catalogue_record_def)
  have d: "experiment_definition (catalogue_of h) (xr_id (catalogue_record srv e c None)) = Some r" unfolding id by (rule assms(2))
  have src: "same_source e' (catalogue_of h) cat" "game_secrets cat = game_secrets (catalogue_of h)" "catalogue_ok cat"
    using ensure_source(1,2) [OF d ens] ensure_ok [OF assms(3), of now "catalogue_record srv e c None"] ens by simp_all
  have "catalogue_of h' = catalogue_of h \<or> catalogue_of h' = cat" "hs_instances h' = hs_instances h" "hs_cache h' = hs_cache h"
    using assms(1)
    by (auto simp: build_runtime_def ens Let_def in_catalogue_def split: outcome.splits if_splits)
  then show "catalogue_ok (catalogue_of h')" "same_source e' (catalogue_of h) (catalogue_of h')"
    "game_secrets (catalogue_of h') = game_secrets (catalogue_of h)" "hs_instances h' = hs_instances h" "hs_cache h' = hs_cache h"
    using src assms(3) by auto
qed

lemma set_update: "set (AList.update k v xs) \<subseteq> insert (k, v) (set xs)"
  by (induction xs) auto

lemma request_current:
  assumes "cache_current srv h"
  shows "cache_current srv (fst (experiment_router srv now e h))"
proof (cases "map_of (hs_cache h) e = None \<and> (\<exists>c. hydrated_experiment_config srv (catalogue_of h) e = Ok c \<and>
    as_game_ok srv (cf_game c) \<and> hv_resources srv c)")
  case True
  then obtain c where c: "map_of (hs_cache h) e = None" "hydrated_experiment_config srv (catalogue_of h) e = Ok c"
    "as_game_ok srv (cf_game c)" "hv_resources srv c" by blast
  obtain r c0 where r: "experiment_definition (catalogue_of h) e = Some r" "experiment_config_from_json srv (ex_config r) e = Ok c0"
    "c = apply_game_provider_secrets (game_secrets (catalogue_of h)) (apply_experiment_secrets (experiment_secrets (catalogue_of h) e) c0)"
    using c(2) by (auto simp: hydrated_experiment_config_def)
  obtain h1 x where b: "build_runtime srv now c e h = (h1, x)" by force
  have ok: "catalogue_ok (catalogue_of h)" using assms by (simp add: cache_current_def)
  note kept = build_runtime_store [OF b r(1) ok]
  have h1: "cache_current srv h1"
    by (rule cache_current_same [OF assms kept(1) _ _ kept(4)]) (use kept assms in \<open>auto simp: cache_current_def\<close>)
  show ?thesis
  proof (cases x)
    case (Ok i)
    let ?h = "h1\<lparr>hs_instances := hs_instances h1 @ [i], hs_cache := AList.update e (length (hs_instances h1)) (hs_cache h1)\<rparr>"
    have i: "ri_experiment i = e" "ri_config i = c" "ri_revision i = ex_revision r" "parse_lifecycle (ex_status r) = Ok (ri_lifecycle i)"
      using build_runtime_parts [OF _ r(1)] b Ok by blast+
    have "runtime_current srv (catalogue_of h) e i" unfolding runtime_current_def using i r by blast
    then have new: "runtime_current srv (catalogue_of h1) e i"
      by (rule runtime_current_same [OF _ kept(2)]) (simp add: kept(3))
    have "n < length (hs_instances ?h) \<and> runtime_current srv (catalogue_of ?h) k (hs_instances ?h ! n)"
      if "(k, n) \<in> set (hs_cache ?h)" for k n
    proof (cases "(k, n) = (e, length (hs_instances h1))")
      case False
      then have "(k, n) \<in> set (hs_cache h1)" using that set_update [of e "length (hs_instances h1)" "hs_cache h1"] by auto
      then have "n < length (hs_instances h1) \<and> runtime_current srv (catalogue_of h1) k (hs_instances h1 ! n)"
        using h1 by (auto simp: cache_current_def)
      then show ?thesis by (simp add: nth_append)
    qed (simp add: new)
    then have "cache_current srv ?h" using kept(1) h1 by (auto simp: cache_current_def distinct_update)
    moreover have "fst (experiment_router srv now e h) = ?h"
      using c b Ok by (simp add: experiment_router_def ensure_def)
    ultimately show ?thesis by simp
  qed (use c b h1 in \<open>simp_all add: experiment_router_def ensure_def\<close>)
next
  case False
  then have "fst (experiment_router srv now e h) = h"
    by (auto simp: experiment_router_def ensure_def split: option.splits outcome.splits if_splits)
  then show ?thesis using assms by simp
qed

lemma cache_keys: "cache_current srv h \<Longrightarrow> distinct (map fst (hs_cache h))"
  by (simp add: cache_current_def)

lemma save_current:
  assumes "cache_current srv h"
  shows "cache_current srv (fst (host_save srv now e q h))"
proof (cases "admin_save_experiment_config srv now e q (hs_admin h)")
  case (Ok x)
  obtain st k c where x: "x = (st, k, c)" by (cases x) auto
  have ok: "catalogue_ok (catalogue_of h)" using assms by (simp add: cache_current_def)
  obtain cat j us ds summary where s: "save_experiment_configuration now e (sq_expected q) j summary us ds (catalogue_of h) = Ok (cat, k)"
    and st: "am_catalogue st = cat"
    using Ok x by (auto simp: admin_save_experiment_config_def Let_def split: if_splits)
  have "cache_current srv (invalidate_runtime_router e (h\<lparr>hs_admin := st\<rparr>))"
  proof (rule cache_current_same [OF assms])
    show "catalogue_ok (catalogue_of (invalidate_runtime_router e (h\<lparr>hs_admin := st\<rparr>)))"
      using save_ok [OF s ok] by (simp add: invalidate_runtime_router_def st)
  qed (use save_source [OF s ok] cache_keys [OF assms] in
      \<open>auto simp: invalidate_runtime_router_def st distinct_delete, auto simp: AList.delete_eq\<close>)
  then show ?thesis using Ok x by (simp add: host_save_def)
qed (use assms in \<open>simp_all add: host_save_def\<close>)

lemma archive_current:
  assumes "cache_current srv h"
  shows "cache_current srv (fst (host_archive e h))"
proof (cases "admin_archive_experiment e (hs_admin h)")
  case (Ok st)
  obtain cat where a: "archive_experiment e (catalogue_of h) = Ok cat" and st: "am_catalogue st = cat"
    using Ok by (auto simp: admin_archive_experiment_def)
  have cat: "cat = update_experiments (\<lambda>r. ex_id r = e \<and> List.member [''inactive'', ''completed''] (ex_status r))
      (\<lambda>r. r\<lparr>ex_status := ''archived''\<rparr>) (catalogue_of h)"
    using a by (auto simp: archive_experiment_def Let_def split: if_splits option.splits)
  have same: "same_source e' (catalogue_of h) cat" if "e' \<noteq> e" for e'
    unfolding cat by (rule update_source) (use that in simp_all)
  have "cache_current srv (invalidate_runtime_router e (h\<lparr>hs_admin := st\<rparr>))"
  proof (rule cache_current_same [OF assms])
    show "catalogue_ok (catalogue_of (invalidate_runtime_router e (h\<lparr>hs_admin := st\<rparr>)))"
      using assms by (simp add: invalidate_runtime_router_def st cat cache_current_def catalogue_ok_columns)
  qed (use same cache_keys [OF assms] in
      \<open>auto simp: invalidate_runtime_router_def st cat distinct_delete, auto simp: AList.delete_eq\<close>)
  then show ?thesis using Ok by (simp add: host_archive_def)
qed (use assms in \<open>simp_all add: host_archive_def\<close>)

lemma settings_current:
  assumes "cache_current srv h"
  shows "cache_current srv (fst (host_settings srv q h))"
proof (cases "admin_update_game_settings srv q (hs_admin h)")
  case (Ok x)
  obtain st n where x: "x = (st, n)" by (cases x)
  obtain s us ds where "update_game_settings trim_str (gq_expected q) s us ds (catalogue_of h) = Ok (am_catalogue st, n)"
    using Ok x by (auto simp: admin_update_game_settings_def Let_def)
  then obtain t gs where st: "am_catalogue st = (catalogue_of h)\<lparr>ca_settings := t, ca_game_secrets := gs\<rparr>"
    by (auto simp: update_game_settings_def split: if_splits dest!: sym [of _ "am_catalogue st"])
  have cat: "ca_experiments (am_catalogue st) = ca_experiments (catalogue_of h)" "ca_revisions (am_catalogue st) = ca_revisions (catalogue_of h)"
    "ca_secrets (am_catalogue st) = ca_secrets (catalogue_of h)"
    by (simp_all add: st)
  then have same: "same_source e' (catalogue_of h) (am_catalogue st)" "experiment_definition (am_catalogue st) e' = experiment_definition (catalogue_of h) e'" for e'
    by (simp_all add: same_source_def experiment_definition_def experiment_secrets_def)
  have "catalogue_ok (am_catalogue st)"
    using assms cat by (simp add: cache_current_def catalogue_ok_def experiment_definition_def has_revision_def)
  then have "cache_current srv (invalidate_inactive_runtime_routers (h\<lparr>hs_admin := st\<rparr>))"
    using cache_keys [OF assms]
    by (intro cache_current_same [OF assms]) (auto simp: invalidate_inactive_runtime_routers_def same distinct_map_filter)
  then show ?thesis using Ok x by (simp add: host_settings_def)
qed (use assms in \<open>simp_all add: host_settings_def\<close>)

lemma added_current:
  assumes "cache_current srv h" "create_experiment now x (catalogue_of h) = Ok cat"
  shows "cache_current srv (h\<lparr>hs_admin := (hs_admin h)\<lparr>am_catalogue := cat\<rparr>\<rparr>)"
proof (rule cache_current_same [OF assms(1)])
  have ok: "catalogue_ok (catalogue_of h)" using assms(1) by (simp add: cache_current_def)
  show "catalogue_ok (catalogue_of (h\<lparr>hs_admin := (hs_admin h)\<lparr>am_catalogue := cat\<rparr>\<rparr>))" using create_ok [OF ok assms(2)] by simp
  fix e n assume "(e, n) \<in> set (hs_cache (h\<lparr>hs_admin := (hs_admin h)\<lparr>am_catalogue := cat\<rparr>\<rparr>))"
  then have "experiment_definition (catalogue_of h) e \<noteq> None"
    using assms(1) by (auto simp: cache_current_def runtime_current_def)
  from create_source [OF assms(2) this]
  show "same_source e (catalogue_of h) (catalogue_of (h\<lparr>hs_admin := (hs_admin h)\<lparr>am_catalogue := cat\<rparr>\<rparr>)) \<and>
      (game_secrets (catalogue_of (h\<lparr>hs_admin := (hs_admin h)\<lparr>am_catalogue := cat\<rparr>\<rparr>)) = game_secrets (catalogue_of h) \<or>
       map_option ex_status (experiment_definition (catalogue_of h) e) \<noteq> Some ''inactive'')"
    by simp
qed (use cache_keys [OF assms(1)] in simp_all)

lemma annotate_current:
  assumes "cache_current srv h" "admin_update_experiment_catalogue e pinned notes (hs_admin h) = Ok st"
  shows "cache_current srv (h\<lparr>hs_admin := st\<rparr>)"
proof -
  have st: "am_catalogue st = update_experiments (\<lambda>r. ex_id r = e) (\<lambda>r. r\<lparr>ex_pinned := pinned, ex_notes := notes\<rparr>) (catalogue_of h)"
    using assms(2) by (auto simp: admin_update_experiment_catalogue_def update_experiment_catalogue_def split: if_splits)
  show ?thesis
  proof (rule cache_current_same [OF assms(1)])
    show "catalogue_ok (catalogue_of (h\<lparr>hs_admin := st\<rparr>))"
      using assms(1) by (simp add: st cache_current_def catalogue_ok_columns)
  qed (use cache_keys [OF assms(1)] in \<open>simp_all add: st update_source\<close>)
qed

lemma status_current:
  assumes h: "cache_current srv h" and n: "map_of (hs_cache h) e = Some n"
  shows "cache_current srv (fst (admin_update_experiment_status srv connect has_transcription has_tts n q h))"
proof (cases "\<exists>h' url. admin_update_experiment_status srv connect has_transcription has_tts n q h = (h', Ok url)")
  case True
  then obtain h' url chk where w: "write_status n q chk h = (h', Ok url)"
    "fst (admin_update_experiment_status srv connect has_transcription has_tts n q h) = h'"
    by (auto simp: admin_update_experiment_status_def split: outcome.splits)
  let ?i = "hs_instances h ! n"
  have i: "n < length (hs_instances h)" "runtime_current srv (catalogue_of h) e ?i"
    using h map_of_SomeD [OF n] by (auto simp: cache_current_def)
  then obtain r c gs where r: "ri_experiment ?i = e" "experiment_definition (catalogue_of h) e = Some r" "ri_revision ?i = ex_revision r"
    "experiment_config_from_json srv (ex_config r) e = Ok c"
    "ri_config ?i = apply_game_provider_secrets gs (apply_experiment_secrets (experiment_secrets (catalogue_of h) e) c)"
    by (auto simp: runtime_current_def)
  obtain l status where u: "update_experiment_status chk False (tq_status q) (ri_lifecycle ?i, ex_status r) = Ok ((l, status), url)"
    and h': "h' = (let h2 = (in_catalogue (set_status e status) h)\<lparr>hs_instances := (hs_instances h)[n := ?i\<lparr>ri_lifecycle := l, ri_participant_url := url\<rparr>]\<rparr>
       in if l = Inactive then invalidate_runtime_router e h2 else h2)"
    using w(1) r(1,2) by (auto simp: write_status_def Let_def in_catalogue_def split: outcome.splits prod.splits)
  have s: "status = experiment_lifecycle_str l" using update_status_ok [OF u] by simp
  have cat: "catalogue_of h' = set_status e status (catalogue_of h)" by (simp add: h' Let_def in_catalogue_def invalidate_runtime_router_def)
  have ok: "catalogue_ok (catalogue_of h')"
    using h by (simp add: cat set_status_def cache_current_def catalogue_ok_columns)
  have keys: "distinct (map fst (hs_cache h'))"
    using cache_keys [OF h] by (simp add: h' Let_def in_catalogue_def invalidate_runtime_router_def distinct_delete)
  have inst: "hs_instances h' = (hs_instances h)[n := ?i\<lparr>ri_lifecycle := l, ri_participant_url := url\<rparr>]"
    by (simp add: h' Let_def invalidate_runtime_router_def in_catalogue_def)
  have "m < length (hs_instances h') \<and> runtime_current srv (catalogue_of h') k (hs_instances h' ! m)"
    if "(k, m) \<in> set (hs_cache h')" for k m
  proof (cases "k = e")
    case False
    have "(k, m) \<in> set (hs_cache h)"
      using that by (auto simp: h' Let_def invalidate_runtime_router_def in_catalogue_def AList.delete_eq split: if_splits)
    then have m: "m < length (hs_instances h)" "runtime_current srv (catalogue_of h) k (hs_instances h ! m)"
      using h by (auto simp: cache_current_def)
    then have "m \<noteq> n" using r(1) False by (auto simp: runtime_current_def)
    moreover have "same_source k (catalogue_of h) (catalogue_of h')"
      unfolding cat set_status_def by (rule update_source) (use False in simp_all)
    ultimately show ?thesis
      using m by (auto simp: inst cat set_status_def intro!: runtime_current_same [OF m(2)])
  next
    case True
    have live: "l \<noteq> Inactive" "(e, m) \<in> set (hs_cache h)"
      using that True by (auto simp: h' Let_def invalidate_runtime_router_def in_catalogue_def AList.delete_eq split: if_splits)
    then have "m = n" using n cache_keys [OF h] by (metis map_of_eq_Some_iff option.inject)
    moreover have "runtime_current srv (catalogue_of h') e (?i\<lparr>ri_lifecycle := l, ri_participant_url := url\<rparr>)"
    proof -
      have "experiment_definition (catalogue_of h') e = Some (r\<lparr>ex_status := status\<rparr>)"
        using r(2) definition_member [OF r(2)] by (simp add: cat set_status_def definition_update)
      moreover have "experiment_secrets (catalogue_of h') e = experiment_secrets (catalogue_of h) e"
        by (simp add: cat set_status_def experiment_secrets_def)
      moreover have "status \<noteq> ''inactive''" using live(1) s by (cases l) simp_all
      ultimately show ?thesis
        unfolding runtime_current_def using r s
        by (intro conjI exI [of _ "r\<lparr>ex_status := status\<rparr>"] exI [of _ c] exI [of _ gs]) (simp_all del: parse_lifecycle.simps)
    qed
    ultimately show ?thesis using i(1) True by (simp add: inst)
  qed
  then show ?thesis using ok keys w(2) by (auto simp: cache_current_def)
next
  case False
  then have "fst (admin_update_experiment_status srv connect has_transcription has_tts n q h) = h"
    by (auto simp: admin_update_experiment_status_def write_status_def Let_def split: outcome.splits prod.splits)
  then show ?thesis using h by simp
qed

lemma handler_current:
  assumes "cache_current srv h"
  shows "cache_current srv (fst (on_runtime n f h))"
proof -
  obtain w x where f: "f (world_of h n) = (w, x)" by force
  let ?h = "fst (on_runtime n f h)"
  have h: "hs_cache ?h = hs_cache h" "catalogue_of ?h = catalogue_of h"
    "hs_instances ?h = (hs_instances h)[n := (hs_instances h ! n)\<lparr>ri_memory := w_memory w\<rparr>]"
    by (simp_all add: on_runtime_def f)
  have "runtime_current srv cat e (i\<lparr>ri_memory := m\<rparr>) = runtime_current srv cat e i" for cat e i m
    by (simp add: runtime_current_def)
  then have "runtime_current srv (catalogue_of h) e (hs_instances ?h ! k) = runtime_current srv (catalogue_of h) e (hs_instances h ! k)"
    if "k < length (hs_instances h)" for e k
    using that by (cases "k = n") (simp_all add: h(3))
  then show ?thesis using assms by (auto simp: cache_current_def h)
qed

lemma hosts_current: "hosts srv h \<Longrightarrow> cache_current srv h"
proof (induction rule: hosts.induct)
  case (hosts_start st d)
  have "catalogue_ok (fst (deactivate_open_experiments (am_catalogue st)))"
    using hosts_start by (simp add: deactivate_open_experiments_def Let_def catalogue_ok_columns)
  then show ?case by (simp add: start_host_def cache_current_def)
next
  case (hosts_create h now e config remark st)
  obtain x cat where "create_experiment now x (catalogue_of h) = Ok cat" "st = (hs_admin h)\<lparr>am_catalogue := cat\<rparr>"
    using hosts_create.hyps(2) by (auto simp: admin_create_experiment_def Let_def)
  then show ?case using added_current [OF hosts_create.IH] by simp
next
  case (hosts_clone h now e e' st)
  obtain x cat where "create_experiment now x (catalogue_of h) = Ok cat" "st = (hs_admin h)\<lparr>am_catalogue := cat\<rparr>"
    using hosts_clone.hyps(2) by (auto simp: admin_clone_experiment_def Let_def)
  then show ?case using added_current [OF hosts_clone.IH] by simp
next
  case (hosts_annotate h e pinned remark st)
  show ?case by (rule annotate_current [OF hosts_annotate.IH hosts_annotate.hyps(2)])
qed (simp_all add: request_current save_current archive_current settings_current status_current handler_current)

end
