(* ===== verification/Activation_Properties.thy ===== *)
theory Activation_Properties
  imports Host_Properties Host_Invariant
begin

text \<open>
  On which revision of its configuration an experiment opens. The checks of a change of status and its write
  are two phases, and saving a revision fits between them.
\<close>

section \<open>Cached runtimes\<close>

text \<open>C19 (invariant). A cached runtime is current while each operation runs as a whole: however requests, saved
  revisions, changes of status, archiving, changes of the game settings and the handlers of the runtimes
  follow one another, the runtime that answers for an experiment runs the stored revision, in the stored
  status, with the stored configuration and the secrets of the experiment; while the experiment is inactive it
  also holds the current provider credentials; in another status, completed included, it may hold
  earlier ones. (A save between the phases of a change of status is \<open>intake_opens_on_unchecked_revision\<close>.)\<close>

theorem cached_runtimes_are_current:
  assumes "hosts srv h" "map_of (hs_cache h) e = Some n"
  shows "n < length (hs_instances h) \<and> ri_experiment (hs_instances h ! n) = e \<and>
    (\<exists>r c gs. experiment_definition (catalogue_of h) e = Some r \<and> ri_revision (hs_instances h ! n) = ex_revision r \<and>
       parse_lifecycle (ex_status r) = Ok (ri_lifecycle (hs_instances h ! n)) \<and>
       experiment_config_from_json srv (ex_config r) e = Ok c \<and>
       ri_config (hs_instances h ! n) =
         apply_game_provider_secrets gs (apply_experiment_secrets (experiment_secrets (catalogue_of h) e) c) \<and>
       (ex_status r = ''inactive'' \<longrightarrow> gs = game_secrets (catalogue_of h)))"
  using hosts_current [OF assms(1)] map_of_SomeD [OF assms(2)]
  by (auto simp: cache_current_def runtime_current_def simp del: parse_lifecycle.simps)

section \<open>Saving between the phases\<close>

lemma host_save_Ok:
  assumes "host_save srv now e sq h = (h1, Ok k)" "catalogue_ok (catalogue_of h)"
  obtains r j where "experiment_definition (catalogue_of h) e = Some r" "ex_status r = ''inactive''" "k = ex_revision r + 1"
    "experiment_definition (catalogue_of h1) e = Some (r\<lparr>ex_config := j, ex_revision := k\<rparr>)"
    "hs_instances h1 = hs_instances h" "map_of (hs_cache h1) e = None"
proof -
  obtain st c where save: "admin_save_experiment_config srv now e sq (hs_admin h) = Ok (st, k, c)"
    and h1: "h1 = invalidate_runtime_router e (h\<lparr>hs_admin := st\<rparr>)"
    using assms(1) by (auto simp: host_save_def split: outcome.splits prod.splits)
  obtain cat j us ds summary where s: "save_experiment_configuration now e (sq_expected sq) j summary us ds (catalogue_of h) = Ok (cat, k)"
    and st: "am_catalogue st = cat"
    using save by (auto simp: admin_save_experiment_config_def Let_def split: if_splits)
  obtain r where "experiment_definition (catalogue_of h) e = Some r" "ex_revision r = sq_expected sq" "ex_status r = ''inactive''"
    "k = sq_expected sq + 1" "experiment_definition cat e = Some (r\<lparr>ex_config := j, ex_revision := sq_expected sq + 1\<rparr>)"
    by (rule save_result [OF s assms(2)]) blast
  then show ?thesis
    using that [of r j] st h1 by (simp add: invalidate_runtime_router_def delete_conv)
qed

lemma status_phase_Ok:
  assumes "status_phase srv connect has_transcription has_tts i q st = Ok chk" "parse_lifecycle (tq_status q) = Ok l" "allows_intake l"
  shows "chk_version_matches chk" "\<exists>u. chk_url chk = Ok u" "chk_local_issues chk = []" "chk_activation_issues chk = []"
  using assms by (auto simp: status_phase_def Let_def split: if_splits)

lemma open_from_inactive: "allows_intake l \<Longrightarrow> can_transition_to Inactive l"
  by (cases l) simp_all

lemma write_open:
  assumes "parse_lifecycle (tq_status q) = Ok l" "allows_intake l" "ri_lifecycle (hs_instances h ! n) = Inactive"
    and "chk_version_matches chk" "chk_url chk = Ok u" "chk_local_issues chk = []" "chk_activation_issues chk = []"
    and "experiment_definition (catalogue_of h) (ri_experiment (hs_instances h ! n)) = Some r"
  obtains h' where "write_status n q chk h = (h', Ok (Some u))"
    "experiment_definition (catalogue_of h') (ri_experiment (hs_instances h ! n)) = Some (r\<lparr>ex_status := tq_status q\<rparr>)"
    "hs_cache h' = hs_cache h"
proof -
  have "update_experiment_status chk False (tq_status q) (Inactive, ex_status r) = Ok ((l, tq_status q), Some u)"
    using assms(1,2,4-7) open_from_inactive [OF assms(2)]
    by (simp add: update_experiment_status_def parse_lifecycle_Ok del: parse_lifecycle.simps can_transition_to.simps)
  moreover have "l \<noteq> Inactive" using assms(2) by auto
  moreover have "experiment_definition (Experiment_Catalogue.set_status e (tq_status q) (catalogue_of h)) e = Some (r\<lparr>ex_status := tq_status q\<rparr>)"
    if "e = ri_experiment (hs_instances h ! n)" for e
    using assms(8) definition_member [OF assms(8)] that
    by (simp add: Experiment_Catalogue.set_status_def definition_update)
  ultimately show ?thesis
    using that assms(3,8) by (simp add: write_status_def Let_def in_catalogue_def)
qed

text \<open>C21 (safety). The revision that is checked need not be the one that opens. Whenever a change of status has passed its
  checks on a closed experiment and a new revision is saved before it is written, the write opens intake on
  the new revision, which no check has seen, and the next request builds a runtime of it.\<close>

theorem intake_opens_on_unchecked_revision:
  assumes "catalogue_ok (catalogue_of h)" "parse_lifecycle (tq_status q) = Ok l" "allows_intake l"
    and "status_phase srv connect has_transcription has_tts (hs_instances h ! n) q (hs_admin h) = Ok chk"
    and "ri_experiment (hs_instances h ! n) = e" "ri_lifecycle (hs_instances h ! n) = Inactive"
    and "host_save srv now e sq h = (h1, Ok k)"
  shows "\<exists>h2 url r s. write_status n q chk h1 = (h2, Ok url) \<and>
    experiment_definition (catalogue_of h) e = Some r \<and> experiment_definition (catalogue_of h1) e = Some s \<and>
    ex_revision s = ex_revision r + 1 \<and> experiment_definition (catalogue_of h2) e = Some (s\<lparr>ex_status := tq_status q\<rparr>) \<and>
    map_of (hs_cache h2) e = None"
proof -
  obtain r j where r: "experiment_definition (catalogue_of h) e = Some r" "k = ex_revision r + 1"
    "experiment_definition (catalogue_of h1) e = Some (r\<lparr>ex_config := j, ex_revision := k\<rparr>)"
    "hs_instances h1 = hs_instances h" "map_of (hs_cache h1) e = None"
    by (rule host_save_Ok [OF assms(7,1)])
  note chk = status_phase_Ok [OF assms(4,2,3)]
  obtain u where u: "chk_url chk = Ok u" using chk(2) by blast
  obtain h2 where "write_status n q chk h1 = (h2, Ok (Some u))"
    "experiment_definition (catalogue_of h2) e = Some (r\<lparr>ex_config := j, ex_revision := k, ex_status := tq_status q\<rparr>)"
    "hs_cache h2 = hs_cache h1"
    using write_open [OF assms(2,3) _ chk(1) u chk(3,4), of h1 n] r(3,4) assms(5,6) by auto
  then show ?thesis using r by auto
qed

section \<open>An instance\<close>

text \<open>The saved revision turns Prolific on and has no completion codes. The stored form keeps only which of the two
  configurations it is.\<close>

definition unready_config :: full_config where
  "unready_config = host_config\<lparr>cf_prolific := default_prolific\<lparr>pc_enabled := True\<rparr>\<rparr>"

definition race_server :: host_server where
  "race_server = demo_server\<lparr>as_decode := (\<lambda>v. case v of
     JObj kvs \<Rightarrow> Some (stored_of (if map_of kvs ''checked'' = None then unready_config else host_config)) | _ \<Rightarrow> None)\<rparr>"

definition race_row :: experiment_row where
  "race_row = demo_experiment\<lparr>ex_config := JObj [(''checked'', JNull)], ex_status := ''inactive''\<rparr>"

definition race_host :: "cue_choice_state host" where
  "race_host = paused_host\<lparr>hs_admin := demo_admin\<lparr>am_catalogue := (am_catalogue demo_admin)\<lparr>
     ca_experiments := [race_row],
     ca_revisions := [\<lparr>rv_experiment = ''e'', rv_revision = 1, rv_config = ex_config race_row, rv_created = 0, rv_summary = None\<rparr>]\<rparr>\<rparr>\<rparr>"

definition race_save :: save_request where
  "race_save = \<lparr>sq_expected = 1, sq_config = JObj [], sq_yaml = None, sq_updates = [], sq_deletions = [], sq_summary = None\<rparr>"

definition open_request :: status_request where
  "open_request = \<lparr>tq_status = ''active'', tq_kind = None, tq_verify = False\<rparr>"

lemma unready_accepted: "validate_config host_http unready_config = Ok ()"
  using host_config_accepted
  by (simp add: validate_config_iff config_ok_def unready_config_def limits_ok_def speech_ok_def agents_ok_def
      default_prolific_def path_codes_def code_ok_def host_config_def Config_Properties.demo_config_def default_config_def Let_def)

definition race_config :: "catalogue \<Rightarrow> full_config \<Rightarrow> full_config" where
  "race_config cat c = apply_game_provider_secrets (game_secrets cat) (apply_experiment_secrets (experiment_secrets cat ''e'')
     (into_runtime (stored_of c) host_config ''e'' (experiment_public_base_url (sv_public_url (cf_server host_config)) ''e'')))"

lemma race_accepted:
  assumes "validate_config host_http c = Ok ()"
  shows "validate_config host_http (into_runtime (stored_of c) host_config ''e''
      (experiment_public_base_url (sv_public_url (cf_server host_config)) ''e'')) = Ok ()"
proof -
  have "validate_new_experiment_id ''e'' = Ok ()" by code_simp
  moreover have "validate_http_url host_http ''url'' u = Ok ()" for u
    using demo_parts(6) by (simp add: validate_http_url_iff http_url_def host_http_def)
  ultimately show ?thesis using stored_configuration_returns [OF assms host_config_accepted] by blast
qed

lemma race_parsed:
  "experiment_config_from_json race_server (JObj kvs) ''e'' = Ok (into_runtime
     (stored_of (if map_of kvs ''checked'' = None then unready_config else host_config)) host_config ''e''
     (experiment_public_base_url (sv_public_url (cf_server host_config)) ''e''))"
  using race_accepted [OF host_config_accepted] race_accepted [OF unready_accepted]
  by (simp add: experiment_config_from_json_def experiment_config_from_json_unvalidated_def validated_def race_server_def
      demo_server_def ok_or_def)

lemma race_hydrated:
  "experiment_definition cat ''e'' = Some row \<Longrightarrow> ex_config row = JObj kvs \<Longrightarrow>
     hydrated_experiment_config race_server cat ''e'' =
       Ok (race_config cat (if map_of kvs ''checked'' = None then unready_config else host_config))"
  by (simp add: hydrated_experiment_config_def race_parsed race_config_def ok_or_def)

lemma race_parts:
  "cf_prolific (race_config cat c) = (cf_prolific c)\<lparr>pc_token := (case game_secrets cat ''prolific.api_token'' of Some v \<Rightarrow> v | None \<Rightarrow> [])\<rparr>"
  "cf_transcription (race_config cat c) = cf_transcription c" "tt_enabled (cf_tts (race_config cat c)) = tt_enabled (cf_tts c)"
  "cf_agents (race_config cat c) = cf_agents c" "cf_game (race_config cat c) = cf_game c"
  by (simp_all add: race_config_def apply_game_provider_secrets_def apply_experiment_secrets_def into_runtime_def stored_of_def Let_def)

lemma race_issues:
  "experiment_activation_issues host_http uris yamls [] False False connect api_url (race_config cat host_config) = []"
  "experiment_activation_issues host_http uris yamls [] False False connect api_url (race_config cat unready_config) \<noteq> []"
proof -
  have b: "blank []" using demo_parts(5) by simp
  have "activation_issues_for_config host_http uris yamls [] False False (race_config cat host_config) = []"
    by (simp add: activation_issues_for_config_def local_testing_issues_for_config_def activation_issues_def race_parts
        prolific_completion_path_issues_def prolific_local_activation_issues_def validate_agent_configuration_def host_config_def
        Config_Properties.demo_config_def default_config_def default_prolific_def default_transcription_def default_tts_def Let_def)
  then show "experiment_activation_issues host_http uris yamls [] False False connect api_url (race_config cat host_config) = []"
    by (simp add: experiment_activation_issues_def prolific_activation_preflight_def race_parts host_config_def
        Config_Properties.demo_config_def default_config_def default_prolific_def)
  have "prolific_completion_path_issues (race_config cat unready_config) \<noteq> []"
    using b by (simp add: prolific_completion_path_issues_def race_parts unready_config_def default_prolific_def path_codes_def)
  then show "experiment_activation_issues host_http uris yamls [] False False connect api_url (race_config cat unready_config) \<noteq> []"
    by (simp add: experiment_activation_issues_def activation_issues_for_config_def local_testing_issues_for_config_def Let_def)
qed

lemma race_catalogue:
  "experiment_definition (catalogue_of race_host) ''e'' = Some race_row" "catalogue_ok (catalogue_of race_host)"
  "hs_instances race_host ! 0 = \<lparr>ri_experiment = ''e'', ri_config = host_config, ri_revision = 1, ri_lifecycle = Inactive, ri_participant_url = None,
     ri_memory = w_memory (it_world playing_state)\<rparr>"
  "am_settings (hs_admin race_host) = default_game_settings"
  by (simp_all add: race_host_def race_row_def demo_experiment_def demo_admin_def experiment_definition_def catalogue_ok_def
      has_revision_def paused_host_def demo_host_def)

lemma race_check:
  "\<exists>chk. status_phase race_server (\<lambda>t u. Err []) False False (hs_instances race_host ! 0) open_request (hs_admin race_host) = Ok chk"
proof -
  have "ex_config race_row = JObj [(''checked'', JNull)]" "ex_game_version race_row = as_version race_server"
    by (simp_all add: race_row_def demo_experiment_def race_server_def demo_server_def)
  moreover have "running_participant_url host_config b None = Ok DirectUrl" for b
    by (simp add: running_participant_url_def host_config_def Config_Properties.demo_config_def default_config_def default_prolific_def)
  moreover have "as_http race_server = host_http" "as_definitions race_server = []"
    by (simp_all add: race_server_def demo_server_def)
  ultimately show ?thesis
    using race_hydrated [OF race_catalogue(1), of "[(''checked'', JNull)]"]
    by (simp add: status_phase_def race_catalogue(1,3) open_request_def ok_or_def Let_def race_issues(1))
qed

lemma race_saves:
  "\<exists>h1. host_save race_server 2000 ''e'' race_save race_host = (h1, Ok 2) \<and>
     map_option ex_config (experiment_definition (catalogue_of h1) ''e'') = Some (JObj [])"
proof -
  have v: "\<exists>kvs. apply_provider_endpoint_defaults (endpoint_settings.truncate default_game_settings) (JObj []) = Ok (JObj kvs) \<and>
      map_of kvs ''checked'' = None"
    by (simp add: apply_provider_endpoint_defaults_def default_endpoint_def entry_or_insert_def ok_or_def endpoint_settings.truncate_def)
  obtain kvs where kvs: "apply_provider_endpoint_defaults (endpoint_settings.truncate default_game_settings) (JObj []) = Ok (JObj kvs)"
    "map_of kvs ''checked'' = None" using v by blast
  let ?cat = "catalogue_of race_host"
  let ?c = "race_config ?cat unready_config"
  have safe: "validate_game_config_contains_no_secrets (cf_game ?c) = Ok ()"
  proof -
    have "validate_game_config_contains_no_secrets (JObj []) = Ok ()" by code_simp
    then show ?thesis
      by (simp add: race_parts unready_config_def host_config_def Config_Properties.demo_config_def default_config_def)
  qed
  have ok: "validate_config host_http ?c = Ok ()"
    unfolding race_config_def using accepted_with_secrets race_accepted [OF unready_accepted] by blast
  have same: "?c\<lparr>cf_id := Some ''e''\<rparr> = ?c"
    by (simp add: race_config_def apply_game_provider_secrets_def apply_experiment_secrets_def into_runtime_def Let_def)
  have srv: "as_http race_server = host_http" "as_game_ok race_server = (\<lambda>g. True)" "as_version race_server = ''1''"
    "persistable_config_json race_server c = JObj []" for c
    by (simp_all add: race_server_def demo_server_def persistable_config_json_def)
  have secrets: "secrets_after m [] [] = m" for m :: "string \<rightharpoonup> string"
    by (auto simp: secrets_after_def restrict_map_def)
  obtain cat where save: "save_experiment_configuration 2000 ''e'' 1 (JObj []) None [] [] ?cat = Ok (cat, 2)"
    "experiment_definition cat ''e'' = Some (race_row\<lparr>ex_config := JObj [], ex_revision := 2\<rparr>)"
    by (simp add: save_experiment_configuration_def race_host_def race_row_def demo_experiment_def demo_admin_def changed_def
        has_revision_def update_experiments_def experiment_definition_def Let_def)
  have "admin_save_experiment_config race_server 2000 ''e'' race_save (hs_admin race_host) =
      Ok ((hs_admin race_host)\<lparr>am_catalogue := cat\<rparr>, 2, ?c)"
    using save(1) ok safe same kvs race_parsed [of kvs]
    unfolding race_config_def
    by (simp add: admin_save_experiment_config_def race_catalogue(1,4) race_save_def with_game_def ok_or_def srv secrets
        validated_def Let_def ensure_def race_row_def demo_experiment_def)
  then show ?thesis using save(2) by (simp add: host_save_def invalidate_runtime_router_def)
qed

theorem intake_opens_on_unchecked_revision_witness:
  "\<exists>chk h1 h2 url r c. status_phase race_server (\<lambda>t u. Err []) False False (hs_instances race_host ! 0) open_request (hs_admin race_host) = Ok chk \<and>
     host_save race_server 2000 ''e'' race_save race_host = (h1, Ok 2) \<and> write_status 0 open_request chk h1 = (h2, Ok url) \<and>
     experiment_definition (catalogue_of h2) ''e'' = Some r \<and> ex_status r = ''active'' \<and>
     hydrated_experiment_config race_server (catalogue_of h2) ''e'' = Ok c \<and>
     experiment_activation_issues host_http (\<lambda>u. None) (\<lambda>y. None) [] False False (\<lambda>t u. Err []) [] c \<noteq> []"
proof -
  obtain chk where chk: "status_phase race_server (\<lambda>t u. Err []) False False (hs_instances race_host ! 0) open_request
      (hs_admin race_host) = Ok chk"
    using race_check by blast
  obtain h1 where h1: "host_save race_server 2000 ''e'' race_save race_host = (h1, Ok 2)"
    "map_option ex_config (experiment_definition (catalogue_of h1) ''e'') = Some (JObj [])"
    using race_saves by blast
  have q: "parse_lifecycle (tq_status open_request) = Ok LifeActive" "tq_status open_request = ''active''"
    by (simp_all add: open_request_def)
  have i: "ri_experiment (hs_instances race_host ! 0) = ''e''" "ri_lifecycle (hs_instances race_host ! 0) = Inactive"
    by (simp_all add: race_catalogue(3))
  obtain h2 url s where h2: "write_status 0 open_request chk h1 = (h2, Ok url)"
    "experiment_definition (catalogue_of h1) ''e'' = Some s"
    "experiment_definition (catalogue_of h2) ''e'' = Some (s\<lparr>ex_status := ''active''\<rparr>)"
    using intake_opens_on_unchecked_revision [OF race_catalogue(2) q(1) _ chk i h1(1)] unfolding q(2) by auto
  have s: "ex_config (s\<lparr>ex_status := ''active''\<rparr>) = JObj []" using h1(2) h2(2) by simp
  have c: "hydrated_experiment_config race_server (catalogue_of h2) ''e'' = Ok (race_config (catalogue_of h2) unready_config)"
    using race_hydrated [OF h2(3) s] by simp
  show ?thesis
    by (rule exI [of _ chk], rule exI [of _ h1], rule exI [of _ h2], rule exI [of _ url], rule exI [of _ "s\<lparr>ex_status := ''active''\<rparr>"],
        rule exI [of _ "race_config (catalogue_of h2) unready_config"]) (simp add: chk h1(1) h2(1,3) c race_issues(2))
qed

text \<open>A process that has served one request.\<close>

definition first_host :: "cue_choice_state host" where
  "first_host = start_host (demo_admin\<lparr>am_catalogue := (am_catalogue demo_admin)\<lparr>
     ca_revisions := [\<lparr>rv_experiment = ''e'', rv_revision = 1, rv_config = JObj [], rv_created = 0, rv_summary = None\<rparr>]\<rparr>\<rparr>) empty_db"

lemma router_cached: "experiment_router srv now e h = (h', Ok n) \<Longrightarrow> map_of (hs_cache h') e = Some n"
  by (auto simp: experiment_router_def update_conv split: option.splits outcome.splits prod.splits)

lemma first_host_serves:
  obtains h :: "cue_choice_state host" and n where "hosts demo_server h" "map_of (hs_cache h) ''e'' = Some n"
proof -
  have c: "catalogue_ok ((am_catalogue demo_admin)\<lparr>
      ca_revisions := [\<lparr>rv_experiment = ''e'', rv_revision = 1, rv_config = JObj [], rv_created = 0, rv_summary = None\<rparr>]\<rparr>)"
    by (simp add: demo_admin_def demo_experiment_def catalogue_ok_def experiment_definition_def has_revision_def)
  have start: "hosts demo_server first_host"
    unfolding first_host_def by (rule hosts_start) (simp add: c)
  have row: "experiment_definition (catalogue_of first_host) ''e'' = Some (demo_experiment\<lparr>ex_status := ''inactive''\<rparr>)"
    by (simp add: first_host_def start_host_def demo_admin_def demo_experiment_def deactivate_open_experiments_def
        update_experiments_def experiment_definition_def Let_def)
  have db: "hs_db first_host = empty_db" "hs_cache first_host = []" by (simp_all add: first_host_def start_host_def)
  obtain h n where h: "experiment_router demo_server 1000 ''e'' first_host = (h, Ok n)"
    using demo_builds [of first_host "demo_experiment\<lparr>ex_status := ''inactive''\<rparr>" 1000] db empty_db_inv row
    by (auto simp: empty_db_def demo_experiment_def)
  then show ?thesis using that [of h n] hosts_request [OF start, of 1000 "''e''"] router_cached [OF h] by simp
qed

theorem cached_runtimes_are_current_witness:
  "\<exists>h n r. hosts demo_server h \<and> map_of (hs_cache (h :: cue_choice_state host)) ''e'' = Some n \<and>
     experiment_definition (catalogue_of h) ''e'' = Some r \<and> ri_revision (hs_instances h ! n) = ex_revision r"
proof -
  obtain h :: "cue_choice_state host" and n where h: "hosts demo_server h" "map_of (hs_cache h) ''e'' = Some n"
    by (rule first_host_serves)
  from cached_runtimes_are_current [OF h] h show ?thesis by blast
qed

end
