(* ===== verification/Spec2Isabelle.thy ===== *)
theory Spec2Isabelle
  imports Great_Tree Space_Game Cue_Choice Agent_Settings Session_Properties Intake_Properties Session_Concurrency
    Voice_Socket Sign_In Session_Log Rejections Agent_Properties Experiment_Properties
    Deletion_Properties Secrets_Properties Config_Properties Prolific_Properties Activation_Properties
begin

text \<open>
  Parlando is a server for dialogue experiments: two participants, or a participant and a software
  agent, are admitted, paired into a session, play a game that the server hosts, talk, and leave
  with a result. Every accepted step is stored; a participant's browser only shows what the server
  tells it.

  \<^bold>\<open>Games.\<close> A game implements the trait of \<open>rust-server/src/game.rs\<close>: initial state, decision of
  an action, observation of a role and completion. \<open>Game_Interface\<close> states the trait as a record of
  functions and its contract as locales; \<open>Great_Tree\<close>
  (\<open>games/great-tree/server/src/game\<close>), \<open>Space_Level\<close>, \<open>Space_Engine\<close>, \<open>Space_Game\<close>
  (\<open>space-game/server/src/game\<close>) and \<open>Cue_Choice\<close> (\<open>experiments/cue-choice-rl/server/src\<close>) model
  the three compiled games function by function and interpret the contract. Their lemmas give the
  invariant of every reachable state, what each action does on each branch, which information an
  observation withholds, and when the game is complete. \<open>Agent_Settings\<close> models the declared
  settings of agents in \<open>rust-server/src/game.rs\<close>: validation, normalisation, secrets.

  \<^bold>\<open>The store.\<close> \<open>Session_Store\<close> models the transactions of \<open>rust-server/src/storage.rs\<close> on
  sessions, events, participants and results as functions on a record of tables; each transaction
  is atomic and either applies or leaves the tables as they were. \<open>Store_Contract\<close> states what
  they promise: contiguous event numbers, one clock, a terminal value that is written once, atomic
  transitions, stored values that never change afterwards.

  \<^bold>\<open>Running sessions\<close> of \<open>rust-server/src/app.rs\<close>. \<open>Session_Types\<close> holds the values of
  \<open>protocol.rs\<close> and \<open>config.rs\<close> they use; \<open>Session_Memory\<close> the in-memory session and what
  participants see of it; \<open>Session_Ops\<close> the handlers (start, action, readiness, connection,
  message, expiry, leaving, clean-up) on memory and store, each store call of which may fail;
  \<open>Session_Intake\<close> the way into a session: rate limit, Prolific admission, participants, consent,
  pairing, capacity, creation, joining of an agent. \<open>Session_Machine\<close> composes the handlers into
  one server: a datatype of requests, the handler of each, and the states \<open>serves\<close> reaches under
  any sequence of permitted requests, times and store failures.
  \<open>Session_Invariant\<close>, \<open>Session_Steps\<close> and \<open>Session_Runtime\<close> show that every handler keeps the
  invariant that ties memory to the store; \<open>Session_Durability\<close> that every handler writes the
  store only by its transactions. From these \<open>Session_Properties\<close> and \<open>Intake_Properties\<close>
  derive the properties of the whole server; \<open>Session_Demo\<close> is the concrete server and run their
  instances use.

  In this machine the handlers run one after another. In the code a transition lock of the session keeps
  actions, readiness, the start and the joining of an agent apart, but expiry, leaving, connections and messages do
  not take it, so they can run between the phases of another handler. The properties of
  \<open>Session_Properties\<close> and \<open>Intake_Properties\<close> are not claimed for such executions. \<open>Session_Concurrency\<close> splits an action, a start and an expiry at their awaits, shows that the
  phases compose to the handlers, and shows what other schedules do: a session that runs in memory after it
  has ended in the store, an accepted action that is not stored, a member of an ended session without a
  result. \<open>Session_Log\<close> models \<open>session_log.rs\<close>, the bounded log of a session with the shutdown of its
  writer, and \<open>Rejections\<close> the windows in which rejected inputs are counted.

  \<^bold>\<open>Agents.\<close> \<open>Agents\<close> holds what the live server and the offline runner share: responses, identities, canonical
  documents and derived seeds. \<open>Agent_Loop\<close> models the task of one agent in a live session, with its inbox of
  64 observations and the handlers that fill it, as a step relation; \<open>Agent_Properties\<close> what it promises under
  every schedule and where it does not do what it is meant to do.

  \<^bold>\<open>Offline experiments\<close> of \<open>agent_experiment.rs\<close>. \<open>Headless_Session\<close> models one decision of a session of two
  agents, \<open>Headless_Runs\<close> its loop and the whole session, \<open>Experiment_Plan\<close> the registry, the experiment file and the
  plans made of it, \<open>Experiment_Run\<close> the execution over the result files and checkpoints, which can be resumed.
  The loop ends because every turn counts a decision. A panic of a callback is a case of the model, and
  ends a session without a result. \<open>Experiment_Properties\<close> has what holds of a run and of a resumed one,
  \<open>Experiment_Demo\<close> its instance.

  \<^bold>\<open>Configuration and administration.\<close> \<open>Configuration\<close> models the records, defaults and validation of \<open>config.rs\<close>;
  \<open>Config_Secrets\<close> how credentials are kept out of stored documents; \<open>Hydration\<close> and \<open>Provider_Urls\<close> the way from a
  stored revision to the configuration of a runtime, its origins and endpoints. \<open>Experiment_Catalogue\<close> models the
  tables of experiments, revisions and secrets, \<open>Experiment_Admin\<close> the administrator's handlers,
  \<open>Lifecycle\<close> the availability of an experiment (\<open>app/lifecycle.rs\<close>). \<open>Runtime_Host\<close> models the process: the
  construction and cache of runtimes, the sessions an earlier process left open, the change of status in its two
  phases. \<open>Host_Invariant\<close> shows that the cache stays current when each operation runs as a whole;
  \<open>Host_Properties\<close> and \<open>Activation_Properties\<close> hold the properties, also of the operations that interleave.
  \<open>Data_Deletion\<close> models the deletion of a participant's data, \<open>Sign_In\<close> credentials, tickets and administrator
  sessions (\<open>auth.rs\<close>), and \<open>Prolific_Study\<close> the check of a linked study with its cache of 30 seconds and
  the verification of launches (\<open>prolific.rs\<close>). Their properties are in \<open>Config_Properties\<close>, \<open>Secrets_Properties\<close>,
  \<open>Catalogue_Properties\<close>, \<open>Deletion_Properties\<close>, \<open>Prolific_Properties\<close> and in \<open>Sign_In\<close>.

  \<^bold>\<open>Voice.\<close> \<open>Voice_Relay\<close> models \<open>rust-server/src/audio.rs\<close>: the frame format, the relay's
  connections and queues of 64 messages, with the lookup of a target and the send as two steps.
  \<open>Transcript_Clock\<close> models \<open>transcription/clock.rs\<close>, which maps a speech provider's times back to capture time, and compares it with a reference that keeps
  every frame. \<open>Voice_Socket\<close> models the handling of a message in the audio socket loop of
  \<open>app.rs\<close>, which feeds both.

  \<^bold>\<open>Shared.\<close> \<open>Prelude\<close> has Rust's results and panics (\<open>outcome\<close>), iterator functions and hints;
  \<open>Json\<close> structured values, 64-bit floats and strings.

  \<^bold>\<open>Conventions and bounds.\<close> Instants are milliseconds (\<open>int\<close>); the code formats and parses them
  as RFC 3339 text. Hash maps are association lists. Drawn values (identifiers, seeds, generations)
  and answers of external services are arguments of the handlers, as are digests, parsers of URIs and of YAML, and
  the encoders that the serialisation framework derives. Store failures are a predicate on
  the calls. The recursive functions all terminate and no fuel is used. Real numbers of the code are rationals;
  the rounding of \<open>Duration\<close> to nanoseconds and that of products with the minutes of a study are left out.
  Machine integers are unbounded where the code cannot reach their limits, and have their width where it matters: the frame fields, the
  transcription clock, whose socket is assumed to live less than \<open>media_bound\<close> milliseconds, and
  the checks of JSON numbers.

  \<^bold>\<open>Not modelled.\<close> The tables of HTTP routes, the layers around them and static files, which are wiring of the
  axum framework; the clients of speech services and of remote agents, which are network protocols; telemetry
  and diagnostics; the timeline, the progress pages, the exports and the privacy report of the
  administration, which only read; schema creation in the store; the load generators and test servers.
  Broadcasts are left out of the handlers: no handler reads them back. \<open>ensure_experiment\<close> is two statements in the
  code and one step here, and the change of status is modelled with a fresh check of the study.
\<close>

end
